(* ===== verification/Prelude.thy ===== *)
theory Prelude
  imports Main "HOL-Library.Word" "HOL-Library.Monad_Syntax" "HOL-Library.Signed_Division"
begin

text \<open>
  What every component of the model shares: names for the C integer types, the error
  numbers the kernel code returns, the single-bit masks, the shape of the loops that walk
  over 20 MHz frequency steps, and the interface of a machine with an invariant.

  Conventions used throughout.
  \<^item> A C function that always returns is a HOL function into its result type.
  \<^item> A C function that may not return (an endless loop) or may touch memory it must not
    (a NULL dereference, an uninitialised variable) is a function into \<open>'a option\<close>;
    None is that outcome, and a claim that the code returns is the claim that the result is Some.
  \<^item> An error return (\<open>-EINVAL\<close>, \<open>ERR_PTR(-EINVAL)\<close>) is \<open>Inl\<close> of the
    error number, a success \<open>Inr\<close> of the value.
  \<^item> Unsigned C integers are words of their width, so that \<open>+\<close>, \<open>-\<close> and
    \<open>*\<close> wrap as in C.
\<close>

section \<open>Machine integers\<close>

unbundle bit_operations_syntax

type_synonym u8 = "8 word"
type_synonym u16 = "16 word"
type_synonym u32 = "32 word"
type_synonym u64 = "64 word"

lemma u32_bound: "unat (a :: u32) < 4294967296"
  using unsigned_less [of a, where 'a = nat] by simp

text \<open>\<open>BIT(n)\<close> of linux/bits.h on a 32-bit and on a 16-bit word.\<close>

definition BIT :: "nat \<Rightarrow> u32" where
  "BIT n = push_bit n 1"

definition flag_set :: "u32 \<Rightarrow> u32 \<Rightarrow> bool" where
  "flag_set x m \<longleftrightarrow> x AND m \<noteq> 0"

lemma flag_set_zero [simp]: "\<not> flag_set 0 m" "\<not> flag_set x 0"
  by (simp_all add: flag_set_def)

lemma flag_set_or [simp]: "flag_set x (m OR n) \<longleftrightarrow> flag_set x m \<or> flag_set x n"
proof -
  have "x AND (m OR n) = (x AND m) OR (x AND n)"
    by (simp add: bit.conj_disj_distrib)
  then show ?thesis
    by (simp add: flag_set_def or_eq_0_iff)
qed

lemma flag_set_or_left [simp]: "flag_set (x OR y) m \<longleftrightarrow> flag_set x m \<or> flag_set y m"
  using flag_set_or [of m x y] by (simp add: flag_set_def and.commute)

section \<open>Error numbers\<close>

datatype errno =
    EINVAL | EBUSY | ENOMEM | EOPNOTSUPP | ERANGE | ENOENT | EILSEQ | ENOBUFS | EPERM
  | EALREADY | ENODEV | ENODATA | EAGAIN | ENETDOWN | ENOLINK

text \<open>A call that returns 0 or a negative error number.\<close>

type_synonym status = "errno + unit"

abbreviation ok :: status where
  "ok \<equiv> Inr ()"

section \<open>Loops over 20 MHz steps\<close>

text \<open>
  net/wireless/chan.c walks over the 20 MHz channels of a frequency segment with
  \<^verbatim>\<open>for (freq = start; freq <= end; freq += 20)\<close> on a u32. The body either leaves the
  enclosing function with a result (\<open>Inl\<close>) or goes on with an updated state (\<open>Inr\<close>).
  The addition wraps, so the loop need not end: None is the run that does not.
\<close>

partial_function (option) freq_loop ::
  "('s \<Rightarrow> u32 \<Rightarrow> 'r + 's) \<Rightarrow> u32 \<Rightarrow> u32 \<Rightarrow> 's \<Rightarrow> ('r + 's) option" where
  "freq_loop body freq end_freq s =
     (if freq \<le> end_freq then
        (case body s freq of
           Inl r \<Rightarrow> Some (Inl r)
         | Inr s' \<Rightarrow> freq_loop body (freq + 20) end_freq s')
      else Some (Inr s))"

definition for_freqs ::
  "('s \<Rightarrow> u32 \<Rightarrow> 'r + 's) \<Rightarrow> u32 \<Rightarrow> u32 \<Rightarrow> 's \<Rightarrow> ('s \<Rightarrow> 'r) \<Rightarrow> 'r option" where
  "for_freqs body start_freq end_freq s after =
     map_option (case_sum (\<lambda>r. r) after) (freq_loop body start_freq end_freq s)"

text \<open>The reference form: the list of frequencies visited, and a fold that may stop early.\<close>

definition freqs :: "u32 \<Rightarrow> u32 \<Rightarrow> u32 list" where
  "freqs a b =
     (if a \<le> b then map (\<lambda>i. a + of_nat (20 * i)) [0..<Suc ((unat b - unat a) div 20)] else [])"

fun fold_until :: "('s \<Rightarrow> 'a \<Rightarrow> 'r + 's) \<Rightarrow> 's \<Rightarrow> 'a list \<Rightarrow> 'r + 's" where
  "fold_until body s [] = Inr s"
| "fold_until body s (x # xs) =
     (case body s x of Inl r \<Rightarrow> Inl r | Inr s' \<Rightarrow> fold_until body s' xs)"

definition no_wrap :: "u32 \<Rightarrow> bool" where
  "no_wrap b \<longleftrightarrow> unat b + 20 < 2 ^ 32"

lemma freqs_empty: "\<not> a \<le> b \<Longrightarrow> freqs a b = []"
  by (simp add: freqs_def)

lemma unat_add_20: "no_wrap b \<Longrightarrow> a \<le> b \<Longrightarrow> unat (a + 20) = unat a + 20"
proof -
  assume b: "no_wrap b" and ab: "a \<le> b"
  from ab have "unat a \<le> unat b" by (simp add: word_le_nat_alt)
  with b have "unat a + unat (20 :: u32) < 2 ^ 32" by (simp add: no_wrap_def)
  then show "unat (a + 20) = unat a + 20"
    by (simp add: unat_word_ariths)
qed

lemma freqs_step:
  assumes "no_wrap b" and "a \<le> b"
  shows "freqs a b = a # freqs (a + 20) b"
proof -
  have u: "unat (a + 20) = unat a + 20" by (rule unat_add_20 [OF assms])
  have ab: "unat a \<le> unat b" using assms(2) by (simp add: word_le_nat_alt)
  show ?thesis
  proof (cases "a + 20 \<le> b")
    case True
    then have le: "unat a + 20 \<le> unat b" by (simp add: word_le_nat_alt u)
    then have n: "Suc ((unat b - unat a) div 20) = Suc (Suc ((unat b - unat (a + 20)) div 20))"
      by (simp add: u div_if [of "unat b - unat a"] diff_diff_left)
    show ?thesis
      using True assms(2)
      by (simp add: freqs_def n upt_conv_Cons map_Suc_upt [symmetric] algebra_simps
          del: upt_Suc map_Suc_upt)
  next
    case False
    then have "unat b < unat a + 20" by (simp add: word_le_nat_alt u)
    then have "(unat b - unat a) div 20 = 0" by simp
    with False assms(2) show ?thesis by (simp add: freqs_def)
  qed
qed


lemma freq_loop_fold:
  "no_wrap b \<Longrightarrow> freq_loop body a b s = Some (fold_until body s (freqs a b))"
proof (induction "2 ^ 32 - unat a" arbitrary: a s rule: less_induct)
  case less
  show ?case
  proof (cases "a \<le> b")
    case False
    then show ?thesis by (simp add: freq_loop.simps [of body a] freqs_empty)
  next
    case True
    have u: "unat (a + 20) = unat a + 20" by (rule unat_add_20 [OF less.prems True])
    then have "2 ^ 32 - unat (a + 20) < 2 ^ 32 - unat a"
      using u32_bound [of a] by simp
    then have IH: "freq_loop body (a + 20) b s' = Some (fold_until body s' (freqs (a + 20) b))"
      for s' using less.hyps less.prems by blast
    show ?thesis
      using True by (simp add: freq_loop.simps [of body a] freqs_step [OF less.prems True] IH
          split: sum.split)
  qed
qed

lemma for_freqs_fold:
  "no_wrap b \<Longrightarrow>
     for_freqs body a b s after = Some (case_sum (\<lambda>r. r) after (fold_until body s (freqs a b)))"
  by (simp add: for_freqs_def freq_loop_fold)

text \<open>
  A loop whose body leaves it at every frequency of the last 20 MHz below the wrap-around
  ends for every bound.
\<close>

lemma freq_loop_ends:
  assumes "\<And>s f. \<not> no_wrap f \<Longrightarrow> \<exists>r. body s f = Inl r"
  shows "\<exists>r. freq_loop body a b s = Some r"
proof (induction "2 ^ 32 - unat a" arbitrary: a s rule: less_induct)
  case less
  show ?case
  proof (cases "a \<le> b \<and> no_wrap a")
    case True
    then have "unat (a + 20) = unat a + 20" using unat_add_20 by blast
    then have "2 ^ 32 - unat (a + 20) < 2 ^ 32 - unat a"
      using u32_bound [of a] by simp
    then have IH: "\<exists>r. freq_loop body (a + 20) b s' = Some r" for s' using less.hyps by blast
    then show ?thesis
      by (subst freq_loop.simps) (auto split: sum.split)
  next
    case False
    then show ?thesis using assms [of a s]
      by (subst freq_loop.simps) auto
  qed
qed

lemma for_freqs_ends:
  assumes "\<And>s f. \<not> no_wrap f \<Longrightarrow> \<exists>r. body s f = Inl r"
  shows "\<exists>r. for_freqs body a b s after = Some r"
  using freq_loop_ends [where body = body and a = a and b = b and s = s, OF assms]
  by (auto simp: for_freqs_def)

text \<open>A loop without state that answers a universal question.\<close>

lemma fold_until_all:
  "fold_until (\<lambda>u x. if P x then Inr u else Inl e) u xs
     = (if \<forall>x \<in> set xs. P x then Inr u else Inl e)"
  by (induction xs) auto

section \<open>Time and sequence control\<close>

text \<open>\<open>time_after\<close> on \<open>unsigned long\<close> jiffies; the masks of the sequence control field.\<close>

definition time_after :: "u64 \<Rightarrow> u64 \<Rightarrow> bool" where
  "time_after a b \<longleftrightarrow> sint (b - a) < 0"

definition IEEE80211_SCTL_SEQ :: u16 where "IEEE80211_SCTL_SEQ = 0xFFF0"
definition IEEE80211_SCTL_FRAG :: u16 where "IEEE80211_SCTL_FRAG = 0x000F"

section \<open>Machines with an invariant\<close>

text \<open>
  The stateful components (a peer link, a reorder buffer, a replay counter) are all used
  the same way: an operation takes the state and an input to a new state and some output,
  and keeps an invariant on every input allowed. \<open>run\<close> feeds a list of inputs.
\<close>

fun run :: "('s \<Rightarrow> 'i \<Rightarrow> 's) \<Rightarrow> 's \<Rightarrow> 'i list \<Rightarrow> 's" where
  "run step s [] = s"
| "run step s (i # is) = run step (step s i) is"

locale machine =
  fixes step :: "'s \<Rightarrow> 'i \<Rightarrow> 's"
    and inv :: "'s \<Rightarrow> bool"
    and allowed :: "'i \<Rightarrow> bool"
  assumes step_inv: "inv s \<Longrightarrow> allowed i \<Longrightarrow> inv (step s i)"
begin

lemma run_inv: "inv s \<Longrightarrow> list_all allowed is \<Longrightarrow> inv (run step s is)"
  by (induction "is" arbitrary: s) (auto intro: step_inv)

end

text \<open>A machine whose state also carries a measure that no step lets fall.\<close>

locale monotone_machine = machine +
  fixes level :: "'s \<Rightarrow> nat"
  assumes step_level: "inv s \<Longrightarrow> allowed i \<Longrightarrow> level s \<le> level (step s i)"
begin

lemma run_level: "inv s \<Longrightarrow> list_all allowed is \<Longrightarrow> level s \<le> level (run step s is)"
proof (induction "is" arbitrary: s)
  case (Cons i "is")
  then have "level s \<le> level (step s i)" and "inv (step s i)"
    by (auto intro: step_level step_inv)
  with Cons show ?case by fastforce
qed simp

end

end
