(* ===== verification/Nl80211.thy ===== *)
theory Nl80211
  imports Prelude
begin

text \<open>
  The enumerations of include/uapi/linux/nl80211.h the model uses, each a datatype with the
  source's constructors, and their C values where the code computes with them (a shift by
  an interface type, a comparison of channel widths). A width reaches the code from user
  space as any 32-bit number, so its datatype has a constructor for the values that are no
  enumerator.
\<close>

section \<open>Bands and interface types\<close>

datatype nl80211_band =
    NL80211_BAND_2GHZ | NL80211_BAND_5GHZ | NL80211_BAND_60GHZ | NL80211_BAND_6GHZ
  | NUM_NL80211_BANDS

text \<open>\<open>for (band = 0; band < NUM_NL80211_BANDS; band++)\<close>: the bands in that order.\<close>

definition all_bands :: "nl80211_band list" where
  "all_bands = [NL80211_BAND_2GHZ, NL80211_BAND_5GHZ, NL80211_BAND_60GHZ, NL80211_BAND_6GHZ]"

datatype nl80211_iftype =
    NL80211_IFTYPE_UNSPECIFIED | NL80211_IFTYPE_ADHOC | NL80211_IFTYPE_STATION
  | NL80211_IFTYPE_AP | NL80211_IFTYPE_AP_VLAN | NL80211_IFTYPE_WDS | NL80211_IFTYPE_MONITOR
  | NL80211_IFTYPE_MESH_POINT | NL80211_IFTYPE_P2P_CLIENT | NL80211_IFTYPE_P2P_GO
  | NL80211_IFTYPE_P2P_DEVICE | NL80211_IFTYPE_OCB | NL80211_IFTYPE_NAN
  | NL80211_IFTYPE_NAN_DATA | NUM_NL80211_IFTYPES

fun iftype_val :: "nl80211_iftype \<Rightarrow> nat" where
  "iftype_val NL80211_IFTYPE_UNSPECIFIED = 0"
| "iftype_val NL80211_IFTYPE_ADHOC = 1"
| "iftype_val NL80211_IFTYPE_STATION = 2"
| "iftype_val NL80211_IFTYPE_AP = 3"
| "iftype_val NL80211_IFTYPE_AP_VLAN = 4"
| "iftype_val NL80211_IFTYPE_WDS = 5"
| "iftype_val NL80211_IFTYPE_MONITOR = 6"
| "iftype_val NL80211_IFTYPE_MESH_POINT = 7"
| "iftype_val NL80211_IFTYPE_P2P_CLIENT = 8"
| "iftype_val NL80211_IFTYPE_P2P_GO = 9"
| "iftype_val NL80211_IFTYPE_P2P_DEVICE = 10"
| "iftype_val NL80211_IFTYPE_OCB = 11"
| "iftype_val NL80211_IFTYPE_NAN = 12"
| "iftype_val NL80211_IFTYPE_NAN_DATA = 13"
| "iftype_val NUM_NL80211_IFTYPES = 14"

definition all_iftypes :: "nl80211_iftype list" where
  "all_iftypes =
     [NL80211_IFTYPE_UNSPECIFIED, NL80211_IFTYPE_ADHOC, NL80211_IFTYPE_STATION,
      NL80211_IFTYPE_AP, NL80211_IFTYPE_AP_VLAN, NL80211_IFTYPE_WDS, NL80211_IFTYPE_MONITOR,
      NL80211_IFTYPE_MESH_POINT, NL80211_IFTYPE_P2P_CLIENT, NL80211_IFTYPE_P2P_GO,
      NL80211_IFTYPE_P2P_DEVICE, NL80211_IFTYPE_OCB, NL80211_IFTYPE_NAN,
      NL80211_IFTYPE_NAN_DATA]"

lemma iftype_val_inj [simp]: "iftype_val a = iftype_val b \<longleftrightarrow> a = b"
  by (cases a; cases b) simp_all

lemma set_all_iftypes: "set all_iftypes = UNIV - {NUM_NL80211_IFTYPES}"
proof (rule set_eqI)
  fix t show "t \<in> set all_iftypes \<longleftrightarrow> t \<in> UNIV - {NUM_NL80211_IFTYPES}"
    by (cases t) (simp_all add: all_iftypes_def)
qed

lemma distinct_all_iftypes: "distinct all_iftypes"
  by (simp add: all_iftypes_def)

lemma map_iftype_val_all: "map iftype_val all_iftypes = [0..<14]"
  by (simp add: all_iftypes_def upt_conv_Cons)

section \<open>Channel widths\<close>

datatype nl80211_chan_width =
    NL80211_CHAN_WIDTH_20_NOHT | NL80211_CHAN_WIDTH_20 | NL80211_CHAN_WIDTH_40
  | NL80211_CHAN_WIDTH_80 | NL80211_CHAN_WIDTH_80P80 | NL80211_CHAN_WIDTH_160
  | NL80211_CHAN_WIDTH_5 | NL80211_CHAN_WIDTH_10
  | CHAN_WIDTH_OTHER nat \<comment> \<open>\<open>CHAN_WIDTH_OTHER n\<close> is the value 8 + n, no enumerator\<close>

fun chan_width_val :: "nl80211_chan_width \<Rightarrow> nat" where
  "chan_width_val NL80211_CHAN_WIDTH_20_NOHT = 0"
| "chan_width_val NL80211_CHAN_WIDTH_20 = 1"
| "chan_width_val NL80211_CHAN_WIDTH_40 = 2"
| "chan_width_val NL80211_CHAN_WIDTH_80 = 3"
| "chan_width_val NL80211_CHAN_WIDTH_80P80 = 4"
| "chan_width_val NL80211_CHAN_WIDTH_160 = 5"
| "chan_width_val NL80211_CHAN_WIDTH_5 = 6"
| "chan_width_val NL80211_CHAN_WIDTH_10 = 7"
| "chan_width_val (CHAN_WIDTH_OTHER n) = 8 + n"

lemma chan_width_val_inj [simp]: "chan_width_val a = chan_width_val b \<longleftrightarrow> a = b"
  by (cases a; cases b) simp_all

text \<open>The code compares widths with \<open><\<close> and \<open>></\<close>: the order of their values.\<close>

instantiation nl80211_chan_width :: linorder
begin

definition less_eq_nl80211_chan_width :: "nl80211_chan_width \<Rightarrow> nl80211_chan_width \<Rightarrow> bool" where
  "a \<le> b \<longleftrightarrow> chan_width_val a \<le> chan_width_val b"

definition less_nl80211_chan_width :: "nl80211_chan_width \<Rightarrow> nl80211_chan_width \<Rightarrow> bool" where
  "a < b \<longleftrightarrow> chan_width_val a < chan_width_val b"

instance
  by intro_classes
    (auto simp: less_eq_nl80211_chan_width_def less_nl80211_chan_width_def
      simp flip: chan_width_val_inj)

end

lemmas chan_width_order = less_eq_nl80211_chan_width_def less_nl80211_chan_width_def

datatype nl80211_channel_type =
    NL80211_CHAN_NO_HT | NL80211_CHAN_HT20 | NL80211_CHAN_HT40MINUS | NL80211_CHAN_HT40PLUS

datatype nl80211_bss_scan_width =
    NL80211_BSS_CHAN_WIDTH_20 | NL80211_BSS_CHAN_WIDTH_10 | NL80211_BSS_CHAN_WIDTH_5

section \<open>Radar detection and regulatory enumerations\<close>

datatype nl80211_dfs_state =
    NL80211_DFS_USABLE | NL80211_DFS_UNAVAILABLE | NL80211_DFS_AVAILABLE

datatype nl80211_dfs_regions =
    NL80211_DFS_UNSET | NL80211_DFS_FCC | NL80211_DFS_ETSI | NL80211_DFS_JP

fun dfs_region_val :: "nl80211_dfs_regions \<Rightarrow> nat" where
  "dfs_region_val NL80211_DFS_UNSET = 0"
| "dfs_region_val NL80211_DFS_FCC = 1"
| "dfs_region_val NL80211_DFS_ETSI = 2"
| "dfs_region_val NL80211_DFS_JP = 3"

datatype nl80211_reg_initiator =
    NL80211_REGDOM_SET_BY_CORE | NL80211_REGDOM_SET_BY_USER | NL80211_REGDOM_SET_BY_DRIVER
  | NL80211_REGDOM_SET_BY_COUNTRY_IE

datatype nl80211_user_reg_hint_type =
    NL80211_USER_REG_HINT_USER | NL80211_USER_REG_HINT_CELL_BASE | NL80211_USER_REG_HINT_INDOOR

text \<open>\<open>enum nl80211_reg_rule_flags\<close>\<close>

abbreviation NL80211_RRF_NO_OFDM :: u32 where "NL80211_RRF_NO_OFDM \<equiv> 0x1"
abbreviation NL80211_RRF_NO_OUTDOOR :: u32 where "NL80211_RRF_NO_OUTDOOR \<equiv> 0x8"
abbreviation NL80211_RRF_DFS :: u32 where "NL80211_RRF_DFS \<equiv> 0x10"
abbreviation NL80211_RRF_NO_IR :: u32 where "NL80211_RRF_NO_IR \<equiv> 0x80"
abbreviation NL80211_RRF_NO_IBSS :: u32 where "NL80211_RRF_NO_IBSS \<equiv> 0x100"
abbreviation NL80211_RRF_NO_IR_ALL :: u32 where "NL80211_RRF_NO_IR_ALL \<equiv> 0x180"
abbreviation NL80211_RRF_AUTO_BW :: u32 where "NL80211_RRF_AUTO_BW \<equiv> 0x800"
abbreviation NL80211_RRF_IR_CONCURRENT :: u32 where "NL80211_RRF_IR_CONCURRENT \<equiv> 0x1000"
abbreviation NL80211_RRF_NO_HT40MINUS :: u32 where "NL80211_RRF_NO_HT40MINUS \<equiv> 0x2000"
abbreviation NL80211_RRF_NO_HT40PLUS :: u32 where "NL80211_RRF_NO_HT40PLUS \<equiv> 0x4000"
abbreviation NL80211_RRF_NO_80MHZ :: u32 where "NL80211_RRF_NO_80MHZ \<equiv> 0x8000"
abbreviation NL80211_RRF_NO_160MHZ :: u32 where "NL80211_RRF_NO_160MHZ \<equiv> 0x10000"

text \<open>\<open>enum ieee80211_channel_flags\<close> of include/net/cfg80211.h\<close>

abbreviation IEEE80211_CHAN_DISABLED :: u32 where "IEEE80211_CHAN_DISABLED \<equiv> 0x1"
abbreviation IEEE80211_CHAN_NO_IR :: u32 where "IEEE80211_CHAN_NO_IR \<equiv> 0x2"
abbreviation IEEE80211_CHAN_RADAR :: u32 where "IEEE80211_CHAN_RADAR \<equiv> 0x8"
abbreviation IEEE80211_CHAN_NO_HT40PLUS :: u32 where "IEEE80211_CHAN_NO_HT40PLUS \<equiv> 0x10"
abbreviation IEEE80211_CHAN_NO_HT40MINUS :: u32 where "IEEE80211_CHAN_NO_HT40MINUS \<equiv> 0x20"
abbreviation IEEE80211_CHAN_NO_HT40 :: u32 where "IEEE80211_CHAN_NO_HT40 \<equiv> 0x30"
abbreviation IEEE80211_CHAN_NO_OFDM :: u32 where "IEEE80211_CHAN_NO_OFDM \<equiv> 0x40"
abbreviation IEEE80211_CHAN_NO_80MHZ :: u32 where "IEEE80211_CHAN_NO_80MHZ \<equiv> 0x80"
abbreviation IEEE80211_CHAN_NO_160MHZ :: u32 where "IEEE80211_CHAN_NO_160MHZ \<equiv> 0x100"
abbreviation IEEE80211_CHAN_INDOOR_ONLY :: u32 where "IEEE80211_CHAN_INDOOR_ONLY \<equiv> 0x200"
abbreviation IEEE80211_CHAN_IR_CONCURRENT :: u32 where "IEEE80211_CHAN_IR_CONCURRENT \<equiv> 0x400"
abbreviation IEEE80211_CHAN_NO_20MHZ :: u32 where "IEEE80211_CHAN_NO_20MHZ \<equiv> 0x800"
abbreviation IEEE80211_CHAN_NO_10MHZ :: u32 where "IEEE80211_CHAN_NO_10MHZ \<equiv> 0x1000"

end
