(* ===== verification/Wiphy.thy ===== *)
theory Wiphy
  imports Nl80211
begin

text \<open>
  The data of include/net/cfg80211.h and include/net/regulatory.h that the core works on
  (channels, bitrates, bands, channel definitions, interfaces, regulatory domains, the
  wireless device itself) and the two ways between channel numbers, frequencies and
  channels (net/wireless/util.c).

  Channels are shared: a channel definition and an associated BSS point into the channel
  array of a band, and the code compares these pointers and writes through them. So a
  channel is reached through a reference and a store, and NULL is None.
\<close>

section \<open>Channels and their store\<close>

record ieee80211_channel =
  ch_band :: nl80211_band
  ch_center_freq :: u32
  ch_hw_value :: u16
  ch_flags :: u32
  ch_max_antenna_gain :: int
  ch_max_power :: int
  ch_max_reg_power :: int
  ch_beacon_found :: bool
  ch_orig_flags :: u32
  ch_orig_mag :: int
  ch_orig_mpwr :: int
  ch_dfs_state :: nl80211_dfs_state
  ch_dfs_state_entered :: u64
  ch_dfs_cac_ms :: u32

type_synonym chan_ref = nat
type_synonym chan_store = "chan_ref \<Rightarrow> ieee80211_channel"

record cfg80211_chan_def =
  cd_chan :: "chan_ref option"
  cd_width :: nl80211_chan_width
  cd_center_freq1 :: u32
  cd_center_freq2 :: u32

section \<open>Bands\<close>

record ieee80211_rate =
  r_flags :: u32
  r_bitrate :: u16
  r_hw_value :: u16
  r_hw_value_short :: u16

record ieee80211_sta_ht_cap =
  ht_cap_bits :: u16
  ht_supported :: bool
  ht_rx_mask :: "u8 list"

record ieee80211_sta_vht_cap =
  vht_supported :: bool
  vht_cap_bits :: u32

record ieee80211_supported_band =
  sb_channels :: "chan_ref list"
  sb_bitrates :: "ieee80211_rate list"
  sb_band :: nl80211_band
  sb_ht_cap :: ieee80211_sta_ht_cap
  sb_vht_cap :: ieee80211_sta_vht_cap

section \<open>Regulatory domains\<close>

record ieee80211_freq_range =
  fr_start_freq_khz :: u32
  fr_end_freq_khz :: u32
  fr_max_bandwidth_khz :: u32

record ieee80211_power_rule =
  pr_max_antenna_gain :: u32
  pr_max_eirp :: u32

record ieee80211_wmm_ac =
  ac_cw_min :: u16
  ac_cw_max :: u16
  ac_cot :: u16
  ac_aifsn :: u8

record ieee80211_wmm_rule =
  wmm_client :: "ieee80211_wmm_ac list"
  wmm_ap :: "ieee80211_wmm_ac list"

record ieee80211_reg_rule =
  rr_freq_range :: ieee80211_freq_range
  rr_power_rule :: ieee80211_power_rule
  rr_wmm_rule :: ieee80211_wmm_rule
  rr_flags :: u32
  rr_dfs_cac_ms :: u32
  rr_has_wmm :: bool

record ieee80211_regdomain =
  rd_alpha2 :: string
  rd_dfs_region :: nl80211_dfs_regions
  rd_reg_rules :: "ieee80211_reg_rule list"

record regulatory_request =
  lr_wiphy_idx :: int
  lr_initiator :: nl80211_reg_initiator
  lr_user_reg_hint_type :: nl80211_user_reg_hint_type
  lr_alpha2 :: string
  lr_dfs_region :: nl80211_dfs_regions
  lr_intersect :: bool
  lr_processed :: bool

section \<open>Interfaces, interface combinations, devices\<close>

text \<open>
  Of \<open>struct wireless_dev\<close> the fields the channel code reads. \<open>wd_netdev\<close> is None
  without a net device, else whether it is running; \<open>wd_current_bss\<close> is the channel of
  the current BSS. \<open>wd_beacon_interval\<close> is the C \<open>int\<close> as its bit pattern.
\<close>

record wireless_dev =
  wd_iftype :: nl80211_iftype
  wd_netdev :: "bool option"
  wd_chandef :: cfg80211_chan_def
  wd_beacon_interval :: u32
  wd_ssid_len :: u8
  wd_mesh_id_len :: u8
  wd_current_bss :: "chan_ref option"
  wd_ibss_fixed :: bool
  wd_ibss_dfs_possible :: bool
  wd_cac_started :: bool

record ieee80211_iface_limit =
  il_max :: u16
  il_types :: u16

record ieee80211_iface_combination =
  ic_limits :: "ieee80211_iface_limit list"
  ic_num_different_channels :: u32
  ic_max_interfaces :: u16
  ic_radar_detect_widths :: u8
  ic_radar_detect_regions :: u8
  ic_beacon_int_min_gcd :: u32

record wiphy =
  w_idx :: int
  w_bands :: "nl80211_band \<Rightarrow> ieee80211_supported_band option"
  w_regd :: "ieee80211_regdomain option"
  w_flags :: u32
  w_features :: u32
  w_regulatory_flags :: u32
  w_ext_features :: "u8 list"
  w_interface_modes :: u16
  w_software_iftypes :: u16
  w_cipher_suites :: "u32 list"
  w_iface_combinations :: "ieee80211_iface_combination list"
  w_wdev_list :: "wireless_dev list"

text \<open>
  The globals of cfg80211: the regulatory state of reg.c (the last request is never NULL
  there: it starts as the world request), the device list of core.c, the clock, and the two
  build options the modelled code depends on.
\<close>

record cfg80211 =
  g_regdomain :: "ieee80211_regdomain option"
  g_last_request :: regulatory_request
  g_requests_list :: "regulatory_request list"
  g_user_alpha2 :: string
  g_reg_is_indoor :: bool
  g_reg_beacon_list :: "ieee80211_channel list"
  g_num_devs_support_basehint :: nat
  g_rdev_list :: "wiphy list"
  g_jiffies :: u64
  g_config_relax_no_ir :: bool \<comment> \<open>CPTCFG_CFG80211_REG_RELAX_NO_IR\<close>
  g_config_cellular_hints :: bool \<comment> \<open>CPTCFG_CFG80211_REG_CELLULAR_HINTS\<close>

text \<open>\<open>wiphy_ext_feature_isset\<close>, and the feature indices the model asks for.\<close>

definition wiphy_ext_feature_isset :: "wiphy \<Rightarrow> nat \<Rightarrow> bool option" where
  "wiphy_ext_feature_isset w ftidx =
     (if ftidx div 8 < length (w_ext_features w) then
        Some ((w_ext_features w ! (ftidx div 8)) AND push_bit (ftidx mod 8) 1 \<noteq> 0)
      else None)"

definition NL80211_EXT_FEATURE_DFS_OFFLOAD :: nat where
  "NL80211_EXT_FEATURE_DFS_OFFLOAD = 25"

definition NL80211_EXT_FEATURE_EXT_KEY_ID :: nat where
  "NL80211_EXT_FEATURE_EXT_KEY_ID = 36"

section \<open>Channel numbers and frequencies\<close>

definition ieee80211_channel_to_frequency :: "int \<Rightarrow> nl80211_band \<Rightarrow> int" where
  "ieee80211_channel_to_frequency chan band =
     (if chan \<le> 0 then 0
      else case band of
        NL80211_BAND_2GHZ \<Rightarrow>
          (if chan = 14 then 2484 else if chan < 14 then 2407 + chan * 5 else 0)
      | NL80211_BAND_5GHZ \<Rightarrow>
          (if 182 \<le> chan \<and> chan \<le> 196 then 4000 + chan * 5 else 5000 + chan * 5)
      | NL80211_BAND_6GHZ \<Rightarrow> (if chan \<le> 253 then 5940 + chan * 5 else 0)
      | NL80211_BAND_60GHZ \<Rightarrow> (if chan < 7 then 56160 + chan * 2160 else 0)
      | NUM_NL80211_BANDS \<Rightarrow> 0)"

text \<open>C division truncates towards zero: \<open>sdiv\<close>.\<close>

definition ieee80211_frequency_to_channel :: "int \<Rightarrow> int" where
  "ieee80211_frequency_to_channel freq =
     (if freq = 2484 then 14
      else if freq < 2484 then (freq - 2407) sdiv 5
      else if 4910 \<le> freq \<and> freq \<le> 4980 then (freq - 4000) sdiv 5
      else if freq < 5940 then (freq - 5000) sdiv 5
      else if freq \<le> 45000 then (freq - 5940) sdiv 5
      else if 58320 \<le> freq \<and> freq \<le> 70200 then (freq - 56160) sdiv 2160
      else 0)"

text \<open>
  Channels whose number and frequency determine each other. 5 GHz channel numbers above 196
  run into the frequencies of the 6 GHz band.
\<close>

definition channel_number_ok :: "int \<Rightarrow> nl80211_band \<Rightarrow> bool" where
  "channel_number_ok chan band \<longleftrightarrow>
     (case band of
        NL80211_BAND_2GHZ \<Rightarrow> 1 \<le> chan \<and> chan \<le> 14
      | NL80211_BAND_5GHZ \<Rightarrow> 1 \<le> chan \<and> chan \<le> 196
      | NL80211_BAND_6GHZ \<Rightarrow> 1 \<le> chan \<and> chan \<le> 253
      | NL80211_BAND_60GHZ \<Rightarrow> 1 \<le> chan \<and> chan \<le> 6
      | NUM_NL80211_BANDS \<Rightarrow> False)"

lemma sdiv_nonneg: "0 \<le> (a::int) \<Longrightarrow> 0 < b \<Longrightarrow> a sdiv b = a div b"
  by (simp add: signed_divide_int_def sgn_if)

section \<open>Looking a channel up\<close>

definition find_chan :: "chan_store \<Rightarrow> ieee80211_supported_band \<Rightarrow> u32 \<Rightarrow> chan_ref option" where
  "find_chan h sband freq = List.find (\<lambda>r. ch_center_freq (h r) = freq) (sb_channels sband)"

fun get_channel_in :: "chan_store \<Rightarrow> wiphy \<Rightarrow> nl80211_band list \<Rightarrow> u32 \<Rightarrow> chan_ref option" where
  "get_channel_in h w [] freq = None"
| "get_channel_in h w (b # bs) freq =
     (case w_bands w b of
        None \<Rightarrow> get_channel_in h w bs freq
      | Some sband \<Rightarrow>
          (case find_chan h sband freq of
             Some r \<Rightarrow> Some r
           | None \<Rightarrow> get_channel_in h w bs freq))"

definition ieee80211_get_channel :: "chan_store \<Rightarrow> wiphy \<Rightarrow> u32 \<Rightarrow> chan_ref option" where
  "ieee80211_get_channel h w freq = get_channel_in h w all_bands freq"

definition wiphy_chans :: "wiphy \<Rightarrow> chan_ref set" where
  "wiphy_chans w = {r. \<exists>b \<in> set all_bands. \<exists>sb. w_bands w b = Some sb \<and> r \<in> set (sb_channels sb)}"

lemma find_chan_Some:
  "find_chan h sb f = Some r \<Longrightarrow> ch_center_freq (h r) = f \<and> r \<in> set (sb_channels sb)"
  by (auto simp: find_chan_def find_Some_iff)

lemma find_chan_None:
  "find_chan h sb f = None \<longleftrightarrow> (\<forall>r \<in> set (sb_channels sb). ch_center_freq (h r) \<noteq> f)"
  by (auto simp: find_chan_def find_None_iff)

lemma get_channel_in_Some:
  "get_channel_in h w bs f = Some r \<Longrightarrow>
     ch_center_freq (h r) = f \<and> (\<exists>b \<in> set bs. \<exists>sb. w_bands w b = Some sb \<and> r \<in> set (sb_channels sb))"
  by (induction h w bs f rule: get_channel_in.induct)
    (auto split: option.splits dest: find_chan_Some)

lemma get_channel_in_None:
  "get_channel_in h w bs f = None \<longleftrightarrow>
     (\<forall>b \<in> set bs. \<forall>sb. w_bands w b = Some sb \<longrightarrow> (\<forall>r \<in> set (sb_channels sb). ch_center_freq (h r) \<noteq> f))"
  by (induction h w bs f rule: get_channel_in.induct)
    (auto split: option.splits simp: find_chan_None dest: find_chan_Some)

lemma get_channel_Some:
  "ieee80211_get_channel h w f = Some r \<Longrightarrow> ch_center_freq (h r) = f \<and> r \<in> wiphy_chans w"
  unfolding ieee80211_get_channel_def wiphy_chans_def by (auto dest: get_channel_in_Some)

lemma get_channel_None:
  "ieee80211_get_channel h w f = None \<longleftrightarrow> (\<forall>r \<in> wiphy_chans w. ch_center_freq (h r) \<noteq> f)"
  unfolding ieee80211_get_channel_def wiphy_chans_def by (auto simp: get_channel_in_None)

text \<open>A store that agrees on the frequencies gives the same answers.\<close>

lemma get_channel_cong:
  assumes "\<And>r. ch_center_freq (h' r) = ch_center_freq (h r)"
  shows "ieee80211_get_channel h' w f = ieee80211_get_channel h w f"
proof -
  have "get_channel_in h' w bs f = get_channel_in h w bs f" for bs
    by (induction bs) (simp_all add: find_chan_def assms split: option.split)
  then show ?thesis by (simp add: ieee80211_get_channel_def)
qed

section \<open>The channel directory as an interface\<close>

text \<open>
  What the channel code relies on when it walks over frequencies: a lookup answers with a
  channel of the asked frequency or says there is none, and no channel sits in the last
  20 MHz before the 32-bit wrap-around (frequencies are in MHz; real ones stay below 71000).
\<close>

locale chan_directory =
  fixes lookup :: "u32 \<Rightarrow> 'c option"
    and freq_of :: "'c \<Rightarrow> u32"
  assumes lookup_freq: "lookup f = Some c \<Longrightarrow> freq_of c = f"
    and freq_bound: "lookup f = Some c \<Longrightarrow> no_wrap (freq_of c)"
begin

lemma lookup_wraps: "\<not> no_wrap f \<Longrightarrow> lookup f = None"
  using lookup_freq freq_bound by (cases "lookup f") auto

text \<open>So a loop that leaves when a lookup fails ends, whatever its bounds.\<close>

lemma lookup_loop_ends:
  assumes "\<And>s f. lookup f = None \<Longrightarrow> \<exists>r. body s f = Inl r"
  shows "\<exists>r. for_freqs body a b s after = Some r"
  by (rule for_freqs_ends) (use assms lookup_wraps in blast)

end

definition wiphy_freqs_ok :: "chan_store \<Rightarrow> wiphy \<Rightarrow> bool" where
  "wiphy_freqs_ok h w \<longleftrightarrow> (\<forall>r \<in> wiphy_chans w. no_wrap (ch_center_freq (h r)))"

text \<open>
  The code's lookup provides it. A device whose channels break the bound has no directory,
  so the interpreted lookup is guarded by the bound, which \<open>wiphy_lookup_ok\<close> removes.
\<close>

definition wiphy_lookup :: "chan_store \<Rightarrow> wiphy \<Rightarrow> u32 \<Rightarrow> chan_ref option" where
  "wiphy_lookup h w f = (if wiphy_freqs_ok h w then ieee80211_get_channel h w f else None)"

lemma wiphy_lookup_ok: "wiphy_freqs_ok h w \<Longrightarrow> wiphy_lookup h w f = ieee80211_get_channel h w f"
  by (simp add: wiphy_lookup_def)

interpretation wiphy_dir: chan_directory "wiphy_lookup h w" "\<lambda>r. ch_center_freq (h r)" for h w
  by unfold_locales (auto simp: wiphy_lookup_def wiphy_freqs_ok_def dest: get_channel_Some split: if_splits)

end
