(* ===== verification/Regdom.thy ===== *)
theory Regdom
  imports Wiphy
begin

text \<open>
  Regulatory domains (net/wireless/reg.c): the bandwidth of a rule, the sanity check of
  rules, the intersection of two domains, and the lookup of the rule of a frequency.

  The code identifies a rule by its address in the rule array of a domain; here it is the
  index into the list of rules.
\<close>

section \<open>Country codes\<close>

definition is_world_regdom :: "string \<Rightarrow> bool" where
  "is_world_regdom alpha2 \<longleftrightarrow> take 2 alpha2 = ''00''"

definition is_unknown_alpha2 :: "string \<Rightarrow> bool" where
  "is_unknown_alpha2 alpha2 \<longleftrightarrow> take 2 alpha2 = ''99''"

definition is_intersected_alpha2 :: "string \<Rightarrow> bool" where
  "is_intersected_alpha2 alpha2 \<longleftrightarrow> take 2 alpha2 = ''98''"

text \<open>\<open>isalpha\<close> of linux/ctype.h: the ASCII letters and the Latin-1 ones.\<close>

definition ctype_isalpha :: "char \<Rightarrow> bool" where
  "ctype_isalpha c \<longleftrightarrow>
     (let n = of_char c :: nat in
      65 \<le> n \<and> n \<le> 90 \<or> 97 \<le> n \<and> n \<le> 122 \<or> 192 \<le> n \<and> n \<le> 255 \<and> n \<noteq> 215 \<and> n \<noteq> 247)"

fun is_an_alpha2 :: "string \<Rightarrow> bool" where
  "is_an_alpha2 (a # b # rest) = (ctype_isalpha a \<and> ctype_isalpha b)"
| "is_an_alpha2 alpha2 = False"

definition alpha2_equal :: "string \<Rightarrow> string \<Rightarrow> bool" where
  "alpha2_equal alpha2_x alpha2_y \<longleftrightarrow> take 2 alpha2_x = take 2 alpha2_y"

section \<open>The bandwidth of a rule\<close>

text \<open>Extending the range of a rule downwards and upwards over rules that touch it.\<close>

fun widen_down :: "ieee80211_reg_rule list \<Rightarrow> nat \<Rightarrow> ieee80211_freq_range \<Rightarrow> ieee80211_freq_range" where
  "widen_down rules 0 freq_range = freq_range"
| "widen_down rules (Suc no) freq_range =
     (if fr_end_freq_khz (rr_freq_range (rules ! no)) < fr_start_freq_khz freq_range then freq_range
      else widen_down rules no (rr_freq_range (rules ! no)))"

fun widen_up :: "ieee80211_reg_rule list \<Rightarrow> ieee80211_freq_range \<Rightarrow> ieee80211_freq_range" where
  "widen_up [] freq_range = freq_range"
| "widen_up (rule # rules) freq_range =
     (if fr_start_freq_khz (rr_freq_range rule) > fr_end_freq_khz freq_range then freq_range
      else widen_up rules (rr_freq_range rule))"

definition reg_get_max_bandwidth_from_range :: "ieee80211_regdomain \<Rightarrow> nat \<Rightarrow> u32" where
  "reg_get_max_bandwidth_from_range rd idx =
     (let rules = rd_reg_rules rd in
      if idx \<ge> length rules then 0
      else
        let freq_range = rr_freq_range (rules ! idx);
            start_freq = fr_start_freq_khz (widen_down rules idx freq_range);
            end_freq = fr_end_freq_khz (widen_up (drop (Suc idx) rules) freq_range)
        in end_freq - start_freq)"

abbreviation MHZ_TO_KHZ :: "u32 \<Rightarrow> u32" where
  "MHZ_TO_KHZ freq \<equiv> freq * 1000"

definition limit_bandwidth :: "u32 \<Rightarrow> u32 \<Rightarrow> u32" where
  "limit_bandwidth flags bw =
     (let bw = (if flag_set flags NL80211_RRF_NO_160MHZ then min bw (MHZ_TO_KHZ 80) else bw);
          bw = (if flag_set flags NL80211_RRF_NO_80MHZ then min bw (MHZ_TO_KHZ 40) else bw)
      in if flag_set flags NL80211_RRF_NO_HT40MINUS \<and> flag_set flags NL80211_RRF_NO_HT40PLUS
         then min bw (MHZ_TO_KHZ 20) else bw)"

text \<open>The flags are those of the rule; a rule outside the domain has no bandwidth.\<close>

definition reg_get_max_bandwidth :: "ieee80211_regdomain \<Rightarrow> nat \<Rightarrow> u32" where
  "reg_get_max_bandwidth rd idx =
     (let bw = reg_get_max_bandwidth_from_range rd idx in
      if idx < length (rd_reg_rules rd) then limit_bandwidth (rr_flags (rd_reg_rules rd ! idx)) bw
      else bw)"

section \<open>Sane rules and domains\<close>

definition is_valid_reg_rule :: "ieee80211_reg_rule \<Rightarrow> bool" where
  "is_valid_reg_rule rule =
     (let fr = rr_freq_range rule in
      if fr_start_freq_khz fr \<le> 0 \<or> fr_end_freq_khz fr \<le> 0 then False
      else if fr_start_freq_khz fr > fr_end_freq_khz fr then False
      else
        let freq_diff = fr_end_freq_khz fr - fr_start_freq_khz fr
        in \<not> (fr_end_freq_khz fr \<le> fr_start_freq_khz fr \<or> fr_max_bandwidth_khz fr > freq_diff))"

definition NL80211_MAX_SUPP_REG_RULES :: nat where
  "NL80211_MAX_SUPP_REG_RULES = 128"

definition is_valid_rd :: "ieee80211_regdomain \<Rightarrow> bool" where
  "is_valid_rd rd =
     (if rd_reg_rules rd = [] then False
      else if length (rd_reg_rules rd) > NL80211_MAX_SUPP_REG_RULES then False
      else list_all is_valid_reg_rule (rd_reg_rules rd))"

text \<open>
  \<open>abs\<close> of an unsigned difference goes through \<open>int\<close>: the difference is read as a
  signed number.
\<close>

definition abs_diff :: "u32 \<Rightarrow> u32 \<Rightarrow> u32" where
  "abs_diff a b = (let d = a - b in if d <s 0 then - d else d)"

definition freq_in_rule_band :: "ieee80211_freq_range \<Rightarrow> u32 \<Rightarrow> bool" where
  "freq_in_rule_band freq_range freq_khz =
     (let limit = (if freq_khz > 45 * 1000000 then 20 * 1000000 else 2 * 1000000) in
      if abs_diff freq_khz (fr_start_freq_khz freq_range) \<le> limit then True
      else abs_diff freq_khz (fr_end_freq_khz freq_range) \<le> limit)"

definition cfg80211_does_bw_fit_range :: "ieee80211_freq_range \<Rightarrow> u32 \<Rightarrow> u32 \<Rightarrow> bool" where
  "cfg80211_does_bw_fit_range freq_range center_freq_khz bw_khz =
     (let start_freq_khz = center_freq_khz - bw_khz div 2;
          end_freq_khz = center_freq_khz + bw_khz div 2
      in start_freq_khz \<ge> fr_start_freq_khz freq_range \<and> end_freq_khz \<le> fr_end_freq_khz freq_range)"

section \<open>Intersection\<close>

definition reg_intersect_dfs_region ::
  "nl80211_dfs_regions \<Rightarrow> nl80211_dfs_regions \<Rightarrow> nl80211_dfs_regions" where
  "reg_intersect_dfs_region dfs_region1 dfs_region2 =
     (if dfs_region1 \<noteq> dfs_region2 then NL80211_DFS_UNSET else dfs_region1)"

definition reg_wmm_rules_intersect :: "ieee80211_wmm_ac \<Rightarrow> ieee80211_wmm_ac \<Rightarrow> ieee80211_wmm_ac" where
  "reg_wmm_rules_intersect wmm_ac1 wmm_ac2 =
     \<lparr>ac_cw_min = max (ac_cw_min wmm_ac1) (ac_cw_min wmm_ac2),
      ac_cw_max = max (ac_cw_max wmm_ac1) (ac_cw_max wmm_ac2),
      ac_cot = min (ac_cot wmm_ac1) (ac_cot wmm_ac2),
      ac_aifsn = max (ac_aifsn wmm_ac1) (ac_aifsn wmm_ac2)\<rparr>"

text \<open>
  \<open>intersect_wmm\<close>: the wmm part of the intersected rule. Where neither rule has one, what was
  in the output structure before stays there (\<open>old\<close>).
\<close>

definition intersect_wmm ::
  "ieee80211_reg_rule \<Rightarrow> ieee80211_reg_rule \<Rightarrow> ieee80211_wmm_rule \<Rightarrow> ieee80211_wmm_rule \<times> bool" where
  "intersect_wmm rule1 rule2 old =
     (if rr_has_wmm rule1 \<and> rr_has_wmm rule2 then
        (\<lparr>wmm_client = map2 reg_wmm_rules_intersect (wmm_client (rr_wmm_rule rule1)) (wmm_client (rr_wmm_rule rule2)),
          wmm_ap = map2 reg_wmm_rules_intersect (wmm_ap (rr_wmm_rule rule1)) (wmm_ap (rr_wmm_rule rule2))\<rparr>, True)
      else if rr_has_wmm rule1 then (rr_wmm_rule rule1, True)
      else if rr_has_wmm rule2 then (rr_wmm_rule rule2, True)
      else (old, False))"

text \<open>The intersected rule is written even where the result is an error.\<close>

definition reg_rules_intersect ::
  "ieee80211_regdomain \<Rightarrow> ieee80211_regdomain \<Rightarrow> nat \<Rightarrow> nat \<Rightarrow> ieee80211_wmm_rule \<Rightarrow>
     status \<times> ieee80211_reg_rule" where
  "reg_rules_intersect rd1 rd2 x y old =
     (let rule1 = rd_reg_rules rd1 ! x;
          rule2 = rd_reg_rules rd2 ! y;
          fr1 = rr_freq_range rule1;
          fr2 = rr_freq_range rule2;
          start_freq_khz = max (fr_start_freq_khz fr1) (fr_start_freq_khz fr2);
          end_freq_khz = min (fr_end_freq_khz fr1) (fr_end_freq_khz fr2);
          max_bandwidth1 =
            (if flag_set (rr_flags rule1) NL80211_RRF_AUTO_BW then reg_get_max_bandwidth rd1 x
             else fr_max_bandwidth_khz fr1);
          max_bandwidth2 =
            (if flag_set (rr_flags rule2) NL80211_RRF_AUTO_BW then reg_get_max_bandwidth rd2 y
             else fr_max_bandwidth_khz fr2);
          max_bandwidth_khz = min max_bandwidth1 max_bandwidth2;
          flags = rr_flags rule1 OR rr_flags rule2;
          flags =
            (if flag_set (rr_flags rule1) NL80211_RRF_AUTO_BW \<and> flag_set (rr_flags rule2) NL80211_RRF_AUTO_BW
             then flags OR NL80211_RRF_AUTO_BW
             else flags AND NOT NL80211_RRF_AUTO_BW);
          freq_diff = end_freq_khz - start_freq_khz;
          max_bandwidth_khz = (if max_bandwidth_khz > freq_diff then freq_diff else max_bandwidth_khz);
          (wmm, has_wmm) = intersect_wmm rule1 rule2 old;
          rule =
            \<lparr>rr_freq_range =
               \<lparr>fr_start_freq_khz = start_freq_khz, fr_end_freq_khz = end_freq_khz,
                fr_max_bandwidth_khz = max_bandwidth_khz\<rparr>,
             rr_power_rule =
               \<lparr>pr_max_antenna_gain =
                  min (pr_max_antenna_gain (rr_power_rule rule1)) (pr_max_antenna_gain (rr_power_rule rule2)),
                pr_max_eirp = min (pr_max_eirp (rr_power_rule rule1)) (pr_max_eirp (rr_power_rule rule2))\<rparr>,
             rr_wmm_rule = wmm,
             rr_flags = flags,
             rr_dfs_cac_ms = max (rr_dfs_cac_ms rule1) (rr_dfs_cac_ms rule2),
             rr_has_wmm = has_wmm\<rparr>
      in (if is_valid_reg_rule rule then ok else Inl EINVAL, rule))"

definition rule_contains :: "ieee80211_reg_rule \<Rightarrow> ieee80211_reg_rule \<Rightarrow> bool" where
  "rule_contains r1 r2 =
     (if rr_flags r1 \<noteq> rr_flags r2 then False
      else if pr_max_antenna_gain (rr_power_rule r1) > pr_max_antenna_gain (rr_power_rule r2) \<or>
              pr_max_eirp (rr_power_rule r1) > pr_max_eirp (rr_power_rule r2) then False
      else if fr_start_freq_khz (rr_freq_range r1) > fr_start_freq_khz (rr_freq_range r2) \<or>
              fr_end_freq_khz (rr_freq_range r1) < fr_end_freq_khz (rr_freq_range r2) then False
      else \<not> fr_max_bandwidth_khz (rr_freq_range r1) < fr_max_bandwidth_khz (rr_freq_range r2))"

text \<open>
  The rules so far are the filled part of an array of \<open>capacity\<close> rules; None is a write
  behind its end.
\<close>

fun add_rule_at ::
  "nat \<Rightarrow> ieee80211_reg_rule \<Rightarrow> ieee80211_reg_rule list \<Rightarrow> ieee80211_reg_rule list option" where
  "add_rule_at room rule [] = (if 0 < room then Some [rule] else None)"
| "add_rule_at room rule (tmp_rule # rules) =
     (if rule_contains tmp_rule rule then Some (tmp_rule # rules)
      else if rule_contains rule tmp_rule then Some (rule # rules)
      else map_option (\<lambda>rs. tmp_rule # rs) (add_rule_at (room - 1) rule rules))"

definition add_rule ::
  "nat \<Rightarrow> ieee80211_reg_rule \<Rightarrow> ieee80211_reg_rule list \<Rightarrow> ieee80211_reg_rule list option" where
  "add_rule capacity rule rules = add_rule_at capacity rule rules"

text \<open>The two nested loops over the rules of both domains visit these pairs in this order.\<close>

definition rule_pairs :: "ieee80211_regdomain \<Rightarrow> ieee80211_regdomain \<Rightarrow> (nat \<times> nat) list" where
  "rule_pairs rd1 rd2 =
     concat (map (\<lambda>x. map (\<lambda>y. (x, y)) [0..<length (rd_reg_rules rd2)]) [0..<length (rd_reg_rules rd1)])"

text \<open>First pass: the number of pairs that intersect, and what it leaves on the stack.\<close>

fun count_intersections ::
  "ieee80211_regdomain \<Rightarrow> ieee80211_regdomain \<Rightarrow> (nat \<times> nat) list \<Rightarrow> ieee80211_wmm_rule \<Rightarrow> nat \<Rightarrow>
     nat \<times> ieee80211_wmm_rule" where
  "count_intersections rd1 rd2 [] old num_rules = (num_rules, old)"
| "count_intersections rd1 rd2 ((x, y) # pairs) old num_rules =
     (case reg_rules_intersect rd1 rd2 x y old of
        (r, rule) \<Rightarrow>
          count_intersections rd1 rd2 pairs (rr_wmm_rule rule)
            (if r = ok then Suc num_rules else num_rules))"

text \<open>Second pass: the rules are built.\<close>

fun build_rules ::
  "nat \<Rightarrow> ieee80211_regdomain \<Rightarrow> ieee80211_regdomain \<Rightarrow> (nat \<times> nat) list \<Rightarrow> ieee80211_wmm_rule \<Rightarrow>
     ieee80211_reg_rule list \<Rightarrow> ieee80211_reg_rule list option" where
  "build_rules capacity rd1 rd2 [] old rules = Some rules"
| "build_rules capacity rd1 rd2 ((x, y) # pairs) old rules =
     (case reg_rules_intersect rd1 rd2 x y old of
        (r, rule) \<Rightarrow>
          if r \<noteq> ok then build_rules capacity rd1 rd2 pairs (rr_wmm_rule rule) rules
          else do {
            rules' \<leftarrow> add_rule capacity rule rules;
            build_rules capacity rd1 rd2 pairs (rr_wmm_rule rule) rules'
          })"

text \<open>
  \<open>junk\<close> is what the uninitialised \<open>intersected_rule\<close> holds on the stack,
  \<open>alloc_ok\<close> whether the allocation succeeds. The inner option is the returned pointer.
\<close>

definition regdom_intersect ::
  "ieee80211_wmm_rule \<Rightarrow> bool \<Rightarrow> ieee80211_regdomain option \<Rightarrow> ieee80211_regdomain option \<Rightarrow>
     ieee80211_regdomain option option" where
  "regdom_intersect junk alloc_ok rd1 rd2 =
     (case (rd1, rd2) of
        (Some rd1, Some rd2) \<Rightarrow>
          (case count_intersections rd1 rd2 (rule_pairs rd1 rd2) junk 0 of
             (num_rules, junk') \<Rightarrow>
               if num_rules = 0 then Some None
               else if \<not> alloc_ok then Some None
               else do {
                 rules \<leftarrow> build_rules num_rules rd1 rd2 (rule_pairs rd1 rd2) junk' [];
                 Some (Some \<lparr>rd_alpha2 = ''98'',
                             rd_dfs_region = reg_intersect_dfs_region (rd_dfs_region rd1) (rd_dfs_region rd2),
                             rd_reg_rules = rules\<rparr>)
               })
      | _ \<Rightarrow> Some None)"

section \<open>The rule of a frequency\<close>

fun freq_reg_scan ::
  "u32 \<Rightarrow> u32 \<Rightarrow> bool \<Rightarrow> nat \<Rightarrow> ieee80211_reg_rule list \<Rightarrow> errno + nat" where
  "freq_reg_scan center_freq bw band_rule_found i [] =
     (if \<not> band_rule_found then Inl ERANGE else Inl EINVAL)"
| "freq_reg_scan center_freq bw band_rule_found i (rr # rules) =
     (let fr = rr_freq_range rr;
          band_rule_found = (if \<not> band_rule_found then freq_in_rule_band fr center_freq else band_rule_found);
          bw_fits = cfg80211_does_bw_fit_range fr center_freq bw
      in if band_rule_found \<and> bw_fits then Inr i
         else freq_reg_scan center_freq bw band_rule_found (Suc i) rules)"

definition freq_reg_info_regd :: "u32 \<Rightarrow> ieee80211_regdomain option \<Rightarrow> u32 \<Rightarrow> errno + nat" where
  "freq_reg_info_regd center_freq regd bw =
     (case regd of
        None \<Rightarrow> Inl EINVAL
      | Some rd \<Rightarrow> freq_reg_scan center_freq bw False 0 (rd_reg_rules rd))"

definition reg_get_regdomain :: "cfg80211 \<Rightarrow> wiphy \<Rightarrow> ieee80211_regdomain option" where
  "reg_get_regdomain g w =
     (let lr = g_last_request g in
      if lr_initiator lr \<noteq> NL80211_REGDOM_SET_BY_COUNTRY_IE \<and>
         lr_initiator lr \<noteq> NL80211_REGDOM_SET_BY_USER \<and> w_regd w \<noteq> None
      then w_regd w
      else g_regdomain g)"

text \<open>
  The loop of \<open>__freq_reg_info\<close> over the bandwidths 20, 10, ... MHz. It ends for a positive
  lower bound only; the result NULL (\<open>Inr None\<close>) is that of a loop not entered.
\<close>

partial_function (option) freq_reg_loop ::
  "u32 \<Rightarrow> ieee80211_regdomain option \<Rightarrow> u32 \<Rightarrow> u32 \<Rightarrow> errno + nat option \<Rightarrow> (errno + nat option) option" where
  "freq_reg_loop center_freq regd min_bw bw reg_rule =
     (if bw \<ge> min_bw then
        (case freq_reg_info_regd center_freq regd bw of
           Inr i \<Rightarrow> Some (Inr (Some i))
         | Inl e \<Rightarrow> freq_reg_loop center_freq regd min_bw (bw div 2) (Inl e))
      else Some reg_rule)"

definition freq_reg_info_min :: "cfg80211 \<Rightarrow> wiphy \<Rightarrow> u32 \<Rightarrow> u32 \<Rightarrow> (errno + nat option) option" where
  "freq_reg_info_min g w center_freq min_bw =
     freq_reg_loop center_freq (reg_get_regdomain g w) min_bw (MHZ_TO_KHZ 20) (Inr None)"

definition freq_reg_info :: "cfg80211 \<Rightarrow> wiphy \<Rightarrow> u32 \<Rightarrow> (errno + nat option) option" where
  "freq_reg_info g w center_freq = freq_reg_info_min g w center_freq (MHZ_TO_KHZ 20)"

section \<open>From rules to channel flags\<close>

definition or_if :: "bool \<Rightarrow> u32 \<Rightarrow> u32 \<Rightarrow> u32" where
  "or_if b m x = (if b then x OR m else x)"

definition map_regdom_flags :: "u32 \<Rightarrow> u32" where
  "map_regdom_flags rd_flags =
     (let has = flag_set rd_flags in
      or_if (has NL80211_RRF_NO_160MHZ) IEEE80211_CHAN_NO_160MHZ
     (or_if (has NL80211_RRF_NO_80MHZ) IEEE80211_CHAN_NO_80MHZ
     (or_if (has NL80211_RRF_NO_HT40PLUS) IEEE80211_CHAN_NO_HT40PLUS
     (or_if (has NL80211_RRF_NO_HT40MINUS) IEEE80211_CHAN_NO_HT40MINUS
     (or_if (has NL80211_RRF_IR_CONCURRENT) IEEE80211_CHAN_IR_CONCURRENT
     (or_if (has NL80211_RRF_NO_OUTDOOR) IEEE80211_CHAN_INDOOR_ONLY
     (or_if (has NL80211_RRF_NO_OFDM) IEEE80211_CHAN_NO_OFDM
     (or_if (has NL80211_RRF_DFS) IEEE80211_CHAN_RADAR
     (or_if (has NL80211_RRF_NO_IR_ALL) IEEE80211_CHAN_NO_IR 0)))))))))"

definition reg_rule_to_chan_bw_flags ::
  "ieee80211_regdomain \<Rightarrow> nat \<Rightarrow> ieee80211_channel \<Rightarrow> u32" where
  "reg_rule_to_chan_bw_flags regd idx chan =
     (let reg_rule = rd_reg_rules regd ! idx;
          freq_range = rr_freq_range reg_rule;
          max_bandwidth_khz =
            (if flag_set (rr_flags reg_rule) NL80211_RRF_AUTO_BW then reg_get_max_bandwidth regd idx
             else fr_max_bandwidth_khz freq_range);
          fits = (\<lambda>bw. cfg80211_does_bw_fit_range freq_range (MHZ_TO_KHZ (ch_center_freq chan)) (MHZ_TO_KHZ bw))
      in or_if (max_bandwidth_khz < MHZ_TO_KHZ 160) IEEE80211_CHAN_NO_160MHZ
        (or_if (max_bandwidth_khz < MHZ_TO_KHZ 80) IEEE80211_CHAN_NO_80MHZ
        (or_if (max_bandwidth_khz < MHZ_TO_KHZ 40) IEEE80211_CHAN_NO_HT40
        (or_if (max_bandwidth_khz < MHZ_TO_KHZ 20) IEEE80211_CHAN_NO_20MHZ
        (or_if (max_bandwidth_khz < MHZ_TO_KHZ 10) IEEE80211_CHAN_NO_10MHZ
        (or_if (\<not> fits 20) IEEE80211_CHAN_NO_20MHZ
        (or_if (\<not> fits 10) IEEE80211_CHAN_NO_10MHZ 0)))))))"


section \<open>Facts on intersections\<close>

lemma rule_contains_refl: "rule_contains r r"
  by (simp add: rule_contains_def)

lemma rule_contains_trans: "rule_contains a b \<Longrightarrow> rule_contains b c \<Longrightarrow> rule_contains a c"
  by (auto simp: rule_contains_def split: if_splits)

text \<open>Everything but the wmm part of an intersected rule depends on the two rules only.\<close>

definition pair_ok :: "ieee80211_regdomain \<Rightarrow> ieee80211_regdomain \<Rightarrow> nat \<times> nat \<Rightarrow> bool" where
  "pair_ok rd1 rd2 p \<longleftrightarrow> (\<forall>old. fst (reg_rules_intersect rd1 rd2 (fst p) (snd p) old) = ok)"

lemma intersect_status:
  "fst (reg_rules_intersect rd1 rd2 x y old) = fst (reg_rules_intersect rd1 rd2 x y old')"
  by (simp add: reg_rules_intersect_def Let_def case_prod_beta is_valid_reg_rule_def)

lemma pair_ok_iff: "pair_ok rd1 rd2 (x, y) \<longleftrightarrow> fst (reg_rules_intersect rd1 rd2 x y old) = ok"
  using intersect_status unfolding pair_ok_def by (metis fst_conv snd_conv)

lemma count_intersections_eq:
  "fst (count_intersections rd1 rd2 pairs old n) = n + length (filter (pair_ok rd1 rd2) pairs)"
proof (induction rd1 rd2 pairs old n rule: count_intersections.induct)
  case (2 rd1 rd2 x y pairs old n)
  obtain r rule where r: "reg_rules_intersect rd1 rd2 x y old = (r, rule)" by fastforce
  then have "pair_ok rd1 rd2 (x, y) \<longleftrightarrow> r = ok" using pair_ok_iff [of rd1 rd2 x y old] by simp
  then show ?case using "2.IH" [OF r [symmetric]] r by simp
qed simp

lemma add_rule_at_some:
  "length rules < room \<Longrightarrow> \<exists>rules'. add_rule_at room rule rules = Some rules' \<and> length rules' \<le> Suc (length rules)"
proof (induction rules arbitrary: room)
  case (Cons tmp_rule rules)
  then have "length rules < room - 1" by simp
  from Cons.IH [OF this] show ?case by auto
qed simp

lemma add_rule_set:
  "add_rule_at room rule rules = Some rules' \<Longrightarrow> set rules' \<subseteq> insert rule (set rules)"
  by (induction room rule rules arbitrary: rules' rule: add_rule_at.induct) (auto split: if_splits)

lemma add_rule_contains:
  "add_rule_at room rule rules = Some rules' \<Longrightarrow>
     (\<exists>r \<in> set rules'. rule_contains r rule) \<and>
     (\<forall>r0 \<in> set rules. \<exists>r \<in> set rules'. rule_contains r r0)"
proof (induction room rule rules arbitrary: rules' rule: add_rule_at.induct)
  case (1 room rule)
  then show ?case by (auto simp: rule_contains_refl split: if_splits)
next
  case (2 room rule tmp_rule rules)
  consider "rule_contains tmp_rule rule" | "\<not> rule_contains tmp_rule rule" "rule_contains rule tmp_rule"
    | "\<not> rule_contains tmp_rule rule" "\<not> rule_contains rule tmp_rule" by blast
  then show ?case
  proof cases
    case 1
    then show ?thesis using "2.prems" rule_contains_refl by (metis add_rule_at.simps(2) list.set_intros(1) option.inject)
  next
    case 2
    then have "rules' = rule # rules" using "2.prems" by simp
    then show ?thesis using 2 rule_contains_refl by (metis list.set_intros set_ConsD)
  next
    case 3
    with "2.prems" obtain rs where rs: "add_rule_at (room - 1) rule rules = Some rs" "rules' = tmp_rule # rs"
      by auto
    show ?thesis using "2.IH" [OF 3 rs(1)] rs(2) rule_contains_refl by auto
  qed
qed

lemma build_rules_some:
  "length rules + length (filter (pair_ok rd1 rd2) pairs) \<le> capacity \<Longrightarrow>
     \<exists>rules'. build_rules capacity rd1 rd2 pairs old rules = Some rules'"
proof (induction capacity rd1 rd2 pairs old rules rule: build_rules.induct)
  case (2 capacity rd1 rd2 x y pairs old rules)
  obtain r rule where r: "reg_rules_intersect rd1 rd2 x y old = (r, rule)" by fastforce
  then have p: "pair_ok rd1 rd2 (x, y) \<longleftrightarrow> r = ok" using pair_ok_iff [of rd1 rd2 x y old] by simp
  show ?case
  proof (cases "r = ok")
    case False
    then show ?thesis using "2.IH"(1) [OF r [symmetric]] "2.prems" p r by simp
  next
    case True
    with p "2.prems" have "length rules < capacity" by simp
    then obtain rules' where a: "add_rule capacity rule rules = Some rules'" "length rules' \<le> Suc (length rules)"
      using add_rule_at_some unfolding add_rule_def by blast
    show ?thesis using "2.IH"(2) [OF r [symmetric]] a True p "2.prems" r by simp
  qed
qed simp

lemma build_rules_set:
  "build_rules capacity rd1 rd2 pairs old rules = Some rules' \<Longrightarrow> r \<in> set rules' \<Longrightarrow>
     r \<in> set rules \<or> (\<exists>(x, y) \<in> set pairs. \<exists>old. reg_rules_intersect rd1 rd2 x y old = (ok, r))"
proof (induction capacity rd1 rd2 pairs old rules rule: build_rules.induct)
  case (2 capacity rd1 rd2 x y pairs old rules)
  obtain s rule where s: "reg_rules_intersect rd1 rd2 x y old = (s, rule)" by fastforce
  show ?case
  proof (cases "s = ok")
    case False
    then show ?thesis using "2.IH"(1) [OF s [symmetric]] "2.prems" s by auto
  next
    case True
    with "2.prems"(1) s obtain rs where a: "add_rule capacity rule rules = Some rs"
      and b: "build_rules capacity rd1 rd2 pairs (rr_wmm_rule rule) rs = Some rules'"
      by (auto split: bind_splits)
    have "r \<in> set rs \<or> (\<exists>(x, y) \<in> set pairs. \<exists>old. reg_rules_intersect rd1 rd2 x y old = (ok, r))"
      using "2.IH"(2) [OF s [symmetric] _ a b "2.prems"(2)] True by simp
    moreover have "r \<in> set rs \<Longrightarrow> r = rule \<or> r \<in> set rules"
      using add_rule_set a unfolding add_rule_def by blast
    ultimately show ?thesis using s True by auto
  qed
qed simp

text \<open>The rules an intersected rule contains do not depend on the wmm part.\<close>

lemma contains_intersect_old:
  "rule_contains r (snd (reg_rules_intersect rd1 rd2 x y old)) \<longleftrightarrow>
   rule_contains r (snd (reg_rules_intersect rd1 rd2 x y old'))"
  by (simp add: reg_rules_intersect_def Let_def case_prod_beta rule_contains_def)

lemma build_rules_contains:
  "build_rules capacity rd1 rd2 pairs old rules = Some rules' \<Longrightarrow>
     (\<forall>r0 \<in> set rules. \<exists>r \<in> set rules'. rule_contains r r0) \<and>
     (\<forall>(x, y) \<in> set pairs. pair_ok rd1 rd2 (x, y) \<longrightarrow>
        (\<exists>r \<in> set rules'. rule_contains r (snd (reg_rules_intersect rd1 rd2 x y junk))))"
proof (induction capacity rd1 rd2 pairs old rules rule: build_rules.induct)
  case (1 capacity rd1 rd2 old rules)
  then show ?case using rule_contains_refl by auto
next
  case (2 capacity rd1 rd2 x y pairs old rules)
  obtain s rule where s: "reg_rules_intersect rd1 rd2 x y old = (s, rule)" by fastforce
  then have p: "pair_ok rd1 rd2 (x, y) \<longleftrightarrow> s = ok" using pair_ok_iff [of rd1 rd2 x y old] by simp
  show ?case
  proof (cases "s = ok")
    case False
    then show ?thesis using "2.IH"(1) [OF s [symmetric]] "2.prems" s p by auto
  next
    case True
    with "2.prems"(1) s obtain rs where a': "add_rule capacity rule rules = Some rs"
      and b: "build_rules capacity rd1 rd2 pairs (rr_wmm_rule rule) rs = Some rules'"
      by (auto split: bind_splits)
    then have a: "add_rule_at capacity rule rules = Some rs" by (simp add: add_rule_def)
    note IH = "2.IH"(2) [OF s [symmetric] _ a' b]
    have IH1: "\<exists>r \<in> set rules'. rule_contains r r0" if "r0 \<in> set rs" for r0
      using IH True that by simp
    have IH2: "\<forall>(x, y) \<in> set pairs. pair_ok rd1 rd2 (x, y) \<longrightarrow>
        (\<exists>r \<in> set rules'. rule_contains r (snd (reg_rules_intersect rd1 rd2 x y junk)))"
      using IH True by simp
    have lift: "\<exists>r \<in> set rules'. rule_contains r q" if "\<exists>r \<in> set rs. rule_contains r q" for q
      using that IH1 rule_contains_trans by blast
    note c = add_rule_contains [OF a]
    have "\<exists>r \<in> set rules'. rule_contains r (snd (reg_rules_intersect rd1 rd2 x y junk))"
      using lift [of rule] c s contains_intersect_old [of _ rd1 rd2 x y old junk] by auto
    then show ?thesis using IH2 lift c by auto
  qed
qed

lemma rule_pairs_iff: "(x, y) \<in> set (rule_pairs rd1 rd2) \<longleftrightarrow> x < length (rd_reg_rules rd1) \<and> y < length (rd_reg_rules rd2)"
  by (auto simp: rule_pairs_def image_iff)

lemma regdom_intersect_built:
  assumes "regdom_intersect junk alloc_ok (Some rd1) (Some rd2) = Some (Some rd)"
  obtains capacity old where "build_rules capacity rd1 rd2 (rule_pairs rd1 rd2) old [] = Some (rd_reg_rules rd)"
  using assms by (auto simp: regdom_intersect_def split: if_splits prod.splits bind_splits)

text \<open>What an intersected rule grants, each of the two rules grants.\<close>

definition grants_less :: "ieee80211_reg_rule \<Rightarrow> ieee80211_reg_rule \<Rightarrow> bool" where
  "grants_less r r0 \<longleftrightarrow>
     fr_start_freq_khz (rr_freq_range r0) \<le> fr_start_freq_khz (rr_freq_range r) \<and>
     fr_end_freq_khz (rr_freq_range r) \<le> fr_end_freq_khz (rr_freq_range r0) \<and>
     pr_max_eirp (rr_power_rule r) \<le> pr_max_eirp (rr_power_rule r0) \<and>
     pr_max_antenna_gain (rr_power_rule r) \<le> pr_max_antenna_gain (rr_power_rule r0) \<and>
     rr_dfs_cac_ms r0 \<le> rr_dfs_cac_ms r \<and>
     rr_flags r0 AND NOT NL80211_RRF_AUTO_BW AND NOT (rr_flags r) = 0"

lemma flags_sub:
  fixes a b m :: u32
  shows "a AND NOT m AND NOT ((a OR b) AND NOT m) = 0" "b AND NOT m AND NOT ((a OR b) AND NOT m) = 0"
    "a AND NOT m AND NOT ((a OR b) OR m) = 0" "b AND NOT m AND NOT ((a OR b) OR m) = 0"
  by (rule bit_word_eqI; auto simp: bit_simps)+

lemma intersect_fields:
  assumes "reg_rules_intersect rd1 rd2 x y old = (st, r)"
  shows "fr_start_freq_khz (rr_freq_range r) = max (fr_start_freq_khz (rr_freq_range (rd_reg_rules rd1 ! x))) (fr_start_freq_khz (rr_freq_range (rd_reg_rules rd2 ! y)))"
    and "fr_end_freq_khz (rr_freq_range r) = min (fr_end_freq_khz (rr_freq_range (rd_reg_rules rd1 ! x))) (fr_end_freq_khz (rr_freq_range (rd_reg_rules rd2 ! y)))"
    and "rr_power_rule r = \<lparr>pr_max_antenna_gain = min (pr_max_antenna_gain (rr_power_rule (rd_reg_rules rd1 ! x))) (pr_max_antenna_gain (rr_power_rule (rd_reg_rules rd2 ! y))),
                pr_max_eirp = min (pr_max_eirp (rr_power_rule (rd_reg_rules rd1 ! x))) (pr_max_eirp (rr_power_rule (rd_reg_rules rd2 ! y)))\<rparr>"
    and "rr_dfs_cac_ms r = max (rr_dfs_cac_ms (rd_reg_rules rd1 ! x)) (rr_dfs_cac_ms (rd_reg_rules rd2 ! y))"
    and "rr_flags r = (rr_flags (rd_reg_rules rd1 ! x) OR rr_flags (rd_reg_rules rd2 ! y)) OR NL80211_RRF_AUTO_BW \<or>
         rr_flags r = (rr_flags (rd_reg_rules rd1 ! x) OR rr_flags (rd_reg_rules rd2 ! y)) AND NOT NL80211_RRF_AUTO_BW"
    and "st = ok \<longleftrightarrow> is_valid_reg_rule r"
proof -
  have r: "r = snd (reg_rules_intersect rd1 rd2 x y old)" "st = fst (reg_rules_intersect rd1 rd2 x y old)"
    using assms by simp_all
  note d = r reg_rules_intersect_def Let_def case_prod_beta fst_conv snd_conv ieee80211_reg_rule.select_convs
    ieee80211_freq_range.select_convs
  show "fr_start_freq_khz (rr_freq_range r) = max (fr_start_freq_khz (rr_freq_range (rd_reg_rules rd1 ! x))) (fr_start_freq_khz (rr_freq_range (rd_reg_rules rd2 ! y)))"
    by (simp only: d)
  show "fr_end_freq_khz (rr_freq_range r) = min (fr_end_freq_khz (rr_freq_range (rd_reg_rules rd1 ! x))) (fr_end_freq_khz (rr_freq_range (rd_reg_rules rd2 ! y)))"
    by (simp only: d)
  show "rr_power_rule r = \<lparr>pr_max_antenna_gain = min (pr_max_antenna_gain (rr_power_rule (rd_reg_rules rd1 ! x))) (pr_max_antenna_gain (rr_power_rule (rd_reg_rules rd2 ! y))),
                pr_max_eirp = min (pr_max_eirp (rr_power_rule (rd_reg_rules rd1 ! x))) (pr_max_eirp (rr_power_rule (rd_reg_rules rd2 ! y)))\<rparr>"
    by (simp only: d)
  show "rr_dfs_cac_ms r = max (rr_dfs_cac_ms (rd_reg_rules rd1 ! x)) (rr_dfs_cac_ms (rd_reg_rules rd2 ! y))"
    by (simp only: d)
  show "rr_flags r = (rr_flags (rd_reg_rules rd1 ! x) OR rr_flags (rd_reg_rules rd2 ! y)) OR NL80211_RRF_AUTO_BW \<or>
         rr_flags r = (rr_flags (rd_reg_rules rd1 ! x) OR rr_flags (rd_reg_rules rd2 ! y)) AND NOT NL80211_RRF_AUTO_BW"
    by (simp only: d split: if_split) blast
  show "st = ok \<longleftrightarrow> is_valid_reg_rule r"
    by (simp only: d split: if_split) simp
qed

lemma intersect_grants_less:
  assumes "reg_rules_intersect rd1 rd2 x y old = (ok, r)"
  shows "grants_less r (rd_reg_rules rd1 ! x) \<and> grants_less r (rd_reg_rules rd2 ! y) \<and> is_valid_reg_rule r"
proof -
  note f = intersect_fields [OF assms]
  have "rr_flags (rd_reg_rules rd1 ! x) AND NOT NL80211_RRF_AUTO_BW AND NOT (rr_flags r) = 0"
    "rr_flags (rd_reg_rules rd2 ! y) AND NOT NL80211_RRF_AUTO_BW AND NOT (rr_flags r) = 0"
    using f(5) by (elim disjE; simp only: flags_sub)+
  then show ?thesis using f by (simp add: grants_less_def)
qed




section \<open>Facts on the lookup\<close>

lemma freq_reg_scan_sound:
  "freq_reg_scan f bw found i rules = Inr j \<Longrightarrow>
     i \<le> j \<and> j - i < length rules \<and> cfg80211_does_bw_fit_range (rr_freq_range (rules ! (j - i))) f bw"
proof (induction f bw found i rules rule: freq_reg_scan.induct)
  case (2 f bw found i rr rules)
  show ?case
  proof (cases "(found \<or> freq_in_rule_band (rr_freq_range rr) f) \<and> cfg80211_does_bw_fit_range (rr_freq_range rr) f bw")
    case True
    then show ?thesis using "2.prems" by (auto simp: Let_def split: if_splits)
  next
    case False
    then have "freq_reg_scan f bw (found \<or> freq_in_rule_band (rr_freq_range rr) f) (Suc i) rules = Inr j"
      using "2.prems" by (auto simp: Let_def split: if_splits)
    then have "Suc i \<le> j \<and> j - Suc i < length rules \<and> cfg80211_does_bw_fit_range (rr_freq_range (rules ! (j - Suc i))) f bw"
      using "2.IH" [OF refl _ refl] False by (cases found) (auto simp: Let_def)
    then show ?thesis by (auto simp: nth_Cons' )
  qed
qed (simp split: if_splits)

lemma freq_reg_info_regd_sound:
  assumes "freq_reg_info_regd f (Some rd) bw = Inr i"
  shows "i < length (rd_reg_rules rd)"
    and "cfg80211_does_bw_fit_range (rr_freq_range (rd_reg_rules rd ! i)) f bw"
  using freq_reg_scan_sound [of f bw False 0 "rd_reg_rules rd" i] assms
  by (simp_all add: freq_reg_info_regd_def)

text \<open>\<open>freq_reg_info\<close> asks for 20 MHz only.\<close>

lemma freq_reg_info_eq:
  "freq_reg_info g w f = Some (map_sum id Some (freq_reg_info_regd f (reg_get_regdomain g w) 20000))"
  by (simp add: freq_reg_info_def freq_reg_info_min_def freq_reg_loop.simps [of f _ "20000" "20000"]
      freq_reg_loop.simps [of f _ "20000" "10000"] split: sum.split)

lemma fits_grants:
  assumes "cfg80211_does_bw_fit_range (rr_freq_range r) f bw" and "grants_less r r0"
  shows "cfg80211_does_bw_fit_range (rr_freq_range r0) f bw"
  using assms by (auto simp: cfg80211_does_bw_fit_range_def grants_less_def Let_def)

lemma intersect_rules_grant_less:
  assumes "regdom_intersect junk alloc_ok (Some rd1) (Some rd2) = Some (Some rd)"
    and "r \<in> set (rd_reg_rules rd)"
  shows "is_valid_reg_rule r \<and> (\<exists>r1 \<in> set (rd_reg_rules rd1). grants_less r r1) \<and>
    (\<exists>r2 \<in> set (rd_reg_rules rd2). grants_less r r2)"
proof -
  obtain capacity old where b: "build_rules capacity rd1 rd2 (rule_pairs rd1 rd2) old [] = Some (rd_reg_rules rd)"
    by (rule regdom_intersect_built [OF assms(1)])
  obtain x y old' where xy: "(x, y) \<in> set (rule_pairs rd1 rd2)" "reg_rules_intersect rd1 rd2 x y old' = (ok, r)"
    using build_rules_set [OF b assms(2)] by auto
  then have "x < length (rd_reg_rules rd1)" "y < length (rd_reg_rules rd2)"
    by (simp_all add: rule_pairs_iff)
  with intersect_grants_less [OF xy(2)] show ?thesis by (meson nth_mem)
qed

section \<open>Domains for examples\<close>

definition sample_rule :: "u32 \<Rightarrow> u32 \<Rightarrow> u32 \<Rightarrow> u32 \<Rightarrow> u32 \<Rightarrow> ieee80211_reg_rule" where
  "sample_rule start end_freq bw eirp flags =
     \<lparr>rr_freq_range = \<lparr>fr_start_freq_khz = start, fr_end_freq_khz = end_freq, fr_max_bandwidth_khz = bw\<rparr>,
      rr_power_rule = \<lparr>pr_max_antenna_gain = 600, pr_max_eirp = eirp\<rparr>,
      rr_wmm_rule = \<lparr>wmm_client = [], wmm_ap = []\<rparr>, rr_flags = flags, rr_dfs_cac_ms = 0, rr_has_wmm = False\<rparr>"

definition sample_rd1 :: ieee80211_regdomain where
  "sample_rd1 =
     \<lparr>rd_alpha2 = ''DE'', rd_dfs_region = NL80211_DFS_ETSI,
      rd_reg_rules = [sample_rule 2400000 2483500 40000 2000 0, sample_rule 5150000 5350000 80000 2000 NL80211_RRF_DFS]\<rparr>"

definition sample_rd2 :: ieee80211_regdomain where
  "sample_rd2 =
     \<lparr>rd_alpha2 = ''US'', rd_dfs_region = NL80211_DFS_FCC,
      rd_reg_rules = [sample_rule 5170000 5250000 80000 1700 NL80211_RRF_AUTO_BW]\<rparr>"

definition sample_rd12 :: ieee80211_regdomain where
  "sample_rd12 =
     \<lparr>rd_alpha2 = ''98'', rd_dfs_region = NL80211_DFS_UNSET,
      rd_reg_rules = [sample_rule 5170000 5250000 80000 1700 NL80211_RRF_DFS]\<rparr>"

definition sample_wmm :: ieee80211_wmm_rule where
  "sample_wmm = \<lparr>wmm_client = [], wmm_ap = []\<rparr>"

lemma sample_bandwidth: "reg_get_max_bandwidth sample_rd2 0 = 80000"
  by (simp add: reg_get_max_bandwidth_def reg_get_max_bandwidth_from_range_def sample_rd2_def
      sample_rule_def limit_bandwidth_def flag_set_def)

lemma sample_nth:
  "rd_reg_rules sample_rd1 ! 0 = sample_rule 2400000 2483500 40000 2000 0"
  "rd_reg_rules sample_rd1 ! 1 = sample_rule 5150000 5350000 80000 2000 NL80211_RRF_DFS"
  "rd_reg_rules sample_rd2 ! 0 = sample_rule 5170000 5250000 80000 1700 NL80211_RRF_AUTO_BW"
  by (simp_all add: sample_rd1_def sample_rd2_def)

lemma sample_intersects:
  "reg_rules_intersect sample_rd1 sample_rd2 0 0 sample_wmm
     = (Inl EINVAL, sample_rule 5170000 2483500 40000 1700 0)"
  "reg_rules_intersect sample_rd1 sample_rd2 1 0 sample_wmm
     = (ok, sample_rule 5170000 5250000 80000 1700 NL80211_RRF_DFS)"
  unfolding reg_rules_intersect_def sample_nth sample_rule_def ieee80211_reg_rule.select_convs
    ieee80211_freq_range.select_convs ieee80211_power_rule.select_convs sample_bandwidth
  by (simp_all add: flag_set_def intersect_wmm_def is_valid_reg_rule_def sample_wmm_def)

lemma sample_pairs: "rule_pairs sample_rd1 sample_rd2 = [(0, 0), (1, 0)]"
  by (simp add: rule_pairs_def sample_rd1_def sample_rd2_def upt_conv_Cons)

lemma sample_intersection:
  "regdom_intersect sample_wmm True (Some sample_rd1) (Some sample_rd2) = Some (Some sample_rd12)"
proof -
  have w: "rr_wmm_rule (sample_rule a b c d e) = sample_wmm" for a b c d e
    by (simp add: sample_rule_def sample_wmm_def)
  show ?thesis
    by (simp add: regdom_intersect_def sample_pairs sample_intersects [simplified] w add_rule_def)
      (simp add: sample_rd12_def sample_rd1_def sample_rd2_def reg_intersect_dfs_region_def)
qed

section \<open>Properties\<close>



text \<open>C26: The intersection loses nothing: each pair of rules with a sane intersection is contained in
  a rule of the result with the same flags.\<close>

theorem intersection_complete:
  assumes "regdom_intersect junk alloc_ok (Some rd1) (Some rd2) = Some (Some rd)"
    and "x < length (rd_reg_rules rd1)" and "y < length (rd_reg_rules rd2)"
    and "reg_rules_intersect rd1 rd2 x y old = (ok, rule)"
  shows "\<exists>r \<in> set (rd_reg_rules rd). rule_contains r rule"
proof -
  obtain capacity old' where b: "build_rules capacity rd1 rd2 (rule_pairs rd1 rd2) old' [] = Some (rd_reg_rules rd)"
    by (rule regdom_intersect_built [OF assms(1)])
  have "pair_ok rd1 rd2 (x, y)" using pair_ok_iff [of rd1 rd2 x y old] assms(4) by simp
  then show ?thesis
    using build_rules_contains [OF b, of old] assms(2-4) by (fastforce simp: rule_pairs_iff)
qed

theorem intersection_complete_witness:
  "\<exists>r \<in> set (rd_reg_rules sample_rd12). rule_contains r (sample_rule 5170000 5250000 80000 1700 NL80211_RRF_DFS)"
  using intersection_complete [OF sample_intersection, of 1 0 sample_wmm] sample_intersects(2)
  by (simp add: sample_rd1_def sample_rd2_def)

text \<open>Building an intersection never writes behind the array that the first pass over the pairs of
  rules has sized, for any two domains.\<close>

lemma intersection_in_bounds:
  "regdom_intersect junk alloc_ok rd1 rd2 \<noteq> None"
proof (cases rd1; cases rd2)
  fix r1 r2 assume rd: "rd1 = Some r1" "rd2 = Some r2"
  obtain n old where n: "count_intersections r1 r2 (rule_pairs r1 r2) junk 0 = (n, old)" by fastforce
  then have "n = length (filter (pair_ok r1 r2) (rule_pairs r1 r2))"
    using count_intersections_eq [of r1 r2 "rule_pairs r1 r2" junk 0] by simp
  then obtain rules where "build_rules n r1 r2 (rule_pairs r1 r2) old [] = Some rules"
    using build_rules_some [of "[]" r1 r2 "rule_pairs r1 r2" n] by auto
  with rd n show ?thesis by (simp add: regdom_intersect_def)
qed (simp_all add: regdom_intersect_def)

text \<open>A bandwidth around a frequency that the intersection of two domains permits is permitted
  by both domains.\<close>

lemma intersection_permits_less:
  assumes "regdom_intersect junk alloc_ok (Some rd1) (Some rd2) = Some (Some rd)"
    and "freq_reg_info_regd f (Some rd) bw = Inr i"
  shows "(\<exists>r1 \<in> set (rd_reg_rules rd1). cfg80211_does_bw_fit_range (rr_freq_range r1) f bw) \<and>
    (\<exists>r2 \<in> set (rd_reg_rules rd2). cfg80211_does_bw_fit_range (rr_freq_range r2) f bw)"
proof -
  have fit: "cfg80211_does_bw_fit_range (rr_freq_range (rd_reg_rules rd ! i)) f bw"
    and mem: "rd_reg_rules rd ! i \<in> set (rd_reg_rules rd)"
    using freq_reg_info_regd_sound [OF assms(2)] by simp_all
  obtain capacity old where b: "build_rules capacity rd1 rd2 (rule_pairs rd1 rd2) old [] = Some (rd_reg_rules rd)"
    by (rule regdom_intersect_built [OF assms(1)])
  obtain x y old' where xy: "(x, y) \<in> set (rule_pairs rd1 rd2)"
    "reg_rules_intersect rd1 rd2 x y old' = (ok, rd_reg_rules rd ! i)"
    using build_rules_set [OF b mem] by auto
  from intersect_grants_less [OF xy(2)] fit xy(1) show ?thesis
    by (meson fits_grants nth_mem rule_pairs_iff)
qed

lemma intersection_permits_less_witness:
  "\<exists>r1 \<in> set (rd_reg_rules sample_rd1). cfg80211_does_bw_fit_range (rr_freq_range r1) 5180000 20000"
proof -
  have "freq_reg_info_regd 5180000 (Some sample_rd12) 20000 = Inr 0"
    by (simp add: freq_reg_info_regd_def sample_rd12_def sample_rule_def freq_in_rule_band_def abs_diff_def
        cfg80211_does_bw_fit_range_def Let_def word_sless_alt)
  from intersection_permits_less [OF sample_intersection this] show ?thesis by blast
qed

end

