(* ===== verification/Chandef.thy ===== *)
theory Chandef
  imports Wiphy
begin

text \<open>
  Channel definitions (net/wireless/chan.c, first half): creation, validity, compatibility,
  and the walks over the 20 MHz channels of a definition that set or ask for the radar
  detection (DFS) state and for the flags of the channels.
\<close>

section \<open>Creation and validity\<close>

definition cfg80211_chandef_create ::
  "chan_store \<Rightarrow> chan_ref \<Rightarrow> nl80211_channel_type \<Rightarrow> cfg80211_chan_def" where
  "cfg80211_chandef_create h chan chan_type =
     (case chan_type of
        NL80211_CHAN_NO_HT \<Rightarrow>
          \<lparr>cd_chan = Some chan, cd_width = NL80211_CHAN_WIDTH_20_NOHT,
           cd_center_freq1 = ch_center_freq (h chan), cd_center_freq2 = 0\<rparr>
      | NL80211_CHAN_HT20 \<Rightarrow>
          \<lparr>cd_chan = Some chan, cd_width = NL80211_CHAN_WIDTH_20,
           cd_center_freq1 = ch_center_freq (h chan), cd_center_freq2 = 0\<rparr>
      | NL80211_CHAN_HT40PLUS \<Rightarrow>
          \<lparr>cd_chan = Some chan, cd_width = NL80211_CHAN_WIDTH_40,
           cd_center_freq1 = ch_center_freq (h chan) + 10, cd_center_freq2 = 0\<rparr>
      | NL80211_CHAN_HT40MINUS \<Rightarrow>
          \<lparr>cd_chan = Some chan, cd_width = NL80211_CHAN_WIDTH_40,
           cd_center_freq1 = ch_center_freq (h chan) - 10, cd_center_freq2 = 0\<rparr>)"

fun chandef_valid_at :: "u32 \<Rightarrow> nl80211_chan_width \<Rightarrow> u32 \<Rightarrow> u32 \<Rightarrow> bool" where
  "chandef_valid_at control_freq NL80211_CHAN_WIDTH_5 cf1 cf2 = (cf1 = control_freq \<and> cf2 = 0)"
| "chandef_valid_at control_freq NL80211_CHAN_WIDTH_10 cf1 cf2 = (cf1 = control_freq \<and> cf2 = 0)"
| "chandef_valid_at control_freq NL80211_CHAN_WIDTH_20 cf1 cf2 = (cf1 = control_freq \<and> cf2 = 0)"
| "chandef_valid_at control_freq NL80211_CHAN_WIDTH_20_NOHT cf1 cf2 =
     (cf1 = control_freq \<and> cf2 = 0)"
| "chandef_valid_at control_freq NL80211_CHAN_WIDTH_40 cf1 cf2 =
     ((cf1 = control_freq + 10 \<or> cf1 = control_freq - 10) \<and> cf2 = 0)"
| "chandef_valid_at control_freq NL80211_CHAN_WIDTH_80P80 cf1 cf2 =
     ((cf1 = control_freq + 30 \<or> cf1 = control_freq + 10 \<or>
       cf1 = control_freq - 10 \<or> cf1 = control_freq - 30) \<and>
      cf2 \<noteq> 0 \<and> \<not> (cf1 - cf2 = 80 \<or> cf2 - cf1 = 80))"
| "chandef_valid_at control_freq NL80211_CHAN_WIDTH_80 cf1 cf2 =
     ((cf1 = control_freq + 30 \<or> cf1 = control_freq + 10 \<or>
       cf1 = control_freq - 10 \<or> cf1 = control_freq - 30) \<and> cf2 = 0)"
| "chandef_valid_at control_freq NL80211_CHAN_WIDTH_160 cf1 cf2 =
     ((cf1 = control_freq + 70 \<or> cf1 = control_freq + 50 \<or>
       cf1 = control_freq + 30 \<or> cf1 = control_freq + 10 \<or>
       cf1 = control_freq - 10 \<or> cf1 = control_freq - 30 \<or>
       cf1 = control_freq - 50 \<or> cf1 = control_freq - 70) \<and> cf2 = 0)"
| "chandef_valid_at control_freq (CHAN_WIDTH_OTHER n) cf1 cf2 = False"

definition cfg80211_chandef_valid :: "chan_store \<Rightarrow> cfg80211_chan_def \<Rightarrow> bool" where
  "cfg80211_chandef_valid h chandef =
     (case cd_chan chandef of
        None \<Rightarrow> False
      | Some chan \<Rightarrow>
          chandef_valid_at (ch_center_freq (h chan)) (cd_width chandef)
            (cd_center_freq1 chandef) (cd_center_freq2 chandef))"

section \<open>Compatibility\<close>

text \<open>
  \<open>chandef_primary_freqs\<close>: the primary 40 and 80 MHz segments. The widths it has no case
  for leave its outputs uninitialised.
\<close>

definition chandef_primary_freqs :: "chan_store \<Rightarrow> cfg80211_chan_def \<Rightarrow> (u32 \<times> u32) option" where
  "chandef_primary_freqs h c =
     (if cd_width c = NL80211_CHAN_WIDTH_40 then Some (cd_center_freq1 c, 0)
      else if cd_width c = NL80211_CHAN_WIDTH_80 \<or> cd_width c = NL80211_CHAN_WIDTH_80P80 then
        do {
          chan \<leftarrow> cd_chan c;
          let n_P20 = (30 + ch_center_freq (h chan) - cd_center_freq1 c) div 20;
          let n_P40 = n_P20 div 2;
          Some (cd_center_freq1 c - 20 + 40 * n_P40, cd_center_freq1 c)
        }
      else if cd_width c = NL80211_CHAN_WIDTH_160 then
        do {
          chan \<leftarrow> cd_chan c;
          let n_P20 = (70 + ch_center_freq (h chan) - cd_center_freq1 c) div 20;
          let n_P40 = n_P20 div 2;
          let n_P80 = n_P40 div 2;
          Some (cd_center_freq1 c - 60 + 40 * n_P40, cd_center_freq1 c - 40 + 80 * n_P80)
        }
      else None)"

fun chan_width_mhz :: "nl80211_chan_width \<Rightarrow> int" where
  "chan_width_mhz NL80211_CHAN_WIDTH_5 = 5"
| "chan_width_mhz NL80211_CHAN_WIDTH_10 = 10"
| "chan_width_mhz NL80211_CHAN_WIDTH_20 = 20"
| "chan_width_mhz NL80211_CHAN_WIDTH_20_NOHT = 20"
| "chan_width_mhz NL80211_CHAN_WIDTH_40 = 40"
| "chan_width_mhz NL80211_CHAN_WIDTH_80P80 = 80"
| "chan_width_mhz NL80211_CHAN_WIDTH_80 = 80"
| "chan_width_mhz NL80211_CHAN_WIDTH_160 = 160"
| "chan_width_mhz (CHAN_WIDTH_OTHER n) = -1"

definition cfg80211_chandef_get_width :: "cfg80211_chan_def \<Rightarrow> int" where
  "cfg80211_chandef_get_width c = chan_width_mhz (cd_width c)"

definition cfg80211_chandef_identical :: "cfg80211_chan_def \<Rightarrow> cfg80211_chan_def \<Rightarrow> bool" where
  "cfg80211_chandef_identical chandef1 chandef2 \<longleftrightarrow>
     cd_chan chandef1 = cd_chan chandef2 \<and> cd_width chandef1 = cd_width chandef2 \<and>
     cd_center_freq1 chandef1 = cd_center_freq1 chandef2 \<and>
     cd_center_freq2 chandef1 = cd_center_freq2 chandef2"

abbreviation narrow_width :: "nl80211_chan_width \<Rightarrow> bool" where
  "narrow_width w \<equiv> w = NL80211_CHAN_WIDTH_5 \<or> w = NL80211_CHAN_WIDTH_10"

abbreviation width_20 :: "nl80211_chan_width \<Rightarrow> bool" where
  "width_20 w \<equiv> w = NL80211_CHAN_WIDTH_20_NOHT \<or> w = NL80211_CHAN_WIDTH_20"

text \<open>The result is one of the two arguments, or NULL (\<open>Some None\<close>).\<close>

definition cfg80211_chandef_compatible ::
  "chan_store \<Rightarrow> cfg80211_chan_def \<Rightarrow> cfg80211_chan_def \<Rightarrow> cfg80211_chan_def option option" where
  "cfg80211_chandef_compatible h c1 c2 =
     (if cfg80211_chandef_identical c1 c2 then Some (Some c1)
      else if cd_chan c1 \<noteq> cd_chan c2 then Some None
      else if cd_width c1 = cd_width c2 then Some None
      else if narrow_width (cd_width c1) \<or> narrow_width (cd_width c2) then Some None
      else if width_20 (cd_width c1) then Some (Some c2)
      else if width_20 (cd_width c2) then Some (Some c1)
      else do {
        (c1_pri40, c1_pri80) \<leftarrow> chandef_primary_freqs h c1;
        (c2_pri40, c2_pri80) \<leftarrow> chandef_primary_freqs h c2;
        Some (if c1_pri40 \<noteq> c2_pri40 then None
              else if c1_pri80 \<noteq> 0 \<and> c2_pri80 \<noteq> 0 \<and> c1_pri80 \<noteq> c2_pri80 then None
              else if cd_width c1 > cd_width c2 then Some c1
              else Some c2)
      })"

section \<open>Setting the radar detection state\<close>

definition cfg80211_set_chans_dfs_state ::
  "u64 \<Rightarrow> wiphy \<Rightarrow> u32 \<Rightarrow> u32 \<Rightarrow> nl80211_dfs_state \<Rightarrow> chan_store \<Rightarrow> chan_store option" where
  "cfg80211_set_chans_dfs_state jiffies w center_freq bandwidth dfs_state h =
     for_freqs
       (\<lambda>h freq.
          case ieee80211_get_channel h w freq of
            None \<Rightarrow> Inr h
          | Some c \<Rightarrow>
              if \<not> flag_set (ch_flags (h c)) IEEE80211_CHAN_RADAR then Inr h
              else Inr (h(c := (h c)\<lparr>ch_dfs_state := dfs_state, ch_dfs_state_entered := jiffies\<rparr>)))
       (center_freq - bandwidth div 2 + 10) (center_freq + bandwidth div 2 - 10) h (\<lambda>h. h)"

definition cfg80211_set_dfs_state ::
  "u64 \<Rightarrow> wiphy \<Rightarrow> cfg80211_chan_def \<Rightarrow> nl80211_dfs_state \<Rightarrow> chan_store \<Rightarrow> chan_store option" where
  "cfg80211_set_dfs_state jiffies w chandef dfs_state h =
     (if \<not> cfg80211_chandef_valid h chandef then Some h
      else let width = cfg80211_chandef_get_width chandef in
        if width < 0 then Some h
        else do {
          h1 \<leftarrow> cfg80211_set_chans_dfs_state jiffies w (cd_center_freq1 chandef)
                   (word_of_int width) dfs_state h;
          if cd_center_freq2 chandef = 0 then Some h1
          else cfg80211_set_chans_dfs_state jiffies w (cd_center_freq2 chandef)
                   (word_of_int width) dfs_state h1
        })"

section \<open>Walks over the channels of a definition\<close>

definition cfg80211_get_start_freq :: "u32 \<Rightarrow> u32 \<Rightarrow> u32" where
  "cfg80211_get_start_freq center_freq bandwidth =
     (if bandwidth \<le> 20 then center_freq else center_freq - bandwidth div 2 + 10)"

definition cfg80211_get_end_freq :: "u32 \<Rightarrow> u32 \<Rightarrow> u32" where
  "cfg80211_get_end_freq center_freq bandwidth =
     (if bandwidth \<le> 20 then center_freq else center_freq + bandwidth div 2 - 10)"

text \<open>
  The five walks below share the loop head; \<open>for_chans\<close> is it, with what the body does
  when a frequency has no channel and when it has one.
\<close>

definition for_chans ::
  "chan_store \<Rightarrow> wiphy \<Rightarrow> u32 \<Rightarrow> u32 \<Rightarrow> 'r \<Rightarrow> ('s \<Rightarrow> ieee80211_channel \<Rightarrow> 'r + 's) \<Rightarrow>
     's \<Rightarrow> ('s \<Rightarrow> 'r) \<Rightarrow> 'r option" where
  "for_chans h w center_freq bandwidth absent body s after =
     for_freqs
       (\<lambda>s freq. case ieee80211_get_channel h w freq of
                   None \<Rightarrow> Inl absent
                 | Some c \<Rightarrow> body s (h c))
       (cfg80211_get_start_freq center_freq bandwidth)
       (cfg80211_get_end_freq center_freq bandwidth) s after"

definition cfg80211_get_chans_dfs_required ::
  "chan_store \<Rightarrow> wiphy \<Rightarrow> u32 \<Rightarrow> u32 \<Rightarrow> (errno + nat) option" where
  "cfg80211_get_chans_dfs_required h w center_freq bandwidth =
     for_chans h w center_freq bandwidth (Inl EINVAL)
       (\<lambda>u c. if flag_set (ch_flags c) IEEE80211_CHAN_RADAR then Inl (Inr 1) else Inr u)
       () (\<lambda>_. Inr 0)"

text \<open>The result is 0 or the bit of the width of the definition.\<close>

definition dfs_required_chans ::
  "chan_store \<Rightarrow> wiphy \<Rightarrow> cfg80211_chan_def \<Rightarrow> (errno + u32) option" where
  "dfs_required_chans h w chandef =
     (let width = cfg80211_chandef_get_width chandef in
      if width < 0 then Some (Inl EINVAL)
      else do {
        ret \<leftarrow> cfg80211_get_chans_dfs_required h w (cd_center_freq1 chandef) (word_of_int width);
        case ret of
          Inl e \<Rightarrow> Some (Inl e)
        | Inr n \<Rightarrow>
            if n > 0 then Some (Inr (BIT (chan_width_val (cd_width chandef))))
            else if cd_center_freq2 chandef = 0 then Some (Inr 0)
            else do {
              ret \<leftarrow> cfg80211_get_chans_dfs_required h w (cd_center_freq2 chandef) (word_of_int width);
              Some (case ret of
                      Inl e \<Rightarrow> Inl e
                    | Inr n \<Rightarrow> if n > 0 then Inr (BIT (chan_width_val (cd_width chandef))) else Inr 0)
            }
      })"

definition cfg80211_chandef_dfs_required ::
  "chan_store \<Rightarrow> wiphy \<Rightarrow> cfg80211_chan_def \<Rightarrow> nl80211_iftype \<Rightarrow> (errno + u32) option" where
  "cfg80211_chandef_dfs_required h w chandef iftype =
     (if \<not> cfg80211_chandef_valid h chandef then Some (Inl EINVAL)
      else case iftype of
        NL80211_IFTYPE_ADHOC \<Rightarrow> dfs_required_chans h w chandef
      | NL80211_IFTYPE_AP \<Rightarrow> dfs_required_chans h w chandef
      | NL80211_IFTYPE_P2P_GO \<Rightarrow> dfs_required_chans h w chandef
      | NL80211_IFTYPE_MESH_POINT \<Rightarrow> dfs_required_chans h w chandef
      | _ \<Rightarrow> Some (Inr 0))"

definition cfg80211_get_chans_dfs_usable ::
  "chan_store \<Rightarrow> wiphy \<Rightarrow> u32 \<Rightarrow> u32 \<Rightarrow> (errno + nat) option" where
  "cfg80211_get_chans_dfs_usable h w center_freq bandwidth =
     for_chans h w center_freq bandwidth (Inl EINVAL)
       (\<lambda>count c.
          if flag_set (ch_flags c) IEEE80211_CHAN_DISABLED then Inl (Inl EINVAL)
          else if flag_set (ch_flags c) IEEE80211_CHAN_RADAR then
            (if ch_dfs_state c = NL80211_DFS_UNAVAILABLE then Inl (Inl EINVAL)
             else if ch_dfs_state c = NL80211_DFS_USABLE then Inr (Suc count)
             else Inr count)
          else Inr count)
       0 Inr"

definition cfg80211_chandef_dfs_usable ::
  "chan_store \<Rightarrow> wiphy \<Rightarrow> cfg80211_chan_def \<Rightarrow> bool option" where
  "cfg80211_chandef_dfs_usable h w chandef =
     (if \<not> cfg80211_chandef_valid h chandef then Some False
      else let width = cfg80211_chandef_get_width chandef in
        if width < 0 then Some False
        else do {
          r1 \<leftarrow> cfg80211_get_chans_dfs_usable h w (cd_center_freq1 chandef) (word_of_int width);
          case r1 of
            Inl e \<Rightarrow> Some False
          | Inr n1 \<Rightarrow>
              if cd_width chandef = NL80211_CHAN_WIDTH_80P80 then
                do {
                  r2 \<leftarrow> cfg80211_get_chans_dfs_usable h w (cd_center_freq2 chandef) (word_of_int width);
                  Some (case r2 of Inl e \<Rightarrow> False | Inr n2 \<Rightarrow> n1 + n2 > 0)
                }
              else Some (n1 + 0 > 0)
        })"

definition cfg80211_get_chans_dfs_available ::
  "chan_store \<Rightarrow> wiphy \<Rightarrow> u32 \<Rightarrow> u32 \<Rightarrow> bool option" where
  "cfg80211_get_chans_dfs_available h w center_freq bandwidth =
     do {
       dfs_offload \<leftarrow> wiphy_ext_feature_isset w NL80211_EXT_FEATURE_DFS_OFFLOAD;
       for_chans h w center_freq bandwidth False
         (\<lambda>u c.
            if flag_set (ch_flags c) IEEE80211_CHAN_DISABLED then Inl False
            else if flag_set (ch_flags c) IEEE80211_CHAN_RADAR \<and>
                    ch_dfs_state c \<noteq> NL80211_DFS_AVAILABLE \<and>
                    \<not> (ch_dfs_state c = NL80211_DFS_USABLE \<and> dfs_offload) then Inl False
            else Inr u)
         () (\<lambda>_. True)
     }"

definition cfg80211_chandef_dfs_available ::
  "chan_store \<Rightarrow> wiphy \<Rightarrow> cfg80211_chan_def \<Rightarrow> bool option" where
  "cfg80211_chandef_dfs_available h w chandef =
     (if \<not> cfg80211_chandef_valid h chandef then Some False
      else let width = cfg80211_chandef_get_width chandef in
        if width < 0 then Some False
        else do {
          r \<leftarrow> cfg80211_get_chans_dfs_available h w (cd_center_freq1 chandef) (word_of_int width);
          if \<not> r then Some r
          else if cd_width chandef = NL80211_CHAN_WIDTH_80P80 then
            cfg80211_get_chans_dfs_available h w (cd_center_freq2 chandef) (word_of_int width)
          else Some r
        })"

definition cfg80211_get_chans_dfs_cac_time ::
  "chan_store \<Rightarrow> wiphy \<Rightarrow> u32 \<Rightarrow> u32 \<Rightarrow> u32 option" where
  "cfg80211_get_chans_dfs_cac_time h w center_freq bandwidth =
     for_chans h w center_freq bandwidth 0
       (\<lambda>dfs_cac_ms c.
          if flag_set (ch_flags c) IEEE80211_CHAN_DISABLED then Inl 0
          else if \<not> flag_set (ch_flags c) IEEE80211_CHAN_RADAR then Inr dfs_cac_ms
          else if ch_dfs_cac_ms c > dfs_cac_ms then Inr (ch_dfs_cac_ms c)
          else Inr dfs_cac_ms)
       0 (\<lambda>dfs_cac_ms. dfs_cac_ms)"

definition cfg80211_chandef_dfs_cac_time ::
  "chan_store \<Rightarrow> wiphy \<Rightarrow> cfg80211_chan_def \<Rightarrow> u32 option" where
  "cfg80211_chandef_dfs_cac_time h w chandef =
     (if \<not> cfg80211_chandef_valid h chandef then Some 0
      else let width = cfg80211_chandef_get_width chandef in
        if width < 0 then Some 0
        else do {
          t1 \<leftarrow> cfg80211_get_chans_dfs_cac_time h w (cd_center_freq1 chandef) (word_of_int width);
          if cd_center_freq2 chandef = 0 then Some t1
          else do {
            t2 \<leftarrow> cfg80211_get_chans_dfs_cac_time h w (cd_center_freq2 chandef) (word_of_int width);
            Some (max t1 t2)
          }
        })"

definition cfg80211_secondary_chans_ok ::
  "chan_store \<Rightarrow> wiphy \<Rightarrow> u32 \<Rightarrow> u32 \<Rightarrow> u32 \<Rightarrow> bool option" where
  "cfg80211_secondary_chans_ok h w center_freq bandwidth prohibited_flags =
     for_chans h w center_freq bandwidth False
       (\<lambda>u c. if flag_set (ch_flags c) prohibited_flags then Inl False else Inr u)
       () (\<lambda>_. True)"

section \<open>Facts on validity and compatibility\<close>

lemma chandef_create_valid: "cfg80211_chandef_valid h (cfg80211_chandef_create h chan chan_type)"
  by (cases chan_type) (simp_all add: cfg80211_chandef_create_def cfg80211_chandef_valid_def)

lemma chandef_valid_cases:
  assumes "cfg80211_chandef_valid h c"
  obtains chan where "cd_chan c = Some chan"
    and "chandef_valid_at (ch_center_freq (h chan)) (cd_width c) (cd_center_freq1 c) (cd_center_freq2 c)"
  using assms by (auto simp: cfg80211_chandef_valid_def split: option.splits)

lemma primary_freqs_Some:
  assumes "cfg80211_chandef_valid h c" and "\<not> width_20 (cd_width c)" and "\<not> narrow_width (cd_width c)"
  shows "\<exists>p. chandef_primary_freqs h c = Some p"
  using assms by (elim chandef_valid_cases; cases "cd_width c") (auto simp: chandef_primary_freqs_def Let_def)

lemma compatible_returns:
  assumes "cfg80211_chandef_valid h c1" and "cfg80211_chandef_valid h c2"
  shows "\<exists>r. cfg80211_chandef_compatible h c1 c2 = Some r"
  using primary_freqs_Some [OF assms(1)] primary_freqs_Some [OF assms(2)]
  by (auto simp: cfg80211_chandef_compatible_def split: prod.splits)

lemma chandef_identical_eq: "cfg80211_chandef_identical c1 c2 \<longleftrightarrow> c1 = c2"
  by (auto simp: cfg80211_chandef_identical_def)

lemma compatible_symmetric:
  assumes "cfg80211_chandef_valid h c1" and "cfg80211_chandef_valid h c2"
    and "\<not> (width_20 (cd_width c1) \<and> width_20 (cd_width c2))"
  shows "cfg80211_chandef_compatible h c1 c2 = cfg80211_chandef_compatible h c2 c1"
  using primary_freqs_Some [OF assms(1)] primary_freqs_Some [OF assms(2)] assms(3)
  by (auto simp: cfg80211_chandef_compatible_def chandef_identical_eq split: prod.splits)

definition segment :: "u32 \<Rightarrow> u32 \<Rightarrow> u32 list" where
  "segment center_freq bandwidth =
     freqs (cfg80211_get_start_freq center_freq bandwidth) (cfg80211_get_end_freq center_freq bandwidth)"

lemma for_chans_segment:
  assumes "no_wrap (cfg80211_get_end_freq cf bw)"
  shows "for_chans h w cf bw absent body s after =
    Some (case_sum (\<lambda>r. r) after
      (fold_until (\<lambda>s freq. case ieee80211_get_channel h w freq of None \<Rightarrow> Inl absent | Some c \<Rightarrow> body s (h c))
         s (segment cf bw)))"
  unfolding for_chans_def segment_def by (rule for_freqs_fold [OF assms])

definition freq_sane :: "u32 \<Rightarrow> bool" where
  "freq_sane f \<longleftrightarrow> 100 \<le> f \<and> f \<le> 4000000000"

lemma freqs_unroll:
  assumes "unat a + 20 * n + 20 < 2 ^ 32"
  shows "freqs a (a + of_nat (20 * n)) = map (\<lambda>i. a + of_nat (20 * i)) [0..<Suc n]"
proof -
  have u: "unat (a + of_nat (20 * n)) = unat a + 20 * n"
    using assms by (simp add: unat_word_ariths unat_of_nat)
  then have le: "a \<le> a + of_nat (20 * n)" by (simp add: word_le_nat_alt)
  have n: "Suc ((unat (a + of_nat (20 * n)) - unat a) div 20) = Suc n" by (simp only: u) 
  show ?thesis by (simp only: freqs_def n le if_True)
qed

lemma segment_small: "bw \<le> 20 \<Longrightarrow> segment f bw = [f]"
  by (simp add: segment_def cfg80211_get_start_freq_def cfg80211_get_end_freq_def freqs_def)

lemma freq_sane_room:
  assumes "freq_sane f" and "x \<le> 100" and "n \<le> 10"
  shows "unat (f - x) + 20 * n + 20 < 2 ^ 32"
proof -
  have "unat x \<le> 100" and f: "100 \<le> unat f" "unat f \<le> 4000000000"
    using assms(1,2) by (simp_all add: freq_sane_def word_le_nat_alt)
  then have "x \<le> f" by (simp add: word_le_nat_alt)
  then have "unat (f - x) = unat f - unat x" by (rule unat_sub)
  with f assms(3) show ?thesis by simp
qed

lemma segment_40: "freq_sane f \<Longrightarrow> segment f 40 = [f - 10, f + 10]"
  using freqs_unroll [OF freq_sane_room [of f 10 1]]
  by (simp add: segment_def cfg80211_get_start_freq_def cfg80211_get_end_freq_def)

lemma segment_80: "freq_sane f \<Longrightarrow> segment f 80 = [f - 30, f - 10, f + 10, f + 30]"
  using freqs_unroll [OF freq_sane_room [of f 30 3]]
  by (simp add: upt_conv_Cons segment_def cfg80211_get_start_freq_def cfg80211_get_end_freq_def)

lemma segment_160:
  "freq_sane f \<Longrightarrow>
     segment f 160 = [f - 70, f - 50, f - 30, f - 10, f + 10, f + 30, f + 50, f + 70]"
  using freqs_unroll [OF freq_sane_room [of f 70 7]]
  by (simp add: upt_conv_Cons segment_def cfg80211_get_start_freq_def cfg80211_get_end_freq_def)

lemmas segments = segment_small segment_40 segment_80 segment_160

definition chandef_chans :: "cfg80211_chan_def \<Rightarrow> u32 list" where
  "chandef_chans c =
     (let bw = word_of_int (cfg80211_chandef_get_width c) in
      segment (cd_center_freq1 c) bw @
      (if cd_center_freq2 c = 0 then [] else segment (cd_center_freq2 c) bw))"

definition chandef_sane :: "cfg80211_chan_def \<Rightarrow> bool" where
  "chandef_sane c \<longleftrightarrow> freq_sane (cd_center_freq1 c) \<and>
     (cd_center_freq2 c \<noteq> 0 \<longrightarrow> freq_sane (cd_center_freq2 c))"

lemma chandef_chans_control:
  assumes "cfg80211_chandef_valid h c" and "chandef_sane c" and "cd_chan c = Some chan"
  shows "ch_center_freq (h chan) \<in> set (chandef_chans c)"
  using assms
  by (cases "cd_width c")
    (auto simp: cfg80211_chandef_valid_def chandef_chans_def cfg80211_chandef_get_width_def chandef_sane_def
     segments)

lemma compatible_same_chan:
  "cfg80211_chandef_compatible h c1 c2 = Some (Some d) \<Longrightarrow> cd_chan c1 = cd_chan c2 \<and> (d = c1 \<or> d = c2)"
  by (auto simp: cfg80211_chandef_compatible_def chandef_identical_eq Let_def split: if_splits bind_splits)




lemma freq_sane_nonzero: "freq_sane f \<Longrightarrow> x < 100 \<Longrightarrow> f - x \<noteq> 0" "freq_sane f \<Longrightarrow> x < 100 \<Longrightarrow> f + x \<noteq> 0"
proof -
  assume f: "freq_sane f" "x < 100"
  then show "f - x \<noteq> 0" by (auto simp: freq_sane_def)
  from f have "unat f \<le> 4000000000" "unat f \<ge> 100" "unat x < 100" by (simp_all add: freq_sane_def word_le_nat_alt word_less_nat_alt)
  then have "unat (f + x) = unat f + unat x" by (simp add: unat_word_ariths)
  with \<open>unat f \<ge> 100\<close> show "f + x \<noteq> 0" by auto
qed

lemma u32_small_div [simp]:
  "(20::u32) div 20 = 1" "(40::u32) div 20 = 2" "(60::u32) div 20 = 3" "(80::u32) div 20 = 4"
  "(100::u32) div 20 = 5" "(120::u32) div 20 = 6" "(140::u32) div 20 = 7"
  "(2::u32) div 2 = 1" "(3::u32) div 2 = 1" "(4::u32) div 2 = 2" "(5::u32) div 2 = 2"
  "(6::u32) div 2 = 3" "(7::u32) div 2 = 3"
  by simp_all

text \<open>The primary segments of a wide definition lie inside it.\<close>

lemma primary_160:
  assumes "cfg80211_chandef_valid h c" and "cd_width c = NL80211_CHAN_WIDTH_160"
    and "freq_sane (cd_center_freq1 c)"
    and "chandef_primary_freqs h c = Some (p40, p80)"
  shows "{p40 - 10, p40 + 10} \<subseteq> set (chandef_chans c)"
    and "{p80 - 30, p80 - 10, p80 + 10, p80 + 30} \<subseteq> set (chandef_chans c)"
    and "p80 \<noteq> 0"
proof -
  obtain f where f: "f = cd_center_freq1 c" by simp
  obtain chan where c: "cd_chan c = Some chan"
    and v: "chandef_valid_at (ch_center_freq (h chan)) (cd_width c) f (cd_center_freq2 c)"
    using chandef_valid_cases [OF assms(1)] f by blast
  then have ctl: "ch_center_freq (h chan) \<in> {f - 70, f - 50, f - 30, f - 10, f + 10, f + 30, f + 50, f + 70}"
    and cf2: "cd_center_freq2 c = 0"
    using assms(2) by auto
  have sane: "freq_sane f" using assms(3) f by simp
  have chans: "chandef_chans c = segment f 160"
    using assms(2) cf2 by (simp add: chandef_chans_def cfg80211_chandef_get_width_def f)
  from ctl assms(2,4) c
  have "(p40, p80) \<in> {(f - 60, f - 40), (f - 20, f - 40), (20 + f, 40 + f), (60 + f, 40 + f)}"
    unfolding chandef_primary_freqs_def f [symmetric]
    by (elim insertE) auto
  then have p: "(p40, p80) \<in> {(f - 60, f - 40), (f - 20, f - 40), (f + 20, f + 40), (f + 60, f + 40)}"
    by (simp only: add.commute [of _ f])
  from p show "{p40 - 10, p40 + 10} \<subseteq> set (chandef_chans c)"
    unfolding chans segment_160 [OF sane] by (elim insertE) auto
  from p show "{p80 - 30, p80 - 10, p80 + 10, p80 + 30} \<subseteq> set (chandef_chans c)"
    unfolding chans segment_160 [OF sane] by (elim insertE) auto
  from p show "p80 \<noteq> 0"
    using freq_sane_nonzero [OF sane, of 40] by auto
qed

lemma primary_80:
  assumes "cfg80211_chandef_valid h c"
    and "cd_width c = NL80211_CHAN_WIDTH_80 \<or> cd_width c = NL80211_CHAN_WIDTH_80P80"
    and "freq_sane (cd_center_freq1 c)"
    and "chandef_primary_freqs h c = Some (p40, p80)"
  shows "{p40 - 10, p40 + 10} \<subseteq> set (chandef_chans c)"
    and "{p80 - 30, p80 - 10, p80 + 10, p80 + 30} \<subseteq> set (chandef_chans c)"
    and "p80 \<noteq> 0"
    and "cd_width c = NL80211_CHAN_WIDTH_80 \<Longrightarrow> set (chandef_chans c) = {p80 - 30, p80 - 10, p80 + 10, p80 + 30}"
proof -
  obtain f where f: "f = cd_center_freq1 c" by simp
  obtain chan where c: "cd_chan c = Some chan"
    and v: "chandef_valid_at (ch_center_freq (h chan)) (cd_width c) f (cd_center_freq2 c)"
    using chandef_valid_cases [OF assms(1)] f by blast
  then have ctl: "ch_center_freq (h chan) \<in> {f - 30, f - 10, f + 10, f + 30}"
    using assms(2) by auto
  have sane: "freq_sane f" using assms(3) f by simp
  have bw: "word_of_int (cfg80211_chandef_get_width c) = (80 :: u32)"
    using assms(2) by (auto simp: cfg80211_chandef_get_width_def)
  then have sub: "set (segment f 80) \<subseteq> set (chandef_chans c)"
    by (auto simp: chandef_chans_def f)
  from ctl assms(2,4) c have "(p40, p80) \<in> {(f - 20, f), (20 + f, f)}"
    unfolding chandef_primary_freqs_def f [symmetric]
    by (elim insertE) auto
  then have p: "(p40, p80) \<in> {(f - 20, f), (f + 20, f)}"
    by (simp only: add.commute [of _ f])
  from p show "{p40 - 10, p40 + 10} \<subseteq> set (chandef_chans c)"
    using sub unfolding segment_80 [OF sane] by (elim insertE) (auto simp: add.commute [of _ f])
  from p show "{p80 - 30, p80 - 10, p80 + 10, p80 + 30} \<subseteq> set (chandef_chans c)"
    using sub unfolding segment_80 [OF sane] by (elim insertE) auto
  from p show "p80 \<noteq> 0"
    using freq_sane_nonzero [OF sane, of 0] by auto
  assume "cd_width c = NL80211_CHAN_WIDTH_80"
  then have "chandef_chans c = segment f 80"
    using v bw by (simp add: chandef_chans_def f)
  with p show "set (chandef_chans c) = {p80 - 30, p80 - 10, p80 + 10, p80 + 30}"
    unfolding segment_80 [OF sane] by auto
qed

lemma primary_40:
  assumes "cfg80211_chandef_valid h c" and "cd_width c = NL80211_CHAN_WIDTH_40"
    and "freq_sane (cd_center_freq1 c)"
    and "chandef_primary_freqs h c = Some (p40, p80)"
  shows "set (chandef_chans c) = {p40 - 10, p40 + 10}"
  using assms
  by (auto simp: cfg80211_chandef_valid_def chandef_chans_def cfg80211_chandef_get_width_def
      chandef_primary_freqs_def segment_40 split: option.splits)

lemma chandef_chans_20:
  assumes "cfg80211_chandef_valid h c" and "width_20 (cd_width c)" and "cd_chan c = Some chan"
  shows "chandef_chans c = [ch_center_freq (h chan)]"
  using assms
  by (auto simp: cfg80211_chandef_valid_def chandef_chans_def cfg80211_chandef_get_width_def
      segment_small split: option.splits)

text \<open>One direction: the narrower definition of the two.\<close>

lemma compatible_covers_narrow:
  assumes v: "cfg80211_chandef_valid h c1" "cfg80211_chandef_valid h c2"
    and s: "chandef_sane c1" "chandef_sane c2"
    and p1: "chandef_primary_freqs h c1 = Some (p40, p80)"
    and p2: "chandef_primary_freqs h c2 = Some (p40, q80)"
    and q: "p80 \<noteq> 0 \<and> q80 \<noteq> 0 \<longrightarrow> p80 = q80"
    and lt: "cd_width c1 < cd_width c2"
    and not_split: "\<not> (cd_width c1 = NL80211_CHAN_WIDTH_80P80 \<and> cd_width c2 = NL80211_CHAN_WIDTH_160)"
  shows "set (chandef_chans c1) \<subseteq> set (chandef_chans c2)"
proof -
  have f: "freq_sane (cd_center_freq1 c1)" "freq_sane (cd_center_freq1 c2)"
    using s by (simp_all add: chandef_sane_def)
  note wide2 = primary_80 [OF v(2) _ f(2) p2] primary_160 [OF v(2) _ f(2) p2]
  have w1: "cd_width c1 \<in> {NL80211_CHAN_WIDTH_40, NL80211_CHAN_WIDTH_80, NL80211_CHAN_WIDTH_80P80, NL80211_CHAN_WIDTH_160}"
    and w2: "cd_width c2 \<in> {NL80211_CHAN_WIDTH_40, NL80211_CHAN_WIDTH_80, NL80211_CHAN_WIDTH_80P80, NL80211_CHAN_WIDTH_160}"
    using p1 p2 by (auto simp: chandef_primary_freqs_def split: if_splits)
  show ?thesis
  proof (cases "cd_width c1 = NL80211_CHAN_WIDTH_40")
    case True
    with w2 lt have "{p40 - 10, p40 + 10} \<subseteq> set (chandef_chans c2)"
      using wide2 by (auto simp: chan_width_order)
    then show ?thesis using primary_40 [OF v(1) True f(1) p1] by simp
  next
    case False
    with w1 w2 lt not_split have w80: "cd_width c1 = NL80211_CHAN_WIDTH_80"
      and w: "cd_width c2 = NL80211_CHAN_WIDTH_80P80 \<or> cd_width c2 = NL80211_CHAN_WIDTH_160"
      by (auto simp: chan_width_order)
    have "p80 \<noteq> 0" using primary_80(3) [OF v(1) _ f(1) p1] w80 by simp
    moreover have "q80 \<noteq> 0" using w wide2 by auto
    ultimately have "p80 = q80" using q by simp
    then have "{p80 - 30, p80 - 10, p80 + 10, p80 + 30} \<subseteq> set (chandef_chans c2)"
      using w wide2 by auto
    then show ?thesis using primary_80(4) [OF v(1) _ f(1) p1] w80 by simp
  qed
qed

definition split_pair :: "nl80211_chan_width \<Rightarrow> nl80211_chan_width \<Rightarrow> bool" where
  "split_pair w1 w2 \<longleftrightarrow>
     (w1 = NL80211_CHAN_WIDTH_80P80 \<and> w2 = NL80211_CHAN_WIDTH_160) \<or>
     (w1 = NL80211_CHAN_WIDTH_160 \<and> w2 = NL80211_CHAN_WIDTH_80P80)"

lemma compatible_covers_wide:
  assumes v: "cfg80211_chandef_valid h c1" "cfg80211_chandef_valid h c2"
    and s: "chandef_sane c1" "chandef_sane c2"
    and "\<not> split_pair (cd_width c1) (cd_width c2)"
    and "\<not> width_20 (cd_width c1)" "\<not> width_20 (cd_width c2)"
    and comp: "cfg80211_chandef_compatible h c1 c2 = Some (Some d)" and ne: "c1 \<noteq> c2"
  shows "set (chandef_chans c1) \<union> set (chandef_chans c2) \<subseteq> set (chandef_chans d)"
proof -
  obtain p40 p80 q80 where p: "chandef_primary_freqs h c1 = Some (p40, p80)"
      "chandef_primary_freqs h c2 = Some (p40, q80)"
    and q: "p80 \<noteq> 0 \<and> q80 \<noteq> 0 \<longrightarrow> p80 = q80"
    and d: "d = (if cd_width c1 > cd_width c2 then c1 else c2)"
    and w: "cd_width c1 \<noteq> cd_width c2"
    using comp ne assms(6,7)
    by (auto simp: cfg80211_chandef_compatible_def chandef_identical_eq split: if_splits bind_splits)
  show ?thesis
  proof (cases "cd_width c1 > cd_width c2")
    case True
    then show ?thesis
      using d compatible_covers_narrow [OF v(2,1) s(2,1) p(2,1)] q assms(5)
      by (auto simp: split_pair_def)
  next
    case False
    with w have "cd_width c1 < cd_width c2" by simp
    then show ?thesis
      using False d compatible_covers_narrow [OF v s p q] assms(5)
      by (auto simp: split_pair_def)
  qed
qed

text \<open>C24: Where two valid channel definitions are compatible, the one the code returns occupies
  every 20 MHz channel of both, so an interface moved to it still covers what both asked for.
  Left out is the pair 80+80 and 160 MHz, for which this fails (next claim).\<close>

theorem compatible_covers:
  assumes v: "cfg80211_chandef_valid h c1" "cfg80211_chandef_valid h c2"
    and s: "chandef_sane c1" "chandef_sane c2"
    and split: "\<not> split_pair (cd_width c1) (cd_width c2)"
    and comp: "cfg80211_chandef_compatible h c1 c2 = Some (Some d)"
  shows "set (chandef_chans c1) \<union> set (chandef_chans c2) \<subseteq> set (chandef_chans d)"
proof -
  obtain chan where c: "cd_chan c1 = Some chan" "cd_chan c2 = Some chan"
    using v compatible_same_chan [OF comp] by (auto elim!: chandef_valid_cases)
  note ctl = chandef_chans_control [OF v(1) s(1) c(1)] chandef_chans_control [OF v(2) s(2) c(2)]
  consider "c1 = c2" | "c1 \<noteq> c2" "width_20 (cd_width c1)" | "c1 \<noteq> c2" "\<not> width_20 (cd_width c1)" "width_20 (cd_width c2)"
    | "c1 \<noteq> c2" "\<not> width_20 (cd_width c1)" "\<not> width_20 (cd_width c2)"
    by blast
  then show ?thesis
  proof cases
    case 1
    then show ?thesis using comp by (simp add: cfg80211_chandef_compatible_def chandef_identical_eq)
  next
    case 2
    then have "d = c2" using comp
      by (auto simp: cfg80211_chandef_compatible_def chandef_identical_eq split: if_splits)
    with 2 ctl show ?thesis by (simp add: chandef_chans_20 [OF v(1) _ c(1)])
  next
    case 3
    then have "d = c1" using comp
      by (auto simp: cfg80211_chandef_compatible_def chandef_identical_eq split: if_splits)
    with 3 ctl show ?thesis by (simp add: chandef_chans_20 [OF v(2) _ c(2)])
  next
    case 4
    then show ?thesis using compatible_covers_wide [OF v s split _ _ comp] by blast
  qed
qed

text \<open>
  A sample device for witnesses and examples: the eight channels of the 160 MHz block at
  5250 MHz and channel 155 (5775 MHz), the upper half of the block with radar detection.
\<close>

definition sample_chan :: "u32 \<Rightarrow> u32 \<Rightarrow> ieee80211_channel" where
  "sample_chan freq flags =
     \<lparr>ch_band = NL80211_BAND_5GHZ, ch_center_freq = freq, ch_hw_value = 0, ch_flags = flags,
      ch_max_antenna_gain = 0, ch_max_power = 20, ch_max_reg_power = 20, ch_beacon_found = False,
      ch_orig_flags = flags, ch_orig_mag = 0, ch_orig_mpwr = 0,
      ch_dfs_state = NL80211_DFS_USABLE, ch_dfs_state_entered = 0, ch_dfs_cac_ms = 60000\<rparr>"

definition sample_store :: chan_store where
  "sample_store r =
     (if r < 4 then sample_chan (5180 + 20 * of_nat r) 0
      else if r < 8 then sample_chan (5180 + 20 * of_nat r) IEEE80211_CHAN_RADAR
      else sample_chan 5775 0)"

definition sample_def :: "nl80211_chan_width \<Rightarrow> u32 \<Rightarrow> u32 \<Rightarrow> cfg80211_chan_def" where
  "sample_def width cf1 cf2 =
     \<lparr>cd_chan = Some 0, cd_width = width, cd_center_freq1 = cf1, cd_center_freq2 = cf2\<rparr>"

lemmas sample_defs = sample_store_def sample_chan_def sample_def_def

lemma sample_160_valid: "cfg80211_chandef_valid sample_store (sample_def NL80211_CHAN_WIDTH_160 5250 0)"
  and sample_80_valid: "cfg80211_chandef_valid sample_store (sample_def NL80211_CHAN_WIDTH_80 5210 0)"
  by (simp_all add: cfg80211_chandef_valid_def sample_defs)

lemma sample_sane: "chandef_sane (sample_def width 5250 0)" "chandef_sane (sample_def width 5210 0)"
  by (simp_all add: chandef_sane_def freq_sane_def sample_def_def)

lemma sample_compatible:
  "cfg80211_chandef_compatible sample_store (sample_def NL80211_CHAN_WIDTH_80 5210 0)
     (sample_def NL80211_CHAN_WIDTH_160 5250 0)
   = Some (Some (sample_def NL80211_CHAN_WIDTH_160 5250 0))"
  by (simp add: cfg80211_chandef_compatible_def cfg80211_chandef_identical_def
      chandef_primary_freqs_def sample_defs chan_width_order)

theorem compatible_covers_witness:
  "set (chandef_chans (sample_def NL80211_CHAN_WIDTH_80 5210 0))
     \<subseteq> set (chandef_chans (sample_def NL80211_CHAN_WIDTH_160 5250 0))"
  using compatible_covers [OF sample_80_valid sample_160_valid sample_sane(2,1) _ sample_compatible]
  by (simp add: split_pair_def sample_def_def)

text \<open>An 80+80 MHz definition and a 160 MHz definition with the same primary 80 MHz are
  reported compatible with the 160 MHz one as the result, whatever the second segment of the
  80+80 MHz definition is: here channel 155 (5775 MHz), which the result does not contain.\<close>

lemma compatible_split_not_covered:
  "cfg80211_chandef_compatible sample_store (sample_def NL80211_CHAN_WIDTH_80P80 5210 5775)
     (sample_def NL80211_CHAN_WIDTH_160 5250 0)
   = Some (Some (sample_def NL80211_CHAN_WIDTH_160 5250 0)) \<and>
   cfg80211_chandef_valid sample_store (sample_def NL80211_CHAN_WIDTH_80P80 5210 5775) \<and>
   5765 \<in> set (chandef_chans (sample_def NL80211_CHAN_WIDTH_80P80 5210 5775)) \<and>
   5765 \<notin> set (chandef_chans (sample_def NL80211_CHAN_WIDTH_160 5250 0))"
proof -
  have "freq_sane 5210" "freq_sane 5775" "freq_sane 5250" by (simp_all add: freq_sane_def)
  then show ?thesis
    by (simp add: cfg80211_chandef_compatible_def cfg80211_chandef_identical_def
        chandef_primary_freqs_def cfg80211_chandef_valid_def sample_defs chan_width_order
        chandef_chans_def cfg80211_chandef_get_width_def segment_80 segment_160)
qed

text \<open>Compatibility does not depend on the order of its arguments, for valid definitions that
  are not both 20 MHz wide (of a 20 MHz and a non-HT 20 MHz definition the code returns the second).\<close>

theorem compatible_symmetric_valid:
  assumes "cfg80211_chandef_valid h c1" and "cfg80211_chandef_valid h c2"
    and "\<not> (width_20 (cd_width c1) \<and> width_20 (cd_width c2))"
  shows "\<exists>r. cfg80211_chandef_compatible h c1 c2 = Some r \<and> cfg80211_chandef_compatible h c2 c1 = Some r"
  using compatible_symmetric [OF assms] compatible_returns [OF assms(1,2)] by auto

theorem compatible_symmetric_valid_witness:
  "\<exists>r. cfg80211_chandef_compatible sample_store (sample_def NL80211_CHAN_WIDTH_160 5250 0)
          (sample_def NL80211_CHAN_WIDTH_80 5210 0) = Some r"
  using compatible_symmetric_valid [OF sample_160_valid sample_80_valid] by (auto simp: sample_def_def)

end
