(* ===== verification/Dfs.thy ===== *)
theory Dfs
  imports Chandef
begin

text \<open>
  What the walks of net/wireless/chan.c over the 20 MHz channels of a definition answer, for
  radar detection (DFS): each walk is characterised by a property of every channel of the
  definition (\<open>chan_sat\<close>), the walk that sets the state by its effect on the store
  (\<open>mark\<close>), and all of them return on every input.
\<close>

section \<open>The walks on the list of channels\<close>

definition chan_sat :: "chan_store \<Rightarrow> wiphy \<Rightarrow> u32 \<Rightarrow> (ieee80211_channel \<Rightarrow> bool) \<Rightarrow> bool" where
  "chan_sat h w f P = (case ieee80211_get_channel h w f of None \<Rightarrow> False | Some r \<Rightarrow> P (h r))"

lemma chan_sat_mono: "chan_sat h w f P \<Longrightarrow> (\<And>c. P c \<Longrightarrow> Q c) \<Longrightarrow> chan_sat h w f Q"
  by (auto simp: chan_sat_def split: option.splits)

lemma for_chans_all:
  assumes "no_wrap (cfg80211_get_end_freq cf bw)"
  shows "for_chans h w cf bw False (\<lambda>u c. if Q c then Inl False else Inr u) () (\<lambda>_. True)
           = Some (\<forall>f \<in> set (segment cf bw). chan_sat h w f (\<lambda>c. \<not> Q c))"
proof -
  have body: "(\<lambda>u f. case ieee80211_get_channel h w f of None \<Rightarrow> Inl False
                  | Some c \<Rightarrow> (if Q (h c) then Inl False else Inr u))
              = (\<lambda>u f. if chan_sat h w f (\<lambda>c. \<not> Q c) then Inr u else Inl False)"
    by (intro ext) (simp add: chan_sat_def split: option.split)
  show ?thesis
    unfolding for_chans_segment [OF assms] body fold_until_all by simp
qed

lemma secondary_chans_ok_iff:
  "no_wrap (cfg80211_get_end_freq cf bw) \<Longrightarrow>
     cfg80211_secondary_chans_ok h w cf bw flags
       = Some (\<forall>f \<in> set (segment cf bw). chan_sat h w f (\<lambda>c. \<not> flag_set (ch_flags c) flags))"
  unfolding cfg80211_secondary_chans_ok_def by (rule for_chans_all)

text \<open>What a channel must satisfy to be used without a channel availability check.\<close>

definition dfs_ok :: "bool \<Rightarrow> ieee80211_channel \<Rightarrow> bool" where
  "dfs_ok dfs_offload c \<longleftrightarrow>
     \<not> flag_set (ch_flags c) IEEE80211_CHAN_DISABLED \<and>
     (flag_set (ch_flags c) IEEE80211_CHAN_RADAR \<longrightarrow>
        ch_dfs_state c = NL80211_DFS_AVAILABLE \<or> (ch_dfs_state c = NL80211_DFS_USABLE \<and> dfs_offload))"

lemma chans_dfs_available_iff:
  assumes "no_wrap (cfg80211_get_end_freq cf bw)"
    and "wiphy_ext_feature_isset w NL80211_EXT_FEATURE_DFS_OFFLOAD = Some off"
  shows "cfg80211_get_chans_dfs_available h w cf bw
           = Some (\<forall>f \<in> set (segment cf bw). chan_sat h w f (dfs_ok off))"
proof -
  have body: "(\<lambda>u c. if flag_set (ch_flags c) IEEE80211_CHAN_DISABLED then Inl False
            else if flag_set (ch_flags c) IEEE80211_CHAN_RADAR \<and>
                    ch_dfs_state c \<noteq> NL80211_DFS_AVAILABLE \<and>
                    \<not> (ch_dfs_state c = NL80211_DFS_USABLE \<and> off) then Inl False
            else Inr u) = (\<lambda>(u::unit) c. if \<not> dfs_ok off c then Inl False else Inr u)"
    by (intro ext) (auto simp: dfs_ok_def)
  show ?thesis
    by (simp add: cfg80211_get_chans_dfs_available_def assms(2) body for_chans_all [OF assms(1)] del: not_not)
      simp
qed

lemma fold_until_required:
  fixes G :: "u32 \<Rightarrow> chan_ref option" and R :: "chan_ref \<Rightarrow> bool"
  defines "body \<equiv> \<lambda>u f. case G f of None \<Rightarrow> Inl (Inl EINVAL)
     | Some c \<Rightarrow> (if R c then Inl (Inr (1::nat)) else Inr u)"
  shows "fold_until body () xs = Inr () \<longleftrightarrow> (\<forall>f \<in> set xs. \<exists>c. G f = Some c \<and> \<not> R c)"
    and "fold_until body () xs = Inl (Inr n) \<Longrightarrow> n = 1 \<and> (\<exists>f \<in> set xs. \<exists>c. G f = Some c \<and> R c)"
  by (induction xs) (auto simp: body_def split: option.splits if_splits)

lemma chans_dfs_required_cases:
  assumes "no_wrap (cfg80211_get_end_freq cf bw)"
  shows "\<exists>r. cfg80211_get_chans_dfs_required h w cf bw = Some r \<and>
     (r = Inr 0 \<longleftrightarrow> (\<forall>f \<in> set (segment cf bw). chan_sat h w f (\<lambda>c. \<not> flag_set (ch_flags c) IEEE80211_CHAN_RADAR))) \<and>
     (\<forall>n. r = Inr n \<longrightarrow> 0 < n \<longrightarrow> (\<exists>f \<in> set (segment cf bw). chan_sat h w f (\<lambda>c. flag_set (ch_flags c) IEEE80211_CHAN_RADAR)))"
proof -
  define F where "F = fold_until (\<lambda>u f. case ieee80211_get_channel h w f of None \<Rightarrow> Inl (Inl EINVAL)
     | Some c \<Rightarrow> (if flag_set (ch_flags (h c)) IEEE80211_CHAN_RADAR then Inl (Inr (1::nat)) else Inr u)) () (segment cf bw)"
  have eq: "cfg80211_get_chans_dfs_required h w cf bw = Some (case_sum (\<lambda>r. r) (\<lambda>_. Inr 0) F)"
    unfolding cfg80211_get_chans_dfs_required_def for_chans_segment [OF assms] F_def ..
  note iff = fold_until_required [where G = "ieee80211_get_channel h w" and R = "\<lambda>c. flag_set (ch_flags (h c)) IEEE80211_CHAN_RADAR" and xs = "segment cf bw", folded F_def]
  have sat: "chan_sat h w f P \<longleftrightarrow> (\<exists>c. ieee80211_get_channel h w f = Some c \<and> P (h c))" for f P
    by (simp add: chan_sat_def split: option.split)
  show ?thesis
  proof (cases F)
    case (Inr u)
    then show ?thesis using iff(1) by (simp add: eq sat)
  next
    case (Inl r)
    then show ?thesis using iff by (cases r) (auto simp: eq sat)
  qed
qed

lemma sane_no_wrap:
  assumes "freq_sane cf" and "bw \<in> {5, 10, 20, 40, 80, 160}"
  shows "no_wrap (cfg80211_get_end_freq cf bw)"
proof -
  have "unat cf \<le> 4000000000" using assms(1) by (simp add: freq_sane_def word_le_nat_alt)
  moreover from this have "unat (x + cf) = unat x + unat cf" if "x \<le> 100" for x :: u32
    using that by (simp add: unat_word_ariths word_le_nat_alt)
  ultimately show ?thesis
    using assms(2) by (auto simp: no_wrap_def cfg80211_get_end_freq_def)
qed

text \<open>Setting the state along a list of frequencies.\<close>

definition hit :: "chan_store \<Rightarrow> wiphy \<Rightarrow> u32 list \<Rightarrow> chan_ref \<Rightarrow> bool" where
  "hit h w fs r \<longleftrightarrow> (\<exists>f \<in> set fs. ieee80211_get_channel h w f = Some r) \<and>
     flag_set (ch_flags (h r)) IEEE80211_CHAN_RADAR"

definition mark :: "chan_store \<Rightarrow> wiphy \<Rightarrow> u32 list \<Rightarrow> u64 \<Rightarrow> nl80211_dfs_state \<Rightarrow> chan_store" where
  "mark h w fs j st r =
     (if hit h w fs r then (h r)\<lparr>ch_dfs_state := st, ch_dfs_state_entered := j\<rparr> else h r)"

lemma mark_frame [simp]:
  "ch_center_freq (mark h w fs j st r) = ch_center_freq (h r)"
  "ch_flags (mark h w fs j st r) = ch_flags (h r)"
  by (simp_all add: mark_def)

lemma mark_lookup [simp]: "ieee80211_get_channel (mark h w fs j st) w' f = ieee80211_get_channel h w' f"
  by (rule get_channel_cong) simp

lemma hit_mark [simp]: "hit (mark h w fs j st) w' fs' r = hit h w' fs' r"
  by (simp add: hit_def)

lemma mark_Nil: "mark h w [] j st = h"
  by (rule ext) (simp add: mark_def hit_def)

lemma mark_append: "mark (mark h w fs j st) w gs j st = mark h w (fs @ gs) j st"
proof (rule ext)
  fix r
  have "hit h w (fs @ gs) r \<longleftrightarrow> hit h w fs r \<or> hit h w gs r" by (auto simp: hit_def)
  then show "mark (mark h w fs j st) w gs j st r = mark h w (fs @ gs) j st r"
    unfolding mark_def [of "mark h w fs j st"] hit_mark by (simp add: mark_def)
qed

lemma fold_until_mark:
  "fold_until (\<lambda>h freq. case ieee80211_get_channel h w freq of None \<Rightarrow> Inr h
     | Some c \<Rightarrow> if \<not> flag_set (ch_flags (h c)) IEEE80211_CHAN_RADAR then Inr h
                 else Inr (h(c := (h c)\<lparr>ch_dfs_state := st, ch_dfs_state_entered := j\<rparr>))) h fs
   = Inr (mark h w fs j st)"
proof (induction fs arbitrary: h)
  case Nil
  then show ?case by (simp add: mark_Nil)
next
  case (Cons f fs)
  have one: "(case ieee80211_get_channel h w f of None \<Rightarrow> Inr h
     | Some c \<Rightarrow> if \<not> flag_set (ch_flags (h c)) IEEE80211_CHAN_RADAR then Inr h
                 else Inr (h(c := (h c)\<lparr>ch_dfs_state := st, ch_dfs_state_entered := j\<rparr>))) = Inr (mark h w [f] j st)"
    by (auto simp: mark_def hit_def split: option.split intro!: ext)
  show ?case
    unfolding fold_until.simps one sum.case Cons.IH mark_append by simp
qed

lemma set_state_ends:
  assumes "bw \<in> {20, 40, 80, 160 :: u32}"
  shows "cf - bw div 2 + 10 = cfg80211_get_start_freq cf bw"
    and "cf + bw div 2 - 10 = cfg80211_get_end_freq cf bw"
  using assms by (auto simp: cfg80211_get_start_freq_def cfg80211_get_end_freq_def)

lemma set_chans_dfs_state_mark:
  assumes "freq_sane cf" and "bw \<in> {20, 40, 80, 160}"
  shows "cfg80211_set_chans_dfs_state j w cf bw st h = Some (mark h w (segment cf bw) j st)"
proof -
  have "no_wrap (cfg80211_get_end_freq cf bw)"
    by (rule sane_no_wrap [OF assms(1)]) (use assms(2) in auto)
  then show ?thesis
    unfolding cfg80211_set_chans_dfs_state_def set_state_ends [OF assms(2)]
    by (simp add: for_freqs_fold fold_until_mark segment_def)
qed

lemma chandef_width_bw:
  assumes "cfg80211_chandef_valid h c"
  shows "0 \<le> cfg80211_chandef_get_width c"
    and "word_of_int (cfg80211_chandef_get_width c) \<in> {5 :: u32, 10, 20, 40, 80, 160}"
    and "\<not> narrow_width (cd_width c) \<Longrightarrow> word_of_int (cfg80211_chandef_get_width c) \<in> {20 :: u32, 40, 80, 160}"
    and "cd_center_freq2 c \<noteq> 0 \<longleftrightarrow> cd_width c = NL80211_CHAN_WIDTH_80P80"
  using assms
  by (cases "cd_width c"; auto simp: cfg80211_chandef_valid_def cfg80211_chandef_get_width_def split: option.splits)+

lemma chandef_no_wrap:
  assumes "cfg80211_chandef_valid h c" and "chandef_sane c"
  shows "no_wrap (cfg80211_get_end_freq (cd_center_freq1 c) (word_of_int (cfg80211_chandef_get_width c)))"
    and "cd_width c = NL80211_CHAN_WIDTH_80P80 \<Longrightarrow>
      no_wrap (cfg80211_get_end_freq (cd_center_freq2 c) (word_of_int (cfg80211_chandef_get_width c)))"
  using assms chandef_width_bw [OF assms(1)]
  by (auto simp: chandef_sane_def intro!: sane_no_wrap)

lemma chandef_chans_split:
  assumes "cfg80211_chandef_valid h c"
  shows "chandef_chans c =
     (if cd_width c = NL80211_CHAN_WIDTH_80P80
      then segment (cd_center_freq1 c) (word_of_int (cfg80211_chandef_get_width c)) @
           segment (cd_center_freq2 c) (word_of_int (cfg80211_chandef_get_width c))
      else segment (cd_center_freq1 c) (word_of_int (cfg80211_chandef_get_width c)))"
  using chandef_width_bw(4) [OF assms] by (auto simp: chandef_chans_def Let_def)

lemma set_dfs_state_mark:
  assumes "cfg80211_chandef_valid h c" and "chandef_sane c" and "\<not> narrow_width (cd_width c)"
  shows "cfg80211_set_dfs_state j w c st h = Some (mark h w (chandef_chans c) j st)"
proof -
  note w = chandef_width_bw [OF assms(1)]
  have s: "freq_sane (cd_center_freq1 c)" "cd_center_freq2 c \<noteq> 0 \<Longrightarrow> freq_sane (cd_center_freq2 c)"
    using assms(2) by (simp_all add: chandef_sane_def)
  show ?thesis
    using assms(1) w(1) s(2)
    by (simp add: cfg80211_set_dfs_state_def set_chans_dfs_state_mark [OF s(1) w(3) [OF assms(3)]]
       set_chans_dfs_state_mark [OF s(2) w(3) [OF assms(3)]] chandef_chans_def mark_append Let_def)
qed

lemma dfs_available_iff:
  assumes "cfg80211_chandef_valid h c" and "chandef_sane c"
    and "wiphy_ext_feature_isset w NL80211_EXT_FEATURE_DFS_OFFLOAD = Some off"
  shows "cfg80211_chandef_dfs_available h w c
    = Some (\<forall>f \<in> set (chandef_chans c). chan_sat h w f (dfs_ok off))"
  using assms(1) chandef_width_bw(1) [OF assms(1)]
  by (simp add: cfg80211_chandef_dfs_available_def chandef_chans_split chans_dfs_available_iff
      chandef_no_wrap [OF assms(1,2)] assms(3) ball_Un Let_def)
    blast

lemma chandef_valid_cong:
  assumes "\<And>r. ch_center_freq (h' r) = ch_center_freq (h r)"
  shows "cfg80211_chandef_valid h' c = cfg80211_chandef_valid h c"
  by (simp add: cfg80211_chandef_valid_def assms split: option.split)

lemma mark_valid [simp]: "cfg80211_chandef_valid (mark h w fs j st) c = cfg80211_chandef_valid h c"
  by (rule chandef_valid_cong) simp

lemma chan_sat_mark:
  "f \<in> set fs \<Longrightarrow> chan_sat (mark h w fs j st) w f P \<longleftrightarrow>
     chan_sat h w f (\<lambda>c. P (if flag_set (ch_flags c) IEEE80211_CHAN_RADAR
       then c\<lparr>ch_dfs_state := st, ch_dfs_state_entered := j\<rparr> else c))"
  by (auto simp: chan_sat_def mark_def hit_def split: option.splits)

definition enabled :: "ieee80211_channel \<Rightarrow> bool" where
  "enabled c \<longleftrightarrow> \<not> flag_set (ch_flags c) IEEE80211_CHAN_DISABLED"



lemma ten_div: "(10::u32) div 2 = 5" by simp


lemma dfs_required_sound:
  assumes "cfg80211_chandef_valid h c" and "chandef_sane c"
    and "dfs_required_chans h w c = Some (Inr m)"
  shows "m = 0 \<longleftrightarrow> (\<forall>f \<in> set (chandef_chans c). chan_sat h w f (\<lambda>c. \<not> flag_set (ch_flags c) IEEE80211_CHAN_RADAR))"
proof -
  define bw :: u32 where "bw = word_of_int (cfg80211_chandef_get_width c)"
  define R where "R f \<longleftrightarrow> chan_sat h w f (\<lambda>c. flag_set (ch_flags c) IEEE80211_CHAN_RADAR)" for f
  define N where "N f \<longleftrightarrow> chan_sat h w f (\<lambda>c. \<not> flag_set (ch_flags c) IEEE80211_CHAN_RADAR)" for f
  have excl: "R f \<Longrightarrow> \<not> N f" for f by (auto simp: R_def N_def chan_sat_def split: option.splits)
  have bit: "BIT (chan_width_val (cd_width c)) \<noteq> 0"
    using assms(1) by (cases "cd_width c") (auto simp: BIT_def cfg80211_chandef_valid_def split: option.splits)
  note nw = chandef_no_wrap [OF assms(1,2), folded bw_def]
  note cf2 = chandef_width_bw(4) [OF assms(1)]
  obtain r1 where r1: "cfg80211_get_chans_dfs_required h w (cd_center_freq1 c) bw = Some r1"
    "r1 = Inr 0 \<longleftrightarrow> (\<forall>f \<in> set (segment (cd_center_freq1 c) bw). N f)"
    "\<And>n. r1 = Inr n \<Longrightarrow> 0 < n \<Longrightarrow> \<exists>f \<in> set (segment (cd_center_freq1 c) bw). R f"
    using chans_dfs_required_cases [OF nw(1), of h w, folded R_def N_def] by blast
  have r2: "\<exists>r2. cfg80211_get_chans_dfs_required h w (cd_center_freq2 c) bw = Some r2 \<and>
    (r2 = Inr 0 \<longleftrightarrow> (\<forall>f \<in> set (segment (cd_center_freq2 c) bw). N f)) \<and>
    (\<forall>n. r2 = Inr n \<longrightarrow> 0 < n \<longrightarrow> (\<exists>f \<in> set (segment (cd_center_freq2 c) bw). R f))"
    if "cd_width c = NL80211_CHAN_WIDTH_80P80"
    using chans_dfs_required_cases [OF nw(2) [OF that], of h w, folded R_def N_def] by blast
  have len: "\<And>x. x \<in> set (segment (cd_center_freq1 c) bw) \<Longrightarrow> x \<in> set (chandef_chans c)"
    "\<And>x. cd_center_freq2 c \<noteq> 0 \<Longrightarrow> x \<in> set (segment (cd_center_freq2 c) bw) \<Longrightarrow> x \<in> set (chandef_chans c)"
    by (auto simp: chandef_chans_def bw_def Let_def)
  have sp: "(\<forall>f \<in> set (chandef_chans c). N f) \<longleftrightarrow> (\<forall>f \<in> set (segment (cd_center_freq1 c) bw). N f) \<and>
     (cd_center_freq2 c \<noteq> 0 \<longrightarrow> (\<forall>f \<in> set (segment (cd_center_freq2 c) bw). N f))"
    by (auto simp: chandef_chans_def bw_def Let_def)
  have "m = 0 \<longleftrightarrow> (\<forall>f \<in> set (chandef_chans c). N f)"
  proof (cases r1)
    case (Inl e)
    then show ?thesis using assms(3) r1(1) by (simp add: dfs_required_chans_def bw_def Let_def split: if_splits)
  next
    case (Inr n)
    show ?thesis
    proof (cases "n > 0")
      case True
      then have "m \<noteq> 0" using assms(3) r1(1) Inr bit
        by (simp add: dfs_required_chans_def bw_def Let_def split: if_splits)
      then show ?thesis using r1(3) [OF Inr True] excl len(1) by blast
    next
      case False
      with Inr r1(2) have all1: "\<forall>f \<in> set (segment (cd_center_freq1 c) bw). N f" by simp
      show ?thesis
      proof (cases "cd_center_freq2 c = 0")
        case True
        then have "m = 0" using assms(3) r1(1) Inr False
          by (simp add: dfs_required_chans_def bw_def Let_def split: if_splits)
        then show ?thesis using True all1 sp by simp
      next
        case cf: False
        then obtain r2 where r2: "cfg80211_get_chans_dfs_required h w (cd_center_freq2 c) bw = Some r2"
          "r2 = Inr 0 \<longleftrightarrow> (\<forall>f \<in> set (segment (cd_center_freq2 c) bw). N f)"
          "\<And>n. r2 = Inr n \<Longrightarrow> 0 < n \<Longrightarrow> \<exists>f \<in> set (segment (cd_center_freq2 c) bw). R f"
          using r2 cf2 by blast
        from assms(3) r1(1) r2(1) Inr False cf obtain n2 where n2: "r2 = Inr n2"
           "m = (if n2 > 0 then BIT (chan_width_val (cd_width c)) else 0)"
          by (cases r2) (auto simp: dfs_required_chans_def bw_def Let_def split: if_splits)
        show ?thesis
        proof (cases "n2 > 0")
          case True
          then have "m \<noteq> 0" using n2 bit by simp
          then show ?thesis using r2(3) [OF n2(1) True] excl len(2) [OF cf] by blast
        next
          case False
          then show ?thesis using n2 r2(2) all1 sp cf by simp
        qed
      qed
    qed
  qed
  then show ?thesis unfolding N_def .
qed

lemma for_chans_returns:
  assumes "wiphy_freqs_ok h w"
  shows "\<exists>r. for_chans h w cf bw absent body s after = Some r"
  unfolding for_chans_def
  by (rule wiphy_dir.lookup_loop_ends [where h = h and w = w])
    (simp add: wiphy_lookup_ok [OF assms])

lemma chans_walks_return:
  assumes "wiphy_freqs_ok h w"
  shows "\<exists>r. cfg80211_get_chans_dfs_required h w cf bw = Some r"
    and "\<exists>r. cfg80211_get_chans_dfs_usable h w cf bw = Some r"
    and "wiphy_ext_feature_isset w NL80211_EXT_FEATURE_DFS_OFFLOAD = Some off \<Longrightarrow>
      \<exists>r. cfg80211_get_chans_dfs_available h w cf bw = Some r"
    and "\<exists>r. cfg80211_get_chans_dfs_cac_time h w cf bw = Some r"
    and "\<exists>r. cfg80211_secondary_chans_ok h w cf bw flags = Some r"
  by (simp_all only: cfg80211_get_chans_dfs_required_def cfg80211_get_chans_dfs_usable_def
      cfg80211_get_chans_dfs_available_def cfg80211_get_chans_dfs_cac_time_def
      cfg80211_secondary_chans_ok_def for_chans_returns [OF assms] bind.bind_lunit)


definition can_cac :: "ieee80211_channel \<Rightarrow> bool" where
  "can_cac c \<longleftrightarrow> enabled c \<and>
     (flag_set (ch_flags c) IEEE80211_CHAN_RADAR \<longrightarrow> ch_dfs_state c \<noteq> NL80211_DFS_UNAVAILABLE)"

definition needs_cac :: "ieee80211_channel \<Rightarrow> bool" where
  "needs_cac c \<longleftrightarrow> flag_set (ch_flags c) IEEE80211_CHAN_RADAR \<and> ch_dfs_state c = NL80211_DFS_USABLE"

lemma fold_until_usable:
  "fold_until (\<lambda>n f. case ieee80211_get_channel h w f of None \<Rightarrow> Inl (Inl EINVAL)
     | Some r \<Rightarrow> (if flag_set (ch_flags (h r)) IEEE80211_CHAN_DISABLED then Inl (Inl EINVAL)
          else if flag_set (ch_flags (h r)) IEEE80211_CHAN_RADAR then
            (if ch_dfs_state (h r) = NL80211_DFS_UNAVAILABLE then Inl (Inl EINVAL)
             else if ch_dfs_state (h r) = NL80211_DFS_USABLE then Inr (Suc n)
             else Inr n)
          else Inr n)) n fs
   = (if \<forall>f \<in> set fs. chan_sat h w f can_cac
      then Inr (n + length (filter (\<lambda>f. chan_sat h w f needs_cac) fs)) else Inl (Inl EINVAL))"
  by (induction fs arbitrary: n) (auto simp: chan_sat_def can_cac_def needs_cac_def enabled_def split: option.splits)

lemma chans_dfs_usable_eq:
  assumes "no_wrap (cfg80211_get_end_freq cf bw)"
  shows "cfg80211_get_chans_dfs_usable h w cf bw = Some
    (if \<forall>f \<in> set (segment cf bw). chan_sat h w f can_cac
     then Inr (length (filter (\<lambda>f. chan_sat h w f needs_cac) (segment cf bw))) else Inl EINVAL)"
  unfolding cfg80211_get_chans_dfs_usable_def for_chans_segment [OF assms] fold_until_usable
  by simp


lemma fold_until_cac:
  assumes "\<forall>f \<in> set fs. chan_sat h w f enabled"
  shows "\<exists>t'. fold_until (\<lambda>t f. case ieee80211_get_channel h w f of None \<Rightarrow> Inl (0 :: u32)
     | Some r \<Rightarrow> (if flag_set (ch_flags (h r)) IEEE80211_CHAN_DISABLED then Inl 0
          else if \<not> flag_set (ch_flags (h r)) IEEE80211_CHAN_RADAR then Inr t
          else if ch_dfs_cac_ms (h r) > t then Inr (ch_dfs_cac_ms (h r))
          else Inr t)) t fs = Inr t' \<and> t \<le> t' \<and>
     (\<forall>f \<in> set fs. chan_sat h w f (\<lambda>c. flag_set (ch_flags c) IEEE80211_CHAN_RADAR \<longrightarrow> ch_dfs_cac_ms c \<le> t'))"
  using assms
proof (induction fs arbitrary: t)
  case (Cons f fs)
  then obtain r where r: "ieee80211_get_channel h w f = Some r" "enabled (h r)"
    by (auto simp: chan_sat_def split: option.splits)
  show ?case
    using r(2) Cons.IH [of t] Cons.IH [of "ch_dfs_cac_ms (h r)"] Cons.prems r(1)
    by (fastforce simp: enabled_def chan_sat_def)
qed simp

lemma chans_cac_time:
  assumes "no_wrap (cfg80211_get_end_freq cf bw)"
    and "\<forall>f \<in> set (segment cf bw). chan_sat h w f enabled"
  shows "\<exists>t. cfg80211_get_chans_dfs_cac_time h w cf bw = Some t \<and>
     (\<forall>f \<in> set (segment cf bw). chan_sat h w f (\<lambda>c. flag_set (ch_flags c) IEEE80211_CHAN_RADAR \<longrightarrow> ch_dfs_cac_ms c \<le> t))"
proof -
  from fold_until_cac [OF assms(2), of 0] show ?thesis
    unfolding cfg80211_get_chans_dfs_cac_time_def for_chans_segment [OF assms(1)]
    by (elim exE conjE) simp
qed

section \<open>A device for examples\<close>

definition sample_band :: ieee80211_supported_band where
  "sample_band =
     \<lparr>sb_channels = [0..<9], sb_bitrates = [], sb_band = NL80211_BAND_5GHZ,
      sb_ht_cap = \<lparr>ht_cap_bits = 2, ht_supported = True, ht_rx_mask = []\<rparr>,
      sb_vht_cap = \<lparr>vht_supported = True, vht_cap_bits = 4\<rparr>\<rparr>"

definition sample_wiphy :: wiphy where
  "sample_wiphy =
     \<lparr>w_idx = 0, w_bands = [NL80211_BAND_5GHZ \<mapsto> sample_band], w_regd = None, w_flags = 0, w_features = 0,
      w_regulatory_flags = 0, w_ext_features = replicate 8 0, w_interface_modes = 0,
      w_software_iftypes = 0, w_cipher_suites = [], w_iface_combinations = [], w_wdev_list = []\<rparr>"

lemma sample_chans: "wiphy_chans sample_wiphy = {0..<9}"
  by (auto simp: wiphy_chans_def all_bands_def sample_wiphy_def sample_band_def)

lemma sample_freqs_ok: "wiphy_freqs_ok sample_store sample_wiphy"
proof -
  have "{0..<9} = {0, 1, 2, 3, 4, 5, 6, 7, 8 :: nat}" by auto
  then show ?thesis
    by (simp add: wiphy_freqs_ok_def sample_chans sample_defs no_wrap_def)
qed

lemma sample_offload: "wiphy_ext_feature_isset sample_wiphy NL80211_EXT_FEATURE_DFS_OFFLOAD = Some False"
  by (simp add: wiphy_ext_feature_isset_def sample_wiphy_def NL80211_EXT_FEATURE_DFS_OFFLOAD_def)

lemma sample_upt: "[0..<9] = [0, 1, 2, 3, 4, 5, 6, 7, 8 :: nat]"
  by (simp add: upt_conv_Cons)

lemma sample_lookup:
  "ieee80211_get_channel sample_store sample_wiphy f =
     (if f = 5180 then Some 0 else if f = 5200 then Some 1 else if f = 5220 then Some 2
      else if f = 5240 then Some 3 else if f = 5260 then Some 4 else if f = 5280 then Some 5
      else if f = 5300 then Some 6 else if f = 5320 then Some 7 else if f = 5775 then Some 8
      else None)"
  by (simp add: ieee80211_get_channel_def all_bands_def sample_wiphy_def sample_band_def find_chan_def
      sample_upt sample_store_def sample_chan_def)

lemma sample_160_chans:
  "set (chandef_chans (sample_def NL80211_CHAN_WIDTH_160 5250 0))
     = {5180, 5200, 5220, 5240, 5260, 5280, 5300, 5320}"
  by (simp add: chandef_chans_def sample_def_def cfg80211_chandef_get_width_def segment_160 freq_sane_def)

section \<open>Properties\<close>

text \<open>Setting the radar state of a valid definition of at least 20 MHz writes the state and the
  time into every channel of the definition that exists and needs radar detection; no other
  channel and no other field changes.\<close>

lemma set_dfs_state_effect:
  assumes "cfg80211_chandef_valid h c" and "chandef_sane c" and "\<not> narrow_width (cd_width c)"
  shows "\<exists>h'. cfg80211_set_dfs_state j w c st h = Some h' \<and>
    (\<forall>r. h' r = (if (\<exists>f \<in> set (chandef_chans c). ieee80211_get_channel h w f = Some r) \<and>
                    flag_set (ch_flags (h r)) IEEE80211_CHAN_RADAR
                 then (h r)\<lparr>ch_dfs_state := st, ch_dfs_state_entered := j\<rparr> else h r))"
  by (simp add: set_dfs_state_mark [OF assms] mark_def hit_def)

lemma sample_160_not_narrow: "\<not> narrow_width (cd_width (sample_def NL80211_CHAN_WIDTH_160 5250 0))"
  by (simp add: sample_def_def)

lemma set_dfs_state_effect_witness:
  "\<exists>h'. cfg80211_set_dfs_state 7 sample_wiphy (sample_def NL80211_CHAN_WIDTH_160 5250 0)
           NL80211_DFS_UNAVAILABLE sample_store = Some h' \<and>
        ch_dfs_state (h' 4) = NL80211_DFS_UNAVAILABLE \<and> ch_dfs_state_entered (h' 4) = 7 \<and>
        h' 0 = sample_store 0"
proof -
  have "5260 \<in> set (chandef_chans (sample_def NL80211_CHAN_WIDTH_160 5250 0))"
    by (simp add: sample_160_chans)
  moreover have "ieee80211_get_channel sample_store sample_wiphy 5260 = Some 4"
    by (simp add: sample_lookup)
  moreover have "flag_set (ch_flags (sample_store 4)) IEEE80211_CHAN_RADAR"
    "\<not> flag_set (ch_flags (sample_store 0)) IEEE80211_CHAN_RADAR"
    by (simp_all add: sample_defs flag_set_def)
  ultimately show ?thesis
    using set_dfs_state_effect [OF sample_160_valid sample_sane(1) sample_160_not_narrow,
        of 7 sample_wiphy NL80211_DFS_UNAVAILABLE] by fastforce
qed



text \<open>On a 5 or 10 MHz definition the loop that sets the radar state visits no channel, so the
  outcome of a channel availability check, and a detected radar, are never recorded.\<close>

theorem narrow_set_dfs_state_nop:
  assumes "cfg80211_chandef_valid h c" and "chandef_sane c" and "narrow_width (cd_width c)"
  shows "cfg80211_set_dfs_state j w c st h = Some h"
proof -
  have f: "100 \<le> cd_center_freq1 c" "cd_center_freq1 c \<le> 4000000000"
    using assms(2) by (simp_all add: chandef_sane_def freq_sane_def)
  then have "unat (8 + cd_center_freq1 c) = unat (cd_center_freq1 c) + 8"
      "unat (cd_center_freq1 c - 8) = unat (cd_center_freq1 c) - 8"
      "unat (5 + cd_center_freq1 c) = unat (cd_center_freq1 c) + 5"
      "unat (cd_center_freq1 c - 5) = unat (cd_center_freq1 c) - 5"
    by (simp_all add: unat_word_ariths unat_sub word_le_nat_alt)
  with f have lt: "\<not> 8 + cd_center_freq1 c \<le> cd_center_freq1 c - 8"
    "\<not> 5 + cd_center_freq1 c \<le> cd_center_freq1 c - 5"
    by (simp_all add: word_le_nat_alt)
  have "\<not> cd_center_freq1 c - bw div 2 + 10 \<le> cd_center_freq1 c + bw div 2 - 10" if "bw = 5 \<or> bw = 10" for bw :: u32
    using that lt by (elim disjE) (simp_all add: ten_div)
  then have nop: "cfg80211_set_chans_dfs_state j w (cd_center_freq1 c) bw st h = Some h" if "bw = 5 \<or> bw = 10" for bw :: u32
    using that by (simp add: cfg80211_set_chans_dfs_state_def for_freqs_def freq_loop.simps)
  have "cd_center_freq2 c = 0" using chandef_width_bw(4) [OF assms(1)] assms(3) by auto
  with assms(1,3) show ?thesis
    by (auto simp: cfg80211_set_dfs_state_def cfg80211_chandef_get_width_def nop)
qed

definition sample_narrow :: cfg80211_chan_def where
  "sample_narrow = \<lparr>cd_chan = Some 4, cd_width = NL80211_CHAN_WIDTH_10, cd_center_freq1 = 5260, cd_center_freq2 = 0\<rparr>"

theorem narrow_set_dfs_state_nop_witness:
  "cfg80211_set_dfs_state 7 sample_wiphy sample_narrow NL80211_DFS_UNAVAILABLE sample_store = Some sample_store \<and>
   cfg80211_get_chans_dfs_required sample_store sample_wiphy 5260 10 = Some (Inr 1)"
proof
  have v: "cfg80211_chandef_valid sample_store sample_narrow" "chandef_sane sample_narrow"
    "narrow_width (cd_width sample_narrow)"
    by (simp_all add: sample_narrow_def cfg80211_chandef_valid_def sample_defs chandef_sane_def freq_sane_def)
  show "cfg80211_set_dfs_state 7 sample_wiphy sample_narrow NL80211_DFS_UNAVAILABLE sample_store = Some sample_store"
    by (rule narrow_set_dfs_state_nop [OF v])
  have "no_wrap (cfg80211_get_end_freq 5260 10)" by (simp add: cfg80211_get_end_freq_def no_wrap_def)
  then show "cfg80211_get_chans_dfs_required sample_store sample_wiphy 5260 10 = Some (Inr 1)"
    by (simp add: cfg80211_get_chans_dfs_required_def for_chans_segment segment_small sample_lookup
        sample_defs flag_set_def)
qed

text \<open>A definition can be used after a channel availability check, by the code's answer, exactly
  when every channel of it exists, is enabled and has seen no radar, and at least one channel
  still needs the check.\<close>

lemma dfs_usable_iff:
  assumes "cfg80211_chandef_valid h c" and "chandef_sane c"
  shows "cfg80211_chandef_dfs_usable h w c = Some
    ((\<forall>f \<in> set (chandef_chans c). chan_sat h w f can_cac) \<and>
     (\<exists>f \<in> set (chandef_chans c). chan_sat h w f needs_cac))"
proof -
  have ne: "0 < length (filter P xs) \<longleftrightarrow> (\<exists>x \<in> set xs. P x)" for P and xs :: "u32 list"
    by (induction xs) auto
  note nw = chandef_no_wrap [OF assms]
  show ?thesis
    using assms(1) chandef_width_bw(1) [OF assms(1)]
    by (auto simp: cfg80211_chandef_dfs_usable_def chandef_chans_split Let_def chans_dfs_usable_eq nw
        ne ball_Un bex_Un simp del: length_greater_0_conv)
qed

lemma dfs_usable_iff_witness:
  "cfg80211_chandef_dfs_usable sample_store sample_wiphy (sample_def NL80211_CHAN_WIDTH_160 5250 0) = Some True"
proof -
  from sample_160_chans show ?thesis
    using dfs_usable_iff [OF sample_160_valid sample_sane(1), of sample_wiphy]
    by (simp add: chan_sat_def sample_lookup enabled_def can_cac_def needs_cac_def sample_defs flag_set_def)
qed

text \<open>The time of the channel availability check the code computes for a definition whose channels all exist
  and are enabled is at least that of every channel that needs radar detection.\<close>

lemma cac_time_covers:
  assumes "cfg80211_chandef_valid h c" and "chandef_sane c"
    and "\<forall>f \<in> set (chandef_chans c). chan_sat h w f enabled"
  shows "\<exists>t. cfg80211_chandef_dfs_cac_time h w c = Some t \<and>
     (\<forall>f \<in> set (chandef_chans c). chan_sat h w f (\<lambda>c. flag_set (ch_flags c) IEEE80211_CHAN_RADAR \<longrightarrow> ch_dfs_cac_ms c \<le> t))"
proof -
  define bw :: u32 where "bw = word_of_int (cfg80211_chandef_get_width c)"
  note nw = chandef_no_wrap [OF assms(1,2), folded bw_def]
  note split = chandef_chans_split [OF assms(1), folded bw_def]
  have w: "0 \<le> cfg80211_chandef_get_width c" using chandef_width_bw(1) [OF assms(1)] .
  obtain t1 where t1: "cfg80211_get_chans_dfs_cac_time h w (cd_center_freq1 c) bw = Some t1"
    "\<forall>f \<in> set (segment (cd_center_freq1 c) bw). chan_sat h w f (\<lambda>c. flag_set (ch_flags c) IEEE80211_CHAN_RADAR \<longrightarrow> ch_dfs_cac_ms c \<le> t1)"
    using chans_cac_time [OF nw(1), of h w] assms(3) split by (auto split: if_splits)
  show ?thesis
  proof (cases "cd_width c = NL80211_CHAN_WIDTH_80P80")
    case False
    then have "cd_center_freq2 c = 0" using chandef_width_bw(4) [OF assms(1)] by simp
    then show ?thesis using False t1 split assms(1) w
      by (simp add: cfg80211_chandef_dfs_cac_time_def bw_def [symmetric] Let_def)
  next
    case True
    then obtain t2 where t2: "cfg80211_get_chans_dfs_cac_time h w (cd_center_freq2 c) bw = Some t2"
      "\<forall>f \<in> set (segment (cd_center_freq2 c) bw). chan_sat h w f (\<lambda>c. flag_set (ch_flags c) IEEE80211_CHAN_RADAR \<longrightarrow> ch_dfs_cac_ms c \<le> t2)"
      using chans_cac_time [OF nw(2), of h w] assms(3) split by auto
    have "cd_center_freq2 c \<noteq> 0" using True chandef_width_bw(4) [OF assms(1)] by simp
    then have "cfg80211_chandef_dfs_cac_time h w c = Some (max t1 t2)"
      using t1(1) t2(1) assms(1) w
      by (simp add: cfg80211_chandef_dfs_cac_time_def bw_def [symmetric] Let_def)
    moreover have "\<forall>f \<in> set (chandef_chans c). chan_sat h w f (\<lambda>c. flag_set (ch_flags c) IEEE80211_CHAN_RADAR \<longrightarrow> ch_dfs_cac_ms c \<le> max t1 t2)"
      using t1(2) t2(2) True split by (auto elim!: ballE chan_sat_mono simp: max.coboundedI1 max.coboundedI2)
    ultimately show ?thesis by blast
  qed
qed

lemma cac_time_covers_witness:
  "\<exists>t. cfg80211_chandef_dfs_cac_time sample_store sample_wiphy (sample_def NL80211_CHAN_WIDTH_160 5250 0) = Some t \<and>
       60000 \<le> t"
proof -
  note c = sample_160_chans
  from c have "\<forall>f \<in> set (chandef_chans (sample_def NL80211_CHAN_WIDTH_160 5250 0)).
       chan_sat sample_store sample_wiphy f enabled"
    by (simp add: chan_sat_def sample_lookup enabled_def sample_defs flag_set_def)
  then show ?thesis
    using cac_time_covers [OF sample_160_valid sample_sane(1), of sample_wiphy] unfolding c
    by (auto simp: chan_sat_def sample_lookup sample_defs flag_set_def)
qed

text \<open>The four questions about radar detection return an answer for every channel definition,
  valid or not, on a device whose channels stay below the last 20 MHz of the 32-bit range.\<close>

lemma dfs_walks_return:
  assumes "wiphy_freqs_ok h w"
    and "wiphy_ext_feature_isset w NL80211_EXT_FEATURE_DFS_OFFLOAD = Some off"
  shows "(\<exists>r. cfg80211_chandef_dfs_required h w c t = Some r) \<and>
    (\<exists>r. cfg80211_chandef_dfs_usable h w c = Some r) \<and>
    (\<exists>r. cfg80211_chandef_dfs_available h w c = Some r) \<and>
    (\<exists>r. cfg80211_chandef_dfs_cac_time h w c = Some r)"
proof (intro conjI)
  note ret = chans_walks_return [OF assms(1)]
  have "\<exists>r. dfs_required_chans h w c = Some r"
    using ret(1) [of "cd_center_freq1 c" "word_of_int (cfg80211_chandef_get_width c)"]
      ret(1) [of "cd_center_freq2 c" "word_of_int (cfg80211_chandef_get_width c)"]
    by (auto simp: dfs_required_chans_def Let_def split: sum.split)
  then show "\<exists>r. cfg80211_chandef_dfs_required h w c t = Some r"
    by (auto simp: cfg80211_chandef_dfs_required_def split: nl80211_iftype.split)
  show "\<exists>r. cfg80211_chandef_dfs_usable h w c = Some r"
    using ret(2) [of "cd_center_freq1 c" "word_of_int (cfg80211_chandef_get_width c)"]
      ret(2) [of "cd_center_freq2 c" "word_of_int (cfg80211_chandef_get_width c)"]
    by (auto simp: cfg80211_chandef_dfs_usable_def Let_def split: sum.split)
  show "\<exists>r. cfg80211_chandef_dfs_available h w c = Some r"
    using ret(3) [OF assms(2), of "cd_center_freq1 c" "word_of_int (cfg80211_chandef_get_width c)"]
      ret(3) [OF assms(2), of "cd_center_freq2 c" "word_of_int (cfg80211_chandef_get_width c)"]
    by (auto simp: cfg80211_chandef_dfs_available_def Let_def)
  show "\<exists>r. cfg80211_chandef_dfs_cac_time h w c = Some r"
    using ret(4) [of "cd_center_freq1 c" "word_of_int (cfg80211_chandef_get_width c)"]
      ret(4) [of "cd_center_freq2 c" "word_of_int (cfg80211_chandef_get_width c)"]
    by (auto simp: cfg80211_chandef_dfs_cac_time_def Let_def)
qed

lemma dfs_walks_return_witness:
  "\<exists>r. cfg80211_chandef_dfs_required sample_store sample_wiphy
        \<lparr>cd_chan = Some 0, cd_width = NL80211_CHAN_WIDTH_80P80, cd_center_freq1 = 5210, cd_center_freq2 = 0xFFFFFFE0\<rparr>
        NL80211_IFTYPE_AP = Some r"
  using dfs_walks_return [OF sample_freqs_ok sample_offload] by blast

end
