(* ===== verification/ChanState.thy ===== *)
theory ChanState
  imports Dfs
begin

text \<open>
  Which channels may be used (net/wireless/chan.c, second half): active beaconing
  interfaces, usability of a definition, the regulatory test before beaconing with its
  relaxations, the channel an interface occupies; and the questions of net/wireless/reg.c
  these ask (\<open>cfg80211_get_unii\<close>, \<open>reg_dfs_domain_same\<close>).
\<close>

section \<open>Interfaces that beacon\<close>

text \<open>The walk over a segment that looks for the frequency of a channel.\<close>

definition freq_in_segment :: "u32 \<Rightarrow> u32 \<Rightarrow> u32 \<Rightarrow> bool option" where
  "freq_in_segment freq center_freq width =
     for_freqs (\<lambda>u f. if freq = f then Inl True else Inr u)
       (center_freq - width div 2 + 10) (center_freq + width div 2 - 10) () (\<lambda>_. False)"

definition cfg80211_is_sub_chan ::
  "chan_store \<Rightarrow> cfg80211_chan_def \<Rightarrow> chan_ref \<Rightarrow> bool option" where
  "cfg80211_is_sub_chan h chandef chan = do {
     own \<leftarrow> cd_chan chandef;
     if ch_center_freq (h own) = ch_center_freq (h chan) then Some True
     else let width = cfg80211_chandef_get_width chandef in
       if width \<le> 20 then Some False
       else do {
         found \<leftarrow> freq_in_segment (ch_center_freq (h chan)) (cd_center_freq1 chandef) (word_of_int width);
         if found then Some True
         else if cd_center_freq2 chandef = 0 then Some False
         else freq_in_segment (ch_center_freq (h chan)) (cd_center_freq2 chandef) (word_of_int width)
       }
   }"

definition cfg80211_beaconing_iface_active :: "wireless_dev \<Rightarrow> bool" where
  "cfg80211_beaconing_iface_active wdev =
     (if cd_chan (wd_chandef wdev) = None then False
      else case wd_iftype wdev of
        NL80211_IFTYPE_AP \<Rightarrow> wd_beacon_interval wdev \<noteq> 0
      | NL80211_IFTYPE_P2P_GO \<Rightarrow> wd_beacon_interval wdev \<noteq> 0
      | NL80211_IFTYPE_ADHOC \<Rightarrow> wd_ssid_len wdev \<noteq> 0
      | NL80211_IFTYPE_MESH_POINT \<Rightarrow> wd_mesh_id_len wdev \<noteq> 0
      | _ \<Rightarrow> False)"

fun wdevs_oper_chan :: "chan_store \<Rightarrow> wireless_dev list \<Rightarrow> chan_ref \<Rightarrow> bool option" where
  "wdevs_oper_chan h [] chan = Some False"
| "wdevs_oper_chan h (wdev # wdevs) chan =
     (if \<not> cfg80211_beaconing_iface_active wdev then wdevs_oper_chan h wdevs chan
      else do {
        sub \<leftarrow> cfg80211_is_sub_chan h (wd_chandef wdev) chan;
        if sub then Some True else wdevs_oper_chan h wdevs chan
      })"

definition cfg80211_is_wiphy_oper_chan :: "chan_store \<Rightarrow> wiphy \<Rightarrow> chan_ref \<Rightarrow> bool option" where
  "cfg80211_is_wiphy_oper_chan h w chan = wdevs_oper_chan h (w_wdev_list w) chan"

text \<open>The regulatory domain a device follows, for the comparison of radar regions.\<close>

definition reg_dfs_domain_same :: "cfg80211 \<Rightarrow> wiphy \<Rightarrow> wiphy \<Rightarrow> bool option" where
  "reg_dfs_domain_same g w1 w2 = do {
     regd1 \<leftarrow> (case w_regd w1 of None \<Rightarrow> g_regdomain g | Some r \<Rightarrow> Some r);
     regd2 \<leftarrow> (case w_regd w2 of None \<Rightarrow> g_regdomain g | Some r \<Rightarrow> Some r);
     Some (rd_dfs_region regd1 = rd_dfs_region regd2)
   }"

fun wiphys_oper_chan ::
  "chan_store \<Rightarrow> cfg80211 \<Rightarrow> wiphy \<Rightarrow> wiphy list \<Rightarrow> chan_ref \<Rightarrow> bool option" where
  "wiphys_oper_chan h g w [] chan = Some False"
| "wiphys_oper_chan h g w (rdev # rdevs) chan = do {
     same \<leftarrow> reg_dfs_domain_same g w rdev;
     if \<not> same then wiphys_oper_chan h g w rdevs chan
     else do {
       oper \<leftarrow> cfg80211_is_wiphy_oper_chan h rdev chan;
       if oper then Some True else wiphys_oper_chan h g w rdevs chan
     }
   }"

definition cfg80211_any_wiphy_oper_chan ::
  "chan_store \<Rightarrow> cfg80211 \<Rightarrow> wiphy \<Rightarrow> chan_ref \<Rightarrow> bool option" where
  "cfg80211_any_wiphy_oper_chan h g w chan =
     (if \<not> flag_set (ch_flags (h chan)) IEEE80211_CHAN_RADAR then Some False
      else wiphys_oper_chan h g w (g_rdev_list g) chan)"

section \<open>Usability of a channel definition\<close>

definition ht_cap_has :: "ieee80211_sta_ht_cap \<Rightarrow> u16 \<Rightarrow> bool" where
  "ht_cap_has cap m \<longleftrightarrow> ht_cap_bits cap AND m \<noteq> 0"

abbreviation IEEE80211_HT_CAP_SUP_WIDTH_20_40 :: u16 where
  "IEEE80211_HT_CAP_SUP_WIDTH_20_40 \<equiv> 0x2"
abbreviation IEEE80211_HT_CAP_40MHZ_INTOLERANT :: u16 where
  "IEEE80211_HT_CAP_40MHZ_INTOLERANT \<equiv> 0x4000"
abbreviation IEEE80211_VHT_CAP_SUPP_CHAN_WIDTH_MASK :: u32 where
  "IEEE80211_VHT_CAP_SUPP_CHAN_WIDTH_MASK \<equiv> 0xC"

text \<open>The two values of the width field of the VHT capabilities that allow 160 MHz.\<close>

definition vht_width :: "ieee80211_sta_vht_cap \<Rightarrow> u32" where
  "vht_width cap = vht_cap_bits cap AND IEEE80211_VHT_CAP_SUPP_CHAN_WIDTH_MASK"

definition VHT_WIDTH_160 :: u32 where "VHT_WIDTH_160 = 0x4"
definition VHT_WIDTH_160_80PLUS80 :: u32 where "VHT_WIDTH_160_80PLUS80 = 0x8"

text \<open>
  The switch of \<open>cfg80211_chandef_usable\<close>: None of the option where a band the device does
  not have is dereferenced, \<open>Inl\<close> for \<open>return false\<close>, \<open>Inr\<close> with the width
  and the flags added to the prohibited ones where it goes on. \<open>sband\<close> is the band of the
  control channel.
\<close>

fun usable_width ::
  "ieee80211_supported_band option \<Rightarrow> ieee80211_channel \<Rightarrow> u32 \<Rightarrow> nl80211_chan_width \<Rightarrow>
     (unit + u32 \<times> u32) option" where
  "usable_width sband chan cf1 NL80211_CHAN_WIDTH_5 = Some (Inr (5, 0))"
| "usable_width sband chan cf1 NL80211_CHAN_WIDTH_10 = Some (Inr (10, IEEE80211_CHAN_NO_10MHZ))"
| "usable_width sband chan cf1 NL80211_CHAN_WIDTH_20 = do {
     ht \<leftarrow> map_option sb_ht_cap sband;
     Some (if \<not> ht_supported ht then Inl () else Inr (20, IEEE80211_CHAN_NO_20MHZ))
   }"
| "usable_width sband chan cf1 NL80211_CHAN_WIDTH_20_NOHT = Some (Inr (20, IEEE80211_CHAN_NO_20MHZ))"
| "usable_width sband chan cf1 NL80211_CHAN_WIDTH_40 = do {
     ht \<leftarrow> map_option sb_ht_cap sband;
     Some (if \<not> ht_supported ht then Inl ()
           else if \<not> ht_cap_has ht IEEE80211_HT_CAP_SUP_WIDTH_20_40 \<or>
                   ht_cap_has ht IEEE80211_HT_CAP_40MHZ_INTOLERANT then Inl ()
           else if cf1 < ch_center_freq chan \<and> flag_set (ch_flags chan) IEEE80211_CHAN_NO_HT40MINUS then Inl ()
           else if cf1 > ch_center_freq chan \<and> flag_set (ch_flags chan) IEEE80211_CHAN_NO_HT40PLUS then Inl ()
           else Inr (40, 0))
   }"
| "usable_width sband chan cf1 NL80211_CHAN_WIDTH_80P80 = do {
     vht \<leftarrow> map_option sb_vht_cap sband;
     Some (if vht_width vht \<noteq> VHT_WIDTH_160_80PLUS80 then Inl ()
           else if \<not> vht_supported vht then Inl ()
           else Inr (80, IEEE80211_CHAN_NO_80MHZ))
   }"
| "usable_width sband chan cf1 NL80211_CHAN_WIDTH_80 = do {
     vht \<leftarrow> map_option sb_vht_cap sband;
     Some (if \<not> vht_supported vht then Inl () else Inr (80, IEEE80211_CHAN_NO_80MHZ))
   }"
| "usable_width sband chan cf1 NL80211_CHAN_WIDTH_160 = do {
     vht \<leftarrow> map_option sb_vht_cap sband;
     Some (if \<not> vht_supported vht then Inl ()
           else if vht_width vht \<noteq> VHT_WIDTH_160 \<and> vht_width vht \<noteq> VHT_WIDTH_160_80PLUS80 then Inl ()
           else Inr (160, IEEE80211_CHAN_NO_160MHZ))
   }"
| "usable_width sband chan cf1 (CHAN_WIDTH_OTHER n) = Some (Inl ())"

text \<open>The store is returned too: a band that is out of range is overwritten in the channel.\<close>

definition clamp_band :: "chan_ref \<Rightarrow> chan_store \<Rightarrow> chan_store" where
  "clamp_band r h =
     (if ch_band (h r) = NUM_NL80211_BANDS then h(r := (h r)\<lparr>ch_band := NL80211_BAND_6GHZ\<rparr>) else h)"

definition cfg80211_chandef_usable ::
  "wiphy \<Rightarrow> cfg80211_chan_def \<Rightarrow> u32 \<Rightarrow> chan_store \<Rightarrow> (bool \<times> chan_store) option" where
  "cfg80211_chandef_usable w chandef prohibited_flags h =
     (if \<not> cfg80211_chandef_valid h chandef then Some (False, h)
      else do {
        r \<leftarrow> cd_chan chandef;
        let h = clamp_band r h;
        sw \<leftarrow> usable_width (w_bands w (ch_band (h r))) (h r) (cd_center_freq1 chandef) (cd_width chandef);
        case sw of
          Inl _ \<Rightarrow> Some (False, h)
        | Inr (width, flags) \<Rightarrow>
            let prohibited_flags = prohibited_flags OR flags;
                prohibited_flags =
                  (if width > 20 then prohibited_flags OR IEEE80211_CHAN_NO_OFDM else prohibited_flags);
                prohibited_flags =
                  (if width < 20 then prohibited_flags OR IEEE80211_CHAN_NO_OFDM else prohibited_flags)
            in do {
              ok1 \<leftarrow> cfg80211_secondary_chans_ok h w (cd_center_freq1 chandef) width prohibited_flags;
              if \<not> ok1 then Some (False, h)
              else if cd_center_freq2 chandef = 0 then Some (True, h)
              else do {
                ok2 \<leftarrow> cfg80211_secondary_chans_ok h w (cd_center_freq2 chandef) width prohibited_flags;
                Some (ok2, h)
              }
            }
      })"

section \<open>May an interface beacon?\<close>

text \<open>\<open>cfg80211_get_unii\<close> on the 32-bit frequency of a channel; None is -EINVAL.\<close>

definition cfg80211_get_unii :: "int \<Rightarrow> nat option" where
  "cfg80211_get_unii freq =
     (if 5150 \<le> freq \<and> freq \<le> 5250 then Some 0
      else if 5250 < freq \<and> freq \<le> 5350 then Some 1
      else if 5350 < freq \<and> freq \<le> 5470 then Some 2
      else if 5470 < freq \<and> freq \<le> 5725 then Some 3
      else if 5725 < freq \<and> freq \<le> 5825 then Some 4
      else if 5925 < freq \<and> freq \<le> 6425 then Some 5
      else if 6425 < freq \<and> freq \<le> 6525 then Some 6
      else if 6525 < freq \<and> freq \<le> 6875 then Some 7
      else if 6875 < freq \<and> freq \<le> 7125 then Some 8
      else None)"

definition REGULATORY_ENABLE_RELAX_NO_IR :: u32 where
  "REGULATORY_ENABLE_RELAX_NO_IR = 0x20"

text \<open>The channel of another interface that the relaxation may rely on.\<close>

definition concurrent_chan :: "nl80211_iftype \<Rightarrow> ieee80211_channel \<Rightarrow> wireless_dev \<Rightarrow> chan_ref option" where
  "concurrent_chan iftype chan wdev =
     (if iftype = NL80211_IFTYPE_P2P_GO \<and> wd_iftype wdev = NL80211_IFTYPE_P2P_GO \<and>
         wd_beacon_interval wdev \<noteq> 0 \<and> \<not> flag_set (ch_flags chan) IEEE80211_CHAN_INDOOR_ONLY
      then cd_chan (wd_chandef wdev)
      else if wd_iftype wdev = NL80211_IFTYPE_STATION then wd_current_bss wdev
      else None)"

definition same_unii_bundle :: "ieee80211_channel \<Rightarrow> ieee80211_channel \<Rightarrow> bool" where
  "same_unii_bundle chan other \<longleftrightarrow>
     (ch_band chan = NL80211_BAND_5GHZ \<or> ch_band chan = NL80211_BAND_6GHZ) \<and>
     (let r1 = cfg80211_get_unii (sint (ch_center_freq chan));
          r2 = cfg80211_get_unii (sint (ch_center_freq other))
      in r1 \<noteq> None \<and> r1 = r2) \<and>
     \<not> (ch_center_freq chan = 5825 \<and> ch_center_freq other \<noteq> 5825)"

definition cfg80211_ir_permissive_chan ::
  "chan_store \<Rightarrow> cfg80211 \<Rightarrow> wiphy \<Rightarrow> nl80211_iftype \<Rightarrow> chan_ref \<Rightarrow> bool" where
  "cfg80211_ir_permissive_chan h g w iftype chan =
     (if \<not> g_config_relax_no_ir g \<or> \<not> flag_set (w_regulatory_flags w) REGULATORY_ENABLE_RELAX_NO_IR
      then False
      else if iftype \<noteq> NL80211_IFTYPE_P2P_GO \<and> iftype \<noteq> NL80211_IFTYPE_STATION \<and>
              iftype \<noteq> NL80211_IFTYPE_P2P_CLIENT then False
      else if g_reg_is_indoor g \<and> flag_set (ch_flags (h chan)) IEEE80211_CHAN_INDOOR_ONLY then True
      else if \<not> flag_set (ch_flags (h chan)) IEEE80211_CHAN_IR_CONCURRENT then False
      else list_ex
             (\<lambda>wdev. case concurrent_chan iftype (h chan) wdev of
                        None \<Rightarrow> False
                      | Some other_chan \<Rightarrow>
                          chan = other_chan \<or> same_unii_bundle (h chan) (h other_chan))
             (w_wdev_list w))"

text \<open>
  \<open>cfg80211_chandef_dfs_required(...) > 0\<close>: the result is an \<open>int\<close> and
  \<open>BIT(width)\<close> is positive as one for every width of a valid definition.
\<close>

definition cfg80211_reg_can_beacon_check ::
  "wiphy \<Rightarrow> cfg80211_chan_def \<Rightarrow> nl80211_iftype \<Rightarrow> bool \<Rightarrow> chan_store \<Rightarrow> (bool \<times> chan_store) option" where
  "cfg80211_reg_can_beacon_check w chandef iftype check_no_ir h = do {
     let prohibited_flags = IEEE80211_CHAN_DISABLED OR IEEE80211_CHAN_RADAR;
     let prohibited_flags =
       (if check_no_ir then prohibited_flags OR IEEE80211_CHAN_NO_IR else prohibited_flags);
     required \<leftarrow> cfg80211_chandef_dfs_required h w chandef iftype;
     skip \<leftarrow> (if (case required of Inl e \<Rightarrow> False | Inr m \<Rightarrow> 0 <s m)
              then cfg80211_chandef_dfs_available h w chandef
              else Some False);
     cfg80211_chandef_usable w chandef
       (if skip then IEEE80211_CHAN_DISABLED else prohibited_flags) h
   }"

definition cfg80211_reg_can_beacon ::
  "wiphy \<Rightarrow> cfg80211_chan_def \<Rightarrow> nl80211_iftype \<Rightarrow> chan_store \<Rightarrow> (bool \<times> chan_store) option" where
  "cfg80211_reg_can_beacon w chandef iftype h =
     cfg80211_reg_can_beacon_check w chandef iftype True h"

text \<open>\<open>chandef->chan\<close> is dereferenced before the definition is checked.\<close>

definition cfg80211_reg_can_beacon_relax ::
  "cfg80211 \<Rightarrow> wiphy \<Rightarrow> cfg80211_chan_def \<Rightarrow> nl80211_iftype \<Rightarrow> chan_store \<Rightarrow> (bool \<times> chan_store) option" where
  "cfg80211_reg_can_beacon_relax g w chandef iftype h =
     (case cd_chan chandef of
        None \<Rightarrow>
          if \<not> g_config_relax_no_ir g \<or> \<not> flag_set (w_regulatory_flags w) REGULATORY_ENABLE_RELAX_NO_IR \<or>
             iftype \<noteq> NL80211_IFTYPE_P2P_GO \<and> iftype \<noteq> NL80211_IFTYPE_STATION \<and>
             iftype \<noteq> NL80211_IFTYPE_P2P_CLIENT
          then cfg80211_reg_can_beacon_check w chandef iftype True h
          else None
      | Some chan \<Rightarrow>
          cfg80211_reg_can_beacon_check w chandef iftype
            (\<not> cfg80211_ir_permissive_chan h g w iftype chan) h)"

section \<open>The channel an interface occupies\<close>

datatype cfg80211_chan_mode = CHAN_MODE_UNDEFINED | CHAN_MODE_SHARED | CHAN_MODE_EXCLUSIVE

text \<open>
  The results of \<open>cfg80211_get_chan_state\<close>: the channel, the mode and the bits it ors into
  \<open>*radar_detect\<close> (a u8, so a shift by eight or more adds nothing).
\<close>

type_synonym chan_state = "chan_ref option \<times> cfg80211_chan_mode \<times> u8"

definition width_bit :: "nl80211_chan_width \<Rightarrow> u8" where
  "width_bit width = ucast (BIT (chan_width_val width))"

definition beacon_chan_state :: "chan_store \<Rightarrow> wiphy \<Rightarrow> wireless_dev \<Rightarrow> chan_state option" where
  "beacon_chan_state h w wdev = do {
     ret \<leftarrow> cfg80211_chandef_dfs_required h w (wd_chandef wdev) (wd_iftype wdev);
     Some (cd_chan (wd_chandef wdev), CHAN_MODE_SHARED,
           case ret of Inl e \<Rightarrow> 0 | Inr m \<Rightarrow> if 0 <s m then width_bit (cd_width (wd_chandef wdev)) else 0)
   }"

definition cfg80211_get_chan_state :: "chan_store \<Rightarrow> wiphy \<Rightarrow> wireless_dev \<Rightarrow> chan_state option" where
  "cfg80211_get_chan_state h w wdev =
     (let chandef = wd_chandef wdev; none = Some (None, CHAN_MODE_UNDEFINED, 0) in
      if wd_netdev wdev = Some False then none
      else case wd_iftype wdev of
        NL80211_IFTYPE_ADHOC \<Rightarrow>
          (case wd_current_bss wdev of
             None \<Rightarrow> none
           | Some chan \<Rightarrow>
               Some (Some chan,
                     if wd_ibss_fixed wdev \<and> \<not> wd_ibss_dfs_possible wdev
                     then CHAN_MODE_SHARED else CHAN_MODE_EXCLUSIVE,
                     if wd_ibss_dfs_possible wdev then width_bit (cd_width chandef) else 0))
      | NL80211_IFTYPE_STATION \<Rightarrow>
          (case wd_current_bss wdev of None \<Rightarrow> none | Some chan \<Rightarrow> Some (Some chan, CHAN_MODE_SHARED, 0))
      | NL80211_IFTYPE_P2P_CLIENT \<Rightarrow>
          (case wd_current_bss wdev of None \<Rightarrow> none | Some chan \<Rightarrow> Some (Some chan, CHAN_MODE_SHARED, 0))
      | NL80211_IFTYPE_AP \<Rightarrow>
          (if wd_cac_started wdev then Some (cd_chan chandef, CHAN_MODE_SHARED, width_bit (cd_width chandef))
           else if wd_beacon_interval wdev \<noteq> 0 then beacon_chan_state h w wdev else none)
      | NL80211_IFTYPE_P2P_GO \<Rightarrow>
          (if wd_cac_started wdev then Some (cd_chan chandef, CHAN_MODE_SHARED, width_bit (cd_width chandef))
           else if wd_beacon_interval wdev \<noteq> 0 then beacon_chan_state h w wdev else none)
      | NL80211_IFTYPE_MESH_POINT \<Rightarrow>
          (if wd_mesh_id_len wdev \<noteq> 0 then beacon_chan_state h w wdev else none)
      | NL80211_IFTYPE_OCB \<Rightarrow>
          (case cd_chan chandef of None \<Rightarrow> none | Some chan \<Rightarrow> Some (Some chan, CHAN_MODE_SHARED, 0))
      | _ \<Rightarrow> none)"

text \<open>
  \<open>cfg80211_set_monitor_channel\<close>: the driver operation is a parameter (None when the driver
  has none); the two counters are those of \<open>cfg80211_has_monitors_only\<close>.
\<close>

definition cfg80211_has_monitors_only :: "int \<Rightarrow> int \<Rightarrow> bool" where
  "cfg80211_has_monitors_only num_running_ifaces num_running_monitor_ifaces \<longleftrightarrow>
     num_running_ifaces = num_running_monitor_ifaces \<and> num_running_ifaces > 0"

definition cfg80211_set_monitor_channel ::
  "(cfg80211_chan_def \<Rightarrow> status) option \<Rightarrow> int \<Rightarrow> int \<Rightarrow> cfg80211_chan_def \<Rightarrow> status" where
  "cfg80211_set_monitor_channel set_op num_running_ifaces num_running_monitor_ifaces chandef =
     (case set_op of
        None \<Rightarrow> Inl EOPNOTSUPP
      | Some set_monitor \<Rightarrow>
          if \<not> cfg80211_has_monitors_only num_running_ifaces num_running_monitor_ifaces then Inl EBUSY
          else set_monitor chandef)"

section \<open>Facts on the channels of an interface\<close>

lemma freq_in_segment_eq:
  assumes "freq_sane cf" and "bw \<in> {20, 40, 80, 160}"
  shows "freq_in_segment f cf bw = Some (f \<in> set (segment cf bw))"
proof -
  have "no_wrap (cfg80211_get_end_freq cf bw)"
    by (rule sane_no_wrap [OF assms(1)]) (use assms(2) in auto)
  moreover have "(\<lambda>u f'. if f = f' then Inl True else Inr u) = (\<lambda>(u::unit) f'. if f' \<noteq> f then Inr u else Inl True)"
    by (intro ext) auto
  ultimately show ?thesis
    unfolding freq_in_segment_def set_state_ends [OF assms(2)] by (simp add: for_freqs_fold fold_until_all segment_def) blast
qed

lemma is_sub_chan_iff:
  assumes "cfg80211_chandef_valid h c" and "chandef_sane c"
  shows "cfg80211_is_sub_chan h c chan = Some (ch_center_freq (h chan) \<in> set (chandef_chans c))"
proof -
  define bw :: u32 where "bw = word_of_int (cfg80211_chandef_get_width c)"
  obtain own where own: "cd_chan c = Some own" using assms(1) by (rule chandef_valid_cases)
  have mem: "ch_center_freq (h own) \<in> set (chandef_chans c)"
    by (rule chandef_chans_control [OF assms own])
  show ?thesis
  proof (cases "cfg80211_chandef_get_width c \<le> 20")
    case True
    then have "chandef_chans c = [ch_center_freq (h own)]"
      using assms(1) own
      by (cases "cd_width c") (auto simp: cfg80211_chandef_valid_def chandef_chans_def
          cfg80211_chandef_get_width_def segment_small Let_def)
    with True own show ?thesis by (auto simp: cfg80211_is_sub_chan_def)
  next
    case False
    have bw: "bw \<in> {20, 40, 80, 160}"
      using chandef_width_bw(3) [OF assms(1)] False
      by (cases "cd_width c") (auto simp: bw_def cfg80211_chandef_get_width_def)
    have seg: "freq_in_segment f (cd_center_freq1 c) bw = Some (f \<in> set (segment (cd_center_freq1 c) bw))"
      "cd_center_freq2 c \<noteq> 0 \<Longrightarrow>
        freq_in_segment f (cd_center_freq2 c) bw = Some (f \<in> set (segment (cd_center_freq2 c) bw))" for f
      using assms(2) by (simp_all add: chandef_sane_def freq_in_segment_eq [OF _ bw])
    from mem False own show ?thesis
      by (auto simp: cfg80211_is_sub_chan_def Let_def bw_def [symmetric] seg chandef_chans_def)
  qed
qed

definition wdevs_ok :: "chan_store \<Rightarrow> wireless_dev list \<Rightarrow> bool" where
  "wdevs_ok h wdevs \<longleftrightarrow> (\<forall>wdev \<in> set wdevs. cfg80211_beaconing_iface_active wdev \<longrightarrow>
     cfg80211_chandef_valid h (wd_chandef wdev) \<and> chandef_sane (wd_chandef wdev))"

definition beacons_on :: "wireless_dev \<Rightarrow> u32 \<Rightarrow> bool" where
  "beacons_on wdev f \<longleftrightarrow> cfg80211_beaconing_iface_active wdev \<and> f \<in> set (chandef_chans (wd_chandef wdev))"

lemma wdevs_oper_chan_iff:
  "wdevs_ok h wdevs \<Longrightarrow>
     wdevs_oper_chan h wdevs chan = Some (\<exists>wdev \<in> set wdevs. beacons_on wdev (ch_center_freq (h chan)))"
  by (induction wdevs) (auto simp: wdevs_ok_def is_sub_chan_iff beacons_on_def)

lemma wiphys_oper_chan_iff:
  assumes "\<forall>rdev \<in> set rdevs. wdevs_ok h (w_wdev_list rdev)" and "g_regdomain g = Some world"
  shows "wiphys_oper_chan h g w rdevs chan =
     Some (\<exists>rdev \<in> set rdevs. reg_dfs_domain_same g w rdev = Some True \<and>
       (\<exists>wdev \<in> set (w_wdev_list rdev). beacons_on wdev (ch_center_freq (h chan))))"
  using assms(1)
proof (induction rdevs)
  case (Cons rdev rdevs)
  obtain same where "reg_dfs_domain_same g w rdev = Some same"
    using assms(2) by (cases "w_regd w"; cases "w_regd rdev") (auto simp: reg_dfs_domain_same_def)
  with Cons show ?case
    by (cases same) (auto simp: cfg80211_is_wiphy_oper_chan_def wdevs_oper_chan_iff)
qed simp

section \<open>Facts on usability\<close>

lemma clamp_band_frame [simp]:
  "ch_center_freq (clamp_band r h r') = ch_center_freq (h r')"
  "ch_flags (clamp_band r h r') = ch_flags (h r')"
  "ch_dfs_state (clamp_band r h r') = ch_dfs_state (h r')"
  by (simp_all add: clamp_band_def)

lemma clamp_band_lookup [simp]: "ieee80211_get_channel (clamp_band r h) w f = ieee80211_get_channel h w f"
  by (rule get_channel_cong) simp

lemma usable_width_bw:
  assumes "usable_width sband chan cf1 width = Some (Inr (bw, flags))" and "chandef_valid_at f width x y"
  shows "bw = word_of_int (chan_width_mhz width)"
  using assms by (cases width) (auto split: if_splits bind_splits)

lemma flag_not_or: "\<not> flag_set x (a OR b) \<Longrightarrow> \<not> flag_set x a" by simp

lemma usable_sound:
  assumes "cfg80211_chandef_valid h c" and "chandef_sane c"
    and "cfg80211_chandef_usable w c prohibited h = Some (True, h')"
  shows "\<forall>f \<in> set (chandef_chans c). chan_sat h w f (\<lambda>c. \<not> flag_set (ch_flags c) prohibited)"
proof -
  define bw :: u32 where "bw = word_of_int (cfg80211_chandef_get_width c)"
  obtain r where r: "cd_chan c = Some r" using assms(1) by (rule chandef_valid_cases)
  define h1 where "h1 = clamp_band r h"
  note nw = chandef_no_wrap [OF assms(1,2), folded bw_def]
  obtain flags where sw: "usable_width (w_bands w (ch_band (h1 r))) (h1 r) (cd_center_freq1 c) (cd_width c) = Some (Inr (bw, flags))"
  proof -
    from assms(1,3) r obtain b flags where
      "usable_width (w_bands w (ch_band (h1 r))) (h1 r) (cd_center_freq1 c) (cd_width c) = Some (Inr (b, flags))"
      by (auto simp: cfg80211_chandef_usable_def h1_def Let_def split: bind_splits sum.splits)
    moreover from this have "b = bw"
      using assms(1) r usable_width_bw by (fastforce simp: bw_def cfg80211_chandef_get_width_def cfg80211_chandef_valid_def)
    ultimately show ?thesis using that by blast
  qed
  define P where "P = (prohibited OR flags) OR (if bw > 20 then IEEE80211_CHAN_NO_OFDM else 0) OR (if bw < 20 then IEEE80211_CHAN_NO_OFDM else 0)"
  have ok: "cfg80211_secondary_chans_ok h1 w (cd_center_freq1 c) bw P = Some True"
    "cd_center_freq2 c \<noteq> 0 \<Longrightarrow> cfg80211_secondary_chans_ok h1 w (cd_center_freq2 c) bw P = Some True"
    using assms(1,3) r sw
    by (auto simp: cfg80211_chandef_usable_def h1_def [symmetric] P_def Let_def or.assoc split: bind_splits if_splits)
  have sat: "chan_sat h1 w f (\<lambda>c. \<not> flag_set (ch_flags c) P) \<Longrightarrow> chan_sat h w f (\<lambda>c. \<not> flag_set (ch_flags c) prohibited)" for f
    by (auto simp: chan_sat_def h1_def P_def split: option.splits)
  show ?thesis
    using ok chandef_width_bw(4) [OF assms(1)] nw sat
    by (auto simp: chandef_chans_def bw_def [symmetric] Let_def secondary_chans_ok_iff)
qed

lemma is_beacon_type_required:
  "cfg80211_chandef_dfs_required h w c t = Some (Inr m) \<Longrightarrow> m \<noteq> 0 \<Longrightarrow>
     t \<in> {NL80211_IFTYPE_ADHOC, NL80211_IFTYPE_AP, NL80211_IFTYPE_P2P_GO, NL80211_IFTYPE_MESH_POINT}"
  by (auto simp: cfg80211_chandef_dfs_required_def split: nl80211_iftype.splits if_splits)

lemma beacon_flags: "flag_set x 11 \<longleftrightarrow>
    flag_set x IEEE80211_CHAN_DISABLED \<or> flag_set x IEEE80211_CHAN_RADAR \<or> flag_set x IEEE80211_CHAN_NO_IR"
  using flag_set_or [of x "IEEE80211_CHAN_DISABLED OR IEEE80211_CHAN_RADAR" IEEE80211_CHAN_NO_IR]
    flag_set_or [of x IEEE80211_CHAN_DISABLED IEEE80211_CHAN_RADAR] by simp

definition sample_wiphy_8080 :: wiphy where
  "sample_wiphy_8080 = sample_wiphy
     \<lparr>w_bands := [NL80211_BAND_5GHZ \<mapsto> sample_band\<lparr>sb_vht_cap := \<lparr>vht_supported = True, vht_cap_bits = 8\<rparr>\<rparr>]\<rparr>"

section \<open>Properties\<close>

text \<open>C3: When the regulatory test lets an interface beacon on a valid definition, every 20 MHz channel of
  the definition exists, is enabled and, where it needs radar detection, has completed it (or the
  device does it itself); and either no channel forbids initiating radiation, or the interface is
  of a beaconing type and the definition contains a radar channel.\<close>

theorem can_beacon_safe:
  assumes "cfg80211_chandef_valid h c" and "chandef_sane c"
    and "wiphy_ext_feature_isset w NL80211_EXT_FEATURE_DFS_OFFLOAD = Some off"
    and "cfg80211_reg_can_beacon w c t h = Some (True, h')"
  shows "(\<forall>f \<in> set (chandef_chans c). chan_sat h w f (dfs_ok off)) \<and>
    ((\<forall>f \<in> set (chandef_chans c). chan_sat h w f (\<lambda>c. \<not> flag_set (ch_flags c) IEEE80211_CHAN_NO_IR)) \<or>
      (t \<in> {NL80211_IFTYPE_ADHOC, NL80211_IFTYPE_AP, NL80211_IFTYPE_P2P_GO, NL80211_IFTYPE_MESH_POINT} \<and>
       (\<exists>f \<in> set (chandef_chans c). chan_sat h w f (\<lambda>c. flag_set (ch_flags c) IEEE80211_CHAN_RADAR))))"
proof -
  obtain required avail where req: "cfg80211_chandef_dfs_required h w c t = Some required"
    and skip: "(if (case required of Inl e \<Rightarrow> False | Inr m \<Rightarrow> 0 <s m)
              then cfg80211_chandef_dfs_available h w c else Some False) = Some avail"
    and us: "cfg80211_chandef_usable w c (if avail then IEEE80211_CHAN_DISABLED
        else (IEEE80211_CHAN_DISABLED OR IEEE80211_CHAN_RADAR) OR IEEE80211_CHAN_NO_IR) h = Some (True, h')"
    using assms(4) unfolding cfg80211_reg_can_beacon_def cfg80211_reg_can_beacon_check_def Let_def if_True
    by (auto split: bind_splits)
  note ok = usable_sound [OF assms(1,2) us]
  show ?thesis
  proof (cases avail)
    case False
    have "chan_sat h w f (dfs_ok off) \<and> chan_sat h w f (\<lambda>c. \<not> flag_set (ch_flags c) IEEE80211_CHAN_NO_IR)"
      if "f \<in> set (chandef_chans c)" for f
      using ok that False 
      by (auto simp: chan_sat_def dfs_ok_def beacon_flags split: option.splits)
    then show ?thesis by blast
  next
    case True
    then obtain m where m: "required = Inr m" "0 <s m"
      and av: "cfg80211_chandef_dfs_available h w c = Some True"
      using skip by (auto split: if_splits sum.splits)
    from m have "m \<noteq> 0" by auto
    have t: "t \<in> {NL80211_IFTYPE_ADHOC, NL80211_IFTYPE_AP, NL80211_IFTYPE_P2P_GO, NL80211_IFTYPE_MESH_POINT}"
      using is_beacon_type_required req m \<open>m \<noteq> 0\<close> by blast
    then have "dfs_required_chans h w c = Some (Inr m)"
      using req m assms(1) by (auto simp: cfg80211_chandef_dfs_required_def)
    then have "\<not> (\<forall>f \<in> set (chandef_chans c). chan_sat h w f (\<lambda>c. \<not> flag_set (ch_flags c) IEEE80211_CHAN_RADAR))"
      using dfs_required_sound [OF assms(1,2)] \<open>m \<noteq> 0\<close> by blast
    moreover have "\<forall>f \<in> set (chandef_chans c). chan_sat h w f (dfs_ok off)"
      using av dfs_available_iff [OF assms(1-3)] by simp
    ultimately show ?thesis using t by (auto simp: chan_sat_def split: option.splits)
  qed
qed

lemma sample_seg_80:
  "cfg80211_secondary_chans_ok sample_store w 5210 80 fl =
     Some (\<forall>f \<in> {5180, 5200, 5220, 5240}. chan_sat sample_store w f (\<lambda>c. \<not> flag_set (ch_flags c) fl))"
proof -
  have sane: "freq_sane 5210" by (simp add: freq_sane_def)
  show ?thesis
    by (subst secondary_chans_ok_iff) (simp_all add: sane_no_wrap [OF sane] segment_80 [OF sane])
qed

lemma sample_clamp: "clamp_band 0 sample_store = sample_store"
  by (simp add: clamp_band_def sample_store_def sample_chan_def)

lemma sample_80_usable:
  "cfg80211_chandef_usable sample_wiphy (sample_def NL80211_CHAN_WIDTH_80 5210 0) 11 sample_store
     = Some (True, sample_store)"
proof -
  have w: "w_bands sample_wiphy (ch_band (sample_store 0)) = Some sample_band"
    by (simp add: sample_wiphy_def sample_store_def sample_chan_def)
  have v: "cfg80211_chandef_valid sample_store
      \<lparr>cd_chan = Some 0, cd_width = NL80211_CHAN_WIDTH_80, cd_center_freq1 = 5210, cd_center_freq2 = 0\<rparr>"
    using sample_80_valid by (simp add: sample_def_def)
  show ?thesis
    by (simp add: cfg80211_chandef_usable_def v sample_def_def sample_clamp w Let_def sample_seg_80 chan_sat_def sample_lookup)
      (simp add: sample_store_def sample_chan_def sample_band_def)
qed

lemma sample_80_required:
  "cfg80211_chandef_dfs_required sample_store sample_wiphy (sample_def NL80211_CHAN_WIDTH_80 5210 0) NL80211_IFTYPE_AP
     = Some (Inr 0)"
proof -
  have sane: "freq_sane 5210" by (simp add: freq_sane_def)
  show ?thesis
    using sample_80_valid
    by (simp add: cfg80211_chandef_dfs_required_def dfs_required_chans_def sample_def_def cfg80211_chandef_get_width_def
        cfg80211_get_chans_dfs_required_def for_chans_segment sane_no_wrap [OF sane] segment_80 [OF sane] sample_lookup)
      (simp add: sample_store_def sample_chan_def)
qed

theorem can_beacon_safe_witness:
  "cfg80211_reg_can_beacon sample_wiphy (sample_def NL80211_CHAN_WIDTH_80 5210 0) NL80211_IFTYPE_AP sample_store
     = Some (True, sample_store) \<and>
   chan_sat sample_store sample_wiphy 5240 (dfs_ok False)"
proof -
  have m: "5240 \<in> set (chandef_chans (sample_def NL80211_CHAN_WIDTH_80 5210 0))"
    by (simp add: chandef_chans_def sample_def_def cfg80211_chandef_get_width_def segment_80 freq_sane_def)
  have b: "cfg80211_reg_can_beacon sample_wiphy (sample_def NL80211_CHAN_WIDTH_80 5210 0) NL80211_IFTYPE_AP sample_store
     = Some (True, sample_store)"
    by (simp add: cfg80211_reg_can_beacon_def cfg80211_reg_can_beacon_check_def sample_80_required sample_80_usable)
  with can_beacon_safe [OF sample_80_valid sample_sane(2) sample_offload b] m show ?thesis by blast
qed

text \<open>The second segment of an 80+80 MHz definition is not checked at all when its center
  frequency is below 30 MHz: the walk's start wraps around and the loop is empty, so a
  definition with a second center frequency of 20 MHz is reported usable.\<close>

theorem split_second_segment_unchecked:
  "cfg80211_chandef_valid sample_store (sample_def NL80211_CHAN_WIDTH_80P80 5210 20) \<and>
   cfg80211_chandef_usable sample_wiphy_8080 (sample_def NL80211_CHAN_WIDTH_80P80 5210 20)
     IEEE80211_CHAN_DISABLED sample_store = Some (True, sample_store)"
proof -
  have lk: "ieee80211_get_channel h sample_wiphy_8080 f = ieee80211_get_channel h sample_wiphy f" for h f
    by (simp add: ieee80211_get_channel_def all_bands_def sample_wiphy_8080_def sample_wiphy_def find_chan_def split: option.split)
  have sane: "freq_sane 5210" by (simp add: freq_sane_def)
  have seg1: "cfg80211_secondary_chans_ok sample_store sample_wiphy_8080 5210 80 fl =
      Some (\<forall>f \<in> {5180, 5200, 5220, 5240}. chan_sat sample_store sample_wiphy_8080 f (\<lambda>c. \<not> flag_set (ch_flags c) fl))" for fl
    by (subst secondary_chans_ok_iff) (simp_all add: sane_no_wrap [OF sane] segment_80 [OF sane])
  have seg2: "cfg80211_secondary_chans_ok sample_store sample_wiphy_8080 20 80 fl = Some True" for fl
    by (simp add: cfg80211_secondary_chans_ok_def for_chans_def for_freqs_def freq_loop.simps
        cfg80211_get_start_freq_def cfg80211_get_end_freq_def)
  have clamp: "clamp_band 0 sample_store = sample_store"
    by (simp add: clamp_band_def sample_store_def sample_chan_def)
  have w: "w_bands sample_wiphy_8080 (ch_band (sample_store 0)) = Some (sample_band\<lparr>sb_vht_cap := \<lparr>vht_supported = True, vht_cap_bits = 8\<rparr>\<rparr>)"
    by (simp add: sample_wiphy_8080_def sample_store_def sample_chan_def)
  show ?thesis
    by (simp add: cfg80211_chandef_usable_def cfg80211_chandef_valid_def sample_def_def clamp w Let_def
        vht_width_def VHT_WIDTH_160_80PLUS80_def seg1 seg2 chan_sat_def lk sample_lookup)
      (simp add: sample_store_def sample_chan_def)
qed

text \<open>A channel lies in a valid definition, by the code's test, exactly when its frequency is one
  of the definition's 20 MHz channels.\<close>

lemma sub_chan_iff:
  assumes "cfg80211_chandef_valid h c" and "chandef_sane c"
  shows "cfg80211_is_sub_chan h c chan = Some (ch_center_freq (h chan) \<in> set (chandef_chans c))"
  by (rule is_sub_chan_iff [OF assms])

lemma sub_chan_iff_witness:
  "cfg80211_is_sub_chan sample_store (sample_def NL80211_CHAN_WIDTH_160 5250 0) 7 = Some True \<and>
   cfg80211_is_sub_chan sample_store (sample_def NL80211_CHAN_WIDTH_160 5250 0) 8 = Some False"
  unfolding sub_chan_iff [OF sample_160_valid sample_sane(1)] sample_160_chans
  by (simp add: sample_store_def sample_chan_def)

text \<open>A radar channel is in operation, by the code's answer, exactly when some device of the same
  radar region has an interface that beacons on a definition containing it.\<close>

lemma any_oper_chan_iff:
  assumes "\<forall>rdev \<in> set (g_rdev_list g). wdevs_ok h (w_wdev_list rdev)" and "g_regdomain g = Some world"
  shows "cfg80211_any_wiphy_oper_chan h g w chan = Some
    (flag_set (ch_flags (h chan)) IEEE80211_CHAN_RADAR \<and>
     (\<exists>rdev \<in> set (g_rdev_list g). reg_dfs_domain_same g w rdev = Some True \<and>
       (\<exists>wdev \<in> set (w_wdev_list rdev). beacons_on wdev (ch_center_freq (h chan)))))"
  by (simp add: cfg80211_any_wiphy_oper_chan_def wiphys_oper_chan_iff [OF assms])

definition sample_request :: regulatory_request where
  "sample_request =
     \<lparr>lr_wiphy_idx = -1, lr_initiator = NL80211_REGDOM_SET_BY_CORE,
      lr_user_reg_hint_type = NL80211_USER_REG_HINT_USER, lr_alpha2 = ''00'',
      lr_dfs_region = NL80211_DFS_UNSET, lr_intersect = False, lr_processed = True\<rparr>"

definition sample_globals :: cfg80211 where
  "sample_globals =
     \<lparr>g_regdomain = Some \<lparr>rd_alpha2 = ''00'', rd_dfs_region = NL80211_DFS_ETSI, rd_reg_rules = []\<rparr>,
      g_last_request = sample_request, g_requests_list = [], g_user_alpha2 = ''97'',
      g_reg_is_indoor = False, g_reg_beacon_list = [], g_num_devs_support_basehint = 0,
      g_rdev_list = [sample_wiphy\<lparr>w_wdev_list :=
        [\<lparr>wd_iftype = NL80211_IFTYPE_AP, wd_netdev = Some True,
          wd_chandef = sample_def NL80211_CHAN_WIDTH_160 5250 0, wd_beacon_interval = 100,
          wd_ssid_len = 0, wd_mesh_id_len = 0, wd_current_bss = None, wd_ibss_fixed = False,
          wd_ibss_dfs_possible = False, wd_cac_started = False\<rparr>]\<rparr>],
      g_jiffies = 0, g_config_relax_no_ir = False, g_config_cellular_hints = False\<rparr>"

lemma any_oper_chan_iff_witness:
  "cfg80211_any_wiphy_oper_chan sample_store sample_globals sample_wiphy 5 = Some True \<and>
   cfg80211_any_wiphy_oper_chan sample_store sample_globals sample_wiphy 0 = Some False"
proof -
  have reg: "g_regdomain sample_globals =
      Some \<lparr>rd_alpha2 = ''00'', rd_dfs_region = NL80211_DFS_ETSI, rd_reg_rules = []\<rparr>"
    by (simp add: sample_globals_def)
  have ok: "\<forall>rdev \<in> set (g_rdev_list sample_globals). wdevs_ok sample_store (w_wdev_list rdev)"
    by (simp add: sample_globals_def wdevs_ok_def sample_160_valid sample_sane)
  have sub: "ch_center_freq (sample_store 5) \<in> set (chandef_chans (sample_def NL80211_CHAN_WIDTH_160 5250 0))"
    unfolding sample_160_chans by (simp add: sample_store_def sample_chan_def)
  show ?thesis
    unfolding any_oper_chan_iff [OF ok reg]
    using sub
    by (simp add: sample_globals_def reg_dfs_domain_same_def beacons_on_def cfg80211_beaconing_iface_active_def)
      (simp add: sample_wiphy_def sample_def_def sample_store_def sample_chan_def flag_set_def)
qed

end

