(* ===== verification/RegApply.thy ===== *)
theory RegApply
  imports Regdom ChanState
begin

text \<open>
  Applying regulatory domains to the channels of a device (net/wireless/reg.c): the rule of
  each channel, custom domains of drivers, beacon hints, the HT40 flags, the sharing of radar
  state between devices and the check of active interfaces afterwards.

  The driver callback that may change channels after an update (\<open>reg_notifier\<close>) is a
  parameter; netlink events, delayed work and logging have no counterpart.
\<close>

section \<open>Flags of a device\<close>

definition REGULATORY_CUSTOM_REG :: u32 where "REGULATORY_CUSTOM_REG = 0x1"
definition REGULATORY_STRICT_REG :: u32 where "REGULATORY_STRICT_REG = 0x2"
definition REGULATORY_DISABLE_BEACON_HINTS :: u32 where "REGULATORY_DISABLE_BEACON_HINTS = 0x4"
definition REGULATORY_COUNTRY_IE_FOLLOW_POWER :: u32 where "REGULATORY_COUNTRY_IE_FOLLOW_POWER = 0x8"
definition REGULATORY_COUNTRY_IE_IGNORE :: u32 where "REGULATORY_COUNTRY_IE_IGNORE = 0x10"
definition REGULATORY_IGNORE_STALE_KICKOFF :: u32 where "REGULATORY_IGNORE_STALE_KICKOFF = 0x40"
definition REGULATORY_WIPHY_SELF_MANAGED :: u32 where "REGULATORY_WIPHY_SELF_MANAGED = 0x80"

definition IEEE80211_DFS_MIN_CAC_TIME_MS :: u32 where "IEEE80211_DFS_MIN_CAC_TIME_MS = 60000"

definition reg_flag :: "wiphy \<Rightarrow> u32 \<Rightarrow> bool" where
  "reg_flag w m \<longleftrightarrow> flag_set (w_regulatory_flags w) m"

text \<open>Devices are told apart by their index, as pointers are in the code.\<close>

definition wiphy_idx_to_wiphy :: "cfg80211 \<Rightarrow> int \<Rightarrow> wiphy option" where
  "wiphy_idx_to_wiphy g idx = List.find (\<lambda>w. w_idx w = idx) (g_rdev_list g)"

section \<open>One channel\<close>

text \<open>\<open>MBI_TO_DBI\<close> and \<open>MBM_TO_DBM\<close>: unsigned division by 100, then a cast to int.\<close>

definition per_hundred :: "u32 \<Rightarrow> int" where
  "per_hundred x = uint (x div 100)"

definition rule_cac_ms :: "ieee80211_reg_rule \<Rightarrow> u32" where
  "rule_cac_ms rule =
     (if rr_dfs_cac_ms rule \<noteq> 0 then rr_dfs_cac_ms rule else IEEE80211_DFS_MIN_CAC_TIME_MS)"

definition set_cac :: "ieee80211_reg_rule \<Rightarrow> ieee80211_channel \<Rightarrow> ieee80211_channel" where
  "set_cac rule c =
     (if flag_set (ch_flags c) IEEE80211_CHAN_RADAR then c\<lparr>ch_dfs_cac_ms := rule_cac_ms rule\<rparr> else c)"

definition strict_driver_hint :: "cfg80211 \<Rightarrow> wiphy \<Rightarrow> bool" where
  "strict_driver_hint g w \<longleftrightarrow>
     lr_initiator (g_last_request g) = NL80211_REGDOM_SET_BY_DRIVER \<and>
     (case wiphy_idx_to_wiphy g (lr_wiphy_idx (g_last_request g)) of
        None \<Rightarrow> False
      | Some request_wiphy \<Rightarrow> w_idx request_wiphy = w_idx w \<and> reg_flag request_wiphy REGULATORY_STRICT_REG)"

text \<open>The three outcomes of \<open>handle_channel\<close> on the channel.\<close>

definition disable_channel :: "bool \<Rightarrow> ieee80211_channel \<Rightarrow> ieee80211_channel" where
  "disable_channel for_good c =
     (if for_good then
        c\<lparr>ch_orig_flags := ch_orig_flags c OR IEEE80211_CHAN_DISABLED,
          ch_flags := ch_orig_flags c OR IEEE80211_CHAN_DISABLED\<rparr>
      else c\<lparr>ch_flags := ch_flags c OR IEEE80211_CHAN_DISABLED\<rparr>)"

definition strict_channel :: "ieee80211_reg_rule \<Rightarrow> u32 \<Rightarrow> ieee80211_channel \<Rightarrow> ieee80211_channel" where
  "strict_channel rule bw_flags c =
     (let flags = map_regdom_flags (rr_flags rule) OR bw_flags;
          gain = per_hundred (pr_max_antenna_gain (rr_power_rule rule));
          power = per_hundred (pr_max_eirp (rr_power_rule rule))
      in set_cac rule
           (c\<lparr>ch_orig_flags := flags, ch_flags := flags, ch_orig_mag := gain, ch_max_antenna_gain := gain,
              ch_orig_mpwr := power, ch_max_power := power, ch_max_reg_power := power\<rparr>))"

definition rule_channel ::
  "u64 \<Rightarrow> bool \<Rightarrow> ieee80211_reg_rule \<Rightarrow> u32 \<Rightarrow> ieee80211_channel \<Rightarrow> ieee80211_channel" where
  "rule_channel jiffies follow_power rule bw_flags c =
     (let reg_power = per_hundred (pr_max_eirp (rr_power_rule rule));
          c = set_cac rule
                (c\<lparr>ch_dfs_state := NL80211_DFS_USABLE, ch_dfs_state_entered := jiffies, ch_beacon_found := False,
                   ch_flags := ch_orig_flags c OR bw_flags OR map_regdom_flags (rr_flags rule),
                   ch_max_antenna_gain :=
                     min (ch_orig_mag c) (per_hundred (pr_max_antenna_gain (rr_power_rule rule))),
                   ch_max_reg_power := reg_power\<rparr>)
      in if ch_orig_mpwr c \<noteq> 0 then
           (if follow_power then c\<lparr>ch_max_power := reg_power\<rparr>
            else c\<lparr>ch_max_power := min (ch_orig_mpwr c) reg_power\<rparr>)
         else c\<lparr>ch_max_power := reg_power\<rparr>)"

definition handle_channel ::
  "cfg80211 \<Rightarrow> wiphy \<Rightarrow> nl80211_reg_initiator \<Rightarrow> chan_ref \<Rightarrow> chan_store \<Rightarrow> chan_store option" where
  "handle_channel g w initiator chan h = do {
     info \<leftarrow> freq_reg_info g w (MHZ_TO_KHZ (ch_center_freq (h chan)));
     case info of
       Inl e \<Rightarrow>
         if initiator = NL80211_REGDOM_SET_BY_COUNTRY_IE \<and> e = ERANGE then Some h
         else Some (h(chan := disable_channel (strict_driver_hint g w) (h chan)))
     | Inr None \<Rightarrow> None
     | Inr (Some i) \<Rightarrow> do {
         regd \<leftarrow> reg_get_regdomain g w;
         let rule = rd_reg_rules regd ! i;
         let bw_flags = reg_rule_to_chan_bw_flags regd i (h chan);
         Some (h(chan :=
           (if strict_driver_hint g w then strict_channel rule bw_flags (h chan)
            else rule_channel (g_jiffies g)
                   (initiator = NL80211_REGDOM_SET_BY_COUNTRY_IE \<and> reg_flag w REGULATORY_COUNTRY_IE_FOLLOW_POWER)
                   rule bw_flags (h chan))))
       }
   }"

section \<open>All channels of a band\<close>

fun for_each :: "('a \<Rightarrow> 's \<Rightarrow> 's option) \<Rightarrow> 'a list \<Rightarrow> 's \<Rightarrow> 's option" where
  "for_each f [] s = Some s"
| "for_each f (x # xs) s = do { s' \<leftarrow> f x s; for_each f xs s' }"

definition for_bands :: "(ieee80211_supported_band \<Rightarrow> 's \<Rightarrow> 's option) \<Rightarrow> wiphy \<Rightarrow> 's \<Rightarrow> 's option" where
  "for_bands f w = for_each (\<lambda>band s. case w_bands w band of None \<Rightarrow> Some s | Some sband \<Rightarrow> f sband s) all_bands"

definition handle_band ::
  "cfg80211 \<Rightarrow> wiphy \<Rightarrow> nl80211_reg_initiator \<Rightarrow> ieee80211_supported_band \<Rightarrow> chan_store \<Rightarrow> chan_store option" where
  "handle_band g w initiator sband = for_each (handle_channel g w initiator) (sb_channels sband)"

section \<open>Custom domains\<close>

definition custom_channel ::
  "u64 \<Rightarrow> bool \<Rightarrow> ieee80211_reg_rule \<Rightarrow> u32 \<Rightarrow> ieee80211_channel \<Rightarrow> ieee80211_channel" where
  "custom_channel jiffies self_managed rule bw_flags c =
     (let power = per_hundred (pr_max_eirp (rr_power_rule rule)) in
      set_cac rule
        (c\<lparr>ch_dfs_state_entered := jiffies, ch_dfs_state := NL80211_DFS_USABLE, ch_beacon_found := False,
           ch_flags :=
             (if self_managed then ch_orig_flags c OR bw_flags OR map_regdom_flags (rr_flags rule)
              else ch_flags c OR (map_regdom_flags (rr_flags rule) OR bw_flags)),
           ch_max_antenna_gain := per_hundred (pr_max_antenna_gain (rr_power_rule rule)),
           ch_max_reg_power := power, ch_max_power := power\<rparr>))"

definition handle_channel_custom ::
  "cfg80211 \<Rightarrow> wiphy \<Rightarrow> ieee80211_regdomain option \<Rightarrow> chan_ref \<Rightarrow> chan_store \<Rightarrow> chan_store option" where
  "handle_channel_custom g w regd chan h = do {
     info \<leftarrow> freq_reg_loop (MHZ_TO_KHZ (ch_center_freq (h chan))) regd (MHZ_TO_KHZ 5) (MHZ_TO_KHZ 20) (Inr None);
     let self_managed = reg_flag w REGULATORY_WIPHY_SELF_MANAGED;
     case info of
       Inl e \<Rightarrow> Some (h(chan := disable_channel (\<not> self_managed) (h chan)))
     | Inr None \<Rightarrow> None
     | Inr (Some i) \<Rightarrow> do {
         rd \<leftarrow> regd;
         Some (h(chan := custom_channel (g_jiffies g) self_managed (rd_reg_rules rd ! i)
                  (reg_rule_to_chan_bw_flags rd i (h chan)) (h chan)))
       }
   }"

definition handle_band_custom ::
  "cfg80211 \<Rightarrow> wiphy \<Rightarrow> ieee80211_regdomain option \<Rightarrow> ieee80211_supported_band \<Rightarrow> chan_store \<Rightarrow> chan_store option" where
  "handle_band_custom g w regd sband = for_each (handle_channel_custom g w regd) (sb_channels sband)"

definition wiphy_apply_custom_regulatory ::
  "cfg80211 \<Rightarrow> wiphy \<Rightarrow> ieee80211_regdomain option \<Rightarrow> chan_store \<Rightarrow> (wiphy \<times> chan_store) option" where
  "wiphy_apply_custom_regulatory g w regd h =
     (let w = w\<lparr>w_regulatory_flags := w_regulatory_flags w OR REGULATORY_CUSTOM_REG\<rparr> in
      map_option (\<lambda>h'. (w, h')) (for_bands (handle_band_custom g w regd) w h))"

section \<open>Beacon hints\<close>

definition reg_is_world_roaming :: "cfg80211 \<Rightarrow> wiphy \<Rightarrow> bool option" where
  "reg_is_world_roaming g w = do {
     cr \<leftarrow> g_regdomain g;
     Some (is_world_regdom (rd_alpha2 cr) \<or>
           (case w_regd w of None \<Rightarrow> False | Some wr \<Rightarrow> is_world_regdom (rd_alpha2 wr)) \<or>
           lr_initiator (g_last_request g) \<noteq> NL80211_REGDOM_SET_BY_COUNTRY_IE \<and>
           reg_flag w REGULATORY_CUSTOM_REG)
   }"

text \<open>The beacon is the copy of the channel it was seen on.\<close>

definition handle_reg_beacon ::
  "cfg80211 \<Rightarrow> wiphy \<Rightarrow> ieee80211_channel \<Rightarrow> chan_ref \<Rightarrow> chan_store \<Rightarrow> chan_store option" where
  "handle_reg_beacon g w beacon chan h =
     (if ch_center_freq (h chan) \<noteq> ch_center_freq beacon then Some h
      else if ch_beacon_found (h chan) then Some h
      else
        let h = h(chan := (h chan)\<lparr>ch_beacon_found := True\<rparr>) in
        do {
          roaming \<leftarrow> reg_is_world_roaming g w;
          if \<not> roaming then Some h
          else if reg_flag w REGULATORY_DISABLE_BEACON_HINTS then Some h
          else if flag_set (ch_flags (h chan)) IEEE80211_CHAN_NO_IR then
            Some (h(chan := (h chan)\<lparr>ch_flags := ch_flags (h chan) AND NOT IEEE80211_CHAN_NO_IR\<rparr>))
          else Some h
        })"

definition wiphy_update_new_beacon ::
  "cfg80211 \<Rightarrow> wiphy \<Rightarrow> ieee80211_channel \<Rightarrow> chan_store \<Rightarrow> chan_store option" where
  "wiphy_update_new_beacon g w beacon h =
     (case w_bands w (ch_band beacon) of
        None \<Rightarrow> Some h
      | Some sband \<Rightarrow> for_each (handle_reg_beacon g w beacon) (sb_channels sband) h)"

definition wiphy_update_beacon_reg :: "cfg80211 \<Rightarrow> wiphy \<Rightarrow> chan_store \<Rightarrow> chan_store option" where
  "wiphy_update_beacon_reg g w = for_each (wiphy_update_new_beacon g w) (g_reg_beacon_list g)"

text \<open>\<open>last_request\<close> is never NULL, so \<open>reg_process_beacons\<close> always goes on.\<close>

definition reg_process_beacons :: "cfg80211 \<Rightarrow> wiphy \<Rightarrow> chan_store \<Rightarrow> chan_store option" where
  "reg_process_beacons g w h = wiphy_update_beacon_reg g w h"

section \<open>HT40 flags\<close>

definition is_ht40_allowed :: "ieee80211_channel option \<Rightarrow> bool" where
  "is_ht40_allowed chan =
     (case chan of
        None \<Rightarrow> False
      | Some c \<Rightarrow>
          if flag_set (ch_flags c) IEEE80211_CHAN_DISABLED then False
          else \<not> ch_flags c AND IEEE80211_CHAN_NO_HT40 = IEEE80211_CHAN_NO_HT40)"

text \<open>The last channel of the band on the frequency.\<close>

definition last_on_freq :: "chan_store \<Rightarrow> chan_ref list \<Rightarrow> u32 \<Rightarrow> ieee80211_channel option" where
  "last_on_freq h chans freq =
     map_option h (List.find (\<lambda>c. ch_center_freq (h c) = freq) (rev chans))"

definition ht40_flag :: "bool \<Rightarrow> u32 \<Rightarrow> u32 \<Rightarrow> u32" where
  "ht40_flag forbid m flags = (if forbid then flags OR m else flags AND NOT m)"

definition reg_process_ht_flags_channel :: "wiphy \<Rightarrow> chan_ref \<Rightarrow> chan_store \<Rightarrow> chan_store option" where
  "reg_process_ht_flags_channel w channel h =
     (if \<not> is_ht40_allowed (Some (h channel)) then
        Some (h(channel := (h channel)\<lparr>ch_flags := ch_flags (h channel) OR IEEE80211_CHAN_NO_HT40\<rparr>))
      else do {
        sband \<leftarrow> w_bands w (ch_band (h channel));
        let freq = ch_center_freq (h channel);
        let channel_before = last_on_freq h (sb_channels sband) (freq - 20);
        let channel_after = last_on_freq h (sb_channels sband) (freq + 20);
        let flags =
          (case w_regd w of
             None \<Rightarrow> 0
           | Some regd \<Rightarrow>
               (case freq_reg_info_regd (MHZ_TO_KHZ freq) (Some regd) (MHZ_TO_KHZ 20) of
                  Inl e \<Rightarrow> 0
                | Inr i \<Rightarrow> rr_flags (rd_reg_rules regd ! i)));
        Some (h(channel := (h channel)\<lparr>ch_flags :=
          ht40_flag (\<not> is_ht40_allowed channel_after \<or> flag_set flags NL80211_RRF_NO_HT40PLUS)
            IEEE80211_CHAN_NO_HT40PLUS
           (ht40_flag (\<not> is_ht40_allowed channel_before \<or> flag_set flags NL80211_RRF_NO_HT40MINUS)
              IEEE80211_CHAN_NO_HT40MINUS (ch_flags (h channel)))\<rparr>))
      })"

definition reg_process_ht_flags_band ::
  "wiphy \<Rightarrow> ieee80211_supported_band \<Rightarrow> chan_store \<Rightarrow> chan_store option" where
  "reg_process_ht_flags_band w sband = for_each (reg_process_ht_flags_channel w) (sb_channels sband)"

definition reg_process_ht_flags :: "wiphy \<Rightarrow> chan_store \<Rightarrow> chan_store option" where
  "reg_process_ht_flags w = for_bands (reg_process_ht_flags_band w) w"

section \<open>Updating a device\<close>

definition reg_request_cell_base :: "regulatory_request \<Rightarrow> bool" where
  "reg_request_cell_base request =
     (if lr_initiator request \<noteq> NL80211_REGDOM_SET_BY_USER then False
      else lr_user_reg_hint_type request = NL80211_USER_REG_HINT_CELL_BASE)"

definition NL80211_FEATURE_CELL_BASE_REG_HINTS :: u32 where
  "NL80211_FEATURE_CELL_BASE_REG_HINTS = 0x8"

definition reg_dev_ignore_cell_hint :: "cfg80211 \<Rightarrow> wiphy \<Rightarrow> bool" where
  "reg_dev_ignore_cell_hint g w =
     (if g_config_cellular_hints g then \<not> flag_set (w_features w) NL80211_FEATURE_CELL_BASE_REG_HINTS
      else True)"

definition wiphy_strict_alpha2_regd :: "wiphy \<Rightarrow> bool" where
  "wiphy_strict_alpha2_regd w \<longleftrightarrow> reg_flag w REGULATORY_STRICT_REG \<and> \<not> reg_flag w REGULATORY_CUSTOM_REG"

definition ignore_reg_update :: "cfg80211 \<Rightarrow> wiphy \<Rightarrow> nl80211_reg_initiator \<Rightarrow> bool" where
  "ignore_reg_update g w initiator =
     (let lr = g_last_request g in
      if reg_flag w REGULATORY_WIPHY_SELF_MANAGED then True
      else if initiator = NL80211_REGDOM_SET_BY_CORE \<and> reg_flag w REGULATORY_CUSTOM_REG then True
      else if wiphy_strict_alpha2_regd w \<and> w_regd w = None \<and>
              initiator \<noteq> NL80211_REGDOM_SET_BY_COUNTRY_IE \<and> \<not> is_world_regdom (lr_alpha2 lr) then True
      else if reg_request_cell_base lr then reg_dev_ignore_cell_hint g w
      else False)"

type_synonym reg_notifier = "wiphy \<Rightarrow> regulatory_request \<Rightarrow> chan_store \<Rightarrow> chan_store"

definition wiphy_update_regulatory ::
  "reg_notifier \<Rightarrow> nl80211_reg_initiator \<Rightarrow> wiphy \<Rightarrow> cfg80211 \<times> chan_store \<Rightarrow> (cfg80211 \<times> chan_store) option" where
  "wiphy_update_regulatory notify initiator w s =
     (case s of (g, h) \<Rightarrow>
        if ignore_reg_update g w initiator then
          Some (g, if initiator = NL80211_REGDOM_SET_BY_CORE \<and> reg_flag w REGULATORY_CUSTOM_REG \<and>
                      \<not> reg_flag w REGULATORY_WIPHY_SELF_MANAGED
                   then notify w (g_last_request g) h else h)
        else do {
          rd \<leftarrow> g_regdomain g;
          let g = g\<lparr>g_last_request := (g_last_request g)\<lparr>lr_dfs_region := rd_dfs_region rd\<rparr>\<rparr>;
          h1 \<leftarrow> for_bands (handle_band g w initiator) w h;
          h2 \<leftarrow> reg_process_beacons g w h1;
          h3 \<leftarrow> reg_process_ht_flags w h2;
          Some (g, notify w (g_last_request g) h3)
        })"

definition update_all_wiphy_regulatory ::
  "reg_notifier \<Rightarrow> nl80211_reg_initiator \<Rightarrow> cfg80211 \<times> chan_store \<Rightarrow> (cfg80211 \<times> chan_store) option" where
  "update_all_wiphy_regulatory notify initiator s =
     for_each (wiphy_update_regulatory notify initiator) (g_rdev_list (fst s)) s"

section \<open>Radar state shared between devices\<close>

definition reg_copy_dfs_chan_state :: "chan_ref \<Rightarrow> chan_ref \<Rightarrow> chan_store \<Rightarrow> chan_store" where
  "reg_copy_dfs_chan_state dst_chan src_chan h =
     (let d = h dst_chan; s = h src_chan in
      if \<not> flag_set (ch_flags d) IEEE80211_CHAN_RADAR \<or> \<not> flag_set (ch_flags s) IEEE80211_CHAN_RADAR then h
      else if flag_set (ch_flags d) IEEE80211_CHAN_DISABLED \<or> flag_set (ch_flags s) IEEE80211_CHAN_DISABLED then h
      else if ch_center_freq s = ch_center_freq d \<and> ch_dfs_state d = NL80211_DFS_USABLE then
        h(dst_chan := d\<lparr>ch_dfs_state := ch_dfs_state s, ch_dfs_state_entered := ch_dfs_state_entered s\<rparr>)
      else h)"

definition wiphy_share_dfs_chan_state ::
  "cfg80211 \<Rightarrow> wiphy \<Rightarrow> wiphy \<Rightarrow> chan_store \<Rightarrow> chan_store option" where
  "wiphy_share_dfs_chan_state g dst_wiphy src_wiphy h = do {
     same \<leftarrow> reg_dfs_domain_same g dst_wiphy src_wiphy;
     if \<not> same then Some h
     else Some
       (fold (\<lambda>band h.
          case (w_bands dst_wiphy band, w_bands src_wiphy band) of
            (Some dst_sband, Some src_sband) \<Rightarrow>
              fold (\<lambda>dst_chan. fold (\<lambda>src_chan. reg_copy_dfs_chan_state dst_chan src_chan) (sb_channels src_sband))
                (sb_channels dst_sband) h
          | _ \<Rightarrow> h) all_bands h)
   }"

definition wiphy_all_share_dfs_chan_state :: "cfg80211 \<Rightarrow> wiphy \<Rightarrow> chan_store \<Rightarrow> chan_store option" where
  "wiphy_all_share_dfs_chan_state g w =
     for_each (\<lambda>rdev h. if w_idx w = w_idx rdev then Some h else wiphy_share_dfs_chan_state g w rdev h)
       (g_rdev_list g)"

definition regulatory_pre_cac_allowed :: "cfg80211 \<Rightarrow> wiphy \<Rightarrow> bool option" where
  "regulatory_pre_cac_allowed g w = do {
     regd \<leftarrow> g_regdomain g;
     Some (case w_regd w of
             None \<Rightarrow> rd_dfs_region regd = NL80211_DFS_ETSI
           | Some wiphy_regd \<Rightarrow>
               rd_dfs_region regd = rd_dfs_region wiphy_regd \<and> rd_dfs_region wiphy_regd = NL80211_DFS_ETSI)
   }"

definition regulatory_propagate_dfs_state ::
  "cfg80211 \<Rightarrow> wiphy \<Rightarrow> cfg80211_chan_def \<Rightarrow> nl80211_dfs_state \<Rightarrow> chan_store \<Rightarrow> chan_store option" where
  "regulatory_propagate_dfs_state g w chandef dfs_state h =
     (if \<not> cfg80211_chandef_valid h chandef then Some h
      else do {
        chan \<leftarrow> cd_chan chandef;
        for_each (\<lambda>rdev h.
           if w_idx w = w_idx rdev then Some h
           else do {
             same \<leftarrow> reg_dfs_domain_same g w rdev;
             if \<not> same then Some h
             else if ieee80211_get_channel h rdev (ch_center_freq (h chan)) = None then Some h
             else cfg80211_set_dfs_state (g_jiffies g) rdev chandef dfs_state h
           }) (g_rdev_list g) h
      })"

section \<open>Active interfaces after an update\<close>

text \<open>
  \<open>get_channel\<close> is the driver's operation: None where the driver has none or it fails.
\<close>

definition reg_wdev_chan_valid ::
  "(wireless_dev \<Rightarrow> cfg80211_chan_def option) \<Rightarrow> cfg80211 \<Rightarrow> wiphy \<Rightarrow> wireless_dev \<Rightarrow> chan_store \<Rightarrow>
     (bool \<times> chan_store) option" where
  "reg_wdev_chan_valid get_channel g w wdev h =
     (let station =
        (case wd_current_bss wdev of
           None \<Rightarrow> Some (True, h)
         | Some chan \<Rightarrow>
             cfg80211_chandef_usable w
               (case get_channel wdev of
                  None \<Rightarrow> cfg80211_chandef_create h chan NL80211_CHAN_NO_HT
                | Some chandef \<Rightarrow> chandef)
               IEEE80211_CHAN_DISABLED h)
      in
      if wd_netdev wdev \<noteq> Some True then Some (True, h)
      else case wd_iftype wdev of
        NL80211_IFTYPE_AP \<Rightarrow>
          if wd_beacon_interval wdev = 0 then Some (True, h)
          else cfg80211_reg_can_beacon_relax g w (wd_chandef wdev) NL80211_IFTYPE_AP h
      | NL80211_IFTYPE_P2P_GO \<Rightarrow>
          if wd_beacon_interval wdev = 0 then Some (True, h)
          else cfg80211_reg_can_beacon_relax g w (wd_chandef wdev) NL80211_IFTYPE_P2P_GO h
      | NL80211_IFTYPE_ADHOC \<Rightarrow>
          if wd_ssid_len wdev = 0 then Some (True, h)
          else cfg80211_reg_can_beacon_relax g w (wd_chandef wdev) NL80211_IFTYPE_ADHOC h
      | NL80211_IFTYPE_STATION \<Rightarrow> station
      | NL80211_IFTYPE_P2P_CLIENT \<Rightarrow> station
      | _ \<Rightarrow> Some (True, h))"

text \<open>The interfaces that are made to leave, in order.\<close>

fun reg_leave_invalid_chans ::
  "(wireless_dev \<Rightarrow> cfg80211_chan_def option) \<Rightarrow> cfg80211 \<Rightarrow> wiphy \<Rightarrow> wireless_dev list \<Rightarrow> chan_store \<Rightarrow>
     (wireless_dev list \<times> chan_store) option" where
  "reg_leave_invalid_chans get_channel g w [] h = Some ([], h)"
| "reg_leave_invalid_chans get_channel g w (wdev # wdevs) h = do {
     (valid, h') \<leftarrow> reg_wdev_chan_valid get_channel g w wdev h;
     (left, h'') \<leftarrow> reg_leave_invalid_chans get_channel g w wdevs h';
     Some (if valid then left else wdev # left, h'')
   }"


section \<open>Facts on loops over channels\<close>

lemma for_each_inv:
  assumes "for_each f xs s = Some s'" and "P s"
    and "\<And>x s s'. x \<in> set xs \<Longrightarrow> P s \<Longrightarrow> f x s = Some s' \<Longrightarrow> P s'"
  shows "P s'"
  using assms
proof (induction xs arbitrary: s)
  case (Cons x xs)
  from Cons.prems(1) obtain s1 where s1: "f x s = Some s1" "for_each f xs s1 = Some s'"
    by (auto split: bind_splits)
  have "P s1" using Cons.prems(3) [of x s s1] Cons.prems(2) s1(1) by simp
  then show ?case by (rule Cons.IH [OF s1(2)]) (auto intro: Cons.prems(3))
qed simp

lemma for_each_establishes:
  assumes "for_each f xs s = Some s'" and "x \<in> set xs"
    and "\<And>s s'. f x s = Some s' \<Longrightarrow> Q s'"
    and "\<And>y s s'. y \<in> set xs \<Longrightarrow> Q s \<Longrightarrow> f y s = Some s' \<Longrightarrow> Q s'"
  shows "Q s'"
  using assms
proof (induction xs arbitrary: s)
  case (Cons y xs)
  from Cons.prems(1) obtain s1 where s1: "f y s = Some s1" "for_each f xs s1 = Some s'"
    by (auto split: bind_splits)
  show ?case
  proof (cases "x = y")
    case True
    then have "Q s1" using s1(1) Cons.prems(3) by blast
    then show ?thesis
      using for_each_inv [where P = Q, OF s1(2)] Cons.prems(4) by (meson list.set_intros(2))
  next
    case False
    then have "x \<in> set xs" using Cons.prems(2) by simp
    then show ?thesis
      by (rule Cons.IH [OF s1(2) _ Cons.prems(3)]) (auto intro: Cons.prems(4))
  qed
qed simp

lemma for_each_returns:
  assumes "P s" and "\<And>x s. x \<in> set xs \<Longrightarrow> P s \<Longrightarrow> \<exists>s'. f x s = Some s' \<and> P s'"
  shows "\<exists>s'. for_each f xs s = Some s' \<and> P s'"
  using assms
proof (induction xs arbitrary: s)
  case (Cons x xs)
  obtain s1 where "f x s = Some s1" "P s1" using Cons.prems(1) Cons.prems(2) [of x s] by auto
  then show ?case using Cons.IH [of s1] Cons.prems(2) by auto
qed simp

section \<open>What a regulatory domain permits\<close>

definition permitted_by :: "ieee80211_regdomain \<Rightarrow> ieee80211_channel \<Rightarrow> bool" where
  "permitted_by rd c \<longleftrightarrow>
     flag_set (ch_flags c) IEEE80211_CHAN_DISABLED \<or>
     (\<exists>rule \<in> set (rd_reg_rules rd).
        cfg80211_does_bw_fit_range (rr_freq_range rule) (MHZ_TO_KHZ (ch_center_freq c)) 20000 \<and>
        (flag_set (rr_flags rule) NL80211_RRF_DFS \<longrightarrow> flag_set (ch_flags c) IEEE80211_CHAN_RADAR) \<and>
        ch_max_power c \<le> per_hundred (pr_max_eirp (rr_power_rule rule)))"

definition permitted :: "ieee80211_regdomain option \<Rightarrow> ieee80211_channel \<Rightarrow> bool" where
  "permitted regd c \<longleftrightarrow> flag_set (ch_flags c) IEEE80211_CHAN_DISABLED \<or> (\<exists>rd. regd = Some rd \<and> permitted_by rd c)"

lemma permitted_cong:
  assumes "ch_center_freq c' = ch_center_freq c" and "ch_max_power c' = ch_max_power c"
    and "flag_set (ch_flags c') IEEE80211_CHAN_DISABLED = flag_set (ch_flags c) IEEE80211_CHAN_DISABLED"
    and "flag_set (ch_flags c') IEEE80211_CHAN_RADAR = flag_set (ch_flags c) IEEE80211_CHAN_RADAR"
  shows "permitted regd c' = permitted regd c"
  by (simp add: permitted_def permitted_by_def assms)

lemma flag_set_clear: "m AND n = 0 \<Longrightarrow> flag_set (x AND NOT m) n = flag_set x n"
proof -
  assume "m AND n = 0"
  then have "(x AND NOT m) AND n = x AND n"
    by (metis (no_types) and.assoc and.commute and_zero_eq bit.conj_cancel_right bit.conj_disj_distrib bit.disj_cancel_right
      bit.conj_one_right bit.disj_zero_right)
  then show ?thesis by (simp add: flag_set_def)
qed

lemmas cleared_flags =
  flag_set_clear [of IEEE80211_CHAN_NO_IR IEEE80211_CHAN_DISABLED, simplified]
  flag_set_clear [of IEEE80211_CHAN_NO_IR IEEE80211_CHAN_RADAR, simplified]
  flag_set_clear [of IEEE80211_CHAN_NO_HT40MINUS IEEE80211_CHAN_DISABLED, simplified]
  flag_set_clear [of IEEE80211_CHAN_NO_HT40MINUS IEEE80211_CHAN_RADAR, simplified]
  flag_set_clear [of IEEE80211_CHAN_NO_HT40PLUS IEEE80211_CHAN_DISABLED, simplified]
  flag_set_clear [of IEEE80211_CHAN_NO_HT40PLUS IEEE80211_CHAN_RADAR, simplified]
  flag_set_clear [of IEEE80211_CHAN_NO_HT40PLUS IEEE80211_CHAN_NO_HT40MINUS, simplified]

lemma or_if_flag [simp]: "flag_set (or_if b m x) n \<longleftrightarrow> b \<and> flag_set m n \<or> flag_set x n"
  by (auto simp: or_if_def)

lemma map_regdom_flags_radar:
  "flag_set rd_flags NL80211_RRF_DFS \<Longrightarrow> flag_set (map_regdom_flags rd_flags) IEEE80211_CHAN_RADAR"
  by (simp add: map_regdom_flags_def Let_def) (simp add: flag_set_def)

lemma set_cac_frame [simp]:
  "ch_flags (set_cac rule c) = ch_flags c" "ch_max_power (set_cac rule c) = ch_max_power c"
  "ch_center_freq (set_cac rule c) = ch_center_freq c" "ch_orig_mpwr (set_cac rule c) = ch_orig_mpwr c"
  "ch_band (set_cac rule c) = ch_band c" "ch_max_reg_power (set_cac rule c) = ch_max_reg_power c"
  by (simp_all add: set_cac_def)

lemma rule_channel_fields:
  "ch_center_freq (rule_channel j fp rule bw c) = ch_center_freq c"
  "ch_band (rule_channel j fp rule bw c) = ch_band c"
  "ch_flags (rule_channel j fp rule bw c) = ch_orig_flags c OR bw OR map_regdom_flags (rr_flags rule)"
  "ch_max_power (rule_channel j fp rule bw c) \<le> per_hundred (pr_max_eirp (rr_power_rule rule))"
  by (simp_all add: rule_channel_def Let_def)

lemma strict_channel_fields:
  "ch_center_freq (strict_channel rule bw c) = ch_center_freq c"
  "ch_band (strict_channel rule bw c) = ch_band c"
  "ch_flags (strict_channel rule bw c) = map_regdom_flags (rr_flags rule) OR bw"
  "ch_max_power (strict_channel rule bw c) = per_hundred (pr_max_eirp (rr_power_rule rule))"
  by (simp_all add: strict_channel_def Let_def)

lemma disable_channel_fields:
  "ch_center_freq (disable_channel b c) = ch_center_freq c"
  "ch_band (disable_channel b c) = ch_band c"
  "flag_set (ch_flags (disable_channel b c)) IEEE80211_CHAN_DISABLED"
  by (simp_all add: disable_channel_def) (simp_all add: flag_set_def)

lemmas channel_fields = rule_channel_fields strict_channel_fields disable_channel_fields

lemma handle_channel_cases:
  obtains (keep) "handle_channel g w ini chan h = Some h" "ini = NL80211_REGDOM_SET_BY_COUNTRY_IE"
  | (disable) b where "handle_channel g w ini chan h = Some (h(chan := disable_channel b (h chan)))"
  | (rule) rd i c where "reg_get_regdomain g w = Some rd" "i < length (rd_reg_rules rd)"
      "cfg80211_does_bw_fit_range (rr_freq_range (rd_reg_rules rd ! i)) (MHZ_TO_KHZ (ch_center_freq (h chan))) 20000"
      "handle_channel g w ini chan h = Some (h(chan := c))"
      "c = strict_channel (rd_reg_rules rd ! i) (reg_rule_to_chan_bw_flags rd i (h chan)) (h chan) \<or>
       (\<exists>fp. c = rule_channel (g_jiffies g) fp (rd_reg_rules rd ! i) (reg_rule_to_chan_bw_flags rd i (h chan)) (h chan))"
proof (cases "freq_reg_info_regd (MHZ_TO_KHZ (ch_center_freq (h chan))) (reg_get_regdomain g w) 20000")
  case (Inl e)
  then show ?thesis
    using that(1,2) by (cases "ini = NL80211_REGDOM_SET_BY_COUNTRY_IE \<and> e = ERANGE")
      (simp_all add: handle_channel_def freq_reg_info_eq)
next
  case (Inr i)
  then obtain rd where rd: "reg_get_regdomain g w = Some rd"
    by (auto simp: freq_reg_info_regd_def split: option.splits)
  note s = freq_reg_info_regd_sound [of _ rd 20000 i, OF Inr [unfolded rd]]
  define rule where "rule = rd_reg_rules rd ! i"
  define bw where "bw = reg_rule_to_chan_bw_flags rd i (h chan)"
  define fp where "fp \<longleftrightarrow> ini = NL80211_REGDOM_SET_BY_COUNTRY_IE \<and> reg_flag w REGULATORY_COUNTRY_IE_FOLLOW_POWER"
  have h: "handle_channel g w ini chan h = Some (h(chan :=
      (if strict_driver_hint g w then strict_channel rule bw (h chan) else rule_channel (g_jiffies g) fp rule bw (h chan))))"
    by (simp add: handle_channel_def freq_reg_info_eq Inr [unfolded rd] rd rule_def bw_def fp_def Let_def)
  show ?thesis
    by (rule that(3) [OF rd s h]) (auto simp: rule_def bw_def)
qed

lemma handle_channel_frame:
  assumes "handle_channel g w ini chan h = Some h'"
  shows "r \<noteq> chan \<Longrightarrow> h' r = h r" and "ch_center_freq (h' r) = ch_center_freq (h r)"
    and "ch_band (h' r) = ch_band (h r)"
  using assms
  by (cases rule: handle_channel_cases [of g w ini chan h]; auto simp: channel_fields)+

lemma handle_channel_permitted:
  assumes "handle_channel g w ini chan h = Some h'" and "ini \<noteq> NL80211_REGDOM_SET_BY_COUNTRY_IE"
  shows "permitted (reg_get_regdomain g w) (h' chan)"
proof (cases rule: handle_channel_cases [of g w ini chan h])
  case keep
  then show ?thesis using assms by simp
next
  case (disable b)
  then show ?thesis using assms by (auto simp: permitted_def disable_channel_fields)
next
  case (rule rd i c)
  let ?r = "rd_reg_rules rd ! i"
  have mem: "?r \<in> set (rd_reg_rules rd)" using rule(2) by simp
  have c: "h' chan = c" using assms rule(4) by auto
  have "ch_center_freq c = ch_center_freq (h chan)" "ch_max_power c \<le> per_hundred (pr_max_eirp (rr_power_rule ?r))"
    "flag_set (rr_flags ?r) NL80211_RRF_DFS \<longrightarrow> flag_set (ch_flags c) IEEE80211_CHAN_RADAR"
    using rule(5) by (auto simp: channel_fields map_regdom_flags_radar)
  then show ?thesis unfolding permitted_def permitted_by_def c rule(1) using mem rule(3) by auto
qed

lemma handle_channel_returns: "\<exists>h'. handle_channel g w ini chan h = Some h'"
  by (cases rule: handle_channel_cases [of g w ini chan h]) auto

text \<open>The frequencies and bands of channels never change, and other devices' channels neither.\<close>

definition same_places :: "chan_store \<Rightarrow> chan_store \<Rightarrow> bool" where
  "same_places h h' \<longleftrightarrow> (\<forall>r. ch_center_freq (h' r) = ch_center_freq (h r) \<and> ch_band (h' r) = ch_band (h r))"

lemma same_places_refl [simp]: "same_places h h"
  by (simp add: same_places_def)

lemma same_places_trans: "same_places h1 h2 \<Longrightarrow> same_places h2 h3 \<Longrightarrow> same_places h1 h3"
  by (simp add: same_places_def)

lemma handle_channel_places: "handle_channel g w ini chan h = Some h' \<Longrightarrow> same_places h h'"
  using handle_channel_frame(2,3) [of g w ini chan h h'] by (simp add: same_places_def)

lemma for_bands_establishes:
  assumes "for_bands (\<lambda>sband. for_each f (sb_channels sband)) w h = Some h'" and "r \<in> wiphy_chans w"
    and est: "\<And>s s'. f r s = Some s' \<Longrightarrow> Q s'"
    and keep: "\<And>y s s'. Q s \<Longrightarrow> f y s = Some s' \<Longrightarrow> Q s'"
  shows "Q h'"
proof -
  obtain band sb where b: "band \<in> set all_bands" "w_bands w band = Some sb" "r \<in> set (sb_channels sb)"
    using assms(2) by (auto simp: wiphy_chans_def)
  have one: "Q s'" if "for_each f (sb_channels sb) s = Some s'" for s s'
    by (rule for_each_establishes [OF that b(3)]) (use est keep in blast)+
  have inv: "Q s'" if "Q s" "for_each f cs s = Some s'" for cs s s'
    by (rule for_each_inv [where P = Q, OF that(2,1)]) (use keep in blast)
  show ?thesis
  proof (rule for_each_establishes [OF assms(1) [unfolded for_bands_def] b(1)])
    fix s s'
    assume "(case w_bands w band of None \<Rightarrow> Some s | Some sband \<Rightarrow> for_each f (sb_channels sband) s) = Some s'"
    then show "Q s'" using one b(2) by simp
  next
    fix y s s'
    assume "Q s" "(case w_bands w y of None \<Rightarrow> Some s | Some sband \<Rightarrow> for_each f (sb_channels sband) s) = Some s'"
    then show "Q s'" using inv by (auto split: option.splits)
  qed
qed

lemma for_bands_inv:
  assumes "for_bands (\<lambda>sband. for_each f (sb_channels sband)) w h = Some h'" and "P h"
    and keep: "\<And>y s s'. P s \<Longrightarrow> f y s = Some s' \<Longrightarrow> P s'"
  shows "P h'"
proof (rule for_each_inv [where P = P, OF assms(1) [unfolded for_bands_def] assms(2)])
  fix y s s'
  assume p: "P s" "(case w_bands w y of None \<Rightarrow> Some s | Some sband \<Rightarrow> for_each f (sb_channels sband) s) = Some s'"
  have "P s'" if "for_each f cs s = Some s'" for cs
    by (rule for_each_inv [where P = P, OF that p(1)]) (use keep in blast)
  with p show "P s'" by (auto split: option.splits)
qed

section \<open>The later stages keep what is permitted\<close>

lemma handle_reg_beacon_keeps:
  assumes "handle_reg_beacon g w b chan h = Some h'"
  shows "permitted regd (h' r) = permitted regd (h r)" and "same_places h h'"
proof -
  have f: "ch_center_freq (h' r) = ch_center_freq (h r) \<and> ch_band (h' r) = ch_band (h r) \<and> ch_max_power (h' r) = ch_max_power (h r) \<and>
     (ch_flags (h' r) = ch_flags (h r) \<or> ch_flags (h' r) = ch_flags (h r) AND NOT IEEE80211_CHAN_NO_IR)" for r
    using assms by (auto simp: handle_reg_beacon_def Let_def split: if_splits bind_splits)
  have "flag_set (ch_flags (h' r)) IEEE80211_CHAN_DISABLED = flag_set (ch_flags (h r)) IEEE80211_CHAN_DISABLED"
    "flag_set (ch_flags (h' r)) IEEE80211_CHAN_RADAR = flag_set (ch_flags (h r)) IEEE80211_CHAN_RADAR"
    using f [of r] by (auto simp: cleared_flags)
  then show "permitted regd (h' r) = permitted regd (h r)"
    using f [of r] by (intro permitted_cong) auto
  show "same_places h h'" using f by (simp add: same_places_def)
qed

lemma ht_flag_bits [simp]:
  "flag_set (ht40_flag b IEEE80211_CHAN_NO_HT40PLUS x) IEEE80211_CHAN_DISABLED = flag_set x IEEE80211_CHAN_DISABLED"
  "flag_set (ht40_flag b IEEE80211_CHAN_NO_HT40PLUS x) IEEE80211_CHAN_RADAR = flag_set x IEEE80211_CHAN_RADAR"
  "flag_set (ht40_flag b IEEE80211_CHAN_NO_HT40MINUS x) IEEE80211_CHAN_DISABLED = flag_set x IEEE80211_CHAN_DISABLED"
  "flag_set (ht40_flag b IEEE80211_CHAN_NO_HT40MINUS x) IEEE80211_CHAN_RADAR = flag_set x IEEE80211_CHAN_RADAR"
  "flag_set (ht40_flag b IEEE80211_CHAN_NO_HT40PLUS x) IEEE80211_CHAN_NO_HT40MINUS = flag_set x IEEE80211_CHAN_NO_HT40MINUS"
  "flag_set (ht40_flag b IEEE80211_CHAN_NO_HT40PLUS x) IEEE80211_CHAN_NO_HT40PLUS = b"
  "flag_set (ht40_flag b IEEE80211_CHAN_NO_HT40MINUS x) IEEE80211_CHAN_NO_HT40MINUS = b"
  by (simp_all add: ht40_flag_def cleared_flags) (simp_all add: flag_set_def and.assoc)

lemma no_ht40_keeps_flags [simp]:
  "\<not> flag_set IEEE80211_CHAN_NO_HT40 IEEE80211_CHAN_DISABLED" "\<not> flag_set IEEE80211_CHAN_NO_HT40 IEEE80211_CHAN_RADAR"
  by (simp_all add: flag_set_def)

lemma no_ht40_bits: "flag_set IEEE80211_CHAN_NO_HT40 IEEE80211_CHAN_NO_HT40MINUS" "flag_set IEEE80211_CHAN_NO_HT40 IEEE80211_CHAN_NO_HT40PLUS"
  by (simp_all add: flag_set_def)

lemma ht_flags_channel_keeps:
  assumes "reg_process_ht_flags_channel w chan h = Some h'"
  shows "permitted regd (h' r) = permitted regd (h r)" and "same_places h h'"
proof -
  have f: "ch_center_freq (h' r) = ch_center_freq (h r) \<and> ch_band (h' r) = ch_band (h r) \<and> ch_max_power (h' r) = ch_max_power (h r) \<and>
     flag_set (ch_flags (h' r)) IEEE80211_CHAN_DISABLED = flag_set (ch_flags (h r)) IEEE80211_CHAN_DISABLED \<and>
     flag_set (ch_flags (h' r)) IEEE80211_CHAN_RADAR = flag_set (ch_flags (h r)) IEEE80211_CHAN_RADAR" for r
    using assms by (auto simp: reg_process_ht_flags_channel_def Let_def split: if_splits bind_splits)
  then show "permitted regd (h' r) = permitted regd (h r)" by (intro permitted_cong) auto
  show "same_places h h'" using f by (simp add: same_places_def)
qed


lemma last_on_freq_Some:
  "last_on_freq h cs f = Some c \<Longrightarrow> \<exists>r \<in> set cs. c = h r \<and> ch_center_freq (h r) = f"
  by (auto simp: last_on_freq_def find_Some_iff in_set_conv_nth) (metis in_set_conv_nth length_rev nth_mem set_rev)

lemma ht40_allowed_neighbour:
  assumes "is_ht40_allowed (last_on_freq h cs f)"
  shows "\<exists>r \<in> set cs. ch_center_freq (h r) = f \<and> \<not> flag_set (ch_flags (h r)) IEEE80211_CHAN_DISABLED"
proof -
  obtain c where c: "last_on_freq h cs f = Some c" "\<not> flag_set (ch_flags c) IEEE80211_CHAN_DISABLED"
    using assms by (auto simp: is_ht40_allowed_def split: option.splits if_splits)
  then show ?thesis using last_on_freq_Some [OF c(1)] by blast
qed

lemma ht_flags_channel_cases:
  assumes "reg_process_ht_flags_channel w chan h = Some h'" and "w_bands w (ch_band (h chan)) = Some sband"
  obtains "ch_flags (h' chan) = ch_flags (h chan) OR IEEE80211_CHAN_NO_HT40"
  | A B where "ch_flags (h' chan) = ht40_flag A IEEE80211_CHAN_NO_HT40PLUS (ht40_flag B IEEE80211_CHAN_NO_HT40MINUS (ch_flags (h chan)))"
      "\<not> A \<Longrightarrow> is_ht40_allowed (last_on_freq h (sb_channels sband) (ch_center_freq (h chan) + 20))"
      "\<not> B \<Longrightarrow> is_ht40_allowed (last_on_freq h (sb_channels sband) (ch_center_freq (h chan) - 20))"
proof (cases "is_ht40_allowed (Some (h chan))")
  case False
  then show ?thesis using assms that(1) by (auto simp: reg_process_ht_flags_channel_def)
next
  case True
  define flags where "flags = (case w_regd w of None \<Rightarrow> 0 | Some regd \<Rightarrow>
     (case freq_reg_info_regd (MHZ_TO_KHZ (ch_center_freq (h chan))) (Some regd) (MHZ_TO_KHZ 20) of
        Inl e \<Rightarrow> 0 | Inr i \<Rightarrow> rr_flags (rd_reg_rules regd ! i)))"
  have "ch_flags (h' chan) =
      ht40_flag (\<not> is_ht40_allowed (last_on_freq h (sb_channels sband) (ch_center_freq (h chan) + 20)) \<or> flag_set flags NL80211_RRF_NO_HT40PLUS)
        IEEE80211_CHAN_NO_HT40PLUS
       (ht40_flag (\<not> is_ht40_allowed (last_on_freq h (sb_channels sband) (ch_center_freq (h chan) - 20)) \<or> flag_set flags NL80211_RRF_NO_HT40MINUS)
        IEEE80211_CHAN_NO_HT40MINUS (ch_flags (h chan)))"
    using assms True unfolding reg_process_ht_flags_channel_def flags_def Let_def by auto
  then show ?thesis by (rule that(2)) auto
qed


lemma reg_beacons_keep:
  assumes "reg_process_beacons g w h = Some h'"
  shows "permitted regd (h' r) = permitted regd (h r)" and "same_places h h'"
proof -
  have one: "permitted regd (s' r) = permitted regd (s r) \<and> same_places s s'"
    if "for_each (handle_reg_beacon g w b) cs s = Some s'" for b cs s s'
    using for_each_inv [where P = "\<lambda>t. permitted regd (t r) = permitted regd (s r) \<and> same_places s t", OF that]
      handle_reg_beacon_keeps same_places_trans by (metis same_places_refl)
  have new: "permitted regd (s' r) = permitted regd (s r) \<and> same_places s s'"
    if "wiphy_update_new_beacon g w b s = Some s'" for b s s'
    using that one by (auto simp: wiphy_update_new_beacon_def split: option.splits)
  have "permitted regd (h' r) = permitted regd (h r) \<and> same_places h h'"
    using for_each_inv [where P = "\<lambda>t. permitted regd (t r) = permitted regd (h r) \<and> same_places h t",
        OF assms [unfolded reg_process_beacons_def wiphy_update_beacon_reg_def]]
      new same_places_trans by (metis same_places_refl)
  then show "permitted regd (h' r) = permitted regd (h r)" "same_places h h'" by blast+
qed

lemma ht_flags_keep:
  assumes "reg_process_ht_flags w h = Some h'"
  shows "permitted regd (h' r) = permitted regd (h r)"
proof -
  have "for_bands (\<lambda>sband. for_each (reg_process_ht_flags_channel w) (sb_channels sband)) w h = Some h'"
    using assms by (simp add: reg_process_ht_flags_def reg_process_ht_flags_band_def [abs_def])
  then show ?thesis
    by (rule for_bands_inv [where P = "\<lambda>t. permitted regd (t r) = permitted regd (h r)"])
      (auto simp: ht_flags_channel_keeps)
qed

lemma handle_bands_permitted:
  assumes "for_bands (handle_band g w ini) w h = Some h'" and "r \<in> wiphy_chans w"
    and "ini \<noteq> NL80211_REGDOM_SET_BY_COUNTRY_IE"
  shows "permitted (reg_get_regdomain g w) (h' r)"
proof -
  have "for_bands (\<lambda>sband. for_each (handle_channel g w ini) (sb_channels sband)) w h = Some h'"
    using assms(1) by (simp add: handle_band_def [abs_def])
  then show ?thesis
  proof (rule for_bands_establishes [OF _ assms(2), where Q = "\<lambda>s. permitted (reg_get_regdomain g w) (s r)"])
    fix s s' assume "handle_channel g w ini r s = Some s'"
    then show "permitted (reg_get_regdomain g w) (s' r)" by (rule handle_channel_permitted [OF _ assms(3)])
  next
    fix y s s' assume s: "permitted (reg_get_regdomain g w) (s r)" "handle_channel g w ini y s = Some s'"
    show "permitted (reg_get_regdomain g w) (s' r)"
    proof (cases "y = r")
      case True
      then show ?thesis using handle_channel_permitted [OF s(2) assms(3)] by simp
    next
      case False
      then show ?thesis using handle_channel_frame(1) [OF s(2)] s(1) by simp
    qed
  qed
qed


section \<open>Radar state is shared, never overwritten\<close>

definition state_known_kept :: "chan_store \<Rightarrow> chan_store \<Rightarrow> bool" where
  "state_known_kept h h' \<longleftrightarrow> same_places h h' \<and>
     (\<forall>r. ch_flags (h' r) = ch_flags (h r) \<and> (ch_dfs_state (h r) \<noteq> NL80211_DFS_USABLE \<longrightarrow> h' r = h r))"

lemma known_kept_refl [simp]: "state_known_kept h h"
  by (simp add: state_known_kept_def)

lemma known_kept_trans: "state_known_kept h1 h2 \<Longrightarrow> state_known_kept h2 h3 \<Longrightarrow> state_known_kept h1 h3"
  unfolding state_known_kept_def using same_places_trans by metis

lemma copy_known_kept: "state_known_kept h (reg_copy_dfs_chan_state dst src h)"
  by (auto simp: reg_copy_dfs_chan_state_def state_known_kept_def same_places_def Let_def)

lemma fold_known_kept:
  "(\<And>x h. state_known_kept h (f x h)) \<Longrightarrow> state_known_kept h (fold f xs h)"
  by (induction xs arbitrary: h) (auto intro: known_kept_trans)

lemma share_known_kept:
  "wiphy_share_dfs_chan_state g d s h = Some h' \<Longrightarrow> state_known_kept h h'"
  by (auto simp: wiphy_share_dfs_chan_state_def split: bind_splits if_splits
      intro!: fold_known_kept copy_known_kept split: option.splits)


section \<open>Every stage returns\<close>

definition bands_present :: "wiphy \<Rightarrow> chan_store \<Rightarrow> bool" where
  "bands_present w h \<longleftrightarrow> (\<forall>r \<in> wiphy_chans w. w_bands w (ch_band (h r)) \<noteq> None)"

lemma bands_present_same: "same_places h h' \<Longrightarrow> bands_present w h' = bands_present w h"
  by (simp add: bands_present_def same_places_def)

lemma for_bands_returns:
  assumes "P h" and "\<And>r s. r \<in> wiphy_chans w \<Longrightarrow> P s \<Longrightarrow> \<exists>s'. f r s = Some s' \<and> P s'"
  shows "\<exists>h'. for_bands (\<lambda>sband. for_each f (sb_channels sband)) w h = Some h' \<and> P h'"
  unfolding for_bands_def
proof (rule for_each_returns [where P = P, OF assms(1)])
  fix band s assume b: "band \<in> set all_bands" "P s"
  show "\<exists>s'. (case w_bands w band of None \<Rightarrow> Some s | Some sband \<Rightarrow> for_each f (sb_channels sband) s) = Some s' \<and> P s'"
  proof (cases "w_bands w band")
    case (Some sb)
    then have mem: "x \<in> wiphy_chans w" if "x \<in> set (sb_channels sb)" for x
      using that b(1) by (auto simp: wiphy_chans_def)
    have "\<exists>s'. for_each f (sb_channels sb) s = Some s' \<and> P s'"
      by (rule for_each_returns [where P = P, OF b(2)]) (rule assms(2) [OF mem])
    then show ?thesis using Some by simp
  qed (use b in simp)
qed

lemma beacon_returns:
  "g_regdomain g = Some rd \<Longrightarrow> \<exists>h'. handle_reg_beacon g w b chan h = Some h'"
  by (auto simp: handle_reg_beacon_def reg_is_world_roaming_def Let_def)

lemma beacons_return:
  assumes "g_regdomain g = Some rd"
  shows "\<exists>h'. reg_process_beacons g w h = Some h'"
proof -
  have one: "\<exists>h'. for_each (handle_reg_beacon g w b) cs h = Some h'" for b cs h
    using for_each_returns [where P = "\<lambda>_. True", simplified, of cs "handle_reg_beacon g w b"] beacon_returns [OF assms] by blast
  have new: "\<exists>h'. wiphy_update_new_beacon g w b h = Some h'" for b h
    using one by (auto simp: wiphy_update_new_beacon_def split: option.split)
  show ?thesis
    unfolding reg_process_beacons_def wiphy_update_beacon_reg_def
    using for_each_returns [where P = "\<lambda>_. True", simplified, of _ "wiphy_update_new_beacon g w"] new by blast
qed

lemma update_returns:
  assumes "g_regdomain g = Some rd" and "bands_present w h"
  shows "\<exists>g' h'. wiphy_update_regulatory notify ini w (g, h) = Some (g', h')"
proof (cases "ignore_reg_update g w ini")
  case True
  then show ?thesis by (simp add: wiphy_update_regulatory_def)
next
  case False
  define g1 where "g1 = g\<lparr>g_last_request := (g_last_request g)\<lparr>lr_dfs_region := rd_dfs_region rd\<rparr>\<rparr>"
  have g1: "g_regdomain g1 = Some rd" using assms(1) by (simp add: g1_def)
  obtain h1 where h1: "for_bands (\<lambda>sband. for_each (handle_channel g1 w ini) (sb_channels sband)) w h = Some h1" "same_places h h1"
    using for_bands_returns [where P = "same_places h" and f = "handle_channel g1 w ini" and w = w and h = h]
      handle_channel_returns handle_channel_places same_places_trans by (metis same_places_refl)
  obtain h2 where h2: "reg_process_beacons g1 w h1 = Some h2" using beacons_return [OF g1] by blast
  have p2: "bands_present w h2"
    using assms(2) bands_present_same h1(2) reg_beacons_keep(2) [OF h2] by blast
  have "\<exists>s'. reg_process_ht_flags_channel w r s = Some s' \<and> bands_present w s'"
    if "r \<in> wiphy_chans w" "bands_present w s" for r s
  proof -
    have "\<exists>s'. reg_process_ht_flags_channel w r s = Some s'"
      using that by (auto simp: reg_process_ht_flags_channel_def bands_present_def Let_def)
    then show ?thesis using ht_flags_channel_keeps(2) bands_present_same that(2) by blast
  qed
  then obtain h3 where "for_bands (\<lambda>sband. for_each (reg_process_ht_flags_channel w) (sb_channels sband)) w h2 = Some h3"
    using for_bands_returns [where P = "bands_present w", OF p2] by blast
  then show ?thesis
    using False assms(1) h1(1) h2
    by (simp add: wiphy_update_regulatory_def g1_def [symmetric] Let_def handle_band_def [abs_def]
        reg_process_ht_flags_def reg_process_ht_flags_band_def [abs_def])
qed

section \<open>Properties\<close>


text \<open>C27: A regulatory update returns for every device whose channels name a band the device has.\<close>

theorem update_regulatory_returns:
  assumes "g_regdomain g = Some rd" and "bands_present w h"
  shows "\<exists>g' h'. wiphy_update_regulatory notify ini w (g, h) = Some (g', h')"
  by (rule update_returns [OF assms])

definition sample_globals_us :: cfg80211 where
  "sample_globals_us = sample_globals\<lparr>g_regdomain := Some sample_rd2\<rparr>"

lemma sample_us_regdomain: "g_regdomain sample_globals_us = Some sample_rd2"
  by (simp add: sample_globals_us_def)

lemma sample_bands_present: "bands_present sample_wiphy sample_store"
  by (simp add: bands_present_def sample_wiphy_def sample_store_def sample_chan_def)

theorem update_regulatory_returns_witness:
  "\<exists>g' h'. wiphy_update_regulatory (\<lambda>w lr h. h) NL80211_REGDOM_SET_BY_CORE sample_wiphy
              (sample_globals_us, sample_store) = Some (g', h')"
  by (rule update_regulatory_returns [OF sample_us_regdomain sample_bands_present])

lemma sample_not_ignored: "\<not> ignore_reg_update sample_globals_us sample_wiphy NL80211_REGDOM_SET_BY_CORE"
  by (simp add: ignore_reg_update_def sample_globals_us_def sample_globals_def sample_request_def reg_flag_def
      sample_wiphy_def wiphy_strict_alpha2_regd_def reg_request_cell_base_def Let_def)


text \<open>The processing of the HT40 flags of a channel leaves HT40- allowed only when the band has an enabled
  channel 20 MHz below, and HT40+ only when it has one 20 MHz above.\<close>

lemma ht40_needs_neighbour:
  assumes "reg_process_ht_flags_channel w chan h = Some h'" and "w_bands w (ch_band (h chan)) = Some sband"
  shows "(\<not> flag_set (ch_flags (h' chan)) IEEE80211_CHAN_NO_HT40MINUS \<longrightarrow>
      (\<exists>r \<in> set (sb_channels sband). ch_center_freq (h r) = ch_center_freq (h chan) - 20 \<and>
         \<not> flag_set (ch_flags (h r)) IEEE80211_CHAN_DISABLED)) \<and>
    (\<not> flag_set (ch_flags (h' chan)) IEEE80211_CHAN_NO_HT40PLUS \<longrightarrow>
      (\<exists>r \<in> set (sb_channels sband). ch_center_freq (h r) = ch_center_freq (h chan) + 20 \<and>
         \<not> flag_set (ch_flags (h r)) IEEE80211_CHAN_DISABLED))"
proof (rule ht_flags_channel_cases [OF assms])
  assume "ch_flags (h' chan) = ch_flags (h chan) OR IEEE80211_CHAN_NO_HT40"
  then have "flag_set (ch_flags (h' chan)) IEEE80211_CHAN_NO_HT40MINUS" "flag_set (ch_flags (h' chan)) IEEE80211_CHAN_NO_HT40PLUS"
    by (simp_all add: no_ht40_bits)
  then show ?thesis by simp
qed (simp add: ht40_allowed_neighbour)

lemma ht40_needs_neighbour_witness:
  "\<exists>h'. reg_process_ht_flags_channel sample_wiphy 0 sample_store = Some h' \<and>
     flag_set (ch_flags (h' 0)) IEEE80211_CHAN_NO_HT40MINUS"
proof -
  have b: "w_bands sample_wiphy (ch_band (sample_store 0)) = Some sample_band"
    by (simp add: sample_wiphy_def sample_store_def sample_chan_def)
  obtain h' where h': "reg_process_ht_flags_channel sample_wiphy 0 sample_store = Some h'"
    by (cases "is_ht40_allowed (Some (sample_store 0))") (simp_all add: reg_process_ht_flags_channel_def b Let_def)
  have "\<not> (\<exists>r \<in> set (sb_channels sample_band). ch_center_freq (sample_store r) = ch_center_freq (sample_store 0) - 20)"
    by (simp add: sample_band_def sample_store_def sample_chan_def sample_upt)
  with ht40_needs_neighbour [OF h' b] h' show ?thesis by blast
qed

text \<open>Sharing radar state from the other devices never changes a channel whose state is already
  known (available or unavailable).\<close>

lemma share_keeps_known_state:
  assumes "wiphy_all_share_dfs_chan_state g w h = Some h'" and "ch_dfs_state (h r) \<noteq> NL80211_DFS_USABLE"
  shows "h' r = h r"
proof -
  have "state_known_kept h h'"
  proof (rule for_each_inv [where P = "state_known_kept h", OF assms(1) [unfolded wiphy_all_share_dfs_chan_state_def] known_kept_refl])
    fix x s s'
    assume "state_known_kept h s" "(if w_idx w = w_idx x then Some s else wiphy_share_dfs_chan_state g w x s) = Some s'"
    then show "state_known_kept h s'"
      using share_known_kept known_kept_trans by (auto split: if_splits)
  qed
  then show ?thesis using assms(2) by (simp add: state_known_kept_def)
qed

lemma share_keeps_known_state_witness:
  "\<exists>h'. wiphy_all_share_dfs_chan_state sample_globals_us sample_wiphy
      (sample_store(4 := (sample_store 4)\<lparr>ch_dfs_state := NL80211_DFS_UNAVAILABLE\<rparr>)) = Some h' \<and>
    ch_dfs_state (h' 4) = NL80211_DFS_UNAVAILABLE"
proof -
  let ?h = "sample_store(4 := (sample_store 4)\<lparr>ch_dfs_state := NL80211_DFS_UNAVAILABLE\<rparr>)"
  have s: "wiphy_all_share_dfs_chan_state sample_globals_us sample_wiphy ?h = Some ?h"
    by (simp add: wiphy_all_share_dfs_chan_state_def sample_globals_us_def sample_globals_def)
  from share_keeps_known_state [OF s, of 4] s show ?thesis by simp
qed

end

