(* ===== verification/RegHints.thy ===== *)
theory RegHints
  imports RegApply
begin

text \<open>
  Regulatory hints (net/wireless/reg.c): what is done with a request of the core, the user, a
  driver or a country element, given the last request; and how a domain that was asked for
  is installed (\<open>reg_set_rd_user\<close> and its siblings).

  The database query (firmware file or user space helper) is a parameter that says whether it
  could be started; allocations are parameters that say whether they succeed. A pending
  request may be the last request itself (it is processed again while it is unprocessed), so
  writes to a request that is the last one are seen through the last request.
\<close>

section \<open>Treatments\<close>

text \<open>
  \<open>TREATMENT_ERRNO\<close>: the functions return an enumeration, and one of them returns
  -EINVAL through it.
\<close>

datatype reg_request_treatment =
    REG_REQ_OK | REG_REQ_IGNORE | REG_REQ_INTERSECT | REG_REQ_ALREADY_SET | TREATMENT_ERRNO errno

definition regdom_changes :: "cfg80211 \<Rightarrow> string \<Rightarrow> bool" where
  "regdom_changes g alpha2 =
     (case g_regdomain g of None \<Rightarrow> True | Some r \<Rightarrow> \<not> alpha2_equal (rd_alpha2 r) alpha2)"

definition reg_ignore_cell_hint :: "cfg80211 \<Rightarrow> regulatory_request \<Rightarrow> reg_request_treatment" where
  "reg_ignore_cell_hint g pending_request =
     (if \<not> g_config_cellular_hints g then REG_REQ_IGNORE
      else if g_num_devs_support_basehint g = 0 then REG_REQ_IGNORE
      else if reg_request_cell_base (g_last_request g) \<and> \<not> regdom_changes g (lr_alpha2 pending_request)
      then REG_REQ_ALREADY_SET
      else REG_REQ_OK)"

definition hint_user_treatment :: "cfg80211 \<Rightarrow> regulatory_request \<Rightarrow> reg_request_treatment" where
  "hint_user_treatment g user_request =
     (let lr = g_last_request g in
      if reg_request_cell_base user_request then reg_ignore_cell_hint g user_request
      else if reg_request_cell_base lr then REG_REQ_IGNORE
      else if lr_initiator lr = NL80211_REGDOM_SET_BY_COUNTRY_IE then REG_REQ_INTERSECT
      else if lr_initiator lr = NL80211_REGDOM_SET_BY_USER \<and> lr_intersect lr then REG_REQ_IGNORE
      else if (lr_initiator lr = NL80211_REGDOM_SET_BY_CORE \<or>
               lr_initiator lr = NL80211_REGDOM_SET_BY_DRIVER \<or>
               lr_initiator lr = NL80211_REGDOM_SET_BY_USER) \<and> regdom_changes g (lr_alpha2 lr)
      then REG_REQ_IGNORE
      else if \<not> regdom_changes g (lr_alpha2 user_request) then REG_REQ_ALREADY_SET
      else REG_REQ_OK)"

definition hint_driver_treatment :: "cfg80211 \<Rightarrow> regulatory_request \<Rightarrow> reg_request_treatment" where
  "hint_driver_treatment g driver_request =
     (let lr = g_last_request g; changes = regdom_changes g (lr_alpha2 driver_request) in
      if lr_initiator lr = NL80211_REGDOM_SET_BY_CORE then
        (if changes then REG_REQ_OK else REG_REQ_ALREADY_SET)
      else if lr_initiator lr = NL80211_REGDOM_SET_BY_DRIVER \<and> \<not> changes then REG_REQ_ALREADY_SET
      else REG_REQ_INTERSECT)"

definition hint_country_ie_treatment ::
  "cfg80211 \<Rightarrow> wiphy \<Rightarrow> regulatory_request \<Rightarrow> reg_request_treatment" where
  "hint_country_ie_treatment g w request =
     (let lr = g_last_request g; changes = regdom_changes g (lr_alpha2 request) in
      if reg_request_cell_base lr then (if changes then REG_REQ_IGNORE else REG_REQ_ALREADY_SET)
      else if reg_flag w REGULATORY_COUNTRY_IE_IGNORE then REG_REQ_IGNORE
      else if \<not> is_an_alpha2 (lr_alpha2 request) then TREATMENT_ERRNO EINVAL
      else if lr_initiator lr \<noteq> NL80211_REGDOM_SET_BY_COUNTRY_IE then REG_REQ_OK
      else if map_option w_idx (wiphy_idx_to_wiphy g (lr_wiphy_idx lr)) \<noteq> Some (w_idx w) then
        (if changes then REG_REQ_IGNORE else REG_REQ_ALREADY_SET)
      else if changes then REG_REQ_OK
      else REG_REQ_ALREADY_SET)"

section \<open>Processing a hint\<close>

text \<open>
  The outcome of a handler: the treatment, the request as written, and the globals.
  \<open>is_last\<close> says that the request is the last one, so that its fields are those of
  \<open>g_last_request\<close>.
\<close>

type_synonym hint_result = "reg_request_treatment \<times> regulatory_request \<times> cfg80211"

definition store_request :: "bool \<Rightarrow> regulatory_request \<Rightarrow> cfg80211 \<Rightarrow> cfg80211" where
  "store_request is_last request g = (if is_last then g\<lparr>g_last_request := request\<rparr> else g)"

definition reg_update_last_request :: "regulatory_request \<Rightarrow> cfg80211 \<Rightarrow> cfg80211" where
  "reg_update_last_request request g = g\<lparr>g_last_request := request\<rparr>"

definition reg_set_request_processed :: "cfg80211 \<Rightarrow> cfg80211" where
  "reg_set_request_processed g = g\<lparr>g_last_request := (g_last_request g)\<lparr>lr_processed := True\<rparr>\<rparr>"

text \<open>The end the four handlers share: ask the database, and on success become the last request.\<close>

definition start_query ::
  "(string \<Rightarrow> bool) \<Rightarrow> bool \<Rightarrow> bool \<Rightarrow> regulatory_request \<Rightarrow> cfg80211 \<Rightarrow> hint_result" where
  "start_query query is_last intersect request g =
     (let request = request\<lparr>lr_intersect := intersect, lr_processed := False\<rparr>;
          g = store_request is_last request g
      in if query (lr_alpha2 request) then (REG_REQ_OK, request, reg_update_last_request request g)
         else (REG_REQ_IGNORE, request, g))"

text \<open>The core handler writes the request only after the query.\<close>

definition reg_process_hint_core ::
  "(string \<Rightarrow> bool) \<Rightarrow> bool \<Rightarrow> regulatory_request \<Rightarrow> cfg80211 \<Rightarrow> hint_result" where
  "reg_process_hint_core query is_last request g =
     (if query (lr_alpha2 request) then
        (let request = request\<lparr>lr_intersect := False, lr_processed := False\<rparr>
         in (REG_REQ_OK, request, reg_update_last_request request (store_request is_last request g)))
      else (REG_REQ_IGNORE, request, g))"

definition reg_process_hint_user ::
  "(string \<Rightarrow> bool) \<Rightarrow> bool \<Rightarrow> regulatory_request \<Rightarrow> cfg80211 \<Rightarrow> hint_result" where
  "reg_process_hint_user query is_last request g =
     (let treatment = hint_user_treatment g request in
      if treatment = REG_REQ_IGNORE \<or> treatment = REG_REQ_ALREADY_SET then (REG_REQ_IGNORE, request, g)
      else
        (case start_query query is_last (treatment = REG_REQ_INTERSECT) request g of
           (t, request, g) \<Rightarrow>
             (t, request, if t = REG_REQ_OK then g\<lparr>g_user_alpha2 := take 2 (lr_alpha2 request)\<rparr> else g)))"

definition set_wiphy_regd :: "int \<Rightarrow> ieee80211_regdomain option \<Rightarrow> cfg80211 \<Rightarrow> cfg80211" where
  "set_wiphy_regd idx regd g =
     g\<lparr>g_rdev_list := map (\<lambda>w. if w_idx w = idx then w\<lparr>w_regd := regd\<rparr> else w) (g_rdev_list g)\<rparr>"

text \<open>None where there is no central domain to copy.\<close>

definition reg_process_hint_driver ::
  "(string \<Rightarrow> bool) \<Rightarrow> bool \<Rightarrow> bool \<Rightarrow> wiphy \<Rightarrow> regulatory_request \<Rightarrow> cfg80211 \<Rightarrow> hint_result option" where
  "reg_process_hint_driver query alloc_ok is_last w request g =
     (let treatment = hint_driver_treatment g request in
      if treatment = REG_REQ_IGNORE then Some (REG_REQ_IGNORE, request, g)
      else do {
        regd \<leftarrow> (if treatment = REG_REQ_OK then Some None else map_option Some (g_regdomain g));
        if treatment \<noteq> REG_REQ_OK \<and> \<not> alloc_ok then Some (REG_REQ_IGNORE, request, g)
        else
          let g = (if treatment = REG_REQ_OK then g else set_wiphy_regd (w_idx w) regd g) in
          if treatment = REG_REQ_ALREADY_SET then
            let request = request\<lparr>lr_intersect := False, lr_processed := False\<rparr> in
            let g = reg_set_request_processed (reg_update_last_request request g) in
            Some (REG_REQ_ALREADY_SET, g_last_request g, g)
          else Some (start_query query is_last (treatment = REG_REQ_INTERSECT) request g)
      })"

definition reg_process_hint_country_ie ::
  "(string \<Rightarrow> bool) \<Rightarrow> bool \<Rightarrow> wiphy \<Rightarrow> regulatory_request \<Rightarrow> cfg80211 \<Rightarrow> hint_result" where
  "reg_process_hint_country_ie query is_last w request g =
     (case hint_country_ie_treatment g w request of
        REG_REQ_IGNORE \<Rightarrow> (REG_REQ_IGNORE, request, g)
      | REG_REQ_ALREADY_SET \<Rightarrow> (REG_REQ_ALREADY_SET, request, g)
      | REG_REQ_INTERSECT \<Rightarrow> (REG_REQ_IGNORE, request, g)
      | REG_REQ_OK \<Rightarrow> start_query query is_last False request g
      | TREATMENT_ERRNO e \<Rightarrow> start_query query is_last False request g)"

text \<open>\<open>WIPHY_IDX_INVALID\<close>\<close>

definition WIPHY_IDX_INVALID :: int where "WIPHY_IDX_INVALID = -1"

definition reg_process_hint ::
  "reg_notifier \<Rightarrow> (string \<Rightarrow> bool) \<Rightarrow> bool \<Rightarrow> bool \<Rightarrow> regulatory_request \<Rightarrow> cfg80211 \<times> chan_store \<Rightarrow>
     (cfg80211 \<times> chan_store) option" where
  "reg_process_hint notify query alloc_ok is_last request s =
     (case s of (g, h) \<Rightarrow>
        let initiator = lr_initiator request;
            wiphy =
              (if lr_wiphy_idx request \<noteq> WIPHY_IDX_INVALID then wiphy_idx_to_wiphy g (lr_wiphy_idx request)
               else None);
            result =
              (case initiator of
                 NL80211_REGDOM_SET_BY_CORE \<Rightarrow> Some (reg_process_hint_core query is_last request g)
               | NL80211_REGDOM_SET_BY_USER \<Rightarrow> Some (reg_process_hint_user query is_last request g)
               | NL80211_REGDOM_SET_BY_DRIVER \<Rightarrow>
                   (case wiphy of
                      None \<Rightarrow> Some (REG_REQ_IGNORE, request, g)
                    | Some w \<Rightarrow> reg_process_hint_driver query alloc_ok is_last w request g)
               | NL80211_REGDOM_SET_BY_COUNTRY_IE \<Rightarrow>
                   (case wiphy of
                      None \<Rightarrow> Some (REG_REQ_IGNORE, request, g)
                    | Some w \<Rightarrow> Some (reg_process_hint_country_ie query is_last w request g)))
        in do {
          (treatment, request, g) \<leftarrow> result;
          if treatment = REG_REQ_IGNORE then Some (g, h)
          else
            (case map_option w_idx wiphy of
               None \<Rightarrow> Some (g, h)
             | Some idx \<Rightarrow>
                 (case wiphy_idx_to_wiphy g idx of
                    None \<Rightarrow> Some (g, h)
                  | Some w \<Rightarrow>
                      if treatment = REG_REQ_ALREADY_SET \<and> reg_flag w REGULATORY_STRICT_REG then do {
                        (g, h) \<leftarrow> wiphy_update_regulatory notify initiator w (g, h);
                        h \<leftarrow> wiphy_all_share_dfs_chan_state g w h;
                        Some (g, h)
                      }
                      else Some (g, h)))
        })"

text \<open>
  One run of the work: an unprocessed last request is processed again, else the first
  pending request is taken from the queue.
\<close>

definition reg_process_pending_hints ::
  "reg_notifier \<Rightarrow> (string \<Rightarrow> bool) \<Rightarrow> bool \<Rightarrow> cfg80211 \<times> chan_store \<Rightarrow> (cfg80211 \<times> chan_store) option" where
  "reg_process_pending_hints notify query alloc_ok s =
     (case s of (g, h) \<Rightarrow>
        if \<not> lr_processed (g_last_request g) then
          reg_process_hint notify query alloc_ok True (g_last_request g) (g, h)
        else case g_requests_list g of
          [] \<Rightarrow> Some (g, h)
        | request # rest \<Rightarrow>
            let g = g\<lparr>g_requests_list := rest\<rparr>;
                h = (if lr_initiator request = NL80211_REGDOM_SET_BY_USER
                     then fold (\<lambda>w h. if reg_flag w REGULATORY_WIPHY_SELF_MANAGED then notify w request h else h)
                            (g_rdev_list g) h
                     else h)
            in reg_process_hint notify query alloc_ok False request (g, h))"

section \<open>Queueing hints\<close>

text \<open>\<open>toupper\<close> of linux/ctype.h on the letters it maps.\<close>

definition ctype_toupper :: "char \<Rightarrow> char" where
  "ctype_toupper c =
     (let n = of_char c :: nat in
      if 97 \<le> n \<and> n \<le> 122 \<or> 223 \<le> n \<and> n \<le> 255 \<and> n \<noteq> 247 then char_of (n - 32) else c)"

definition queue_regulatory_request :: "regulatory_request \<Rightarrow> cfg80211 \<Rightarrow> cfg80211" where
  "queue_regulatory_request request g =
     g\<lparr>g_requests_list := g_requests_list g @
        [request\<lparr>lr_alpha2 := map ctype_toupper (lr_alpha2 request)\<rparr>]\<rparr>"

definition new_request ::
  "int \<Rightarrow> nl80211_reg_initiator \<Rightarrow> nl80211_user_reg_hint_type \<Rightarrow> string \<Rightarrow> regulatory_request" where
  "new_request idx initiator hint_type alpha2 =
     \<lparr>lr_wiphy_idx = idx, lr_initiator = initiator, lr_user_reg_hint_type = hint_type,
      lr_alpha2 = take 2 alpha2, lr_dfs_region = NL80211_DFS_UNSET, lr_intersect = False, lr_processed = False\<rparr>"

definition regulatory_hint_core :: "bool \<Rightarrow> string \<Rightarrow> cfg80211 \<Rightarrow> status \<times> cfg80211" where
  "regulatory_hint_core alloc_ok alpha2 g =
     (if \<not> alloc_ok then (Inl ENOMEM, g)
      else (ok, queue_regulatory_request
                  (new_request WIPHY_IDX_INVALID NL80211_REGDOM_SET_BY_CORE NL80211_USER_REG_HINT_USER alpha2) g))"

definition regulatory_hint_user ::
  "bool \<Rightarrow> string option \<Rightarrow> nl80211_user_reg_hint_type \<Rightarrow> cfg80211 \<Rightarrow> status \<times> cfg80211" where
  "regulatory_hint_user alloc_ok alpha2 hint_type g =
     (case alpha2 of
        None \<Rightarrow> (Inl EINVAL, g)
      | Some a \<Rightarrow>
          if \<not> alloc_ok then (Inl ENOMEM, g)
          else (ok, queue_regulatory_request (new_request WIPHY_IDX_INVALID NL80211_REGDOM_SET_BY_USER hint_type a) g))"

section \<open>Installing a domain\<close>

text \<open>\<open>reset_regdomains(false, rd)\<close>: the central domain is replaced.\<close>

definition reset_regdomains :: "ieee80211_regdomain \<Rightarrow> cfg80211 \<Rightarrow> cfg80211" where
  "reset_regdomains rd g = g\<lparr>g_regdomain := Some rd\<rparr>"

definition reg_set_rd_core :: "ieee80211_regdomain \<Rightarrow> cfg80211 \<Rightarrow> status \<times> cfg80211" where
  "reg_set_rd_core rd g =
     (if \<not> is_world_regdom (rd_alpha2 rd) then (Inl EINVAL, g) else (ok, reset_regdomains rd g))"

text \<open>The outer option is that of \<open>regdom_intersect\<close>.\<close>

definition reg_set_rd_user ::
  "ieee80211_wmm_rule \<Rightarrow> bool \<Rightarrow> ieee80211_regdomain \<Rightarrow> regulatory_request \<Rightarrow> cfg80211 \<Rightarrow>
     (status \<times> cfg80211) option" where
  "reg_set_rd_user junk alloc_ok rd user_request g =
     (if \<not> regdom_changes g (rd_alpha2 rd) then Some (Inl EALREADY, g)
      else if \<not> is_valid_rd rd then Some (Inl EINVAL, g)
      else if \<not> lr_intersect user_request then Some (ok, reset_regdomains rd g)
      else do {
        intersected_rd \<leftarrow> regdom_intersect junk alloc_ok (Some rd) (g_regdomain g);
        Some (case intersected_rd of
                None \<Rightarrow> (Inl EINVAL, g)
              | Some ird \<Rightarrow> (ok, reset_regdomains ird g))
      })"

definition reg_set_rd_driver ::
  "ieee80211_wmm_rule \<Rightarrow> bool \<Rightarrow> ieee80211_regdomain \<Rightarrow> regulatory_request \<Rightarrow> cfg80211 \<Rightarrow>
     (status \<times> cfg80211) option" where
  "reg_set_rd_driver junk alloc_ok rd driver_request g =
     (if is_world_regdom (rd_alpha2 rd) then Some (Inl EINVAL, g)
      else if \<not> regdom_changes g (rd_alpha2 rd) then Some (Inl EALREADY, g)
      else if \<not> is_valid_rd rd then Some (Inl EINVAL, g)
      else case wiphy_idx_to_wiphy g (lr_wiphy_idx driver_request) of
        None \<Rightarrow> Some (Inl ENODEV, g)
      | Some request_wiphy \<Rightarrow>
          if \<not> lr_intersect driver_request then
            (if w_regd request_wiphy \<noteq> None then Some (Inl EALREADY, g)
             else if \<not> alloc_ok then Some (Inl ENOMEM, g)
             else Some (ok, reset_regdomains rd (set_wiphy_regd (w_idx request_wiphy) (Some rd) g)))
          else do {
            intersected_rd \<leftarrow> regdom_intersect junk alloc_ok (Some rd) (g_regdomain g);
            Some (case intersected_rd of
                    None \<Rightarrow> (Inl EINVAL, g)
                  | Some ird \<Rightarrow>
                      (ok, reset_regdomains ird (set_wiphy_regd (w_idx request_wiphy) (Some rd) g)))
          })"

definition is_alpha2_set :: "string \<Rightarrow> bool" where
  "is_alpha2_set alpha2 \<longleftrightarrow> (case alpha2 of a # b # _ \<Rightarrow> a \<noteq> CHR 0x00 \<and> b \<noteq> CHR 0x00 | _ \<Rightarrow> False)"

definition reg_set_rd_country_ie ::
  "ieee80211_regdomain \<Rightarrow> regulatory_request \<Rightarrow> cfg80211 \<Rightarrow> status \<times> cfg80211" where
  "reg_set_rd_country_ie rd country_ie_request g =
     (if \<not> is_alpha2_set (rd_alpha2 rd) \<and> \<not> is_an_alpha2 (rd_alpha2 rd) \<and> \<not> is_unknown_alpha2 (rd_alpha2 rd)
      then (Inl EINVAL, g)
      else if \<not> is_valid_rd rd then (Inl EINVAL, g)
      else if wiphy_idx_to_wiphy g (lr_wiphy_idx country_ie_request) = None then (Inl ENODEV, g)
      else if lr_intersect country_ie_request then (Inl EINVAL, g)
      else (ok, reset_regdomains rd g))"

text \<open>Does an answer of the database belong to the request that is being processed?\<close>

definition reg_is_valid_request :: "cfg80211 \<Rightarrow> string \<Rightarrow> bool" where
  "reg_is_valid_request g alpha2 =
     (let lr = g_last_request g in if lr_processed lr then False else alpha2_equal (lr_alpha2 lr) alpha2)"

section \<open>Facts on hints\<close>

lemma start_query_ok:
  "start_query query is_last i request g = (REG_REQ_OK, r, g') \<Longrightarrow>
     r = request\<lparr>lr_intersect := i, lr_processed := False\<rparr> \<and> g_last_request g' = r \<and> g_regdomain g' = g_regdomain g"
  by (auto simp: start_query_def Let_def reg_update_last_request_def store_request_def split: if_splits)

lemma hint_user_after_country:
  assumes "lr_initiator (g_last_request g) = NL80211_REGDOM_SET_BY_COUNTRY_IE"
    and "\<not> reg_request_cell_base request"
    and "reg_process_hint_user query is_last request g = (REG_REQ_OK, r, g')"
  shows "lr_intersect (g_last_request g') \<and> g_regdomain g' = g_regdomain g"
proof -
  have t: "hint_user_treatment g request = REG_REQ_INTERSECT"
    using assms(1,2) by (simp add: hint_user_treatment_def reg_request_cell_base_def Let_def)
  obtain t r1 g1 where q: "start_query query is_last True request g = (t, r1, g1)"
    by (cases "start_query query is_last True request g")
  with assms(3) t have "t = REG_REQ_OK" "g' = g1\<lparr>g_user_alpha2 := take 2 (lr_alpha2 r1)\<rparr>"
    by (auto simp: reg_process_hint_user_def split: if_splits)
  with start_query_ok [of query is_last True request g r1 g1] q show ?thesis by simp
qed

lemma set_rd_user_intersects:
  assumes "reg_set_rd_user junk alloc_ok rd request g = Some (ok, g')" and "lr_intersect request"
  shows "\<exists>ird. g_regdomain g' = Some ird \<and> regdom_intersect junk alloc_ok (Some rd) (g_regdomain g) = Some (Some ird)"
  using assms by (auto simp: reg_set_rd_user_def reset_regdomains_def split: if_splits bind_splits option.splits)


lemma sample_hint:
  "reg_process_hint_user (\<lambda>_. True) False
     (new_request WIPHY_IDX_INVALID NL80211_REGDOM_SET_BY_USER NL80211_USER_REG_HINT_USER ''DE'')
     (sample_globals_us\<lparr>g_last_request := sample_request\<lparr>lr_initiator := NL80211_REGDOM_SET_BY_COUNTRY_IE\<rparr>\<rparr>)
   = (REG_REQ_OK,
      (new_request WIPHY_IDX_INVALID NL80211_REGDOM_SET_BY_USER NL80211_USER_REG_HINT_USER ''DE'')\<lparr>lr_intersect := True\<rparr>,
      sample_globals_us\<lparr>g_last_request :=
        (new_request WIPHY_IDX_INVALID NL80211_REGDOM_SET_BY_USER NL80211_USER_REG_HINT_USER ''DE'')\<lparr>lr_intersect := True\<rparr>,
        g_user_alpha2 := ''DE''\<rparr>)"
  by (simp add: reg_process_hint_user_def hint_user_treatment_def reg_request_cell_base_def new_request_def
      start_query_def store_request_def reg_update_last_request_def sample_request_def Let_def)


text \<open>A country element whose country code is no pair of letters is refused by the treatment
  function (-EINVAL) but processed all the same: the handler has no case for the error, so
  once the database query starts the request becomes the last one.\<close>

lemma bad_country_ie_accepted:
  assumes "\<not> is_an_alpha2 (lr_alpha2 request)" and "\<not> reg_request_cell_base (g_last_request g)"
    and "\<not> reg_flag w REGULATORY_COUNTRY_IE_IGNORE" and "query (lr_alpha2 request)"
  shows "hint_country_ie_treatment g w request = TREATMENT_ERRNO EINVAL \<and>
    (\<exists>r g'. reg_process_hint_country_ie query is_last w request g = (REG_REQ_OK, r, g') \<and>
       g_last_request g' = r \<and> lr_alpha2 r = lr_alpha2 request)"
  using assms
  by (simp add: hint_country_ie_treatment_def reg_process_hint_country_ie_def start_query_def
      reg_update_last_request_def Let_def)

lemma bad_country_ie_accepted_witness:
  "\<exists>r g'. reg_process_hint_country_ie (\<lambda>_. True) False sample_wiphy
      (new_request 0 NL80211_REGDOM_SET_BY_COUNTRY_IE NL80211_USER_REG_HINT_USER ''1!'') sample_globals_us
    = (REG_REQ_OK, r, g') \<and> lr_alpha2 (g_last_request g') = ''1!''"
  using bad_country_ie_accepted [of "new_request 0 NL80211_REGDOM_SET_BY_COUNTRY_IE NL80211_USER_REG_HINT_USER ''1!''"
      sample_globals_us sample_wiphy "\<lambda>_. True" False]
  by (auto simp: new_request_def ctype_isalpha_def sample_globals_us_def sample_globals_def sample_request_def
      reg_request_cell_base_def reg_flag_def sample_wiphy_def)

end
