(* ===== verification/TxQueue.thy ===== *)
theory TxQueue
  imports Prelude
begin

text \<open>
  Stopping and waking of the transmit queues (net/mac80211/util.c), the frames that wait
  for a stopped queue (net/mac80211/tx.c) and the count of aggregation set-ups that hold a
  queue (net/mac80211/agg-tx.c).

  The state is the part of \<open>ieee80211_local\<close> these functions touch. The bitmap of stop
  reasons of a queue is the set of the reasons, the reference counts are integers. Every
  function runs under \<open>queue_stop_reason_lock\<close> and is one step, except where the text says
  otherwise. What the functions ask of others is recorded in order: frames given to the
  driver (\<open>tl_sent\<close>), frames freed (\<open>tl_freed\<close>), transmit queues of the driver woken
  (\<open>tl_woken\<close>), tasklets scheduled.
\<close>

section \<open>State\<close>

datatype queue_stop_reason =
    IEEE80211_QUEUE_STOP_REASON_DRIVER
  | IEEE80211_QUEUE_STOP_REASON_PS
  | IEEE80211_QUEUE_STOP_REASON_CSA
  | IEEE80211_QUEUE_STOP_REASON_AGGREGATION
  | IEEE80211_QUEUE_STOP_REASON_SUSPEND
  | IEEE80211_QUEUE_STOP_REASON_SKB_ADD
  | IEEE80211_QUEUE_STOP_REASON_OFFCHANNEL
  | IEEE80211_QUEUE_STOP_REASON_FLUSH
  | IEEE80211_QUEUE_STOP_REASON_TDLS_TEARDOWN
  | IEEE80211_QUEUE_STOP_REASON_RESERVE_TID

definition IEEE80211_NUM_ACS :: nat where "IEEE80211_NUM_ACS = 4"
definition IEEE80211_INVAL_HW_QUEUE :: nat where "IEEE80211_INVAL_HW_QUEUE = 0xff"

definition IEEE80211_TX_CTL_AMPDU :: u32 where "IEEE80211_TX_CTL_AMPDU = BIT 6"
definition IEEE80211_TX_INTFL_NEED_TXPROCESSING :: u32 where "IEEE80211_TX_INTFL_NEED_TXPROCESSING = BIT 14"
definition IEEE80211_TX_CTL_NO_PS_BUFFER :: u32 where "IEEE80211_TX_CTL_NO_PS_BUFFER = BIT 17"
definition IEEE80211_TX_INTFL_OFFCHAN_TX_OK :: u32 where "IEEE80211_TX_INTFL_OFFCHAN_TX_OK = BIT 13"

text \<open>A frame: a name for its contents, and what \<open>IEEE80211_SKB_CB\<close> holds of it.\<close>

record tx_skb =
  ts_id :: nat
  ts_flags :: u32
  ts_hw_queue :: nat
  ts_vif :: "nat option"

text \<open>A transmit queue of the driver, as far as the wake-up looks at it.\<close>

record vif_txq =
  vt_id :: nat
  vt_ac :: nat
  vt_stop_netif_tx :: bool

record tx_sdata =
  vi_id :: nat
  vi_dev :: bool
  vi_ap :: bool
  vi_num_sta_ps :: nat
  vi_hw_queue :: "nat \<Rightarrow> nat"
  vi_cab_queue :: nat
  vi_netdev_stopped :: "nat \<Rightarrow> bool"
  vi_txqs_stopped :: "nat \<Rightarrow> bool"
  vi_sta_txqs :: "vif_txq list"
  vi_txq :: "vif_txq option"

record tx_local =
  tl_queues :: nat
  tl_wake_tx_queue :: bool
  tl_stop_reasons :: "nat \<Rightarrow> queue_stop_reason set"
  tl_q_stop_reasons :: "nat \<Rightarrow> queue_stop_reason \<Rightarrow> int"
  tl_pending :: "nat \<Rightarrow> tx_skb list"
  tl_agg_queue_stop :: "nat \<Rightarrow> int"
  tl_interfaces :: "tx_sdata list"
  tl_tx_pending_scheduled :: bool
  tl_wake_txqs_scheduled :: bool
  tl_sent :: "tx_skb list"
  tl_freed :: "tx_skb list"
  tl_woken :: "nat list"

definition n_acs :: "tx_local \<Rightarrow> nat" where
  "n_acs l = (if tl_queues l < IEEE80211_NUM_ACS then 1 else IEEE80211_NUM_ACS)"

section \<open>Stopping a queue\<close>

definition stop_subqueues :: "tx_local \<Rightarrow> nat \<Rightarrow> tx_sdata \<Rightarrow> tx_sdata" where
  "stop_subqueues l queue sdata =
     (if \<not> vi_dev sdata then sdata
      else
        let hit = (\<lambda>ac. ac < n_acs l \<and> (vi_hw_queue sdata ac = queue \<or> vi_cab_queue sdata = queue)) in
        if \<not> tl_wake_tx_queue l
        then sdata\<lparr>vi_netdev_stopped := (\<lambda>ac. if hit ac then True else vi_netdev_stopped sdata ac)\<rparr>
        else sdata\<lparr>vi_txqs_stopped := (\<lambda>ac. if hit ac then True else vi_txqs_stopped sdata ac)\<rparr>)"

definition count_stop :: "bool \<Rightarrow> int \<Rightarrow> int" where
  "count_stop refcounted n = (if \<not> refcounted then 1 else n + 1)"

definition ieee80211_stop_queue_by_reason ::
  "nat \<Rightarrow> queue_stop_reason \<Rightarrow> bool \<Rightarrow> tx_local \<Rightarrow> tx_local" where
  "ieee80211_stop_queue_by_reason queue reason refcounted l =
     (if queue \<ge> tl_queues l then l
      else
        let l' = l\<lparr>tl_q_stop_reasons := (tl_q_stop_reasons l)(queue :=
                     (tl_q_stop_reasons l queue)(reason := count_stop refcounted (tl_q_stop_reasons l queue reason)))\<rparr>
        in if reason \<in> tl_stop_reasons l queue then l'
           else l'\<lparr>tl_stop_reasons := (tl_stop_reasons l)(queue := insert reason (tl_stop_reasons l queue)),
                   tl_interfaces := map (stop_subqueues l queue) (tl_interfaces l)\<rparr>)"

section \<open>Waking a queue\<close>

definition wake_subqueues :: "tx_local \<Rightarrow> nat \<Rightarrow> tx_sdata \<Rightarrow> tx_sdata" where
  "wake_subqueues l queue sdata =
     (if \<not> vi_dev sdata then sdata
      else if vi_cab_queue sdata \<noteq> IEEE80211_INVAL_HW_QUEUE \<and> tl_stop_reasons l (vi_cab_queue sdata) \<noteq> {} then sdata
      else sdata\<lparr>vi_netdev_stopped := (\<lambda>ac.
        let ac_queue = vi_hw_queue sdata ac in
        if ac < n_acs l \<and>
           (ac_queue = queue \<or>
            (vi_cab_queue sdata = queue \<and> tl_stop_reasons l ac_queue = {} \<and> tl_pending l ac_queue = []))
        then False else vi_netdev_stopped sdata ac)\<rparr>)"

definition ieee80211_propagate_queue_wake :: "nat \<Rightarrow> tx_local \<Rightarrow> tx_local" where
  "ieee80211_propagate_queue_wake queue l =
     (if tl_wake_tx_queue l then l
      else l\<lparr>tl_interfaces := map (wake_subqueues l queue) (tl_interfaces l)\<rparr>)"

text \<open>\<open>__ieee80211_wake_txqs\<close>: the interface afterwards and the driver's queues that are woken.\<close>

definition wake_vif_txqs :: "nat \<Rightarrow> tx_sdata \<Rightarrow> tx_sdata \<times> nat list" where
  "wake_vif_txqs ac sdata =
     (let woken = map vt_id (filter (\<lambda>t. vt_ac t = ac \<and> vt_stop_netif_tx t) (vi_sta_txqs sdata));
          sdata' = sdata\<lparr>vi_txqs_stopped := (vi_txqs_stopped sdata)(ac := False),
                         vi_sta_txqs := map (\<lambda>t. if vt_ac t = ac then t\<lparr>vt_stop_netif_tx := False\<rparr> else t) (vi_sta_txqs sdata)\<rparr>
      in case vi_txq sdata of
           None \<Rightarrow> (sdata', woken)
         | Some t \<Rightarrow>
             (sdata'\<lparr>vi_txq := Some (t\<lparr>vt_stop_netif_tx := False\<rparr>)\<rparr>,
              if \<not> vt_stop_netif_tx t \<or> (vi_ap sdata \<and> vi_num_sta_ps sdata \<noteq> 0) \<or> ac \<noteq> vt_ac t then woken
              else woken @ [vt_id t]))"

definition wake_iface_txqs :: "nat \<Rightarrow> nat \<Rightarrow> tx_sdata \<Rightarrow> tx_sdata \<times> nat list" where
  "wake_iface_txqs n queue sdata =
     fold (\<lambda>ac (sdata, woken).
         if vi_hw_queue sdata ac = queue \<or> vi_cab_queue sdata = queue
         then (case wake_vif_txqs ac sdata of (sdata', woken') \<Rightarrow> (sdata', woken @ woken'))
         else (sdata, woken))
       [0..<n] (sdata, [])"

definition wake_queue_txqs :: "nat \<Rightarrow> tx_local \<Rightarrow> tx_local" where
  "wake_queue_txqs queue l =
     (if tl_stop_reasons l queue \<noteq> {} then l
      else l\<lparr>tl_interfaces := map (\<lambda>s. fst (wake_iface_txqs (n_acs l) queue s)) (tl_interfaces l),
             tl_woken := tl_woken l @ concat (map (\<lambda>s. snd (wake_iface_txqs (n_acs l) queue s)) (tl_interfaces l))\<rparr>)"

definition wake_txqs :: "tx_local \<Rightarrow> tx_local" where
  "wake_txqs l = fold wake_queue_txqs [0..<tl_queues l] l"

text \<open>\<open>ieee80211_wake_txqs\<close>, the tasklet.\<close>

definition ieee80211_wake_txqs :: "tx_local \<Rightarrow> tx_local" where
  "ieee80211_wake_txqs l = wake_txqs (l\<lparr>tl_wake_txqs_scheduled := False\<rparr>)"

definition count_wake :: "bool \<Rightarrow> int \<Rightarrow> int" where
  "count_wake refcounted n = (if \<not> refcounted then 0 else if n - 1 < 0 then 0 else n - 1)"

definition finish_wake :: "nat \<Rightarrow> queue_stop_reason \<Rightarrow> tx_local \<Rightarrow> tx_local" where
  "finish_wake queue reason l =
     (if tl_stop_reasons l queue \<noteq> {} then l
      else
        let l = (if tl_pending l queue = [] then ieee80211_propagate_queue_wake queue l
                 else l\<lparr>tl_tx_pending_scheduled := True\<rparr>)
        in if \<not> tl_wake_tx_queue l then l
           else if reason = IEEE80211_QUEUE_STOP_REASON_DRIVER then l\<lparr>tl_wake_txqs_scheduled := True\<rparr>
           else wake_txqs l)"

definition ieee80211_wake_queue_by_reason ::
  "nat \<Rightarrow> queue_stop_reason \<Rightarrow> bool \<Rightarrow> tx_local \<Rightarrow> tx_local" where
  "ieee80211_wake_queue_by_reason queue reason refcounted l =
     (if queue \<ge> tl_queues l then l
      else if reason \<notin> tl_stop_reasons l queue then l
      else
        let n = count_wake refcounted (tl_q_stop_reasons l queue reason);
            l = l\<lparr>tl_q_stop_reasons := (tl_q_stop_reasons l)(queue := (tl_q_stop_reasons l queue)(reason := n))\<rparr>;
            l = (if n = 0 then l\<lparr>tl_stop_reasons := (tl_stop_reasons l)(queue := tl_stop_reasons l queue - {reason})\<rparr> else l)
        in finish_wake queue reason l)"

text \<open>The variants for sets of queues walk over the bits below the number of queues in ascending order.\<close>

definition ieee80211_stop_queues_by_reason :: "u64 \<Rightarrow> queue_stop_reason \<Rightarrow> bool \<Rightarrow> tx_local \<Rightarrow> tx_local" where
  "ieee80211_stop_queues_by_reason queues reason refcounted l =
     fold (\<lambda>i. ieee80211_stop_queue_by_reason i reason refcounted) (filter (bit queues) [0..<tl_queues l]) l"

definition ieee80211_wake_queues_by_reason :: "u64 \<Rightarrow> queue_stop_reason \<Rightarrow> bool \<Rightarrow> tx_local \<Rightarrow> tx_local" where
  "ieee80211_wake_queues_by_reason queues reason refcounted l =
     fold (\<lambda>i. ieee80211_wake_queue_by_reason i reason refcounted) (filter (bit queues) [0..<tl_queues l]) l"

definition ieee80211_queue_stopped :: "nat \<Rightarrow> tx_local \<Rightarrow> bool" where
  "ieee80211_queue_stopped queue l =
     (if queue \<ge> tl_queues l then True else IEEE80211_QUEUE_STOP_REASON_DRIVER \<in> tl_stop_reasons l queue)"

section \<open>Pending frames\<close>

definition add_pending :: "nat \<Rightarrow> tx_skb list \<Rightarrow> tx_local \<Rightarrow> tx_local" where
  "add_pending queue skbs l = l\<lparr>tl_pending := (tl_pending l)(queue := tl_pending l queue @ skbs)\<rparr>"

definition ieee80211_add_pending_skb :: "tx_skb \<Rightarrow> tx_local \<Rightarrow> tx_local" where
  "ieee80211_add_pending_skb skb l =
     (if ts_vif skb = None then l\<lparr>tl_freed := tl_freed l @ [skb]\<rparr>
      else
        let queue = ts_hw_queue skb in
        ieee80211_wake_queue_by_reason queue IEEE80211_QUEUE_STOP_REASON_SKB_ADD False
          (add_pending queue [skb]
            (ieee80211_stop_queue_by_reason queue IEEE80211_QUEUE_STOP_REASON_SKB_ADD False l)))"

definition stop_and_add :: "tx_skb \<Rightarrow> tx_local \<Rightarrow> tx_local" where
  "stop_and_add skb l =
     (if ts_vif skb = None then l\<lparr>tl_freed := tl_freed l @ [skb]\<rparr>
      else add_pending (ts_hw_queue skb) [skb]
             (ieee80211_stop_queue_by_reason (ts_hw_queue skb) IEEE80211_QUEUE_STOP_REASON_SKB_ADD False l))"

definition ieee80211_add_pending_skbs :: "tx_skb list \<Rightarrow> tx_local \<Rightarrow> tx_local" where
  "ieee80211_add_pending_skbs skbs l =
     (let l = fold stop_and_add skbs l in
      fold (\<lambda>i. ieee80211_wake_queue_by_reason i IEEE80211_QUEUE_STOP_REASON_SKB_ADD False) [0..<tl_queues l] l)"

text \<open>
  \<open>ieee80211_tx_frags\<close>: the frames of one packet. The driver's \<open>tx\<close> operation takes the
  frame and may stop queues while it does (\<open>stops\<close>).
\<close>

definition drv_tx :: "(tx_skb \<Rightarrow> nat list) \<Rightarrow> tx_skb \<Rightarrow> tx_local \<Rightarrow> tx_local" where
  "drv_tx stops skb l =
     fold (\<lambda>q. ieee80211_stop_queue_by_reason q IEEE80211_QUEUE_STOP_REASON_DRIVER False) (stops skb)
       (l\<lparr>tl_sent := tl_sent l @ [skb]\<rparr>)"

fun ieee80211_tx_frags ::
  "(tx_skb \<Rightarrow> nat list) \<Rightarrow> nat option \<Rightarrow> bool \<Rightarrow> tx_skb list \<Rightarrow> tx_local \<Rightarrow> bool \<times> tx_local" where
  "ieee80211_tx_frags stops vif txpending [] l = (True, l)"
| "ieee80211_tx_frags stops vif txpending (skb # skbs) l =
     (let q = ts_hw_queue skb; held = tl_stop_reasons l q in
      if held \<noteq> {} \<or> (\<not> txpending \<and> tl_pending l q \<noteq> []) then
        if flag_set (ts_flags skb) IEEE80211_TX_INTFL_OFFCHAN_TX_OK then
          if held - {IEEE80211_QUEUE_STOP_REASON_OFFCHANNEL} \<noteq> {}
          then (True, l\<lparr>tl_freed := tl_freed l @ skb # skbs\<rparr>)
          else ieee80211_tx_frags stops vif txpending skbs (drv_tx stops (skb\<lparr>ts_vif := vif\<rparr>) l)
        else
          (False, l\<lparr>tl_pending := (tl_pending l)(q :=
             (if txpending then (skb # skbs) @ tl_pending l q else tl_pending l q @ skb # skbs))\<rparr>)
      else ieee80211_tx_frags stops vif txpending skbs (drv_tx stops (skb\<lparr>ts_vif := vif\<rparr>) l))"

text \<open>
  The tasklet \<open>ieee80211_tx_pending\<close>. A frame that still needs processing runs through the
  transmit handlers first: they are the parameter \<open>handlers\<close>, which gives the frames that
  come out of them (none when the frame is dropped or queued elsewhere).
\<close>

definition ieee80211_tx_pending_skb ::
  "(tx_skb \<Rightarrow> tx_skb list) \<Rightarrow> (tx_skb \<Rightarrow> nat list) \<Rightarrow> tx_skb \<Rightarrow> tx_local \<Rightarrow> bool \<times> tx_local" where
  "ieee80211_tx_pending_skb handlers stops skb l =
     ieee80211_tx_frags stops (ts_vif skb) True
       (if flag_set (ts_flags skb) IEEE80211_TX_INTFL_NEED_TXPROCESSING then handlers skb else [skb]) l"

lemma stop_queue_pending [simp]: "tl_pending (ieee80211_stop_queue_by_reason q r c l) = tl_pending l"
  by (simp add: ieee80211_stop_queue_by_reason_def Let_def)

lemma stop_queues_pending: "tl_pending (fold (\<lambda>q. ieee80211_stop_queue_by_reason q r c) qs l) = tl_pending l"
  by (induction qs arbitrary: l) simp_all

lemma drv_tx_pending [simp]: "tl_pending (drv_tx stops skb l) = tl_pending l"
  by (simp add: drv_tx_def stop_queues_pending)

lemma tx_frags_ok_pending:
  "ieee80211_tx_frags stops vif txpending skbs l = (True, l') \<Longrightarrow> tl_pending l' = tl_pending l"
  by (induction stops vif txpending skbs l rule: ieee80211_tx_frags.induct)
    (auto simp: Let_def split: if_splits)

function drain_queue ::
  "(tx_skb \<Rightarrow> tx_skb list) \<Rightarrow> (tx_skb \<Rightarrow> nat list) \<Rightarrow> nat \<Rightarrow> tx_local \<Rightarrow> tx_local" where
  "drain_queue handlers stops i l =
     (case tl_pending l i of
        [] \<Rightarrow> l
      | skb # rest \<Rightarrow>
          let l = l\<lparr>tl_pending := (tl_pending l)(i := rest)\<rparr> in
          if ts_vif skb = None then drain_queue handlers stops i (l\<lparr>tl_freed := tl_freed l @ [skb]\<rparr>)
          else (case ieee80211_tx_pending_skb handlers stops skb l of
                  (txok, l') \<Rightarrow> if txok then drain_queue handlers stops i l' else l'))"
  by pat_completeness auto

lemma tx_pending_skb_ok_pending:
  "ieee80211_tx_pending_skb handlers stops skb l = (True, l') \<Longrightarrow> tl_pending l' = tl_pending l"
  unfolding ieee80211_tx_pending_skb_def by (rule tx_frags_ok_pending)

termination drain_queue
  by (relation "measure (\<lambda>(handlers, stops, i, l). length (tl_pending l i))")
    (auto dest: tx_pending_skb_ok_pending [OF sym])

declare drain_queue.simps [simp del]

definition pending_round :: "(tx_skb \<Rightarrow> tx_skb list) \<Rightarrow> (tx_skb \<Rightarrow> nat list) \<Rightarrow> nat \<Rightarrow> tx_local \<Rightarrow> tx_local" where
  "pending_round handlers stops i l =
     (if tl_stop_reasons l i \<noteq> {} \<or> tl_pending l i = [] then l
      else let l = drain_queue handlers stops i l in
           if tl_pending l i = [] then ieee80211_propagate_queue_wake i l else l)"

definition ieee80211_tx_pending :: "(tx_skb \<Rightarrow> tx_skb list) \<Rightarrow> (tx_skb \<Rightarrow> nat list) \<Rightarrow> tx_local \<Rightarrow> tx_local" where
  "ieee80211_tx_pending handlers stops l =
     fold (pending_round handlers stops) [0..<tl_queues l] (l\<lparr>tl_tx_pending_scheduled := False\<rparr>)"

section \<open>Queues held by aggregation\<close>

text \<open>\<open>ieee80211_stop_queue_agg\<close> and \<open>ieee80211_wake_queue_agg\<close> each in two steps: the count, then the queue.\<close>

definition agg_count :: "int \<Rightarrow> nat \<Rightarrow> tx_local \<Rightarrow> tx_local" where
  "agg_count d queue l = l\<lparr>tl_agg_queue_stop := (tl_agg_queue_stop l)(queue := tl_agg_queue_stop l queue + d)\<rparr>"

definition ieee80211_stop_queue_agg :: "nat \<Rightarrow> tx_local \<Rightarrow> tx_local" where
  "ieee80211_stop_queue_agg queue l =
     (let l = agg_count 1 queue l in
      if tl_agg_queue_stop l queue = 1
      then ieee80211_stop_queue_by_reason queue IEEE80211_QUEUE_STOP_REASON_AGGREGATION False l else l)"

definition ieee80211_wake_queue_agg :: "nat \<Rightarrow> tx_local \<Rightarrow> tx_local" where
  "ieee80211_wake_queue_agg queue l =
     (let l = agg_count (- 1) queue l in
      if tl_agg_queue_stop l queue = 0
      then ieee80211_wake_queue_by_reason queue IEEE80211_QUEUE_STOP_REASON_AGGREGATION False l else l)"

end
