(* ===== verification/TxQueueInv.thy ===== *)
theory TxQueueInv
  imports TxQueue
begin

text \<open>
  The stopped and the woken queues over runs of events: the reference counts agree with the
  stop reasons, no subqueue of the network stack sleeps without a cause, and, unless the
  driver stops a queue while the tasklet hands it the last pending frame, no subqueue is
  awake whose queue is stopped.
\<close>

section \<open>The queues as a machine\<close>

datatype txq_event =
    StopQueue nat queue_stop_reason bool
  | WakeQueue nat queue_stop_reason bool
  | StopQueues u64 queue_stop_reason bool
  | WakeQueues u64 queue_stop_reason bool
  | AddPending tx_skb
  | AddPendings "tx_skb list"
  | Transmit "tx_skb \<Rightarrow> nat list" "nat option" "tx_skb list"
  | PendingTasklet "tx_skb \<Rightarrow> nat list"
  | WakeTxqsTasklet
  | AggStop nat
  | AggSplice nat "tx_skb list"
  | AggWake nat

fun txq_step :: "(tx_skb \<Rightarrow> tx_skb list) \<Rightarrow> tx_local \<Rightarrow> txq_event \<Rightarrow> tx_local" where
  "txq_step handlers l (StopQueue q r c) = ieee80211_stop_queue_by_reason q r c l"
| "txq_step handlers l (WakeQueue q r c) = ieee80211_wake_queue_by_reason q r c l"
| "txq_step handlers l (StopQueues qs r c) = ieee80211_stop_queues_by_reason qs r c l"
| "txq_step handlers l (WakeQueues qs r c) = ieee80211_wake_queues_by_reason qs r c l"
| "txq_step handlers l (AddPending skb) = ieee80211_add_pending_skb skb l"
| "txq_step handlers l (AddPendings skbs) = ieee80211_add_pending_skbs skbs l"
| "txq_step handlers l (Transmit stops vif skbs) = snd (ieee80211_tx_frags stops vif False skbs l)"
| "txq_step handlers l (PendingTasklet stops) = ieee80211_tx_pending handlers stops l"
| "txq_step handlers l WakeTxqsTasklet = ieee80211_wake_txqs l"
| "txq_step handlers l (AggStop q) = ieee80211_stop_queue_agg q l"
| "txq_step handlers l (AggSplice q skbs) = (if 0 < tl_agg_queue_stop l q then add_pending q skbs l else l)"
| "txq_step handlers l (AggWake q) = (if 0 < tl_agg_queue_stop l q then ieee80211_wake_queue_agg q l else l)"

section \<open>Invariants\<close>

definition held :: "tx_local \<Rightarrow> nat \<Rightarrow> bool" where
  "held l q \<longleftrightarrow> tl_stop_reasons l q \<noteq> {}"

definition waiting_frames :: "tx_local \<Rightarrow> nat \<Rightarrow> bool" where
  "waiting_frames l q \<longleftrightarrow> tl_pending l q \<noteq> []"

definition iface_wf :: "nat \<Rightarrow> nat \<Rightarrow> tx_sdata \<Rightarrow> bool" where
  "iface_wf n queues s \<longleftrightarrow> (\<forall>ac<n. vi_hw_queue s ac < queues) \<and>
     (vi_cab_queue s = IEEE80211_INVAL_HW_QUEUE \<or> vi_cab_queue s < queues)"

text \<open>The counts agree with the stop reasons, and only queues of the device are ever touched.\<close>

definition counts_ok :: "tx_local \<Rightarrow> bool" where
  "counts_ok l \<longleftrightarrow>
     tl_queues l \<le> 16 \<and>
     (\<forall>q r. 0 \<le> tl_q_stop_reasons l q r \<and> (r \<in> tl_stop_reasons l q \<longleftrightarrow> tl_q_stop_reasons l q r \<noteq> 0)) \<and>
     (\<forall>q. held l q \<or> waiting_frames l q \<longrightarrow> q < tl_queues l) \<and>
     (\<forall>s \<in> set (tl_interfaces l). iface_wf (n_acs l) (tl_queues l) s)"

text \<open>A subqueue sleeps only for a queue that is held or that has frames waiting.\<close>

definition iface_live :: "nat \<Rightarrow> (nat \<Rightarrow> bool) \<Rightarrow> (nat \<Rightarrow> bool) \<Rightarrow> tx_sdata \<Rightarrow> bool" where
  "iface_live n H W s \<longleftrightarrow> (vi_dev s \<longrightarrow> (\<forall>ac<n. vi_netdev_stopped s ac \<longrightarrow>
     H (vi_hw_queue s ac) \<or> H (vi_cab_queue s) \<or> W (vi_hw_queue s ac) \<or> W (vi_cab_queue s)))"

text \<open>A subqueue sleeps as long as its queue or the queue after beacons is held.\<close>

definition iface_safe :: "nat \<Rightarrow> (nat \<Rightarrow> bool) \<Rightarrow> tx_sdata \<Rightarrow> bool" where
  "iface_safe n H s \<longleftrightarrow> (vi_dev s \<longrightarrow> (\<forall>ac<n.
     H (vi_hw_queue s ac) \<or> H (vi_cab_queue s) \<longrightarrow> vi_netdev_stopped s ac))"

definition live :: "tx_local \<Rightarrow> bool" where
  "live l \<longleftrightarrow> (\<not> tl_wake_tx_queue l \<longrightarrow> (\<forall>s \<in> set (tl_interfaces l). iface_live (n_acs l) (held l) (waiting_frames l) s))"

definition safe :: "tx_local \<Rightarrow> bool" where
  "safe l \<longleftrightarrow> (\<not> tl_wake_tx_queue l \<longrightarrow> (\<forall>s \<in> set (tl_interfaces l). iface_safe (n_acs l) (held l) s))"

text \<open>Frames that wait for a free queue have the tasklet scheduled.\<close>

definition scheduled_ok :: "tx_local \<Rightarrow> bool" where
  "scheduled_ok l \<longleftrightarrow> (\<forall>q. waiting_frames l q \<longrightarrow> held l q \<or> tl_tx_pending_scheduled l)"

definition agg_ok :: "tx_local \<Rightarrow> bool" where
  "agg_ok l \<longleftrightarrow> (\<forall>q. 0 \<le> tl_agg_queue_stop l q \<and>
     (IEEE80211_QUEUE_STOP_REASON_AGGREGATION \<in> tl_stop_reasons l q \<longleftrightarrow> 0 < tl_agg_queue_stop l q))"

subsection \<open>Stopping\<close>

lemma stop_queue_simps [simp]:
  "tl_queues (ieee80211_stop_queue_by_reason q r c l) = tl_queues l"
  "tl_wake_tx_queue (ieee80211_stop_queue_by_reason q r c l) = tl_wake_tx_queue l"
  "tl_agg_queue_stop (ieee80211_stop_queue_by_reason q r c l) = tl_agg_queue_stop l"
  "tl_tx_pending_scheduled (ieee80211_stop_queue_by_reason q r c l) = tl_tx_pending_scheduled l"
  "n_acs (ieee80211_stop_queue_by_reason q r c l) = n_acs l"
  "tl_sent (ieee80211_stop_queue_by_reason q r c l) = tl_sent l"
  "tl_freed (ieee80211_stop_queue_by_reason q r c l) = tl_freed l"
  by (simp_all add: ieee80211_stop_queue_by_reason_def Let_def n_acs_def)

lemma stop_queue_reasons:
  "tl_stop_reasons (ieee80211_stop_queue_by_reason q r c l) =
     (if q < tl_queues l then (tl_stop_reasons l)(q := insert r (tl_stop_reasons l q)) else tl_stop_reasons l)"
  by (auto simp: ieee80211_stop_queue_by_reason_def Let_def fun_eq_iff)

lemma stop_queue_held:
  "held (ieee80211_stop_queue_by_reason q r c l) = (\<lambda>x. held l x \<or> x = q \<and> q < tl_queues l)"
  by (auto simp: held_def stop_queue_reasons fun_eq_iff)

lemma stop_queue_waiting [simp]: "waiting_frames (ieee80211_stop_queue_by_reason q r c l) = waiting_frames l"
  by (simp add: waiting_frames_def fun_eq_iff)

lemma stop_queue_interfaces:
  "tl_interfaces (ieee80211_stop_queue_by_reason q r c l) =
     (if q < tl_queues l \<and> r \<notin> tl_stop_reasons l q then map (stop_subqueues l q) (tl_interfaces l) else tl_interfaces l)"
  by (auto simp: ieee80211_stop_queue_by_reason_def Let_def stop_subqueues_def n_acs_def fun_eq_iff)

lemma stop_subqueues_wf [simp]: "iface_wf n k (stop_subqueues l q s) = iface_wf n k s"
  by (simp add: stop_subqueues_def iface_wf_def Let_def)

lemma count_stop_pos: "0 \<le> m \<Longrightarrow> 0 \<le> count_stop c m \<and> count_stop c m \<noteq> 0"
  by (simp add: count_stop_def)

lemma stop_queue_counts:
  assumes "counts_ok l" shows "counts_ok (ieee80211_stop_queue_by_reason q r c l)"
proof -
  have "tl_q_stop_reasons (ieee80211_stop_queue_by_reason q r c l) =
     (if q < tl_queues l then (tl_q_stop_reasons l)(q := (tl_q_stop_reasons l q)(r := count_stop c (tl_q_stop_reasons l q r)))
      else tl_q_stop_reasons l)"
    by (auto simp: ieee80211_stop_queue_by_reason_def Let_def)
  then show ?thesis
    using assms unfolding counts_ok_def
    by (auto simp: stop_queue_reasons stop_queue_held stop_queue_interfaces count_stop_pos)
qed

lemma stop_subqueues_live:
  "\<not> tl_wake_tx_queue l \<Longrightarrow> iface_live (n_acs l) H W s \<Longrightarrow> iface_live (n_acs l) (\<lambda>x. H x \<or> x = q) W (stop_subqueues l q s)"
  by (auto simp: iface_live_def stop_subqueues_def Let_def)

lemma stop_queue_live:
  assumes "live l" shows "live (ieee80211_stop_queue_by_reason q r c l)"
  using assms stop_subqueues_live [of l "held l" "waiting_frames l"]
  by (auto simp: live_def stop_queue_held stop_queue_interfaces iface_live_def)

lemma stop_subqueues_safe:
  "\<not> tl_wake_tx_queue l \<Longrightarrow> iface_safe (n_acs l) H s \<Longrightarrow> iface_safe (n_acs l) (\<lambda>x. H x \<or> x = q) (stop_subqueues l q s)"
  by (auto simp: iface_safe_def stop_subqueues_def Let_def)

lemma stop_queue_safe:
  assumes "safe l" shows "safe (ieee80211_stop_queue_by_reason q r c l)"
proof -
  have "held l q" if "r \<in> tl_stop_reasons l q" using that by (auto simp: held_def)
  then show ?thesis
    using assms stop_subqueues_safe [of l "held l"]
    by (auto simp: safe_def stop_queue_held stop_queue_interfaces iface_safe_def)
qed

lemma stop_queue_scheduled: "scheduled_ok l \<Longrightarrow> scheduled_ok (ieee80211_stop_queue_by_reason q r c l)"
  by (auto simp: scheduled_ok_def stop_queue_held)

lemma stop_queue_agg:
  "agg_ok l \<Longrightarrow> r \<noteq> IEEE80211_QUEUE_STOP_REASON_AGGREGATION \<Longrightarrow> agg_ok (ieee80211_stop_queue_by_reason q r c l)"
  by (auto simp: agg_ok_def stop_queue_reasons)

subsection \<open>Waking\<close>

text \<open>The wake-up of the driver's queues changes nothing of the network stack's.\<close>

lemma wake_vif_txqs_same:
  "fst (wake_vif_txqs ac s) = s\<lparr>vi_txqs_stopped := (vi_txqs_stopped s)(ac := False),
     vi_sta_txqs := vi_sta_txqs (fst (wake_vif_txqs ac s)), vi_txq := vi_txq (fst (wake_vif_txqs ac s))\<rparr>"
  by (simp add: wake_vif_txqs_def Let_def split: option.split)

definition same_net :: "tx_sdata \<Rightarrow> tx_sdata \<Rightarrow> bool" where
  "same_net s t \<longleftrightarrow> vi_dev t = vi_dev s \<and> vi_hw_queue t = vi_hw_queue s \<and> vi_cab_queue t = vi_cab_queue s \<and>
     vi_netdev_stopped t = vi_netdev_stopped s"

lemma wake_vif_txqs_net: "same_net s (fst (wake_vif_txqs ac s))"
  by (subst wake_vif_txqs_same) (simp add: same_net_def)

lemma wake_iface_txqs_net: "same_net s (fst (wake_iface_txqs n q s))"
proof -
  have "same_net s (fst (fold (\<lambda>ac (sdata, woken).
         if vi_hw_queue sdata ac = q \<or> vi_cab_queue sdata = q
         then (case wake_vif_txqs ac sdata of (sdata', woken') \<Rightarrow> (sdata', woken @ woken'))
         else (sdata, woken)) acs (t, w)))" if "same_net s t" for acs t w
    using that
  proof (induction acs arbitrary: t w)
    case (Cons ac acs)
    have "same_net s (fst (wake_vif_txqs ac t))"
      using wake_vif_txqs_net [of t ac] Cons.prems by (simp add: same_net_def)
    then show ?case using Cons by (auto split: prod.split)
  qed simp
  then show ?thesis by (simp add: wake_iface_txqs_def same_net_def)
qed

lemma same_net_iface:
  assumes "same_net s t"
  shows "iface_wf n k t = iface_wf n k s" "iface_live n H W t = iface_live n H W s" "iface_safe n H t = iface_safe n H s"
  using assms by (simp_all add: same_net_def iface_wf_def iface_live_def iface_safe_def)

lemmas wake_iface_txqs_iface [simp] = same_net_iface [OF wake_iface_txqs_net]

text \<open>Everything the invariants look at survives.\<close>

definition same_queues :: "tx_local \<Rightarrow> tx_local \<Rightarrow> bool" where
  "same_queues l m \<longleftrightarrow> tl_queues m = tl_queues l \<and> tl_wake_tx_queue m = tl_wake_tx_queue l \<and>
     tl_stop_reasons m = tl_stop_reasons l \<and> tl_q_stop_reasons m = tl_q_stop_reasons l \<and>
     tl_pending m = tl_pending l \<and> tl_agg_queue_stop m = tl_agg_queue_stop l \<and>
     list_all2 same_net (tl_interfaces l) (tl_interfaces m) \<and>
     tl_tx_pending_scheduled m = tl_tx_pending_scheduled l \<and> tl_sent m = tl_sent l \<and> tl_freed m = tl_freed l"

lemma same_queues_refl [simp]: "same_queues l l"
  by (simp add: same_queues_def list.rel_refl same_net_def)

lemma same_queues_trans: "same_queues l m \<Longrightarrow> same_queues m k \<Longrightarrow> same_queues l k"
  unfolding same_queues_def by (auto intro: list_all2_trans [of same_net same_net same_net] simp: same_net_def)

lemma list_all2_ball:
  "list_all2 R xs ys \<Longrightarrow> (\<And>x y. R x y \<Longrightarrow> P y = P x) \<Longrightarrow> (\<forall>y \<in> set ys. P y) = (\<forall>x \<in> set xs. P x)"
  by (induction rule: list_all2_induct) auto

lemma same_queues_held: "same_queues l m \<Longrightarrow> held m = held l \<and> waiting_frames m = waiting_frames l \<and> n_acs m = n_acs l"
  by (simp add: same_queues_def held_def waiting_frames_def n_acs_def fun_eq_iff)

lemma same_queues_inv:
  assumes "same_queues l m"
  shows "counts_ok m = counts_ok l" "live m = live l" "safe m = safe l" "scheduled_ok m = scheduled_ok l" "agg_ok m = agg_ok l"
proof -
  have i: "list_all2 same_net (tl_interfaces l) (tl_interfaces m)" using assms by (simp add: same_queues_def)
  have f: "tl_queues m = tl_queues l" "tl_wake_tx_queue m = tl_wake_tx_queue l" "tl_stop_reasons m = tl_stop_reasons l"
    "tl_q_stop_reasons m = tl_q_stop_reasons l" "tl_agg_queue_stop m = tl_agg_queue_stop l"
    "tl_tx_pending_scheduled m = tl_tx_pending_scheduled l"
    using assms by (simp_all add: same_queues_def)
  note h = same_queues_held [OF assms]
  show "counts_ok m = counts_ok l" unfolding counts_ok_def using f h list_all2_ball [OF i same_net_iface(1)] by simp
  show "live m = live l" unfolding live_def using f h list_all2_ball [OF i same_net_iface(2)] by simp
  show "safe m = safe l" unfolding safe_def using f h list_all2_ball [OF i same_net_iface(3)] by simp
  show "scheduled_ok m = scheduled_ok l" unfolding scheduled_ok_def using f h by simp
  show "agg_ok m = agg_ok l" unfolding agg_ok_def using f by simp
qed

lemma wake_txqs_same: "same_queues l (wake_txqs l)"
proof -
  have "same_queues l (wake_queue_txqs q l)" for q l
    by (simp add: wake_queue_txqs_def same_queues_def list_all2_map2 list.rel_refl_strong wake_iface_txqs_net)
      (simp add: same_net_def list.rel_refl)
  then have "same_queues l m \<Longrightarrow> same_queues l (fold wake_queue_txqs qs m)" for qs m
    by (induction qs arbitrary: m) (simp_all, meson same_queues_trans)
  then show ?thesis by (simp add: wake_txqs_def)
qed

text \<open>A wake-up first takes the reason away and then tells those who sleep.\<close>

definition drop_reason :: "nat \<Rightarrow> queue_stop_reason \<Rightarrow> bool \<Rightarrow> tx_local \<Rightarrow> tx_local" where
  "drop_reason q r c l =
     (let n = count_wake c (tl_q_stop_reasons l q r);
          l = l\<lparr>tl_q_stop_reasons := (tl_q_stop_reasons l)(q := (tl_q_stop_reasons l q)(r := n))\<rparr>
      in if n = 0 then l\<lparr>tl_stop_reasons := (tl_stop_reasons l)(q := tl_stop_reasons l q - {r})\<rparr> else l)"

lemma wake_queue_split:
  "ieee80211_wake_queue_by_reason q r c l =
     (if q < tl_queues l \<and> r \<in> tl_stop_reasons l q then finish_wake q r (drop_reason q r c l) else l)"
  by (simp add: ieee80211_wake_queue_by_reason_def drop_reason_def Let_def)

lemma drop_reason_simps [simp]:
  "tl_queues (drop_reason q r c l) = tl_queues l"
  "tl_wake_tx_queue (drop_reason q r c l) = tl_wake_tx_queue l"
  "tl_pending (drop_reason q r c l) = tl_pending l"
  "tl_agg_queue_stop (drop_reason q r c l) = tl_agg_queue_stop l"
  "tl_interfaces (drop_reason q r c l) = tl_interfaces l"
  "tl_tx_pending_scheduled (drop_reason q r c l) = tl_tx_pending_scheduled l"
  "n_acs (drop_reason q r c l) = n_acs l"
  "waiting_frames (drop_reason q r c l) = waiting_frames l"
  by (simp_all add: drop_reason_def Let_def n_acs_def waiting_frames_def fun_eq_iff)

lemma drop_reason_held:
  "held (drop_reason q r c l) x \<Longrightarrow> held l x" "x \<noteq> q \<Longrightarrow> held (drop_reason q r c l) x = held l x"
  by (auto simp: drop_reason_def Let_def held_def split: if_splits)

lemma drop_reason_counts: assumes "counts_ok l" shows "counts_ok (drop_reason q r c l)"
proof -
  let ?m = "drop_reason q r c l"
  have "0 \<le> tl_q_stop_reasons ?m q' r' \<and> (r' \<in> tl_stop_reasons ?m q' \<longleftrightarrow> tl_q_stop_reasons ?m q' r' \<noteq> 0)
     \<or> q' = q \<and> r' = r \<and> r \<notin> tl_stop_reasons l q" for q' r'
    using assms by (auto simp: counts_ok_def drop_reason_def Let_def count_wake_def)
  moreover have "0 \<le> tl_q_stop_reasons ?m q r \<and> (r \<in> tl_stop_reasons ?m q \<longleftrightarrow> tl_q_stop_reasons ?m q r \<noteq> 0)"
    if "r \<notin> tl_stop_reasons l q"
    using assms that by (auto simp: counts_ok_def drop_reason_def Let_def count_wake_def)
  ultimately have "0 \<le> tl_q_stop_reasons ?m q' r' \<and> (r' \<in> tl_stop_reasons ?m q' \<longleftrightarrow> tl_q_stop_reasons ?m q' r' \<noteq> 0)" for q' r'
    by blast
  moreover have "held ?m x \<or> waiting_frames ?m x \<Longrightarrow> x < tl_queues l" for x
    using assms drop_reason_held(1) [of q r c l x] by (auto simp: counts_ok_def)
  ultimately show ?thesis using assms by (simp add: counts_ok_def)
qed

definition live_but :: "nat \<Rightarrow> tx_local \<Rightarrow> bool" where
  "live_but q l \<longleftrightarrow> (\<not> tl_wake_tx_queue l \<longrightarrow>
     (\<forall>s \<in> set (tl_interfaces l). iface_live (n_acs l) (\<lambda>x. held l x \<or> x = q) (waiting_frames l) s))"

lemma iface_live_mono:
  "iface_live n H W s \<Longrightarrow> (\<And>x. H x \<Longrightarrow> H' x \<or> W' x) \<Longrightarrow> (\<And>x. W x \<Longrightarrow> H' x \<or> W' x) \<Longrightarrow> iface_live n H' W' s"
  unfolding iface_live_def by meson

lemma drop_reason_live_but: "live l \<Longrightarrow> live_but q (drop_reason q r c l)"
  using drop_reason_held
  by (auto simp: live_def live_but_def elim!: iface_live_mono dest!: bspec)

lemma live_but_held: "held l q \<or> waiting_frames l q \<Longrightarrow> live_but q l \<Longrightarrow> live l"
  by (auto simp: live_def live_but_def elim!: iface_live_mono dest!: bspec)

lemma wake_subqueues_live:
  assumes "iface_live (n_acs l) (\<lambda>x. held l x \<or> x = q) (waiting_frames l) s" "\<not> waiting_frames l q"
  shows "iface_live (n_acs l) (held l) (waiting_frames l) (wake_subqueues l q s)"
  using assms by (auto simp: iface_live_def wake_subqueues_def held_def waiting_frames_def Let_def)

lemma propagate_simps [simp]:
  "tl_queues (ieee80211_propagate_queue_wake q l) = tl_queues l"
  "tl_wake_tx_queue (ieee80211_propagate_queue_wake q l) = tl_wake_tx_queue l"
  "tl_stop_reasons (ieee80211_propagate_queue_wake q l) = tl_stop_reasons l"
  "tl_q_stop_reasons (ieee80211_propagate_queue_wake q l) = tl_q_stop_reasons l"
  "tl_pending (ieee80211_propagate_queue_wake q l) = tl_pending l"
  "tl_agg_queue_stop (ieee80211_propagate_queue_wake q l) = tl_agg_queue_stop l"
  "tl_tx_pending_scheduled (ieee80211_propagate_queue_wake q l) = tl_tx_pending_scheduled l"
  "tl_sent (ieee80211_propagate_queue_wake q l) = tl_sent l"
  "tl_freed (ieee80211_propagate_queue_wake q l) = tl_freed l"
  "n_acs (ieee80211_propagate_queue_wake q l) = n_acs l"
  "held (ieee80211_propagate_queue_wake q l) = held l"
  "waiting_frames (ieee80211_propagate_queue_wake q l) = waiting_frames l"
  by (simp_all add: ieee80211_propagate_queue_wake_def n_acs_def held_def waiting_frames_def fun_eq_iff)

lemma propagate_live: "live_but q l \<Longrightarrow> \<not> waiting_frames l q \<Longrightarrow> live (ieee80211_propagate_queue_wake q l)"
  using wake_subqueues_live by (auto simp: live_def live_but_def ieee80211_propagate_queue_wake_def
      held_def [abs_def] waiting_frames_def [abs_def] n_acs_def)

lemma wake_subqueues_wf [simp]: "iface_wf n k (wake_subqueues l q s) = iface_wf n k s"
  by (simp add: wake_subqueues_def iface_wf_def)

lemma propagate_counts: "counts_ok l \<Longrightarrow> counts_ok (ieee80211_propagate_queue_wake q l)"
  unfolding counts_ok_def by (auto simp: ieee80211_propagate_queue_wake_def held_def waiting_frames_def n_acs_def)

lemma inval_not_held: "counts_ok l \<Longrightarrow> \<not> held l IEEE80211_INVAL_HW_QUEUE \<and> \<not> waiting_frames l IEEE80211_INVAL_HW_QUEUE"
  by (force simp: counts_ok_def IEEE80211_INVAL_HW_QUEUE_def)

lemma wake_subqueues_safe:
  assumes "iface_safe (n_acs l) (held l) s" "counts_ok l" "\<not> held l q"
  shows "iface_safe (n_acs l) (held l) (wake_subqueues l q s)"
  using assms inval_not_held [OF assms(2)]
  by (auto simp: iface_safe_def wake_subqueues_def Let_def held_def)

lemma propagate_safe: "safe l \<Longrightarrow> counts_ok l \<Longrightarrow> \<not> held l q \<Longrightarrow> safe (ieee80211_propagate_queue_wake q l)"
  using wake_subqueues_safe
  by (auto simp: safe_def ieee80211_propagate_queue_wake_def held_def [abs_def] n_acs_def)

lemma schedule_simps [simp]:
  "held (l\<lparr>tl_tx_pending_scheduled := b\<rparr>) = held l"
  "waiting_frames (l\<lparr>tl_tx_pending_scheduled := b\<rparr>) = waiting_frames l"
  "n_acs (l\<lparr>tl_tx_pending_scheduled := b\<rparr>) = n_acs l"
  by (simp_all add: held_def waiting_frames_def n_acs_def fun_eq_iff)

lemma schedule_inv [simp]:
  "counts_ok (l\<lparr>tl_tx_pending_scheduled := b\<rparr>) = counts_ok l"
  "live (l\<lparr>tl_tx_pending_scheduled := b\<rparr>) = live l"
  "safe (l\<lparr>tl_tx_pending_scheduled := b\<rparr>) = safe l"
  "agg_ok (l\<lparr>tl_tx_pending_scheduled := b\<rparr>) = agg_ok l"
  by (simp_all add: counts_ok_def live_def safe_def agg_ok_def)

lemma finish_wake_same:
  assumes "\<not> held l q"
  shows "same_queues (if waiting_frames l q then l\<lparr>tl_tx_pending_scheduled := True\<rparr>
     else ieee80211_propagate_queue_wake q l) (finish_wake q r l)"
proof -
  define m where "m = (if waiting_frames l q then l\<lparr>tl_tx_pending_scheduled := True\<rparr> else ieee80211_propagate_queue_wake q l)"
  have "finish_wake q r l = m \<or> finish_wake q r l = m\<lparr>tl_wake_txqs_scheduled := True\<rparr> \<or> finish_wake q r l = wake_txqs m"
    using assms by (auto simp: finish_wake_def Let_def held_def waiting_frames_def m_def)
  moreover have "same_queues m (m\<lparr>tl_wake_txqs_scheduled := True\<rparr>)"
    by (simp add: same_queues_def list.rel_refl same_net_def)
  ultimately show ?thesis unfolding m_def [symmetric] using wake_txqs_same [of m] by auto
qed

lemma finish_wake_held: "held l q \<Longrightarrow> finish_wake q r l = l"
  by (simp add: finish_wake_def held_def)

lemma wake_queue_cases:
  obtains (same) "ieee80211_wake_queue_by_reason q r c l = l" "\<not> (q < tl_queues l \<and> r \<in> tl_stop_reasons l q)"
  | (held) "ieee80211_wake_queue_by_reason q r c l = drop_reason q r c l" "held (drop_reason q r c l) q"
      "q < tl_queues l \<and> r \<in> tl_stop_reasons l q"
  | (free) "\<not> held (drop_reason q r c l) q"
      "same_queues (if waiting_frames l q then (drop_reason q r c l)\<lparr>tl_tx_pending_scheduled := True\<rparr>
         else ieee80211_propagate_queue_wake q (drop_reason q r c l)) (ieee80211_wake_queue_by_reason q r c l)"
      "q < tl_queues l \<and> r \<in> tl_stop_reasons l q"
proof (cases "q < tl_queues l \<and> r \<in> tl_stop_reasons l q")
  case True
  then show ?thesis
    using that(2,3) finish_wake_same [of "drop_reason q r c l" q r] finish_wake_held [of "drop_reason q r c l" q r]
    by (cases "held (drop_reason q r c l) q") (simp_all add: wake_queue_split)
next
  case False
  then show ?thesis using that(1) by (simp add: wake_queue_split)
qed

lemma wake_queue_simps [simp]:
  "tl_queues (ieee80211_wake_queue_by_reason q r c l) = tl_queues l"
  "tl_pending (ieee80211_wake_queue_by_reason q r c l) = tl_pending l"
  "tl_agg_queue_stop (ieee80211_wake_queue_by_reason q r c l) = tl_agg_queue_stop l"
  by (cases rule: wake_queue_cases [of q r c l]; auto simp: same_queues_def split: if_splits)+

lemma wake_queue_counts: "counts_ok l \<Longrightarrow> counts_ok (ieee80211_wake_queue_by_reason q r c l)"
  by (cases rule: wake_queue_cases [of q r c l])
    (auto simp: drop_reason_counts propagate_counts same_queues_inv(1) split: if_splits)

lemma wake_queue_live: "live l \<Longrightarrow> live (ieee80211_wake_queue_by_reason q r c l)"
  using drop_reason_live_but [of l q r c]
  by (cases rule: wake_queue_cases [of q r c l])
    (auto simp: same_queues_inv(2) propagate_live intro: live_but_held split: if_splits)

lemma drop_reason_safe: "safe l \<Longrightarrow> safe (drop_reason q r c l)"
  using drop_reason_held(1) by (auto simp: safe_def iface_safe_def)

lemma wake_queue_safe: "safe l \<Longrightarrow> counts_ok l \<Longrightarrow> safe (ieee80211_wake_queue_by_reason q r c l)"
  by (cases rule: wake_queue_cases [of q r c l])
    (auto simp: drop_reason_safe drop_reason_counts propagate_safe same_queues_inv(3) split: if_splits)

text \<open>Frames wait only for queues that are held, or that the tasklet will see, or that it is about to see.\<close>

definition scheduled_but :: "nat set \<Rightarrow> tx_local \<Rightarrow> bool" where
  "scheduled_but S l \<longleftrightarrow> (\<forall>q. waiting_frames l q \<longrightarrow> held l q \<or> tl_tx_pending_scheduled l \<or> q \<in> S)"

lemma scheduled_but_empty: "scheduled_ok l = scheduled_but {} l"
  by (simp add: scheduled_ok_def scheduled_but_def)

lemma stop_queue_scheduled_but: "scheduled_but S l \<Longrightarrow> scheduled_but S (ieee80211_stop_queue_by_reason q r c l)"
  by (auto simp: scheduled_but_def stop_queue_held)

lemma wake_queue_scheduled: "scheduled_ok l \<Longrightarrow> scheduled_ok (ieee80211_wake_queue_by_reason q r c l)"
proof (cases rule: wake_queue_cases [of q r c l])
  case held
  assume "scheduled_ok l"
  then have "waiting_frames l x \<Longrightarrow> held (drop_reason q r c l) x \<or> tl_tx_pending_scheduled l" for x
    using drop_reason_held(2) [of x q r c l] held(2) by (cases "x = q") (auto simp: scheduled_ok_def)
  then show ?thesis by (simp add: held(1) scheduled_ok_def)
next
  case free
  assume s: "scheduled_ok l"
  have "waiting_frames l x \<Longrightarrow> x \<noteq> q \<Longrightarrow> held (drop_reason q r c l) x \<or> tl_tx_pending_scheduled l" for x
    using s drop_reason_held(2) [of x q r c l] by (auto simp: scheduled_ok_def)
  then have "scheduled_ok (if waiting_frames l q then (drop_reason q r c l)\<lparr>tl_tx_pending_scheduled := True\<rparr>
      else ieee80211_propagate_queue_wake q (drop_reason q r c l))"
    by (auto simp: scheduled_ok_def)
  then show ?thesis using same_queues_inv(4) [OF free(2)] by simp
qed simp

lemma wake_queue_reasons:
  "tl_stop_reasons (ieee80211_wake_queue_by_reason q r c l) =
     (if q < tl_queues l \<and> r \<in> tl_stop_reasons l q then tl_stop_reasons (drop_reason q r c l) else tl_stop_reasons l)"
  by (cases rule: wake_queue_cases [of q r c l]) (auto simp: same_queues_def split: if_splits)

lemma wake_queue_agg_other:
  "agg_ok l \<Longrightarrow> r \<noteq> IEEE80211_QUEUE_STOP_REASON_AGGREGATION \<Longrightarrow> agg_ok (ieee80211_wake_queue_by_reason q r c l)"
  by (auto simp: agg_ok_def wake_queue_reasons drop_reason_def Let_def)

subsection \<open>Queues held by aggregation\<close>

lemma agg_count_simps [simp]:
  "tl_queues (agg_count d q l) = tl_queues l" "tl_pending (agg_count d q l) = tl_pending l"
  "held (agg_count d q l) = held l" "waiting_frames (agg_count d q l) = waiting_frames l" "n_acs (agg_count d q l) = n_acs l"
  by (simp_all add: agg_count_def held_def waiting_frames_def n_acs_def fun_eq_iff)

lemma agg_count_inv [simp]:
  "counts_ok (agg_count d q l) = counts_ok l" "live (agg_count d q l) = live l" "safe (agg_count d q l) = safe l"
  "scheduled_ok (agg_count d q l) = scheduled_ok l" "tl_stop_reasons (agg_count d q l) = tl_stop_reasons l"
  by (simp_all add: counts_ok_def live_def safe_def scheduled_ok_def) (simp_all add: agg_count_def)

lemma stop_agg_inv:
  "counts_ok l \<Longrightarrow> counts_ok (ieee80211_stop_queue_agg q l)" "live l \<Longrightarrow> live (ieee80211_stop_queue_agg q l)"
  "safe l \<Longrightarrow> safe (ieee80211_stop_queue_agg q l)" "scheduled_ok l \<Longrightarrow> scheduled_ok (ieee80211_stop_queue_agg q l)"
  by (simp_all add: ieee80211_stop_queue_agg_def Let_def stop_queue_counts stop_queue_live stop_queue_safe stop_queue_scheduled)

lemma wake_agg_inv:
  "counts_ok l \<Longrightarrow> counts_ok (ieee80211_wake_queue_agg q l)" "live l \<Longrightarrow> live (ieee80211_wake_queue_agg q l)"
  "safe l \<Longrightarrow> counts_ok l \<Longrightarrow> safe (ieee80211_wake_queue_agg q l)" "scheduled_ok l \<Longrightarrow> scheduled_ok (ieee80211_wake_queue_agg q l)"
  by (simp_all add: ieee80211_wake_queue_agg_def Let_def wake_queue_counts wake_queue_live wake_queue_safe wake_queue_scheduled)

lemma agg_simps [simp]:
  "tl_queues (ieee80211_stop_queue_agg q l) = tl_queues l" "tl_queues (ieee80211_wake_queue_agg q l) = tl_queues l"
  "tl_pending (ieee80211_stop_queue_agg q l) = tl_pending l" "tl_pending (ieee80211_wake_queue_agg q l) = tl_pending l"
  by (simp_all add: ieee80211_stop_queue_agg_def ieee80211_wake_queue_agg_def Let_def)

lemma stop_agg_ok:
  assumes "agg_ok l" "q < tl_queues l" shows "agg_ok (ieee80211_stop_queue_agg q l)"
proof -
  have n: "0 \<le> tl_agg_queue_stop l q"
    "IEEE80211_QUEUE_STOP_REASON_AGGREGATION \<in> tl_stop_reasons l q \<longleftrightarrow> 0 < tl_agg_queue_stop l q"
    using assms by (simp_all add: agg_ok_def)
  have c: "tl_agg_queue_stop (ieee80211_stop_queue_agg q l) = (tl_agg_queue_stop l)(q := tl_agg_queue_stop l q + 1)"
    by (simp add: ieee80211_stop_queue_agg_def Let_def agg_count_def)
  have r: "tl_stop_reasons (ieee80211_stop_queue_agg q l) = (if tl_agg_queue_stop l q = 0
     then (tl_stop_reasons l)(q := insert IEEE80211_QUEUE_STOP_REASON_AGGREGATION (tl_stop_reasons l q)) else tl_stop_reasons l)"
    using assms(2) by (simp add: ieee80211_stop_queue_agg_def Let_def agg_count_def stop_queue_reasons)
  show ?thesis using assms(1) n by (auto simp: agg_ok_def c r order.order_iff_strict)
qed

lemma wake_agg_ok:
  assumes "agg_ok l" "counts_ok l" "0 < tl_agg_queue_stop l q" shows "agg_ok (ieee80211_wake_queue_agg q l)"
proof -
  have "IEEE80211_QUEUE_STOP_REASON_AGGREGATION \<in> tl_stop_reasons l q" using assms by (simp add: agg_ok_def)
  then have "q < tl_queues l" using assms(2) by (auto simp: counts_ok_def held_def)
  then show ?thesis
    using assms by (auto simp: agg_ok_def ieee80211_wake_queue_agg_def Let_def agg_count_def wake_queue_reasons
        drop_reason_def count_wake_def)
qed

subsection \<open>Pending frames\<close>

text \<open>What the transmit handlers make of a frame that waits, and whether it then stays in its queue.\<close>

definition processed :: "(tx_skb \<Rightarrow> tx_skb list) \<Rightarrow> tx_skb \<Rightarrow> tx_skb list" where
  "processed handlers skb =
     (if flag_set (ts_flags skb) IEEE80211_TX_INTFL_NEED_TXPROCESSING then handlers skb else [skb])"

definition ready_for :: "nat \<Rightarrow> tx_skb \<Rightarrow> bool" where
  "ready_for q skb \<longleftrightarrow> ts_hw_queue skb = q \<and> \<not> flag_set (ts_flags skb) IEEE80211_TX_INTFL_NEED_TXPROCESSING"

definition routed :: "(tx_skb \<Rightarrow> tx_skb list) \<Rightarrow> nat \<Rightarrow> tx_skb \<Rightarrow> bool" where
  "routed handlers q skb \<longleftrightarrow> list_all (ready_for q) (processed handlers skb)"

definition routed_ok :: "(tx_skb \<Rightarrow> tx_skb list) \<Rightarrow> tx_local \<Rightarrow> bool" where
  "routed_ok handlers l \<longleftrightarrow> (\<forall>q. list_all (routed handlers q) (tl_pending l q))"

lemma ready_routed: "ready_for q skb \<Longrightarrow> routed handlers q skb"
  by (simp add: routed_def processed_def ready_for_def)

lemma routed_pending: "tl_pending m = tl_pending l \<Longrightarrow> routed_ok handlers m = routed_ok handlers l"
  by (simp add: routed_ok_def)

text \<open>Replacing the frames that wait for one queue.\<close>

abbreviation set_pending :: "nat \<Rightarrow> tx_skb list \<Rightarrow> tx_local \<Rightarrow> tx_local" where
  "set_pending q skbs l \<equiv> l\<lparr>tl_pending := (tl_pending l)(q := skbs)\<rparr>"

lemma set_pending_simps [simp]:
  "held (set_pending q skbs l) = held l" "n_acs (set_pending q skbs l) = n_acs l"
  "waiting_frames (set_pending q skbs l) = (waiting_frames l)(q := skbs \<noteq> [])"
  by (simp_all add: held_def waiting_frames_def n_acs_def fun_eq_iff)

lemma set_pending_inv [simp]:
  "safe (set_pending q skbs l) = safe l" "agg_ok (set_pending q skbs l) = agg_ok l"
  by (simp_all add: safe_def agg_ok_def)

lemma set_pending_counts: "counts_ok l \<Longrightarrow> skbs = [] \<or> q < tl_queues l \<Longrightarrow> counts_ok (set_pending q skbs l)"
  by (auto simp: counts_ok_def)

lemma set_pending_live: "live l \<Longrightarrow> skbs \<noteq> [] \<or> \<not> waiting_frames l q \<Longrightarrow> live (set_pending q skbs l)"
  by (auto simp: live_def elim!: iface_live_mono dest!: bspec split: if_splits)

lemma set_pending_live_but:
  "live_but x l \<Longrightarrow> skbs \<noteq> [] \<or> q = x \<Longrightarrow> live_but x (set_pending q skbs l)"
  by (auto simp: live_but_def elim!: iface_live_mono dest!: bspec split: if_splits)

lemma set_pending_scheduled_but:
  "scheduled_but S l \<Longrightarrow> skbs = [] \<or> held l q \<or> tl_tx_pending_scheduled l \<or> q \<in> S \<or> waiting_frames l q \<Longrightarrow>
     scheduled_but S (set_pending q skbs l)"
  by (auto simp: scheduled_but_def)

text \<open>Giving a frame to the driver, which may stop queues.\<close>

definition stopped_more :: "tx_local \<Rightarrow> tx_local \<Rightarrow> bool" where
  "stopped_more l m \<longleftrightarrow> tl_queues m = tl_queues l \<and> tl_pending m = tl_pending l \<and>
     tl_tx_pending_scheduled m = tl_tx_pending_scheduled l \<and> (\<forall>q. held l q \<longrightarrow> held m q) \<and>
     (counts_ok l \<longrightarrow> counts_ok m) \<and> (\<forall>q. live_but q l \<longrightarrow> live_but q m) \<and> (live l \<longrightarrow> live m) \<and>
     (safe l \<longrightarrow> safe m) \<and> (agg_ok l \<longrightarrow> agg_ok m)"

lemma stopped_more_refl [simp]: "stopped_more l l"
  by (simp add: stopped_more_def)

lemma stopped_more_trans: "stopped_more l m \<Longrightarrow> stopped_more m k \<Longrightarrow> stopped_more l k"
  unfolding stopped_more_def by auto

lemma stop_queue_live_but: "live_but x l \<Longrightarrow> live_but x (ieee80211_stop_queue_by_reason q r c l)"
proof -
  assume a: "live_but x l"
  have "iface_live (n_acs l) (\<lambda>y. (held l y \<or> y = q) \<or> y = x) (waiting_frames l) (stop_subqueues l q s)"
    if "\<not> tl_wake_tx_queue l" "s \<in> set (tl_interfaces l)" for s
    using stop_subqueues_live [OF that(1), of "\<lambda>y. held l y \<or> y = x" "waiting_frames l" s q] a that
    by (auto simp: live_but_def elim!: iface_live_mono)
  then show ?thesis
    using a by (auto simp: live_but_def stop_queue_held stop_queue_interfaces elim!: iface_live_mono dest!: bspec)
qed

lemma stop_queue_more:
  "r \<noteq> IEEE80211_QUEUE_STOP_REASON_AGGREGATION \<Longrightarrow> stopped_more l (ieee80211_stop_queue_by_reason q r c l)"
  by (simp add: stopped_more_def stop_queue_held stop_queue_counts stop_queue_live stop_queue_safe stop_queue_agg stop_queue_live_but)

lemma stop_queues_more:
  "r \<noteq> IEEE80211_QUEUE_STOP_REASON_AGGREGATION \<Longrightarrow> stopped_more l (fold (\<lambda>q. ieee80211_stop_queue_by_reason q r c) qs l)"
proof (induction qs arbitrary: l)
  case (Cons q qs)
  show ?case using stopped_more_trans [OF stop_queue_more [OF Cons.prems] Cons.IH [OF Cons.prems]] by simp
qed simp

lemma record_only [simp]:
  "stopped_more l (l\<lparr>tl_sent := xs\<rparr>)" "stopped_more l (l\<lparr>tl_freed := ys\<rparr>)"
  by (simp_all add: stopped_more_def counts_ok_def live_def live_but_def safe_def agg_ok_def held_def [abs_def]
      waiting_frames_def [abs_def] n_acs_def)

lemma drv_tx_more: "stopped_more l (drv_tx stops skb l)"
  unfolding drv_tx_def by (rule stopped_more_trans [OF record_only(1) stop_queues_more]) simp

lemma stopped_more_scheduled: "stopped_more l m \<Longrightarrow> scheduled_but S l \<Longrightarrow> scheduled_but S m"
  by (auto simp: stopped_more_def scheduled_but_def waiting_frames_def)

text \<open>
  A packet is either taken whole, or its rest waits for a queue that is held or that
  already has frames waiting.
\<close>

definition put_back :: "bool \<Rightarrow> tx_skb list \<Rightarrow> tx_local \<Rightarrow> tx_local \<Rightarrow> bool" where
  "put_back txpending skbs m l' \<longleftrightarrow> (\<exists>pre skb post. skbs = pre @ skb # post \<and>
     (held m (ts_hw_queue skb) \<or> \<not> txpending \<and> waiting_frames m (ts_hw_queue skb)) \<and>
     l' = set_pending (ts_hw_queue skb) (if txpending then (skb # post) @ tl_pending m (ts_hw_queue skb)
            else tl_pending m (ts_hw_queue skb) @ skb # post) m)"

lemma put_back_Cons: "put_back t skbs m l' \<Longrightarrow> put_back t (skb # skbs) m l'"
  unfolding put_back_def by (metis append_Cons)

lemma tx_frags_result:
  "ieee80211_tx_frags stops vif txpending skbs l = (b, l') \<Longrightarrow>
     (b \<and> stopped_more l l') \<or> (\<not> b \<and> (\<exists>m. stopped_more l m \<and> put_back txpending skbs m l'))"
proof (induction skbs arbitrary: l b l')
  case (Cons skb skbs)
  consider "ieee80211_tx_frags stops vif txpending skbs (drv_tx stops (skb\<lparr>ts_vif := vif\<rparr>) l) = (b, l')"
    | "b" "l' = l\<lparr>tl_freed := tl_freed l @ skb # skbs\<rparr>"
    | "\<not> b" "put_back txpending (skb # skbs) l l'"
    using Cons.prems unfolding put_back_def
    by (fastforce simp: Let_def held_def waiting_frames_def split: if_splits)
  then show ?case
  proof cases
    case 1
    from Cons.IH [OF this] show ?thesis using stopped_more_trans [OF drv_tx_more] put_back_Cons by blast
  next
    case 3
    then show ?thesis using stopped_more_refl by blast
  qed simp
qed simp

lemma put_back_inv:
  assumes "put_back txpending skbs m l'" "list_all (ready_for q) skbs" "q < tl_queues m"
  shows "held l' = held m" "tl_queues l' = tl_queues m" "txpending \<Longrightarrow> held l' q"
    "counts_ok m \<Longrightarrow> counts_ok l'" "live m \<Longrightarrow> live l'" "live_but x m \<Longrightarrow> live_but x l'"
    "safe m \<Longrightarrow> safe l'" "agg_ok m \<Longrightarrow> agg_ok l'"
    "scheduled_but S m \<Longrightarrow> scheduled_but S l'" "routed_ok handlers m \<Longrightarrow> routed_ok handlers l'"
proof -
  obtain pre skb post where k: "skbs = pre @ skb # post"
    and h: "held m (ts_hw_queue skb) \<or> \<not> txpending \<and> waiting_frames m (ts_hw_queue skb)"
    and l: "l' = set_pending (ts_hw_queue skb) (if txpending then (skb # post) @ tl_pending m (ts_hw_queue skb)
            else tl_pending m (ts_hw_queue skb) @ skb # post) m"
    using assms(1) unfolding put_back_def by blast
  have r: "list_all (ready_for q) (skb # post)" using assms(2) k by simp
  then have q: "ts_hw_queue skb = q" by (simp add: ready_for_def)
  define new where "new = (if txpending then (skb # post) @ tl_pending m q else tl_pending m q @ skb # post)"
  have l': "l' = set_pending q new m" and n: "new \<noteq> []" by (simp_all add: l q new_def)
  have rn: "list_all (routed handlers q) (skb # post)" using r by (auto simp: list_all_iff ready_routed)
  show "held l' = held m" "tl_queues l' = tl_queues m" by (simp_all add: l')
  show "txpending \<Longrightarrow> held l' q" using h q by (simp add: l')
  show "counts_ok m \<Longrightarrow> counts_ok l'" using set_pending_counts assms(3) by (simp add: l')
  show "live m \<Longrightarrow> live l'" using set_pending_live n by (simp add: l')
  show "live_but x m \<Longrightarrow> live_but x l'" using set_pending_live_but n by (simp add: l')
  show "safe m \<Longrightarrow> safe l'" "agg_ok m \<Longrightarrow> agg_ok l'" by (simp_all add: l')
  show "scheduled_but S m \<Longrightarrow> scheduled_but S l'" using set_pending_scheduled_but h q by (auto simp: l')
  show "routed_ok handlers m \<Longrightarrow> routed_ok handlers l'"
    using rn by (auto simp: l' routed_ok_def new_def)
qed

text \<open>The invariants with a set of queues the tasklet has still to see, and one that has just been emptied.\<close>

definition draining :: "(tx_skb \<Rightarrow> tx_skb list) \<Rightarrow> nat set \<Rightarrow> nat \<Rightarrow> tx_local \<Rightarrow> bool" where
  "draining handlers S i l \<longleftrightarrow> counts_ok l \<and> agg_ok l \<and> live_but i l \<and> scheduled_but S l \<and> routed_ok handlers l"

lemma draining_more:
  assumes "stopped_more l m" "draining handlers S i l" shows "draining handlers S i m"
  using assms stopped_more_scheduled [OF assms(1)] routed_pending [of m l]
  by (simp add: draining_def) (simp add: stopped_more_def)

lemma draining_put_back:
  assumes "put_back txpending skbs m l'" "list_all (ready_for q) skbs" "q < tl_queues m" "draining handlers S i m"
  shows "draining handlers S i l'"
  using assms(4) put_back_inv [OF assms(1-3)] by (simp add: draining_def)

lemma drain_queue_inv:
  assumes "draining handlers S i l" "i \<in> S" "i < tl_queues l"
  shows "draining handlers S i (drain_queue handlers stops i l) \<and> tl_queues (drain_queue handlers stops i l) = tl_queues l \<and>
    (waiting_frames (drain_queue handlers stops i l) i \<longrightarrow> held (drain_queue handlers stops i l) i)"
  using assms
proof (induction handlers stops i l rule: drain_queue.induct)
  case (1 handlers stops i l)
  show ?case
  proof (cases "tl_pending l i")
    case Nil
    then have "drain_queue handlers stops i l = l" by (subst drain_queue.simps) simp
    with Nil show ?thesis using "1.prems" by (simp add: waiting_frames_def)
  next
    case (Cons skb rest)
    define m where "m = set_pending i rest l"
    have r: "routed handlers i skb" using "1.prems"(1) Cons by (auto simp: draining_def routed_ok_def dest: spec [of _ i])
    have dm: "draining handlers S i m" and qm: "tl_queues m = tl_queues l"
      using "1.prems" Cons set_pending_counts [of l rest i] set_pending_live_but [of i l rest i]
        set_pending_scheduled_but [of S l rest i]
      by (auto simp: draining_def m_def routed_ok_def waiting_frames_def split: if_splits dest: spec [of _ i])
    show ?thesis
    proof (cases "ts_vif skb")
      case None
      let ?m = "m\<lparr>tl_freed := tl_freed m @ [skb]\<rparr>"
      have "draining handlers S i ?m" by (rule draining_more [OF record_only(2) dm])
      then have IH: "draining handlers S i (drain_queue handlers stops i ?m) \<and> tl_queues (drain_queue handlers stops i ?m) = tl_queues ?m \<and>
        (waiting_frames (drain_queue handlers stops i ?m) i \<longrightarrow> held (drain_queue handlers stops i ?m) i)"
        using "1.IH"(1) [OF Cons m_def None _ "1.prems"(2)] "1.prems"(3) qm by simp
      moreover have "drain_queue handlers stops i l = drain_queue handlers stops i ?m"
        by (subst drain_queue.simps) (simp add: Cons None m_def)
      ultimately show ?thesis using qm by simp
    next
      case (Some v)
      obtain b m' where t: "ieee80211_tx_pending_skb handlers stops skb m = (b, m')" by fastforce
      then have res: "(b \<and> stopped_more m m') \<or> (\<not> b \<and> (\<exists>k. stopped_more m k \<and> put_back True (processed handlers skb) k m'))"
        unfolding ieee80211_tx_pending_skb_def processed_def [symmetric] by (rule tx_frags_result)
      have e: "drain_queue handlers stops i l = (if b then drain_queue handlers stops i m' else m')"
        by (subst drain_queue.simps) (simp add: Cons Some m_def [symmetric] t)
      show ?thesis
      proof (cases b)
        case True
        then have more: "stopped_more m m'" using res by simp
        then have d: "draining handlers S i m'" and q: "tl_queues m' = tl_queues l"
          using draining_more [OF more dm] qm by (simp_all add: stopped_more_def)
        have "draining handlers S i (drain_queue handlers stops i m') \<and> tl_queues (drain_queue handlers stops i m') = tl_queues m' \<and>
          (waiting_frames (drain_queue handlers stops i m') i \<longrightarrow> held (drain_queue handlers stops i m') i)"
          using "1.IH"(2) [OF Cons m_def _ t [symmetric] True d "1.prems"(2)] Some "1.prems"(3) q by simp
        then show ?thesis using e True q by simp
      next
        case False
        then obtain k where k: "stopped_more m k" "put_back True (processed handlers skb) k m'" using res by blast
        have dk: "draining handlers S i k" and qk: "tl_queues k = tl_queues l"
          using draining_more [OF k(1) dm] k(1) qm by (simp_all add: stopped_more_def)
        have rk: "list_all (ready_for i) (processed handlers skb)" using r by (simp add: routed_def)
        have ik: "i < tl_queues k" using "1.prems"(3) qk by simp
        show ?thesis
          using e False draining_put_back [OF k(2) rk ik dk] put_back_inv(2,3) [OF k(2) rk ik] qk by simp
      qed
    qed
  qed
qed

text \<open>Between two rounds of the tasklet.\<close>

definition between :: "(tx_skb \<Rightarrow> tx_skb list) \<Rightarrow> nat set \<Rightarrow> tx_local \<Rightarrow> bool" where
  "between handlers S l \<longleftrightarrow> counts_ok l \<and> agg_ok l \<and> live l \<and> scheduled_but S l \<and> routed_ok handlers l"

lemma live_live_but: "live l \<Longrightarrow> live_but q l"
  by (auto simp: live_def live_but_def elim!: iface_live_mono dest!: bspec)

lemma propagate_between:
  "counts_ok l \<Longrightarrow> agg_ok l \<Longrightarrow> live_but i l \<Longrightarrow> scheduled_but S l \<Longrightarrow> routed_ok handlers l \<Longrightarrow> \<not> waiting_frames l i \<Longrightarrow>
     between handlers S (ieee80211_propagate_queue_wake i l)"
  by (simp add: between_def propagate_counts propagate_live)
    (simp add: agg_ok_def scheduled_but_def routed_ok_def)

lemma pending_round_inv:
  assumes "between handlers S l" "i \<in> S" "i < tl_queues l"
  shows "between handlers (S - {i}) (pending_round handlers stops i l) \<and> tl_queues (pending_round handlers stops i l) = tl_queues l"
proof (cases "held l i \<or> \<not> waiting_frames l i")
  case True
  then have "pending_round handlers stops i l = l" by (simp add: pending_round_def held_def waiting_frames_def)
  then show ?thesis using assms True by (auto simp: between_def scheduled_but_def)
next
  case False
  define m where "m = drain_queue handlers stops i l"
  have "draining handlers S i l" using assms(1) by (simp add: between_def draining_def live_live_but)
  then have d: "draining handlers S i m" "tl_queues m = tl_queues l" "waiting_frames m i \<longrightarrow> held m i"
    using drain_queue_inv [OF _ assms(2,3), of handlers stops] by (simp_all add: m_def)
  then have s: "scheduled_but (S - {i}) m" by (auto simp: draining_def scheduled_but_def)
  have e: "pending_round handlers stops i l = (if waiting_frames m i then m else ieee80211_propagate_queue_wake i m)"
    using False by (simp add: pending_round_def held_def waiting_frames_def m_def)
  show ?thesis
    using d s live_but_held [of m i] propagate_between [of m i "S - {i}" handlers]
    by (simp add: e draining_def between_def)
qed

lemma pending_rounds_inv:
  "between handlers (set is) l \<Longrightarrow> list_all (\<lambda>i. i < tl_queues l) is \<Longrightarrow>
     between handlers {} (fold (pending_round handlers stops) is l) \<and>
     tl_queues (fold (pending_round handlers stops) is l) = tl_queues l"
proof (induction "is" arbitrary: l)
  case (Cons i "is")
  let ?m = "pending_round handlers stops i l"
  have "between handlers (set (i # is) - {i}) ?m" and q: "tl_queues ?m = tl_queues l"
    using pending_round_inv [OF Cons.prems(1), of i stops] Cons.prems(2) by auto
  then have "between handlers (set is) ?m" by (auto simp: between_def scheduled_but_def)
  then show ?case using Cons.IH [of ?m] Cons.prems(2) q by simp
qed simp

lemma tx_pending_inv:
  assumes "between handlers {} l"
  shows "between handlers {} (ieee80211_tx_pending handlers stops l)" "tl_queues (ieee80211_tx_pending handlers stops l) = tl_queues l"
proof -
  let ?m = "l\<lparr>tl_tx_pending_scheduled := False\<rparr>"
  have "between handlers (set [0..<tl_queues l]) ?m"
    using assms by (simp add: between_def) (auto simp: scheduled_but_def counts_ok_def routed_ok_def)
  then show "between handlers {} (ieee80211_tx_pending handlers stops l)"
    "tl_queues (ieee80211_tx_pending handlers stops l) = tl_queues l"
    using pending_rounds_inv [of handlers "[0..<tl_queues l]" ?m stops]
    by (simp_all add: ieee80211_tx_pending_def list_all_iff)
qed

subsection \<open>Every event\<close>

definition txq_inv :: "(tx_skb \<Rightarrow> tx_skb list) \<Rightarrow> nat \<Rightarrow> tx_local \<Rightarrow> bool" where
  "txq_inv handlers n l \<longleftrightarrow> tl_queues l = n \<and> between handlers {} l"

text \<open>
  Frames are given for queues of the device, a packet for one queue; the reason of the
  aggregation is left to the functions that count it.
\<close>

fun txq_allowed :: "(tx_skb \<Rightarrow> tx_skb list) \<Rightarrow> nat \<Rightarrow> txq_event \<Rightarrow> bool" where
  "txq_allowed handlers n (StopQueue q r c) = (r \<noteq> IEEE80211_QUEUE_STOP_REASON_AGGREGATION)"
| "txq_allowed handlers n (WakeQueue q r c) = (r \<noteq> IEEE80211_QUEUE_STOP_REASON_AGGREGATION)"
| "txq_allowed handlers n (StopQueues qs r c) = (r \<noteq> IEEE80211_QUEUE_STOP_REASON_AGGREGATION)"
| "txq_allowed handlers n (WakeQueues qs r c) = (r \<noteq> IEEE80211_QUEUE_STOP_REASON_AGGREGATION)"
| "txq_allowed handlers n (AddPending skb) = (ts_hw_queue skb < n \<and> routed handlers (ts_hw_queue skb) skb)"
| "txq_allowed handlers n (AddPendings skbs) = list_all (\<lambda>skb. ts_hw_queue skb < n \<and> routed handlers (ts_hw_queue skb) skb) skbs"
| "txq_allowed handlers n (Transmit stops vif skbs) =
     (skbs = [] \<or> ts_hw_queue (hd skbs) < n \<and> list_all (ready_for (ts_hw_queue (hd skbs))) skbs)"
| "txq_allowed handlers n (PendingTasklet stops) = True"
| "txq_allowed handlers n WakeTxqsTasklet = True"
| "txq_allowed handlers n (AggStop q) = (q < n)"
| "txq_allowed handlers n (AggSplice q skbs) = list_all (routed handlers q) skbs"
| "txq_allowed handlers n (AggWake q) = True"

lemma txq_inv_parts:
  "txq_inv handlers n l \<longleftrightarrow> tl_queues l = n \<and> counts_ok l \<and> agg_ok l \<and> live l \<and> scheduled_ok l \<and> routed_ok handlers l"
  by (auto simp: txq_inv_def between_def scheduled_but_empty)

lemma stop_queue_txq:
  "txq_inv handlers n l \<Longrightarrow> r \<noteq> IEEE80211_QUEUE_STOP_REASON_AGGREGATION \<Longrightarrow>
     txq_inv handlers n (ieee80211_stop_queue_by_reason q r c l)"
  by (simp add: txq_inv_parts stop_queue_counts stop_queue_agg stop_queue_live stop_queue_scheduled routed_pending [OF stop_queue_pending])

lemma wake_queue_txq:
  "txq_inv handlers n l \<Longrightarrow> r \<noteq> IEEE80211_QUEUE_STOP_REASON_AGGREGATION \<Longrightarrow>
     txq_inv handlers n (ieee80211_wake_queue_by_reason q r c l)"
  by (simp add: txq_inv_parts wake_queue_counts wake_queue_agg_other wake_queue_live wake_queue_scheduled routed_pending [OF wake_queue_simps(2)])

lemma fold_txq:
  "(\<And>x l. x \<in> set xs \<Longrightarrow> I l \<Longrightarrow> I (f x l)) \<Longrightarrow> I l \<Longrightarrow> I (fold f xs l)"
  by (induction xs arbitrary: l) auto

lemma add_pending_txq:
  assumes "txq_inv handlers n l" "list_all (routed handlers q) skbs" "held l q"
  shows "txq_inv handlers n (add_pending q skbs l)"
proof (cases "skbs = []")
  case True
  then show ?thesis using assms(1) by (simp add: add_pending_def)
next
  case False
  have "q < tl_queues l" using assms(1,3) by (auto simp: txq_inv_parts counts_ok_def)
  then show ?thesis
    using assms False set_pending_counts [of l "tl_pending l q @ skbs" q] set_pending_live [of l "tl_pending l q @ skbs" q]
      set_pending_scheduled_but [of "{}" l "tl_pending l q @ skbs" q]
    by (auto simp: txq_inv_parts add_pending_def scheduled_but_empty routed_ok_def)
qed

lemma more_txq:
  assumes "stopped_more l m" "txq_inv handlers n l" shows "txq_inv handlers n m"
proof -
  have "tl_pending m = tl_pending l" using assms(1) by (simp add: stopped_more_def)
  from routed_pending [OF this, of handlers] show ?thesis
    using assms stopped_more_scheduled [OF assms(1), of "{}"]
    by (simp add: txq_inv_parts scheduled_but_empty) (simp add: stopped_more_def)
qed

lemmas freed_txq = more_txq [OF record_only(2)]

lemma stop_and_add_txq:
  assumes "txq_inv handlers n l" "ts_hw_queue skb < n \<and> routed handlers (ts_hw_queue skb) skb"
  shows "txq_inv handlers n (stop_and_add skb l)"
proof -
  have "tl_queues l = n" using assms(1) by (simp add: txq_inv_parts)
  then show ?thesis
    using assms freed_txq [OF assms(1)] add_pending_txq [OF stop_queue_txq [OF assms(1)], of IEEE80211_QUEUE_STOP_REASON_SKB_ADD]
    by (simp add: stop_and_add_def stop_queue_held)
qed

lemma add_pending_skb_split:
  "ieee80211_add_pending_skb skb l =
     (if ts_vif skb = None then stop_and_add skb l
      else ieee80211_wake_queue_by_reason (ts_hw_queue skb) IEEE80211_QUEUE_STOP_REASON_SKB_ADD False (stop_and_add skb l))"
  by (simp add: ieee80211_add_pending_skb_def stop_and_add_def Let_def)

lemma transmit_txq:
  assumes i: "txq_inv handlers n l" and a: "txq_allowed handlers n (Transmit stops vif skbs)"
  shows "txq_inv handlers n (snd (ieee80211_tx_frags stops vif False skbs l))"
proof (cases "skbs = []")
  case False
  let ?q = "ts_hw_queue (hd skbs)"
  have q: "?q < n" "list_all (ready_for ?q) skbs" using a False by simp_all
  obtain b l' where t: "ieee80211_tx_frags stops vif False skbs l = (b, l')" by fastforce
  from tx_frags_result [OF t] show ?thesis
  proof (elim disjE conjE exE)
    fix m assume m: "stopped_more l m" "put_back False skbs m l'"
    then have "?q < tl_queues m" using q(1) i by (simp add: stopped_more_def txq_inv_parts)
    from put_back_inv [OF m(2) q(2) this] more_txq [OF m(1) i] show ?thesis
      by (simp add: t txq_inv_parts scheduled_but_empty)
  qed (use more_txq [OF _ i] in \<open>simp add: t\<close>)
qed (simp add: i)

lemma add_pending_skb_txq:
  "txq_inv handlers n l \<Longrightarrow> ts_hw_queue skb < n \<and> routed handlers (ts_hw_queue skb) skb \<Longrightarrow>
     txq_inv handlers n (ieee80211_add_pending_skb skb l)"
  using stop_and_add_txq wake_queue_txq by (auto simp: add_pending_skb_split)

lemma add_pending_skbs_txq:
  assumes "txq_inv handlers n l" "list_all (\<lambda>skb. ts_hw_queue skb < n \<and> routed handlers (ts_hw_queue skb) skb) skbs"
  shows "txq_inv handlers n (ieee80211_add_pending_skbs skbs l)"
proof -
  have "txq_inv handlers n (fold stop_and_add skbs l)"
    by (rule fold_txq [where I = "txq_inv handlers n", OF _ assms(1)]) (use assms(2) in \<open>auto simp: list_all_iff intro: stop_and_add_txq\<close>)
  then show ?thesis unfolding ieee80211_add_pending_skbs_def Let_def
    by (rule fold_txq [where I = "txq_inv handlers n", rotated]) (simp add: wake_queue_txq)
qed

lemma agg_txq:
  assumes "txq_inv handlers n l"
  shows "q < n \<Longrightarrow> txq_inv handlers n (ieee80211_stop_queue_agg q l)"
    "0 < tl_agg_queue_stop l q \<Longrightarrow> txq_inv handlers n (ieee80211_wake_queue_agg q l)"
    "0 < tl_agg_queue_stop l q \<Longrightarrow> list_all (routed handlers q) skbs \<Longrightarrow> txq_inv handlers n (add_pending q skbs l)"
proof -
  have q: "tl_queues l = n" "counts_ok l" "agg_ok l" using assms by (simp_all add: txq_inv_parts)
  show "q < n \<Longrightarrow> txq_inv handlers n (ieee80211_stop_queue_agg q l)"
    using assms stop_agg_ok [of l q] by (simp add: txq_inv_parts stop_agg_inv routed_ok_def)
  show "0 < tl_agg_queue_stop l q \<Longrightarrow> txq_inv handlers n (ieee80211_wake_queue_agg q l)"
    using assms wake_agg_ok [of l q] by (simp add: txq_inv_parts wake_agg_inv routed_ok_def)
  have "0 < tl_agg_queue_stop l q \<Longrightarrow> held l q" using q(3) by (auto simp: agg_ok_def held_def)
  then show "0 < tl_agg_queue_stop l q \<Longrightarrow> list_all (routed handlers q) skbs \<Longrightarrow> txq_inv handlers n (add_pending q skbs l)"
    using add_pending_txq [OF assms] by simp
qed

interpretation txq: machine "txq_step handlers" "txq_inv handlers n" "txq_allowed handlers n" for handlers n
proof
  fix l e assume i: "txq_inv handlers n l" and a: "txq_allowed handlers n e"
  show "txq_inv handlers n (txq_step handlers l e)"
  proof (cases e)
    case (StopQueues qs r c)
    then have "r \<noteq> IEEE80211_QUEUE_STOP_REASON_AGGREGATION" using a by simp
    then show ?thesis unfolding StopQueues txq_step.simps ieee80211_stop_queues_by_reason_def
      by (intro fold_txq [where I = "txq_inv handlers n", OF _ i]) (simp add: stop_queue_txq)
  next
    case (WakeQueues qs r c)
    then have "r \<noteq> IEEE80211_QUEUE_STOP_REASON_AGGREGATION" using a by simp
    then show ?thesis unfolding WakeQueues txq_step.simps ieee80211_wake_queues_by_reason_def
      by (intro fold_txq [where I = "txq_inv handlers n", OF _ i]) (simp add: wake_queue_txq)
  next
    case (PendingTasklet stops)
    then show ?thesis using i tx_pending_inv [of handlers l stops] by (simp add: txq_inv_def)
  next
    case WakeTxqsTasklet
    have "same_queues l (l\<lparr>tl_wake_txqs_scheduled := False\<rparr>)"
      by (simp add: same_queues_def list.rel_refl same_net_def)
    from same_queues_trans [OF this wake_txqs_same] have "same_queues l (ieee80211_wake_txqs l)"
      by (simp add: ieee80211_wake_txqs_def)
    from same_queues_inv [OF this] routed_pending [of "ieee80211_wake_txqs l" l] this i show ?thesis
      by (simp add: WakeTxqsTasklet txq_inv_parts) (simp add: same_queues_def)
  next
    case (Transmit stops vif skbs)
    then show ?thesis using transmit_txq [OF i] a by simp
  qed (use i a in \<open>auto simp: stop_queue_txq wake_queue_txq add_pending_skb_txq add_pending_skbs_txq agg_txq\<close>)
qed

section \<open>Safety\<close>

text \<open>
  The tasklet wakes the subqueues of a queue once no frame waits for it, without looking
  whether the queue has been stopped meanwhile. As long as the driver stops no queue from
  within the tasklet the subqueues of stopped queues sleep.
\<close>

fun quiet_tasklet :: "txq_event \<Rightarrow> bool" where
  "quiet_tasklet (PendingTasklet stops) = (stops = (\<lambda>_. []))"
| "quiet_tasklet _ = True"

definition txq_safe :: "(tx_skb \<Rightarrow> tx_skb list) \<Rightarrow> nat \<Rightarrow> tx_local \<Rightarrow> bool" where
  "txq_safe handlers n l \<longleftrightarrow> txq_inv handlers n l \<and> safe l"

text \<open>In a quiet tasklet no queue becomes held.\<close>

lemma tx_frags_quiet:
  "ieee80211_tx_frags (\<lambda>_. []) vif txpending skbs l = (b, l') \<Longrightarrow> held l' = held l \<and> (safe l \<longrightarrow> safe l')"
proof (induction skbs arbitrary: l b l')
  case (Cons skb skbs)
  have d: "held (drv_tx (\<lambda>_. []) x l) = held l" "safe l \<Longrightarrow> safe (drv_tx (\<lambda>_. []) x l)" for x
    using drv_tx_more [of l "\<lambda>_. []" x] by (simp_all add: drv_tx_def held_def [abs_def] stopped_more_def)
  have f: "held (l\<lparr>tl_freed := xs\<rparr>) = held l" "safe l \<Longrightarrow> safe (l\<lparr>tl_freed := xs\<rparr>)" for xs
    using record_only(2) [of l xs] by (simp_all add: held_def [abs_def] safe_def n_acs_def)
  show ?case using Cons.prems Cons.IH d f by (auto simp: Let_def split: if_splits)
qed simp

lemma drain_quiet:
  "held (drain_queue handlers (\<lambda>_. []) i l) = held l \<and> (safe l \<longrightarrow> safe (drain_queue handlers (\<lambda>_. []) i l))"
proof (induction "length (tl_pending l i)" arbitrary: l rule: less_induct)
  case less
  have f: "held (l\<lparr>tl_pending := p, tl_freed := xs\<rparr>) = held l" "safe (l\<lparr>tl_pending := p, tl_freed := xs\<rparr>) = safe l" for xs p
    by (simp_all add: held_def [abs_def] safe_def n_acs_def)
  show ?case
  proof (cases "tl_pending l i")
    case Nil
    then show ?thesis by (subst (1 2) drain_queue.simps) simp
  next
    case (Cons skb rest)
    define m where "m = set_pending i rest l"
    obtain b m' where t: "ieee80211_tx_pending_skb handlers (\<lambda>_. []) skb m = (b, m')" by fastforce
    have q: "held m' = held l \<and> (safe l \<longrightarrow> safe m')"
      using tx_frags_quiet t unfolding ieee80211_tx_pending_skb_def m_def by fastforce
    have p: "b \<Longrightarrow> tl_pending m' i = rest" using tx_pending_skb_ok_pending [of handlers "\<lambda>_. []" skb m m'] t by (simp add: m_def)
    have e: "drain_queue handlers (\<lambda>_. []) i l = (if ts_vif skb = None
        then drain_queue handlers (\<lambda>_. []) i (m\<lparr>tl_freed := tl_freed m @ [skb]\<rparr>)
        else if b then drain_queue handlers (\<lambda>_. []) i m' else m')"
      by (subst drain_queue.simps) (simp add: Cons m_def [symmetric] t)
    show ?thesis
      using less.hyps [of "m\<lparr>tl_freed := tl_freed m @ [skb]\<rparr>"] less.hyps [of m'] p q f
      unfolding e by (simp add: Cons m_def)
  qed
qed

lemma pending_round_quiet:
  assumes "between handlers S l" "i \<in> S" "i < tl_queues l" "safe l"
  shows "safe (pending_round handlers (\<lambda>_. []) i l)"
proof (cases "held l i \<or> \<not> waiting_frames l i")
  case True
  then show ?thesis using assms(4) by (simp add: pending_round_def held_def waiting_frames_def)
next
  case False
  have "draining handlers S i l" using assms(1) by (simp add: between_def draining_def live_live_but)
  then have "counts_ok (drain_queue handlers (\<lambda>_. []) i l)"
    using drain_queue_inv [OF _ assms(2,3), of handlers "\<lambda>_. []"] by (simp add: draining_def)
  then show ?thesis
    using False drain_quiet [of handlers i l] assms(4) propagate_safe [of "drain_queue handlers (\<lambda>_. []) i l" i]
    by (simp add: pending_round_def Let_def waiting_frames_def held_def)
qed

lemma pending_rounds_quiet:
  "between handlers (set is) l \<Longrightarrow> list_all (\<lambda>i. i < tl_queues l) is \<Longrightarrow> safe l \<Longrightarrow>
     safe (fold (pending_round handlers (\<lambda>_. [])) is l)"
proof (induction "is" arbitrary: l)
  case (Cons i "is")
  let ?m = "pending_round handlers (\<lambda>_. []) i l"
  have b: "between handlers (set (i # is) - {i}) ?m" and q: "tl_queues ?m = tl_queues l"
    using pending_round_inv [OF Cons.prems(1), of i "\<lambda>_. []"] Cons.prems(2) by auto
  then have "between handlers (set is) ?m" by (auto simp: between_def scheduled_but_def)
  moreover have "safe ?m" using pending_round_quiet [OF Cons.prems(1)] Cons.prems(2,3) by simp
  ultimately show ?case using Cons.IH [of ?m] Cons.prems(2) q by simp
qed simp

end
