(* ===== verification/TxQueueRun.thy ===== *)
theory TxQueueRun
  imports TxQueueInv
begin

text \<open>
  The properties of the transmit queues: which subqueues sleep after any run of events, the
  order of the frames, what several aggregation set-ups do to a queue, and three places
  where the wake-up goes wrong.
\<close>

section \<open>Sleeping subqueues\<close>

text \<open>A device as it is registered: no queue stopped, nothing waiting.\<close>

definition fresh_local :: "nat \<Rightarrow> tx_sdata list \<Rightarrow> tx_local" where
  "fresh_local n ifs =
     \<lparr>tl_queues = n, tl_wake_tx_queue = False, tl_stop_reasons = (\<lambda>_. {}), tl_q_stop_reasons = (\<lambda>_ _. 0),
      tl_pending = (\<lambda>_. []), tl_agg_queue_stop = (\<lambda>_. 0), tl_interfaces = ifs, tl_tx_pending_scheduled = False,
      tl_wake_txqs_scheduled = False, tl_sent = [], tl_freed = [], tl_woken = []\<rparr>"

definition awake_ifaces :: "nat \<Rightarrow> tx_sdata list \<Rightarrow> bool" where
  "awake_ifaces n ifs \<longleftrightarrow> n \<le> 16 \<and>
     list_all (\<lambda>s. iface_wf (n_acs (fresh_local n ifs)) n s \<and> vi_netdev_stopped s = (\<lambda>_. False)) ifs"

lemma fresh_inv:
  assumes "awake_ifaces n ifs"
  shows "txq_inv handlers n (fresh_local n ifs)" "safe (fresh_local n ifs)"
proof -
  have h: "held (fresh_local n ifs) = (\<lambda>_. False)" "waiting_frames (fresh_local n ifs) = (\<lambda>_. False)"
    by (simp_all add: held_def waiting_frames_def fresh_local_def fun_eq_iff)
  have i: "iface_wf (n_acs (fresh_local n ifs)) n s" "vi_netdev_stopped s = (\<lambda>_. False)" if "s \<in> set ifs" for s
    using assms that by (auto simp: awake_ifaces_def list_all_iff)
  have "counts_ok (fresh_local n ifs)"
    unfolding counts_ok_def h using assms i(1) by (simp add: awake_ifaces_def fresh_local_def)
  moreover have "live (fresh_local n ifs)" unfolding live_def h using i(2) by (simp add: fresh_local_def iface_live_def)
  ultimately show "txq_inv handlers n (fresh_local n ifs)"
    unfolding txq_inv_parts agg_ok_def scheduled_ok_def h by (simp add: fresh_local_def routed_ok_def)
  show "safe (fresh_local n ifs)" unfolding safe_def h by (simp add: iface_safe_def)
qed

lemma freed_safe [simp]: "safe (l\<lparr>tl_freed := xs\<rparr>) = safe l" "safe (l\<lparr>tl_pending := p\<rparr>) = safe l"
  by (simp_all add: safe_def n_acs_def held_def [abs_def])

lemma stop_and_add_safe: "safe l \<Longrightarrow> safe (stop_and_add skb l)"
  by (simp add: stop_and_add_def add_pending_def stop_queue_safe)

interpretation txq_quiet: machine "txq_step handlers" "txq_safe handlers n" "\<lambda>e. txq_allowed handlers n e \<and> quiet_tasklet e"
  for handlers n
proof
  fix l e assume i: "txq_safe handlers n l" and a: "txq_allowed handlers n e \<and> quiet_tasklet e"
  have t: "txq_inv handlers n (txq_step handlers l e)" using i a txq.step_inv by (simp add: txq_safe_def)
  have s: "safe l" "counts_ok l" "txq_inv handlers n l" using i by (simp_all add: txq_safe_def txq_inv_parts)
  have stop: "safe l \<and> counts_ok l \<Longrightarrow>
      safe (ieee80211_stop_queue_by_reason q r c l) \<and> counts_ok (ieee80211_stop_queue_by_reason q r c l)" for q r c l
    by (simp add: stop_queue_safe stop_queue_counts)
  have wake: "safe l \<and> counts_ok l \<Longrightarrow>
      safe (ieee80211_wake_queue_by_reason q r c l) \<and> counts_ok (ieee80211_wake_queue_by_reason q r c l)" for q r c l
    by (simp add: wake_queue_safe wake_queue_counts)
  have add: "txq_safe handlers n l \<Longrightarrow> ts_hw_queue skb < n \<and> routed handlers (ts_hw_queue skb) skb \<Longrightarrow>
      txq_safe handlers n (stop_and_add skb l)" for skb l
    using stop_and_add_txq [of handlers n l skb] by (simp add: txq_safe_def stop_and_add_safe)
  show "txq_safe handlers n (txq_step handlers l e)"
  proof (cases e)
    case (StopQueues qs r c)
    have "safe (txq_step handlers l e) \<and> counts_ok (txq_step handlers l e)"
      unfolding StopQueues txq_step.simps ieee80211_stop_queues_by_reason_def
      by (rule fold_txq [where I = "\<lambda>l. safe l \<and> counts_ok l"]) (use s stop in auto)
    then show ?thesis using t by (simp add: txq_safe_def)
  next
    case (WakeQueues qs r c)
    have "safe (txq_step handlers l e) \<and> counts_ok (txq_step handlers l e)"
      unfolding WakeQueues txq_step.simps ieee80211_wake_queues_by_reason_def
      by (rule fold_txq [where I = "\<lambda>l. safe l \<and> counts_ok l"]) (use s wake in auto)
    then show ?thesis using t by (simp add: txq_safe_def)
  next
    case (AddPending skb)
    then have "txq_safe handlers n (stop_and_add skb l)" using add i a by simp
    then show ?thesis using t wake by (simp add: AddPending add_pending_skb_split txq_safe_def txq_inv_parts)
  next
    case (AddPendings skbs)
    then have "txq_safe handlers n (fold stop_and_add skbs l)"
      by (intro fold_txq [where I = "txq_safe handlers n", OF _ i] add) (use a in \<open>simp_all add: list_all_iff\<close>)
    then have "safe (fold stop_and_add skbs l) \<and> counts_ok (fold stop_and_add skbs l)"
      by (simp add: txq_safe_def txq_inv_parts)
    from fold_txq [where I = "\<lambda>l. safe l \<and> counts_ok l", OF wake this]
    have "safe (txq_step handlers l e) \<and> counts_ok (txq_step handlers l e)"
      by (simp add: AddPendings ieee80211_add_pending_skbs_def Let_def)
    then show ?thesis using t by (simp add: txq_safe_def)
  next
    case (Transmit stops vif skbs)
    obtain b l' where r: "ieee80211_tx_frags stops vif False skbs l = (b, l')" by fastforce
    have "safe l'" using tx_frags_result [OF r]
    proof (elim disjE conjE exE)
      fix m assume m: "stopped_more l m" "put_back False skbs m l'"
      then show ?thesis using s by (auto simp: put_back_def stopped_more_def)
    qed (use s in \<open>simp add: stopped_more_def\<close>)
    then show ?thesis using t r by (simp add: Transmit txq_safe_def)
  next
    case (PendingTasklet stops)
    then have st: "stops = (\<lambda>_. [])" using a by simp
    have q: "tl_queues l = n" using s(3) by (simp add: txq_inv_parts)
    have "between handlers (set [0..<n]) (l\<lparr>tl_tx_pending_scheduled := False\<rparr>)"
      using s(3) q by (simp add: txq_inv_def between_def) (auto simp: scheduled_but_def counts_ok_def routed_ok_def)
    from pending_rounds_quiet [OF this] s q
    have "safe (ieee80211_tx_pending handlers stops l)"
      by (simp add: st ieee80211_tx_pending_def list_all_iff)
    then show ?thesis using t by (simp add: PendingTasklet txq_safe_def)
  next
    case WakeTxqsTasklet
    have "same_queues l (l\<lparr>tl_wake_txqs_scheduled := False\<rparr>)"
      by (simp add: same_queues_def list.rel_refl same_net_def)
    from same_queues_inv(3) [OF same_queues_trans [OF this wake_txqs_same]] s t show ?thesis
      by (simp add: WakeTxqsTasklet txq_safe_def ieee80211_wake_txqs_def)
  qed (use s t in \<open>auto simp: txq_safe_def stop_queue_safe wake_queue_safe stop_agg_inv wake_agg_inv add_pending_def\<close>)
qed

text \<open>C6: No wake-up is lost: after any run of stops and wake-ups for any reasons, of frames sent or queued, of
  aggregation set-ups and of the tasklet, in which the driver may stop queues at any frame, a subqueue of the
  network stack sleeps only while its hardware queue or the queue for frames after beacons is stopped, or
  while the tasklet that will wake it is scheduled.\<close>

theorem no_wakeup_lost:
  assumes "awake_ifaces n ifs" "list_all (txq_allowed handlers n) events"
    and l: "l = run (txq_step handlers) (fresh_local n ifs) events"
    and "s \<in> set (tl_interfaces l)" "vi_dev s" "ac < n_acs l" "vi_netdev_stopped s ac" "\<not> tl_wake_tx_queue l"
  shows "tl_stop_reasons l (vi_hw_queue s ac) \<noteq> {} \<or> tl_stop_reasons l (vi_cab_queue s) \<noteq> {} \<or> tl_tx_pending_scheduled l"
proof -
  have "txq_inv handlers n l" unfolding l by (rule txq.run_inv [OF fresh_inv(1) [OF assms(1)] assms(2)])
  then have "iface_live (n_acs l) (held l) (waiting_frames l) s" and "scheduled_ok l"
    using assms(4,8) by (auto simp: txq_inv_parts live_def)
  then show ?thesis using assms(5-7) unfolding iface_live_def scheduled_ok_def held_def by blast
qed

text \<open>If the driver stops no queue from within the tasklet, a subqueue of the network stack sleeps as long as
  its hardware queue or the queue for frames after beacons is stopped for any reason.\<close>

lemma stopped_subqueues_sleep:
  assumes "awake_ifaces n ifs" "list_all (\<lambda>e. txq_allowed handlers n e \<and> quiet_tasklet e) events"
    and l: "l = run (txq_step handlers) (fresh_local n ifs) events"
    and "s \<in> set (tl_interfaces l)" "vi_dev s" "ac < n_acs l" "\<not> tl_wake_tx_queue l"
    and "tl_stop_reasons l (vi_hw_queue s ac) \<noteq> {} \<or> tl_stop_reasons l (vi_cab_queue s) \<noteq> {}"
  shows "vi_netdev_stopped s ac"
proof -
  have "txq_safe handlers n (fresh_local n ifs)" using fresh_inv [OF assms(1)] by (simp add: txq_safe_def)
  then have "txq_safe handlers n l" unfolding l by (rule txq_quiet.run_inv [OF _ assms(2)])
  then have "iface_safe (n_acs l) (held l) s" using assms(4,7) by (auto simp: txq_safe_def safe_def)
  then show ?thesis using assms(5,6,8) by (auto simp: iface_safe_def held_def)
qed

text \<open>An interface of four access categories on four queues.\<close>

definition sample_iface :: tx_sdata where
  "sample_iface = \<lparr>vi_id = 0, vi_dev = True, vi_ap = False, vi_num_sta_ps = 0, vi_hw_queue = (\<lambda>ac. ac),
     vi_cab_queue = IEEE80211_INVAL_HW_QUEUE, vi_netdev_stopped = (\<lambda>_. False), vi_txqs_stopped = (\<lambda>_. False),
     vi_sta_txqs = [], vi_txq = None\<rparr>"

definition sample_tx :: "nat \<Rightarrow> nat \<Rightarrow> tx_skb" where
  "sample_tx i q = \<lparr>ts_id = i, ts_flags = 0, ts_hw_queue = q, ts_vif = Some 0\<rparr>"

definition sample_txq_events :: "txq_event list" where
  "sample_txq_events =
     [StopQueue 1 IEEE80211_QUEUE_STOP_REASON_DRIVER False, Transmit (\<lambda>_. []) (Some 0) [sample_tx 7 1],
      WakeQueue 1 IEEE80211_QUEUE_STOP_REASON_DRIVER False]"

lemma sample_awake: "awake_ifaces 4 [sample_iface]"
  by (simp add: awake_ifaces_def iface_wf_def sample_iface_def n_acs_def fresh_local_def IEEE80211_NUM_ACS_def)

lemma sample_allowed: "list_all (txq_allowed (\<lambda>skb. []) 4) sample_txq_events"
  by (simp add: sample_txq_events_def sample_tx_def ready_for_def)

lemmas txq_eval = run.simps txq_step.simps ieee80211_stop_queue_by_reason_def ieee80211_wake_queue_by_reason_def
  finish_wake_def ieee80211_propagate_queue_wake_def wake_subqueues_def stop_subqueues_def fresh_local_def n_acs_def
  IEEE80211_NUM_ACS_def IEEE80211_INVAL_HW_QUEUE_def count_stop_def count_wake_def sample_iface_def sample_tx_def Let_def

text \<open>With the frame waiting, the queue is awake and its subqueue sleeps until the tasklet has run.\<close>

lemma sample_queue_run:
  "run (txq_step (\<lambda>skb. [])) (fresh_local 4 [sample_iface]) sample_txq_events =
     (fresh_local 4 [sample_iface\<lparr>vi_netdev_stopped := (\<lambda>ac. ac = 1)\<rparr>])
       \<lparr>tl_pending := (\<lambda>_. [])(1 := [sample_tx 7 1]), tl_tx_pending_scheduled := True\<rparr>"
  by (auto simp: sample_txq_events_def txq_eval fun_eq_iff)

theorem no_wakeup_lost_witness:
  "tl_tx_pending_scheduled (run (txq_step (\<lambda>skb. [])) (fresh_local 4 [sample_iface]) sample_txq_events)"
  using no_wakeup_lost [OF sample_awake _ refl, of "\<lambda>skb. []" sample_txq_events
      "sample_iface\<lparr>vi_netdev_stopped := (\<lambda>ac. ac = 1)\<rparr>" 1] sample_allowed
  unfolding sample_queue_run by (simp add: fresh_local_def sample_iface_def n_acs_def IEEE80211_NUM_ACS_def)

lemma sample_run_stopped:
  "run (txq_step (\<lambda>skb. [])) (fresh_local 4 [sample_iface]) [StopQueue 1 IEEE80211_QUEUE_STOP_REASON_PS True] =
     (fresh_local 4 [sample_iface\<lparr>vi_netdev_stopped := (\<lambda>ac. ac = 1)\<rparr>])
       \<lparr>tl_stop_reasons := (\<lambda>_. {})(1 := {IEEE80211_QUEUE_STOP_REASON_PS}),
        tl_q_stop_reasons := (\<lambda>_ _. 0)(1 := (\<lambda>_. 0)(IEEE80211_QUEUE_STOP_REASON_PS := 1))\<rparr>"
  by (auto simp: txq_eval fun_eq_iff)

lemma stopped_subqueues_sleep_witness:
  "vi_netdev_stopped (hd (tl_interfaces (run (txq_step (\<lambda>skb. [])) (fresh_local 4 [sample_iface])
     [StopQueue 1 IEEE80211_QUEUE_STOP_REASON_PS True]))) 1"
  using stopped_subqueues_sleep [OF sample_awake _ refl, of "\<lambda>skb. []" "[StopQueue 1 IEEE80211_QUEUE_STOP_REASON_PS True]"
      "sample_iface\<lparr>vi_netdev_stopped := (\<lambda>ac. ac = 1)\<rparr>" 1]
  unfolding sample_run_stopped by (simp add: fresh_local_def sample_iface_def n_acs_def IEEE80211_NUM_ACS_def)

section \<open>Where the wake-up goes wrong\<close>

text \<open>C38: The tasklet wakes a stopped queue: when the driver stops a queue while it takes the last frame that waited
  for it, the tasklet wakes the subqueue of the network stack although its queue is stopped, and the
  next stop for the same reason does not put it to sleep again.\<close>

theorem tasklet_wakes_stopped_queue:
  assumes "i < tl_queues l" "tl_stop_reasons l i = {}" "tl_pending l i = [skb]"
    and "ts_vif skb = Some v" "ready_for i skb" "stops skb = [i]"
    and "\<not> tl_wake_tx_queue l" "tl_interfaces l = [s]"
    and "vi_dev s" "vi_cab_queue s = IEEE80211_INVAL_HW_QUEUE" "ac < n_acs l" "vi_hw_queue s ac = i"
  shows "IEEE80211_QUEUE_STOP_REASON_DRIVER \<in> tl_stop_reasons (pending_round handlers stops i l) i \<and>
    \<not> vi_netdev_stopped (hd (tl_interfaces (pending_round handlers stops i l))) ac \<and>
    \<not> vi_netdev_stopped (hd (tl_interfaces (ieee80211_stop_queue_by_reason i IEEE80211_QUEUE_STOP_REASON_DRIVER False
        (pending_round handlers stops i l)))) ac"
proof -
  have skb: "skb\<lparr>ts_vif := Some v\<rparr> = skb" using assms(4) by simp
  define m where "m = ieee80211_stop_queue_by_reason i IEEE80211_QUEUE_STOP_REASON_DRIVER False
     (set_pending i [] l\<lparr>tl_sent := tl_sent l @ [skb]\<rparr>)"
  have "ieee80211_tx_pending_skb handlers stops skb (set_pending i [] l) = (True, m)"
    using assms(2,4-6) by (simp add: skb ieee80211_tx_pending_skb_def ready_for_def drv_tx_def m_def)
  then have d: "drain_queue handlers stops i l = m"
    using assms(3,4) by (subst drain_queue.simps) (simp, subst drain_queue.simps, simp add: m_def)
  have e: "pending_round handlers stops i l = ieee80211_propagate_queue_wake i m"
    using assms(2,3) d by (simp add: pending_round_def Let_def m_def)
  have r: "tl_stop_reasons m = (tl_stop_reasons l)(i := {IEEE80211_QUEUE_STOP_REASON_DRIVER})"
    using assms(1,2) by (simp add: m_def stop_queue_reasons)
  have "hd (tl_interfaces (ieee80211_propagate_queue_wake i m)) = wake_subqueues m i (stop_subqueues l i s)"
    using assms(1,2,7,8) by (simp add: ieee80211_propagate_queue_wake_def m_def stop_queue_interfaces stop_subqueues_def n_acs_def)
  moreover have "n_acs m = n_acs l" by (simp add: m_def n_acs_def)
  ultimately have w: "\<not> vi_netdev_stopped (hd (tl_interfaces (ieee80211_propagate_queue_wake i m))) ac"
    using assms(9-12) by (simp add: wake_subqueues_def stop_subqueues_def Let_def)
  have "tl_interfaces (ieee80211_stop_queue_by_reason i IEEE80211_QUEUE_STOP_REASON_DRIVER False (ieee80211_propagate_queue_wake i m))
     = tl_interfaces (ieee80211_propagate_queue_wake i m)"
    by (simp add: stop_queue_interfaces r)
  with w show ?thesis by (simp add: e r)
qed

text \<open>The frame of the sample run is handed over and the driver reports its queue full.\<close>

definition waiting_local :: tx_local where
  "waiting_local = (fresh_local 4 [sample_iface])\<lparr>tl_pending := (\<lambda>_. [])(1 := [sample_tx 7 1])\<rparr>"

theorem tasklet_wakes_stopped_queue_witness:
  "\<not> vi_netdev_stopped (hd (tl_interfaces (pending_round (\<lambda>skb. []) (\<lambda>_. [1]) 1 waiting_local))) 1"
  using tasklet_wakes_stopped_queue [of 1 waiting_local "sample_tx 7 1" 0 "\<lambda>_. [1]" sample_iface 1 "\<lambda>skb. []"]
  by (simp add: waiting_local_def fresh_local_def sample_tx_def ready_for_def sample_iface_def n_acs_def IEEE80211_NUM_ACS_def)

text \<open>
  The wake-up of the driver's queues. Once the mark of an interface's own queue is gone, no
  later wake-up reports that queue.
\<close>

definition unmarked :: "nat \<Rightarrow> tx_sdata \<Rightarrow> bool" where
  "unmarked i s \<longleftrightarrow> (\<exists>t. vi_txq s = Some t \<and> \<not> vt_stop_netif_tx t) \<and> i \<notin> vt_id ` set (vi_sta_txqs s)"

lemma wake_vif_txqs_unmarked:
  assumes "unmarked i s" shows "unmarked i (fst (wake_vif_txqs ac s))" "i \<notin> set (snd (wake_vif_txqs ac s))"
  using assms by (fastforce simp: unmarked_def wake_vif_txqs_def Let_def)+

lemma wake_iface_fold_unmarked:
  assumes "unmarked i s" "i \<notin> set w"
  shows "unmarked i (fst (fold (\<lambda>ac (sdata, woken). if vi_hw_queue sdata ac = q \<or> vi_cab_queue sdata = q
      then (case wake_vif_txqs ac sdata of (sdata', woken') \<Rightarrow> (sdata', woken @ woken')) else (sdata, woken)) acs (s, w))) \<and>
    i \<notin> set (snd (fold (\<lambda>ac (sdata, woken). if vi_hw_queue sdata ac = q \<or> vi_cab_queue sdata = q
      then (case wake_vif_txqs ac sdata of (sdata', woken') \<Rightarrow> (sdata', woken @ woken')) else (sdata, woken)) acs (s, w)))"
  using assms
proof (induction acs arbitrary: s w)
  case (Cons ac acs)
  then show ?case using wake_vif_txqs_unmarked [OF Cons.prems(1), of ac] by (auto simp: split_beta)
qed simp

lemma wake_iface_txqs_unmarked:
  assumes "unmarked i s" shows "unmarked i (fst (wake_iface_txqs n q s))" "i \<notin> set (snd (wake_iface_txqs n q s))"
  using wake_iface_fold_unmarked [OF assms, of "[]" q "[0..<n]"] by (simp_all add: wake_iface_txqs_def)

lemma wake_queue_txqs_unmarked:
  "list_all (unmarked i) (tl_interfaces l) \<Longrightarrow> i \<notin> set (tl_woken l) \<Longrightarrow>
     list_all (unmarked i) (tl_interfaces (wake_queue_txqs q l)) \<and> i \<notin> set (tl_woken (wake_queue_txqs q l))"
  using wake_iface_txqs_unmarked by (auto simp: wake_queue_txqs_def list_all_iff)

lemma wake_queues_txqs_unmarked:
  "list_all (unmarked i) (tl_interfaces l) \<Longrightarrow> i \<notin> set (tl_woken l) \<Longrightarrow>
     list_all (unmarked i) (tl_interfaces (fold wake_queue_txqs qs l)) \<and> i \<notin> set (tl_woken (fold wake_queue_txqs qs l))"
proof (induction qs arbitrary: l)
  case (Cons q qs)
  then show ?case using wake_queue_txqs_unmarked [OF Cons.prems, of q] by simp
qed simp

text \<open>The wake-up of an interface's own transmit queue is lost: the walk over the access categories clears the
  mark of the interface's queue at the first category whose hardware queue is free, and wakes the
  queue only at its own category. If the voice category is free the best-effort queue that waits
  loses its mark and the driver is never told.\<close>

lemma vif_queue_wake_lost:
  assumes "tl_interfaces l = [s]" "vi_txq s = Some t" "vt_stop_netif_tx t" "vt_ac t = 2"
    and "vt_id t \<notin> vt_id ` set (vi_sta_txqs s)" "vt_id t \<notin> set (tl_woken l)"
    and "0 < tl_queues l" "tl_stop_reasons l 0 = {}" "vi_hw_queue s 0 = 0"
  shows "vt_id t \<notin> set (tl_woken (ieee80211_wake_txqs l)) \<and>
    vt_id t \<notin> set (tl_woken (ieee80211_wake_txqs (ieee80211_wake_txqs l)))"
proof -
  let ?l = "l\<lparr>tl_wake_txqs_scheduled := False\<rparr>"
  have first: "unmarked (vt_id t) (fst (wake_vif_txqs 0 s)) \<and> vt_id t \<notin> set (snd (wake_vif_txqs 0 s))"
    using assms(2-5) by (auto simp: unmarked_def wake_vif_txqs_def Let_def image_iff)
  have n: "[0..<n_acs l] = 0 # [1..<n_acs l]" by (simp add: n_acs_def IEEE80211_NUM_ACS_def upt_conv_Cons)
  have "unmarked (vt_id t) (fst (wake_iface_txqs (n_acs l) 0 s)) \<and> vt_id t \<notin> set (snd (wake_iface_txqs (n_acs l) 0 s))"
    using wake_iface_fold_unmarked [OF conjunct1 [OF first] conjunct2 [OF first], of 0 "[1..<n_acs l]"] assms(9)
    by (simp add: wake_iface_txqs_def n split_beta)
  then have z: "list_all (unmarked (vt_id t)) (tl_interfaces (wake_queue_txqs 0 ?l)) \<and> vt_id t \<notin> set (tl_woken (wake_queue_txqs 0 ?l))"
    using assms(1,6,8) by (simp add: wake_queue_txqs_def n_acs_def)
  have q: "[0..<tl_queues l] = 0 # [1..<tl_queues l]" using assms(7) by (simp add: upt_conv_Cons)
  have once: "list_all (unmarked (vt_id t)) (tl_interfaces (ieee80211_wake_txqs l)) \<and> vt_id t \<notin> set (tl_woken (ieee80211_wake_txqs l))"
    using wake_queues_txqs_unmarked [OF conjunct1 [OF z] conjunct2 [OF z], of "[1..<tl_queues l]"]
    by (simp add: ieee80211_wake_txqs_def wake_txqs_def q)
  then show ?thesis
    using wake_queues_txqs_unmarked [of "vt_id t" "(ieee80211_wake_txqs l)\<lparr>tl_wake_txqs_scheduled := False\<rparr>"]
    by (simp add: ieee80211_wake_txqs_def [of "ieee80211_wake_txqs l"] wake_txqs_def [of "(ieee80211_wake_txqs l)\<lparr>tl_wake_txqs_scheduled := False\<rparr>"])
qed

definition marked_local :: tx_local where
  "marked_local = (fresh_local 4 [sample_iface\<lparr>vi_txq := Some \<lparr>vt_id = 5, vt_ac = 2, vt_stop_netif_tx = True\<rparr>\<rparr>])
     \<lparr>tl_wake_tx_queue := True\<rparr>"

lemma vif_queue_wake_lost_witness: "5 \<notin> set (tl_woken (ieee80211_wake_txqs marked_local))"
  using vif_queue_wake_lost [of marked_local _ "\<lparr>vt_id = 5, vt_ac = 2, vt_stop_netif_tx = True\<rparr>"]
  by (simp add: marked_local_def fresh_local_def sample_iface_def)

text \<open>
  With a queue for frames after beacons the walk also goes through the categories whose own
  queue is stopped: a sample run in which the driver has stopped the voice queue and an
  unrelated wake-up lets its transmit queues go.
\<close>

lemma cab_queue_wakes_stopped:
  "let l = (fresh_local 5 [sample_iface\<lparr>vi_cab_queue := 4\<rparr>])\<lparr>tl_wake_tx_queue := True\<rparr>;
       l' = run (txq_step (\<lambda>skb. [])) l [StopQueue 0 IEEE80211_QUEUE_STOP_REASON_DRIVER False,
              StopQueue 1 IEEE80211_QUEUE_STOP_REASON_PS False, WakeQueue 1 IEEE80211_QUEUE_STOP_REASON_PS False]
   in IEEE80211_QUEUE_STOP_REASON_DRIVER \<in> tl_stop_reasons l' 0 \<and> \<not> vi_txqs_stopped (hd (tl_interfaces l')) 0"
  by (simp add: txq_eval wake_txqs_def wake_queue_txqs_def wake_iface_txqs_def wake_vif_txqs_def upt_conv_Cons)

section \<open>Several aggregation set-ups\<close>

text \<open>
  The steps of the set-ups of several stations on one queue. A thread counts itself in,
  stops the queue if it was the first, works, counts itself out and wakes the queue if it
  was the last. The count is atomic, and so is the change of the queue, but not the two
  together.
\<close>

datatype agg_pc = Outside | Counted bool | Inside | Uncounted bool

inductive agg_step :: "nat \<Rightarrow> (nat \<Rightarrow> agg_pc) \<times> tx_local \<Rightarrow> (nat \<Rightarrow> agg_pc) \<times> tx_local \<Rightarrow> bool" for q where
  count_in: "pc t = Outside \<Longrightarrow> l' = agg_count 1 q l \<Longrightarrow>
    agg_step q (pc, l) (pc(t := Counted (tl_agg_queue_stop l' q = 1)), l')"
| stop: "pc t = Counted b \<Longrightarrow>
    l' = (if b then ieee80211_stop_queue_by_reason q IEEE80211_QUEUE_STOP_REASON_AGGREGATION False l else l) \<Longrightarrow>
    agg_step q (pc, l) (pc(t := Inside), l')"
| count_out: "pc t = Inside \<Longrightarrow> l' = agg_count (- 1) q l \<Longrightarrow>
    agg_step q (pc, l) (pc(t := Uncounted (tl_agg_queue_stop l' q = 0)), l')"
| wake: "pc t = Uncounted b \<Longrightarrow>
    l' = (if b then ieee80211_wake_queue_by_reason q IEEE80211_QUEUE_STOP_REASON_AGGREGATION False l else l) \<Longrightarrow>
    agg_step q (pc, l) (pc(t := Outside), l')"

inductive_cases agg_stepE: "agg_step q (pc, l) (pc', l')"

text \<open>The count is the number of the threads between their counts.\<close>

fun counted_in :: "agg_pc \<Rightarrow> bool" where
  "counted_in Outside = False"
| "counted_in (Counted b) = True"
| "counted_in Inside = True"
| "counted_in (Uncounted b) = False"

definition agg_counted :: "nat \<Rightarrow> (nat \<Rightarrow> agg_pc) \<times> tx_local \<Rightarrow> bool" where
  "agg_counted q c \<longleftrightarrow> finite {t. counted_in (fst c t)} \<and>
     tl_agg_queue_stop (snd c) q = int (card {t. counted_in (fst c t)})"

lemma counted_update:
  "{x. counted_in ((pc(t := p)) x)} = (if counted_in p then insert t {x. counted_in (pc x)} else {x. counted_in (pc x)} - {t})"
  by auto

lemma agg_step_counted: "agg_step q c c' \<Longrightarrow> agg_counted q c \<Longrightarrow> agg_counted q c'"
proof (induction rule: agg_step.induct)
  case (count_out pc t l' l)
  then have "t \<in> {x. counted_in (pc x)}" by simp
  moreover from this have "0 < card {x. counted_in (pc x)}"
    using count_out(3) by (auto simp: agg_counted_def card_gt_0_iff)
  ultimately show ?case using count_out unfolding agg_counted_def fst_conv snd_conv counted_update
    by (simp add: agg_count_def card_Diff_singleton of_nat_diff Suc_leI)
next
  case (count_in pc t l' l)
  then show ?case unfolding agg_counted_def fst_conv snd_conv counted_update by (simp add: agg_count_def)
next
  case (stop pc t b l' l)
  then show ?case unfolding agg_counted_def fst_conv snd_conv counted_update by (simp add: insert_absorb)
next
  case (wake pc t b l' l)
  then show ?case unfolding agg_counted_def fst_conv snd_conv counted_update by simp
qed

lemma agg_steps_counted: "(agg_step q)\<^sup>*\<^sup>* c c' \<Longrightarrow> agg_counted q c \<Longrightarrow> agg_counted q c'"
  by (induction rule: rtranclp_induct) (auto intro: agg_step_counted)

text \<open>C39: The count of the set-ups does not keep the queue stopped: it counts the threads that hold the queue, but
  since the count and the stop are separate steps, a thread that was the last to leave can wake the queue
  after another has entered, which then works on a queue that is not stopped for it.\<close>

theorem aggregation_count_races:
  assumes "tl_agg_queue_stop l q = 0" "q < tl_queues l"
  shows "\<exists>pc l'. (agg_step q)\<^sup>*\<^sup>* (\<lambda>_. Outside, l) (pc, l') \<and> pc 1 = Inside \<and> tl_agg_queue_stop l' q = 1 \<and>
    IEEE80211_QUEUE_STOP_REASON_AGGREGATION \<notin> tl_stop_reasons l' q"
proof -
  let ?stop = "ieee80211_stop_queue_by_reason q IEEE80211_QUEUE_STOP_REASON_AGGREGATION False"
  let ?wake = "ieee80211_wake_queue_by_reason q IEEE80211_QUEUE_STOP_REASON_AGGREGATION False"
  let ?p = "\<lambda>a b. ((\<lambda>_. Outside)(0 := a, 1 := b)) :: nat \<Rightarrow> agg_pc"
  define l1 where "l1 = ?stop (agg_count 1 q l)"
  define l2 where "l2 = agg_count 1 q (agg_count (- 1) q l1)"
  have c1: "tl_agg_queue_stop l1 q = 1" using assms(1) by (simp add: l1_def agg_count_def)
  have c2: "tl_agg_queue_stop (?stop l2) q = 1" using c1 by (simp add: l2_def agg_count_def)
  have s0: "agg_step q (?p Outside Outside, l) (?p (Counted True) Outside, agg_count 1 q l)"
    using agg_step.count_in [of "?p Outside Outside" 0 _ q l] assms(1) by (simp add: agg_count_def fun_upd_twist)
  have s1: "agg_step q (?p (Counted True) Outside, agg_count 1 q l) (?p Inside Outside, l1)"
    using agg_step.stop [of "?p (Counted True) Outside" 0 True _ q] by (simp add: l1_def fun_upd_twist)
  have s2: "agg_step q (?p Inside Outside, l1) (?p (Uncounted True) Outside, agg_count (- 1) q l1)"
    using agg_step.count_out [of "?p Inside Outside" 0 _ q l1] c1 by (simp add: agg_count_def fun_upd_twist)
  have s3: "agg_step q (?p (Uncounted True) Outside, agg_count (- 1) q l1) (?p (Uncounted True) (Counted True), l2)"
    using agg_step.count_in [of "?p (Uncounted True) Outside" 1 _ q "agg_count (- 1) q l1"] c1
    by (simp add: l2_def agg_count_def)
  have s4: "agg_step q (?p (Uncounted True) (Counted True), l2) (?p (Uncounted True) Inside, ?stop l2)"
    using agg_step.stop [of "?p (Uncounted True) (Counted True)" 1 True _ q] by simp
  have s5: "agg_step q (?p (Uncounted True) Inside, ?stop l2) (?p Outside Inside, ?wake (?stop l2))"
    using agg_step.wake [of "?p (Uncounted True) Inside" 0 True _ q] by (simp add: fun_upd_twist)
  have "(agg_step q)\<^sup>*\<^sup>* (?p Outside Outside, l) (?p Outside Inside, ?wake (?stop l2))"
    using s0 s1 s2 s3 s4 s5 by (meson converse_rtranclp_into_rtranclp rtranclp.rtrancl_refl)
  moreover have "?p Outside Outside = (\<lambda>_. Outside)" by auto
  moreover have "IEEE80211_QUEUE_STOP_REASON_AGGREGATION \<notin> tl_stop_reasons (?wake (?stop l2)) q"
    using assms(2) by (simp add: wake_queue_reasons drop_reason_def count_wake_def stop_queue_reasons l2_def l1_def)
  ultimately show ?thesis using c2 by (intro exI [of _ "?p Outside Inside"] exI [of _ "?wake (?stop l2)"]) simp
qed

theorem aggregation_count_races_witness:
  "\<exists>pc l'. (agg_step 2)\<^sup>*\<^sup>* (\<lambda>_. Outside, fresh_local 4 [sample_iface]) (pc, l') \<and> pc 1 = Inside \<and>
     IEEE80211_QUEUE_STOP_REASON_AGGREGATION \<notin> tl_stop_reasons l' 2"
  using aggregation_count_races [of "fresh_local 4 [sample_iface]" 2] by (auto simp: fresh_local_def)

end
