(* ===== verification/TxQueueOrder.thy ===== *)
theory TxQueueOrder
  imports TxQueueRun
begin

text \<open>
  The order of the frames of a queue. A frame that waits stands for the frames the transmit
  handlers make of it; the flow of a queue is what the driver has got, followed by what
  waits. Every operation leaves the flow alone or extends it at its end by what it offers.
\<close>

section \<open>The flow of a queue\<close>

text \<open>Frames that are not marked for off-channel transmission; they are never dropped for a stopped queue.\<close>

definition sendable :: "nat \<Rightarrow> tx_skb \<Rightarrow> bool" where
  "sendable q x \<longleftrightarrow> ready_for q x \<and> ts_vif x \<noteq> None \<and> \<not> flag_set (ts_flags x) IEEE80211_TX_INTFL_OFFCHAN_TX_OK"

definition plain :: "(tx_skb \<Rightarrow> tx_skb list) \<Rightarrow> nat \<Rightarrow> tx_skb \<Rightarrow> bool" where
  "plain handlers q skb \<longleftrightarrow> ts_vif skb \<noteq> None \<and> list_all (sendable q) (processed handlers skb)"

definition plain_ok :: "(tx_skb \<Rightarrow> tx_skb list) \<Rightarrow> tx_local \<Rightarrow> bool" where
  "plain_ok handlers l \<longleftrightarrow> (\<forall>q. list_all (plain handlers q) (tl_pending l q))"

definition sent_ids :: "nat \<Rightarrow> tx_local \<Rightarrow> nat list" where
  "sent_ids q l = map ts_id (filter (\<lambda>x. ts_hw_queue x = q) (tl_sent l))"

definition frame_ids :: "(tx_skb \<Rightarrow> tx_skb list) \<Rightarrow> tx_skb list \<Rightarrow> nat list" where
  "frame_ids handlers skbs = map ts_id (concat (map (processed handlers) skbs))"

definition flow :: "(tx_skb \<Rightarrow> tx_skb list) \<Rightarrow> nat \<Rightarrow> tx_local \<Rightarrow> nat list" where
  "flow handlers q l = sent_ids q l @ frame_ids handlers (tl_pending l q)"

lemma frame_ids_simps [simp]:
  "frame_ids h [] = []" "frame_ids h (x # xs) = map ts_id (processed h x) @ frame_ids h xs"
  "frame_ids h (xs @ ys) = frame_ids h xs @ frame_ids h ys"
  by (simp_all add: frame_ids_def)

lemma sendable_frame_ids: "list_all (sendable q) xs \<Longrightarrow> frame_ids h xs = map ts_id xs"
  by (induction xs) (simp_all add: sendable_def ready_for_def processed_def)

lemma sendable_plain: "sendable q x \<Longrightarrow> plain h q x"
  by (simp add: plain_def sendable_def processed_def ready_for_def)

definition kept :: "tx_local \<Rightarrow> tx_local \<Rightarrow> bool" where
  "kept l m \<longleftrightarrow> tl_sent m = tl_sent l \<and> tl_pending m = tl_pending l \<and> tl_agg_queue_stop m = tl_agg_queue_stop l"

lemma kept_flow: "kept l m \<Longrightarrow> flow h q m = flow h q l \<and> plain_ok h m = plain_ok h l"
  by (simp add: kept_def flow_def sent_ids_def plain_ok_def)

lemma kept_refl [simp]: "kept l l" by (simp add: kept_def)

lemma kept_trans: "kept l m \<Longrightarrow> kept m k \<Longrightarrow> kept l k" by (simp add: kept_def)

lemma stop_kept [simp]: "kept l (ieee80211_stop_queue_by_reason q r c l)" by (simp add: kept_def)

lemma propagate_kept [simp]: "kept l (ieee80211_propagate_queue_wake q l)" by (simp add: kept_def)

lemma drop_reason_kept: "kept l (drop_reason q r c l)"
  by (simp add: kept_def) (simp add: drop_reason_def Let_def)

lemma same_queues_kept: "same_queues l m \<Longrightarrow> kept l m"
  by (simp add: same_queues_def kept_def)

lemma wake_kept [simp]: "kept l (ieee80211_wake_queue_by_reason q r c l)"
proof (cases rule: wake_queue_cases [of q r c l])
  case held
  then show ?thesis using drop_reason_kept [of l q r c] by simp
next
  case free
  have "kept (drop_reason q r c l) (if waiting_frames l q then (drop_reason q r c l)\<lparr>tl_tx_pending_scheduled := True\<rparr>
         else ieee80211_propagate_queue_wake q (drop_reason q r c l))" by (simp add: kept_def)
  from kept_trans [OF kept_trans [OF drop_reason_kept this] same_queues_kept [OF free(2)]] show ?thesis .
qed simp

lemma fold_kept: "(\<And>x l. kept l (f x l)) \<Longrightarrow> kept l (fold f xs l)"
  by (induction xs arbitrary: l) (auto intro: kept_trans)

lemma drv_tx_flow:
  "tl_pending (drv_tx stops x l) = tl_pending l" "tl_sent (drv_tx stops x l) = tl_sent l @ [x]"
  "tl_agg_queue_stop (drv_tx stops x l) = tl_agg_queue_stop l"
  using fold_kept [of "\<lambda>q. ieee80211_stop_queue_by_reason q IEEE80211_QUEUE_STOP_REASON_DRIVER False" "l\<lparr>tl_sent := tl_sent l @ [x]\<rparr>"]
  by (simp_all add: drv_tx_def kept_def)

lemma sendable_vif: "ts_hw_queue (x\<lparr>ts_vif := v\<rparr>) = ts_hw_queue x" "ts_id (x\<lparr>ts_vif := v\<rparr>) = ts_id x"
  by simp_all

text \<open>A packet goes behind what waits when it is new and before it when it comes from there.\<close>

lemma tx_frags_flow:
  assumes "ieee80211_tx_frags stops vif txpending xs l = (b, l')" "list_all (sendable q) xs" "plain_ok h l"
  shows "flow h q l' = (if txpending then sent_ids q l @ map ts_id xs @ frame_ids h (tl_pending l q) else flow h q l @ map ts_id xs) \<and>
    (\<forall>q'. q' \<noteq> q \<longrightarrow> flow h q' l' = flow h q' l) \<and> plain_ok h l' \<and> tl_agg_queue_stop l' = tl_agg_queue_stop l"
  using assms
proof (induction xs arbitrary: l)
  case Nil
  then show ?case by (auto simp: flow_def)
next
  case (Cons x xs)
  let ?l = "drv_tx stops (x\<lparr>ts_vif := vif\<rparr>) l"
  have x: "ts_hw_queue x = q" "\<not> flag_set (ts_flags x) IEEE80211_TX_INTFL_OFFCHAN_TX_OK"
    using Cons.prems(2) by (simp_all add: sendable_def ready_for_def)
  have f: "sent_ids q ?l = sent_ids q l @ [ts_id x]" "q' \<noteq> q \<Longrightarrow> sent_ids q' ?l = sent_ids q' l" for q'
    using x by (simp_all add: sent_ids_def drv_tx_flow)
  have fr: "frame_ids h (x # xs) = map ts_id (x # xs)" using Cons.prems(2) by (rule sendable_frame_ids)
  have p: "list_all (plain h q) (x # xs)" using Cons.prems(2) by (auto simp: list_all_iff sendable_plain)
  show ?case
  proof (cases "tl_stop_reasons l q \<noteq> {} \<or> (\<not> txpending \<and> tl_pending l q \<noteq> [])")
    case True
    then have l': "l' = set_pending q (if txpending then (x # xs) @ tl_pending l q else tl_pending l q @ x # xs) l"
      using Cons.prems(1) x by (auto simp: Let_def)
    have pl: "list_all (plain h q') (tl_pending l q')" for q' using Cons.prems(3) by (simp add: plain_ok_def)
    have po: "plain_ok h l'" using pl p by (auto simp: plain_ok_def l')
    have s: "sent_ids q' l' = sent_ids q' l" for q' by (simp add: sent_ids_def l')
    have fq: "frame_ids h (tl_pending l' q) = (if txpending then map ts_id (x # xs) @ frame_ids h (tl_pending l q)
        else frame_ids h (tl_pending l q) @ map ts_id (x # xs))"
      unfolding l' using fr by simp
    show ?thesis using po s fq by (simp add: flow_def) (simp add: l')
  next
    case False
    then have r: "ieee80211_tx_frags stops vif txpending xs ?l = (b, l')" using Cons.prems(1) x by (auto simp: Let_def)
    have po: "plain_ok h ?l" using Cons.prems(3) by (simp add: plain_ok_def)
    have w: "\<not> txpending \<Longrightarrow> tl_pending l q = []" using False by simp
    from Cons.IH [OF r _ po] Cons.prems(2) show ?thesis
      using f w by (auto simp: flow_def drv_tx_flow)
  qed
qed

section \<open>The tasklet\<close>

lemma drain_queue_flow:
  "plain_ok h l \<Longrightarrow> plain_ok h (drain_queue h stops i l) \<and> flow h q (drain_queue h stops i l) = flow h q l \<and>
     tl_agg_queue_stop (drain_queue h stops i l) = tl_agg_queue_stop l"
proof (induction "length (tl_pending l i)" arbitrary: l rule: less_induct)
  case less
  show ?case
  proof (cases "tl_pending l i")
    case Nil
    then have "drain_queue h stops i l = l" by (subst drain_queue.simps) simp
    then show ?thesis using less.prems by simp
  next
    case (Cons skb rest)
    define m where "m = set_pending i rest l"
    have pl: "plain h i skb" "list_all (plain h i) rest"
      using less.prems Cons by (auto simp: plain_ok_def dest: spec [of _ i])
    have pm: "plain_ok h m" using less.prems pl by (simp add: plain_ok_def m_def)
    have v: "ts_vif skb \<noteq> None" "list_all (sendable i) (processed h skb)" using pl(1) by (simp_all add: plain_def)
    obtain b m' where t: "ieee80211_tx_pending_skb h stops skb m = (b, m')" by fastforce
    then have t': "ieee80211_tx_frags stops (ts_vif skb) True (processed h skb) m = (b, m')"
      by (simp add: ieee80211_tx_pending_skb_def processed_def)
    have e: "drain_queue h stops i l = (if b then drain_queue h stops i m' else m')"
      using v(1) by (cases "ts_vif skb"; subst drain_queue.simps) (simp_all add: Cons m_def [symmetric] t)
    from tx_frags_flow [OF t' v(2) pm]
    have r: "plain_ok h m'" "flow h q m' = flow h q l" "tl_agg_queue_stop m' = tl_agg_queue_stop l"
      by (cases "q = i"; auto simp: flow_def m_def Cons sent_ids_def)+
    have n: "b \<Longrightarrow> length (tl_pending m' i) < length (tl_pending l i)"
      using tx_pending_skb_ok_pending [of h stops skb m m'] t by (simp add: m_def Cons)
    show ?thesis using less.hyps [OF n r(1)] r by (simp add: e)
  qed
qed

lemma pending_round_flow:
  assumes "plain_ok h l"
  shows "plain_ok h (pending_round h stops i l) \<and> flow h q (pending_round h stops i l) = flow h q l \<and>
    tl_agg_queue_stop (pending_round h stops i l) = tl_agg_queue_stop l"
  using assms drain_queue_flow [OF assms, of stops i] kept_flow [OF propagate_kept] propagate_kept
  by (auto simp: pending_round_def Let_def)

lemma tx_pending_flow:
  assumes "plain_ok h l"
  shows "plain_ok h (ieee80211_tx_pending h stops l) \<and> flow h q (ieee80211_tx_pending h stops l) = flow h q l"
proof -
  have "plain_ok h l \<Longrightarrow> plain_ok h (fold (pending_round h stops) is l) \<and> flow h q (fold (pending_round h stops) is l) = flow h q l"
    for "is" l
    by (induction "is" arbitrary: l) (simp_all add: pending_round_flow)
  moreover have "plain_ok h (l\<lparr>tl_tx_pending_scheduled := False\<rparr>)" "flow h q (l\<lparr>tl_tx_pending_scheduled := False\<rparr>) = flow h q l"
    using assms by (simp_all add: plain_ok_def flow_def sent_ids_def)
  ultimately show ?thesis by (simp add: ieee80211_tx_pending_def)
qed

section \<open>Every event\<close>

text \<open>What an event adds to the flow of a queue.\<close>

fun offered :: "(tx_skb \<Rightarrow> tx_skb list) \<Rightarrow> nat \<Rightarrow> tx_local \<Rightarrow> txq_event \<Rightarrow> nat list" where
  "offered h q l (AddPending skb) = (if ts_hw_queue skb = q then frame_ids h [skb] else [])"
| "offered h q l (AddPendings skbs) = frame_ids h (filter (\<lambda>skb. ts_hw_queue skb = q) skbs)"
| "offered h q l (Transmit stops vif skbs) = map ts_id (filter (\<lambda>skb. ts_hw_queue skb = q) skbs)"
| "offered h q l (AggSplice q' skbs) = (if q' = q \<and> 0 < tl_agg_queue_stop l q then frame_ids h skbs else [])"
| "offered h q l _ = []"

fun plain_event :: "(tx_skb \<Rightarrow> tx_skb list) \<Rightarrow> txq_event \<Rightarrow> bool" where
  "plain_event h (AddPending skb) = plain h (ts_hw_queue skb) skb"
| "plain_event h (AddPendings skbs) = list_all (\<lambda>skb. plain h (ts_hw_queue skb) skb) skbs"
| "plain_event h (Transmit stops vif skbs) = (skbs = [] \<or> list_all (sendable (ts_hw_queue (hd skbs))) skbs)"
| "plain_event h (AggSplice q skbs) = list_all (plain h q) skbs"
| "plain_event h _ = True"

fun offered_run :: "(tx_skb \<Rightarrow> tx_skb list) \<Rightarrow> nat \<Rightarrow> tx_local \<Rightarrow> txq_event list \<Rightarrow> nat list" where
  "offered_run h q l [] = []"
| "offered_run h q l (e # es) = offered h q l e @ offered_run h q (txq_step h l e) es"

lemma add_pending_flow:
  "plain_ok h l \<Longrightarrow> list_all (plain h q') skbs \<Longrightarrow>
     plain_ok h (add_pending q' skbs l) \<and> flow h q (add_pending q' skbs l) = flow h q l @ (if q' = q then frame_ids h skbs else [])"
  by (auto simp: add_pending_def plain_ok_def flow_def sent_ids_def)

lemma stop_and_add_flow:
  assumes "plain_ok h l" "plain h (ts_hw_queue skb) skb"
  shows "plain_ok h (stop_and_add skb l) \<and> flow h q (stop_and_add skb l) =
    flow h q l @ (if ts_hw_queue skb = q then frame_ids h [skb] else [])"
proof -
  obtain v where "ts_vif skb = Some v" using assms(2) by (auto simp: plain_def)
  then show ?thesis
    using add_pending_flow [of h _ "ts_hw_queue skb" "[skb]" q] kept_flow [OF stop_kept] assms
    by (simp add: stop_and_add_def)
qed

lemma stop_and_adds_flow:
  "plain_ok h l \<Longrightarrow> list_all (\<lambda>skb. plain h (ts_hw_queue skb) skb) skbs \<Longrightarrow>
     plain_ok h (fold stop_and_add skbs l) \<and>
     flow h q (fold stop_and_add skbs l) = flow h q l @ frame_ids h (filter (\<lambda>skb. ts_hw_queue skb = q) skbs)"
proof (induction skbs arbitrary: l)
  case (Cons skb skbs)
  then show ?case using stop_and_add_flow [of h l skb q] by auto
qed simp

lemma step_flow:
  assumes "plain_ok h l" "plain_event h e"
  shows "plain_ok h (txq_step h l e) \<and> flow h q (txq_step h l e) = flow h q l @ offered h q l e"
proof (cases e)
  case (StopQueues qs r c)
  have "kept l (txq_step h l e)" unfolding StopQueues txq_step.simps ieee80211_stop_queues_by_reason_def
    by (rule fold_kept) simp
  then show ?thesis using assms kept_flow by (simp add: StopQueues)
next
  case (WakeQueues qs r c)
  have "kept l (txq_step h l e)" unfolding WakeQueues txq_step.simps ieee80211_wake_queues_by_reason_def
    by (rule fold_kept) simp
  then show ?thesis using assms kept_flow by (simp add: WakeQueues)
next
  case (StopQueue q' r c)
  then show ?thesis using assms kept_flow [OF stop_kept] by simp
next
  case (WakeQueue q' r c)
  then show ?thesis using assms kept_flow [OF wake_kept] by simp
next
  case (AddPending skb)
  then obtain v where "ts_vif skb = Some v" using assms(2) by (auto simp: plain_def)
  then show ?thesis
    using assms AddPending stop_and_add_flow [of h l skb q] kept_flow [OF wake_kept] by (simp add: add_pending_skb_split)
next
  case (AddPendings skbs)
  have "kept (fold stop_and_add skbs l) (ieee80211_add_pending_skbs skbs l)"
    unfolding ieee80211_add_pending_skbs_def Let_def by (rule fold_kept) simp
  then show ?thesis using assms AddPendings stop_and_adds_flow [of h l skbs q] kept_flow by simp
next
  case (Transmit stops vif skbs)
  obtain b l' where t: "ieee80211_tx_frags stops vif False skbs l = (b, l')" by fastforce
  show ?thesis
  proof (cases "skbs = []")
    case True
    then show ?thesis using assms Transmit by simp
  next
    case False
    let ?q = "ts_hw_queue (hd skbs)"
    have s: "list_all (sendable ?q) skbs" using assms(2) Transmit False by simp
    have "filter (\<lambda>skb. ts_hw_queue skb = q) skbs = (if ?q = q then skbs else [])"
      using s by (auto simp: list_all_iff sendable_def ready_for_def filter_id_conv filter_empty_conv)
    then show ?thesis using tx_frags_flow [OF t s assms(1)] t Transmit by (cases "?q = q") simp_all
  qed
next
  case (PendingTasklet stops)
  then show ?thesis using tx_pending_flow [OF assms(1)] by simp
next
  case WakeTxqsTasklet
  have "kept l (ieee80211_wake_txqs l)"
    using same_queues_kept [OF wake_txqs_same [of "l\<lparr>tl_wake_txqs_scheduled := False\<rparr>"]]
    by (simp add: ieee80211_wake_txqs_def kept_def)
  then show ?thesis using assms kept_flow by (simp add: WakeTxqsTasklet)
next
  case (AggSplice q' skbs)
  then show ?thesis using assms add_pending_flow [of h l q' skbs q] by auto
next
  case (AggStop q')
  have "plain_ok h (agg_count 1 q' l) = plain_ok h l" "flow h q (agg_count 1 q' l) = flow h q l"
    by (simp_all add: agg_count_def plain_ok_def flow_def sent_ids_def)
  then show ?thesis using assms kept_flow [OF stop_kept] by (simp add: AggStop ieee80211_stop_queue_agg_def Let_def)
next
  case (AggWake q')
  have "plain_ok h (agg_count (- 1) q' l) = plain_ok h l" "flow h q (agg_count (- 1) q' l) = flow h q l"
    by (simp_all add: agg_count_def plain_ok_def flow_def sent_ids_def)
  then show ?thesis using assms kept_flow [OF wake_kept] by (simp add: AggWake ieee80211_wake_queue_agg_def Let_def)
qed

lemma run_flow:
  "plain_ok h l \<Longrightarrow> list_all (plain_event h) events \<Longrightarrow>
     flow h q (run (txq_step h) l events) = flow h q l @ offered_run h q l events"
proof (induction events arbitrary: l)
  case (Cons e es)
  then show ?case using step_flow [of h l e] by simp
qed simp



end
