(* ===== verification/RxReorder.thy ===== *)
theory RxReorder
  imports Prelude "HOL-Library.Multiset"
begin

text \<open>
  The reorder buffer of a receive block-ack session (net/mac80211/rx.c, struct tid_ampdu_rx
  of net/mac80211/sta_info.h, and the sequence number arithmetic of linux/ieee80211.h).

  A frame is its sequence control field, the driver's flag that more subframes of the same
  A-MSDU follow, the flag that marks a deferred release, and a name. The queues of the ring
  are lists. The time (\<open>jiffies\<close>) and the tick rate (\<open>HZ\<close>, a build option) are
  arguments, unsigned long has 64 bits. The ring walks compare C ints that are reduced with
  the C remainder; they need not end, so they are partial (None is the endless loop).
  \<open>BIT_ULL(i)\<close> is undefined in C for i at or above 64; every claim about the ring
  keeps the buffer size at or below 64.
\<close>

section \<open>Sequence numbers\<close>

definition IEEE80211_SN_MASK :: u16 where "IEEE80211_SN_MASK = drop_bit 4 IEEE80211_SCTL_SEQ"
definition IEEE80211_SN_MODULO :: u16 where "IEEE80211_SN_MODULO = IEEE80211_SN_MASK + 1"

definition ieee80211_sn_less :: "u16 \<Rightarrow> u16 \<Rightarrow> bool" where
  "ieee80211_sn_less sn1 sn2 \<longleftrightarrow> ((sn1 - sn2) AND IEEE80211_SN_MASK) > drop_bit 1 IEEE80211_SN_MODULO"

definition ieee80211_sn_add :: "u16 \<Rightarrow> u16 \<Rightarrow> u16" where
  "ieee80211_sn_add sn1 sn2 = (sn1 + sn2) AND IEEE80211_SN_MASK"

definition ieee80211_sn_inc :: "u16 \<Rightarrow> u16" where
  "ieee80211_sn_inc sn = ieee80211_sn_add sn 1"

definition ieee80211_sn_sub :: "u16 \<Rightarrow> u16 \<Rightarrow> u16" where
  "ieee80211_sn_sub sn1 sn2 = (sn1 - sn2) AND IEEE80211_SN_MASK"

section \<open>Frames and the session\<close>

record skb =
  seq_ctrl :: u16
  amsdu_more :: bool
  deferred_release :: bool
  skb_id :: nat

definition mpdu_sn :: "skb \<Rightarrow> u16" where
  "mpdu_sn skb = drop_bit 4 (seq_ctrl skb AND IEEE80211_SCTL_SEQ)"

record tid_ampdu_rx =
  reorder_buf_filtered :: u64
  reorder_buf :: "skb list list"
  reorder_time :: "u64 list"
  reorder_timer :: "u64 option"
  last_rx :: u64
  head_seq_num :: u16
  stored_mpdu_num :: u16
  ssn :: u16
  buf_size :: u16
  ba_timeout :: u16
  auto_seq :: bool
  removed :: bool
  started :: bool

definition BIT_ULL :: "nat \<Rightarrow> u64" where "BIT_ULL n = push_bit n 1"

text \<open>Index of a sequence number in the ring.\<close>

definition ring_index :: "tid_ampdu_rx \<Rightarrow> u16 \<Rightarrow> int" where
  "ring_index t sn = uint sn mod uint (buf_size t)"

section \<open>Releasing\<close>

definition ieee80211_rx_reorder_ready :: "tid_ampdu_rx \<Rightarrow> int \<Rightarrow> bool" where
  "ieee80211_rx_reorder_ready t index \<longleftrightarrow>
     (let frames = reorder_buf t ! nat index in
      if reorder_buf_filtered t AND BIT_ULL (nat index) \<noteq> 0 then True
      else if frames = [] then False
      else if amsdu_more (last frames) then False
      else True)"

type_synonym release = "tid_ampdu_rx \<times> skb list"

definition ieee80211_release_reorder_frame :: "int \<Rightarrow> release \<Rightarrow> release" where
  "ieee80211_release_reorder_frame index s =
     (case s of (t, frames) \<Rightarrow>
        let skb_list = reorder_buf t ! nat index;
            (t, frames) =
              (if skb_list = [] then (t, frames)
               else if \<not> ieee80211_rx_reorder_ready t index
               then (t\<lparr>reorder_buf := (reorder_buf t)[nat index := []]\<rparr>, frames)
               else (t\<lparr>stored_mpdu_num := stored_mpdu_num t - 1,
                       reorder_buf := (reorder_buf t)[nat index := []]\<rparr>,
                     frames @ map (\<lambda>skb. skb\<lparr>deferred_release := True\<rparr>) skb_list))
        in (t\<lparr>reorder_buf_filtered := reorder_buf_filtered t AND NOT (BIT_ULL (nat index)),
              head_seq_num := ieee80211_sn_inc (head_seq_num t)\<rparr>, frames))"

function ieee80211_release_reorder_frames :: "u16 \<Rightarrow> release \<Rightarrow> release" where
  "ieee80211_release_reorder_frames head_sn s =
     (if ieee80211_sn_less (head_seq_num (fst s)) head_sn
      then ieee80211_release_reorder_frames head_sn
             (ieee80211_release_reorder_frame (ring_index (fst s) (head_seq_num (fst s))) s)
      else s)"
  by auto

text \<open>The distance from a window's head to a sequence number.\<close>

definition sn_dist :: "u16 \<Rightarrow> u16 \<Rightarrow> nat" where
  "sn_dist h s = unat (ieee80211_sn_sub s h)"

lemma sn_mask_int: "uint (x AND IEEE80211_SN_MASK) = uint x mod 4096"
proof -
  have "IEEE80211_SN_MASK = Bit_Operations.mask 12"
    by (simp add: IEEE80211_SN_MASK_def IEEE80211_SCTL_SEQ_def drop_bit_eq_div mask_eq_exp_minus_1)
  then have "x AND IEEE80211_SN_MASK = take_bit 12 x" by (simp add: take_bit_eq_mask)
  then show ?thesis by (simp add: take_bit_eq_mod uint_mod)
qed

lemma sn_dist_int: "int (sn_dist h s) = (uint s - uint h) mod 4096"
  by (simp add: sn_dist_def ieee80211_sn_sub_def sn_mask_int uint_word_ariths mod_mod_cancel)

lemma sn_dist_less [simp]: "sn_dist h s < 4096"
  using sn_dist_int [of h s] by (metis of_nat_less_iff of_nat_numeral pos_mod_bound zero_less_numeral)

lemma sn_less_dist: "ieee80211_sn_less a b \<longleftrightarrow> 2048 < sn_dist b a"
proof -
  have "drop_bit 1 IEEE80211_SN_MODULO = (2048 :: u16)"
    by (simp add: IEEE80211_SN_MODULO_def IEEE80211_SN_MASK_def IEEE80211_SCTL_SEQ_def drop_bit_eq_div)
  then show ?thesis
    by (simp add: ieee80211_sn_less_def sn_dist_def ieee80211_sn_sub_def word_less_nat_alt)
qed

lemma sn_add_int: "uint (ieee80211_sn_add a b) = (uint a + uint b) mod 4096"
  by (simp add: ieee80211_sn_add_def sn_mask_int uint_word_ariths mod_mod_cancel)

lemma sn_inc_int: "uint (ieee80211_sn_inc a) = (uint a + 1) mod 4096"
  by (simp add: ieee80211_sn_inc_def sn_add_int)

lemma sn_dist_inc: assumes "0 < sn_dist h s" shows "sn_dist (ieee80211_sn_inc h) s = sn_dist h s - 1"
proof -
  have "int (sn_dist (ieee80211_sn_inc h) s) = ((uint s - uint h) mod 4096 - 1) mod 4096"
    by (simp add: sn_dist_int sn_inc_int mod_simps algebra_simps)
  also have "\<dots> = (int (sn_dist h s) - 1) mod 4096" by (simp add: sn_dist_int)
  also have "\<dots> = int (sn_dist h s) - 1" using assms sn_dist_less [of h s] by (intro mod_pos_pos_trivial) linarith+
  finally show ?thesis using assms by simp
qed

lemma sn_dist_flip: assumes "0 < sn_dist h s" shows "sn_dist s h = 4096 - sn_dist h s"
proof -
  have "int (sn_dist s h) = (- ((uint s - uint h) mod 4096)) mod 4096"
    by (simp add: sn_dist_int mod_simps)
  also have "\<dots> = (- int (sn_dist h s)) mod 4096" by (simp add: sn_dist_int)
  also have "\<dots> = (4096 - int (sn_dist h s)) mod 4096" by simp
  also have "\<dots> = 4096 - int (sn_dist h s)" using assms sn_dist_less [of h s] by (intro mod_pos_pos_trivial) linarith+
  finally show ?thesis by simp
qed

lemma release_head_seq [simp]:
  "head_seq_num (fst (ieee80211_release_reorder_frame i s)) = ieee80211_sn_inc (head_seq_num (fst s))"
  by (cases s) (simp add: ieee80211_release_reorder_frame_def Let_def)

text \<open>The loop of the window move always ends: every release brings the head one closer.\<close>

termination ieee80211_release_reorder_frames
proof (relation "measure (\<lambda>(n, s). sn_dist (head_seq_num (fst s)) n)", goal_cases)
  case (2 head_sn s)
  then have "2048 < sn_dist head_sn (head_seq_num (fst s))" by (simp add: sn_less_dist)
  moreover then have "0 < sn_dist (head_seq_num (fst s)) head_sn"
    using sn_dist_flip [of head_sn "head_seq_num (fst s)"] sn_dist_less [of head_sn "head_seq_num (fst s)"] by linarith
  ultimately show ?case by (simp add: sn_dist_inc)
qed simp

declare ieee80211_release_reorder_frames.simps [simp del]

section \<open>The ring walks\<close>

text \<open>
  \<^verbatim>\<open>for (j = start; j != stop; j = (j + 1) % buf_size)\<close>. The body leaves the enclosing
  function (or the loop by \<^verbatim>\<open>goto\<close>) with \<open>Inl\<close>.
\<close>

partial_function (option) ring_loop ::
  "('s \<Rightarrow> int \<Rightarrow> ('r + 's) option) \<Rightarrow> int \<Rightarrow> int \<Rightarrow> int \<Rightarrow> 's \<Rightarrow> ('r + 's) option" where
  "ring_loop body B stop j s =
     (if j = stop then Some (Inr s)
      else do {
        r \<leftarrow> body s j;
        (case r of Inl x \<Rightarrow> Some (Inl x) | Inr s' \<Rightarrow> ring_loop body B stop ((j + 1) smod B) s')
      })"

text \<open>\<open>__skb_queue_purge\<close> of the slots from start up to stop.\<close>

definition purge_slots :: "int \<Rightarrow> int \<Rightarrow> tid_ampdu_rx \<Rightarrow> tid_ampdu_rx option" where
  "purge_slots start stop t =
     map_option (case_sum id id)
       (ring_loop (\<lambda>t i. Some (Inr (t\<lparr>reorder_buf := (reorder_buf t)[nat i := []]\<rparr>)))
          (uint (buf_size t)) stop start t)"

definition HT_RX_REORDER_BUF_TIMEOUT :: "u64 \<Rightarrow> u64" where
  "HT_RX_REORDER_BUF_TIMEOUT HZ = HZ div 10"

text \<open>
  One slot of the walk for frames that have timed out: \<open>skipped\<close> counts the slots passed
  since the last release. \<open>Inl\<close> is \<^verbatim>\<open>goto set_release_timer\<close>.
\<close>

type_synonym timeout_walk = "int \<times> release"

definition timeout_slot ::
  "u64 \<Rightarrow> u64 \<Rightarrow> int \<Rightarrow> timeout_walk \<Rightarrow> int \<Rightarrow> ((int \<times> release) + timeout_walk) option" where
  "timeout_slot jiffies HZ index s j =
     (case s of (skipped, t, frames) \<Rightarrow>
        if \<not> ieee80211_rx_reorder_ready t j then Some (Inr (skipped + 1, t, frames))
        else if skipped \<noteq> 0 \<and>
             \<not> time_after jiffies (reorder_time t ! nat j + HT_RX_REORDER_BUF_TIMEOUT HZ)
        then Some (Inl (j, t, frames))
        else do {
          t \<leftarrow> purge_slots ((index + 1) smod uint (buf_size t)) j t;
          let (t, frames) = ieee80211_release_reorder_frame j (t, frames) in
          Some (Inr (0,
            t\<lparr>head_seq_num := (head_seq_num t + word_of_int skipped) AND IEEE80211_SN_MASK\<rparr>, frames))
        })"

text \<open>\<^verbatim>\<open>while (ieee80211_rx_reorder_ready(tid_agg_rx, index))\<close>\<close>

partial_function (option) release_ready :: "int \<Rightarrow> release \<Rightarrow> release option" where
  "release_ready index s =
     (if ieee80211_rx_reorder_ready (fst s) index then
        (let s = ieee80211_release_reorder_frame index s
         in release_ready (ring_index (fst s) (head_seq_num (fst s))) s)
      else Some s)"

text \<open>The label \<open>set_release_timer\<close>, and the part before it that looks for the next ready slot.\<close>

definition set_release_timer :: "u64 \<Rightarrow> int \<Rightarrow> release \<Rightarrow> release" where
  "set_release_timer HZ j s =
     (case s of (t, frames) \<Rightarrow>
        (if \<not> removed t
         then t\<lparr>reorder_timer := Some (reorder_time t ! nat j + 1 + HT_RX_REORDER_BUF_TIMEOUT HZ)\<rparr>
         else t, frames))"

definition arm_release_timer :: "u64 \<Rightarrow> release \<Rightarrow> release option" where
  "arm_release_timer HZ s =
     (case s of (t, frames) \<Rightarrow>
        if stored_mpdu_num t \<noteq> 0 then
          (let index = ring_index t (head_seq_num t) in do {
             r \<leftarrow> ring_loop (\<lambda>j' j. Some (if ieee80211_rx_reorder_ready t j then Inl j
                                         else Inr ((j + 1) smod uint (buf_size t))))
                   (uint (buf_size t)) ((index - 1) smod uint (buf_size t)) index index;
             Some (set_release_timer HZ (case_sum id id r) (t, frames))
           })
        else Some (t\<lparr>reorder_timer := None\<rparr>, frames))"

definition ieee80211_sta_reorder_release :: "u64 \<Rightarrow> u64 \<Rightarrow> release \<Rightarrow> release option" where
  "ieee80211_sta_reorder_release jiffies HZ s =
     (case s of (t, frames) \<Rightarrow>
        let index = ring_index t (head_seq_num t) in
        if \<not> ieee80211_rx_reorder_ready t index \<and> stored_mpdu_num t \<noteq> 0 then do {
          r \<leftarrow> ring_loop (timeout_slot jiffies HZ index) (uint (buf_size t)) index
                ((index + 1) smod uint (buf_size t)) (1, t, frames);
          (case r of
             Inl (j, s) \<Rightarrow> Some (set_release_timer HZ j s)
           | Inr (skipped, s) \<Rightarrow> arm_release_timer HZ s)
        }
        else release_ready index (t, frames) \<bind> arm_release_timer HZ)"

section \<open>Receiving a frame\<close>

text \<open>
  The outcome is whether the frame was consumed (\<open>True\<close>: buffered or freed), the session
  and the frames released.
\<close>

definition ieee80211_sta_manage_reorder_buf ::
  "u64 \<Rightarrow> u64 \<Rightarrow> skb \<Rightarrow> release \<Rightarrow> (bool \<times> release) option" where
  "ieee80211_sta_manage_reorder_buf jiffies HZ skb s =
     (case s of (t, frames) \<Rightarrow>
        let mpdu_seq_num = mpdu_sn skb;
            t = (if auto_seq t
                 then t\<lparr>auto_seq := False, ssn := mpdu_seq_num, head_seq_num := mpdu_seq_num\<rparr> else t);
            head = head_seq_num t
        in
        if \<not> started t \<and> ieee80211_sn_less mpdu_seq_num head then Some (False, t, frames)
        else
          let t = t\<lparr>started := True\<rparr> in
          if ieee80211_sn_less mpdu_seq_num head then Some (True, t, frames)
          else
            let (t, frames) =
                  (if \<not> ieee80211_sn_less mpdu_seq_num (head + buf_size t)
                   then ieee80211_release_reorder_frames
                          (ieee80211_sn_inc (ieee80211_sn_sub mpdu_seq_num (buf_size t))) (t, frames)
                   else (t, frames));
                index = ring_index t mpdu_seq_num
            in
            if ieee80211_rx_reorder_ready t index then Some (True, t, frames)
            else if mpdu_seq_num = head_seq_num t \<and> stored_mpdu_num t = 0 then
              Some (False,
                if \<not> amsdu_more skb then t\<lparr>head_seq_num := ieee80211_sn_inc (head_seq_num t)\<rparr> else t,
                frames)
            else
              let t = t\<lparr>reorder_buf :=
                          (reorder_buf t)[nat index := reorder_buf t ! nat index @ [skb]]\<rparr> in
              if \<not> amsdu_more skb then
                map_option (Pair True)
                  (ieee80211_sta_reorder_release jiffies HZ
                    (t\<lparr>reorder_time := (reorder_time t)[nat index := jiffies],
                       stored_mpdu_num := stored_mpdu_num t + 1\<rparr>, frames))
              else Some (True, t, frames))"

text \<open>
  \<open>ieee80211_release_reorder_timeout\<close> (the reorder timer fires) and
  \<open>ieee80211_mark_rx_ba_filtered_frames\<close> (the driver moves the window and says which
  sequence numbers will not come).
\<close>

definition ieee80211_release_reorder_timeout :: "u64 \<Rightarrow> u64 \<Rightarrow> tid_ampdu_rx \<Rightarrow> release option" where
  "ieee80211_release_reorder_timeout jiffies HZ t = ieee80211_sta_reorder_release jiffies HZ (t, [])"

definition mark_filtered_bit :: "u16 \<Rightarrow> u64 \<Rightarrow> tid_ampdu_rx \<Rightarrow> nat \<Rightarrow> tid_ampdu_rx" where
  "mark_filtered_bit sn filtered t i =
     (let index = nat ((uint sn + int i) mod uint (buf_size t));
          cleared = reorder_buf_filtered t AND NOT (BIT_ULL index)
      in t\<lparr>reorder_buf_filtered :=
             (if filtered AND BIT_ULL i \<noteq> 0 then cleared OR BIT_ULL index else cleared)\<rparr>)"

definition ieee80211_mark_rx_ba_filtered_frames ::
  "u64 \<Rightarrow> u64 \<Rightarrow> u16 \<Rightarrow> u64 \<Rightarrow> u16 \<Rightarrow> tid_ampdu_rx \<Rightarrow> release option" where
  "ieee80211_mark_rx_ba_filtered_frames jiffies HZ start_sn filtered received_mpdus t =
     (let (t, frames) =
            (if received_mpdus \<ge> drop_bit 1 IEEE80211_SN_MODULO then
               (case ieee80211_release_reorder_frames
                       (word_of_int ((uint (head_seq_num t) + uint (buf_size t)) mod uint IEEE80211_SN_MODULO))
                       (t, []) of
                  (t, frames) \<Rightarrow> (t\<lparr>head_seq_num := start_sn\<rparr>, frames))
             else ieee80211_release_reorder_frames start_sn (t, []));
          diff = uint ((head_seq_num t - start_sn) AND IEEE80211_SN_MASK)
      in
      if diff \<ge> uint (buf_size t) then Some (t\<lparr>reorder_buf_filtered := 0\<rparr>, frames)
      else
        let t = fold (\<lambda>i t. mark_filtered_bit (start_sn + word_of_int diff) (drop_bit (nat diff) filtered) t i)
                  [0..<unat (buf_size t)] t
        in ieee80211_sta_reorder_release jiffies HZ (t, frames))"

section \<open>Facts on the ring walks\<close>

lemma ring_step:
  fixes i j B :: int
  assumes "0 \<le> i" "i < B" "0 \<le> j" "j < B" "i \<noteq> j"
  shows "(i - (j + 1) mod B) mod B = (i - j) mod B - 1"
proof -
  have "(i - (j + 1) mod B) mod B = ((i - j) mod B - 1) mod B"
    by (simp add: mod_simps algebra_simps)
  moreover have "(i - j) mod B \<noteq> 0"
  proof (cases "j < i")
    case True
    then have "(i - j) mod B = i - j" using assms by (intro mod_pos_pos_trivial) auto
    with True show ?thesis by simp
  next
    case False
    have "(i - j) mod B = (i - j + B) mod B" by simp
    also have "\<dots> = i - j + B" using assms False by (intro mod_pos_pos_trivial) auto
    finally show ?thesis using assms False by simp
  qed
  moreover have "0 \<le> (i - j) mod B" "(i - j) mod B < B" using assms by simp_all
  ultimately show ?thesis by (simp add: mod_pos_pos_trivial)
qed

lemma smod_succ: "0 \<le> j \<Longrightarrow> 0 < B \<Longrightarrow> (j + 1) smod B = (j + 1) mod (B :: int)"
  by (simp add: signed_modulo_int_def)

text \<open>A walk with an invariant that may mention the position.\<close>

lemma ring_loop_inv:
  assumes "0 \<le> j" "j < B" "0 \<le> stop" "stop < B" "P j s"
    and step: "\<And>s j. P j s \<Longrightarrow> 0 \<le> j \<Longrightarrow> j < B \<Longrightarrow> j \<noteq> stop \<Longrightarrow>
      \<exists>r. body s j = Some r \<and> case_sum Q (P ((j + 1) mod B)) r"
  shows "\<exists>r. ring_loop body B stop j s = Some r \<and> case_sum Q (P stop) r"
  using assms(1,2,5)
proof (induction "nat ((stop - j) mod B)" arbitrary: j s rule: less_induct)
  case less
  show ?case
  proof (cases "j = stop")
    case True
    then show ?thesis using less.prems by (simp add: ring_loop.simps)
  next
    case False
    have lt: "nat ((stop - (j + 1) mod B) mod B) < nat ((stop - j) mod B)"
      using ring_step [of stop B j] assms(3,4) less.prems False pos_mod_sign [of B "stop - (j + 1) mod B"] by linarith
    have B: "0 \<le> (j + 1) mod B" "(j + 1) mod B < B" using assms(3,4) by simp_all
    obtain r where r: "body s j = Some r" "case_sum Q (P ((j + 1) mod B)) r"
      using step less.prems False by blast
    show ?thesis
    proof (cases r)
      case (Inl x)
      then show ?thesis using r False by (subst ring_loop.simps) simp
    next
      case (Inr s')
      then show ?thesis using less.hyps [OF lt B, of s'] r False smod_succ [of j B] less.prems assms(3,4)
        by (subst ring_loop.simps) simp
    qed
  qed
qed

text \<open>A walk that meets a slot at which it leaves, wherever it would stop.\<close>

lemma ring_loop_meets:
  assumes "0 \<le> j" "j < B" "0 \<le> i" "i < B" "\<And>s. \<exists>x. body s i = Some (Inl x)"
    and "\<And>s j. \<exists>r. body s j = Some r"
  shows "\<exists>r. ring_loop body B stop j s = Some r"
  using assms(1,2)
proof (induction "nat ((i - j) mod B)" arbitrary: j s rule: less_induct)
  case less
  show ?case
  proof (cases "j = stop \<or> j = i")
    case True
    then show ?thesis using assms(5) [of s] by (subst ring_loop.simps) auto
  next
    case False
    have lt: "nat ((i - (j + 1) mod B) mod B) < nat ((i - j) mod B)"
      using ring_step [of i B j] assms(3,4) less.prems False pos_mod_sign [of B "i - (j + 1) mod B"] by linarith
    have B: "0 \<le> (j + 1) mod B" "(j + 1) mod B < B" using assms(3,4) by simp_all
    obtain r where r: "body s j = Some r" using assms(6) by blast
    show ?thesis
      using less.hyps [OF lt B] r False smod_succ [of j B] less.prems
      by (subst ring_loop.simps) (auto split: sum.split)
  qed
qed

section \<open>Well-formed sessions\<close>

text \<open>A slot that holds a complete MPDU; these are the ones \<open>stored_mpdu_num\<close> counts.\<close>

definition slot_complete :: "tid_ampdu_rx \<Rightarrow> nat \<Rightarrow> bool" where
  "slot_complete t i \<longleftrightarrow> reorder_buf t ! i \<noteq> [] \<and> \<not> amsdu_more (last (reorder_buf t ! i))"

definition complete_slots :: "tid_ampdu_rx \<Rightarrow> nat set" where
  "complete_slots t = {i. i < unat (buf_size t) \<and> slot_complete t i}"

text \<open>
  The arrays have the size of the ring, the head is a sequence number, the counter counts
  the complete slots, and a filtered slot holds no part of an MPDU.
\<close>

definition reorder_wf :: "tid_ampdu_rx \<Rightarrow> bool" where
  "reorder_wf t \<longleftrightarrow> 0 < unat (buf_size t) \<and> unat (buf_size t) \<le> 64 \<and>
     length (reorder_buf t) = unat (buf_size t) \<and> length (reorder_time t) = unat (buf_size t) \<and>
     uint (head_seq_num t) < 4096 \<and> unat (stored_mpdu_num t) = card (complete_slots t) \<and>
     (\<forall>i < unat (buf_size t). bit (reorder_buf_filtered t) i \<longrightarrow> reorder_buf t ! i = [] \<or> slot_complete t i)"

lemma ready_iff:
  "ieee80211_rx_reorder_ready t i \<longleftrightarrow> bit (reorder_buf_filtered t) (nat i) \<or> slot_complete t (nat i)"
  by (auto simp: ieee80211_rx_reorder_ready_def BIT_ULL_def slot_complete_def bit_iff_and_push_bit_not_eq_0 Let_def)

lemma ring_index_bounds:
  "0 < unat (buf_size t) \<Longrightarrow> 0 \<le> ring_index t sn"
  "0 < unat (buf_size t) \<Longrightarrow> ring_index t sn < uint (buf_size t)"
  "0 < unat (buf_size t) \<Longrightarrow> nat (ring_index t sn) < unat (buf_size t)"
proof -
  assume b: "0 < unat (buf_size t)"
  then have p: "0 < uint (buf_size t)" by (simp only: uint_nat of_nat_0_less_iff)
  show r: "0 \<le> ring_index t sn" "ring_index t sn < uint (buf_size t)"
    using p by (simp_all add: ring_index_def)
  then show "nat (ring_index t sn) < unat (buf_size t)" using b by (simp add: nat_less_iff)
qed

text \<open>What a release does, whatever the slot holds.\<close>

lemma release_frame_form:
  assumes "reorder_wf t" "nat i < unat (buf_size t)"
  shows "ieee80211_release_reorder_frame i (t, fr) =
    (t\<lparr>reorder_buf_filtered := reorder_buf_filtered t AND NOT (BIT_ULL (nat i)),
       reorder_buf := (reorder_buf t)[nat i := []],
       head_seq_num := ieee80211_sn_inc (head_seq_num t),
       stored_mpdu_num := (if slot_complete t (nat i) then stored_mpdu_num t - 1 else stored_mpdu_num t)\<rparr>,
     fr @ (if slot_complete t (nat i) then map (\<lambda>skb. skb\<lparr>deferred_release := True\<rparr>) (reorder_buf t ! nat i) else []))"
proof -
  have l: "nat i < length (reorder_buf t)" using assms by (simp add: reorder_wf_def)
  have e: "reorder_buf t ! nat i = [] \<Longrightarrow> (reorder_buf t)[nat i := []] = reorder_buf t"
    using l by (metis list_update_id)
  have f: "bit (reorder_buf_filtered t) (nat i) \<Longrightarrow> reorder_buf t ! nat i = [] \<or> slot_complete t (nat i)"
    using assms by (simp add: reorder_wf_def)
  show ?thesis
    using e f by (cases t) (auto simp: ieee80211_release_reorder_frame_def ready_iff slot_complete_def Let_def)
qed

lemma card_complete_bound: "reorder_wf t \<Longrightarrow> card (complete_slots t) \<le> unat (buf_size t)"
  unfolding complete_slots_def
  by (rule order_trans [OF card_mono [of "{..<unat (buf_size t)}"]]) auto

lemma finite_complete [simp]: "finite (complete_slots t)"
  by (simp add: complete_slots_def)

lemma bit_clear: "bit (x AND NOT (BIT_ULL n)) i \<longleftrightarrow> bit x i \<and> i \<noteq> n"
  by (auto simp: BIT_ULL_def bit_simps dest: bit_imp_le_length)

lemma release_frame_wf:
  assumes w: "reorder_wf t" and i: "nat i < unat (buf_size t)"
  shows "reorder_wf (fst (ieee80211_release_reorder_frame i (t, fr)))"
proof -
  let ?t = "fst (ieee80211_release_reorder_frame i (t, fr))"
  have l: "nat i < length (reorder_buf t)" using assms by (simp add: reorder_wf_def)
  have c: "complete_slots ?t = complete_slots t - {nat i}"
    using l by (auto simp: complete_slots_def slot_complete_def release_frame_form [OF assms] nth_list_update)
  have m: "slot_complete t (nat i) \<longleftrightarrow> nat i \<in> complete_slots t" using i by (simp add: complete_slots_def)
  have n: "unat (stored_mpdu_num t) = card (complete_slots t)" using w by (simp add: reorder_wf_def)
  have "slot_complete t (nat i) \<Longrightarrow> 0 < card (complete_slots t)"
    using m by (auto simp: card_gt_0_iff)
  then have s: "unat (stored_mpdu_num ?t) = card (complete_slots ?t)"
    unfolding c using n m
    by (auto simp: release_frame_form [OF assms] unat_sub_if_size word_size)
  show ?thesis
    using w s l unfolding reorder_wf_def
    by (auto simp: release_frame_form [OF assms] bit_clear nth_list_update slot_complete_def sn_inc_int)
qed

lemma release_frame_size [simp]:
  "buf_size (fst (ieee80211_release_reorder_frame i s)) = buf_size (fst s)"
  by (cases s) (simp add: ieee80211_release_reorder_frame_def Let_def)

lemma release_frame_wf':
  "reorder_wf (fst s) \<Longrightarrow> nat i < unat (buf_size (fst s)) \<Longrightarrow> reorder_wf (fst (ieee80211_release_reorder_frame i s))"
  by (cases s) (simp add: release_frame_wf)

lemma wf_size: "reorder_wf t \<Longrightarrow> 0 < unat (buf_size t)"
  by (simp add: reorder_wf_def)

lemma release_frames_wf:
  "reorder_wf (fst s) \<Longrightarrow>
     reorder_wf (fst (ieee80211_release_reorder_frames n s)) \<and>
     buf_size (fst (ieee80211_release_reorder_frames n s)) = buf_size (fst s)"
proof (induction n s rule: ieee80211_release_reorder_frames.induct)
  case (1 n s)
  then show ?case
    by (subst (1 2) ieee80211_release_reorder_frames.simps)
      (simp add: release_frame_wf' ring_index_bounds(3) wf_size)
qed

definition ready_slots :: "tid_ampdu_rx \<Rightarrow> nat set" where
  "ready_slots t = {i. i < unat (buf_size t) \<and> ieee80211_rx_reorder_ready t (int i)}"

lemma ready_after_release:
  assumes "reorder_wf t" "nat i < unat (buf_size t)" "0 \<le> i" "x < unat (buf_size t)"
  shows "ieee80211_rx_reorder_ready (fst (ieee80211_release_reorder_frame i (t, fr))) (int x) \<longleftrightarrow>
     ieee80211_rx_reorder_ready t (int x) \<and> int x \<noteq> i"
proof -
  have l: "nat i < length (reorder_buf t)" using assms by (simp add: reorder_wf_def)
  show ?thesis
    using assms l
    by (auto simp: ready_iff release_frame_form [OF assms(1,2)] bit_clear slot_complete_def nth_list_update)
qed

lemma release_ready_returns:
  "reorder_wf (fst s) \<Longrightarrow> 0 \<le> i \<Longrightarrow> nat i < unat (buf_size (fst s)) \<Longrightarrow>
     \<exists>s'. release_ready i s = Some s' \<and> reorder_wf (fst s') \<and> buf_size (fst s') = buf_size (fst s)"
proof (induction "card (ready_slots (fst s))" arbitrary: i s rule: less_induct)
  case less
  show ?case
  proof (cases "ieee80211_rx_reorder_ready (fst s) i")
    case False
    then show ?thesis using less.prems by (subst release_ready.simps) simp
  next
    case True
    obtain t fr where s: "s = (t, fr)" by (cases s)
    let ?s = "ieee80211_release_reorder_frame i s"
    have "ready_slots (fst ?s) = ready_slots t - {nat i}"
      using less.prems ready_after_release [of t i "nat i" fr] ready_after_release [of t i _ fr]
      by (auto simp: ready_slots_def s)
    moreover have "nat i \<in> ready_slots t" using True less.prems by (simp add: ready_slots_def s)
    moreover have "finite (ready_slots t)" by (simp add: ready_slots_def)
    ultimately have lt: "card (ready_slots (fst ?s)) < card (ready_slots (fst s))"
      by (simp add: s card_Diff1_less del: card_Diff_insert)
    have w: "reorder_wf (fst ?s)" using less.prems by (simp add: release_frame_wf')
    have b: "0 < unat (buf_size (fst ?s))" using w by (rule wf_size)
    show ?thesis
      using less.hyps [OF lt w ring_index_bounds(1) [OF b] ring_index_bounds(3) [OF b]] True
      by (subst release_ready.simps) (simp add: Let_def)
  qed
qed

lemma arm_release_timer_returns:
  assumes "reorder_wf t"
  shows "\<exists>t'. arm_release_timer HZ (t, fr) = Some (t', fr) \<and> (\<exists>x. t' = t\<lparr>reorder_timer := x\<rparr>)"
proof (cases "stored_mpdu_num t = 0")
  case True
  then show ?thesis by (auto simp: arm_release_timer_def)
next
  case False
  then have "unat (stored_mpdu_num t) \<noteq> 0" by (simp add: unat_eq_0)
  then have "complete_slots t \<noteq> {}" using assms by (auto simp: reorder_wf_def)
  then obtain i where i: "i < unat (buf_size t)" "slot_complete t i"
    by (auto simp: complete_slots_def)
  let ?body = "\<lambda>j' j. Some (if ieee80211_rx_reorder_ready t j then Inl j else Inr ((j + 1) smod uint (buf_size t)))"
  note b = ring_index_bounds(1,2) [OF wf_size [OF assms], of "head_seq_num t"]
  have "\<exists>r. ring_loop ?body (uint (buf_size t)) ((ring_index t (head_seq_num t) - 1) smod uint (buf_size t))
       (ring_index t (head_seq_num t)) (ring_index t (head_seq_num t)) = Some r"
    using i by (intro ring_loop_meets [where i = "int i", OF b]) (auto simp: ready_iff uint_nat simp del: of_nat_unat)
  then obtain r where r: "ring_loop ?body (uint (buf_size t))
       ((ring_index t (head_seq_num t) - 1) smod uint (buf_size t))
       (ring_index t (head_seq_num t)) (ring_index t (head_seq_num t)) = Some r" by blast
  have id: "\<exists>x. t = t\<lparr>reorder_timer := x\<rparr>" by (rule exI [of _ "reorder_timer t"]) simp
  show ?thesis
  proof (cases "removed t")
    case True
    with False r id show ?thesis by (auto simp: arm_release_timer_def Let_def set_release_timer_def)
  next
    case nr: False
    with False r show ?thesis by (simp add: arm_release_timer_def Let_def set_release_timer_def) blast
  qed
qed

lemma wf_timer [simp]: "reorder_wf (t\<lparr>reorder_timer := x\<rparr>) = reorder_wf t"
  by (simp add: reorder_wf_def complete_slots_def slot_complete_def)

text \<open>How many slots behind the one after \<open>a\<close> a slot lies.\<close>

definition ring_off :: "int \<Rightarrow> int \<Rightarrow> int \<Rightarrow> int" where
  "ring_off B a i = (i - (a + 1)) mod B"

lemma ring_off_inj: "ring_off B a i = ring_off B a j \<Longrightarrow> 0 \<le> i \<Longrightarrow> i < B \<Longrightarrow> 0 \<le> j \<Longrightarrow> j < B \<Longrightarrow> i = j"
proof -
  assume h: "ring_off B a i = ring_off B a j" "0 \<le> i" "i < B" "0 \<le> j" "j < B"
  have "((i - (a + 1)) mod B + (a + 1)) mod B = ((j - (a + 1)) mod B + (a + 1)) mod B"
    using h(1) by (simp only: ring_off_def)
  then have "i mod B = j mod B" by (simp add: mod_simps)
  then show "i = j" using h by (simp add: mod_pos_pos_trivial)
qed

lemma ring_off_succ:
  assumes "0 \<le> a" "a < B" "0 \<le> j" "j < B" "j \<noteq> a"
  shows "ring_off B a ((j + 1) mod B) = ring_off B a j + 1"
proof -
  have "ring_off B a ((j + 1) mod B) = ((j - (a + 1)) mod B + 1) mod B"
    by (simp add: ring_off_def mod_simps algebra_simps)
  moreover have "(j - (a + 1)) mod B \<noteq> B - 1"
  proof
    assume "(j - (a + 1)) mod B = B - 1"
    moreover have "(a - (a + 1)) mod B = B - 1" using assms by (simp add: zmod_minus1)
    ultimately have "ring_off B a j = ring_off B a a" by (simp add: ring_off_def)
    then show False using ring_off_inj assms by blast
  qed
  moreover have "0 \<le> (j - (a + 1)) mod B" "(j - (a + 1)) mod B < B" using assms by simp_all
  ultimately show ?thesis by (simp add: ring_off_def mod_pos_pos_trivial)
qed

lemma ring_off_bounds: "0 < B \<Longrightarrow> 0 \<le> ring_off B a i \<and> ring_off B a i < B"
  by (simp add: ring_off_def)

lemma ring_off_first: "0 < B \<Longrightarrow> ring_off B a ((a + 1) mod B) = 0"
  by (simp add: ring_off_def mod_simps)

text \<open>Slots between \<open>a\<close> and \<open>j\<close> of which none is ready can be purged.\<close>

definition passed :: "int \<Rightarrow> int \<Rightarrow> tid_ampdu_rx \<Rightarrow> bool" where
  "passed a j t \<longleftrightarrow> (\<forall>x < unat (buf_size t).
     ring_off (uint (buf_size t)) a (int x) < ring_off (uint (buf_size t)) a j \<longrightarrow>
     \<not> ieee80211_rx_reorder_ready t (int x))"

lemma purge_slot_keeps:
  assumes w: "reorder_wf t" and i: "i < unat (buf_size t)" and n: "\<not> slot_complete t i"
  shows "reorder_wf (t\<lparr>reorder_buf := (reorder_buf t)[i := []]\<rparr>) \<and>
    (\<forall>x < unat (buf_size t). ieee80211_rx_reorder_ready (t\<lparr>reorder_buf := (reorder_buf t)[i := []]\<rparr>) (int x)
       = ieee80211_rx_reorder_ready t (int x))"
proof -
  let ?t = "t\<lparr>reorder_buf := (reorder_buf t)[i := []]\<rparr>"
  have l: "i < length (reorder_buf t)" using assms by (simp add: reorder_wf_def)
  have s: "slot_complete ?t x = slot_complete t x" for x
    using l n by (auto simp: slot_complete_def nth_list_update)
  have c: "complete_slots ?t = complete_slots t"
    by (simp add: complete_slots_def s)
  have "reorder_wf ?t"
    using w l c by (auto simp: reorder_wf_def s nth_list_update)
  then show ?thesis by (simp add: ready_iff s)
qed

lemma purge_slots_returns:
  assumes w: "reorder_wf t" and a: "0 \<le> a" "a < uint (buf_size t)" and j: "0 \<le> j" "j < uint (buf_size t)"
    and p: "passed a j t"
  shows "\<exists>t'. purge_slots ((a + 1) smod uint (buf_size t)) j t = Some t' \<and> reorder_wf t' \<and>
    buf_size t' = buf_size t \<and> passed a j t' \<and>
    (\<forall>x < unat (buf_size t). ieee80211_rx_reorder_ready t' (int x) = ieee80211_rx_reorder_ready t (int x))"
proof -
  let ?B = "uint (buf_size t)"
  let ?P = "\<lambda>i t'. reorder_wf t' \<and> buf_size t' = buf_size t \<and> ring_off ?B a i \<le> ring_off ?B a j \<and>
    (\<forall>x < unat (buf_size t). ieee80211_rx_reorder_ready t' (int x) = ieee80211_rx_reorder_ready t (int x))"
  let ?body = "\<lambda>t i. Some (Inr (t\<lparr>reorder_buf := (reorder_buf t)[nat i := []]\<rparr>)) :: (tid_ampdu_rx + tid_ampdu_rx) option"
  have B: "0 < ?B" using a by simp
  have st: "(a + 1) smod ?B = (a + 1) mod ?B" using a B by (simp add: smod_succ)
  have "\<exists>r. ring_loop ?body ?B j ((a + 1) mod ?B) t = Some r \<and> case_sum (\<lambda>_. False) (?P j) r"
  proof (rule ring_loop_inv [where P = ?P])
    fix t' i
    assume h: "?P i t'" "0 \<le> i" "i < ?B" "i \<noteq> j"
    then have lt: "ring_off ?B a i < ring_off ?B a j"
      using ring_off_inj [of ?B a i j] j by fastforce
    have i: "nat i < unat (buf_size t)" "int (nat i) = i" using h by (simp_all add: nat_less_iff)
    then have nr: "\<not> ieee80211_rx_reorder_ready t' i" using h(1) lt p unfolding passed_def by metis
    have ia: "i \<noteq> a"
    proof
      assume "i = a"
      then have "ring_off ?B a i = ?B - 1" using B by (simp add: ring_off_def zmod_minus1)
      then show False using lt ring_off_bounds [OF B, of a j] by simp
    qed
    have "\<not> slot_complete t' (nat i)" using nr by (simp add: ready_iff)
    then have k: "reorder_wf (t'\<lparr>reorder_buf := (reorder_buf t')[nat i := []]\<rparr>) \<and>
      (\<forall>x < unat (buf_size t'). ieee80211_rx_reorder_ready (t'\<lparr>reorder_buf := (reorder_buf t')[nat i := []]\<rparr>) (int x)
         = ieee80211_rx_reorder_ready t' (int x))"
      using purge_slot_keeps [of t' "nat i"] h(1) i by simp
    then show "\<exists>r. ?body t' i = Some r \<and> case_sum (\<lambda>_. False) (?P ((i + 1) mod ?B)) r"
      using h lt ring_off_succ [OF a h(2,3) ia] by simp
  qed (use a j B w ring_off_first [OF B, of a] ring_off_bounds [OF B, of a j] in simp_all)
  then obtain r where "ring_loop ?body ?B j ((a + 1) mod ?B) t = Some r" "case_sum (\<lambda>_. False) (?P j) r"
    by blast
  then obtain t' where r: "ring_loop ?body ?B j ((a + 1) mod ?B) t = Some (Inr t')" "?P j t'"
    by (cases r) simp_all
  then have "purge_slots ((a + 1) smod ?B) j t = Some t'"
    unfolding purge_slots_def st by simp
  with r(2) p show ?thesis by (auto simp: passed_def)
qed

text \<open>The walk for frames that have timed out.\<close>

lemma ready_mask_head [simp]:
  "ieee80211_rx_reorder_ready (t\<lparr>head_seq_num := x\<rparr>) i = ieee80211_rx_reorder_ready t i"
  by (simp add: ieee80211_rx_reorder_ready_def)

lemma wf_mask_head [simp]: "reorder_wf t \<Longrightarrow> reorder_wf (t\<lparr>head_seq_num := x AND IEEE80211_SN_MASK\<rparr>)"
  by (simp add: reorder_wf_def complete_slots_def slot_complete_def sn_mask_int)

lemma passed_mask_head [simp]: "passed a j (t\<lparr>head_seq_num := x\<rparr>) = passed a j t"
  by (simp add: passed_def)

lemma passed_succ:
  assumes "passed a j t" "\<not> ieee80211_rx_reorder_ready t j" "0 \<le> a" "a < uint (buf_size t)"
    "0 \<le> j" "j < uint (buf_size t)" "j \<noteq> a"
  shows "passed a ((j + 1) mod uint (buf_size t)) t"
  unfolding passed_def ring_off_succ [OF assms(3-7)]
proof (intro allI impI)
  fix x assume x: "x < unat (buf_size t)" "ring_off (uint (buf_size t)) a (int x) < ring_off (uint (buf_size t)) a j + 1"
  have xb: "int x < uint (buf_size t)" using x(1) by (simp add: uint_nat del: of_nat_unat)
  show "\<not> ieee80211_rx_reorder_ready t (int x)"
  proof (cases "ring_off (uint (buf_size t)) a (int x) = ring_off (uint (buf_size t)) a j")
    case True
    then have "int x = j" using ring_off_inj xb assms(5,6) by fastforce
    with assms(2) show ?thesis by simp
  next
    case False
    with x assms(1) show ?thesis by (auto simp: passed_def)
  qed
qed

definition walk_wf :: "tid_ampdu_rx \<Rightarrow> int \<Rightarrow> timeout_walk \<Rightarrow> bool" where
  "walk_wf t0 j s \<longleftrightarrow> (case s of (skipped, t, fr) \<Rightarrow>
     reorder_wf t \<and> buf_size t = buf_size t0 \<and> passed (ring_index t0 (head_seq_num t0)) j t)"

lemma timeout_slot_step:
  assumes w: "walk_wf t0 j s" and a: "a = ring_index t0 (head_seq_num t0)" "0 < unat (buf_size t0)"
    and j: "0 \<le> j" "j < uint (buf_size t0)" "j \<noteq> a"
  shows "\<exists>r. timeout_slot jiffies HZ a s j = Some r \<and>
    case_sum (\<lambda>(j, t, fr). reorder_wf t \<and> buf_size t = buf_size t0)
      (walk_wf t0 ((j + 1) mod uint (buf_size t0))) r"
proof -
  obtain skipped t fr where s: "s = (skipped, t, fr)" by (cases s)
  let ?B = "uint (buf_size t0)"
  have wf: "reorder_wf t" and B: "buf_size t = buf_size t0" and p: "passed a j t"
    using w by (simp_all add: walk_wf_def s a(1))
  have ab: "0 \<le> a" "a < ?B" using ring_index_bounds(1,2) [OF a(2)] by (simp_all add: a(1))
  consider "\<not> ieee80211_rx_reorder_ready t j"
    | "ieee80211_rx_reorder_ready t j" "skipped \<noteq> 0 \<and>
             \<not> time_after jiffies (reorder_time t ! nat j + HT_RX_REORDER_BUF_TIMEOUT HZ)"
    | "ieee80211_rx_reorder_ready t j" "\<not> (skipped \<noteq> 0 \<and>
             \<not> time_after jiffies (reorder_time t ! nat j + HT_RX_REORDER_BUF_TIMEOUT HZ))" by blast
  then show ?thesis
  proof cases
    case 1
    then show ?thesis using passed_succ [of a j t] p ab j wf B a(1)
      by (simp add: timeout_slot_def s walk_wf_def)
  next
    case 2
    then show ?thesis using wf B by (simp add: timeout_slot_def s)
  next
    case 3
    obtain t1 where t1: "purge_slots ((a + 1) smod uint (buf_size t)) j t = Some t1" "reorder_wf t1"
      "buf_size t1 = buf_size t" "passed a j t1"
      using purge_slots_returns [OF wf, of a j] ab j p B by auto
    obtain t2 fr2 where t2: "ieee80211_release_reorder_frame j (t1, fr) = (t2, fr2)" by fastforce
    have nj: "nat j < unat (buf_size t1)" using j B t1(3) by (simp add: nat_less_iff)
    have w2: "reorder_wf t2" "buf_size t2 = buf_size t0"
      using release_frame_wf [OF t1(2) nj, of fr] release_frame_size [of j "(t1, fr)"] t2 t1(3) B by simp_all
    have r2: "ieee80211_rx_reorder_ready t2 (int x) \<longleftrightarrow> ieee80211_rx_reorder_ready t1 (int x) \<and> int x \<noteq> j"
      if "x < unat (buf_size t1)" for x
      using ready_after_release [OF t1(2) nj j(1) that, of fr] t2 by simp
    have "\<not> ieee80211_rx_reorder_ready t2 j"
      using r2 [OF nj] j by simp
    moreover have "passed a j t2"
      using t1(4) r2 w2(2) t1(3) B by (auto simp: passed_def)
    ultimately have "passed a ((j + 1) mod ?B) t2"
      using passed_succ [of a j t2] ab j w2(2) by simp
    then show ?thesis using 3 t1(1) t2 w2 a(1)
      by (auto simp: timeout_slot_def s walk_wf_def)
  qed
qed

lemma reorder_release_returns:
  assumes w: "reorder_wf t"
  shows "\<exists>t' fr'. ieee80211_sta_reorder_release jiffies HZ (t, fr) = Some (t', fr') \<and>
    reorder_wf t' \<and> buf_size t' = buf_size t"
proof -
  have B: "0 < unat (buf_size t)" by (rule wf_size [OF w])
  have Bi: "0 < uint (buf_size t)" using B by (simp only: uint_nat of_nat_0_less_iff)
  let ?a = "ring_index t (head_seq_num t)"
  note a = ring_index_bounds [OF B, of "head_seq_num t"]
  have arm: "\<exists>t' fr'. arm_release_timer HZ s = Some (t', fr') \<and> reorder_wf t' \<and> buf_size t' = buf_size t"
    if "reorder_wf (fst s)" "buf_size (fst s) = buf_size t" for s
    using arm_release_timer_returns [of "fst s" HZ "snd s"] that by (cases s) auto
  show ?thesis
  proof (cases "\<not> ieee80211_rx_reorder_ready t ?a \<and> stored_mpdu_num t \<noteq> 0")
    case False
    obtain s where "release_ready ?a (t, fr) = Some s" "reorder_wf (fst s)" "buf_size (fst s) = buf_size t"
      using release_ready_returns [of "(t, fr)" ?a] w a by auto
    with False arm [of s] show ?thesis by (auto simp: ieee80211_sta_reorder_release_def Let_def)
  next
    case True
    let ?Q = "\<lambda>(j :: int, t', fr' :: skb list). reorder_wf t' \<and> buf_size t' = buf_size t"
    have st: "(?a + 1) smod uint (buf_size t) = (?a + 1) mod uint (buf_size t)"
      using a Bi by (simp add: smod_succ)
    have p: "passed ?a ((?a + 1) mod uint (buf_size t)) t"
      using ring_off_bounds [OF Bi, of ?a] unfolding passed_def ring_off_first [OF Bi] by (meson not_less)
    have "\<exists>r. ring_loop (timeout_slot jiffies HZ ?a) (uint (buf_size t)) ?a ((?a + 1) mod uint (buf_size t)) (1, t, fr)
        = Some r \<and> case_sum ?Q (walk_wf t ?a) r"
    proof (rule ring_loop_inv)
      show "walk_wf t ((?a + 1) mod uint (buf_size t)) (1, t, fr)" using w p by (simp add: walk_wf_def)
    qed (use a Bi timeout_slot_step [OF _ refl B] in simp_all)
    then obtain r where r: "ring_loop (timeout_slot jiffies HZ ?a) (uint (buf_size t)) ?a
        ((?a + 1) smod uint (buf_size t)) (1, t, fr) = Some r" "case_sum ?Q (walk_wf t ?a) r"
      unfolding st by blast
    show ?thesis
    proof (cases r)
      case (Inl x)
      then show ?thesis using True r
        by (auto simp: ieee80211_sta_reorder_release_def Let_def set_release_timer_def)
    next
      case (Inr x)
      then show ?thesis using True r arm [of "snd x"]
        by (auto simp: ieee80211_sta_reorder_release_def Let_def walk_wf_def split: prod.splits)
    qed
  qed
qed

text \<open>Every operation of a well-formed session returns a well-formed session.\<close>

lemma buffer_frame_wf:
  assumes w: "reorder_wf t" and i: "0 \<le> i" "nat i < unat (buf_size t)" and n: "\<not> ieee80211_rx_reorder_ready t i"
  shows "amsdu_more skb \<Longrightarrow> reorder_wf (t\<lparr>reorder_buf := (reorder_buf t)[nat i := reorder_buf t ! nat i @ [skb]]\<rparr>)"
    and "\<not> amsdu_more skb \<Longrightarrow> reorder_wf (t\<lparr>reorder_buf := (reorder_buf t)[nat i := reorder_buf t ! nat i @ [skb]],
       reorder_time := (reorder_time t)[nat i := now], stored_mpdu_num := stored_mpdu_num t + 1\<rparr>)"
proof -
  let ?t = "t\<lparr>reorder_buf := (reorder_buf t)[nat i := reorder_buf t ! nat i @ [skb]]\<rparr>"
  have l: "nat i < length (reorder_buf t)" using w i by (simp add: reorder_wf_def)
  have nf: "\<not> bit (reorder_buf_filtered t) (nat i)" "\<not> slot_complete t (nat i)" using n by (simp_all add: ready_iff)
  have o: "slot_complete ?t x = (if x = nat i then \<not> amsdu_more skb else slot_complete t x)" for x
    using l by (auto simp: slot_complete_def nth_list_update)
  have c: "complete_slots ?t = (if amsdu_more skb then complete_slots t else insert (nat i) (complete_slots t))"
    using nf i by (auto simp: complete_slots_def o split: if_splits)
  show "reorder_wf ?t" if "amsdu_more skb"
    using w that c nf l by (auto simp: reorder_wf_def o nth_list_update)
  assume m: "\<not> amsdu_more skb"
  let ?u = "t\<lparr>reorder_buf := (reorder_buf t)[nat i := reorder_buf t ! nat i @ [skb]],
       reorder_time := (reorder_time t)[nat i := now], stored_mpdu_num := stored_mpdu_num t + 1\<rparr>"
  have u: "slot_complete ?u = slot_complete ?t" by (rule ext) (simp add: slot_complete_def)
  have cu: "complete_slots ?u = insert (nat i) (complete_slots t)" "nat i \<notin> complete_slots t"
    using c m nf by (simp_all add: complete_slots_def u)
  have "card (complete_slots t) \<le> 64" using card_complete_bound [OF w] w by (simp add: reorder_wf_def)
  then have "unat (stored_mpdu_num t + 1) = unat (stored_mpdu_num t) + 1"
    using w by (simp add: reorder_wf_def unat_word_ariths)
  then show "reorder_wf ?u"
    using w nf l cu by (auto simp: reorder_wf_def u o nth_list_update)
qed

lemma wf_start [simp]:
  "reorder_wf (t\<lparr>started := x\<rparr>) = reorder_wf t"
  "reorder_wf (t\<lparr>auto_seq := y, ssn := z\<rparr>) = reorder_wf t"
  by (simp_all add: reorder_wf_def complete_slots_def slot_complete_def)

lemma mpdu_sn_int: "uint (mpdu_sn skb) < 4096"
  by (simp add: mpdu_sn_def IEEE80211_SN_MASK_def [symmetric] sn_mask_int)

lemma wf_head: "reorder_wf t \<Longrightarrow> uint sn < 4096 \<Longrightarrow> reorder_wf (t\<lparr>head_seq_num := sn\<rparr>)"
  by (simp add: reorder_wf_def complete_slots_def slot_complete_def)

lemma manage_returns:
  assumes w: "reorder_wf t"
  shows "\<exists>c t' fr'. ieee80211_sta_manage_reorder_buf jiffies HZ skb (t, fr) = Some (c, t', fr') \<and>
    reorder_wf t' \<and> buf_size t' = buf_size t"
proof -
  let ?sn = "mpdu_sn skb"
  define t1 where "t1 = (if auto_seq t then t\<lparr>auto_seq := False, ssn := ?sn, head_seq_num := ?sn\<rparr> else t)"
  have w1: "reorder_wf t1" "buf_size t1 = buf_size t"
    using w wf_head [of "t\<lparr>auto_seq := False, ssn := ?sn\<rparr>" ?sn] mpdu_sn_int by (simp_all add: t1_def)
  define t2 where "t2 = t1\<lparr>started := True\<rparr>"
  have w2: "reorder_wf t2" "buf_size t2 = buf_size t" using w1 by (simp_all add: t2_def)
  define s3 where "s3 = (if \<not> ieee80211_sn_less ?sn (head_seq_num t1 + buf_size t2)
                   then ieee80211_release_reorder_frames
                          (ieee80211_sn_inc (ieee80211_sn_sub ?sn (buf_size t2))) (t2, fr)
                   else (t2, fr))"
  obtain t3 fr3 where s3: "s3 = (t3, fr3)" by (cases s3)
  have w3: "reorder_wf t3" "buf_size t3 = buf_size t"
    using release_frames_wf [of "(t2, fr)" "ieee80211_sn_inc (ieee80211_sn_sub ?sn (buf_size t2))"] w2 s3
    by (auto simp: s3_def split: if_splits)
  note i = ring_index_bounds [OF wf_size [OF w3(1)], of ?sn]
  have h: "reorder_wf (t3\<lparr>head_seq_num := ieee80211_sn_inc (head_seq_num t3)\<rparr>)"
    by (rule wf_head [OF w3(1)]) (simp add: sn_inc_int)
  show ?thesis
    unfolding ieee80211_sta_manage_reorder_buf_def prod.case Let_def t1_def [symmetric] t2_def [symmetric]
      s3_def [symmetric] s3
    using w1 w2 w3 h buffer_frame_wf(1) [OF w3(1) i(1,3), of skb] buffer_frame_wf(2) [OF w3(1) i(1,3), of skb jiffies]
      reorder_release_returns [of "t3\<lparr>reorder_buf := (reorder_buf t3)[nat (ring_index t3 ?sn) :=
          reorder_buf t3 ! nat (ring_index t3 ?sn) @ [skb]],
        reorder_time := (reorder_time t3)[nat (ring_index t3 ?sn) := jiffies],
        stored_mpdu_num := stored_mpdu_num t3 + 1\<rparr>" jiffies HZ fr3]
    by auto
qed


section \<open>Order and conservation\<close>

text \<open>
  A session without A-MSDUs split by the hardware, on a ring of at least two slots whose size
  divides the number of sequence numbers: every slot holds at most one frame, the one whose sequence number in the
  window belongs there.
\<close>

definition window_wf :: "tid_ampdu_rx \<Rightarrow> bool" where
  "window_wf t \<longleftrightarrow> reorder_wf t \<and> 1 < unat (buf_size t) \<and> unat (buf_size t) dvd 4096 \<and>
     (\<forall>i < unat (buf_size t). length (reorder_buf t ! i) \<le> 1 \<and>
        (\<forall>f \<in> set (reorder_buf t ! i). \<not> amsdu_more f \<and>
           sn_dist (head_seq_num t) (mpdu_sn f) < unat (buf_size t) \<and> ring_index t (mpdu_sn f) = int i))"

text \<open>What of a frame the buffer must not change: its name and its number.\<close>

definition frame_key :: "skb \<Rightarrow> nat \<times> u16" where
  "frame_key skb = (skb_id skb, mpdu_sn skb)"

lemma frame_key_deferred [simp]: "frame_key (skb\<lparr>deferred_release := x\<rparr>) = frame_key skb"
  by (simp add: frame_key_def mpdu_sn_def)

definition stored_ids :: "tid_ampdu_rx \<Rightarrow> (nat \<times> u16) multiset" where
  "stored_ids t = image_mset frame_key (mset (concat (reorder_buf t)))"

text \<open>
  The window of \<open>t\<close> slides by \<open>n\<close> to that of \<open>t'\<close>, having taken in the frames
  \<open>add\<close>: the frames released come from the first \<open>n\<close> numbers, in order, and each frame
  is either released or still stored.
\<close>

definition slides_in :: "(nat \<times> u16) multiset \<Rightarrow> tid_ampdu_rx \<Rightarrow> skb list \<Rightarrow> nat \<Rightarrow> tid_ampdu_rx \<Rightarrow> skb list \<Rightarrow> bool" where
  "slides_in add t fr n t' fr' \<longleftrightarrow> window_wf t' \<and> buf_size t' = buf_size t \<and>
     uint (head_seq_num t') = (uint (head_seq_num t) + int n) mod 4096 \<and>
     (reorder_buf_filtered t = 0 \<longrightarrow> reorder_buf_filtered t' = 0) \<and>
     (\<exists>rel. fr' = fr @ rel \<and> sorted_wrt (<) (map (sn_dist (head_seq_num t) \<circ> mpdu_sn) rel) \<and>
        (\<forall>f \<in> set rel. sn_dist (head_seq_num t) (mpdu_sn f) < n) \<and>
        stored_ids t + add = stored_ids t' + image_mset frame_key (mset rel))"

abbreviation slides :: "tid_ampdu_rx \<Rightarrow> skb list \<Rightarrow> nat \<Rightarrow> tid_ampdu_rx \<Rightarrow> skb list \<Rightarrow> bool" where
  "slides \<equiv> slides_in {#}"

lemmas slides_def = slides_in_def [of "{#}"]

lemma window_wf_reorder: "window_wf t \<Longrightarrow> reorder_wf t"
  by (simp add: window_wf_def)

lemma sn_dist_shift:
  assumes "uint h' = (uint h + int n) mod 4096" "sn_dist h' s + n < 4096"
  shows "sn_dist h s = sn_dist h' s + n"
proof -
  have "int (sn_dist h s) = (uint s - uint h) mod 4096" by (rule sn_dist_int)
  also have "\<dots> = ((uint s - uint h') mod 4096 + int n) mod 4096"
    by (simp add: assms(1) mod_simps algebra_simps)
  also have "\<dots> = (int (sn_dist h' s) + int n) mod 4096" by (simp add: sn_dist_int)
  also have "\<dots> = int (sn_dist h' s) + int n" using assms(2) by (intro mod_pos_pos_trivial) linarith+
  finally show ?thesis by linarith
qed

lemma sn_dist_drop:
  assumes "uint h' = (uint h + int n) mod 4096" "n \<le> sn_dist h s"
  shows "sn_dist h' s = sn_dist h s - n"
proof -
  have "int (sn_dist h' s) = (uint s - uint h') mod 4096" by (rule sn_dist_int)
  also have "\<dots> = ((uint s - uint h) mod 4096 - int n) mod 4096"
    by (simp add: assms(1) mod_simps algebra_simps)
  also have "\<dots> = (int (sn_dist h s) - int n) mod 4096" by (simp add: sn_dist_int)
  also have "\<dots> = int (sn_dist h s) - int n"
    using assms(2) sn_dist_less [of h s] by (intro mod_pos_pos_trivial) linarith+
  finally show ?thesis using assms(2) by simp
qed

lemma slides_refl: "window_wf t \<Longrightarrow> slides t fr 0 t fr"
  by (simp add: slides_def window_wf_def reorder_wf_def)

lemma slides_in_trans:
  assumes a: "slides_in A t fr n t1 fr1" and b: "slides_in A' t1 fr1 m t2 fr2" and l: "n + m \<le> 4096"
  shows "slides_in (A + A') t fr (n + m) t2 fr2"
proof -
  let ?h = "head_seq_num t"
  obtain r1 where r1: "fr1 = fr @ r1" "sorted_wrt (<) (map (sn_dist ?h \<circ> mpdu_sn) r1)"
    "\<forall>f \<in> set r1. sn_dist ?h (mpdu_sn f) < n" "stored_ids t + A = stored_ids t1 + image_mset frame_key (mset r1)"
    and h1: "uint (head_seq_num t1) = (uint ?h + int n) mod 4096" "buf_size t1 = buf_size t"
      "reorder_buf_filtered t = 0 \<longrightarrow> reorder_buf_filtered t1 = 0"
    using a unfolding slides_in_def by blast
  obtain r2 where r2: "fr2 = fr1 @ r2" "sorted_wrt (<) (map (sn_dist (head_seq_num t1) \<circ> mpdu_sn) r2)"
    "\<forall>f \<in> set r2. sn_dist (head_seq_num t1) (mpdu_sn f) < m" "stored_ids t1 + A' = stored_ids t2 + image_mset frame_key (mset r2)"
    and h2: "uint (head_seq_num t2) = (uint (head_seq_num t1) + int m) mod 4096" "buf_size t2 = buf_size t1" "window_wf t2"
      "reorder_buf_filtered t1 = 0 \<longrightarrow> reorder_buf_filtered t2 = 0"
    using b unfolding slides_in_def by blast
  have d: "sn_dist ?h (mpdu_sn f) = sn_dist (head_seq_num t1) (mpdu_sn f) + n" if "f \<in> set r2" for f
    using sn_dist_shift [OF h1(1), of "mpdu_sn f"] r2(3) that l by fastforce
  have s2: "sorted_wrt (<) (map (sn_dist ?h \<circ> mpdu_sn) r2)"
    using r2(2) d unfolding sorted_wrt_map by (auto elim!: sorted_wrt_mono_rel [rotated])
  have "sorted_wrt (<) (map (sn_dist ?h \<circ> mpdu_sn) (r1 @ r2))"
    using r1(2,3) s2 d by (fastforce simp: sorted_wrt_append)
  moreover have "\<forall>f \<in> set (r1 @ r2). sn_dist ?h (mpdu_sn f) < n + m"
    using r1(3) r2(3) d by fastforce
  moreover have "uint (head_seq_num t2) = (uint ?h + int (n + m)) mod 4096"
    by (simp add: h1 h2 mod_simps algebra_simps)
  moreover have "stored_ids t + (A + A') = stored_ids t2 + image_mset frame_key (mset (r1 @ r2))"
  proof -
    have "stored_ids t + (A + A') = (stored_ids t + A) + A'" by (simp only: ac_simps)
    also have "\<dots> = (stored_ids t1 + A') + image_mset frame_key (mset r1)" unfolding r1(4) by (simp only: ac_simps)
    also have "\<dots> = stored_ids t2 + image_mset frame_key (mset (r1 @ r2))" unfolding r2(4) by (simp add: ac_simps)
    finally show ?thesis .
  qed
  ultimately show ?thesis
    unfolding slides_in_def using r1 r2 h1 h2 by (intro conjI exI [of _ "r1 @ r2"]) simp_all
qed

lemma slides_trans:
  "slides t fr n t1 fr1 \<Longrightarrow> slides t1 fr1 m t2 fr2 \<Longrightarrow> n + m \<le> 4096 \<Longrightarrow> slides t fr (n + m) t2 fr2"
  using slides_in_trans [of "{#}" t fr n t1 fr1 "{#}" m t2 fr2] by simp

lemma window_wf_timer [simp]:
  "window_wf (t\<lparr>reorder_timer := x\<rparr>) = window_wf t" "stored_ids (t\<lparr>reorder_timer := x\<rparr>) = stored_ids t"
  by (simp_all add: window_wf_def stored_ids_def ring_index_def)

lemma slides_timer: "slides t fr n t' fr' \<Longrightarrow> slides t fr n (t'\<lparr>reorder_timer := x\<rparr>) fr'"
  by (simp add: slides_def)

lemma concat_update:
  "i < length xs \<Longrightarrow> mset (concat (xs[i := ys])) + mset (xs ! i) = mset (concat xs) + mset ys"
  by (induction xs arbitrary: i) (auto split: nat.splits)

lemma concat_clear: "i < length xs \<Longrightarrow> mset (concat xs) = mset (concat (xs[i := []])) + mset (xs ! i)"
  using concat_update [of i xs "[]"] by simp

lemma in_slots: "f \<in> set (concat xs) \<longleftrightarrow> (\<exists>i < length xs. f \<in> set (xs ! i))"
  by (auto simp: in_set_conv_nth [of _ xs] intro: nth_mem)

lemma window_slot:
  assumes "window_wf t" "i < unat (buf_size t)" "f \<in> set (reorder_buf t ! i)"
  shows "sn_dist (head_seq_num t) (mpdu_sn f) < unat (buf_size t)" "ring_index t (mpdu_sn f) = int i" "\<not> amsdu_more f"
  using assms by (auto simp: window_wf_def)

lemma window_complete: "window_wf t \<Longrightarrow> i < unat (buf_size t) \<Longrightarrow> slot_complete t i \<longleftrightarrow> reorder_buf t ! i \<noteq> []"
  by (auto simp: slot_complete_def dest: window_slot(3) intro: last_in_set)

text \<open>The slot of a frame, from its distance to the head.\<close>

lemma ring_index_dist:
  assumes "unat (buf_size t) dvd 4096"
  shows "ring_index t s = (ring_index t h + int (sn_dist h s)) mod uint (buf_size t)"
proof -
  let ?B = "uint (buf_size t)"
  have "?B dvd 4096" using assms by (metis int_dvd_int_iff of_nat_numeral uint_nat)
  then have "int (sn_dist h s) mod ?B = (uint s - uint h) mod ?B" by (simp add: sn_dist_int mod_mod_cancel)
  then have "(uint h + int (sn_dist h s)) mod ?B = uint s mod ?B"
    by (metis add_diff_cancel_left' diff_add_cancel mod_add_right_eq add.commute)
  then show ?thesis by (simp add: ring_index_def mod_simps)
qed

text \<open>
  Moving the head over slots that hold nothing, and releasing the slot of the head: the two
  ways the window slides.
\<close>

lemma ring_uint: "0 < unat (buf_size t) \<Longrightarrow> 0 < uint (buf_size t)"
  by (simp only: uint_nat of_nat_0_less_iff)

lemma head_only [simp]:
  "slot_complete (t\<lparr>head_seq_num := h\<rparr>) i = slot_complete t i"
  "ring_index (t\<lparr>head_seq_num := h\<rparr>) s = ring_index t s"
  "stored_ids (t\<lparr>head_seq_num := h\<rparr>) = stored_ids t"
  "complete_slots (t\<lparr>head_seq_num := h\<rparr>) = complete_slots t"
  by (simp_all add: slot_complete_def ring_index_def stored_ids_def complete_slots_def)

lemma slides_skip:
  assumes w: "window_wf t" and m: "\<forall>f \<in> set (concat (reorder_buf t)). m \<le> sn_dist (head_seq_num t) (mpdu_sn f)"
    and h: "uint h = (uint (head_seq_num t) + int m) mod 4096"
  shows "slides t fr m (t\<lparr>head_seq_num := h\<rparr>) fr"
proof -
  have l: "length (reorder_buf t) = unat (buf_size t)" using w by (simp add: window_wf_def reorder_wf_def)
  have "reorder_wf (t\<lparr>head_seq_num := h\<rparr>)"
    using window_wf_reorder [OF w] by (rule wf_head) (simp add: h)
  moreover have "sn_dist h (mpdu_sn f) < unat (buf_size t)"
    if "i < unat (buf_size t)" "f \<in> set (reorder_buf t ! i)" for i f
    using sn_dist_drop [OF h, of "mpdu_sn f"] window_slot(1) [OF w that] m that l by fastforce
  ultimately have "window_wf (t\<lparr>head_seq_num := h\<rparr>)"
    using w by (simp add: window_wf_def)
  then show ?thesis using h by (simp add: slides_def)
qed

lemma head_slot_frame:
  assumes w: "window_wf t" and f: "f \<in> set (reorder_buf t ! nat (ring_index t (head_seq_num t)))"
  shows "sn_dist (head_seq_num t) (mpdu_sn f) = 0"
proof -
  let ?B = "uint (buf_size t)" and ?h = "head_seq_num t"
  have B: "0 < unat (buf_size t)" using w by (simp add: window_wf_def reorder_wf_def)
  note r = ring_index_bounds [OF B, of ?h]
  have s: "ring_index t (mpdu_sn f) = ring_index t ?h" "sn_dist ?h (mpdu_sn f) < unat (buf_size t)"
    using window_slot [OF w r(3) f] r(1) by simp_all
  have "(ring_index t ?h + int (sn_dist ?h (mpdu_sn f))) mod ?B = ring_index t ?h mod ?B"
    using s(1) ring_index_dist [of t "mpdu_sn f" ?h] w r by (simp add: window_wf_def)
  then have "int (sn_dist ?h (mpdu_sn f)) mod ?B = 0" by (metis add_diff_cancel_left' mod_diff_right_eq mod_eq_dvd_iff mod_0_imp_dvd dvd_imp_mod_0 diff_0_right)
  moreover have "int (sn_dist ?h (mpdu_sn f)) mod ?B = int (sn_dist ?h (mpdu_sn f))"
    using s(2) by (intro mod_pos_pos_trivial) (simp_all add: uint_nat del: of_nat_unat)
  ultimately show ?thesis by simp
qed

lemma nonhead_slot_frame:
  assumes w: "window_wf t" and i: "i < unat (buf_size t)" "i \<noteq> nat (ring_index t (head_seq_num t))"
    and f: "f \<in> set (reorder_buf t ! i)"
  shows "1 \<le> sn_dist (head_seq_num t) (mpdu_sn f)"
proof (rule ccontr)
  assume "\<not> ?thesis"
  then have z: "sn_dist (head_seq_num t) (mpdu_sn f) = 0" by simp
  have B: "0 < unat (buf_size t)" using w by (simp add: window_wf_def reorder_wf_def)
  have "ring_index t (mpdu_sn f) = ring_index t (head_seq_num t)"
    using ring_index_dist [of t "mpdu_sn f" "head_seq_num t"] w ring_index_bounds [OF B, of "head_seq_num t"] z
    by (simp add: window_wf_def)
  then show False using window_slot(2) [OF w i(1) f] i(2) by simp
qed

lemma slides_release:
  assumes w: "window_wf t" and i: "i = ring_index t (head_seq_num t)"
    and r: "ieee80211_release_reorder_frame i (t, fr) = (t', fr')"
  shows "slides t fr 1 t' fr'"
proof -
  let ?h = "head_seq_num t" and ?B = "unat (buf_size t)"
  have wf: "reorder_wf t" using w by (rule window_wf_reorder)
  have B: "0 < ?B" using wf by (rule wf_size)
  have n: "nat i < ?B" using ring_index_bounds(3) [OF B] i by simp
  have l: "nat i < length (reorder_buf t)" "length (reorder_buf t) = ?B" using n wf by (simp_all add: reorder_wf_def)
  let ?rel = "map (\<lambda>skb. skb\<lparr>deferred_release := True\<rparr>) (reorder_buf t ! nat i)"
  have form: "head_seq_num t' = ieee80211_sn_inc ?h" "buf_size t' = buf_size t"
    "reorder_buf t' = (reorder_buf t)[nat i := []]" "fr' = fr @ ?rel" "reorder_buf_filtered t = 0 \<longrightarrow> reorder_buf_filtered t' = 0"
    using r window_complete [OF w n] by (auto simp: release_frame_form [OF wf n])
  have wf': "reorder_wf t'" using release_frame_wf [OF wf n, of fr] r by simp
  have h: "uint (head_seq_num t') = (uint ?h + int 1) mod 4096" by (simp add: form sn_inc_int)
  have d: "sn_dist (head_seq_num t') (mpdu_sn f) < ?B"
    if "x < ?B" "x \<noteq> nat i" "f \<in> set (reorder_buf t ! x)" for x f
    using sn_dist_drop [OF h nonhead_slot_frame [OF w that(1) that(2) [unfolded i] that(3)]] window_slot(1) [OF w that(1,3)] by simp
  have "window_wf t'"
    using wf' w l d by (auto simp: window_wf_def form nth_list_update ring_index_def)
  moreover have z: "sn_dist ?h (mpdu_sn f) = 0" if "f \<in> set (reorder_buf t ! nat i)" for f
    using head_slot_frame [OF w] that i by simp
  moreover have "length (reorder_buf t ! nat i) \<le> 1" using w n by (simp add: window_wf_def)
  then have "sorted_wrt (<) (map (sn_dist ?h \<circ> mpdu_sn) ?rel)"
    by (cases "reorder_buf t ! nat i") auto
  moreover have "mpdu_sn (f\<lparr>deferred_release := True\<rparr>) = mpdu_sn f" for f by (simp add: mpdu_sn_def)
  moreover have "image_mset frame_key (mset ?rel) = image_mset frame_key (mset (reorder_buf t ! nat i))"
    by (simp add: multiset.map_comp comp_def)
  then have "stored_ids t = stored_ids t' + image_mset frame_key (mset ?rel)"
    unfolding stored_ids_def form(3) concat_clear [OF l(1)] by simp
  ultimately show ?thesis
    unfolding slides_def using form h by (intro conjI exI [of _ ?rel]) auto
qed


lemma slides_wf: "slides t fr n t' fr' \<Longrightarrow> window_wf t'"
  by (simp add: slides_def)

lemma slides_size: "slides t fr n t' fr' \<Longrightarrow> buf_size t' = buf_size t"
  by (simp add: slides_def)

lemma slides_release_frames:
  "window_wf (fst s) \<Longrightarrow>
   (\<exists>t' fr'. ieee80211_release_reorder_frames n s = (t', fr') \<and>
     slides (fst s) (snd s)
       (if ieee80211_sn_less (head_seq_num (fst s)) n then sn_dist (head_seq_num (fst s)) n else 0) t' fr')"
proof (induction n s rule: ieee80211_release_reorder_frames.induct)
  case (1 n s)
  obtain t fr where s: "s = (t, fr)" by (cases s)
  let ?h = "head_seq_num t"
  show ?case
  proof (cases "ieee80211_sn_less ?h n")
    case False
    then show ?thesis using 1(2) by (subst ieee80211_release_reorder_frames.simps) (simp add: s slides_refl)
  next
    case True
    obtain t1 fr1 where r: "ieee80211_release_reorder_frame (ring_index t ?h) (t, fr) = (t1, fr1)" by fastforce
    have s1: "slides t fr 1 t1 fr1" using slides_release [OF _ refl r] 1(2) s by simp
    have h1: "uint (head_seq_num t1) = (uint ?h + int 1) mod 4096" using s1 by (simp add: slides_def)
    have d: "2048 < sn_dist n ?h" using True by (simp add: sn_less_dist)
    then have d0: "1 \<le> sn_dist ?h n" using sn_dist_flip [of n ?h] sn_dist_less [of n ?h] by linarith
    note d1 = sn_dist_drop [OF h1 d0]
    obtain t2 fr2 where r2: "ieee80211_release_reorder_frames n (t1, fr1) = (t2, fr2)"
      and s2: "slides t1 fr1 (if ieee80211_sn_less (head_seq_num t1) n then sn_dist (head_seq_num t1) n else 0) t2 fr2"
      using 1(1) True slides_wf [OF s1] unfolding s fst_conv snd_conv r by blast
    have e: "(if ieee80211_sn_less (head_seq_num t1) n then sn_dist (head_seq_num t1) n else 0) = sn_dist ?h n - 1"
    proof (cases "sn_dist ?h n = 1")
      case True
      then have "sn_dist (head_seq_num t1) n = 0" using d1 by simp
      then show ?thesis using True by simp
    next
      case False
      then have "sn_dist n (head_seq_num t1) = 4096 - (sn_dist ?h n - 1)"
        using sn_dist_flip [of "head_seq_num t1" n] d0 d1 by simp
      then have "2048 < sn_dist n (head_seq_num t1)" using d sn_dist_flip [of ?h n] d0 by linarith
      then show ?thesis using d1 by (simp add: sn_less_dist)
    qed
    have "slides t fr (1 + (sn_dist ?h n - 1)) t2 fr2"
      using slides_trans [OF s1 s2 [unfolded e]] sn_dist_less [of ?h n] by linarith
    then show ?thesis using True r r2 d0 by (subst ieee80211_release_reorder_frames.simps) (simp add: s)
  qed
qed

text \<open>No frame waits at the head of the window.\<close>

definition head_clear :: "tid_ampdu_rx \<Rightarrow> bool" where
  "head_clear t \<longleftrightarrow> (\<forall>f \<in> set (concat (reorder_buf t)). 0 < sn_dist (head_seq_num t) (mpdu_sn f))"

lemma head_clear_timer [simp]: "head_clear (t\<lparr>reorder_timer := x\<rparr>) = head_clear t"
  by (simp add: head_clear_def)

lemma not_ready_clear:
  assumes w: "window_wf t" and r: "\<not> ieee80211_rx_reorder_ready t (ring_index t (head_seq_num t))"
  shows "head_clear t"
  unfolding head_clear_def
proof
  fix f assume f: "f \<in> set (concat (reorder_buf t))"
  note b = ring_index_bounds [OF wf_size [OF window_wf_reorder [OF w]], of "head_seq_num t"]
  obtain i where i: "i < unat (buf_size t)" "f \<in> set (reorder_buf t ! i)"
    using f window_wf_reorder [OF w] unfolding in_slots by (auto simp: reorder_wf_def)
  have "reorder_buf t ! nat (ring_index t (head_seq_num t)) = []"
    using r window_complete [OF w b(3)] by (simp add: ready_iff)
  then have "i \<noteq> nat (ring_index t (head_seq_num t))" using i(2) by auto
  then show "0 < sn_dist (head_seq_num t) (mpdu_sn f)" using nonhead_slot_frame [OF w i(1) _ i(2)] by simp
qed

lemma release_ready_exit:
  "release_ready i s = Some r \<Longrightarrow> i = ring_index (fst s) (head_seq_num (fst s)) \<longrightarrow>
     \<not> ieee80211_rx_reorder_ready (fst r) (ring_index (fst r) (head_seq_num (fst r)))"
proof (induction rule: release_ready.raw_induct [rotated 1, consumes 1, case_names 1])
  case (1 loop i s r)
  show ?case
  proof (cases "ieee80211_rx_reorder_ready (fst s) i")
    case True
    let ?s = "ieee80211_release_reorder_frame i s"
    have "loop (ring_index (fst ?s) (head_seq_num (fst ?s))) ?s = Some r" using 1(2) True by (simp add: Let_def)
    from 1(1) [OF this] show ?thesis by simp
  next
    case False
    then show ?thesis using 1(2) by auto
  qed
qed

lemma slides_release_ready:
  "window_wf (fst s) \<Longrightarrow> i = ring_index (fst s) (head_seq_num (fst s)) \<Longrightarrow>
   \<exists>t' fr' n. release_ready i s = Some (t', fr') \<and> n \<le> card (ready_slots (fst s)) \<and> slides (fst s) (snd s) n t' fr'"
proof (induction "card (ready_slots (fst s))" arbitrary: i s rule: less_induct)
  case less
  obtain t fr where s: "s = (t, fr)" by (cases s)
  have w: "window_wf t" and wf: "reorder_wf t" using less.prems by (simp_all add: s window_wf_def)
  note b = ring_index_bounds [OF wf_size [OF wf], of "head_seq_num t"]
  show ?case
  proof (cases "ieee80211_rx_reorder_ready t i")
    case False
    then have "release_ready i s = Some (t, fr)" by (subst release_ready.simps) (simp add: s)
    then show ?thesis using slides_refl [OF w, of fr] by (auto simp: s)
  next
    case True
    obtain t1 fr1 where r: "ieee80211_release_reorder_frame i (t, fr) = (t1, fr1)" by fastforce
    have s1: "slides t fr 1 t1 fr1" using slides_release [OF w _ r] less.prems by (simp add: s)
    have i: "0 \<le> i" "nat i < unat (buf_size t)" using b less.prems by (simp_all add: s)
    have "ready_slots t1 = ready_slots t - {nat i}"
      using ready_after_release [OF wf i(2,1), of "nat i" fr] ready_after_release [OF wf i(2,1), of _ fr] i slides_size [OF s1]
      by (auto simp: ready_slots_def r)
    moreover have m: "nat i \<in> ready_slots t" "finite (ready_slots t)" using True i by (simp_all add: ready_slots_def)
    ultimately have c: "card (ready_slots t) = Suc (card (ready_slots t1))" by (simp only: card_Suc_Diff1)
    have e: "release_ready i s = release_ready (ring_index t1 (head_seq_num t1)) (t1, fr1)"
      using True by (subst release_ready.simps) (simp add: s r)
    obtain t2 fr2 n where x: "release_ready (ring_index t1 (head_seq_num t1)) (t1, fr1) = Some (t2, fr2)"
      "n \<le> card (ready_slots t1)" "slides t1 fr1 n t2 fr2"
      using less.hyps [of "(t1, fr1)"] slides_wf [OF s1] c by (auto simp: s)
    have "card (ready_slots t) \<le> card {..<unat (buf_size t)}" by (rule card_mono) (auto simp: ready_slots_def)
    then have "card (ready_slots t) \<le> 64" using wf by (simp add: reorder_wf_def)
    then have "slides t fr (1 + n) t2 fr2" using slides_trans [OF s1 x(3)] x(2) c by simp
    then show ?thesis using e x c by (intro exI [of _ t2] exI [of _ fr2] exI [of _ "1 + n"]) (simp add: s)
  qed
qed

lemma ready_slots_bound: "reorder_wf t \<Longrightarrow> card (ready_slots t) \<le> 64"
proof -
  assume w: "reorder_wf t"
  have "card (ready_slots t) \<le> card {..<unat (buf_size t)}" by (rule card_mono) (auto simp: ready_slots_def)
  then show ?thesis using w by (simp add: reorder_wf_def)
qed

text \<open>The purge of the timeout walk finds nothing in such a session.\<close>

lemma purge_nothing:
  assumes w: "window_wf t" and a: "0 \<le> a" "a < uint (buf_size t)" and j: "0 \<le> j" "j < uint (buf_size t)"
    and p: "passed a j t"
  shows "purge_slots ((a + 1) smod uint (buf_size t)) j t = Some t"
proof -
  let ?B = "uint (buf_size t)"
  let ?P = "\<lambda>i t'. t' = t \<and> ring_off ?B a i \<le> ring_off ?B a j"
  let ?body = "\<lambda>t i. Some (Inr (t\<lparr>reorder_buf := (reorder_buf t)[nat i := []]\<rparr>)) :: (tid_ampdu_rx + tid_ampdu_rx) option"
  have B: "0 < ?B" using a by simp
  have st: "(a + 1) smod ?B = (a + 1) mod ?B" using a B by (simp add: smod_succ)
  have "\<exists>r. ring_loop ?body ?B j ((a + 1) mod ?B) t = Some r \<and> case_sum (\<lambda>_. False) (?P j) r"
  proof (rule ring_loop_inv [where P = ?P])
    fix t' i
    assume h: "?P i t'" "0 \<le> i" "i < ?B" "i \<noteq> j"
    then have lt: "ring_off ?B a i < ring_off ?B a j" using ring_off_inj [of ?B a i j] j by fastforce
    have i: "nat i < unat (buf_size t)" "int (nat i) = i" using h by (simp_all add: nat_less_iff)
    have "\<not> ieee80211_rx_reorder_ready t i" using i lt p unfolding passed_def by metis
    then have "reorder_buf t ! nat i = []" using window_complete [OF w i(1)] by (simp add: ready_iff)
    then have e: "(reorder_buf t)[nat i := []] = reorder_buf t" by (metis list_update_id)
    have ia: "i \<noteq> a"
    proof
      assume "i = a"
      then have "ring_off ?B a i = ?B - 1" using B by (simp add: ring_off_def zmod_minus1)
      then show False using lt ring_off_bounds [OF B, of a j] by simp
    qed
    then show "\<exists>r. ?body t' i = Some r \<and> case_sum (\<lambda>_. False) (?P ((i + 1) mod ?B)) r"
      using h lt e ring_off_succ [OF a h(2,3) ia] by simp
  qed (use a j B ring_off_first [OF B, of a] ring_off_bounds [OF B, of a j] in simp_all)
  then show ?thesis unfolding purge_slots_def st by (auto split: sum.splits)
qed

text \<open>The slot at a distance behind the head.\<close>

lemma slot_at_distance:
  assumes "unat (buf_size t) dvd 4096" "0 < unat (buf_size t)" "sn_dist (head_seq_num t) s < unat (buf_size t)"
    and a: "a = ring_index t (head_seq_num t)" and "sn_dist (head_seq_num t) s \<noteq> 0"
  shows "ring_off (uint (buf_size t)) a (ring_index t s) = int (sn_dist (head_seq_num t) s) - 1"
proof -
  let ?B = "uint (buf_size t)" and ?d = "int (sn_dist (head_seq_num t) s)"
  have "ring_off ?B a (ring_index t s) = ((a + ?d) mod ?B - (a + 1)) mod ?B"
    using ring_index_dist [OF assms(1), of s "head_seq_num t"] a by (simp add: ring_off_def)
  also have "\<dots> = (?d - 1) mod ?B" by (simp add: mod_simps algebra_simps)
  also have "\<dots> = ?d - 1"
    using assms(3,5) by (intro mod_pos_pos_trivial) (simp_all add: uint_nat del: of_nat_unat)
  finally show ?thesis .
qed

definition walk_slides :: "tid_ampdu_rx \<Rightarrow> skb list \<Rightarrow> int \<Rightarrow> timeout_walk \<Rightarrow> bool" where
  "walk_slides t0 fr0 j s \<longleftrightarrow> (case s of (skipped, t, fr) \<Rightarrow>
     let K = ring_off (uint (buf_size t0)) (ring_index t0 (head_seq_num t0)) j + 1 in
     walk_wf t0 j s \<and> 0 \<le> skipped \<and> (\<exists>n. slides t0 fr0 n t fr \<and> int n + skipped = K) \<and>
     (\<forall>f \<in> set (concat (reorder_buf t)). K \<le> int (sn_dist (head_seq_num t0) (mpdu_sn f)) \<and>
        sn_dist (head_seq_num t0) (mpdu_sn f) < unat (buf_size t0)))"

lemma release_head_indep:
  "ieee80211_release_reorder_frame j (t, fr) = (t', fr') \<Longrightarrow>
     ieee80211_release_reorder_frame j (t\<lparr>head_seq_num := h\<rparr>, fr) = (t'\<lparr>head_seq_num := ieee80211_sn_inc h\<rparr>, fr')"
  by (auto simp: ieee80211_release_reorder_frame_def ready_iff Let_def split: if_splits)

lemma release_buf:
  "reorder_wf t \<Longrightarrow> nat j < unat (buf_size t) \<Longrightarrow> ieee80211_release_reorder_frame j (t, fr) = (t', fr') \<Longrightarrow>
     reorder_buf t' = (reorder_buf t)[nat j := []] \<and> head_seq_num t' = ieee80211_sn_inc (head_seq_num t)"
  using release_frame_form [of t j fr] by auto

text \<open>In the walk, a stored frame lies as many slots behind the first head as its distance says.\<close>

lemma walk_frame_slot:
  assumes w0: "window_wf t0" and a: "a = ring_index t0 (head_seq_num t0)"
    and w: "window_wf t" "buf_size t = buf_size t0" and i: "i < unat (buf_size t)" and f: "f \<in> set (reorder_buf t ! i)"
    and d: "1 \<le> sn_dist (head_seq_num t0) (mpdu_sn f)" "sn_dist (head_seq_num t0) (mpdu_sn f) < unat (buf_size t0)"
  shows "ring_off (uint (buf_size t0)) a (int i) = int (sn_dist (head_seq_num t0) (mpdu_sn f)) - 1"
proof -
  have "ring_index t (mpdu_sn f) = int i" by (rule window_slot(2) [OF w(1) i f])
  then have "ring_index t0 (mpdu_sn f) = int i" by (simp add: ring_index_def w(2))
  then show ?thesis
    using slot_at_distance [of t0 "mpdu_sn f" a] w0 a d by (simp add: window_wf_def reorder_wf_def)
qed

lemma head_target:
  assumes w0: "window_wf t0" and a: "a = ring_index t0 (head_seq_num t0)" and j: "0 \<le> j" "j < uint (buf_size t0)"
    and h: "uint h = (uint (head_seq_num t0) + (ring_off (uint (buf_size t0)) a j + 1)) mod 4096"
  shows "ring_index t0 h = j"
proof -
  let ?B = "uint (buf_size t0)"
  have "?B dvd 4096" using w0 by (metis int_dvd_int_iff of_nat_numeral uint_nat window_wf_def)
  then have "ring_index t0 h = (uint (head_seq_num t0) + (ring_off ?B a j + 1)) mod ?B"
    unfolding ring_index_def h by (rule mod_mod_cancel)
  also have "\<dots> = (a + ((j - (a + 1)) mod ?B + 1)) mod ?B"
    by (simp add: a ring_index_def ring_off_def mod_simps)
  also have "\<dots> = (a + 1 + (j - (a + 1)) mod ?B) mod ?B" by (simp add: ac_simps)
  also have "\<dots> = (a + 1 + (j - (a + 1))) mod ?B" by (rule mod_add_right_eq)
  finally show ?thesis using j by (simp add: mod_pos_pos_trivial)
qed

lemma uint_skip:
  assumes "0 \<le> k" "k \<le> 64"
  shows "uint ((h + word_of_int k) AND IEEE80211_SN_MASK) = (uint h + k) mod 4096"
proof -
  have "uint (word_of_int k :: u16) = k" using assms by (simp add: uint_word_of_int take_bit_int_eq_self)
  then show ?thesis by (simp add: sn_mask_int uint_word_ariths mod_mod_cancel)
qed

lemma timeout_slot_slides:
  assumes w0: "window_wf t0" and ws: "walk_slides t0 fr0 j s" and a: "a = ring_index t0 (head_seq_num t0)"
    and j: "0 \<le> j" "j < uint (buf_size t0)" "j \<noteq> a"
  shows "\<exists>r. timeout_slot jiffies HZ a s j = Some r \<and>
    case_sum (\<lambda>(i, t, fr). \<exists>n \<le> 64. slides t0 fr0 n t fr \<and> head_clear t)
      (walk_slides t0 fr0 ((j + 1) mod uint (buf_size t0))) r"
proof -
  let ?B = "uint (buf_size t0)"
  let ?K = "ring_off ?B a j + 1"
  let ?D = "\<lambda>f. sn_dist (head_seq_num t0) (mpdu_sn f)"
  obtain skipped t fr where s: "s = (skipped, t, fr)" by (cases s)
  have B: "0 < unat (buf_size t0)" "unat (buf_size t0) \<le> 64" using w0 by (simp_all add: window_wf_def reorder_wf_def)
  have ab: "0 \<le> a" "a < ?B" using ring_index_bounds(1,2) [OF B(1)] by (simp_all add: a)
  have ww: "walk_wf t0 j s" and sk: "0 \<le> skipped"
    and D: "\<And>f. f \<in> set (concat (reorder_buf t)) \<Longrightarrow> ?K \<le> int (?D f) \<and> ?D f < unat (buf_size t0)"
    using ws unfolding walk_slides_def s a [symmetric] Let_def prod.case by blast+
  obtain n where n: "slides t0 fr0 n t fr" "int n + skipped = ?K"
    using ws unfolding walk_slides_def s a [symmetric] by (auto simp: Let_def)
  have w: "window_wf t" "buf_size t = buf_size t0" using slides_wf [OF n(1)] slides_size [OF n(1)] by simp_all
  have wf: "reorder_wf t" using w(1) by (rule window_wf_reorder)
  have K: "1 \<le> ?K" "?K \<le> ?B" using ring_off_bounds [OF ring_uint [OF B(1)], of a j] by simp_all
  have n64: "n \<le> 64" "skipped \<le> 64" using n(2) K B sk by (simp_all add: uint_nat del: of_nat_unat)
  have jn: "nat j < unat (buf_size t)" "int (nat j) = j" using j w by (simp_all add: nat_less_iff)
  have bl: "length (reorder_buf t) = unat (buf_size t)" using wf by (simp add: reorder_wf_def)
  have off: "ring_off ?B a (int i) = int (?D f) - 1" if "i < unat (buf_size t)" "f \<in> set (reorder_buf t ! i)" for i f
    using walk_frame_slot [OF w0 a w that] D [of f] K that bl by fastforce
  have other: "?K + 1 \<le> int (?D f)" if "i < unat (buf_size t)" "f \<in> set (reorder_buf t ! i)" "int i \<noteq> j" for i f
  proof -
    have "int i < ?B" using that(1) w by (simp add: uint_nat del: of_nat_unat)
    then have "ring_off ?B a (int i) \<noteq> ring_off ?B a j" using ring_off_inj j that(3) by fastforce
    moreover have "?K \<le> int (?D f)" using D [of f] that bl by fastforce
    ultimately show ?thesis using off [OF that(1,2)] by linarith
  qed
  have hn: "uint (head_seq_num t) = (uint (head_seq_num t0) + int n) mod 4096" using n(1) by (simp add: slides_def)
  have far: "nat skipped \<le> sn_dist (head_seq_num t) (mpdu_sn f)" if f: "f \<in> set (concat (reorder_buf t))" for f
  proof -
    have "n \<le> ?D f" using D [OF f] n(2) sk by linarith
    then show ?thesis using sn_dist_drop [OF hn] D [OF f] n(2) by fastforce
  qed
  have next_off: "ring_off ?B a ((j + 1) mod ?B) = ring_off ?B a j + 1" using ring_off_succ [OF ab j] .
  obtain r where r: "timeout_slot jiffies HZ a s j = Some r"
    "case_sum (\<lambda>(j, t, fr). reorder_wf t \<and> buf_size t = buf_size t0) (walk_wf t0 ((j + 1) mod ?B)) r"
    using timeout_slot_step [OF ww a B(1) j] by blast
  show ?thesis
  proof (cases "ieee80211_rx_reorder_ready t j")
    case False
    then have r1: "r = Inr (skipped + 1, t, fr)" using r(1) by (simp add: timeout_slot_def s)
    have e: "reorder_buf t ! nat j = []" using False window_complete [OF w(1) jn(1)] by (simp add: ready_iff)
    have "?K + 1 \<le> int (?D f) \<and> ?D f < unat (buf_size t0)" if f: "f \<in> set (concat (reorder_buf t))" for f
    proof -
      obtain i where "i < unat (buf_size t)" "f \<in> set (reorder_buf t ! i)"
        using f bl unfolding in_slots by auto
      moreover from this e jn have "int i \<noteq> j" by auto
      ultimately show ?thesis using other D [OF f] by blast
    qed
    then show ?thesis
      using r r1 n sk by (auto simp: walk_slides_def a [symmetric] next_off Let_def)
  next
    case ready: True
    show ?thesis
    proof (cases "skipped \<noteq> 0 \<and> \<not> time_after jiffies (reorder_time t ! nat j + HT_RX_REORDER_BUF_TIMEOUT HZ)")
      case True
      then have "r = Inl (j, t, fr)" using r(1) ready by (simp add: timeout_slot_def s)
      moreover have "head_clear t" using far True sk by (fastforce simp: head_clear_def)
      ultimately show ?thesis using r(1) n(1) n64 by auto
    next
      case False
      have p: "passed a j t" using ww by (simp add: walk_wf_def s a)
      have pn: "purge_slots ((a + 1) smod uint (buf_size t)) j t = Some t"
        using purge_nothing [OF w(1), of a j] ab j p w(2) by simp
      obtain t2 fr2 where r2: "ieee80211_release_reorder_frame j (t, fr) = (t2, fr2)" by fastforce
      note b2 = release_buf [OF wf jn(1) r2]
      define h1 where "h1 = (head_seq_num t + word_of_int skipped) AND IEEE80211_SN_MASK"
      have u1: "uint h1 = (uint (head_seq_num t) + int (nat skipped)) mod 4096"
        using uint_skip [OF sk n64(2)] sk by (simp add: h1_def)
      have "\<forall>f \<in> set (concat (reorder_buf t)). nat skipped \<le> sn_dist (head_seq_num t) (mpdu_sn f)" using far by blast
      note s1 = slides_skip [OF w(1) this u1, of fr]
      have "ring_index t0 h1 = j"
      proof (rule head_target [OF w0 a j(1,2)])
        show "uint h1 = (uint (head_seq_num t0) + (ring_off ?B a j + 1)) mod 4096"
          unfolding n(2) [symmetric] u1 hn using sk by (simp add: mod_simps ac_simps)
      qed
      then have ji: "j = ring_index (t\<lparr>head_seq_num := h1\<rparr>) (head_seq_num (t\<lparr>head_seq_num := h1\<rparr>))"
        by (simp add: ring_index_def w(2))
      note s2 = slides_release [OF slides_wf [OF s1] ji release_head_indep [OF r2]]
      have "uint (head_seq_num t2) = (uint (head_seq_num t) + 1) mod 4096" using b2 by (simp add: sn_inc_int)
      then have "uint ((head_seq_num t2 + word_of_int skipped) AND IEEE80211_SN_MASK) = uint (ieee80211_sn_inc h1)"
        using uint_skip [OF sk n64(2), of "head_seq_num t2"] u1 sk by (simp add: sn_inc_int mod_simps ac_simps)
      then have h2: "(head_seq_num t2 + word_of_int skipped) AND IEEE80211_SN_MASK = ieee80211_sn_inc h1"
        by (simp only: word_uint_eq_iff)
      have r3: "r = Inr (0, t2\<lparr>head_seq_num := ieee80211_sn_inc h1\<rparr>, fr2)"
        using r(1) ready False pn r2 h2 by (auto simp: timeout_slot_def s)
      have "slides t0 fr0 (n + (nat skipped + 1)) (t2\<lparr>head_seq_num := ieee80211_sn_inc h1\<rparr>) fr2"
        using slides_trans [OF n(1) slides_trans [OF s1 s2]] n64 sk by simp
      moreover have "?K + 1 \<le> int (?D f) \<and> ?D f < unat (buf_size t0)" if f: "f \<in> set (concat (reorder_buf t2))" for f
      proof -
        obtain i where i: "i < unat (buf_size t)" "f \<in> set (reorder_buf t ! i)" "int i \<noteq> j"
          using f b2 bl jn unfolding in_slots by (auto simp: nth_list_update split: if_splits)
        then have "f \<in> set (concat (reorder_buf t))" using bl unfolding in_slots by auto
        then show ?thesis using other [OF i] D by blast
      qed
      ultimately show ?thesis
        using r r3 n(2) sk unfolding walk_slides_def a [symmetric]
        by (auto simp: next_off Let_def intro!: exI [of _ "n + (nat skipped + 1)"])
    qed
  qed
qed

text \<open>The arming of the timer moves nothing.\<close>

lemma arm_release_timer_slides:
  assumes "window_wf t"
  shows "\<exists>t'. arm_release_timer HZ (t, fr) = Some (t', fr) \<and> head_clear t' = head_clear t \<and>
    (\<forall>t0 fr0 n. slides t0 fr0 n t fr \<longrightarrow> slides t0 fr0 n t' fr)"
  using arm_release_timer_returns [OF window_wf_reorder [OF assms], of HZ fr] slides_timer by auto

lemma reorder_release_slides:
  assumes w: "window_wf t"
  shows "\<exists>t' fr' n. ieee80211_sta_reorder_release jiffies HZ (t, fr) = Some (t', fr') \<and> n \<le> 64 \<and> slides t fr n t' fr' \<and>
    head_clear t'"
proof -
  have wf: "reorder_wf t" by (rule window_wf_reorder [OF w])
  have B: "0 < unat (buf_size t)" "unat (buf_size t) \<le> 64" using wf by (simp_all add: reorder_wf_def)
  note Bi = ring_uint [OF B(1)]
  let ?a = "ring_index t (head_seq_num t)"
  note a = ring_index_bounds [OF B(1), of "head_seq_num t"]
  show ?thesis
  proof (cases "\<not> ieee80211_rx_reorder_ready t ?a \<and> stored_mpdu_num t \<noteq> 0")
    case False
    obtain t1 fr1 n where r: "release_ready ?a (t, fr) = Some (t1, fr1)" "n \<le> card (ready_slots t)" "slides t fr n t1 fr1"
      using slides_release_ready [of "(t, fr)" ?a] w by auto
    have "head_clear t1" using not_ready_clear [OF slides_wf [OF r(3)]] release_ready_exit [OF r(1)] by simp
    then obtain t2 where "arm_release_timer HZ (t1, fr1) = Some (t2, fr1)" "slides t fr n t2 fr1" "head_clear t2"
      using arm_release_timer_slides [OF slides_wf [OF r(3)]] r(3) by blast
    then show ?thesis using False r ready_slots_bound [OF wf]
      by (auto simp: ieee80211_sta_reorder_release_def Let_def intro!: exI [of _ n])
  next
    case True
    let ?Q = "\<lambda>(i :: int, t', fr'). \<exists>n \<le> 64. slides t fr n t' fr' \<and> head_clear t'"
    have st: "(?a + 1) smod uint (buf_size t) = (?a + 1) mod uint (buf_size t)" using a Bi by (simp add: smod_succ)
    have o: "ring_off (uint (buf_size t)) ?a ((?a + 1) mod uint (buf_size t)) = 0" by (rule ring_off_first [OF Bi])
    have p: "passed ?a ((?a + 1) mod uint (buf_size t)) t"
      using ring_off_bounds [OF Bi, of ?a] unfolding passed_def o by (meson not_less)
    have e: "reorder_buf t ! nat ?a = []" using True window_complete [OF w a(3)] by (simp add: ready_iff)
    have D: "1 \<le> sn_dist (head_seq_num t) (mpdu_sn f) \<and> sn_dist (head_seq_num t) (mpdu_sn f) < unat (buf_size t)"
      if f: "f \<in> set (concat (reorder_buf t))" for f
    proof -
      obtain i where i: "i < unat (buf_size t)" "f \<in> set (reorder_buf t ! i)"
        using f wf unfolding in_slots by (auto simp: reorder_wf_def)
      with e have "i \<noteq> nat ?a" by auto
      then show ?thesis using nonhead_slot_frame [OF w i(1) _ i(2)] window_slot(1) [OF w i] by simp
    qed
    have "walk_slides t fr ((?a + 1) mod uint (buf_size t)) (1, t, fr)"
      using wf p D slides_refl [OF w, of fr] unfolding walk_slides_def walk_wf_def o
      by (auto simp: Let_def intro!: exI [of _ 0])
    then have "\<exists>r. ring_loop (timeout_slot jiffies HZ ?a) (uint (buf_size t)) ?a ((?a + 1) mod uint (buf_size t)) (1, t, fr)
        = Some r \<and> case_sum ?Q (walk_slides t fr ?a) r"
      by (intro ring_loop_inv) (use a Bi timeout_slot_slides [OF w _ refl] in simp_all)
    then obtain r where r: "ring_loop (timeout_slot jiffies HZ ?a) (uint (buf_size t)) ?a
        ((?a + 1) smod uint (buf_size t)) (1, t, fr) = Some r" "case_sum ?Q (walk_slides t fr ?a) r"
      unfolding st by blast
    show ?thesis
    proof (cases r)
      case (Inl x)
      obtain i t1 fr1 n where x: "x = (i, t1, fr1)" "n \<le> 64" "slides t fr n t1 fr1" "head_clear t1" using r(2) Inl by auto
      then show ?thesis using True r(1) Inl slides_timer [OF x(3)]
        by (auto simp: ieee80211_sta_reorder_release_def Let_def set_release_timer_def)
    next
      case (Inr x)
      obtain sk t1 fr1 where x: "x = (sk, t1, fr1)" by (cases x)
      obtain n where n: "slides t fr n t1 fr1" "int n + sk = ring_off (uint (buf_size t)) ?a ?a + 1" "0 \<le> sk"
        using r(2) Inr x by (auto simp: walk_slides_def Let_def)
      have "set (concat (reorder_buf t1)) = {}"
      proof -
        have "ring_off (uint (buf_size t)) ?a ?a + 1 = uint (buf_size t)" using Bi by (simp add: ring_off_def zmod_minus1)
        then have "uint (buf_size t) \<le> int (sn_dist (head_seq_num t) (mpdu_sn f)) \<and>
            sn_dist (head_seq_num t) (mpdu_sn f) < unat (buf_size t)" if "f \<in> set (concat (reorder_buf t1))" for f
          using r(2) Inr x that unfolding walk_slides_def Let_def by (simp del: set_concat)
        then have none: "f \<notin> set (concat (reorder_buf t1))" for f by (fastforce simp: uint_nat simp del: of_nat_unat)
        show ?thesis by (rule equals0I) (erule notE [OF none])
      qed
      then have hc: "head_clear t1" unfolding head_clear_def by (simp only: ball_empty)
      have "n \<le> 64" using n(2,3) ring_off_bounds [OF Bi, of ?a ?a] B(2) by (simp add: uint_nat del: of_nat_unat)
      moreover obtain t2 where "arm_release_timer HZ (t1, fr1) = Some (t2, fr1)" "slides t fr n t2 fr1" "head_clear t2"
        using arm_release_timer_slides [OF slides_wf [OF n(1)]] n(1) hc by blast
      ultimately show ?thesis using True r(1) Inr x
        by (auto simp: ieee80211_sta_reorder_release_def Let_def)
    qed
  qed
qed


text \<open>Putting a frame into the empty slot of its sequence number.\<close>

lemma buffer_frame_window:
  assumes w: "window_wf t" and i: "i = ring_index t (mpdu_sn skb)" and n: "\<not> ieee80211_rx_reorder_ready t i"
    and d: "sn_dist (head_seq_num t) (mpdu_sn skb) < unat (buf_size t)" and m: "\<not> amsdu_more skb"
    and t': "t' = t\<lparr>reorder_buf := (reorder_buf t)[nat i := reorder_buf t ! nat i @ [skb]],
       reorder_time := (reorder_time t)[nat i := now], stored_mpdu_num := stored_mpdu_num t + 1\<rparr>"
  shows "window_wf t'" "stored_ids t' = stored_ids t + {#frame_key skb#}" "head_seq_num t' = head_seq_num t"
    "buf_size t' = buf_size t"
proof -
  have wf: "reorder_wf t" by (rule window_wf_reorder [OF w])
  note b = ring_index_bounds [OF wf_size [OF wf], of "mpdu_sn skb"]
  have l: "length (reorder_buf t) = unat (buf_size t)" "nat i < unat (buf_size t)" using wf b i by (simp_all add: reorder_wf_def)
  have e: "reorder_buf t ! nat i = []" using n window_complete [OF w l(2)] by (simp add: ready_iff)
  have "reorder_wf t'" using buffer_frame_wf(2) [OF wf b(1,3), of skb now] n m i t' by simp
  moreover have s: "reorder_buf t' ! x = (if x = nat i then [skb] else reorder_buf t ! x)" if "x < unat (buf_size t)" for x
    using l that by (simp add: t' e nth_list_update)
  moreover have "ring_index t' = ring_index t" by (rule ext) (simp add: ring_index_def t')
  moreover have "head_seq_num t' = head_seq_num t" "buf_size t' = buf_size t" by (simp_all add: t')
  moreover have "ring_index t (mpdu_sn skb) = int (nat i)" using i b(1) by simp
  ultimately show "window_wf t'"
    using w d m unfolding window_wf_def by simp
  have "mset (concat ((reorder_buf t)[nat i := [skb]])) = mset (concat (reorder_buf t)) + {#skb#}"
    using concat_update [of "nat i" "reorder_buf t" "[skb]"] e l by simp
  then show "stored_ids t' = stored_ids t + {#frame_key skb#}" by (simp add: stored_ids_def t' e)
qed (simp_all add: t')

lemma sn_dist_add: "int (sn_dist (h + b) s) = (int (sn_dist h s) - uint b) mod 4096"
proof -
  have "s - (h + b) = s - h - b" by simp
  then have "int (sn_dist (h + b) s) = (uint s - uint h - uint b) mod 4096"
    unfolding sn_dist_def ieee80211_sn_sub_def sn_mask_int uint_nat [symmetric]
    by (simp add: sn_mask_int uint_word_ariths mod_simps mod_mod_cancel algebra_simps)
  also have "\<dots> = ((uint s - uint h) mod 4096 - uint b) mod 4096" by (rule mod_diff_left_eq [symmetric])
  finally show ?thesis by (simp add: sn_dist_int)
qed

text \<open>
  Where a frame that is not out of date stands relative to the window of \<open>b\<close> numbers: inside,
  or beyond, by at most half the number space.
\<close>

lemma window_test:
  assumes b: "0 < unat b" "unat b \<le> 64" and o: "\<not> ieee80211_sn_less s h"
  shows "ieee80211_sn_less s (h + b) \<longleftrightarrow> sn_dist h s < unat b"
proof -
  have d: "sn_dist h s \<le> 2048" using o by (simp add: sn_less_dist)
  have e: "int (sn_dist (h + b) s) = (int (sn_dist h s) - int (unat b)) mod 4096"
    using sn_dist_add [of h b s] by simp
  show ?thesis
  proof (cases "sn_dist h s < unat b")
    case True
    have "(int (sn_dist h s) - int (unat b)) mod 4096 = (int (sn_dist h s) - int (unat b) + 4096) mod 4096" by simp
    also have "\<dots> = int (sn_dist h s) - int (unat b) + 4096" using True b by (intro mod_pos_pos_trivial) linarith+
    finally have "int (sn_dist (h + b) s) = int (sn_dist h s) - int (unat b) + 4096" by (simp only: e)
    then show ?thesis unfolding sn_less_dist using True b by linarith
  next
    case False
    then have "(int (sn_dist h s) - int (unat b)) mod 4096 = int (sn_dist h s) - int (unat b)"
      using d by (intro mod_pos_pos_trivial) linarith+
    then have "int (sn_dist (h + b) s) = int (sn_dist h s) - int (unat b)" by (simp only: e)
    then show ?thesis unfolding sn_less_dist using False d by linarith
  qed
qed

lemma window_move:
  assumes b: "1 < unat b" "unat b \<le> 64" and o: "\<not> ieee80211_sn_less s h" and f: "unat b \<le> sn_dist h s"
  shows "sn_dist h (ieee80211_sn_inc (ieee80211_sn_sub s b)) = sn_dist h s - unat b + 1"
    and "ieee80211_sn_less h (ieee80211_sn_inc (ieee80211_sn_sub s b))"
proof -
  let ?n = "ieee80211_sn_inc (ieee80211_sn_sub s b)"
  have d: "sn_dist h s \<le> 2048" using o by (simp add: sn_less_dist)
  have "int (sn_dist h ?n) = (((uint s - uint b) mod 4096 + 1) mod 4096 - uint h) mod 4096"
    by (simp add: sn_dist_int sn_inc_int ieee80211_sn_sub_def sn_mask_int uint_word_ariths mod_mod_cancel)
  also have "\<dots> = (uint s - uint h + (1 - uint b)) mod 4096" by (simp add: mod_simps algebra_simps)
  also have "\<dots> = ((uint s - uint h) mod 4096 + (1 - uint b)) mod 4096" by (rule mod_add_left_eq [symmetric])
  also have "\<dots> = (int (sn_dist h s) - int (unat b) + 1) mod 4096" by (simp add: sn_dist_int algebra_simps)
  also have "\<dots> = int (sn_dist h s) - int (unat b) + 1" using d f b by (intro mod_pos_pos_trivial) linarith+
  finally show e: "sn_dist h ?n = sn_dist h s - unat b + 1" using f by linarith
  then have "sn_dist ?n h = 4096 - (sn_dist h s - unat b + 1)" using sn_dist_flip [of h ?n] by simp
  then show "ieee80211_sn_less h ?n" using d b f by (simp add: sn_less_dist)
qed

lemma sn_eq_dist: "uint h < 4096 \<Longrightarrow> uint s < 4096 \<Longrightarrow> sn_dist h s = 0 \<longleftrightarrow> s = h"
proof
  assume b: "uint h < 4096" "uint s < 4096" and "sn_dist h s = 0"
  then have "(uint s - uint h) mod 4096 = 0" using sn_dist_int [of h s] by simp
  then have "uint s mod 4096 = uint h mod 4096" by (simp add: mod_eq_dvd_iff mod_eq_0_iff_dvd)
  then have "uint s = uint h" using b by (simp add: mod_pos_pos_trivial)
  then show "s = h" by (simp only: word_uint_eq_iff)
qed (simp add: sn_dist_def ieee80211_sn_sub_def)

lemma slides_insert:
  assumes "window_wf t" "i = ring_index t (mpdu_sn skb)" "\<not> ieee80211_rx_reorder_ready t i"
    "sn_dist (head_seq_num t) (mpdu_sn skb) < unat (buf_size t)" "\<not> amsdu_more skb"
  shows "slides_in {#frame_key skb#} t fr 0 (t\<lparr>reorder_buf := (reorder_buf t)[nat i := reorder_buf t ! nat i @ [skb]],
       reorder_time := (reorder_time t)[nat i := now], stored_mpdu_num := stored_mpdu_num t + 1\<rparr>) fr"
  using buffer_frame_window [OF assms refl, of now] assms(1)
  by (simp add: slides_in_def window_wf_def reorder_wf_def)

lemma release_frames_subset:
  "set (concat (reorder_buf (fst (ieee80211_release_reorder_frames n s)))) \<subseteq> set (concat (reorder_buf (fst s))) \<and>
   (reorder_buf_filtered (fst s) = 0 \<longrightarrow> reorder_buf_filtered (fst (ieee80211_release_reorder_frames n s)) = 0)"
proof (induction n s rule: ieee80211_release_reorder_frames.induct)
  case (1 n s)
  have "set (concat (reorder_buf (fst (ieee80211_release_reorder_frame i s)))) \<subseteq> set (concat (reorder_buf (fst s)))
    \<and> (reorder_buf_filtered (fst s) = 0 \<longrightarrow> reorder_buf_filtered (fst (ieee80211_release_reorder_frame i s)) = 0)" for i
    by (cases s) (auto simp: ieee80211_release_reorder_frame_def Let_def dest!: set_update_subset_insert [THEN subsetD])
  with 1 show ?case
    by (subst (1 2) ieee80211_release_reorder_frames.simps) (simp, blast)
qed

text \<open>The part of the handler before the frame is placed: the window is moved up to it.\<close>

definition moved :: "skb \<Rightarrow> tid_ampdu_rx \<Rightarrow> release" where
  "moved skb t =
     (if \<not> ieee80211_sn_less (mpdu_sn skb) (head_seq_num t + buf_size t)
      then ieee80211_release_reorder_frames (ieee80211_sn_inc (ieee80211_sn_sub (mpdu_sn skb) (buf_size t))) (t, [])
      else (t, []))"

lemma moved_slides:
  assumes w: "window_wf t" and o: "\<not> ieee80211_sn_less (mpdu_sn skb) (head_seq_num t)"
  shows "\<exists>t' rel n. moved skb t = (t', rel) \<and> slides t [] n t' rel \<and> n \<le> 2048 \<and>
    n \<le> sn_dist (head_seq_num t) (mpdu_sn skb) \<and>
    sn_dist (head_seq_num t') (mpdu_sn skb) = sn_dist (head_seq_num t) (mpdu_sn skb) - n \<and>
    sn_dist (head_seq_num t') (mpdu_sn skb) < unat (buf_size t)"
proof -
  let ?h = "head_seq_num t" and ?s = "mpdu_sn skb" and ?b = "buf_size t"
  have b: "1 < unat ?b" "unat ?b \<le> 64" using w by (simp_all add: window_wf_def reorder_wf_def)
  have wt: "ieee80211_sn_less ?s (?h + ?b) \<longleftrightarrow> sn_dist ?h ?s < unat ?b" using window_test [OF _ b(2) o] b(1) by simp
  show ?thesis
  proof (cases "sn_dist ?h ?s < unat ?b")
    case True
    then show ?thesis using slides_refl [OF w, of "[]"] wt by (auto simp: moved_def intro!: exI [of _ 0])
  next
    case False
    let ?n = "ieee80211_sn_inc (ieee80211_sn_sub ?s ?b)"
    note m = window_move [OF b o, OF leI [OF False]]
    obtain t' rel where r: "ieee80211_release_reorder_frames ?n (t, []) = (t', rel)" "slides t [] (sn_dist ?h ?n) t' rel"
      using slides_release_frames [of "(t, [])" ?n] w m(2) by auto
    have d: "sn_dist ?h ?s \<le> 2048" using o by (simp add: sn_less_dist)
    have "sn_dist ?h ?n \<le> sn_dist ?h ?s" using m(1) b False by linarith
    moreover have "uint (head_seq_num t') = (uint ?h + int (sn_dist ?h ?n)) mod 4096" using r(2) by (simp add: slides_def)
    ultimately have "sn_dist (head_seq_num t') ?s = sn_dist ?h ?s - sn_dist ?h ?n" by (intro sn_dist_drop)
    moreover have "sn_dist ?h ?n \<le> 2048" using m(1) d b False by linarith
    moreover have "sn_dist ?h ?s - sn_dist ?h ?n < unat ?b" using m(1) b False by linarith
    moreover have "moved skb t = (t', rel)" using r(1) wt False by (simp add: moved_def)
    ultimately show ?thesis using r(2) \<open>sn_dist ?h ?n \<le> sn_dist ?h ?s\<close> by metis
  qed
qed

lemma moved_none:
  assumes w: "window_wf t" and d: "sn_dist (head_seq_num t) (mpdu_sn skb) < unat (buf_size t)"
  shows "moved skb t = (t, [])"
proof -
  have b: "1 < unat (buf_size t)" "unat (buf_size t) \<le> 64" using w by (simp_all add: window_wf_def reorder_wf_def)
  then have "\<not> ieee80211_sn_less (mpdu_sn skb) (head_seq_num t)" using d sn_less_dist by auto
  then show ?thesis using window_test [OF _ b(2)] b(1) d by (simp add: moved_def)
qed

lemma manage_in_window:
  assumes st: "started t" "\<not> auto_seq t" and o: "\<not> ieee80211_sn_less (mpdu_sn skb) (head_seq_num t)"
    and mv: "moved skb t = (t1, rel)" and m: "\<not> amsdu_more skb"
  shows "ieee80211_sta_manage_reorder_buf jiffies HZ skb (t, []) =
    (let index = ring_index t1 (mpdu_sn skb) in
     if ieee80211_rx_reorder_ready t1 index then Some (True, t1, rel)
     else if mpdu_sn skb = head_seq_num t1 \<and> stored_mpdu_num t1 = 0
     then Some (False, t1\<lparr>head_seq_num := ieee80211_sn_inc (head_seq_num t1)\<rparr>, rel)
     else map_option (Pair True)
            (ieee80211_sta_reorder_release jiffies HZ
              (t1\<lparr>reorder_buf := (reorder_buf t1)[nat index := reorder_buf t1 ! nat index @ [skb]],
                  reorder_time := (reorder_time t1)[nat index := jiffies],
                  stored_mpdu_num := stored_mpdu_num t1 + 1\<rparr>, rel)))"
proof -
  have t: "t\<lparr>started := True\<rparr> = t" using st(1) by (cases t) simp
  show ?thesis
    using st o m mv unfolding moved_def
    by (simp add: ieee80211_sta_manage_reorder_buf_def Let_def t split: if_splits)
qed

lemma same_slot:
  assumes dv: "unat (buf_size t) dvd 4096" and i: "ring_index t s = ring_index t s'"
    and d: "sn_dist h s < unat (buf_size t)" "sn_dist h s' < unat (buf_size t)" and b: "uint s < 4096" "uint s' < 4096"
  shows "s = s'"
proof -
  let ?B = "uint (buf_size t)"
  have "?B dvd 4096" using dv by (metis int_dvd_int_iff of_nat_numeral uint_nat)
  have r: "int (sn_dist h x) mod ?B = (ring_index t x - uint h) mod ?B" for x
    using \<open>?B dvd 4096\<close> by (simp add: sn_dist_int mod_mod_cancel ring_index_def mod_simps)
  have m: "int (sn_dist h x) mod ?B = int (sn_dist h x)" if "sn_dist h x < unat (buf_size t)" for x
    using that by (intro mod_pos_pos_trivial) (simp_all add: uint_nat del: of_nat_unat)
  have "sn_dist h s = sn_dist h s'" using r [of s] r [of s'] i m [OF d(1)] m [OF d(2)] by simp
  then have "(uint s - uint h) mod 4096 = (uint s' - uint h) mod 4096" using sn_dist_int by metis
  then have "uint s mod 4096 = uint s' mod 4096" by (metis diff_add_cancel mod_add_left_eq)
  then have "uint s = uint s'" using b by (simp add: mod_pos_pos_trivial)
  then show ?thesis by (simp only: word_uint_eq_iff)
qed

lemma nothing_stored:
  assumes w: "window_wf t" and z: "stored_mpdu_num t = 0" shows "set (concat (reorder_buf t)) = {}"
proof -
  have "complete_slots t = {}" using w z by (simp add: window_wf_def reorder_wf_def)
  then have "reorder_buf t ! i = []" if "i < unat (buf_size t)" for i
    using window_complete [OF w that] that by (auto simp: complete_slots_def)
  moreover have "length (reorder_buf t) = unat (buf_size t)" using w by (simp add: window_wf_def reorder_wf_def)
  ultimately show ?thesis unfolding set_eq_iff in_slots by simp
qed

text \<open>
  One frame: the window slides, what is handed on (the released frames, then the frame itself
  where it is not consumed) is in order, and unless the frame is dropped nothing is lost.
\<close>

definition delivered :: "bool \<Rightarrow> skb \<Rightarrow> skb list \<Rightarrow> skb list" where
  "delivered consumed skb rel = rel @ (if consumed then [] else [skb])"

lemma manage_slides:
  assumes w: "window_wf t" and st: "started t" "\<not> auto_seq t" and m: "\<not> amsdu_more skb"
  shows "\<exists>c t' rel n kept. ieee80211_sta_manage_reorder_buf jiffies HZ skb (t, []) = Some (c, t', rel) \<and> n \<le> 2112 \<and>
     slides_in (if kept then {#frame_key skb#} else {#}) t [] n t' (delivered c skb rel) \<and>
     (kept \<or> ieee80211_sn_less (mpdu_sn skb) (head_seq_num t) \<or>
        (\<exists>f \<in> set (concat (reorder_buf t)). mpdu_sn f = mpdu_sn skb) \<or> reorder_buf_filtered t \<noteq> 0) \<and>
     (kept \<longrightarrow> \<not> ieee80211_sn_less (mpdu_sn skb) (head_seq_num t) \<and>
        (\<forall>f \<in> set (concat (reorder_buf t)). mpdu_sn f \<noteq> mpdu_sn skb)) \<and>
     (head_clear t \<and> reorder_buf_filtered t = 0 \<longrightarrow> head_clear t')"
proof (cases "ieee80211_sn_less (mpdu_sn skb) (head_seq_num t)")
  case True
  have "t\<lparr>started := True\<rparr> = t" using st(1) by (cases t) simp
  then have "ieee80211_sta_manage_reorder_buf jiffies HZ skb (t, []) = Some (True, t, [])"
    using True st by (simp add: ieee80211_sta_manage_reorder_buf_def Let_def)
  then show ?thesis using True slides_refl [OF w, of "[]"]
    by (intro exI [of _ True] exI [of _ t] exI [of _ "[]"] exI [of _ 0] exI [of _ False]) (simp add: delivered_def)
next
  case o: False
  let ?h = "head_seq_num t" and ?s = "mpdu_sn skb"
  obtain t1 rel n where mv: "moved skb t = (t1, rel)" and s1: "slides t [] n t1 rel" and n: "n \<le> 2048" "n \<le> sn_dist ?h ?s"
    and d: "sn_dist (head_seq_num t1) ?s = sn_dist ?h ?s - n" "sn_dist (head_seq_num t1) ?s < unat (buf_size t)"
    using moved_slides [OF w o] by blast
  have w1: "window_wf t1" "buf_size t1 = buf_size t" using slides_wf [OF s1] slides_size [OF s1] by simp_all
  let ?i = "ring_index t1 ?s"
  note b = ring_index_bounds [OF wf_size [OF window_wf_reorder [OF w1(1)]], of ?s]
  note mf = manage_in_window [OF st o mv m, of jiffies HZ]
  have sub: "set (concat (reorder_buf t1)) \<subseteq> set (concat (reorder_buf t))"
    "reorder_buf_filtered t = 0 \<Longrightarrow> reorder_buf_filtered t1 = 0"
    using release_frames_subset [of _ "(t, [])"] mv unfolding moved_def by (metis fst_conv order_refl)+
  have l1: "length (reorder_buf t1) = unat (buf_size t1)" using w1 by (simp add: window_wf_def reorder_wf_def)
  show ?thesis
  proof (cases "ieee80211_rx_reorder_ready t1 ?i")
    case True
    have dup: "(\<exists>f \<in> set (concat (reorder_buf t)). mpdu_sn f = ?s) \<or> reorder_buf_filtered t \<noteq> 0"
    proof (cases "bit (reorder_buf_filtered t1) (nat ?i)")
      case True
      then show ?thesis using sub(2) by auto
    next
      case False
      then have "slot_complete t1 (nat ?i)" using True by (simp add: ready_iff)
      then obtain f where f: "f \<in> set (reorder_buf t1 ! nat ?i)" by (auto simp: slot_complete_def intro: last_in_set)
      have "ring_index t1 (mpdu_sn f) = ?i" "sn_dist (head_seq_num t1) (mpdu_sn f) < unat (buf_size t1)"
        using window_slot [OF w1(1) b(3) f] b(1) by simp_all
      then have "mpdu_sn f = ?s" using same_slot [of t1 "mpdu_sn f" ?s] w1 d(2) mpdu_sn_int by (simp add: window_wf_def)
      moreover have "f \<in> set (concat (reorder_buf t1))" using f b(3) l1 unfolding in_slots by auto
      ultimately show ?thesis using sub(1) by blast
    qed
    moreover have "t1 = t" if u: "reorder_buf_filtered t = 0"
    proof -
      obtain f where f: "f \<in> set (concat (reorder_buf t))" "mpdu_sn f = ?s" using dup u by blast
      then obtain i where "i < unat (buf_size t)" "f \<in> set (reorder_buf t ! i)"
        using window_wf_reorder [OF w] unfolding in_slots by (auto simp: reorder_wf_def)
      then have "sn_dist ?h ?s < unat (buf_size t)" using window_slot(1) [OF w] f(2) by metis
      then show ?thesis using moved_none [OF w] mv by simp
    qed
    ultimately show ?thesis using mf True s1 n
      by (intro exI [of _ True] exI [of _ t1] exI [of _ rel] exI [of _ n] exI [of _ False]) (simp add: delivered_def)
  next
    case nr: False
    have new: "\<forall>f \<in> set (concat (reorder_buf t)). mpdu_sn f \<noteq> ?s"
    proof (intro ballI notI)
      fix f assume f: "f \<in> set (concat (reorder_buf t))" "mpdu_sn f = ?s"
      then obtain i where i: "i < unat (buf_size t)" "f \<in> set (reorder_buf t ! i)"
        using window_wf_reorder [OF w] unfolding in_slots by (auto simp: reorder_wf_def)
      then have "t1 = t" using moved_none [OF w] window_slot(1) [OF w i] f(2) mv by simp
      then have "nat ?i = i" using window_slot(2) [OF w i] f(2) by simp
      moreover have "slot_complete t i" using window_complete [OF w i(1)] i(2) by auto
      ultimately show False using nr \<open>t1 = t\<close> by (simp add: ready_iff)
    qed
    show ?thesis
    proof (cases "?s = head_seq_num t1 \<and> stored_mpdu_num t1 = 0")
      case True
      then have e: "set (concat (reorder_buf t1)) = {}" using nothing_stored w1(1) by blast
      let ?t = "t1\<lparr>head_seq_num := ieee80211_sn_inc (head_seq_num t1)\<rparr>"
      have s2: "slides t1 rel 1 ?t rel"
        by (rule slides_skip [OF w1(1)]) (simp_all only: e ball_empty sn_inc_int of_nat_1)
      have z: "sn_dist (head_seq_num t1) ?s = 0" using True by (simp add: sn_dist_def ieee80211_sn_sub_def)
      then have "sn_dist ?h ?s = n" using d n by simp
      then have "slides_in {#frame_key skb#} t [] (n + 1) ?t (rel @ [skb])"
        using slides_trans [OF s1 s2] n(1) s1 by (auto simp: slides_in_def sorted_wrt_append less_Suc_eq)
      moreover have "head_clear ?t" using e by (auto simp: head_clear_def)
      ultimately show ?thesis using mf nr True n o new
        by (intro exI [of _ False] exI [of _ ?t] exI [of _ rel] exI [of _ "n + 1"] exI [of _ True]) (simp add: delivered_def)
    next
      case False
      let ?t = "t1\<lparr>reorder_buf := (reorder_buf t1)[nat ?i := reorder_buf t1 ! nat ?i @ [skb]],
         reorder_time := (reorder_time t1)[nat ?i := jiffies], stored_mpdu_num := stored_mpdu_num t1 + 1\<rparr>"
      have s2: "slides_in {#frame_key skb#} t1 rel 0 ?t rel"
        by (rule slides_insert [OF w1(1) refl nr _ m]) (simp add: d(2) w1(2))
      obtain t2 rel2 k where r: "ieee80211_sta_reorder_release jiffies HZ (?t, rel) = Some (t2, rel2)" "k \<le> 64" "slides ?t rel k t2 rel2"
        "head_clear t2"
        using reorder_release_slides [of ?t jiffies HZ rel] s2 by (auto simp: slides_in_def)
      have "slides_in {#frame_key skb#} t [] (n + k) t2 rel2"
        using slides_in_trans [OF slides_in_trans [OF s1 s2] r(3)] n(1) r(2) by simp
      then show ?thesis using mf nr False r n o new
        by (intro exI [of _ True] exI [of _ t2] exI [of _ rel2] exI [of _ "n + k"] exI [of _ True]) (simp add: delivered_def Let_def)
    qed
  qed
qed


section \<open>Sessions as machines\<close>

text \<open>What no release changes.\<close>

lemma ring_loop_pres:
  "ring_loop body B stop j s = Some r \<Longrightarrow> (\<forall>s j r. body s j = Some r \<longrightarrow> I s \<longrightarrow> case_sum J I r) \<longrightarrow>
     I s \<longrightarrow> case_sum J I r"
proof (induction rule: ring_loop.raw_induct [rotated 1, consumes 1, case_names 1])
  case (1 loop body B stop j s r)
  show ?case
  proof (intro impI)
    assume h: "\<forall>s j r. body s j = Some r \<longrightarrow> I s \<longrightarrow> case_sum J I r" "I s"
    show "case_sum J I r"
    proof (cases "j = stop")
      case True
      then show ?thesis using 1(2) h(2) by auto
    next
      case False
      then obtain x where x: "body s j = Some x" "(case x of Inl y \<Rightarrow> Some (Inl y) | Inr s' \<Rightarrow> loop body B stop ((j + 1) smod B) s') = Some r"
        using 1(2) by (auto split: bind_splits)
      then have c: "case_sum J I x" using h by blast
      show ?thesis
      proof (cases x)
        case (Inl y)
        then show ?thesis using x(2) c by auto
      next
        case (Inr s')
        then show ?thesis using 1(1) [of body B stop "(j + 1) smod B" s' r] x(2) c h(1) by simp
      qed
    qed
  qed
qed

definition session_of :: "tid_ampdu_rx \<Rightarrow> bool \<times> bool \<times> bool" where
  "session_of t = (auto_seq t, started t, removed t)"

lemma release_frame_session [simp]:
  "session_of (fst (ieee80211_release_reorder_frame i s)) = session_of (fst s)"
  by (cases s) (simp add: ieee80211_release_reorder_frame_def session_of_def Let_def)

lemma release_frames_session [simp]:
  "session_of (fst (ieee80211_release_reorder_frames n s)) = session_of (fst s)"
proof (induction n s rule: ieee80211_release_reorder_frames.induct)
  case (1 n s)
  then show ?case by (subst ieee80211_release_reorder_frames.simps) simp
qed

lemma release_ready_session:
  "release_ready i s = Some r \<Longrightarrow> session_of (fst r) = session_of (fst s)"
proof (induction rule: release_ready.raw_induct [rotated 1, consumes 1, case_names 1])
  case (1 loop i s r)
  show ?case
  proof (cases "ieee80211_rx_reorder_ready (fst s) i")
    case True
    then show ?thesis using 1(2) 1(1) by (fastforce simp: Let_def)
  qed (use 1(2) in simp)
qed

lemma purge_session: "purge_slots a b t = Some t' \<Longrightarrow> session_of t' = session_of t"
proof -
  assume "purge_slots a b t = Some t'"
  then obtain r where r: "ring_loop (\<lambda>t i. Some (Inr (t\<lparr>reorder_buf := (reorder_buf t)[nat i := []]\<rparr>)))
      (uint (buf_size t)) b a t = Some (r :: tid_ampdu_rx + tid_ampdu_rx)" "t' = case_sum id id r"
    by (auto simp: purge_slots_def)
  let ?I = "\<lambda>t'. session_of t' = session_of t"
  have "case_sum ?I ?I r"
    using ring_loop_pres [OF r(1), where I = ?I and J = ?I] by (simp add: session_of_def)
  then show ?thesis using r(2) by (cases r) simp_all
qed

lemma timeout_slot_session:
  assumes "timeout_slot jiffies HZ a s j = Some r"
  shows "case_sum (\<lambda>x. session_of (fst (snd x)) = session_of (fst (snd s))) (\<lambda>x. session_of (fst (snd x)) = session_of (fst (snd s))) r"
proof -
  obtain k t fr where s: "s = (k, t, fr)" by (cases s)
  have h: "session_of (t\<lparr>head_seq_num := h\<rparr>) = session_of t" for t h by (simp add: session_of_def)
  have "session_of t2 = session_of t"
    if "purge_slots x j t = Some t'" "ieee80211_release_reorder_frame j (t', fr) = (t2, fr2)" for x t' t2 fr2
    using purge_session [OF that(1)] release_frame_session [of j "(t', fr)"] that(2) by simp
  then show ?thesis using assms
    by (auto simp: timeout_slot_def s h split: if_splits bind_splits prod.splits)
qed

lemma set_release_timer_session [simp]: "session_of (fst (set_release_timer HZ j s)) = session_of (fst s)"
  by (cases s) (simp add: set_release_timer_def session_of_def)

lemma arm_release_timer_session: "arm_release_timer HZ s = Some r \<Longrightarrow> session_of (fst r) = session_of (fst s)"
  by (cases s) (auto simp: arm_release_timer_def Let_def session_of_def set_release_timer_def split: if_splits bind_splits)

lemma reorder_release_session:
  assumes "ieee80211_sta_reorder_release jiffies HZ (t, fr) = Some r" shows "session_of (fst r) = session_of t"
proof (cases "\<not> ieee80211_rx_reorder_ready t (ring_index t (head_seq_num t)) \<and> stored_mpdu_num t \<noteq> 0")
  case False
  then obtain s where s: "release_ready (ring_index t (head_seq_num t)) (t, fr) = Some s" "arm_release_timer HZ s = Some r"
    using assms by (auto simp: ieee80211_sta_reorder_release_def Let_def split: bind_splits if_splits)
  show ?thesis using release_ready_session [OF s(1)] arm_release_timer_session [OF s(2)] by simp
next
  case True
  let ?i = "ring_index t (head_seq_num t)"
  let ?I = "\<lambda>x :: int \<times> release. session_of (fst (snd x)) = session_of t"
  obtain x where x: "ring_loop (timeout_slot jiffies HZ ?i) (uint (buf_size t)) ?i ((?i + 1) smod uint (buf_size t)) (1, t, fr) = Some x"
    "(case x of Inl (j, s) \<Rightarrow> Some (set_release_timer HZ j s) | Inr (skipped, s) \<Rightarrow> arm_release_timer HZ s) = Some r"
    using assms True by (auto simp: ieee80211_sta_reorder_release_def Let_def split: bind_splits)
  have "case_sum ?I ?I x"
    using ring_loop_pres [OF x(1), where I = ?I and J = ?I] timeout_slot_session [of jiffies HZ ?i]
    by (fastforce split: sum.splits)
  moreover have "session_of (fst r) = session_of t"
    if "session_of (fst s) = session_of t" "arm_release_timer HZ s = Some r" for s
    using arm_release_timer_session [OF that(2)] that(1) by simp
  ultimately show ?thesis using x(2) by (cases x) auto
qed

lemma manage_session:
  assumes "ieee80211_sta_manage_reorder_buf jiffies HZ skb (t, fr) = Some (c, t', fr')" "started t" "\<not> auto_seq t"
  shows "started t' \<and> \<not> auto_seq t'"
proof -
  have s: "session_of t = (False, True, removed t)" using assms by (simp add: session_of_def)
  have t: "t\<lparr>started := True\<rparr> = t" using assms(2) by (cases t) simp
  have r: "session_of t1 = session_of t" if "ieee80211_release_reorder_frames n (t, fr) = (t1, fr1)" for n t1 fr1
    using release_frames_session [of n "(t, fr)"] that by simp
  have q: "started t1 \<and> \<not> auto_seq t1" if "session_of t1 = session_of t2" "started t2" "\<not> auto_seq t2" for t1 t2
    using that by (simp add: session_of_def)
  have rel: "started t2 \<and> \<not> auto_seq t2"
    if "ieee80211_sta_reorder_release jiffies HZ (t1, fr1) = Some (t2, fr2)" "started t1" "\<not> auto_seq t1" for t1 fr1 t2 fr2
    using q [OF reorder_release_session [OF that(1), simplified] that(2,3)] .
  have mv: "started t1 \<and> \<not> auto_seq t1" if "ieee80211_release_reorder_frames n (t, fr) = (t1, fr1)" for n t1 fr1
    using q [OF r [OF that]] assms by simp
  show ?thesis
    using assms rel mv
    by (auto simp: ieee80211_sta_manage_reorder_buf_def Let_def t split: if_splits prod.splits)
qed

text \<open>The inputs of a session: frames from the air and the reorder timer.\<close>

datatype reorder_event = RxFrame u64 skb | ReorderTimer u64

definition reorder_step :: "u64 \<Rightarrow> tid_ampdu_rx \<Rightarrow> reorder_event \<Rightarrow> tid_ampdu_rx" where
  "reorder_step HZ t e =
     (case e of
        RxFrame now skb \<Rightarrow>
          (case ieee80211_sta_manage_reorder_buf now HZ skb (t, []) of Some (_, t', _) \<Rightarrow> t' | None \<Rightarrow> t)
      | ReorderTimer now \<Rightarrow>
          (case ieee80211_release_reorder_timeout now HZ t of Some (t', _) \<Rightarrow> t' | None \<Rightarrow> t))"

interpretation reorder: machine "reorder_step HZ" reorder_wf "\<lambda>_. True" for HZ
proof
  fix t e assume w: "reorder_wf t"
  show "reorder_wf (reorder_step HZ t e)"
  proof (cases e)
    case (RxFrame now skb)
    then show ?thesis using manage_returns [OF w, of now HZ skb "[]"] by (auto simp: reorder_step_def)
  next
    case (ReorderTimer now)
    then show ?thesis using reorder_release_returns [OF w, of now HZ "[]"]
      by (auto simp: reorder_step_def ieee80211_release_reorder_timeout_def)
  qed
qed

definition whole_mpdu :: "reorder_event \<Rightarrow> bool" where
  "whole_mpdu e = (case e of RxFrame now skb \<Rightarrow> \<not> amsdu_more skb | ReorderTimer now \<Rightarrow> True)"

text \<open>A session that is under way, or that will take its first number from the next frame.\<close>

definition window_inv :: "tid_ampdu_rx \<Rightarrow> bool" where
  "window_inv t \<longleftrightarrow> window_wf t \<and> (auto_seq t \<longrightarrow> set (concat (reorder_buf t)) = {} \<and> \<not> started t)"

lemma window_wf_fields [simp]:
  "window_wf (t\<lparr>started := x\<rparr>) = window_wf t"
  "window_wf (t\<lparr>auto_seq := y, ssn := z\<rparr>) = window_wf t"
  by (simp_all add: window_wf_def ring_index_def)

lemma window_wf_head:
  "window_wf t \<Longrightarrow> set (concat (reorder_buf t)) = {} \<Longrightarrow> uint h < 4096 \<Longrightarrow> window_wf (t\<lparr>head_seq_num := h\<rparr>)"
  using wf_head [of t h] unfolding window_wf_def set_eq_iff in_slots by (auto simp: reorder_wf_def)

text \<open>The session as the first frame leaves it, before the frame itself is looked at.\<close>

definition session_begun :: "skb \<Rightarrow> tid_ampdu_rx \<Rightarrow> tid_ampdu_rx" where
  "session_begun skb t =
     (if auto_seq t then t\<lparr>auto_seq := False, ssn := mpdu_sn skb, head_seq_num := mpdu_sn skb\<rparr> else t)"

lemma manage_begun:
  "ieee80211_sta_manage_reorder_buf now HZ skb (t, fr) =
     (if \<not> started t \<and> ieee80211_sn_less (mpdu_sn skb) (head_seq_num (session_begun skb t))
      then Some (False, session_begun skb t, fr)
      else ieee80211_sta_manage_reorder_buf now HZ skb ((session_begun skb t)\<lparr>started := True\<rparr>, fr))"
  by (simp add: ieee80211_sta_manage_reorder_buf_def session_begun_def Let_def)

lemma session_begun_window:
  assumes "window_inv t"
  shows "window_wf (session_begun skb t)" "\<not> auto_seq (session_begun skb t)"
  using assms window_wf_head [of "t\<lparr>auto_seq := False, ssn := mpdu_sn skb\<rparr>" "mpdu_sn skb"] mpdu_sn_int [of skb]
  by (auto simp: window_inv_def session_begun_def)

interpretation window: machine "reorder_step HZ" window_inv whole_mpdu for HZ
proof
  fix t e assume w: "window_inv t" and a: "whole_mpdu e"
  show "window_inv (reorder_step HZ t e)"
  proof (cases e)
    case (RxFrame now skb)
    let ?t = "(session_begun skb t)\<lparr>started := True\<rparr>"
    note b = session_begun_window [OF w, of skb]
    obtain c t' rel n kept where m: "ieee80211_sta_manage_reorder_buf now HZ skb (?t, []) = Some (c, t', rel)"
      "slides_in (if kept then {#frame_key skb#} else {#}) ?t [] n t' (delivered c skb rel)"
      using manage_slides [of ?t skb now HZ] b a unfolding whole_mpdu_def RxFrame by (simp, blast)
    then have "window_wf t'" "\<not> auto_seq t'" using manage_session [OF m(1)] b by (simp_all add: slides_in_def)
    then show ?thesis using b m(1) by (simp add: reorder_step_def RxFrame manage_begun [of now HZ skb t] window_inv_def)
  next
    case (ReorderTimer now)
    obtain t' rel n where m: "ieee80211_sta_reorder_release now HZ (t, []) = Some (t', rel)" "slides t [] n t' rel"
      using reorder_release_slides [of t now HZ "[]"] w by (auto simp: window_inv_def)
    have "stored_ids t = {#} \<Longrightarrow> stored_ids t' = {#}" using m(2) by (auto simp: slides_def)
    then have "set (concat (reorder_buf t)) = {} \<Longrightarrow> set (concat (reorder_buf t')) = {}"
      unfolding stored_ids_def image_mset_is_empty_iff mset_zero_iff set_empty .
    then show ?thesis using m w reorder_release_session [OF m(1)]
      by (auto simp: reorder_step_def ReorderTimer ieee80211_release_reorder_timeout_def window_inv_def session_of_def slides_def)
  qed
qed


section \<open>Sessions\<close>

text \<open>The session as \<open>___ieee80211_start_rx_ba_session\<close> (net/mac80211/agg-rx.c) sets it up.\<close>

definition new_tid_rx :: "u16 \<Rightarrow> u16 \<Rightarrow> u16 \<Rightarrow> bool \<Rightarrow> u64 \<Rightarrow> tid_ampdu_rx" where
  "new_tid_rx start_seq_num bsize timeout auto jiffies =
     \<lparr>reorder_buf_filtered = 0, reorder_buf = replicate (unat bsize) [], reorder_time = replicate (unat bsize) 0,
      reorder_timer = None, last_rx = (if timeout \<noteq> 0 then jiffies else 0), head_seq_num = start_seq_num,
      stored_mpdu_num = 0, ssn = start_seq_num, buf_size = bsize, ba_timeout = timeout, auto_seq = auto,
      removed = False, started = False\<rparr>"

lemma new_tid_rx_wf:
  "0 < unat bsize \<Longrightarrow> unat bsize \<le> 64 \<Longrightarrow> uint start < 4096 \<Longrightarrow> reorder_wf (new_tid_rx start bsize timeout auto now)"
  by (simp add: reorder_wf_def new_tid_rx_def complete_slots_def slot_complete_def)

lemma new_tid_rx_window:
  "1 < unat bsize \<Longrightarrow> unat bsize \<le> 64 \<Longrightarrow> unat bsize dvd 4096 \<Longrightarrow> uint start < 4096 \<Longrightarrow>
     window_inv (new_tid_rx start bsize timeout auto now)"
  using new_tid_rx_wf [of bsize start timeout auto now]
  by (auto simp: window_inv_def window_wf_def new_tid_rx_def)

declare ring_loop.simps [code] release_ready.simps [code]

definition sample_frame :: "u16 \<Rightarrow> bool \<Rightarrow> skb" where
  "sample_frame sn amore = \<lparr>seq_ctrl = push_bit 4 sn, amsdu_more = amore, deferred_release = False, skb_id = unat sn\<rparr>"

definition sample_session :: tid_ampdu_rx where
  "sample_session = (new_tid_rx 0 2 0 False 0)\<lparr>started := True\<rparr>"

lemma sample1: "ieee80211_sta_manage_reorder_buf 5 100 (sample_frame 1 False) (sample_session, []) =
  Some (True, sample_session\<lparr>reorder_buf := [[], [sample_frame 1 False]], reorder_time := [0, 5], stored_mpdu_num := 1,
    reorder_timer := Some 16\<rparr>, [])"
  by code_simp

lemma sample2: "ieee80211_sta_manage_reorder_buf 5 100 (sample_frame 0 False) (sample_session\<lparr>reorder_buf := [[], [sample_frame 1 False]], reorder_time := [0, 5], stored_mpdu_num := 1,
    reorder_timer := Some 16\<rparr>, []) =
  Some (True, sample_session\<lparr>head_seq_num := 2, reorder_time := [5, 5]\<rparr>, map (\<lambda>s. s\<lparr>deferred_release := True\<rparr>) [sample_frame 0 False, sample_frame 1 False])"
  by code_simp

text \<open>For a session under way (with whole MPDUs, a ring size that divides 4096) each frame slides the
  window forward, and what is handed on is in the order of the sequence numbers, none of them
  twice and all of them before the new head, while every stored frame lies inside the new window.\<close>

lemma reorder_in_order:
  assumes "window_wf t" and "started t" and "\<not> auto_seq t" and "\<not> amsdu_more skb"
    and "ieee80211_sta_manage_reorder_buf now HZ skb (t, []) = Some (consumed, t', rel)"
  shows "\<exists>n < 4096. uint (head_seq_num t') = (uint (head_seq_num t) + int n) mod 4096 \<and>
    sorted_wrt (<) (map (sn_dist (head_seq_num t) \<circ> mpdu_sn) (delivered consumed skb rel)) \<and>
    (\<forall>f \<in> set (delivered consumed skb rel). sn_dist (head_seq_num t) (mpdu_sn f) < n) \<and>
    (\<forall>f \<in> set (concat (reorder_buf t')). sn_dist (head_seq_num t') (mpdu_sn f) < unat (buf_size t'))"
proof -
  obtain n kept where n: "n \<le> 2112" "slides_in (if kept then {#frame_key skb#} else {#}) t [] n t' (delivered consumed skb rel)"
    using manage_slides [OF assms(1-4), of now HZ] assms(5) by auto
  have w: "window_wf t'" using n(2) by (simp add: slides_in_def)
  then have l: "length (reorder_buf t') = unat (buf_size t')" by (simp add: window_wf_def reorder_wf_def)
  have "sn_dist (head_seq_num t') (mpdu_sn f) < unat (buf_size t')" if "f \<in> set (concat (reorder_buf t'))" for f
    using that window_slot(1) [OF w] unfolding in_slots l by blast
  then show ?thesis using n by (intro exI [of _ n]) (simp add: slides_in_def)
qed

lemma sample_window: "window_wf sample_session"
  using new_tid_rx_window [of 2 0 0 False 0] by (simp add: sample_session_def window_inv_def)

definition sample_buffered :: tid_ampdu_rx where
  "sample_buffered = sample_session\<lparr>reorder_buf := [[], [sample_frame 1 False]], reorder_time := [0, 5],
     stored_mpdu_num := 1, reorder_timer := Some 16\<rparr>"

lemma sample_buffered_window: "window_wf sample_buffered" "started sample_buffered" "\<not> auto_seq sample_buffered"
proof -
  have "reorder_step 100 sample_session (RxFrame 5 (sample_frame 1 False)) = sample_buffered"
    using sample1 by (simp add: reorder_step_def sample_buffered_def)
  then show "window_wf sample_buffered"
    using window.step_inv [of sample_session "RxFrame 5 (sample_frame 1 False)" 100] sample_window
    by (simp add: window_inv_def whole_mpdu_def sample_session_def new_tid_rx_def sample_frame_def)
qed (simp_all add: sample_buffered_def sample_session_def new_tid_rx_def)

lemma reorder_in_order_witness:
  "\<exists>n. (2 :: int) = (0 + int n) mod 4096 \<and> n < 4096 \<and>
     sn_dist 0 (mpdu_sn (sample_frame 0 False)) < sn_dist 0 (mpdu_sn (sample_frame 1 False))"
  using reorder_in_order [OF sample_buffered_window _ sample2 [folded sample_buffered_def]]
  by (auto simp: delivered_def sample_frame_def mpdu_sn_def sample_buffered_def sample_session_def new_tid_rx_def)

text \<open>C15: No frame is lost and none is duplicated: a frame that is neither out of date nor a repetition (of a
  stored number, or of one the driver filtered) is handed on or stored, together with all
  frames stored before, each exactly once.\<close>

theorem reorder_no_loss:
  assumes "window_wf t" and "started t" and "\<not> auto_seq t" and "\<not> amsdu_more skb"
    and "ieee80211_sta_manage_reorder_buf now HZ skb (t, []) = Some (consumed, t', rel)"
    and "\<not> ieee80211_sn_less (mpdu_sn skb) (head_seq_num t)"
    and "\<forall>f \<in> set (concat (reorder_buf t)). mpdu_sn f \<noteq> mpdu_sn skb" and "reorder_buf_filtered t = 0"
  shows "add_mset (frame_key skb) (stored_ids t) = stored_ids t' + image_mset frame_key (mset (delivered consumed skb rel))"
proof -
  obtain n kept where "slides_in (if kept then {#frame_key skb#} else {#}) t [] n t' (delivered consumed skb rel)" kept
    using manage_slides [OF assms(1-4), of now HZ] assms(5-8) by auto
  then show ?thesis by (auto simp: slides_in_def)
qed

theorem reorder_no_loss_witness:
  "add_mset (0, 0) (stored_ids sample_buffered) = {#(0, 0), (1, 1)#}"
  using reorder_no_loss [OF sample_buffered_window _ sample2 [folded sample_buffered_def]]
  by (auto simp: delivered_def sample_frame_def mpdu_sn_def sample_buffered_def sample_session_def new_tid_rx_def
      stored_ids_def frame_key_def ieee80211_sn_less_def IEEE80211_SCTL_SEQ_def)

text \<open>Receiving a frame returns, and leaves a well-formed session, for every well-formed session (any
  ring size up to 64, A-MSDUs in parts included): none of the walks around the ring is endless,
  no index leaves it, and the count of stored MPDUs stays exact.\<close>

lemma reorder_returns:
  assumes "reorder_wf t"
  shows "\<exists>c t' fr'. ieee80211_sta_manage_reorder_buf now HZ skb (t, fr) = Some (c, t', fr') \<and> reorder_wf t'"
  using manage_returns [OF assms, of now HZ skb fr] by blast

lemma reorder_returns_witness:
  "\<exists>c t' fr'. ieee80211_sta_manage_reorder_buf 5 100 (sample_frame 7 True) (new_tid_rx 3 5 0 False 0, []) = Some (c, t', fr')
     \<and> reorder_wf t'"
  by (rule reorder_returns [OF new_tid_rx_wf]) simp_all

text \<open>Over every sequence of frames (whole MPDUs) and timer expiries a new session keeps its window: each
  slot holds at most one frame, at the place of its number.\<close>

lemma reorder_run_window:
  assumes "1 < unat bsize" and "unat bsize \<le> 64" and "unat bsize dvd 4096" and "uint start < 4096"
    and "list_all whole_mpdu events"
  shows "window_wf (run (reorder_step HZ) (new_tid_rx start bsize timeout auto now) events)"
  using window.run_inv [OF new_tid_rx_window [OF assms(1-4)] assms(5)] by (simp add: window_inv_def)

lemma reorder_run_window_witness:
  "window_wf (run (reorder_step 100) (new_tid_rx 4000 64 0 True 0)
     [RxFrame 1 (sample_frame 4095 False), ReorderTimer 9, RxFrame 10 (sample_frame 3 False)])"
  by (rule reorder_run_window) (simp_all add: whole_mpdu_def sample_frame_def)

text \<open>A walk that never meets a ready slot, with a stop that is not on the ring, does not end.\<close>

lemma ring_loop_endless:
  "ring_loop body B stop j s = Some r \<Longrightarrow> 0 \<le> j \<longrightarrow> j < B \<longrightarrow> stop < 0 \<longrightarrow>
     (\<forall>s j. 0 \<le> j \<longrightarrow> j < B \<longrightarrow> (\<exists>s'. body s j = Some (Inr s'))) \<longrightarrow> False"
proof (induction rule: ring_loop.raw_induct [rotated 1, consumes 1, case_names 1])
  case (1 loop body B stop j s r)
  show ?case
  proof (intro impI)
    assume h: "0 \<le> j" "j < B" "stop < 0" "\<forall>s j. 0 \<le> j \<longrightarrow> j < B \<longrightarrow> (\<exists>s'. body s j = Some (Inr s'))"
    obtain s' where "body s j = Some (Inr s')" using h by blast
    then have "loop body B stop ((j + 1) smod B) s' = Some r" using 1(2) h(1,3) by simp
    moreover have "(j + 1) smod B = (j + 1) mod B" using h by (simp add: smod_succ)
    ultimately show False using 1(1) [of body B stop "(j + 1) smod B" s' r] h by simp
  qed
qed

text \<open>C29: The driver's note that frames were filtered can lock up the receiver. A slot that holds the first
  part of an A-MSDU is not counted, but once its bit is set it counts as ready, and releasing
  it takes the counter of stored MPDUs below zero; with the head at slot 0 the search for the
  slot to arm the timer for then compares with (0 - 1) % buf_size = -1 and never ends.\<close>

theorem filtered_part_locks_up:
  "\<exists>t. ieee80211_sta_manage_reorder_buf 5 100 (sample_frame 1 True) (sample_session, []) = Some (True, t, []) \<and>
     ieee80211_mark_rx_ba_filtered_frames 6 100 0 3 2 t = None"
proof -
  let ?t = "sample_session\<lparr>reorder_buf := [[], [sample_frame 1 True]]\<rparr>"
  let ?u = "sample_session\<lparr>head_seq_num := 2, stored_mpdu_num := 65535\<rparr>"
  let ?f = "sample_frame 1 True\<lparr>deferred_release := True\<rparr>"
  have a: "ieee80211_sta_manage_reorder_buf 5 100 (sample_frame 1 True) (sample_session, []) = Some (True, ?t, [])"
    by code_simp
  have b: "release_ready 0 (?t\<lparr>reorder_buf_filtered := 3\<rparr>, []) = Some (?u, [?f])"
    by code_simp
  have c: "arm_release_timer 100 (?u, [?f]) = None"
  proof -
    let ?body = "\<lambda>j' j. Some (if ieee80211_rx_reorder_ready ?u j then Inl j else Inr ((j + 1) smod uint (buf_size ?u)))"
    have "\<not> ieee80211_rx_reorder_ready ?u j" if "0 \<le> j" "j < 2" for j
    proof -
      have "j = 0 \<or> j = 1" using that by auto
      then show ?thesis by (elim disjE) (simp_all add: ready_iff slot_complete_def sample_session_def new_tid_rx_def)
    qed
    then have "ring_loop ?body 2 (-1) 0 (0 :: int) = None"
      using ring_loop_endless [of ?body 2 "-1" 0 0] by (cases "ring_loop ?body 2 (-1) 0 (0 :: int)") auto
    moreover have "ring_index ?u (head_seq_num ?u) = 0" "uint (buf_size ?u) = 2"
      by (simp_all add: ring_index_def sample_session_def new_tid_rx_def)
    moreover have "(0 - 1 :: int) smod 2 = -1" by (simp add: signed_modulo_int_def)
    ultimately show ?thesis by (simp add: arm_release_timer_def Let_def)
  qed
  have d: "ieee80211_mark_rx_ba_filtered_frames 6 100 0 3 2 ?t =
     ieee80211_sta_reorder_release 6 100 (?t\<lparr>reorder_buf_filtered := 3\<rparr>, [])"
    by (simp add: ieee80211_mark_rx_ba_filtered_frames_def ieee80211_release_reorder_frames.simps sn_less_dist sn_dist_def
        ieee80211_sn_sub_def IEEE80211_SN_MODULO_def IEEE80211_SN_MASK_def IEEE80211_SCTL_SEQ_def sample_session_def
        new_tid_rx_def mark_filtered_bit_def BIT_ULL_def Let_def upt_rec)
  have "ieee80211_sta_reorder_release 6 100 (?t\<lparr>reorder_buf_filtered := 3\<rparr>, []) = None"
    using b c by (simp add: ieee80211_sta_reorder_release_def Let_def ring_index_def ready_iff sample_session_def new_tid_rx_def)
  then show ?thesis using a d by auto
qed

text \<open>With a ring size that does not divide 4096 (a size the peer may ask for) two numbers of one window
  share a slot where the numbers wrap. With three slots and head 4095, number 0 is taken for
  the head and handed on at once, and when 4095 arrives it is thrown away as out of date.\<close>

lemma uneven_ring_drops_head:
  "\<exists>t. ieee80211_sta_manage_reorder_buf 5 100 (sample_frame 0 False) ((new_tid_rx 4095 3 0 False 0)\<lparr>started := True\<rparr>, [])
       = Some (True, t, [(sample_frame 0 False)\<lparr>deferred_release := True\<rparr>]) \<and>
     ieee80211_sta_manage_reorder_buf 6 100 (sample_frame 4095 False) (t, []) = Some (True, t, []) \<and> head_seq_num t = 0"
proof (intro exI conjI)
  let ?t = "(new_tid_rx 4095 3 0 False 0)\<lparr>started := True, reorder_time := [5, 0, 0], head_seq_num := 0\<rparr>"
  show "ieee80211_sta_manage_reorder_buf 5 100 (sample_frame 0 False) ((new_tid_rx 4095 3 0 False 0)\<lparr>started := True\<rparr>, [])
       = Some (True, ?t, [(sample_frame 0 False)\<lparr>deferred_release := True\<rparr>])" by code_simp
  show "ieee80211_sta_manage_reorder_buf 6 100 (sample_frame 4095 False) (?t, []) = Some (True, ?t, [])" by code_simp
qed simp

text \<open>An A-MSDU whose last part is missing is meant to be purged when the window moves over it by timeout,
  but the purge starts one slot behind the head: the parts in the head's own slot stay, and
  are handed on (after newer frames) with the next frame of that slot.\<close>

theorem stale_part_survives_timeout:
  "\<exists>t. ieee80211_release_reorder_timeout 50 100
        (sample_session\<lparr>reorder_buf := [[sample_frame 0 True], [sample_frame 1 False]], reorder_time := [0, 5],
           stored_mpdu_num := 1\<rparr>) = Some (t, [(sample_frame 1 False)\<lparr>deferred_release := True\<rparr>]) \<and>
     head_seq_num t = 2 \<and> reorder_buf t = [[sample_frame 0 True], []]"
proof (intro exI conjI)
  let ?t = "sample_session\<lparr>reorder_buf := [[sample_frame 0 True], []], reorder_time := [0, 5], head_seq_num := 2\<rparr>"
  show "ieee80211_release_reorder_timeout 50 100
        (sample_session\<lparr>reorder_buf := [[sample_frame 0 True], [sample_frame 1 False]], reorder_time := [0, 5],
           stored_mpdu_num := 1\<rparr>) = Some (?t, [(sample_frame 1 False)\<lparr>deferred_release := True\<rparr>])" by code_simp
qed simp_all

end
