(* ===== verification/AggRx.thy ===== *)
theory AggRx
  imports RxReorder
begin

text \<open>
  Receive block-ack sessions (net/mac80211/agg-rx.c and the receive half of net/mac80211/ht.c):
  the ADDBA and DELBA handlers, the start and the end of a session, and the work that
  carries out what the driver or a timer asked for.

  The bitmaps over traffic identifiers are predicates. The driver and the allocator are
  parameters (\<open>hw_env\<close>: does the hardware reorder, does the driver accept the action,
  does kzalloc succeed, the time). What goes out (driver calls, frames) is a list of
  effects in the order of the calls. The session timer is not modelled beyond the input
  that it has expired.
\<close>

section \<open>State\<close>

record sta_ampdu_mlme =
  tid_rx :: "nat \<Rightarrow> tid_ampdu_rx option"
  tid_rx_token :: "nat \<Rightarrow> u8"
  tid_rx_timer_expired :: "nat \<Rightarrow> bool"
  tid_rx_stop_requested :: "nat \<Rightarrow> bool"
  tid_rx_manage_offl :: "nat \<Rightarrow> bool"
  agg_session_valid :: "nat \<Rightarrow> bool"
  unexpected_agg :: "nat \<Rightarrow> bool"

record sta_rx =
  ampdu_mlme :: sta_ampdu_mlme
  sta_ht_supported :: bool
  sta_ht_cap :: u16
  sta_has_he :: bool
  sta_block_ba :: bool
  max_rx_aggregation_subframes :: u16

datatype ampdu_action =
    IEEE80211_AMPDU_RX_START | IEEE80211_AMPDU_RX_STOP | IEEE80211_AMPDU_TX_START | IEEE80211_AMPDU_TX_STOP_CONT
  | IEEE80211_AMPDU_TX_STOP_FLUSH | IEEE80211_AMPDU_TX_STOP_FLUSH_CONT | IEEE80211_AMPDU_TX_OPERATIONAL

record ieee80211_ampdu_params =
  ap_action :: ampdu_action
  ap_tid :: nat
  ap_ssn :: u16
  ap_buf_size :: u16
  ap_amsdu :: bool
  ap_timeout :: u16

record hw_env =
  supports_reordering_buffer :: bool
  drv_ampdu_ok :: "ieee80211_ampdu_params \<Rightarrow> bool"
  alloc_ok :: bool
  env_jiffies :: u64

datatype ba_effect =
    DrvAmpduAction ieee80211_ampdu_params
  | SendDelba nat u16 u16
  | SendAddbaResp nat u8 u16 u16 u16 u16

definition IEEE80211_NUM_TIDS :: nat where "IEEE80211_NUM_TIDS = 16"
definition IEEE80211_FIRST_TSPEC_TSID :: nat where "IEEE80211_FIRST_TSPEC_TSID = 8"
definition IEEE80211_MAX_AMPDU_BUF_HT :: u16 where "IEEE80211_MAX_AMPDU_BUF_HT = 0x40"
definition IEEE80211_MAX_AMPDU_BUF :: u16 where "IEEE80211_MAX_AMPDU_BUF = 0x100"
definition IEEE80211_HT_CAP_DELAY_BA :: u16 where "IEEE80211_HT_CAP_DELAY_BA = 0x0400"
definition WLAN_BACK_RECIPIENT :: u16 where "WLAN_BACK_RECIPIENT = 0"
definition WLAN_BACK_INITIATOR :: u16 where "WLAN_BACK_INITIATOR = 1"
definition WLAN_STATUS_SUCCESS :: u16 where "WLAN_STATUS_SUCCESS = 0"
definition WLAN_STATUS_UNSPECIFIED_QOS :: u16 where "WLAN_STATUS_UNSPECIFIED_QOS = 32"
definition WLAN_STATUS_REQUEST_DECLINED :: u16 where "WLAN_STATUS_REQUEST_DECLINED = 37"
definition WLAN_STATUS_INVALID_QOS_PARAM :: u16 where "WLAN_STATUS_INVALID_QOS_PARAM = 38"
definition WLAN_REASON_UNSPECIFIED :: u16 where "WLAN_REASON_UNSPECIFIED = 1"
definition WLAN_REASON_QSTA_LEAVE_QBSS :: u16 where "WLAN_REASON_QSTA_LEAVE_QBSS = 36"
definition WLAN_REASON_QSTA_REQUIRE_SETUP :: u16 where "WLAN_REASON_QSTA_REQUIRE_SETUP = 38"
definition WLAN_REASON_QSTA_TIMEOUT :: u16 where "WLAN_REASON_QSTA_TIMEOUT = 39"

lemmas ba_constants = IEEE80211_NUM_TIDS_def IEEE80211_FIRST_TSPEC_TSID_def IEEE80211_MAX_AMPDU_BUF_HT_def
  IEEE80211_MAX_AMPDU_BUF_def WLAN_BACK_RECIPIENT_def WLAN_BACK_INITIATOR_def WLAN_STATUS_SUCCESS_def
  WLAN_STATUS_REQUEST_DECLINED_def WLAN_STATUS_INVALID_QOS_PARAM_def

section \<open>Ending a session\<close>

type_synonym ba_result = "sta_rx \<times> ba_effect list"

definition stop_params :: "nat \<Rightarrow> ieee80211_ampdu_params" where
  "stop_params tid =
     \<lparr>ap_action = IEEE80211_AMPDU_RX_STOP, ap_tid = tid, ap_ssn = 0, ap_buf_size = 0, ap_amsdu = False, ap_timeout = 0\<rparr>"

definition stop_rx_ba_session :: "nat \<Rightarrow> u16 \<Rightarrow> u16 \<Rightarrow> bool \<Rightarrow> sta_rx \<Rightarrow> ba_result" where
  "stop_rx_ba_session tid initiator reason tx sta =
     (let m = ampdu_mlme sta in
      if \<not> agg_session_valid m tid then (sta, [])
      else (sta\<lparr>ampdu_mlme := m\<lparr>tid_rx := (tid_rx m)(tid := None),
                                agg_session_valid := (agg_session_valid m)(tid := False)\<rparr>\<rparr>,
            DrvAmpduAction (stop_params tid) #
            (if initiator = WLAN_BACK_RECIPIENT \<and> tx then [SendDelba tid WLAN_BACK_RECIPIENT reason] else [])))"

text \<open>\<open>ieee80211_stop_rx_ba_session\<close>: the driver asks to stop some sessions.\<close>

definition ieee80211_stop_rx_ba_session :: "u16 \<Rightarrow> sta_rx \<Rightarrow> sta_rx" where
  "ieee80211_stop_rx_ba_session ba_rx_bitmap sta =
     (let m = ampdu_mlme sta in
      sta\<lparr>ampdu_mlme := m\<lparr>tid_rx_stop_requested :=
        (\<lambda>i. if i < IEEE80211_NUM_TIDS \<and> bit ba_rx_bitmap i then True else tid_rx_stop_requested m i)\<rparr>\<rparr>)"

section \<open>Starting a session\<close>

text \<open>
  Once the parameters are accepted: the state machine of the session, up to the label
  \<^verbatim>\<open>end\<close>. The result is the status and the station with the effects so far.
\<close>

definition start_rx_session ::
  "hw_env \<Rightarrow> u8 \<Rightarrow> u16 \<Rightarrow> u16 \<Rightarrow> nat \<Rightarrow> u16 \<Rightarrow> bool \<Rightarrow> sta_rx \<Rightarrow> u16 \<times> ba_result" where
  "start_rx_session env dialog_token timeout start_seq_num tid bsize auto sta =
     (let params = \<lparr>ap_action = IEEE80211_AMPDU_RX_START, ap_tid = tid, ap_ssn = start_seq_num,
                    ap_buf_size = bsize, ap_amsdu = False, ap_timeout = timeout\<rparr>;
          m = ampdu_mlme sta
      in
      if agg_session_valid m tid \<and> tid_rx_token m tid = dialog_token then
        (case tid_rx m tid of
           Some t \<Rightarrow> if ba_timeout t = timeout then WLAN_STATUS_SUCCESS else WLAN_STATUS_REQUEST_DECLINED
         | None \<Rightarrow> WLAN_STATUS_REQUEST_DECLINED, sta, [])
      else
        let (sta, effects) =
              (if agg_session_valid m tid
               then stop_rx_ba_session tid WLAN_BACK_RECIPIENT WLAN_STATUS_UNSPECIFIED_QOS False sta
               else (sta, []))
        in
        if supports_reordering_buffer env then
          (if drv_ampdu_ok env params then WLAN_STATUS_SUCCESS else WLAN_STATUS_REQUEST_DECLINED, sta,
           effects @ [DrvAmpduAction params])
        else if \<not> alloc_ok env then (WLAN_STATUS_REQUEST_DECLINED, sta, effects)
        else if \<not> drv_ampdu_ok env params
        then (WLAN_STATUS_REQUEST_DECLINED, sta, effects @ [DrvAmpduAction params])
        else
          let m = ampdu_mlme sta in
          (WLAN_STATUS_SUCCESS,
           sta\<lparr>ampdu_mlme := m\<lparr>tid_rx := (tid_rx m)
             (tid := Some (new_tid_rx start_seq_num bsize timeout auto (env_jiffies env)))\<rparr>\<rparr>,
           effects @ [DrvAmpduAction params]))"

text \<open>The checks before it, with the buffer size as adjusted.\<close>

definition start_rx_outcome ::
  "hw_env \<Rightarrow> u8 \<Rightarrow> u16 \<Rightarrow> u16 \<Rightarrow> u16 \<Rightarrow> nat \<Rightarrow> u16 \<Rightarrow> bool \<Rightarrow> sta_rx \<Rightarrow> u16 \<times> u16 \<times> ba_result" where
  "start_rx_outcome env dialog_token timeout start_seq_num ba_policy tid bsize auto sta =
     (if tid \<ge> IEEE80211_FIRST_TSPEC_TSID then (WLAN_STATUS_REQUEST_DECLINED, bsize, sta, [])
      else if \<not> sta_ht_supported sta then (WLAN_STATUS_REQUEST_DECLINED, bsize, sta, [])
      else if sta_block_ba sta then (WLAN_STATUS_REQUEST_DECLINED, bsize, sta, [])
      else
        let max_buf_size = (if sta_has_he sta then IEEE80211_MAX_AMPDU_BUF else IEEE80211_MAX_AMPDU_BUF_HT) in
        if (ba_policy \<noteq> 1 \<and> sta_ht_cap sta AND IEEE80211_HT_CAP_DELAY_BA = 0) \<or> bsize > max_buf_size
        then (WLAN_STATUS_INVALID_QOS_PARAM, bsize, sta, [])
        else
          let bsize = (if bsize = 0 then max_buf_size else bsize);
              bsize = (if bsize > max_rx_aggregation_subframes sta then max_rx_aggregation_subframes sta else bsize)
          in case start_rx_session env dialog_token timeout start_seq_num tid bsize auto sta of
               (status, result) \<Rightarrow> (status, bsize, result))"

definition start_rx_ba_session ::
  "hw_env \<Rightarrow> u8 \<Rightarrow> u16 \<Rightarrow> u16 \<Rightarrow> u16 \<Rightarrow> nat \<Rightarrow> u16 \<Rightarrow> bool \<Rightarrow> bool \<Rightarrow> sta_rx \<Rightarrow> ba_result" where
  "start_rx_ba_session env dialog_token timeout start_seq_num ba_policy tid bsize tx auto sta =
     (case start_rx_outcome env dialog_token timeout start_seq_num ba_policy tid bsize auto sta of
        (status, bsize, sta, effects) \<Rightarrow>
          let m = ampdu_mlme sta;
              sta = (if status = WLAN_STATUS_SUCCESS
                     then sta\<lparr>ampdu_mlme := m\<lparr>agg_session_valid := (agg_session_valid m)(tid := True),
                                              unexpected_agg := (unexpected_agg m)(tid := False),
                                              tid_rx_token := (tid_rx_token m)(tid := dialog_token)\<rparr>\<rparr>
                     else sta)
          in (sta, effects @ (if tx then [SendAddbaResp tid dialog_token status 1 bsize timeout] else [])))"

section \<open>Frames and work\<close>

text \<open>The capability field and the starting sequence field of an ADDBA request, as sent.\<close>

definition ieee80211_process_addba_request :: "hw_env \<Rightarrow> u8 \<Rightarrow> u16 \<Rightarrow> u16 \<Rightarrow> u16 \<Rightarrow> sta_rx \<Rightarrow> ba_result" where
  "ieee80211_process_addba_request env dialog_token capab timeout start_seq_field sta =
     start_rx_ba_session env dialog_token timeout (drop_bit 4 start_seq_field)
       (drop_bit 1 (capab AND 0x0002)) (unat (drop_bit 2 (capab AND 0x003C)))
       (drop_bit 6 (capab AND 0xFFC0)) True False sta"

text \<open>The receive half of the DELBA handler (the other half ends a transmit session).\<close>

definition ieee80211_process_delba :: "u16 \<Rightarrow> sta_rx \<Rightarrow> ba_result" where
  "ieee80211_process_delba params sta =
     (let tid = unat (drop_bit 12 (params AND 0xF000));
          initiator = drop_bit 11 (params AND 0x0800)
      in if initiator = WLAN_BACK_INITIATOR then stop_rx_ba_session tid WLAN_BACK_INITIATOR 0 True sta
         else (sta, []))"

definition then_do :: "(sta_rx \<Rightarrow> ba_result) \<Rightarrow> ba_result \<Rightarrow> ba_result" where
  "then_do f s = (case s of (sta, effects) \<Rightarrow> case f sta of (sta', effects') \<Rightarrow> (sta', effects @ effects'))"

text \<open>The receive half of \<open>ieee80211_sta_tear_down_BA_sessions\<close>.\<close>

datatype ieee80211_agg_stop_reason =
  AGG_STOP_DECLINED | AGG_STOP_LOCAL_REQUEST | AGG_STOP_PEER_REQUEST | AGG_STOP_DESTROY_STA

definition ieee80211_sta_tear_down_BA_sessions :: "ieee80211_agg_stop_reason \<Rightarrow> sta_rx \<Rightarrow> ba_result" where
  "ieee80211_sta_tear_down_BA_sessions reason sta =
     fold (\<lambda>i. then_do (stop_rx_ba_session i WLAN_BACK_RECIPIENT WLAN_REASON_QSTA_LEAVE_QBSS
                  (reason \<noteq> AGG_STOP_DESTROY_STA \<and> reason \<noteq> AGG_STOP_PEER_REQUEST)))
       [0..<IEEE80211_NUM_TIDS] (sta, [])"

text \<open>The receive half of one round of \<open>ieee80211_ba_session_work\<close>.\<close>

definition ba_work_timer :: "nat \<Rightarrow> sta_rx \<Rightarrow> ba_result" where
  "ba_work_timer tid sta =
     (let m = ampdu_mlme sta in
      if tid_rx_timer_expired m tid then
        stop_rx_ba_session tid WLAN_BACK_RECIPIENT WLAN_REASON_QSTA_TIMEOUT True
          (sta\<lparr>ampdu_mlme := m\<lparr>tid_rx_timer_expired := (tid_rx_timer_expired m)(tid := False)\<rparr>\<rparr>)
      else (sta, []))"

definition ba_work_stop :: "nat \<Rightarrow> sta_rx \<Rightarrow> ba_result" where
  "ba_work_stop tid sta =
     (let m = ampdu_mlme sta in
      if tid_rx_stop_requested m tid then
        stop_rx_ba_session tid WLAN_BACK_RECIPIENT WLAN_REASON_UNSPECIFIED True
          (sta\<lparr>ampdu_mlme := m\<lparr>tid_rx_stop_requested := (tid_rx_stop_requested m)(tid := False)\<rparr>\<rparr>)
      else (sta, []))"

definition ba_work_offl_start :: "hw_env \<Rightarrow> bool \<Rightarrow> nat \<Rightarrow> sta_rx \<Rightarrow> ba_result" where
  "ba_work_offl_start env blocked tid sta =
     (let m = ampdu_mlme sta in
      if \<not> blocked \<and> tid_rx_manage_offl m tid then
        start_rx_ba_session env 0 0 0 1 tid IEEE80211_MAX_AMPDU_BUF_HT False True
          (sta\<lparr>ampdu_mlme := m\<lparr>tid_rx_manage_offl := (tid_rx_manage_offl m)(tid := False)\<rparr>\<rparr>)
      else (sta, []))"

definition ba_work_offl_stop :: "nat \<Rightarrow> sta_rx \<Rightarrow> ba_result" where
  "ba_work_offl_stop tid sta =
     (let m = ampdu_mlme sta; bit = tid + IEEE80211_NUM_TIDS in
      if tid_rx_manage_offl m bit then
        stop_rx_ba_session tid WLAN_BACK_RECIPIENT 0 False
          (sta\<lparr>ampdu_mlme := m\<lparr>tid_rx_manage_offl := (tid_rx_manage_offl m)(bit := False)\<rparr>\<rparr>)
      else (sta, []))"

definition ieee80211_ba_session_work :: "hw_env \<Rightarrow> sta_rx \<Rightarrow> ba_result" where
  "ieee80211_ba_session_work env sta =
     fold (\<lambda>tid s. then_do (ba_work_offl_stop tid) (then_do (ba_work_offl_start env (sta_block_ba sta) tid)
                    (then_do (ba_work_stop tid) (then_do (ba_work_timer tid) s))))
       [0..<IEEE80211_NUM_TIDS] (sta, [])"

text \<open>\<open>ieee80211_manage_rx_ba_offl\<close> and \<open>ieee80211_rx_ba_timer_expired\<close> only leave a note.\<close>

definition ieee80211_manage_rx_ba_offl :: "nat \<Rightarrow> sta_rx \<Rightarrow> sta_rx" where
  "ieee80211_manage_rx_ba_offl tid sta =
     (let m = ampdu_mlme sta in
      sta\<lparr>ampdu_mlme := m\<lparr>tid_rx_manage_offl := (tid_rx_manage_offl m)(tid := True)\<rparr>\<rparr>)"

definition ieee80211_rx_ba_timer_expired :: "nat \<Rightarrow> sta_rx \<Rightarrow> sta_rx" where
  "ieee80211_rx_ba_timer_expired tid sta =
     (let m = ampdu_mlme sta in
      sta\<lparr>ampdu_mlme := m\<lparr>tid_rx_timer_expired := (tid_rx_timer_expired m)(tid := True)\<rparr>\<rparr>)"

text \<open>
  A block-ack request (\<open>ieee80211_rx_h_ctrl\<close>): what it stored before its start is released. The
  result is \<open>None\<close> where the frame is dropped, else the frames released.
\<close>

definition rx_bar :: "u16 \<Rightarrow> u16 \<Rightarrow> sta_rx \<Rightarrow> sta_rx \<times> ba_effect list \<times> skb list option" where
  "rx_bar control start sta =
     (let tid = unat (drop_bit 12 control);
          m = ampdu_mlme sta;
          effects = (if \<not> agg_session_valid m tid \<and> \<not> unexpected_agg m tid
                     then [SendDelba tid WLAN_BACK_RECIPIENT WLAN_REASON_QSTA_REQUIRE_SETUP] else []);
          m = (if \<not> agg_session_valid m tid then m\<lparr>unexpected_agg := (unexpected_agg m)(tid := True)\<rparr> else m)
      in case tid_rx m tid of
           None \<Rightarrow> (sta\<lparr>ampdu_mlme := m\<rparr>, effects, None)
         | Some t \<Rightarrow>
             (case ieee80211_release_reorder_frames (drop_bit 4 start) (t, []) of
                (t', frames) \<Rightarrow> (sta\<lparr>ampdu_mlme := m\<lparr>tid_rx := (tid_rx m)(tid := Some t')\<rparr>\<rparr>, effects, Some frames)))"

section \<open>The sessions of a station as a machine\<close>

datatype ba_input =
    AddbaRequest hw_env u8 u16 u16 u16
  | Delba u16
  | TearDown ieee80211_agg_stop_reason
  | BaWork hw_env
  | StopSessions u16
  | ManageOffl nat
  | TimerExpired nat
  | SessionEvent u64 nat reorder_event
  | BarFrame u16 u16

fun ba_step :: "sta_rx \<Rightarrow> ba_input \<Rightarrow> sta_rx" where
  "ba_step sta (AddbaRequest env token capab timeout start) =
     fst (ieee80211_process_addba_request env token capab timeout start sta)"
| "ba_step sta (Delba params) = fst (ieee80211_process_delba params sta)"
| "ba_step sta (TearDown reason) = fst (ieee80211_sta_tear_down_BA_sessions reason sta)"
| "ba_step sta (BaWork env) = fst (ieee80211_ba_session_work env sta)"
| "ba_step sta (StopSessions bitmap) = ieee80211_stop_rx_ba_session bitmap sta"
| "ba_step sta (ManageOffl tid) = ieee80211_manage_rx_ba_offl tid sta"
| "ba_step sta (TimerExpired tid) = ieee80211_rx_ba_timer_expired tid sta"
| "ba_step sta (SessionEvent HZ tid e) =
     (let m = ampdu_mlme sta in
      sta\<lparr>ampdu_mlme := m\<lparr>tid_rx := (tid_rx m)(tid := map_option (\<lambda>t. reorder_step HZ t e) (tid_rx m tid))\<rparr>\<rparr>)"
| "ba_step sta (BarFrame control start) = fst (rx_bar control start sta)"

text \<open>
  Every session is well-formed and marked valid, for a station without HE capability whose
  driver supports at least one subframe.
\<close>

definition ba_inv :: "sta_rx \<Rightarrow> bool" where
  "ba_inv sta \<longleftrightarrow> \<not> sta_has_he sta \<and> 0 < max_rx_aggregation_subframes sta \<and>
     (\<forall>tid t. tid_rx (ampdu_mlme sta) tid = Some t \<longrightarrow> agg_session_valid (ampdu_mlme sta) tid \<and> reorder_wf t)"

lemma stop_inv: "ba_inv sta \<Longrightarrow> ba_inv (fst (stop_rx_ba_session tid i r tx sta))"
  by (auto simp: ba_inv_def stop_rx_ba_session_def Let_def)

lemma then_do_inv:
  assumes "ba_inv (fst s)" "\<And>sta. ba_inv sta \<Longrightarrow> ba_inv (fst (f sta))" shows "ba_inv (fst (then_do f s))"
  using assms(1) assms(2) [of "fst s"] by (auto simp: then_do_def split: prod.splits)

lemma fold_inv:
  assumes "\<And>i s. ba_inv (fst s) \<Longrightarrow> ba_inv (fst (f i s))" shows "ba_inv (fst s) \<Longrightarrow> ba_inv (fst (fold f xs s))"
  by (induction xs arbitrary: s) (auto simp: assms)

text \<open>The station after the end of a session that is in the way.\<close>

definition cleared :: "nat \<Rightarrow> sta_rx \<Rightarrow> sta_rx" where
  "cleared tid sta =
     (if agg_session_valid (ampdu_mlme sta) tid
      then fst (stop_rx_ba_session tid WLAN_BACK_RECIPIENT WLAN_STATUS_UNSPECIFIED_QOS False sta) else sta)"

lemma start_session_cases:
  "start_rx_session env token timeout start tid bsize auto sta = (status, sta', effects) \<Longrightarrow>
     (sta' = sta \<and> agg_session_valid (ampdu_mlme sta) tid) \<or> sta' = cleared tid sta \<or>
     (status = WLAN_STATUS_SUCCESS \<and> sta' = (cleared tid sta)\<lparr>ampdu_mlme := (ampdu_mlme (cleared tid sta))\<lparr>tid_rx :=
        (tid_rx (ampdu_mlme (cleared tid sta)))(tid := Some (new_tid_rx start bsize timeout auto (env_jiffies env)))\<rparr>\<rparr>)"
  by (cases "stop_rx_ba_session tid WLAN_BACK_RECIPIENT WLAN_STATUS_UNSPECIFIED_QOS False sta")
    (auto simp: start_rx_session_def cleared_def Let_def split: if_splits)

lemma cleared_inv: "ba_inv sta \<Longrightarrow> ba_inv (cleared tid sta)"
  by (simp add: cleared_def stop_inv)

lemma mark_valid_inv:
  assumes "sta_has_he sta = False" "0 < max_rx_aggregation_subframes sta"
    "\<And>x t. tid_rx (ampdu_mlme sta) x = Some t \<Longrightarrow> (x = tid \<or> agg_session_valid (ampdu_mlme sta) x) \<and> reorder_wf t"
  shows "ba_inv (sta\<lparr>ampdu_mlme := (ampdu_mlme sta)\<lparr>agg_session_valid := (agg_session_valid (ampdu_mlme sta))(tid := True),
     unexpected_agg := u, tid_rx_token := k\<rparr>\<rparr>)"
  using assms by (auto simp: ba_inv_def)

lemma start_inv:
  assumes i: "ba_inv sta" and s: "uint start < 4096"
  shows "ba_inv (fst (start_rx_ba_session env token timeout start policy tid bsize tx auto sta))"
proof -
  obtain status bsize' sta' effects
    where o: "start_rx_outcome env token timeout start policy tid bsize auto sta = (status, bsize', sta', effects)"
    by (cases "start_rx_outcome env token timeout start policy tid bsize auto sta") auto
  have h: "\<not> sta_has_he sta" "0 < max_rx_aggregation_subframes sta" using i by (simp_all add: ba_inv_def)
  have wf: "reorder_wf (new_tid_rx start b timeout auto now)" if "0 < b" "b \<le> IEEE80211_MAX_AMPDU_BUF_HT" for b now
  proof (rule new_tid_rx_wf [OF _ _ s])
    show "0 < unat b" "unat b \<le> 64" using that by (simp_all add: word_less_nat_alt word_le_nat_alt IEEE80211_MAX_AMPDU_BUF_HT_def)
  qed
  consider "sta' = sta" "status \<noteq> WLAN_STATUS_SUCCESS"
    | b where "0 < b" "b \<le> IEEE80211_MAX_AMPDU_BUF_HT"
        "start_rx_session env token timeout start tid b auto sta = (status, sta', effects)"
  proof -
    let ?b = "if bsize = 0 then IEEE80211_MAX_AMPDU_BUF_HT else bsize"
    let ?c = "if ?b > max_rx_aggregation_subframes sta then max_rx_aggregation_subframes sta else ?b"
    have "0 < ?c" using h by (auto simp: IEEE80211_MAX_AMPDU_BUF_HT_def word_neq_0_conv)
    moreover have "?c \<le> IEEE80211_MAX_AMPDU_BUF_HT" if "bsize \<le> IEEE80211_MAX_AMPDU_BUF_HT"
      using that by (auto simp: not_less intro: order_trans less_imp_le)
    moreover have "WLAN_STATUS_REQUEST_DECLINED \<noteq> WLAN_STATUS_SUCCESS" "WLAN_STATUS_INVALID_QOS_PARAM \<noteq> WLAN_STATUS_SUCCESS"
      by (simp_all add: ba_constants)
    ultimately show ?thesis
      using o h that(1) that(2) [of ?c]
      by (auto simp: start_rx_outcome_def Let_def not_less split: if_splits prod.splits)
  qed
  then have c: "(status \<noteq> WLAN_STATUS_SUCCESS \<longrightarrow> ba_inv sta') \<and> (status = WLAN_STATUS_SUCCESS \<longrightarrow>
     sta_has_he sta' = False \<and> 0 < max_rx_aggregation_subframes sta' \<and>
     (\<forall>x t. tid_rx (ampdu_mlme sta') x = Some t \<longrightarrow> (x = tid \<or> agg_session_valid (ampdu_mlme sta') x) \<and> reorder_wf t))"
  proof cases
    case 1
    then show ?thesis using i by simp
  next
    case (2 b)
    have ic: "ba_inv (cleared tid sta)" using i by (rule cleared_inv)
    from start_session_cases [OF 2(3)] show ?thesis
    proof (elim disjE)
      assume "sta' = sta \<and> agg_session_valid (ampdu_mlme sta) tid"
      then show ?thesis using i by (auto simp: ba_inv_def)
    next
      assume "sta' = cleared tid sta"
      then show ?thesis using ic by (auto simp: ba_inv_def)
    next
      assume "status = WLAN_STATUS_SUCCESS \<and> sta' = (cleared tid sta)\<lparr>ampdu_mlme := (ampdu_mlme (cleared tid sta))\<lparr>tid_rx :=
        (tid_rx (ampdu_mlme (cleared tid sta)))(tid := Some (new_tid_rx start b timeout auto (env_jiffies env)))\<rparr>\<rparr>"
      then show ?thesis using ic wf [OF 2(1,2)] by (auto simp: ba_inv_def)
    qed
  qed
  show ?thesis
    using c mark_valid_inv [of sta' tid] by (simp add: start_rx_ba_session_def o Let_def)
qed


lemma notes_inv [simp]:
  "ba_inv (sta\<lparr>ampdu_mlme := (ampdu_mlme sta)\<lparr>tid_rx_timer_expired := x\<rparr>\<rparr>) = ba_inv sta"
  "ba_inv (sta\<lparr>ampdu_mlme := (ampdu_mlme sta)\<lparr>tid_rx_stop_requested := x\<rparr>\<rparr>) = ba_inv sta"
  "ba_inv (sta\<lparr>ampdu_mlme := (ampdu_mlme sta)\<lparr>tid_rx_manage_offl := x\<rparr>\<rparr>) = ba_inv sta"
  by (simp_all add: ba_inv_def)

lemma work_inv:
  assumes "ba_inv sta"
  shows "ba_inv (fst (ba_work_timer tid sta))" "ba_inv (fst (ba_work_stop tid sta))"
    "ba_inv (fst (ba_work_offl_start env blocked tid sta))" "ba_inv (fst (ba_work_offl_stop tid sta))"
  using assms
  by (simp_all add: ba_work_timer_def ba_work_stop_def ba_work_offl_start_def ba_work_offl_stop_def Let_def stop_inv start_inv)

lemma start_seq_bound: "uint (drop_bit 4 (x :: u16)) < 4096"
proof -
  have "uint (drop_bit 4 x) = uint x div 16" by (simp add: drop_bit_eq_div uint_div)
  moreover have "uint x < 65536" using uint_lt2p [of x] by simp
  ultimately show ?thesis by linarith
qed

lemma rx_bar_inv:
  assumes "ba_inv sta" shows "ba_inv (fst (rx_bar control start sta))"
proof -
  let ?tid = "unat (drop_bit 12 control)"
  have "reorder_wf t \<Longrightarrow> reorder_wf (fst (ieee80211_release_reorder_frames (drop_bit 4 start) (t, [])))" for t
    using release_frames_wf [of "(t, [])" "drop_bit 4 start"] start_seq_bound by simp
  then have "tid_rx (ampdu_mlme sta) ?tid = Some t \<Longrightarrow>
      ieee80211_release_reorder_frames (drop_bit 4 start) (t, []) = (t', frames) \<Longrightarrow> reorder_wf t'" for t t' frames
    using assms unfolding ba_inv_def by (metis fst_conv)
  then show ?thesis using assms
    by (cases "tid_rx (ampdu_mlme sta) ?tid") (auto simp: rx_bar_def Let_def ba_inv_def split: prod.splits)
qed

interpretation ba_sessions: machine ba_step ba_inv "\<lambda>_. True"
proof
  fix sta i assume v: "ba_inv sta"
  show "ba_inv (ba_step sta i)"
  proof (cases i)
    case (AddbaRequest env token capab timeout start)
    then show ?thesis using start_inv [OF v start_seq_bound] by (simp add: ieee80211_process_addba_request_def)
  next
    case (Delba params)
    then show ?thesis using v by (simp add: ieee80211_process_delba_def Let_def stop_inv)
  next
    case (TearDown reason)
    then show ?thesis using v unfolding ba_step.simps ieee80211_sta_tear_down_BA_sessions_def TearDown
      by (intro fold_inv then_do_inv) (simp_all add: stop_inv)
  next
    case (BaWork env)
    then show ?thesis using v unfolding ba_step.simps ieee80211_ba_session_work_def BaWork
      by (intro fold_inv then_do_inv) (simp_all add: work_inv)
  next
    case (SessionEvent HZ tid e)
    then show ?thesis using v by (auto simp: ba_inv_def Let_def intro: reorder.step_inv)
  next
    case (BarFrame control start)
    then show ?thesis using rx_bar_inv [OF v] by simp
  qed (use v in \<open>simp_all add: ieee80211_stop_rx_ba_session_def ieee80211_manage_rx_ba_offl_def
      ieee80211_rx_ba_timer_expired_def Let_def\<close>)
qed

text \<open>A station that has just been added.\<close>

definition new_sta :: "u16 \<Rightarrow> sta_rx" where
  "new_sta subframes =
     \<lparr>ampdu_mlme = \<lparr>tid_rx = (\<lambda>_. None), tid_rx_token = (\<lambda>_. 0), tid_rx_timer_expired = (\<lambda>_. False),
        tid_rx_stop_requested = (\<lambda>_. False), tid_rx_manage_offl = (\<lambda>_. False), agg_session_valid = (\<lambda>_. False),
        unexpected_agg = (\<lambda>_. False)\<rparr>,
      sta_ht_supported = True, sta_ht_cap = 0, sta_has_he = False, sta_block_ba = False,
      max_rx_aggregation_subframes = subframes\<rparr>"

section \<open>Properties\<close>


definition sample_env :: hw_env where
  "sample_env = \<lparr>supports_reordering_buffer = False, drv_ampdu_ok = (\<lambda>_. True), alloc_ok = True, env_jiffies = 7\<rparr>"

lemma sample_addba:
  "tid_rx (ampdu_mlme (run ba_step (new_sta 64) [AddbaRequest sample_env 1 0x0206 0 0x50])) 1 = Some (new_tid_rx 5 8 0 False 7)"
  by (simp add: ieee80211_process_addba_request_def start_rx_ba_session_def start_rx_outcome_def start_rx_session_def
      new_sta_def sample_env_def ba_constants drop_bit_eq_div)


lemma start_session_success:
  "start_rx_session env token timeout start tid b auto sta = (status, sta', eff) \<Longrightarrow>
     status = WLAN_STATUS_SUCCESS \<Longrightarrow> \<not> supports_reordering_buffer env \<Longrightarrow>
     \<exists>t. tid_rx (ampdu_mlme sta') tid = Some t \<and> ba_timeout t = timeout"
  by (cases "stop_rx_ba_session tid WLAN_BACK_RECIPIENT WLAN_STATUS_UNSPECIFIED_QOS False sta")
    (auto simp: start_rx_session_def Let_def ba_constants new_tid_rx_def split: if_splits option.splits)

definition quiet :: "ba_effect list \<Rightarrow> bool" where
  "quiet effects \<longleftrightarrow> list_all (\<lambda>e. case e of SendAddbaResp _ _ _ _ _ _ \<Rightarrow> False | _ \<Rightarrow> True) effects"

lemma start_session_quiet:
  "start_rx_session env token timeout start tid b auto sta = (status, sta', eff) \<Longrightarrow> quiet eff"
  by (cases "stop_rx_ba_session tid WLAN_BACK_RECIPIENT WLAN_STATUS_UNSPECIFIED_QOS False sta")
    (auto simp: start_rx_session_def stop_rx_ba_session_def quiet_def Let_def split: if_splits)

lemma start_outcome_session:
  assumes "start_rx_outcome env token timeout start policy tid bsize auto sta = (status, b, sta', eff)"
  shows "(status \<noteq> WLAN_STATUS_SUCCESS \<and> eff = []) \<or>
    start_rx_session env token timeout start tid b auto sta = (status, sta', eff)"
proof -
  have "WLAN_STATUS_REQUEST_DECLINED \<noteq> WLAN_STATUS_SUCCESS" "WLAN_STATUS_INVALID_QOS_PARAM \<noteq> WLAN_STATUS_SUCCESS"
    by (simp_all add: ba_constants)
  then show ?thesis
    using assms unfolding start_rx_outcome_def Let_def by (auto split: if_splits prod.splits)
qed

text \<open>A successful reply is backed by a session: when the driver leaves the reordering to the stack, an
  ADDBA response with status success means that the session is open, valid and has the
  timeout the response announces.\<close>

lemma addba_success_opens_session:
  assumes "\<not> supports_reordering_buffer env"
    and "ieee80211_process_addba_request env token capab timeout start sta = (sta', effects)"
    and "SendAddbaResp tid token' WLAN_STATUS_SUCCESS policy bsize timeout' \<in> set effects"
  shows "token' = token \<and> agg_session_valid (ampdu_mlme sta') tid \<and> tid_rx_token (ampdu_mlme sta') tid = token \<and>
    (\<exists>t. tid_rx (ampdu_mlme sta') tid = Some t \<and> ba_timeout t = timeout')"
proof -
  let ?tid = "unat (drop_bit 2 (capab AND 0x003C))"
  obtain status b sta1 eff where o: "start_rx_outcome env token timeout (drop_bit 4 start) (drop_bit 1 (capab AND 0x0002)) ?tid
      (drop_bit 6 (capab AND 0xFFC0)) False sta = (status, b, sta1, eff)"
    by (cases "start_rx_outcome env token timeout (drop_bit 4 start) (drop_bit 1 (capab AND 0x0002)) ?tid
      (drop_bit 6 (capab AND 0xFFC0)) False sta") auto
  have noresp: "SendAddbaResp x1 x2 x3 x4 x5 x6 \<notin> set eff" for x1 x2 x3 x4 x5 x6
    using start_outcome_session [OF o] start_session_quiet by (fastforce simp: quiet_def list_all_iff)
  have r: "status = WLAN_STATUS_SUCCESS" "tid = ?tid" "token' = token" "timeout' = timeout"
    using assms(2,3) noresp o by (auto simp: ieee80211_process_addba_request_def start_rx_ba_session_def Let_def split: if_splits)
  have "\<exists>t. tid_rx (ampdu_mlme sta1) ?tid = Some t \<and> ba_timeout t = timeout"
    using start_outcome_session [OF o] start_session_success r(1) assms(1) by blast
  moreover have "sta' = sta1\<lparr>ampdu_mlme := (ampdu_mlme sta1)\<lparr>agg_session_valid := (agg_session_valid (ampdu_mlme sta1))(?tid := True),
      unexpected_agg := (unexpected_agg (ampdu_mlme sta1))(?tid := False),
      tid_rx_token := (tid_rx_token (ampdu_mlme sta1))(?tid := token)\<rparr>\<rparr>"
    using assms(2) o r(1) by (auto simp: ieee80211_process_addba_request_def start_rx_ba_session_def Let_def)
  ultimately show ?thesis using r by simp
qed

lemma sample_addba_reply:
  "ieee80211_process_addba_request sample_env 1 0x0206 0 0x50 (new_sta 64) =
     (run ba_step (new_sta 64) [AddbaRequest sample_env 1 0x0206 0 0x50],
      [DrvAmpduAction \<lparr>ap_action = IEEE80211_AMPDU_RX_START, ap_tid = 1, ap_ssn = 5, ap_buf_size = 8, ap_amsdu = False, ap_timeout = 0\<rparr>,
       SendAddbaResp 1 1 WLAN_STATUS_SUCCESS 1 8 0])"
  by (simp add: ieee80211_process_addba_request_def start_rx_ba_session_def start_rx_outcome_def start_rx_session_def
      new_sta_def sample_env_def ba_constants drop_bit_eq_div)

lemma addba_success_opens_session_witness:
  "\<exists>t. tid_rx (ampdu_mlme (run ba_step (new_sta 64) [AddbaRequest sample_env 1 0x0206 0 0x50])) 1 = Some t \<and> ba_timeout t = 0"
  using addba_success_opens_session [OF _ sample_addba_reply, of 1 1 1 8 0] by (simp add: sample_env_def)

text \<open>A repeated ADDBA request with another buffer size is answered with that size although the session keeps
  its own: only the timeout is compared. Here the peer is told 64 while the ring has 8 slots.\<close>

lemma addba_repeat_announces_other_size:
  "\<exists>t. let sta = run ba_step (new_sta 64) [AddbaRequest sample_env 1 0x0206 0 0x50] in
     ieee80211_process_addba_request sample_env 1 0x1006 0 0x50 sta = (sta, [SendAddbaResp 1 1 WLAN_STATUS_SUCCESS 1 64 0]) \<and>
     tid_rx (ampdu_mlme sta) 1 = Some t \<and> buf_size t = 8"
  by (simp add: ieee80211_process_addba_request_def start_rx_ba_session_def start_rx_outcome_def start_rx_session_def
      new_sta_def sample_env_def ba_constants drop_bit_eq_div new_tid_rx_def Let_def fun_upd_idem)

end
