(* ===== verification/AggTx.thy ===== *)
theory AggTx
  imports TxQueueOrder AggRx Nl80211
begin

text \<open>
  Transmit block-ack sessions (net/mac80211/agg-tx.c), the transmit half of the shared
  handlers (net/mac80211/ht.c), the frames the transmit path holds for a session
  (\<open>ieee80211_tx_prep_agg\<close> of net/mac80211/tx.c), the pending block-ack request
  (net/mac80211/status.c) and the removal of a station (net/mac80211/sta_info.c).

  The state is the transmit half of a station's aggregation state together with the queues of
  the device. The bits of a session's state word are a predicate over their names. Timers are the time
  they expire at. Every function is one step: the mutex of the sessions serialises the work and
  the handlers, the station's lock serialises them with the transmit path. What is asked of
  others (the driver, the air, the work queue, the allocator) is recorded in order.
\<close>

section \<open>State\<close>

datatype ht_agg_state =
    HT_AGG_STATE_DRV_READY | HT_AGG_STATE_RESPONSE_RECEIVED | HT_AGG_STATE_OPERATIONAL | HT_AGG_STATE_STOPPING
  | HT_AGG_STATE_WANT_START | HT_AGG_STATE_WANT_STOP | HT_AGG_STATE_START_CB | HT_AGG_STATE_STOP_CB

record tid_ampdu_tx =
  tt_session_timer :: "u64 option"
  tt_addba_resp_timer :: "u64 option"
  tt_pending :: "tx_skb list"
  tt_state :: "ht_agg_state \<Rightarrow> bool"
  tt_last_tx :: u64
  tt_timeout :: u16
  tt_dialog_token :: u8
  tt_stop_initiator :: u16
  tt_tx_stop :: bool
  tt_buf_size :: u16
  tt_failed_bar_ssn :: u16
  tt_bar_pending :: bool
  tt_amsdu :: bool

text \<open>The flags of a station's transmit queue that aggregation touches.\<close>

record sta_txq =
  sq_stop :: bool
  sq_ampdu :: bool
  sq_no_amsdu :: bool

datatype tx_effect =
    DrvAmpduTx ieee80211_ampdu_params
  | SendAddbaRequest nat u8 u16 u16 u16
  | SendTxDelba nat u16 u16
  | SendBar nat u16
  | QueueBaWork
  | WakeTxq nat
  | SpliceTx nat "tx_skb list"
  | FreeTidTx tid_ampdu_tx
  | PurgeTxSkb nat tx_skb

record sta_tx =
  tid_tx :: "nat \<Rightarrow> tid_ampdu_tx option"
  tid_start_tx :: "nat \<Rightarrow> tid_ampdu_tx option"
  last_addba_req_time :: "nat \<Rightarrow> u64"
  addba_req_num :: "nat \<Rightarrow> u8"
  dialog_token_allocator :: u8
  stx_tid_seq :: "nat \<Rightarrow> u16"
  stx_reserved_tid :: nat
  stx_block_ba :: bool
  stx_sp :: bool
  stx_ht_supported :: bool
  stx_has_he :: bool
  stx_txq :: "nat \<Rightarrow> sta_txq option"
  stx_local :: tx_local
  stx_out :: "tx_effect list"

text \<open>The driver, the kernel and the interface.\<close>

record agg_env =
  ae_ampdu_action :: "(ieee80211_ampdu_params \<Rightarrow> int) option"
  ae_in_driver :: bool
  ae_alloc_ok :: bool
  ae_jiffies :: u64
  ae_HZ :: u64
  ae_timeout_factor :: u64
  ae_tu_to_jiffies :: "u16 \<Rightarrow> u64"
  ae_ampdu_aggregation :: bool
  ae_tx_ampdu_setup_in_hw :: bool
  ae_max_tx_aggregation_subframes :: u16
  ae_iftype :: nl80211_iftype
  ae_vif :: nat
  ae_vif_hw_queue :: "nat \<Rightarrow> nat"

definition HT_AGG_MAX_RETRIES :: u8 where "HT_AGG_MAX_RETRIES = 15"
definition HT_AGG_BURST_RETRIES :: u8 where "HT_AGG_BURST_RETRIES = 3"
definition STA_MAX_TX_BUFFER :: nat where "STA_MAX_TX_BUFFER = 64"
definition IEEE80211_AMPDU_TX_START_IMMEDIATE :: int where "IEEE80211_AMPDU_TX_START_IMMEDIATE = 1"
definition WLAN_REASON_QSTA_NOT_USE :: u16 where "WLAN_REASON_QSTA_NOT_USE = 37"

definition IEEE80211_TX_TEMPORARY_FLAGS :: u32 where
  "IEEE80211_TX_TEMPORARY_FLAGS = BIT 2 OR BIT 3 OR BIT 4 OR BIT 5 OR BIT 6 OR BIT 8 OR BIT 9 OR BIT 10 OR BIT 11 OR
     BIT 12 OR BIT 17 OR BIT 18 OR BIT 22 OR BIT 23 OR BIT 24 OR BIT 28"

definition emit :: "tx_effect \<Rightarrow> sta_tx \<Rightarrow> sta_tx" where
  "emit e s = s\<lparr>stx_out := stx_out s @ [e]\<rparr>"

definition upd_local :: "(tx_local \<Rightarrow> tx_local) \<Rightarrow> sta_tx \<Rightarrow> sta_tx" where
  "upd_local f s = s\<lparr>stx_local := f (stx_local s)\<rparr>"

text \<open>A change of the session in the array.\<close>

definition upd_tid_tx :: "nat \<Rightarrow> (tid_ampdu_tx \<Rightarrow> tid_ampdu_tx) \<Rightarrow> sta_tx \<Rightarrow> sta_tx" where
  "upd_tid_tx tid f s = s\<lparr>tid_tx := (tid_tx s)(tid := map_option f (tid_tx s tid))\<rparr>"

definition set_agg :: "ht_agg_state \<Rightarrow> bool \<Rightarrow> tid_ampdu_tx \<Rightarrow> tid_ampdu_tx" where
  "set_agg b v t = t\<lparr>tt_state := (tt_state t)(b := v)\<rparr>"

definition time_before :: "u64 \<Rightarrow> u64 \<Rightarrow> bool" where "time_before a b = time_after b a"

definition ieee802_1d_to_ac :: "nat list" where "ieee802_1d_to_ac = [2, 3, 3, 2, 1, 1, 0, 0]"

definition ieee80211_ac_from_tid :: "nat \<Rightarrow> nat" where
  "ieee80211_ac_from_tid tid = ieee802_1d_to_ac ! (tid mod 8)"

definition agg_queue :: "agg_env \<Rightarrow> nat \<Rightarrow> nat" where
  "agg_queue env tid = ae_vif_hw_queue env (ieee80211_ac_from_tid tid)"

definition drv_ampdu_action :: "agg_env \<Rightarrow> ieee80211_ampdu_params \<Rightarrow> int" where
  "drv_ampdu_action env params =
     (if \<not> ae_in_driver env then - 5
      else case ae_ampdu_action env of None \<Rightarrow> - 95 | Some f \<Rightarrow> f params)"

definition tx_params :: "ampdu_action \<Rightarrow> nat \<Rightarrow> u16 \<Rightarrow> u16 \<Rightarrow> bool \<Rightarrow> ieee80211_ampdu_params" where
  "tx_params action tid start_seq bsize amsdu =
     \<lparr>ap_action = action, ap_tid = tid, ap_ssn = start_seq, ap_buf_size = bsize, ap_amsdu = amsdu, ap_timeout = 0\<rparr>"

section \<open>Queues of a session\<close>

definition ieee80211_assign_tid_tx :: "nat \<Rightarrow> tid_ampdu_tx option \<Rightarrow> sta_tx \<Rightarrow> sta_tx" where
  "ieee80211_assign_tid_tx tid t s = s\<lparr>tid_tx := (tid_tx s)(tid := t)\<rparr>"

definition ieee80211_agg_stop_txq :: "nat \<Rightarrow> sta_tx \<Rightarrow> sta_tx" where
  "ieee80211_agg_stop_txq tid s =
     (case stx_txq s tid of None \<Rightarrow> s
      | Some q \<Rightarrow> s\<lparr>stx_txq := (stx_txq s)(tid := Some (q\<lparr>sq_stop := True\<rparr>))\<rparr>)"

definition ieee80211_agg_start_txq :: "nat \<Rightarrow> bool \<Rightarrow> sta_tx \<Rightarrow> sta_tx" where
  "ieee80211_agg_start_txq tid enable s =
     (case stx_txq s tid of None \<Rightarrow> s
      | Some q \<Rightarrow> emit (WakeTxq tid)
          (s\<lparr>stx_txq := (stx_txq s)(tid := Some (q\<lparr>sq_ampdu := enable, sq_stop := False\<rparr>))\<rparr>))"

definition ieee80211_agg_splice_packets :: "agg_env \<Rightarrow> nat \<Rightarrow> sta_tx \<Rightarrow> sta_tx" where
  "ieee80211_agg_splice_packets env tid s =
     (let queue = agg_queue env tid;
          s = upd_local (ieee80211_stop_queue_agg queue) s
      in case tid_tx s tid of None \<Rightarrow> s
         | Some t \<Rightarrow> if tt_pending t = [] then s
             else emit (SpliceTx tid (tt_pending t))
               (upd_tid_tx tid (\<lambda>t. t\<lparr>tt_pending := []\<rparr>) (upd_local (add_pending queue (tt_pending t)) s)))"

definition ieee80211_agg_splice_finish :: "agg_env \<Rightarrow> nat \<Rightarrow> sta_tx \<Rightarrow> sta_tx" where
  "ieee80211_agg_splice_finish env tid s = upd_local (ieee80211_wake_queue_agg (agg_queue env tid)) s"

definition free_tid_tx :: "tid_ampdu_tx option \<Rightarrow> sta_tx \<Rightarrow> sta_tx" where
  "free_tid_tx t s = (case t of None \<Rightarrow> s | Some t \<Rightarrow> emit (FreeTidTx t) s)"

definition ieee80211_remove_tid_tx :: "agg_env \<Rightarrow> nat \<Rightarrow> sta_tx \<Rightarrow> sta_tx" where
  "ieee80211_remove_tid_tx env tid s =
     (let s = ieee80211_agg_splice_packets env tid s;
          t = tid_tx s tid;
          s = ieee80211_assign_tid_tx tid None s;
          s = ieee80211_agg_splice_finish env tid s;
          s = ieee80211_agg_start_txq tid False s
      in free_tid_tx t s)"

section \<open>Stopping a session\<close>

definition stop_action :: "ieee80211_agg_stop_reason \<Rightarrow> ampdu_action" where
  "stop_action reason =
     (if reason = AGG_STOP_DESTROY_STA then IEEE80211_AMPDU_TX_STOP_FLUSH else IEEE80211_AMPDU_TX_STOP_CONT)"

text \<open>\<open>___ieee80211_stop_tx_ba_session\<close>, under the mutex of the sessions.\<close>

definition stop_tx_ba_session ::
  "agg_env \<Rightarrow> nat \<Rightarrow> ieee80211_agg_stop_reason \<Rightarrow> sta_tx \<Rightarrow> (errno + unit) \<times> sta_tx" where
  "stop_tx_ba_session env tid reason s =
     (let s = free_tid_tx (tid_start_tx s tid) s;
          s = s\<lparr>tid_start_tx := (tid_start_tx s)(tid := None)\<rparr>
      in case tid_tx s tid of
           None \<Rightarrow> (Inl ENOENT, s)
         | Some t \<Rightarrow>
             if tt_state t HT_AGG_STATE_STOPPING then
               (if reason \<noteq> AGG_STOP_DESTROY_STA then (Inl EALREADY, s)
                else (Inr (), emit (DrvAmpduTx (tx_params IEEE80211_AMPDU_TX_STOP_FLUSH_CONT tid 0 0 False)) s))
             else if tt_state t HT_AGG_STATE_WANT_START then
               (Inr (), free_tid_tx (Some t) (ieee80211_assign_tid_tx tid None s))
             else
               let s = upd_tid_tx tid (set_agg HT_AGG_STATE_STOPPING True) s;
                   s = ieee80211_agg_stop_txq tid s;
                   s = upd_tid_tx tid (\<lambda>t. t\<lparr>tt_addba_resp_timer := None, tt_session_timer := None\<rparr>) s;
                   s = upd_tid_tx tid (set_agg HT_AGG_STATE_OPERATIONAL False) s;
                   s = upd_tid_tx tid (\<lambda>t. t\<lparr>
                         tt_stop_initiator := (if reason = AGG_STOP_PEER_REQUEST then WLAN_BACK_RECIPIENT else WLAN_BACK_INITIATOR),
                         tt_tx_stop := (reason = AGG_STOP_LOCAL_REQUEST)\<rparr>) s
               in (Inr (), emit (DrvAmpduTx (tx_params (stop_action reason) tid 0 0 False)) s))"

text \<open>\<open>ieee80211_stop_tx_ba_session\<close>, for drivers, rate control and timers: leave a note for the work.\<close>

definition ieee80211_stop_tx_ba_session :: "agg_env \<Rightarrow> nat \<Rightarrow> sta_tx \<Rightarrow> (errno + unit) \<times> sta_tx" where
  "ieee80211_stop_tx_ba_session env tid s =
     (if ae_ampdu_action env = None then (Inl EINVAL, s)
      else if tid \<ge> IEEE80211_NUM_TIDS then (Inl EINVAL, s)
      else case tid_tx s tid of
        None \<Rightarrow> (Inl ENOENT, s)
      | Some t \<Rightarrow>
          if tt_state t HT_AGG_STATE_STOPPING then (Inr (), s)
          else (Inr (), emit QueueBaWork (upd_tid_tx tid (set_agg HT_AGG_STATE_WANT_STOP True) s)))"

definition ieee80211_stop_tx_ba_cb :: "agg_env \<Rightarrow> nat \<Rightarrow> tid_ampdu_tx \<Rightarrow> sta_tx \<Rightarrow> sta_tx" where
  "ieee80211_stop_tx_ba_cb env tid t s =
     (if \<not> tt_state t HT_AGG_STATE_STOPPING then s
      else
        let send_delba = (tt_stop_initiator t = WLAN_BACK_INITIATOR \<and> tt_tx_stop t);
            s = ieee80211_remove_tid_tx env tid s
        in if send_delba then emit (SendTxDelba tid WLAN_BACK_INITIATOR WLAN_REASON_QSTA_NOT_USE) s else s)"

text \<open>The notes of the driver's callbacks, once the station has been found.\<close>

definition note_cb :: "ht_agg_state \<Rightarrow> nat \<Rightarrow> sta_tx \<Rightarrow> sta_tx" where
  "note_cb b tid s =
     (if tid \<ge> IEEE80211_NUM_TIDS \<or> tid_tx s tid = None then s
      else emit QueueBaWork (upd_tid_tx tid (set_agg b True) s))"

definition ieee80211_start_tx_ba_cb_irqsafe :: "nat \<Rightarrow> sta_tx \<Rightarrow> sta_tx" where
  "ieee80211_start_tx_ba_cb_irqsafe = note_cb HT_AGG_STATE_START_CB"

definition ieee80211_stop_tx_ba_cb_irqsafe :: "nat \<Rightarrow> sta_tx \<Rightarrow> sta_tx" where
  "ieee80211_stop_tx_ba_cb_irqsafe = note_cb HT_AGG_STATE_STOP_CB"

section \<open>Starting a session\<close>

definition new_tid_tx :: "u16 \<Rightarrow> u8 \<Rightarrow> tid_ampdu_tx" where
  "new_tid_tx timeout token =
     \<lparr>tt_session_timer = None, tt_addba_resp_timer = None, tt_pending = [],
      tt_state = (\<lambda>b. b = HT_AGG_STATE_WANT_START), tt_last_tx = 0, tt_timeout = timeout, tt_dialog_token = token,
      tt_stop_initiator = 0, tt_tx_stop = False, tt_buf_size = 0, tt_failed_bar_ssn = 0, tt_bar_pending = False,
      tt_amsdu = False\<rparr>"

definition start_refused :: "agg_env \<Rightarrow> nat \<Rightarrow> sta_tx \<Rightarrow> errno option" where
  "start_refused env tid s =
     (if stx_reserved_tid s = tid then Some EINVAL
      else if \<not> stx_ht_supported s then Some EINVAL
      else if ae_ampdu_action env = None then Some EINVAL
      else if tid \<ge> IEEE80211_NUM_TIDS \<or> \<not> ae_ampdu_aggregation env \<or> ae_tx_ampdu_setup_in_hw env then Some EINVAL
      else if tid \<ge> IEEE80211_FIRST_TSPEC_TSID then Some EINVAL
      else if ae_iftype env \<noteq> NL80211_IFTYPE_STATION \<and> ae_iftype env \<noteq> NL80211_IFTYPE_MESH_POINT \<and>
              ae_iftype env \<noteq> NL80211_IFTYPE_AP_VLAN \<and> ae_iftype env \<noteq> NL80211_IFTYPE_AP \<and>
              ae_iftype env \<noteq> NL80211_IFTYPE_ADHOC then Some EINVAL
      else if stx_block_ba s then Some EINVAL
      else if ae_iftype env = NL80211_IFTYPE_ADHOC \<and> \<not> stx_ht_supported s then Some EINVAL
      else if addba_req_num s tid > HT_AGG_MAX_RETRIES then Some EBUSY
      else if addba_req_num s tid > HT_AGG_BURST_RETRIES \<and>
              time_before (ae_jiffies env) (last_addba_req_time s tid + ae_timeout_factor env * 15 * ae_HZ env) then Some EBUSY
      else if tid_tx s tid \<noteq> None \<or> tid_start_tx s tid \<noteq> None then Some EAGAIN
      else if \<not> ae_alloc_ok env then Some ENOMEM
      else None)"

definition ieee80211_start_tx_ba_session :: "agg_env \<Rightarrow> nat \<Rightarrow> u16 \<Rightarrow> sta_tx \<Rightarrow> (errno + unit) \<times> sta_tx" where
  "ieee80211_start_tx_ba_session env tid timeout s =
     (case start_refused env tid s of
        Some e \<Rightarrow> (Inl e, s)
      | None \<Rightarrow>
          let token = dialog_token_allocator s + 1 in
          (Inr (), emit QueueBaWork
             (s\<lparr>dialog_token_allocator := token,
                tid_start_tx := (tid_start_tx s)(tid := Some (new_tid_tx timeout token))\<rparr>)))"

text \<open>\<open>ieee80211_tx_ba_session_handle_start\<close>, for the session \<open>t\<close> of the array.\<close>

definition ieee80211_tx_ba_session_handle_start :: "agg_env \<Rightarrow> nat \<Rightarrow> tid_ampdu_tx \<Rightarrow> sta_tx \<Rightarrow> sta_tx" where
  "ieee80211_tx_ba_session_handle_start env tid t s =
     (let s = upd_tid_tx tid (set_agg HT_AGG_STATE_WANT_START False) s;
          s = ieee80211_agg_stop_txq tid s;
          start_seq = drop_bit 4 (stx_tid_seq s tid);
          params = tx_params IEEE80211_AMPDU_TX_START tid start_seq 0 False;
          ret = drv_ampdu_action env params;
          s = emit (DrvAmpduTx params) s
      in
      if ret \<noteq> IEEE80211_AMPDU_TX_START_IMMEDIATE \<and> ret \<noteq> 0 then
        let s = ieee80211_agg_splice_packets env tid s;
            t' = tid_tx s tid;
            s = ieee80211_assign_tid_tx tid None s;
            s = ieee80211_agg_splice_finish env tid s;
            s = ieee80211_agg_start_txq tid False s
        in free_tid_tx t' s
      else
        let s = (if ret = IEEE80211_AMPDU_TX_START_IMMEDIATE then upd_tid_tx tid (set_agg HT_AGG_STATE_DRV_READY True) s else s);
            s = upd_tid_tx tid (\<lambda>t. t\<lparr>tt_addba_resp_timer := Some (ae_jiffies env + ae_timeout_factor env * ae_HZ env)\<rparr>) s;
            s = s\<lparr>last_addba_req_time := (last_addba_req_time s)(tid := ae_jiffies env),
                  addba_req_num := (addba_req_num s)(tid := addba_req_num s tid + 1)\<rparr>;
            bsize = (if stx_has_he s then ae_max_tx_aggregation_subframes env else IEEE80211_MAX_AMPDU_BUF_HT)
        in emit (SendAddbaRequest tid (tt_dialog_token t) start_seq bsize (tt_timeout t)) s)"

definition ieee80211_agg_tx_operational :: "agg_env \<Rightarrow> nat \<Rightarrow> tid_ampdu_tx \<Rightarrow> sta_tx \<Rightarrow> sta_tx" where
  "ieee80211_agg_tx_operational env tid t s =
     (let s = emit (DrvAmpduTx (tx_params IEEE80211_AMPDU_TX_OPERATIONAL tid 0 (tt_buf_size t) (tt_amsdu t))) s;
          s = ieee80211_agg_splice_packets env tid s;
          s = upd_tid_tx tid (set_agg HT_AGG_STATE_OPERATIONAL True) s;
          s = ieee80211_agg_splice_finish env tid s
      in ieee80211_agg_start_txq tid True s)"

definition ieee80211_start_tx_ba_cb :: "agg_env \<Rightarrow> nat \<Rightarrow> tid_ampdu_tx \<Rightarrow> sta_tx \<Rightarrow> sta_tx" where
  "ieee80211_start_tx_ba_cb env tid t s =
     (if tt_state t HT_AGG_STATE_DRV_READY then s
      else
        let s = upd_tid_tx tid (set_agg HT_AGG_STATE_DRV_READY True) s in
        if tt_state t HT_AGG_STATE_RESPONSE_RECEIVED
        then ieee80211_agg_tx_operational env tid (set_agg HT_AGG_STATE_DRV_READY True t) s else s)"

section \<open>Frames of the peer and timers\<close>

definition note_no_amsdu :: "bool \<Rightarrow> nat \<Rightarrow> sta_tx \<Rightarrow> sta_tx" where
  "note_no_amsdu amsdu tid s =
     (case stx_txq s tid of
        Some q \<Rightarrow> if \<not> amsdu then s\<lparr>stx_txq := (stx_txq s)(tid := Some (q\<lparr>sq_no_amsdu := True\<rparr>))\<rparr> else s
      | None \<Rightarrow> s)"

definition accept_addba_resp :: "agg_env \<Rightarrow> nat \<Rightarrow> u16 \<Rightarrow> bool \<Rightarrow> u16 \<Rightarrow> tid_ampdu_tx \<Rightarrow> sta_tx \<Rightarrow> sta_tx" where
  "accept_addba_resp env tid bsize amsdu timeout t s =
     (if tt_state t HT_AGG_STATE_RESPONSE_RECEIVED then s
      else
        let answered = (\<lambda>t. set_agg HT_AGG_STATE_RESPONSE_RECEIVED True t\<lparr>tt_buf_size := bsize, tt_amsdu := amsdu\<rparr>);
            s = upd_tid_tx tid answered s;
            s = (if tt_state t HT_AGG_STATE_DRV_READY then ieee80211_agg_tx_operational env tid (answered t) s else s);
            s = s\<lparr>addba_req_num := (addba_req_num s)(tid := 0)\<rparr>;
            s = upd_tid_tx tid (\<lambda>t. t\<lparr>tt_timeout := timeout\<rparr>) s
        in if timeout \<noteq> 0
           then upd_tid_tx tid (\<lambda>t. t\<lparr>tt_session_timer := Some (ae_jiffies env + ae_tu_to_jiffies env timeout),
                                    tt_last_tx := ae_jiffies env\<rparr>) s
           else s)"

definition ieee80211_process_addba_resp :: "agg_env \<Rightarrow> u8 \<Rightarrow> u16 \<Rightarrow> u16 \<Rightarrow> u16 \<Rightarrow> sta_tx \<Rightarrow> sta_tx" where
  "ieee80211_process_addba_resp env token capab status timeout s =
     (let amsdu = (capab AND 0x0001 \<noteq> 0);
          tid = unat (drop_bit 2 (capab AND 0x003C));
          bsize = min (drop_bit 6 (capab AND 0xFFC0)) (ae_max_tx_aggregation_subframes env);
          s = note_no_amsdu amsdu tid s
      in case tid_tx s tid of
           None \<Rightarrow> s
         | Some t \<Rightarrow>
             if token \<noteq> tt_dialog_token t then s
             else
               let s = upd_tid_tx tid (\<lambda>t. t\<lparr>tt_addba_resp_timer := None\<rparr>) s in
               if tt_state t HT_AGG_STATE_WANT_STOP \<or> tt_state t HT_AGG_STATE_STOPPING then s
               else if status = WLAN_STATUS_SUCCESS \<and> bsize \<noteq> 0
               then accept_addba_resp env tid bsize amsdu timeout (t\<lparr>tt_addba_resp_timer := None\<rparr>) s
               else snd (stop_tx_ba_session env tid AGG_STOP_DECLINED s))"

text \<open>The transmit half of the DELBA handler.\<close>

definition process_delba_tx :: "agg_env \<Rightarrow> u16 \<Rightarrow> sta_tx \<Rightarrow> sta_tx" where
  "process_delba_tx env params s =
     (let tid = unat (drop_bit 12 (params AND 0xF000));
          initiator = drop_bit 11 (params AND 0x0800)
      in if initiator = WLAN_BACK_INITIATOR then s
         else snd (stop_tx_ba_session env tid AGG_STOP_PEER_REQUEST s))"

definition sta_addba_resp_timer_expired :: "agg_env \<Rightarrow> nat \<Rightarrow> sta_tx \<Rightarrow> sta_tx" where
  "sta_addba_resp_timer_expired env tid s =
     (case tid_tx s tid of
        None \<Rightarrow> s
      | Some t \<Rightarrow>
          if tt_addba_resp_timer t = None then s
          else
            let s = upd_tid_tx tid (\<lambda>t. t\<lparr>tt_addba_resp_timer := None\<rparr>) s in
            if tt_state t HT_AGG_STATE_RESPONSE_RECEIVED then s
            else snd (ieee80211_stop_tx_ba_session env tid s))"

definition sta_tx_agg_session_timer_expired :: "agg_env \<Rightarrow> nat \<Rightarrow> sta_tx \<Rightarrow> sta_tx" where
  "sta_tx_agg_session_timer_expired env tid s =
     (case tid_tx s tid of
        None \<Rightarrow> s
      | Some t \<Rightarrow>
          if tt_session_timer t = None then s
          else
            let s = upd_tid_tx tid (\<lambda>t. t\<lparr>tt_session_timer := None\<rparr>) s;
                timeout = tt_last_tx t + ae_tu_to_jiffies env (tt_timeout t)
            in if tt_state t HT_AGG_STATE_STOPPING then s
               else if time_before (ae_jiffies env) timeout
               then upd_tid_tx tid (\<lambda>t. t\<lparr>tt_session_timer := Some timeout\<rparr>) s
               else snd (ieee80211_stop_tx_ba_session env tid s))"

section \<open>The session work and the end of a station\<close>

definition noted :: "ht_agg_state \<Rightarrow> nat \<Rightarrow> sta_tx \<Rightarrow> bool" where
  "noted b tid s = (case tid_tx s tid of None \<Rightarrow> False | Some t \<Rightarrow> tt_state t b)"

text \<open>\<open>test_and_clear_bit\<close> followed by a call on the session. The work reads once, before its loop, whether new
  sessions are blocked.\<close>

definition on_note :: "ht_agg_state \<Rightarrow> nat \<Rightarrow> (tid_ampdu_tx \<Rightarrow> sta_tx \<Rightarrow> sta_tx) \<Rightarrow> sta_tx \<Rightarrow> sta_tx" where
  "on_note b tid f s =
     (case tid_tx s tid of
        None \<Rightarrow> s
      | Some t \<Rightarrow> if tt_state t b then f (set_agg b False t) (upd_tid_tx tid (set_agg b False) s) else s)"

definition ba_work_tx :: "agg_env \<Rightarrow> bool \<Rightarrow> nat \<Rightarrow> sta_tx \<Rightarrow> sta_tx" where
  "ba_work_tx env blocked tid s =
     (case (blocked, tid_start_tx s tid) of
        (False, Some n) \<Rightarrow>
          let s = s\<lparr>tid_start_tx := (tid_start_tx s)(tid := None)\<rparr> in
          (case tid_tx s tid of
             Some t \<Rightarrow> ieee80211_tx_ba_session_handle_start env tid t (free_tid_tx (Some n) s)
           | None \<Rightarrow> ieee80211_tx_ba_session_handle_start env tid n (ieee80211_assign_tid_tx tid (Some n) s))
      | _ \<Rightarrow>
          let s = (if \<not> blocked then on_note HT_AGG_STATE_START_CB tid (ieee80211_start_tx_ba_cb env tid) s else s);
              s = on_note HT_AGG_STATE_WANT_STOP tid (\<lambda>t s. snd (stop_tx_ba_session env tid AGG_STOP_LOCAL_REQUEST s)) s
          in on_note HT_AGG_STATE_STOP_CB tid (ieee80211_stop_tx_ba_cb env tid) s)"

text \<open>The transmit halves of \<open>ieee80211_ba_session_work\<close> and \<open>ieee80211_sta_tear_down_BA_sessions\<close>.\<close>

definition ba_session_work_tx :: "agg_env \<Rightarrow> sta_tx \<Rightarrow> sta_tx" where
  "ba_session_work_tx env s = fold (ba_work_tx env (stx_block_ba s)) [0..<IEEE80211_NUM_TIDS] s"

definition tear_down_tx :: "agg_env \<Rightarrow> ieee80211_agg_stop_reason \<Rightarrow> sta_tx \<Rightarrow> sta_tx" where
  "tear_down_tx env reason s =
     (let s = fold (\<lambda>tid s. snd (stop_tx_ba_session env tid reason s)) [0..<IEEE80211_NUM_TIDS] s
      in if reason = AGG_STOP_DESTROY_STA
         then fold (\<lambda>tid. on_note HT_AGG_STATE_STOP_CB tid (ieee80211_stop_tx_ba_cb env tid)) [0..<IEEE80211_NUM_TIDS] s
         else s)"

text \<open>
  The first part of \<open>__sta_info_destroy\<close> and what \<open>__cleanup_single_sta\<close> does to the sessions.
  The arrays are the station's and go with it.
\<close>

definition destroy_ba_sessions :: "agg_env \<Rightarrow> sta_tx \<Rightarrow> sta_tx" where
  "destroy_ba_sessions env s = tear_down_tx env AGG_STOP_DESTROY_STA (s\<lparr>stx_block_ba := True\<rparr>)"

definition cleanup_ba_session :: "nat \<Rightarrow> sta_tx \<Rightarrow> sta_tx" where
  "cleanup_ba_session tid s =
     (let s = free_tid_tx (tid_start_tx s tid) s in
      case tid_tx s tid of
        None \<Rightarrow> s
      | Some t \<Rightarrow> free_tid_tx (Some (t\<lparr>tt_pending := []\<rparr>)) (fold (\<lambda>skb. emit (PurgeTxSkb tid skb)) (tt_pending t) s))"

definition cleanup_ba_sessions :: "sta_tx \<Rightarrow> sta_tx" where
  "cleanup_ba_sessions s = fold cleanup_ba_session [0..<IEEE80211_NUM_TIDS] s"

section \<open>The transmit path\<close>

text \<open>
  \<open>ieee80211_tx_prep_agg\<close>: is the frame held back, the frame as it goes on, and the state. A frame
  over the limit pushes the oldest one out.
\<close>

definition hold_frame :: "agg_env \<Rightarrow> nat \<Rightarrow> tx_skb \<Rightarrow> tid_ampdu_tx \<Rightarrow> sta_tx \<Rightarrow> sta_tx" where
  "hold_frame env tid skb t s =
     (let s = (if flag_set (ts_flags skb) IEEE80211_TX_CTL_NO_PS_BUFFER then s\<lparr>stx_sp := False\<rparr> else s);
          skb = skb\<lparr>ts_vif := Some (ae_vif env),
                    ts_flags := (ts_flags skb OR IEEE80211_TX_INTFL_NEED_TXPROCESSING) AND NOT IEEE80211_TX_TEMPORARY_FLAGS\<rparr>;
          pending = tt_pending t @ [skb]
      in if length pending > STA_MAX_TX_BUFFER
         then emit (PurgeTxSkb tid (hd pending)) (upd_tid_tx tid (\<lambda>t. t\<lparr>tt_pending := tl pending\<rparr>) s)
         else upd_tid_tx tid (\<lambda>t. t\<lparr>tt_pending := pending\<rparr>) s)"

definition ieee80211_tx_prep_agg :: "agg_env \<Rightarrow> nat \<Rightarrow> tx_skb \<Rightarrow> sta_tx \<Rightarrow> bool \<times> tx_skb \<times> sta_tx" where
  "ieee80211_tx_prep_agg env tid skb s =
     (case tid_tx s tid of
        None \<Rightarrow> (False, skb, s)
      | Some t \<Rightarrow>
          if tt_state t HT_AGG_STATE_OPERATIONAL
          then (False, skb\<lparr>ts_flags := ts_flags skb OR IEEE80211_TX_CTL_AMPDU\<rparr>,
                upd_tid_tx tid (\<lambda>t. t\<lparr>tt_last_tx := ae_jiffies env\<rparr>) s)
          else if tt_state t HT_AGG_STATE_WANT_START then (False, skb, s)
          else if stx_txq s tid = None then (True, skb, hold_frame env tid skb t s)
          else (False, skb, s))"

text \<open>Pending block-ack requests.\<close>

definition ieee80211_set_bar_pending :: "nat \<Rightarrow> u16 \<Rightarrow> sta_tx \<Rightarrow> sta_tx" where
  "ieee80211_set_bar_pending tid bar_ssn =
     upd_tid_tx tid (\<lambda>t. t\<lparr>tt_failed_bar_ssn := bar_ssn, tt_bar_pending := True\<rparr>)"

definition ieee80211_check_pending_bar :: "nat \<Rightarrow> sta_tx \<Rightarrow> sta_tx" where
  "ieee80211_check_pending_bar tid s =
     (case tid_tx s tid of
        None \<Rightarrow> s
      | Some t \<Rightarrow> if \<not> tt_bar_pending t then s
          else emit (SendBar tid (tt_failed_bar_ssn t)) (upd_tid_tx tid (\<lambda>t. t\<lparr>tt_bar_pending := False\<rparr>) s))"

end
