(* ===== verification/AggTxInv.thy ===== *)
theory AggTxInv
  imports AggTx
begin

text \<open>
  The transmit block-ack sessions of a station as a machine, the invariant of a session and
  its proof for every event.
\<close>

section \<open>Effects of the helpers\<close>

lemma emit_simps [simp]:
  "tid_tx (emit e s) = tid_tx s" "tid_start_tx (emit e s) = tid_start_tx s" "stx_txq (emit e s) = stx_txq s"
  "addba_req_num (emit e s) = addba_req_num s" "stx_block_ba (emit e s) = stx_block_ba s"
  "stx_local (emit e s) = stx_local s" "stx_out (emit e s) = stx_out s @ [e]"
  by (simp_all add: emit_def)

lemma upd_local_simps [simp]:
  "tid_tx (upd_local f s) = tid_tx s" "tid_start_tx (upd_local f s) = tid_start_tx s" "stx_txq (upd_local f s) = stx_txq s"
  "addba_req_num (upd_local f s) = addba_req_num s" "stx_block_ba (upd_local f s) = stx_block_ba s"
  "stx_local (upd_local f s) = f (stx_local s)" "stx_out (upd_local f s) = stx_out s"
  by (simp_all add: upd_local_def)

lemma upd_tid_tx_simps [simp]:
  "tid_tx (upd_tid_tx tid f s) = (tid_tx s)(tid := map_option f (tid_tx s tid))"
  "tid_start_tx (upd_tid_tx tid f s) = tid_start_tx s" "stx_txq (upd_tid_tx tid f s) = stx_txq s"
  "addba_req_num (upd_tid_tx tid f s) = addba_req_num s" "stx_block_ba (upd_tid_tx tid f s) = stx_block_ba s"
  "stx_local (upd_tid_tx tid f s) = stx_local s" "stx_out (upd_tid_tx tid f s) = stx_out s"
  by (simp_all add: upd_tid_tx_def)

lemma assign_simps [simp]:
  "tid_tx (ieee80211_assign_tid_tx tid t s) = (tid_tx s)(tid := t)"
  "tid_start_tx (ieee80211_assign_tid_tx tid t s) = tid_start_tx s" "stx_txq (ieee80211_assign_tid_tx tid t s) = stx_txq s"
  "addba_req_num (ieee80211_assign_tid_tx tid t s) = addba_req_num s"
  "stx_block_ba (ieee80211_assign_tid_tx tid t s) = stx_block_ba s"
  "stx_local (ieee80211_assign_tid_tx tid t s) = stx_local s" "stx_out (ieee80211_assign_tid_tx tid t s) = stx_out s"
  by (simp_all add: ieee80211_assign_tid_tx_def)

lemma free_simps [simp]:
  "tid_tx (free_tid_tx t s) = tid_tx s" "tid_start_tx (free_tid_tx t s) = tid_start_tx s" "stx_txq (free_tid_tx t s) = stx_txq s"
  "addba_req_num (free_tid_tx t s) = addba_req_num s" "stx_block_ba (free_tid_tx t s) = stx_block_ba s"
  "stx_local (free_tid_tx t s) = stx_local s"
  "stx_out (free_tid_tx t s) = stx_out s @ (case t of None \<Rightarrow> [] | Some t \<Rightarrow> [FreeTidTx t])"
  by (simp_all add: free_tid_tx_def split: option.split)

lemma stop_txq_simps [simp]:
  "tid_tx (ieee80211_agg_stop_txq tid s) = tid_tx s" "tid_start_tx (ieee80211_agg_stop_txq tid s) = tid_start_tx s"
  "addba_req_num (ieee80211_agg_stop_txq tid s) = addba_req_num s" "stx_block_ba (ieee80211_agg_stop_txq tid s) = stx_block_ba s"
  "stx_local (ieee80211_agg_stop_txq tid s) = stx_local s" "stx_out (ieee80211_agg_stop_txq tid s) = stx_out s"
  "stx_txq (ieee80211_agg_stop_txq tid s) = (stx_txq s)(tid := map_option (\<lambda>q. q\<lparr>sq_stop := True\<rparr>) (stx_txq s tid))"
  by (simp_all add: ieee80211_agg_stop_txq_def fun_eq_iff split: option.split)

lemma start_txq_simps [simp]:
  "tid_tx (ieee80211_agg_start_txq tid b s) = tid_tx s" "tid_start_tx (ieee80211_agg_start_txq tid b s) = tid_start_tx s"
  "addba_req_num (ieee80211_agg_start_txq tid b s) = addba_req_num s" "stx_block_ba (ieee80211_agg_start_txq tid b s) = stx_block_ba s"
  "stx_local (ieee80211_agg_start_txq tid b s) = stx_local s"
  "stx_out (ieee80211_agg_start_txq tid b s) = stx_out s @ (if stx_txq s tid = None then [] else [WakeTxq tid])"
  "stx_txq (ieee80211_agg_start_txq tid b s) =
     (stx_txq s)(tid := map_option (\<lambda>q. q\<lparr>sq_ampdu := b, sq_stop := False\<rparr>) (stx_txq s tid))"
  by (simp_all add: ieee80211_agg_start_txq_def fun_eq_iff split: option.split)

definition spliced :: "nat \<Rightarrow> sta_tx \<Rightarrow> tx_effect list" where
  "spliced tid s = (case tid_tx s tid of None \<Rightarrow> [] | Some t \<Rightarrow> if tt_pending t = [] then [] else [SpliceTx tid (tt_pending t)])"

lemma splice_simps [simp]:
  "tid_tx (ieee80211_agg_splice_packets env tid s) = (tid_tx s)(tid := map_option (\<lambda>t. t\<lparr>tt_pending := []\<rparr>) (tid_tx s tid))"
  "tid_start_tx (ieee80211_agg_splice_packets env tid s) = tid_start_tx s"
  "stx_txq (ieee80211_agg_splice_packets env tid s) = stx_txq s"
  "addba_req_num (ieee80211_agg_splice_packets env tid s) = addba_req_num s"
  "stx_block_ba (ieee80211_agg_splice_packets env tid s) = stx_block_ba s"
  "stx_out (ieee80211_agg_splice_packets env tid s) = stx_out s @ spliced tid s"
  by (auto simp: ieee80211_agg_splice_packets_def Let_def spliced_def fun_eq_iff split: option.split)

lemma splice_finish_simps [simp]:
  "tid_tx (ieee80211_agg_splice_finish env tid s) = tid_tx s" "tid_start_tx (ieee80211_agg_splice_finish env tid s) = tid_start_tx s"
  "stx_txq (ieee80211_agg_splice_finish env tid s) = stx_txq s"
  "addba_req_num (ieee80211_agg_splice_finish env tid s) = addba_req_num s"
  "stx_block_ba (ieee80211_agg_splice_finish env tid s) = stx_block_ba s"
  "stx_out (ieee80211_agg_splice_finish env tid s) = stx_out s"
  by (simp_all add: ieee80211_agg_splice_finish_def)

lemma set_agg_simps [simp]:
  "tt_state (set_agg b v t) = (tt_state t)(b := v)" "tt_pending (set_agg b v t) = tt_pending t"
  "tt_session_timer (set_agg b v t) = tt_session_timer t" "tt_addba_resp_timer (set_agg b v t) = tt_addba_resp_timer t"
  "tt_dialog_token (set_agg b v t) = tt_dialog_token t" "tt_buf_size (set_agg b v t) = tt_buf_size t"
  "tt_amsdu (set_agg b v t) = tt_amsdu t" "tt_timeout (set_agg b v t) = tt_timeout t"
  "tt_stop_initiator (set_agg b v t) = tt_stop_initiator t" "tt_tx_stop (set_agg b v t) = tt_tx_stop t"
  by (simp_all add: set_agg_def)

section \<open>The invariant of a session\<close>

definition live_session :: "sta_txq option \<Rightarrow> tid_ampdu_tx \<Rightarrow> bool" where
  "live_session q t \<longleftrightarrow>
     \<not> tt_state t HT_AGG_STATE_WANT_START \<and>
     (tt_state t HT_AGG_STATE_OPERATIONAL \<longrightarrow>
        tt_state t HT_AGG_STATE_DRV_READY \<and> tt_state t HT_AGG_STATE_RESPONSE_RECEIVED \<and> tt_pending t = []) \<and>
     (tt_state t HT_AGG_STATE_STOPPING \<longrightarrow> tt_session_timer t = None \<and> tt_addba_resp_timer t = None) \<and>
     (tt_state t HT_AGG_STATE_RESPONSE_RECEIVED \<longrightarrow> tt_addba_resp_timer t = None) \<and>
     (tt_session_timer t \<noteq> None \<longrightarrow> tt_state t HT_AGG_STATE_RESPONSE_RECEIVED) \<and>
     (q \<noteq> None \<longrightarrow> tt_pending t = []) \<and> length (tt_pending t) \<le> STA_MAX_TX_BUFFER"

definition txq_flags_ok :: "tid_ampdu_tx option \<Rightarrow> sta_txq \<Rightarrow> bool" where
  "txq_flags_ok t q \<longleftrightarrow>
     (sq_stop q \<longleftrightarrow> (case t of None \<Rightarrow> False | Some t \<Rightarrow> \<not> tt_state t HT_AGG_STATE_OPERATIONAL)) \<and>
     (case t of None \<Rightarrow> \<not> sq_ampdu q | Some t \<Rightarrow> tt_state t HT_AGG_STATE_OPERATIONAL \<longrightarrow> sq_ampdu q)"

definition is_new :: "tid_ampdu_tx \<Rightarrow> bool" where
  "is_new n \<longleftrightarrow> n = new_tid_tx (tt_timeout n) (tt_dialog_token n)"

lemma is_new_fields:
  "is_new n \<Longrightarrow> tt_state n = (\<lambda>b. b = HT_AGG_STATE_WANT_START) \<and> tt_pending n = [] \<and>
     tt_session_timer n = None \<and> tt_addba_resp_timer n = None"
  by (metis is_new_def new_tid_tx_def tid_ampdu_tx.select_convs(1-4))

definition sess_ok :: "tid_ampdu_tx option \<Rightarrow> tid_ampdu_tx option \<Rightarrow> sta_txq option \<Rightarrow> u8 \<Rightarrow> bool" where
  "sess_ok t n q k \<longleftrightarrow>
     (t = None \<or> n = None) \<and> k \<le> 16 \<and> (n \<noteq> None \<longrightarrow> k \<le> HT_AGG_MAX_RETRIES) \<and>
     (\<forall>n'. n = Some n' \<longrightarrow> is_new n') \<and> (\<forall>t'. t = Some t' \<longrightarrow> live_session q t') \<and> (\<forall>q'. q = Some q' \<longrightarrow> txq_flags_ok t q')"

abbreviation sess_at :: "sta_tx \<Rightarrow> nat \<Rightarrow> bool" where
  "sess_at s x \<equiv> sess_ok (tid_tx s x) (tid_start_tx s x) (stx_txq s x) (addba_req_num s x)"

text \<open>An operation on one traffic identifier leaves the others alone.\<close>

definition only_tid :: "nat \<Rightarrow> sta_tx \<Rightarrow> sta_tx \<Rightarrow> bool" where
  "only_tid tid s s' \<longleftrightarrow> (\<forall>x. x \<noteq> tid \<longrightarrow> tid_tx s' x = tid_tx s x \<and> tid_start_tx s' x = tid_start_tx s x \<and>
     stx_txq s' x = stx_txq s x \<and> addba_req_num s' x = addba_req_num s x) \<and> stx_block_ba s' = stx_block_ba s"

definition keeps_at :: "nat \<Rightarrow> sta_tx \<Rightarrow> sta_tx \<Rightarrow> bool" where
  "keeps_at tid s s' \<longleftrightarrow> only_tid tid s s' \<and> (sess_at s tid \<longrightarrow> sess_at s' tid)"

lemma keeps_refl [simp]: "keeps_at tid s s"
  by (simp add: keeps_at_def only_tid_def)

lemma keeps_trans: "keeps_at tid s s1 \<Longrightarrow> keeps_at tid s1 s2 \<Longrightarrow> keeps_at tid s s2"
  by (auto simp: keeps_at_def only_tid_def)

lemma keeps_all: "keeps_at tid s s' \<Longrightarrow> \<forall>x. sess_at s x \<Longrightarrow> \<forall>x. sess_at s' x"
  unfolding keeps_at_def only_tid_def by metis

lemma keeps_emit [simp]: "keeps_at tid s (emit e s') = keeps_at tid s s'"
  by (simp add: keeps_at_def only_tid_def)

lemmas sess_defs = sess_ok_def live_session_def txq_flags_ok_def

lemma stop_session_keeps: "keeps_at tid s (snd (stop_tx_ba_session env tid reason s))"
proof -
  have "only_tid tid s (snd (stop_tx_ba_session env tid reason s))"
    by (simp add: only_tid_def stop_tx_ba_session_def Let_def split: option.split)
  moreover have "sess_at s tid \<Longrightarrow> sess_at (snd (stop_tx_ba_session env tid reason s)) tid"
    by (cases "tid_tx s tid"; cases "stx_txq s tid") (auto simp: stop_tx_ba_session_def Let_def sess_defs)
  ultimately show ?thesis by (simp add: keeps_at_def)
qed

lemma request_stop_keeps: "keeps_at tid s (snd (ieee80211_stop_tx_ba_session env tid s))"
proof -
  have "only_tid tid s (snd (ieee80211_stop_tx_ba_session env tid s))"
    by (simp add: only_tid_def ieee80211_stop_tx_ba_session_def split: option.split)
  moreover have "sess_at s tid \<Longrightarrow> sess_at (snd (ieee80211_stop_tx_ba_session env tid s)) tid"
    by (cases "tid_tx s tid"; cases "stx_txq s tid") (auto simp: ieee80211_stop_tx_ba_session_def Let_def sess_defs)
  ultimately show ?thesis by (simp add: keeps_at_def)
qed

lemma only_trans: "only_tid tid s s1 \<Longrightarrow> only_tid tid s1 s2 \<Longrightarrow> only_tid tid s s2"
  by (simp add: only_tid_def)

lemma operational_only: "only_tid tid s (ieee80211_agg_tx_operational env tid t s)"
  by (simp add: only_tid_def ieee80211_agg_tx_operational_def Let_def)

lemma operational_sess:
  assumes "tid_tx s tid = Some t" "tt_state t HT_AGG_STATE_DRV_READY" "tt_state t HT_AGG_STATE_RESPONSE_RECEIVED" "sess_at s tid"
  shows "sess_at (ieee80211_agg_tx_operational env tid u s) tid"
  using assms by (cases "stx_txq s tid") (auto simp: ieee80211_agg_tx_operational_def Let_def sess_defs)

lemma start_cb_keeps:
  assumes "tid_tx s tid = Some t" shows "keeps_at tid s (ieee80211_start_tx_ba_cb env tid t s)"
proof -
  let ?s = "upd_tid_tx tid (set_agg HT_AGG_STATE_DRV_READY True) s"
  have o: "only_tid tid s ?s" by (simp add: only_tid_def)
  have k: "sess_at s tid \<Longrightarrow> sess_at ?s tid" using assms by (auto simp: sess_defs split: option.splits)
  show ?thesis
    using only_trans [OF o operational_only] o k assms
      operational_sess [where s = ?s and tid = tid and env = env and t = "set_agg HT_AGG_STATE_DRV_READY True t"
        and u = "set_agg HT_AGG_STATE_DRV_READY True t"]
    by (simp add: keeps_at_def ieee80211_start_tx_ba_cb_def Let_def only_tid_def)
qed

lemma remove_keeps:
  "only_tid tid s (ieee80211_remove_tid_tx env tid s)"
  "sess_at s tid \<Longrightarrow> tid_tx s tid \<noteq> None \<Longrightarrow> sess_at (ieee80211_remove_tid_tx env tid s) tid"
  by (simp add: only_tid_def ieee80211_remove_tid_tx_def Let_def)
    (cases "stx_txq s tid"; auto simp: ieee80211_remove_tid_tx_def Let_def sess_defs)

lemma stop_cb_keeps:
  assumes "tid_tx s tid = Some t" shows "keeps_at tid s (ieee80211_stop_tx_ba_cb env tid t s)"
  using remove_keeps [where s = s and tid = tid and env = env] assms by (auto simp: keeps_at_def ieee80211_stop_tx_ba_cb_def Let_def only_tid_def)

lemma set_agg_keeps:
  "b \<in> {HT_AGG_STATE_WANT_STOP, HT_AGG_STATE_START_CB, HT_AGG_STATE_STOP_CB} \<Longrightarrow> keeps_at tid s (upd_tid_tx tid (set_agg b v) s)"
  by (auto simp: keeps_at_def only_tid_def sess_defs split: option.splits)

lemma on_note_keeps:
  assumes "\<And>t s. tid_tx s tid = Some t \<Longrightarrow> keeps_at tid s (f t s)"
    and "b \<in> {HT_AGG_STATE_WANT_STOP, HT_AGG_STATE_START_CB, HT_AGG_STATE_STOP_CB}"
  shows "keeps_at tid s (on_note b tid f s)"
proof (cases "tid_tx s tid")
  case (Some t)
  let ?s = "upd_tid_tx tid (set_agg b False) s"
  have "keeps_at tid ?s (f (set_agg b False t) ?s)" by (rule assms(1)) (simp add: Some)
  then show ?thesis using keeps_trans [OF set_agg_keeps [OF assms(2)]] by (simp add: on_note_def Some)
qed (simp add: on_note_def)

lemma handle_start_only: "only_tid tid s (ieee80211_tx_ba_session_handle_start env tid t s)"
  by (simp add: only_tid_def ieee80211_tx_ba_session_handle_start_def Let_def)

text \<open>A session that has just been moved to the array.\<close>

lemma handle_start_sess:
  assumes "sess_at s tid" "tid_start_tx s tid = Some n"
  shows "sess_at (ieee80211_tx_ba_session_handle_start env tid n
    (ieee80211_assign_tid_tx tid (Some n) (s\<lparr>tid_start_tx := (tid_start_tx s)(tid := None)\<rparr>))) tid"
proof -
  have n: "is_new n" "addba_req_num s tid \<le> HT_AGG_MAX_RETRIES" "tid_tx s tid = None" using assms by (auto simp: sess_ok_def)
  have k: "addba_req_num s tid + 1 \<le> 16" using n(2) by (simp add: HT_AGG_MAX_RETRIES_def word_le_nat_alt unat_word_ariths)
  have k': "addba_req_num s tid \<le> 16" using n(2) by (simp add: HT_AGG_MAX_RETRIES_def word_le_nat_alt)
  have f: "tt_state n = (\<lambda>b. b = HT_AGG_STATE_WANT_START)" "tt_pending n = []" "tt_session_timer n = None" "tt_addba_resp_timer n = None"
    using is_new_fields [OF n(1)] by simp_all
  show ?thesis
    using assms n k k' f
    by (cases "stx_txq s tid") (auto simp: ieee80211_tx_ba_session_handle_start_def Let_def sess_defs spliced_def)
qed

lemma work_keeps: "keeps_at tid s (ba_work_tx env blocked tid s)"
proof (cases "\<not> blocked \<and> (\<exists>n. tid_start_tx s tid = Some n)")
  case True
  then obtain n where n: "\<not> blocked" "tid_start_tx s tid = Some n" by blast
  let ?s = "s\<lparr>tid_start_tx := (tid_start_tx s)(tid := None)\<rparr>"
  have o: "only_tid tid s ?s" "only_tid tid ?s (free_tid_tx x ?s)" "only_tid tid ?s (ieee80211_assign_tid_tx tid y ?s)" for x y
    by (simp_all add: only_tid_def)
  have "only_tid tid s (ba_work_tx env blocked tid s)"
    using n only_trans [OF o(1) only_trans [OF o(2) handle_start_only]] only_trans [OF o(1) only_trans [OF o(3) handle_start_only]]
    by (simp add: ba_work_tx_def Let_def split: option.split)
  moreover have "sess_at s tid \<Longrightarrow> sess_at (ba_work_tx env blocked tid s) tid"
    using n handle_start_sess [of s tid n env] by (auto simp: ba_work_tx_def Let_def sess_ok_def)
  ultimately show ?thesis by (simp add: keeps_at_def)
next
  case False
  define s1 where "s1 = (if \<not> blocked then on_note HT_AGG_STATE_START_CB tid (ieee80211_start_tx_ba_cb env tid) s else s)"
  define s2 where "s2 = on_note HT_AGG_STATE_WANT_STOP tid (\<lambda>t s. snd (stop_tx_ba_session env tid AGG_STOP_LOCAL_REQUEST s)) s1"
  have "ba_work_tx env blocked tid s = on_note HT_AGG_STATE_STOP_CB tid (ieee80211_stop_tx_ba_cb env tid) s2"
    using False by (auto simp: ba_work_tx_def s1_def s2_def Let_def split: bool.split option.split)
  moreover have "keeps_at tid s s1" unfolding s1_def using on_note_keeps [OF start_cb_keeps] by simp
  moreover have "keeps_at tid s1 s2" unfolding s2_def by (rule on_note_keeps) (simp_all add: stop_session_keeps)
  moreover have "keeps_at tid s2 (on_note HT_AGG_STATE_STOP_CB tid (ieee80211_stop_tx_ba_cb env tid) s2)"
    by (rule on_note_keeps) (simp_all add: stop_cb_keeps)
  ultimately show ?thesis using keeps_trans by metis
qed

lemma note_no_amsdu_simps [simp]:
  "tid_tx (note_no_amsdu a tid s) = tid_tx s" "tid_start_tx (note_no_amsdu a tid s) = tid_start_tx s"
  "addba_req_num (note_no_amsdu a tid s) = addba_req_num s" "stx_block_ba (note_no_amsdu a tid s) = stx_block_ba s"
  "stx_local (note_no_amsdu a tid s) = stx_local s" "stx_out (note_no_amsdu a tid s) = stx_out s"
  "stx_txq (note_no_amsdu a tid s) =
     (stx_txq s)(tid := map_option (\<lambda>q. if a then q else q\<lparr>sq_no_amsdu := True\<rparr>) (stx_txq s tid))"
  by (simp_all add: note_no_amsdu_def fun_eq_iff split: option.split)

lemma note_no_amsdu_keeps: "keeps_at tid s (note_no_amsdu a tid s)"
  by (auto simp: keeps_at_def only_tid_def sess_defs split: option.splits)

lemma session_timer_keeps:
  assumes "tid_tx s tid = Some t" "tt_state t HT_AGG_STATE_RESPONSE_RECEIVED" "\<not> tt_state t HT_AGG_STATE_STOPPING"
  shows "keeps_at tid s (upd_tid_tx tid (\<lambda>t. t\<lparr>tt_session_timer := x, tt_last_tx := y\<rparr>) s)"
  using assms by (auto simp: keeps_at_def only_tid_def sess_defs split: option.splits)

lemma sess_ok_reset: "sess_ok t n q k \<Longrightarrow> sess_ok t n q 0"
  by (simp add: sess_ok_def)

lemma sess_ok_timeout: "sess_ok (Some v) n q k \<Longrightarrow> sess_ok (Some (v\<lparr>tt_timeout := x\<rparr>)) n q k"
  by (simp add: sess_defs)

lemma accept_keeps:
  assumes "tid_tx s tid = Some t" "tt_addba_resp_timer t = None" "\<not> tt_state t HT_AGG_STATE_STOPPING"
  shows "keeps_at tid s (accept_addba_resp env tid bsize amsdu timeout t s)"
proof (cases "tt_state t HT_AGG_STATE_RESPONSE_RECEIVED")
  case False
  define answered where "answered = (\<lambda>t. set_agg HT_AGG_STATE_RESPONSE_RECEIVED True t\<lparr>tt_buf_size := bsize, tt_amsdu := amsdu\<rparr>)"
  define s1 where "s1 = upd_tid_tx tid answered s"
  define s2 where "s2 = (if tt_state t HT_AGG_STATE_DRV_READY then ieee80211_agg_tx_operational env tid (answered t) s1 else s1)"
  define s3 where "s3 = upd_tid_tx tid (\<lambda>t. t\<lparr>tt_timeout := timeout\<rparr>) (s2\<lparr>addba_req_num := (addba_req_num s2)(tid := 0)\<rparr>)"
  have e: "accept_addba_resp env tid bsize amsdu timeout t s = (if timeout \<noteq> 0
      then upd_tid_tx tid (\<lambda>t. t\<lparr>tt_session_timer := Some (ae_jiffies env + ae_tu_to_jiffies env timeout), tt_last_tx := ae_jiffies env\<rparr>) s3
      else s3)"
    using False by (simp add: accept_addba_resp_def Let_def answered_def s1_def s2_def s3_def)
  have a1: "only_tid tid s s1" "sess_at s tid \<Longrightarrow> sess_at s1 tid" "tid_tx s1 tid = Some (answered t)"
    using assms(1,2) by (auto simp: only_tid_def s1_def answered_def sess_defs split: option.splits)
  have a2: "only_tid tid s s2" using only_trans [OF a1(1) operational_only] a1(1) by (simp add: s2_def)
  have k2: "sess_at s2 tid" if "sess_at s tid"
    using a1(2) [OF that] operational_sess [where s = s1 and tid = tid and env = env and t = "answered t" and u = "answered t"] a1(3)
    by (auto simp: s2_def answered_def)
  have t2: "\<exists>t2. tid_tx s2 tid = Some t2 \<and> tt_state t2 HT_AGG_STATE_RESPONSE_RECEIVED \<and> \<not> tt_state t2 HT_AGG_STATE_STOPPING"
    using a1(3) assms(3) by (auto simp: s2_def answered_def ieee80211_agg_tx_operational_def Let_def)
  have a3: "only_tid tid s s3" using a2 by (simp add: s3_def only_tid_def)
  have k3: "sess_at s3 tid" if "sess_at s tid"
  proof -
    obtain v where v: "tid_tx s2 tid = Some v" using t2 by blast
    show ?thesis using sess_ok_timeout [OF sess_ok_reset [OF k2 [OF that], unfolded v]] v by (simp add: s3_def)
  qed
  have t3: "\<exists>t3. tid_tx s3 tid = Some t3 \<and> tt_state t3 HT_AGG_STATE_RESPONSE_RECEIVED \<and> \<not> tt_state t3 HT_AGG_STATE_STOPPING"
    using t2 by (auto simp: s3_def)
  obtain u where u: "tid_tx s3 tid = Some u" "tt_state u HT_AGG_STATE_RESPONSE_RECEIVED" "\<not> tt_state u HT_AGG_STATE_STOPPING"
    using t3 by blast
  have "keeps_at tid s s3" using a3 k3 by (simp add: keeps_at_def)
  from keeps_trans [OF this session_timer_keeps [OF u]] this show ?thesis unfolding e by simp
qed (simp add: accept_addba_resp_def)

text \<open>The traffic identifier an ADDBA response is about.\<close>

definition resp_tid :: "u16 \<Rightarrow> nat" where "resp_tid capab = unat (drop_bit 2 (capab AND 0x003C))"

lemma resp_keeps: "keeps_at (resp_tid capab) s (ieee80211_process_addba_resp env token capab status timeout s)"
proof -
  define tid where "tid = resp_tid capab"
  define s1 where "s1 = note_no_amsdu (capab AND 1 \<noteq> 0) tid s"
  define bsize where "bsize = min (drop_bit 6 (capab AND 0xFFC0)) (ae_max_tx_aggregation_subframes env)"
  have k1: "keeps_at tid s s1" unfolding s1_def by (rule note_no_amsdu_keeps)
  show ?thesis
  proof (cases "tid_tx s1 tid")
    case None
    then show ?thesis using k1 by (simp add: ieee80211_process_addba_resp_def Let_def s1_def tid_def resp_tid_def)
  next
    case (Some t)
    define s2 where "s2 = upd_tid_tx tid (\<lambda>t. t\<lparr>tt_addba_resp_timer := None\<rparr>) s1"
    have k2: "keeps_at tid s s2"
      by (rule keeps_trans [OF k1]) (auto simp: s2_def keeps_at_def only_tid_def sess_defs split: option.splits)
    have t2: "tid_tx s2 tid = Some (t\<lparr>tt_addba_resp_timer := None\<rparr>)" using Some by (simp add: s2_def)
    have "ieee80211_process_addba_resp env token capab status timeout s =
      (if token \<noteq> tt_dialog_token t then s1
       else if tt_state t HT_AGG_STATE_WANT_STOP \<or> tt_state t HT_AGG_STATE_STOPPING then s2
       else if status = WLAN_STATUS_SUCCESS \<and> bsize \<noteq> 0
       then accept_addba_resp env tid bsize (capab AND 1 \<noteq> 0) timeout (t\<lparr>tt_addba_resp_timer := None\<rparr>) s2
       else snd (stop_tx_ba_session env tid AGG_STOP_DECLINED s2))"
      using Some by (simp add: ieee80211_process_addba_resp_def Let_def s1_def s2_def tid_def resp_tid_def bsize_def)
    then show ?thesis
      using k1 k2 keeps_trans [OF k2 stop_session_keeps] keeps_trans [OF k2 accept_keeps [OF t2]]
      by (simp add: tid_def [symmetric])
  qed
qed

lemma timer_keeps:
  "keeps_at tid s (sta_addba_resp_timer_expired env tid s)" "keeps_at tid s (sta_tx_agg_session_timer_expired env tid s)"
proof -
  let ?a = "upd_tid_tx tid (\<lambda>t. t\<lparr>tt_addba_resp_timer := None\<rparr>) s" and ?b = "upd_tid_tx tid (\<lambda>t. t\<lparr>tt_session_timer := None\<rparr>) s"
  have a: "keeps_at tid s ?a" and b: "keeps_at tid s ?b"
    by (auto simp: keeps_at_def only_tid_def sess_defs split: option.splits)
  have c: "keeps_at tid s (upd_tid_tx tid (\<lambda>t. t\<lparr>tt_session_timer := Some x\<rparr>) ?b)"
    if "tid_tx s tid = Some t" "tt_session_timer t \<noteq> None" "\<not> tt_state t HT_AGG_STATE_STOPPING" for x t
    using that by (auto simp: keeps_at_def only_tid_def sess_defs split: option.splits)
  show "keeps_at tid s (sta_addba_resp_timer_expired env tid s)"
    using a keeps_trans [OF a request_stop_keeps]
    by (simp add: sta_addba_resp_timer_expired_def Let_def split: option.split)
  show "keeps_at tid s (sta_tx_agg_session_timer_expired env tid s)"
    using b c keeps_trans [OF b request_stop_keeps]
    by (simp add: sta_tx_agg_session_timer_expired_def Let_def split: option.split)
qed

lemma start_keeps: "keeps_at tid s (snd (ieee80211_start_tx_ba_session env tid timeout s))"
proof (cases "start_refused env tid s")
  case None
  then have "tid_tx s tid = None" "tid_start_tx s tid = None" "addba_req_num s tid \<le> HT_AGG_MAX_RETRIES"
    by (auto simp: start_refused_def not_less split: if_splits)
  then show ?thesis using None
    by (auto simp: ieee80211_start_tx_ba_session_def Let_def keeps_at_def only_tid_def sess_defs is_new_def new_tid_tx_def)
qed (simp add: ieee80211_start_tx_ba_session_def)

lemma note_cb_keeps:
  "b \<in> {HT_AGG_STATE_WANT_STOP, HT_AGG_STATE_START_CB, HT_AGG_STATE_STOP_CB} \<Longrightarrow> keeps_at tid s (note_cb b tid s)"
  using set_agg_keeps by (simp add: note_cb_def)

lemma prep_agg_keeps: "keeps_at tid s (snd (snd (ieee80211_tx_prep_agg env tid skb s)))"
proof (cases "tid_tx s tid")
  case (Some t)
  have sp: "keeps_at tid s (s\<lparr>stx_sp := b\<rparr>)" for b by (simp add: keeps_at_def only_tid_def)
  have h: "keeps_at tid s (upd_tid_tx tid (\<lambda>t. t\<lparr>tt_pending := p\<rparr>) s')"
    if "stx_txq s tid = None" "\<not> tt_state t HT_AGG_STATE_OPERATIONAL" "length p \<le> STA_MAX_TX_BUFFER"
      "s' = s \<or> s' = s\<lparr>stx_sp := False\<rparr>" for p s'
    using that Some by (auto simp: keeps_at_def only_tid_def sess_defs split: option.splits)
  have u: "keeps_at tid s (upd_tid_tx tid (\<lambda>t. t\<lparr>tt_last_tx := x\<rparr>) s)" for x
    by (auto simp: keeps_at_def only_tid_def sess_defs split: option.splits)
  show ?thesis
  proof (cases "stx_txq s tid = None \<and> \<not> tt_state t HT_AGG_STATE_OPERATIONAL \<and> \<not> tt_state t HT_AGG_STATE_WANT_START")
    case True
    have "keeps_at tid s (hold_frame env tid skb t s)" if "length (tt_pending t) \<le> STA_MAX_TX_BUFFER"
      using that True h by (auto simp: hold_frame_def Let_def)
    moreover have "keeps_at tid s (hold_frame env tid skb t s)" if "\<not> length (tt_pending t) \<le> STA_MAX_TX_BUFFER"
    proof -
      have "\<not> sess_at s tid" using that Some by (auto simp: sess_ok_def live_session_def)
      then show ?thesis by (auto simp: keeps_at_def only_tid_def hold_frame_def Let_def)
    qed
    ultimately have "keeps_at tid s (hold_frame env tid skb t s)" by blast
    then show ?thesis using True Some by (simp add: ieee80211_tx_prep_agg_def)
  qed (use Some u in \<open>auto simp: ieee80211_tx_prep_agg_def\<close>)
qed (simp add: ieee80211_tx_prep_agg_def)

lemma bar_keeps:
  "keeps_at tid s (ieee80211_set_bar_pending tid x s)" "keeps_at tid s (ieee80211_check_pending_bar tid s)"
proof -
  have "keeps_at tid s (upd_tid_tx tid (\<lambda>t. t\<lparr>tt_bar_pending := b\<rparr>) s)"
    "keeps_at tid s (upd_tid_tx tid (\<lambda>t. t\<lparr>tt_failed_bar_ssn := x, tt_bar_pending := b\<rparr>) s)" for b x
    by (auto simp: keeps_at_def only_tid_def sess_defs split: option.splits)
  then show "keeps_at tid s (ieee80211_set_bar_pending tid x s)" "keeps_at tid s (ieee80211_check_pending_bar tid s)"
    by (simp_all add: ieee80211_set_bar_pending_def ieee80211_check_pending_bar_def split: option.split)
qed

end
