(* ===== verification/AggTxLog.thy ===== *)
theory AggTxLog
  imports AggTxInv "HOL-Library.Sublist" "HOL-Library.Multiset"
begin

text \<open>
  What the operations on transmit block-ack sessions ask of others: the calls of the driver,
  the ADDBA requests, the frames passed on, the sessions freed. One relation between the
  states before and after collects what holds of every operation on one traffic identifier,
  so that it is proved once for each operation and composed.
\<close>

section \<open>Projections of the effects\<close>

fun eff_tid :: "tx_effect \<Rightarrow> nat option" where
  "eff_tid (DrvAmpduTx p) = Some (ap_tid p)"
| "eff_tid (SendAddbaRequest tid _ _ _ _) = Some tid"
| "eff_tid (SpliceTx tid _) = Some tid"
| "eff_tid (PurgeTxSkb tid _) = Some tid"
| "eff_tid _ = None"

fun eff_call :: "nat \<Rightarrow> tx_effect \<Rightarrow> ampdu_action list" where
  "eff_call tid (DrvAmpduTx p) = (if ap_tid p = tid then [ap_action p] else [])"
| "eff_call tid _ = []"

fun eff_request :: "nat \<Rightarrow> tx_effect \<Rightarrow> nat" where
  "eff_request tid (SendAddbaRequest x _ _ _ _) = (if x = tid then 1 else 0)"
| "eff_request tid _ = 0"

fun eff_passed :: "nat \<Rightarrow> tx_effect \<Rightarrow> nat list" where
  "eff_passed tid (SpliceTx x skbs) = (if x = tid then map ts_id skbs else [])"
| "eff_passed tid _ = []"

fun eff_purged :: "nat \<Rightarrow> tx_effect \<Rightarrow> nat list" where
  "eff_purged tid (PurgeTxSkb x skb) = (if x = tid then [ts_id skb] else [])"
| "eff_purged tid _ = []"

fun eff_quiet :: "tx_effect \<Rightarrow> bool" where
  "eff_quiet (FreeTidTx t) = (tt_session_timer t = None \<and> tt_addba_resp_timer t = None \<and> tt_pending t = [])"
| "eff_quiet _ = True"

definition drv_calls :: "nat \<Rightarrow> tx_effect list \<Rightarrow> ampdu_action list" where
  "drv_calls tid effs = concat (map (eff_call tid) effs)"

definition requests :: "nat \<Rightarrow> tx_effect list \<Rightarrow> nat" where
  "requests tid effs = sum_list (map (eff_request tid) effs)"

definition passed_ids :: "nat \<Rightarrow> tx_effect list \<Rightarrow> nat list" where
  "passed_ids tid effs = concat (map (eff_passed tid) effs)"

definition purged_ids :: "nat \<Rightarrow> tx_effect list \<Rightarrow> nat list" where
  "purged_ids tid effs = concat (map (eff_purged tid) effs)"

definition waiting_ids :: "nat \<Rightarrow> sta_tx \<Rightarrow> nat list" where
  "waiting_ids tid s = (case tid_tx s tid of None \<Rightarrow> [] | Some t \<Rightarrow> map ts_id (tt_pending t))"

lemma projections_simps [simp]:
  "drv_calls tid [] = []" "drv_calls tid (e # es) = eff_call tid e @ drv_calls tid es"
  "drv_calls tid (xs @ ys) = drv_calls tid xs @ drv_calls tid ys"
  "requests tid [] = 0" "requests tid (e # es) = eff_request tid e + requests tid es"
  "requests tid (xs @ ys) = requests tid xs + requests tid ys"
  "passed_ids tid [] = []" "passed_ids tid (e # es) = eff_passed tid e @ passed_ids tid es"
  "passed_ids tid (xs @ ys) = passed_ids tid xs @ passed_ids tid ys"
  "purged_ids tid [] = []" "purged_ids tid (e # es) = eff_purged tid e @ purged_ids tid es"
  "purged_ids tid (xs @ ys) = purged_ids tid xs @ purged_ids tid ys"
  by (simp_all add: drv_calls_def requests_def passed_ids_def purged_ids_def)

text \<open>Effects of another traffic identifier do not show.\<close>

definition effs_of :: "nat \<Rightarrow> tx_effect list \<Rightarrow> bool" where
  "effs_of tid effs \<longleftrightarrow> list_all (\<lambda>e. eff_tid e = None \<or> eff_tid e = Some tid) effs"

lemma effs_of_simps [simp]:
  "effs_of tid []" "effs_of tid (e # es) \<longleftrightarrow> (eff_tid e = None \<or> eff_tid e = Some tid) \<and> effs_of tid es"
  "effs_of tid (xs @ ys) \<longleftrightarrow> effs_of tid xs \<and> effs_of tid ys"
  by (auto simp: effs_of_def)

lemma other_effs:
  "effs_of tid effs \<Longrightarrow> x \<noteq> tid \<Longrightarrow>
     drv_calls x effs = [] \<and> requests x effs = 0 \<and> passed_ids x effs = [] \<and> purged_ids x effs = []"
proof (induction effs)
  case (Cons e es)
  then show ?case by (cases e) auto
qed simp

section \<open>The driver's view\<close>

text \<open>What the driver has been told of a session, and the calls it may expect (\<open>enum ieee80211_ampdu_mlme_action\<close>).\<close>

datatype drv_state = DrvIdle | DrvStarted | DrvOperational | DrvStopping

fun drv_next :: "drv_state \<Rightarrow> ampdu_action \<Rightarrow> drv_state set" where
  "drv_next DrvIdle IEEE80211_AMPDU_TX_START = {DrvStarted, DrvIdle}"
| "drv_next DrvStarted IEEE80211_AMPDU_TX_OPERATIONAL = {DrvOperational}"
| "drv_next DrvStarted IEEE80211_AMPDU_TX_STOP_CONT = {DrvStopping}"
| "drv_next DrvStarted IEEE80211_AMPDU_TX_STOP_FLUSH = {DrvStopping}"
| "drv_next DrvOperational IEEE80211_AMPDU_TX_STOP_CONT = {DrvStopping}"
| "drv_next DrvOperational IEEE80211_AMPDU_TX_STOP_FLUSH = {DrvStopping}"
| "drv_next DrvStopping IEEE80211_AMPDU_TX_STOP_FLUSH_CONT = {DrvStopping}"
| "drv_next _ _ = {}"

text \<open>A path of calls; between two calls the driver may report the end of a stop.\<close>

inductive drv_path :: "drv_state \<Rightarrow> ampdu_action list \<Rightarrow> drv_state \<Rightarrow> bool" where
  path_nil [intro]: "drv_path d [] d"
| path_call: "d' \<in> drv_next d a \<Longrightarrow> drv_path d' as d'' \<Longrightarrow> drv_path d (a # as) d''"
| path_stopped: "drv_path DrvIdle as d \<Longrightarrow> drv_path DrvStopping as d"

inductive_cases drv_path_ConsE: "drv_path d (a # as) d'"

lemma drv_path_append: "drv_path d as d' \<Longrightarrow> drv_path d' bs d'' \<Longrightarrow> drv_path d (as @ bs) d''"
  by (induction rule: drv_path.induct) (auto intro: drv_path.intros)

lemma drv_path_one: "d' \<in> drv_next d a \<Longrightarrow> drv_path d [a] d'"
  by (auto intro: drv_path.intros)

lemma drv_path_end: "drv_path DrvStopping [] DrvIdle"
  by (auto intro: drv_path.intros)

definition drv_view :: "nat \<Rightarrow> sta_tx \<Rightarrow> drv_state" where
  "drv_view tid s =
     (case tid_tx s tid of
        None \<Rightarrow> DrvIdle
      | Some t \<Rightarrow> if tt_state t HT_AGG_STATE_STOPPING then DrvStopping
          else if tt_state t HT_AGG_STATE_OPERATIONAL then DrvOperational else DrvStarted)"

section \<open>One relation for every operation\<close>

definition dead_at :: "nat \<Rightarrow> sta_tx \<Rightarrow> bool" where
  "dead_at tid s \<longleftrightarrow> stx_block_ba s \<and> tid_start_tx s tid = None \<and>
     (\<forall>t. tid_tx s tid = Some t \<longrightarrow> tt_state t HT_AGG_STATE_STOPPING)"

text \<open>\<open>counting\<close> says that the operation is not one that resets the count of requests.\<close>

definition log_rel :: "bool \<Rightarrow> nat \<Rightarrow> sta_tx \<Rightarrow> sta_tx \<Rightarrow> tx_effect list \<Rightarrow> bool" where
  "log_rel counting tid s s' effs \<longleftrightarrow>
     stx_out s' = stx_out s @ effs \<and> effs_of tid effs \<and> list_all eff_quiet effs \<and>
     (counting \<longrightarrow> unat (addba_req_num s' tid) = unat (addba_req_num s tid) + requests tid effs) \<and>
     waiting_ids tid s = passed_ids tid effs @ waiting_ids tid s' \<and> purged_ids tid effs = [] \<and>
     drv_path (drv_view tid s) (drv_calls tid effs) (drv_view tid s') \<and>
     (dead_at tid s \<longrightarrow> dead_at tid s')"

definition good :: "bool \<Rightarrow> nat \<Rightarrow> sta_tx \<Rightarrow> sta_tx \<Rightarrow> bool" where
  "good counting tid s s' \<longleftrightarrow> keeps_at tid s s' \<and> (sess_at s tid \<longrightarrow> (\<exists>effs. log_rel counting tid s s' effs))"

lemma good_refl [simp]: "good counting tid s s"
proof -
  have "log_rel counting tid s s []" by (auto simp: log_rel_def)
  then show ?thesis by (auto simp: good_def)
qed

lemma log_rel_trans:
  "log_rel c tid s s1 xs \<Longrightarrow> log_rel c tid s1 s2 ys \<Longrightarrow> log_rel c tid s s2 (xs @ ys)"
  by (auto simp: log_rel_def intro: drv_path_append)

lemma good_trans: "good c tid s s1 \<Longrightarrow> good c tid s1 s2 \<Longrightarrow> good c tid s s2"
  unfolding good_def using keeps_trans log_rel_trans by (metis keeps_at_def)

text \<open>A change of the session that touches nothing the relation speaks of.\<close>

lemma good_silent:
  assumes "keeps_at tid s s'" "stx_out s' = stx_out s" "addba_req_num s' tid = addba_req_num s tid"
    and "waiting_ids tid s' = waiting_ids tid s" "drv_view tid s' = drv_view tid s" "dead_at tid s \<Longrightarrow> dead_at tid s'"
  shows "good c tid s s'"
proof -
  have "log_rel c tid s s' []" using assms by (auto simp: log_rel_def)
  then show ?thesis using assms(1) by (auto simp: good_def)
qed

lemma good_effs:
  assumes "keeps_at tid s s'" "sess_at s tid \<Longrightarrow> log_rel c tid s s' effs" shows "good c tid s s'"
  using assms by (auto simp: good_def)

lemmas log_defs = log_rel_def waiting_ids_def drv_view_def dead_at_def spliced_def

end
