(* ===== verification/AggTxOps.thy ===== *)
theory AggTxOps
  imports AggTxLog
begin

text \<open>The relation of AggTxLog for each operation.\<close>

declare drv_path_one [simp] drv_path_end [simp] path_nil [simp]

lemma stop_session_good: "good True tid s (snd (stop_tx_ba_session env tid reason s))"
proof -
  let ?s = "snd (stop_tx_ba_session env tid reason s)"
  have "\<exists>effs. log_rel True tid s ?s effs" if "sess_at s tid"
  proof (cases "tid_start_tx s tid")
    case None
    have "\<not> tt_state t HT_AGG_STATE_WANT_START" if "tid_tx s tid = Some t" for t
      using that \<open>sess_at s tid\<close> by (auto simp: sess_ok_def live_session_def)
    with None show ?thesis
      by (cases "tid_tx s tid") (auto simp: stop_tx_ba_session_def Let_def log_defs tx_params_def stop_action_def)
  next
    case (Some n)
    then have "tid_tx s tid = None" "is_new n" using that by (auto simp: sess_ok_def)
    moreover from this(2) have "eff_quiet (FreeTidTx n)" using is_new_fields by simp
    ultimately show ?thesis using Some by (auto simp: stop_tx_ba_session_def Let_def log_defs)
  qed
  then show ?thesis by (simp add: good_def stop_session_keeps)
qed

lemma request_stop_good: "good True tid s (snd (ieee80211_stop_tx_ba_session env tid s))"
proof -
  have "\<exists>effs. log_rel True tid s (snd (ieee80211_stop_tx_ba_session env tid s)) effs"
    by (cases "tid_tx s tid") (auto simp: ieee80211_stop_tx_ba_session_def log_defs)
  then show ?thesis by (simp add: good_def request_stop_keeps)
qed

lemma remove_log:
  assumes "tid_tx s tid = Some t" "tt_state t HT_AGG_STATE_STOPPING" "sess_at s tid"
  shows "\<exists>effs. log_rel True tid s (ieee80211_remove_tid_tx env tid s) effs"
proof -
  have "tt_session_timer t = None" "tt_addba_resp_timer t = None" using assms by (auto simp: sess_ok_def live_session_def)
  then show ?thesis using assms(1,2)
    by (auto simp: ieee80211_remove_tid_tx_def Let_def log_defs)
qed

lemma log_rel_refl: "log_rel c tid s s []"
  by (simp add: log_rel_def)

lemma emit_views [simp]:
  "waiting_ids tid (emit e s) = waiting_ids tid s" "drv_view tid (emit e s) = drv_view tid s" "dead_at tid (emit e s) = dead_at tid s"
  by (simp_all add: waiting_ids_def drv_view_def dead_at_def)

lemma log_rel_delba:
  "log_rel c tid s s' effs \<Longrightarrow> log_rel c tid s (emit (SendTxDelba i x y) s') (effs @ [SendTxDelba i x y])"
  by (simp add: log_rel_def)

lemma stop_cb_good:
  assumes "tid_tx s tid = Some t" shows "good True tid s (ieee80211_stop_tx_ba_cb env tid t s)"
proof (cases "tt_state t HT_AGG_STATE_STOPPING")
  case True
  have "\<exists>effs. log_rel True tid s (ieee80211_stop_tx_ba_cb env tid t s) effs" if a: "sess_at s tid"
  proof -
    obtain effs where "log_rel True tid s (ieee80211_remove_tid_tx env tid s) effs"
      using remove_log [OF assms True a] by blast
    from this log_rel_delba [OF this] show ?thesis using True
      by (auto simp: ieee80211_stop_tx_ba_cb_def Let_def)
  qed
  then show ?thesis using stop_cb_keeps [OF assms] by (simp add: good_def)
qed (simp add: ieee80211_stop_tx_ba_cb_def)

lemma set_agg_good:
  assumes "b \<in> {HT_AGG_STATE_WANT_STOP, HT_AGG_STATE_START_CB, HT_AGG_STATE_STOP_CB}"
  shows "good c tid s (upd_tid_tx tid (set_agg b v) s)"
  by (rule good_silent [OF set_agg_keeps [OF assms]])
    (use assms in \<open>auto simp: waiting_ids_def drv_view_def dead_at_def split: option.split\<close>)

lemma on_note_good:
  assumes "\<And>t s'. tid_tx s' tid = Some t \<Longrightarrow> s' = upd_tid_tx tid (set_agg b False) s \<Longrightarrow> good c tid s' (f t s')"
    and "b \<in> {HT_AGG_STATE_WANT_STOP, HT_AGG_STATE_START_CB, HT_AGG_STATE_STOP_CB}"
  shows "good c tid s (on_note b tid f s)"
proof (cases "tid_tx s tid")
  case (Some t)
  let ?s = "upd_tid_tx tid (set_agg b False) s"
  have "good c tid ?s (f (set_agg b False t) ?s)" by (rule assms(1)) (simp_all add: Some)
  then show ?thesis using good_trans [OF set_agg_good [OF assms(2)]] by (simp add: on_note_def Some)
qed (simp add: on_note_def)

lemma operational_log:
  assumes "tid_tx s tid = Some t" "\<not> tt_state t HT_AGG_STATE_STOPPING" "\<not> tt_state t HT_AGG_STATE_OPERATIONAL"
  shows "\<exists>effs. log_rel True tid s (ieee80211_agg_tx_operational env tid u s) effs"
  using assms by (auto simp: ieee80211_agg_tx_operational_def Let_def log_defs tx_params_def)

text \<open>A callback of the driver that comes too late: the session is being stopped and the peer has answered.\<close>

definition late_start_cb :: "nat \<Rightarrow> sta_tx \<Rightarrow> bool" where
  "late_start_cb tid s \<longleftrightarrow>
     (case tid_tx s tid of None \<Rightarrow> False
      | Some t \<Rightarrow> tt_state t HT_AGG_STATE_START_CB \<and> tt_state t HT_AGG_STATE_STOPPING \<and>
          tt_state t HT_AGG_STATE_RESPONSE_RECEIVED \<and> \<not> tt_state t HT_AGG_STATE_DRV_READY)"

lemma start_cb_good:
  assumes t: "tid_tx s tid = Some t"
    and n: "\<not> (tt_state t HT_AGG_STATE_STOPPING \<and> tt_state t HT_AGG_STATE_RESPONSE_RECEIVED \<and> \<not> tt_state t HT_AGG_STATE_DRV_READY)"
  shows "good True tid s (ieee80211_start_tx_ba_cb env tid t s)"
proof -
  let ?t = "set_agg HT_AGG_STATE_DRV_READY True t" and ?s = "upd_tid_tx tid (set_agg HT_AGG_STATE_DRV_READY True) s"
  have "\<exists>effs. log_rel True tid s (ieee80211_start_tx_ba_cb env tid t s) effs" if a: "sess_at s tid"
  proof (cases "tt_state t HT_AGG_STATE_DRV_READY")
    case True
    then show ?thesis using log_rel_refl by (auto simp: ieee80211_start_tx_ba_cb_def)
  next
    case False
    have l: "log_rel True tid s ?s []" using t by (auto simp: log_rel_def waiting_ids_def drv_view_def dead_at_def)
    have o: "\<not> tt_state t HT_AGG_STATE_OPERATIONAL" using a t False by (auto simp: sess_ok_def live_session_def)
    have "\<exists>effs. log_rel True tid ?s (ieee80211_agg_tx_operational env tid ?t ?s) effs" if "tt_state t HT_AGG_STATE_RESPONSE_RECEIVED"
      using operational_log [where s = ?s and tid = tid and t = ?t and u = ?t and env = env] t n False that o by simp
    then show ?thesis using False l log_rel_trans [OF l] by (auto simp: ieee80211_start_tx_ba_cb_def Let_def)
  qed
  then show ?thesis using start_cb_keeps [OF t] by (simp add: good_def)
qed

lemma handle_start_log:
  assumes "sess_at s tid" "tid_start_tx s tid = Some n"
  shows "\<exists>effs. log_rel True tid s (ieee80211_tx_ba_session_handle_start env tid n
    (ieee80211_assign_tid_tx tid (Some n) (s\<lparr>tid_start_tx := (tid_start_tx s)(tid := None)\<rparr>))) effs"
proof -
  have n: "is_new n" "addba_req_num s tid \<le> HT_AGG_MAX_RETRIES" "tid_tx s tid = None" using assms by (auto simp: sess_ok_def)
  have k: "unat (addba_req_num s tid + 1) = unat (addba_req_num s tid) + 1"
    using n(2) by (simp add: HT_AGG_MAX_RETRIES_def word_le_nat_alt unat_word_ariths)
  have f: "tt_state n = (\<lambda>b. b = HT_AGG_STATE_WANT_START)" "tt_pending n = []" "tt_session_timer n = None" "tt_addba_resp_timer n = None"
    using is_new_fields [OF n(1)] by simp_all
  show ?thesis
    using assms n(3) k f
    by (auto simp: ieee80211_tx_ba_session_handle_start_def Let_def log_defs tx_params_def)
qed

lemma work_good:
  assumes "\<not> (\<not> blocked \<and> late_start_cb tid s)" shows "good True tid s (ba_work_tx env blocked tid s)"
proof (cases "\<not> blocked \<and> (\<exists>n. tid_start_tx s tid = Some n)")
  case True
  then obtain n where n: "\<not> blocked" "tid_start_tx s tid = Some n" by blast
  have "\<exists>effs. log_rel True tid s (ba_work_tx env blocked tid s) effs" if "sess_at s tid"
    using n handle_start_log [OF that n(2), of env] that by (auto simp: ba_work_tx_def Let_def sess_ok_def)
  then show ?thesis using work_keeps by (simp add: good_def)
next
  case False
  define s1 where "s1 = (if \<not> blocked then on_note HT_AGG_STATE_START_CB tid (ieee80211_start_tx_ba_cb env tid) s else s)"
  define s2 where "s2 = on_note HT_AGG_STATE_WANT_STOP tid (\<lambda>t s. snd (stop_tx_ba_session env tid AGG_STOP_LOCAL_REQUEST s)) s1"
  have "ba_work_tx env blocked tid s = on_note HT_AGG_STATE_STOP_CB tid (ieee80211_stop_tx_ba_cb env tid) s2"
    using False by (auto simp: ba_work_tx_def s1_def s2_def Let_def split: bool.split option.split)
  moreover have "good True tid s s1"
  proof (cases "blocked \<or> \<not> noted HT_AGG_STATE_START_CB tid s")
    case True
    then show ?thesis by (auto simp: s1_def on_note_def noted_def split: option.split)
  next
    case nb: False
    have "good True tid s (on_note HT_AGG_STATE_START_CB tid (ieee80211_start_tx_ba_cb env tid) s)"
    proof (rule on_note_good)
      fix t s' assume t: "tid_tx s' tid = Some t" and s': "s' = upd_tid_tx tid (set_agg HT_AGG_STATE_START_CB False) s"
      show "good True tid s' (ieee80211_start_tx_ba_cb env tid t s')"
        by (rule start_cb_good [OF t]) (use t s' assms nb in \<open>auto simp: late_start_cb_def noted_def\<close>)
    qed simp
    then show ?thesis using nb by (simp add: s1_def)
  qed
  moreover have "good True tid s1 s2" unfolding s2_def by (rule on_note_good) (simp_all add: stop_session_good)
  moreover have "good True tid s2 (on_note HT_AGG_STATE_STOP_CB tid (ieee80211_stop_tx_ba_cb env tid) s2)"
    by (rule on_note_good) (simp_all add: stop_cb_good)
  ultimately show ?thesis using good_trans by metis
qed

lemma good_weaken: "good True tid s s' \<Longrightarrow> good c tid s s'"
  by (auto simp: good_def log_rel_def)

text \<open>Changes of fields the relation does not speak of.\<close>

definition same_agg :: "tid_ampdu_tx \<Rightarrow> tid_ampdu_tx \<Rightarrow> bool" where
  "same_agg t t' \<longleftrightarrow> tt_pending t' = tt_pending t \<and>
     tt_state t' HT_AGG_STATE_STOPPING = tt_state t HT_AGG_STATE_STOPPING \<and>
     tt_state t' HT_AGG_STATE_OPERATIONAL = tt_state t HT_AGG_STATE_OPERATIONAL"

lemma upd_good:
  assumes "keeps_at tid s (upd_tid_tx tid f s)" "\<And>t. tid_tx s tid = Some t \<Longrightarrow> same_agg t (f t)"
  shows "good c tid s (upd_tid_tx tid f s)"
  by (rule good_silent [OF assms(1)])
    (use assms(2) in \<open>auto simp: same_agg_def waiting_ids_def drv_view_def dead_at_def split: option.split\<close>)

lemma accept_good:
  assumes "tid_tx s tid = Some t" "tt_addba_resp_timer t = None" "\<not> tt_state t HT_AGG_STATE_STOPPING"
  shows "good False tid s (accept_addba_resp env tid bsize amsdu timeout t s)"
proof (cases "tt_state t HT_AGG_STATE_RESPONSE_RECEIVED")
  case False
  define answered where "answered = (\<lambda>t. set_agg HT_AGG_STATE_RESPONSE_RECEIVED True t\<lparr>tt_buf_size := bsize, tt_amsdu := amsdu\<rparr>)"
  define s1 where "s1 = upd_tid_tx tid answered s"
  define s2 where "s2 = (if tt_state t HT_AGG_STATE_DRV_READY then ieee80211_agg_tx_operational env tid (answered t) s1 else s1)"
  define s3 where "s3 = upd_tid_tx tid (\<lambda>t. t\<lparr>tt_timeout := timeout\<rparr>) (s2\<lparr>addba_req_num := (addba_req_num s2)(tid := 0)\<rparr>)"
  define s4 where "s4 = (if timeout \<noteq> 0
      then upd_tid_tx tid (\<lambda>t. t\<lparr>tt_session_timer := Some (ae_jiffies env + ae_tu_to_jiffies env timeout), tt_last_tx := ae_jiffies env\<rparr>) s3
      else s3)"
  have e: "accept_addba_resp env tid bsize amsdu timeout t s = s4"
    using False by (simp add: accept_addba_resp_def Let_def answered_def s1_def s2_def s3_def s4_def)
  have "\<exists>effs. log_rel False tid s s4 effs" if a: "sess_at s tid"
  proof -
    have o: "\<not> tt_state t HT_AGG_STATE_OPERATIONAL" using a assms(1) False by (auto simp: sess_ok_def live_session_def)
    have l1: "log_rel False tid s s1 []"
      using assms(1,3) by (auto simp: log_rel_def s1_def answered_def waiting_ids_def drv_view_def dead_at_def)
    have t1: "tid_tx s1 tid = Some (answered t)" using assms(1) by (simp add: s1_def)
    have "\<exists>effs. log_rel True tid s1 s2 effs"
      using operational_log [where s = s1 and tid = tid and t = "answered t" and u = "answered t" and env = env] t1 assms(3) o log_rel_refl
      by (auto simp: s2_def answered_def)
    then obtain xs where "log_rel False tid s1 s2 xs" by (auto simp: log_rel_def)
    then have l2: "log_rel False tid s s2 xs" using log_rel_trans [OF l1] by simp
    have "log_rel False tid s2 s4 []"
      by (auto simp: log_rel_def s3_def s4_def waiting_ids_def drv_view_def dead_at_def split: option.split)
    then show ?thesis using log_rel_trans [OF l2] by blast
  qed
  then show ?thesis using accept_keeps [OF assms] by (simp add: good_def e [symmetric])
qed (simp add: accept_addba_resp_def)

lemma resp_good: "good False (resp_tid capab) s (ieee80211_process_addba_resp env token capab status timeout s)"
proof -
  define tid where "tid = resp_tid capab"
  define s1 where "s1 = note_no_amsdu (capab AND 1 \<noteq> 0) tid s"
  define bsize where "bsize = min (drop_bit 6 (capab AND 0xFFC0)) (ae_max_tx_aggregation_subframes env)"
  have k1: "good False tid s s1" unfolding s1_def
    by (rule good_silent [OF note_no_amsdu_keeps]) (simp_all add: waiting_ids_def drv_view_def dead_at_def)
  show ?thesis
  proof (cases "tid_tx s1 tid")
    case None
    then show ?thesis using k1 by (simp add: ieee80211_process_addba_resp_def Let_def s1_def tid_def resp_tid_def)
  next
    case (Some t)
    define s2 where "s2 = upd_tid_tx tid (\<lambda>t. t\<lparr>tt_addba_resp_timer := None\<rparr>) s1"
    have "good False tid s1 s2" unfolding s2_def
      by (rule upd_good) (auto simp: same_agg_def keeps_at_def only_tid_def sess_defs split: option.splits)
    then have k2: "good False tid s s2" using good_trans [OF k1] by blast
    have t2: "tid_tx s2 tid = Some (t\<lparr>tt_addba_resp_timer := None\<rparr>)" using Some by (simp add: s2_def)
    have "ieee80211_process_addba_resp env token capab status timeout s =
      (if token \<noteq> tt_dialog_token t then s1
       else if tt_state t HT_AGG_STATE_WANT_STOP \<or> tt_state t HT_AGG_STATE_STOPPING then s2
       else if status = WLAN_STATUS_SUCCESS \<and> bsize \<noteq> 0
       then accept_addba_resp env tid bsize (capab AND 1 \<noteq> 0) timeout (t\<lparr>tt_addba_resp_timer := None\<rparr>) s2
       else snd (stop_tx_ba_session env tid AGG_STOP_DECLINED s2))"
      using Some by (simp add: ieee80211_process_addba_resp_def Let_def s1_def s2_def tid_def resp_tid_def bsize_def)
    then show ?thesis
      using k1 k2 good_trans [OF k2 good_weaken [OF stop_session_good]] good_trans [OF k2 accept_good [OF t2]]
      by (simp add: tid_def [symmetric])
  qed
qed

lemma timer_good:
  "good True tid s (sta_addba_resp_timer_expired env tid s)" "good True tid s (sta_tx_agg_session_timer_expired env tid s)"
proof -
  let ?a = "upd_tid_tx tid (\<lambda>t. t\<lparr>tt_addba_resp_timer := None\<rparr>) s" and ?b = "upd_tid_tx tid (\<lambda>t. t\<lparr>tt_session_timer := None\<rparr>) s"
  have a: "good True tid s ?a" and b: "good True tid s ?b"
    by (rule upd_good; auto simp: same_agg_def keeps_at_def only_tid_def sess_defs split: option.splits)+
  show "good True tid s (sta_addba_resp_timer_expired env tid s)"
    using a good_trans [OF a request_stop_good]
    by (simp add: sta_addba_resp_timer_expired_def Let_def split: option.split)
  show "good True tid s (sta_tx_agg_session_timer_expired env tid s)"
  proof (cases "\<exists>t. tid_tx s tid = Some t \<and> tt_session_timer t \<noteq> None \<and> \<not> tt_state t HT_AGG_STATE_STOPPING \<and>
      time_before (ae_jiffies env) (tt_last_tx t + ae_tu_to_jiffies env (tt_timeout t))")
    case True
    then show ?thesis using timer_keeps(2) [of tid s env]
      by (intro good_silent)
        (auto simp: sta_tx_agg_session_timer_expired_def Let_def waiting_ids_def drv_view_def dead_at_def)
  next
    case False
    then show ?thesis using b good_trans [OF b request_stop_good]
      by (auto simp: sta_tx_agg_session_timer_expired_def Let_def split: option.split)
  qed
qed

lemma start_good: "good True tid s (snd (ieee80211_start_tx_ba_session env tid timeout s))"
proof (cases "start_refused env tid s")
  case None
  then have "\<not> stx_block_ba s" by (auto simp: start_refused_def split: if_splits)
  then have "log_rel True tid s (snd (ieee80211_start_tx_ba_session env tid timeout s)) [QueueBaWork]"
    using None by (simp add: ieee80211_start_tx_ba_session_def Let_def log_rel_def)
      (simp add: waiting_ids_def drv_view_def dead_at_def)
  then show ?thesis using start_keeps by (auto simp: good_def)
qed (simp add: ieee80211_start_tx_ba_session_def)

lemma note_cb_good:
  assumes "b \<in> {HT_AGG_STATE_WANT_STOP, HT_AGG_STATE_START_CB, HT_AGG_STATE_STOP_CB}"
  shows "good True tid s (note_cb b tid s)"
proof -
  have "\<exists>effs. log_rel True tid s (note_cb b tid s) effs"
    using assms by (auto simp: note_cb_def log_rel_def waiting_ids_def drv_view_def dead_at_def)
  then show ?thesis using note_cb_keeps [OF assms] by (simp add: good_def)
qed

lemma bar_good:
  "good True tid s (ieee80211_set_bar_pending tid x s)" "good True tid s (ieee80211_check_pending_bar tid s)"
proof -
  show "good True tid s (ieee80211_set_bar_pending tid x s)"
    unfolding ieee80211_set_bar_pending_def
    by (rule upd_good [OF bar_keeps(1) [unfolded ieee80211_set_bar_pending_def]]) (simp add: same_agg_def)
  have "\<exists>effs. log_rel True tid s (ieee80211_check_pending_bar tid s) effs"
    by (cases "tid_tx s tid")
      (auto simp: ieee80211_check_pending_bar_def log_rel_def waiting_ids_def drv_view_def dead_at_def)
  then show "good True tid s (ieee80211_check_pending_bar tid s)" using bar_keeps(2) by (simp add: good_def)
qed

section \<open>Frames held back\<close>

text \<open>A frame that is held goes to the end; over the limit the oldest leaves.\<close>

definition held_rel :: "nat \<Rightarrow> tx_skb \<Rightarrow> sta_tx \<Rightarrow> bool \<Rightarrow> sta_tx \<Rightarrow> tx_effect list \<Rightarrow> bool" where
  "held_rel tid skb s queued s' effs \<longleftrightarrow>
     stx_out s' = stx_out s @ effs \<and> effs_of tid effs \<and> list_all eff_quiet effs \<and>
     addba_req_num s' tid = addba_req_num s tid \<and> requests tid effs = 0 \<and>
     passed_ids tid effs = [] \<and> drv_calls tid effs = [] \<and> drv_view tid s' = drv_view tid s \<and> (dead_at tid s \<longrightarrow> dead_at tid s') \<and>
     waiting_ids tid s @ (if queued then [ts_id skb] else []) = purged_ids tid effs @ waiting_ids tid s'"

lemma prep_agg_held:
  assumes "ieee80211_tx_prep_agg env tid skb s = (queued, skb', s')"
  shows "\<exists>effs. held_rel tid skb s queued s' effs"
proof (cases "tid_tx s tid")
  case None
  then show ?thesis using assms by (auto simp: ieee80211_tx_prep_agg_def held_rel_def)
next
  case (Some t)
  consider "tt_state t HT_AGG_STATE_OPERATIONAL" | "queued" "s' = hold_frame env tid skb t s" | "\<not> queued" "s' = s"
    using assms Some by (auto simp: ieee80211_tx_prep_agg_def split: if_splits)
  then show ?thesis
  proof cases
    case 1
    then show ?thesis using assms Some
      by (auto simp: ieee80211_tx_prep_agg_def held_rel_def waiting_ids_def drv_view_def dead_at_def)
  next
    case 2
    let ?x = "skb\<lparr>ts_vif := Some (ae_vif env),
      ts_flags := (ts_flags skb OR IEEE80211_TX_INTFL_NEED_TXPROCESSING) AND NOT IEEE80211_TX_TEMPORARY_FLAGS\<rparr>"
    have "map ts_id (tt_pending t @ [?x]) = ts_id (hd (tt_pending t @ [?x])) # map ts_id (tl (tt_pending t @ [?x]))"
      by (cases "tt_pending t") simp_all
    then show ?thesis using 2 Some
      by (cases "STA_MAX_TX_BUFFER < Suc (length (tt_pending t))")
        (auto simp: hold_frame_def Let_def held_rel_def waiting_ids_def drv_view_def dead_at_def)
  next
    case 3
    then show ?thesis by (auto simp: held_rel_def)
  qed
qed

end
