(* ===== verification/AggTxRun.thy ===== *)
theory AggTxRun
  imports AggTxOps
begin

text \<open>
  The transmit block-ack sessions of a station as a machine. Its inputs are the calls of
  rate control and of userspace, the driver's callbacks, the frames of the peer, the timers, the session work, the
  transmit path and the end of the station, in any order. The work and the teardown run over the
  traffic identifiers one by one; each is an input of its own, so that what takes only
  the station's lock can come between them. The work carries the flag it read before its loop, which may have
  changed since.
\<close>

section \<open>The machine\<close>

datatype agg_event =
    StartSession nat u16
  | StopSession nat
  | DriverStarted nat
  | DriverStopped nat
  | AddbaResponse u8 u16 u16 u16
  | TxDelba u16
  | SessionWork bool nat
  | ResponseTimer nat
  | SessionTimer nat
  | DataFrame nat tx_skb
  | BarFailed nat u16
  | PendingBar nat
  | StopOne nat ieee80211_agg_stop_reason
  | DestroyStopped nat
  | BlockBa bool

fun sess_step :: "sta_tx \<Rightarrow> agg_env \<times> agg_event \<Rightarrow> sta_tx" where
  "sess_step s (env, StartSession tid timeout) = snd (ieee80211_start_tx_ba_session env tid timeout s)"
| "sess_step s (env, StopSession tid) = snd (ieee80211_stop_tx_ba_session env tid s)"
| "sess_step s (env, DriverStarted tid) = ieee80211_start_tx_ba_cb_irqsafe tid s"
| "sess_step s (env, DriverStopped tid) = ieee80211_stop_tx_ba_cb_irqsafe tid s"
| "sess_step s (env, AddbaResponse token capab status timeout) = ieee80211_process_addba_resp env token capab status timeout s"
| "sess_step s (env, TxDelba params) = process_delba_tx env params s"
| "sess_step s (env, SessionWork blocked tid) = ba_work_tx env blocked tid s"
| "sess_step s (env, ResponseTimer tid) = sta_addba_resp_timer_expired env tid s"
| "sess_step s (env, SessionTimer tid) = sta_tx_agg_session_timer_expired env tid s"
| "sess_step s (env, DataFrame tid skb) = snd (snd (ieee80211_tx_prep_agg env tid skb s))"
| "sess_step s (env, BarFailed tid x) = ieee80211_set_bar_pending tid x s"
| "sess_step s (env, PendingBar tid) = ieee80211_check_pending_bar tid s"
| "sess_step s (env, StopOne tid reason) = snd (stop_tx_ba_session env tid reason s)"
| "sess_step s (env, DestroyStopped tid) = on_note HT_AGG_STATE_STOP_CB tid (ieee80211_stop_tx_ba_cb env tid) s"
| "sess_step s (env, BlockBa b) = s\<lparr>stx_block_ba := b\<rparr>"

fun agg_tid :: "agg_event \<Rightarrow> nat" where
  "agg_tid (StartSession tid _) = tid"
| "agg_tid (StopSession tid) = tid"
| "agg_tid (DriverStarted tid) = tid"
| "agg_tid (DriverStopped tid) = tid"
| "agg_tid (AddbaResponse _ capab _ _) = resp_tid capab"
| "agg_tid (TxDelba params) = unat (drop_bit 12 (params AND 0xF000))"
| "agg_tid (SessionWork _ tid) = tid"
| "agg_tid (ResponseTimer tid) = tid"
| "agg_tid (SessionTimer tid) = tid"
| "agg_tid (DataFrame tid _) = tid"
| "agg_tid (BarFailed tid _) = tid"
| "agg_tid (PendingBar tid) = tid"
| "agg_tid (StopOne tid _) = tid"
| "agg_tid (DestroyStopped tid) = tid"
| "agg_tid (BlockBa _) = 0"

text \<open>The loops of the code are runs of these inputs.\<close>

lemma fold_is_run: "fold (\<lambda>x s. step s (f x)) xs s = run step s (map f xs)"
  by (induction xs arbitrary: s) simp_all

lemma work_is_run:
  "ba_session_work_tx env s = run sess_step s (map (\<lambda>tid. (env, SessionWork (stx_block_ba s) tid)) [0..<IEEE80211_NUM_TIDS])"
  by (simp add: ba_session_work_tx_def fold_is_run [symmetric] del: upt_conv_Cons)

definition destroy_events :: "agg_env \<Rightarrow> (agg_env \<times> agg_event) list" where
  "destroy_events env = (env, BlockBa True) #
     map (\<lambda>tid. (env, StopOne tid AGG_STOP_DESTROY_STA)) [0..<IEEE80211_NUM_TIDS] @
     map (\<lambda>tid. (env, DestroyStopped tid)) [0..<IEEE80211_NUM_TIDS]"

lemma run_append: "run step s (xs @ ys) = run step (run step s xs) ys"
  by (induction xs arbitrary: s) simp_all

lemma destroy_is_run: "destroy_ba_sessions env s = run sess_step s (destroy_events env)"
  by (simp add: destroy_ba_sessions_def tear_down_tx_def destroy_events_def run_append fold_is_run [symmetric] Let_def)

section \<open>The invariant\<close>

lemma delba_is_stop:
  "process_delba_tx env params s =
     (if drop_bit 11 (params AND 0x0800) = WLAN_BACK_INITIATOR then s
      else snd (stop_tx_ba_session env (unat (drop_bit 12 (params AND 0xF000))) AGG_STOP_PEER_REQUEST s))"
  by (simp add: process_delba_tx_def Let_def)

lemma step_keeps:
  assumes "\<And>b. snd i \<noteq> BlockBa b" shows "keeps_at (agg_tid (snd i)) s (sess_step s i)"
proof (cases "(s, i)" rule: sess_step.cases)
  case (7 s env blocked tid)
  then show ?thesis by (simp add: work_keeps)
next
  case (14 s env tid)
  then show ?thesis by (auto intro!: on_note_keeps stop_cb_keeps)
next
  case (15 s env b)
  then show ?thesis using assms [of b] by simp
qed (simp_all add: start_keeps request_stop_keeps note_cb_keeps resp_keeps delba_is_stop timer_keeps
   prep_agg_keeps bar_keeps stop_session_keeps ieee80211_start_tx_ba_cb_irqsafe_def ieee80211_stop_tx_ba_cb_irqsafe_def)

definition agg_inv :: "sta_tx \<Rightarrow> bool" where "agg_inv s \<longleftrightarrow> (\<forall>x. sess_at s x)"

interpretation agg_tx: machine sess_step agg_inv "\<lambda>_. True"
proof
  fix s i assume "agg_inv s"
  then show "agg_inv (sess_step s i)"
    using keeps_all [OF step_keeps, of i s] by (cases i; cases "\<exists>b. snd i = BlockBa b") (auto simp: agg_inv_def)
qed

text \<open>A station as it is allocated.\<close>

definition fresh_sta_tx :: "nat \<Rightarrow> bool \<Rightarrow> bool \<Rightarrow> bool \<Rightarrow> (nat \<Rightarrow> bool) \<Rightarrow> (nat \<Rightarrow> u16) \<Rightarrow> tx_local \<Rightarrow> sta_tx" where
  "fresh_sta_tx reserved sp ht he txqs seqs l =
     \<lparr>tid_tx = (\<lambda>_. None), tid_start_tx = (\<lambda>_. None), last_addba_req_time = (\<lambda>_. 0), addba_req_num = (\<lambda>_. 0),
      dialog_token_allocator = 0, stx_tid_seq = seqs, stx_reserved_tid = reserved, stx_block_ba = False, stx_sp = sp,
      stx_ht_supported = ht, stx_has_he = he,
      stx_txq = (\<lambda>tid. if txqs tid then Some \<lparr>sq_stop = False, sq_ampdu = False, sq_no_amsdu = False\<rparr> else None),
      stx_local = l, stx_out = []\<rparr>"

lemma fresh_sta_inv: "agg_inv (fresh_sta_tx reserved sp ht he txqs seqs l)"
  by (simp add: agg_inv_def fresh_sta_tx_def sess_defs)

lemma reachable_inv: "agg_inv (run sess_step (fresh_sta_tx reserved sp ht he txqs seqs l) is)"
  by (rule agg_tx.run_inv [OF fresh_sta_inv]) (simp add: list_all_iff)

section \<open>What a run asks of others\<close>

text \<open>The late callback breaks the driver's protocol and nothing else.\<close>

definition loose_rel :: "nat \<Rightarrow> sta_tx \<Rightarrow> sta_tx \<Rightarrow> tx_effect list \<Rightarrow> bool" where
  "loose_rel tid s s' effs \<longleftrightarrow>
     stx_out s' = stx_out s @ effs \<and> effs_of tid effs \<and> list_all eff_quiet effs \<and>
     unat (addba_req_num s' tid) = unat (addba_req_num s tid) + requests tid effs \<and>
     waiting_ids tid s = passed_ids tid effs @ waiting_ids tid s' \<and> purged_ids tid effs = [] \<and>
     (dead_at tid s \<longrightarrow> dead_at tid s')"

lemma loose_trans: "loose_rel tid s s1 xs \<Longrightarrow> loose_rel tid s1 s2 ys \<Longrightarrow> loose_rel tid s s2 (xs @ ys)"
  by (simp add: loose_rel_def)

lemma log_loose: "log_rel True tid s s' effs \<Longrightarrow> loose_rel tid s s' effs"
  by (simp add: log_rel_def loose_rel_def)

lemma operational_loose:
  "tid_tx s tid = Some t \<Longrightarrow> \<exists>effs. loose_rel tid s (ieee80211_agg_tx_operational env tid u s) effs"
  by (auto simp: ieee80211_agg_tx_operational_def Let_def loose_rel_def waiting_ids_def dead_at_def spliced_def tx_params_def)

lemma late_work_loose:
  assumes "late_start_cb tid s" "sess_at s tid" shows "\<exists>effs. loose_rel tid s (ba_work_tx env False tid s) effs"
proof -
  obtain t where t: "tid_tx s tid = Some t" "tt_state t HT_AGG_STATE_START_CB"
    "tt_state t HT_AGG_STATE_RESPONSE_RECEIVED" "\<not> tt_state t HT_AGG_STATE_DRV_READY"
    using assms(1) by (auto simp: late_start_cb_def split: option.splits)
  have n: "tid_start_tx s tid = None" using assms(2) t(1) by (auto simp: sess_ok_def)
  define s1 where "s1 = upd_tid_tx tid (set_agg HT_AGG_STATE_DRV_READY True) (upd_tid_tx tid (set_agg HT_AGG_STATE_START_CB False) s)"
  define t1 where "t1 = set_agg HT_AGG_STATE_DRV_READY True (set_agg HT_AGG_STATE_START_CB False t)"
  define s2 where "s2 = ieee80211_agg_tx_operational env tid t1 s1"
  define s3 where "s3 = on_note HT_AGG_STATE_WANT_STOP tid (\<lambda>t s. snd (stop_tx_ba_session env tid AGG_STOP_LOCAL_REQUEST s)) s2"
  have w: "ba_work_tx env False tid s = on_note HT_AGG_STATE_STOP_CB tid (ieee80211_stop_tx_ba_cb env tid) s3"
    using t n by (simp add: ba_work_tx_def s3_def s2_def s1_def t1_def on_note_def ieee80211_start_tx_ba_cb_def Let_def)
  have "loose_rel tid s s1 []" using t(1) by (auto simp: loose_rel_def s1_def waiting_ids_def dead_at_def)
  moreover have t1: "tid_tx s1 tid = Some t1" using t(1) by (simp add: s1_def t1_def)
  moreover obtain xs where "loose_rel tid s1 s2 xs" using operational_loose [OF t1] by (auto simp: s2_def)
  moreover have g: "good True tid s2 s3" "good True tid s3 (ba_work_tx env False tid s)" unfolding w s3_def
    by (rule on_note_good; simp add: stop_session_good stop_cb_good)+
  moreover have "sess_at s1 tid" using assms(2) t(1,3) by (auto simp: s1_def sess_defs split: option.splits)
  then have k: "sess_at s2 tid" unfolding s2_def
    by (intro operational_sess [OF t1]) (use t in \<open>simp_all add: t1_def\<close>)
  moreover have "sess_at s3 tid" using g(1) k by (simp add: good_def keeps_at_def)
  moreover obtain ys where "loose_rel tid s2 s3 ys" using g(1) k log_loose unfolding good_def by blast
  moreover obtain zs where "loose_rel tid s3 (ba_work_tx env False tid s) zs"
    using g(2) \<open>sess_at s3 tid\<close> log_loose unfolding good_def by blast
  ultimately show ?thesis using loose_trans by blast
qed

text \<open>What one input may do, seen from one traffic identifier. \<open>h\<close> are the frames held back.\<close>

definition flow :: "nat \<Rightarrow> bool \<Rightarrow> bool \<Rightarrow> sta_tx \<Rightarrow> sta_tx \<Rightarrow> nat list \<Rightarrow> tx_effect list \<Rightarrow> bool" where
  "flow tid counting timely s s' h effs \<longleftrightarrow>
     stx_out s' = stx_out s @ effs \<and> list_all eff_quiet effs \<and>
     (counting \<longrightarrow> unat (addba_req_num s' tid) = unat (addba_req_num s tid) + requests tid effs) \<and>
     mset (waiting_ids tid s @ h) = mset (passed_ids tid effs @ purged_ids tid effs @ waiting_ids tid s') \<and>
     subseq (passed_ids tid effs @ waiting_ids tid s') (waiting_ids tid s @ h) \<and>
     (timely \<longrightarrow> drv_path (drv_view tid s) (drv_calls tid effs) (drv_view tid s'))"

lemma mset_chain:
  fixes a :: "'a multiset"
  assumes "a + b = p + (u + v)" "v + c = q + (w + z)" shows "a + (b + c) = p + (q + (u + (w + z)))"
proof -
  have "a + (b + c) = p + u + (v + c)" using arg_cong [OF assms(1), of "\<lambda>x. x + c"] by (simp add: ac_simps)
  also have "\<dots> = p + (q + (u + (w + z)))" unfolding assms(2) by (simp add: ac_simps)
  finally show ?thesis .
qed

lemma flow_trans:
  assumes "flow tid c d s s1 h1 xs" "flow tid c d s1 s2 h2 ys" shows "flow tid c d s s2 (h1 @ h2) (xs @ ys)"
proof -
  have f: "subseq (passed_ids tid ys @ waiting_ids tid s2) (waiting_ids tid s1 @ h2)"
    and s: "subseq (passed_ids tid xs @ waiting_ids tid s1) (waiting_ids tid s @ h1)"
    using assms by (simp_all add: flow_def)
  have "subseq (passed_ids tid xs @ passed_ids tid ys @ waiting_ids tid s2) (passed_ids tid xs @ waiting_ids tid s1 @ h2)"
    by (rule list_emb_append_mono [OF _ f]) simp
  moreover have "subseq ((passed_ids tid xs @ waiting_ids tid s1) @ h2) ((waiting_ids tid s @ h1) @ h2)"
    using s by (rule list_emb_append_mono) simp
  ultimately have "subseq (passed_ids tid xs @ passed_ids tid ys @ waiting_ids tid s2) ((waiting_ids tid s @ h1) @ h2)"
    using subseq_order.trans by (metis append.assoc)
  moreover have "mset (waiting_ids tid s @ h1 @ h2) = mset (passed_ids tid (xs @ ys) @ purged_ids tid (xs @ ys) @ waiting_ids tid s2)"
    using mset_chain [of "mset (waiting_ids tid s)" "mset h1" "mset (passed_ids tid xs)" "mset (purged_ids tid xs)"
        "mset (waiting_ids tid s1)" "mset h2" "mset (passed_ids tid ys)" "mset (purged_ids tid ys)" "mset (waiting_ids tid s2)"]
      assms by (simp add: flow_def)
  moreover have "d \<Longrightarrow> drv_path (drv_view tid s) (drv_calls tid (xs @ ys)) (drv_view tid s2)"
    using assms drv_path_append by (auto simp: flow_def)
  ultimately show ?thesis using assms by (simp add: flow_def)
qed

lemma flow_refl: "flow tid c d s s [] []"
  by (auto simp: flow_def)

lemma loose_flow: "loose_rel tid s s' effs \<Longrightarrow> flow tid c False s s' [] effs"
  by (simp add: loose_rel_def flow_def)

lemma log_flow: "log_rel c tid s s' effs \<Longrightarrow> flow tid c d s s' [] effs"
  by (simp add: log_rel_def flow_def)

lemma held_flow: "held_rel tid skb s queued s' effs \<Longrightarrow> flow tid c d s s' (if queued then [ts_id skb] else []) effs"
proof -
  assume h: "held_rel tid skb s queued s' effs"
  then have "waiting_ids tid s @ (if queued then [ts_id skb] else []) = purged_ids tid effs @ waiting_ids tid s'"
    by (simp add: held_rel_def)
  then show ?thesis using h by (simp add: held_rel_def flow_def path_nil list_emb_append2)
qed

lemma other_flow:
  assumes "only_tid x s s'" "stx_out s' = stx_out s @ effs" "effs_of x effs" "list_all eff_quiet effs" "tid \<noteq> x"
  shows "flow tid c d s s' [] effs"
proof -
  have "tid_tx s' tid = tid_tx s tid" "addba_req_num s' tid = addba_req_num s tid" using assms(1,5) by (simp_all add: only_tid_def)
  then show ?thesis using assms other_effs [OF assms(3), of tid]
    by (auto simp: flow_def waiting_ids_def drv_view_def)
qed

fun late :: "sta_tx \<Rightarrow> agg_env \<times> agg_event \<Rightarrow> bool" where
  "late s (env, SessionWork blocked tid) = (\<not> blocked \<and> late_start_cb tid s)"
| "late s _ = False"

fun is_response :: "agg_event \<Rightarrow> bool" where
  "is_response (AddbaResponse _ _ _ _) = True"
| "is_response _ = False"

text \<open>The frames an input makes the sessions of a traffic identifier hold back.\<close>

fun held_by :: "nat \<Rightarrow> sta_tx \<Rightarrow> agg_env \<times> agg_event \<Rightarrow> nat list" where
  "held_by x s (env, DataFrame tid skb) = (if x = tid \<and> fst (ieee80211_tx_prep_agg env tid skb s) then [ts_id skb] else [])"
| "held_by x s _ = []"

lemma step_good:
  assumes "\<And>b. snd i \<noteq> BlockBa b" "\<And>x skb. snd i \<noteq> DataFrame x skb" "\<not> late s i"
  shows "good (\<not> is_response (snd i)) (agg_tid (snd i)) s (sess_step s i)"
proof (cases "(s, i)" rule: sess_step.cases)
  case (7 s env blocked tid)
  then show ?thesis using assms(3) by (simp add: work_good)
next
  case (10 s env tid skb)
  then show ?thesis using assms(2) [of tid skb] by simp
next
  case (14 s env tid)
  then show ?thesis by (auto intro!: on_note_good stop_cb_good)
next
  case (15 s env b)
  then show ?thesis using assms(1) [of b] by simp
qed (simp_all add: start_good request_stop_good note_cb_good resp_good delba_is_stop timer_good
   bar_good stop_session_good ieee80211_start_tx_ba_cb_irqsafe_def ieee80211_stop_tx_ba_cb_irqsafe_def)

text \<open>Every input gives a flow at every traffic identifier.\<close>

lemma block_flow: "flow tid c d s (s\<lparr>stx_block_ba := b\<rparr>) [] []"
  by (auto simp: flow_def waiting_ids_def drv_view_def)

lemma session_step_flow:
  assumes "agg_inv s"
  shows "\<exists>effs. flow tid (\<not> is_response (snd i)) (\<not> late s i) s (sess_step s i) (held_by tid s i) effs"
proof -
  consider b where "snd i = BlockBa b" | x skb where "snd i = DataFrame x skb" | "late s i"
    | "\<And>b. snd i \<noteq> BlockBa b" "\<And>x skb. snd i \<noteq> DataFrame x skb" "\<not> late s i" by blast
  then show ?thesis
  proof cases
    case (1 b)
    then show ?thesis by (cases i) (auto intro: block_flow)
  next
    case (2 x skb)
    obtain env where i: "i = (env, DataFrame x skb)" using 2 by (cases i) simp
    obtain q skb' s' where r: "ieee80211_tx_prep_agg env x skb s = (q, skb', s')" by (cases "ieee80211_tx_prep_agg env x skb s") auto
    obtain effs where h: "held_rel x skb s q s' effs" using prep_agg_held [OF r] by blast
    have "only_tid x s s'" using prep_agg_keeps [of x s env skb] r by (simp add: keeps_at_def)
    from other_flow [OF this, of effs] have "tid \<noteq> x \<Longrightarrow> flow tid c d s s' [] effs" for c d
      using h by (simp add: held_rel_def)
    moreover have "tid = x \<Longrightarrow> flow tid c d s s' (if q then [ts_id skb] else []) effs" for c d using held_flow [OF h] by simp
    ultimately show ?thesis using r by (intro exI [of _ effs]; cases "tid = x") (auto simp: i)
  next
    case 3
    then obtain env x where i: "i = (env, SessionWork False x)" by (cases "(s, i)" rule: late.cases) auto
    have l: "late_start_cb x s" using 3 by (simp add: i)
    obtain effs where e: "loose_rel x s (ba_work_tx env False x s) effs"
      using late_work_loose [OF l, of env] assms by (auto simp: agg_inv_def)
    have "tid \<noteq> x \<Longrightarrow> flow tid c False s (ba_work_tx env False x s) [] effs" for c
      by (rule other_flow [where x = x]) (use e work_keeps [of x s env False] in \<open>auto simp: loose_rel_def keeps_at_def\<close>)
    then show ?thesis using loose_flow [OF e] l by (cases "tid = x") (auto simp: i)
  next
    case 4
    let ?x = "agg_tid (snd i)"
    obtain effs where e: "log_rel (\<not> is_response (snd i)) ?x s (sess_step s i) effs" and k: "keeps_at ?x s (sess_step s i)"
      using step_good [of i s] 4 assms by (auto simp: good_def agg_inv_def)
    have "held_by tid s i = []" using 4(2) by (cases "(tid, s, i)" rule: held_by.cases) auto
    moreover have "tid \<noteq> ?x \<Longrightarrow> flow tid c d s (sess_step s i) [] effs" for c d
      by (rule other_flow [where x = ?x]) (use e k in \<open>auto simp: log_rel_def keeps_at_def\<close>)
    ultimately show ?thesis using log_flow [OF e] by (cases "tid = ?x") auto
  qed
qed

fun timely_run :: "sta_tx \<Rightarrow> (agg_env \<times> agg_event) list \<Rightarrow> bool" where
  "timely_run s [] = True"
| "timely_run s (i # is) = (\<not> late s i \<and> timely_run (sess_step s i) is)"

fun held_run :: "nat \<Rightarrow> sta_tx \<Rightarrow> (agg_env \<times> agg_event) list \<Rightarrow> nat list" where
  "held_run tid s [] = []"
| "held_run tid s (i # is) = held_by tid s i @ held_run tid (sess_step s i) is"

lemma flow_weaken: "flow tid c d s s' h effs \<Longrightarrow> (c' \<Longrightarrow> c) \<Longrightarrow> (d' \<Longrightarrow> d) \<Longrightarrow> flow tid c' d' s s' h effs"
  by (simp add: flow_def)

lemma session_run_flow:
  "agg_inv s \<Longrightarrow> \<exists>effs. flow tid (list_all (\<lambda>i. \<not> is_response (snd i)) is) (timely_run s is) s (run sess_step s is) (held_run tid s is) effs"
proof (induction "is" arbitrary: s)
  case Nil
  show ?case using flow_refl by (intro exI [of _ "[]"]) simp
next
  case (Cons i "is")
  have "agg_inv (sess_step s i)" using agg_tx.step_inv [OF Cons.prems] by simp
  then obtain ys where "flow tid (list_all (\<lambda>i. \<not> is_response (snd i)) is) (timely_run (sess_step s i) is) (sess_step s i)
      (run sess_step s (i # is)) (held_run tid (sess_step s i) is) ys"
    using Cons.IH [of "sess_step s i"] by auto
  moreover obtain xs where "flow tid (\<not> is_response (snd i)) (\<not> late s i) s (sess_step s i) (held_by tid s i) xs"
    using session_step_flow [OF Cons.prems] by blast
  ultimately have "flow tid (list_all (\<lambda>i. \<not> is_response (snd i)) (i # is)) (timely_run s (i # is)) s
      (run sess_step s (i # is)) (held_by tid s i @ held_run tid (sess_step s i) is) (xs @ ys)"
    by (intro flow_trans) (auto elim: flow_weaken)
  then show ?case by auto
qed

section \<open>The end of a station\<close>

definition unblocks :: "agg_env \<times> agg_event \<Rightarrow> bool" where "unblocks i \<longleftrightarrow> snd i = BlockBa False"

lemma keeps_dead: "only_tid x s s' \<Longrightarrow> dead_at y s \<Longrightarrow> y \<noteq> x \<Longrightarrow> dead_at y s'"
  by (auto simp: only_tid_def dead_at_def)

lemma step_dead:
  assumes "agg_inv s" "dead_at y s" "\<not> unblocks i" shows "dead_at y (sess_step s i)"
proof -
  consider b where "snd i = BlockBa b" | x skb where "snd i = DataFrame x skb"
    | "late s i" | "\<And>b. snd i \<noteq> BlockBa b" "\<And>x skb. snd i \<noteq> DataFrame x skb" "\<not> late s i" by blast
  then show ?thesis
  proof cases
    case (1 c)
    then show ?thesis using assms(2,3) by (cases i; cases c) (auto simp: unblocks_def dead_at_def)
  next
    case (2 x skb)
    obtain env where i: "i = (env, DataFrame x skb)" using 2 by (cases i) simp
    obtain q skb' s' where r: "ieee80211_tx_prep_agg env x skb s = (q, skb', s')" by (cases "ieee80211_tx_prep_agg env x skb s") auto
    obtain effs where "held_rel x skb s q s' effs" using prep_agg_held [OF r] by blast
    then have "dead_at x s \<Longrightarrow> dead_at x s'" by (simp add: held_rel_def)
    moreover have "only_tid x s s'" using prep_agg_keeps [of x s env skb] r by (simp add: keeps_at_def)
    ultimately show ?thesis using assms(2) keeps_dead r by (cases "y = x") (auto simp: i)
  next
    case 3
    then obtain env x where i: "i = (env, SessionWork False x)" by (cases "(s, i)" rule: late.cases) auto
    have "late_start_cb x s" using 3 by (simp add: i)
    then obtain effs where "loose_rel x s (ba_work_tx env False x s) effs"
      using late_work_loose [of x s env] assms by (auto simp: agg_inv_def)
    then have "dead_at x s \<Longrightarrow> dead_at x (ba_work_tx env False x s)" by (simp add: loose_rel_def)
    moreover have "only_tid x s (ba_work_tx env False x s)" using work_keeps [of x s env False] by (simp add: keeps_at_def)
    ultimately show ?thesis using assms(2) keeps_dead by (cases "y = x") (auto simp: i)
  next
    case 4
    then have g: "good (\<not> is_response (snd i)) (agg_tid (snd i)) s (sess_step s i)" using step_good by blast
    show ?thesis
    proof (cases "y = agg_tid (snd i)")
      case True
      then show ?thesis using g assms(1,2) by (auto simp: good_def log_rel_def agg_inv_def)
    next
      case False
      then show ?thesis using g assms(2) keeps_dead by (auto simp: good_def keeps_at_def)
    qed
  qed
qed

lemma run_dead:
  "agg_inv s \<Longrightarrow> dead_at y s \<Longrightarrow> list_all (\<lambda>i. \<not> unblocks i) is \<Longrightarrow> dead_at y (run sess_step s is)"
proof (induction "is" arbitrary: s)
  case (Cons i "is")
  then show ?case using step_dead agg_tx.step_inv by simp
qed simp

lemma run_blocked:
  "stx_block_ba s \<Longrightarrow> list_all (\<lambda>i. \<forall>b. snd i \<noteq> BlockBa b) is \<Longrightarrow> stx_block_ba (run sess_step s is)"
proof (induction "is" arbitrary: s)
  case (Cons i "is")
  then have "stx_block_ba (sess_step s i)" using step_keeps [of i s] by (auto simp: keeps_at_def only_tid_def)
  then show ?case using Cons by simp
qed simp

lemma stop_dead: "stx_block_ba s \<Longrightarrow> dead_at tid (snd (stop_tx_ba_session env tid reason s))"
  by (cases "tid_tx s tid") (auto simp: stop_tx_ba_session_def Let_def dead_at_def)

lemma destroy_dead:
  assumes "agg_inv s" "y < IEEE80211_NUM_TIDS" shows "dead_at y (destroy_ba_sessions env s)"
proof -
  let ?stop = "\<lambda>tid. (env, StopOne tid AGG_STOP_DESTROY_STA)"
  obtain as bs where l: "[0..<IEEE80211_NUM_TIDS] = as @ y # bs" using assms(2) split_list [of y "[0..<IEEE80211_NUM_TIDS]"] by auto
  define s1 where "s1 = run sess_step (s\<lparr>stx_block_ba := True\<rparr>) (map ?stop as)"
  have i0: "agg_inv (s\<lparr>stx_block_ba := True\<rparr>)" using assms(1) by (simp add: agg_inv_def)
  have "stx_block_ba s1" unfolding s1_def by (rule run_blocked) (simp_all add: list_all_iff)
  then have d: "dead_at y (sess_step s1 (?stop y))" by (simp add: stop_dead)
  have "agg_inv (sess_step s1 (?stop y))" unfolding s1_def
    by (intro agg_tx.step_inv agg_tx.run_inv [OF i0]) (simp_all add: list_all_iff)
  moreover define rest where "rest = map ?stop bs @ map (\<lambda>tid. (env, DestroyStopped tid)) [0..<IEEE80211_NUM_TIDS]"
  moreover have "list_all (\<lambda>i. \<not> unblocks i) rest" by (auto simp: rest_def list_all_iff unblocks_def)
  ultimately have "dead_at y (run sess_step (sess_step s1 (?stop y)) rest)" using run_dead d by blast
  moreover have "destroy_ba_sessions env s = run sess_step (sess_step s1 (?stop y)) rest"
    unfolding destroy_is_run destroy_events_def s1_def rest_def by (subst l) (simp add: run_append del: upt_conv_Cons)
  ultimately show ?thesis by simp
qed

text \<open>The cleanup only frees.\<close>

lemma purge_simps [simp]:
  "stx_out (fold (\<lambda>skb. emit (PurgeTxSkb tid skb)) skbs s) = stx_out s @ map (PurgeTxSkb tid) skbs"
  "tid_tx (fold (\<lambda>skb. emit (PurgeTxSkb tid skb)) skbs s) = tid_tx s"
  "tid_start_tx (fold (\<lambda>skb. emit (PurgeTxSkb tid skb)) skbs s) = tid_start_tx s"
  by (induction skbs arbitrary: s) simp_all

definition cleaned :: "nat \<Rightarrow> sta_tx \<Rightarrow> tx_effect list" where
  "cleaned tid s = (case tid_start_tx s tid of None \<Rightarrow> [] | Some t \<Rightarrow> [FreeTidTx t]) @
     (case tid_tx s tid of None \<Rightarrow> [] | Some t \<Rightarrow> map (PurgeTxSkb tid) (tt_pending t) @ [FreeTidTx (t\<lparr>tt_pending := []\<rparr>)])"

lemma cleanup_simps [simp]:
  "tid_tx (cleanup_ba_session tid s) = tid_tx s" "tid_start_tx (cleanup_ba_session tid s) = tid_start_tx s"
  "stx_out (cleanup_ba_session tid s) = stx_out s @ cleaned tid s"
  by (simp_all add: cleanup_ba_session_def cleaned_def Let_def split: option.split)

lemma cleanup_all:
  "stx_out (cleanup_ba_sessions s) = stx_out s @ concat (map (\<lambda>tid. cleaned tid s) [0..<IEEE80211_NUM_TIDS])"
proof -
  have "tid_tx (fold cleanup_ba_session tids s) = tid_tx s \<and> tid_start_tx (fold cleanup_ba_session tids s) = tid_start_tx s \<and>
      stx_out (fold cleanup_ba_session tids s) = stx_out s @ concat (map (\<lambda>tid. cleaned tid s) tids)" for tids
    by (induction tids arbitrary: s) (simp_all add: cleaned_def)
  then show ?thesis by (simp add: cleanup_ba_sessions_def)
qed

lemma cleaned_dead:
  assumes "dead_at tid s" "agg_inv s" shows "list_all eff_quiet (cleaned tid s)"
proof -
  have "sess_at s tid" using assms(2) by (simp add: agg_inv_def)
  then show ?thesis using assms(1) by (cases "tid_tx s tid") (auto simp: cleaned_def dead_at_def sess_defs list_all_iff)
qed

lemma cleaned_ids:
  "passed_ids x (cleaned tid s) = []" "purged_ids x (cleaned tid s) = (if x = tid then waiting_ids tid s else [])"
proof -
  have "passed_ids x (map (PurgeTxSkb tid) skbs) = []"
    "purged_ids x (map (PurgeTxSkb tid) skbs) = (if x = tid then map ts_id skbs else [])" for skbs
    by (induction skbs) simp_all
  then show "passed_ids x (cleaned tid s) = []" "purged_ids x (cleaned tid s) = (if x = tid then waiting_ids tid s else [])"
    by (auto simp: cleaned_def waiting_ids_def split: option.split)
qed

lemma cleanup_ids:
  assumes "x < IEEE80211_NUM_TIDS"
  shows "passed_ids x (stx_out (cleanup_ba_sessions s)) = passed_ids x (stx_out s)"
    "purged_ids x (stx_out (cleanup_ba_sessions s)) = purged_ids x (stx_out s) @ waiting_ids x s"
proof -
  have "passed_ids x (concat (map (\<lambda>tid. cleaned tid s) tids)) = []" for tids
    by (induction tids) (simp_all add: cleaned_ids)
  then show "passed_ids x (stx_out (cleanup_ba_sessions s)) = passed_ids x (stx_out s)" by (simp add: cleanup_all)
  have "distinct tids \<Longrightarrow> purged_ids x (concat (map (\<lambda>tid. cleaned tid s) tids)) = (if x \<in> set tids then waiting_ids x s else [])" for tids
    by (induction tids) (auto simp: cleaned_ids)
  from this [of "[0..<IEEE80211_NUM_TIDS]"] assms
  show "purged_ids x (stx_out (cleanup_ba_sessions s)) = purged_ids x (stx_out s) @ waiting_ids x s" by (simp add: cleanup_all)
qed

section \<open>Properties\<close>

text \<open>C7: Whatever is asked of the block-ack sessions of a station, in any order and with any answers of the driver,
  a session in the array has no successor waiting to start, is operational only when the driver is ready and the
  peer has accepted, holds no frames then, runs no timer while it stops, and stops the transmit queue of its
  traffic identifier exactly while it is not operational.\<close>

theorem session_invariant:
  assumes "s = run sess_step (fresh_sta_tx reserved sp ht he txqs seqs l) inputs" "tid_tx s tid = Some t"
  shows "tid_start_tx s tid = None \<and> \<not> tt_state t HT_AGG_STATE_WANT_START \<and>
    (tt_state t HT_AGG_STATE_OPERATIONAL \<longrightarrow>
       tt_state t HT_AGG_STATE_DRV_READY \<and> tt_state t HT_AGG_STATE_RESPONSE_RECEIVED \<and> tt_pending t = []) \<and>
    (tt_state t HT_AGG_STATE_STOPPING \<longrightarrow> tt_session_timer t = None \<and> tt_addba_resp_timer t = None) \<and>
    (\<forall>q. stx_txq s tid = Some q \<longrightarrow> (sq_stop q \<longleftrightarrow> \<not> tt_state t HT_AGG_STATE_OPERATIONAL) \<and> tt_pending t = []) \<and>
    length (tt_pending t) \<le> STA_MAX_TX_BUFFER"
proof -
  have "sess_at s tid" using reachable_inv unfolding assms(1) agg_inv_def by blast
  then show ?thesis using assms(2) by (auto simp: sess_defs)
qed

text \<open>C20: A peer that accepts nothing is asked for a block-ack session at most sixteen times per traffic identifier,
  whatever rate control, userspace, the driver and the timers do.\<close>

theorem addba_requests_bounded:
  assumes "s = run sess_step (fresh_sta_tx reserved sp ht he txqs seqs l) before" "list_all (\<lambda>i. \<not> is_response (snd i)) after"
  shows "requests tid (stx_out (run sess_step s after)) \<le> requests tid (stx_out s) + 16"
proof -
  have i: "agg_inv s" unfolding assms(1) by (rule reachable_inv)
  obtain effs where f: "flow tid True (timely_run s after) s (run sess_step s after) (held_run tid s after) effs"
    using session_run_flow [OF i, of tid after] assms(2) by auto
  have "agg_inv (run sess_step s after)" by (rule agg_tx.run_inv [OF i]) (simp add: list_all_iff)
  then have "addba_req_num (run sess_step s after) tid \<le> 16" by (simp add: agg_inv_def sess_ok_def)
  then have "unat (addba_req_num (run sess_step s after) tid) \<le> 16" by (simp add: word_le_nat_alt)
  then show ?thesis using f by (simp add: flow_def)
qed

text \<open>C17: No frame held back for a session is lost or sent twice: the frames held back are those passed on to the
  queue, those pushed out over the limit and those still waiting; what is passed on leaves in the order of
  arrival; and when the station goes what still waits is freed with it.\<close>

theorem held_frames_conserved:
  "let s0 = fresh_sta_tx reserved sp ht he txqs seqs l; s = run sess_step s0 inputs; s' = cleanup_ba_sessions s in
     mset (held_run tid s0 inputs) =
       mset (passed_ids tid (stx_out s)) + mset (purged_ids tid (stx_out s)) + mset (waiting_ids tid s) \<and>
     subseq (passed_ids tid (stx_out s) @ waiting_ids tid s) (held_run tid s0 inputs) \<and>
     (tid \<ge> IEEE80211_NUM_TIDS \<or>
       mset (held_run tid s0 inputs) = mset (passed_ids tid (stx_out s')) + mset (purged_ids tid (stx_out s')))"
proof -
  let ?s0 = "fresh_sta_tx reserved sp ht he txqs seqs l"
  have "stx_out ?s0 = []" "waiting_ids tid ?s0 = []" by (simp_all add: fresh_sta_tx_def waiting_ids_def)
  moreover obtain effs c d where "flow tid c d ?s0 (run sess_step ?s0 inputs) (held_run tid ?s0 inputs) effs"
    using session_run_flow [OF fresh_sta_inv] by blast
  ultimately have f: "stx_out (run sess_step ?s0 inputs) = effs" "subseq (passed_ids tid effs @ waiting_ids tid (run sess_step ?s0 inputs)) (held_run tid ?s0 inputs)"
    "mset (held_run tid ?s0 inputs) = mset (passed_ids tid effs) + mset (purged_ids tid effs) + mset (waiting_ids tid (run sess_step ?s0 inputs))"
    by (simp_all add: flow_def ac_simps)
  show ?thesis
    using f cleanup_ids [of tid "run sess_step ?s0 inputs"] by (cases "tid < IEEE80211_NUM_TIDS") (simp_all add: Let_def)
qed

text \<open>C9: As long as no callback of the driver comes too late, the calls the driver sees for a traffic identifier
  follow the protocol of a session: a start, then at most once the report that it is operational, then a stop, and the
  flush of a stop in progress; and the state word of the session agrees with what the driver was told.\<close>

theorem driver_protocol:
  assumes "s0 = fresh_sta_tx reserved sp ht he txqs seqs l" "timely_run s0 inputs" "s = run sess_step s0 inputs"
  shows "drv_path DrvIdle (drv_calls tid (stx_out s)) (drv_view tid s)"
proof -
  have "stx_out s0 = []" "drv_view tid s0 = DrvIdle" by (simp_all add: assms(1) fresh_sta_tx_def drv_view_def)
  moreover obtain effs c where "flow tid c True s0 s (held_run tid s0 inputs) effs"
    using session_run_flow [of s0 tid inputs] fresh_sta_inv assms by auto
  ultimately show ?thesis by (simp add: flow_def)
qed

text \<open>C19: Once the sessions of a station have been destroyed nothing revives them: whatever comes in afterwards, none is
  started again, and every session that has been freed by the end of the station, by the sessions themselves or with the station, had
  no timer armed and no frame left when it was freed.\<close>

theorem destroyed_sessions_stay_dead:
  assumes "s = run sess_step (destroy_ba_sessions env (run sess_step (fresh_sta_tx reserved sp ht he txqs seqs l) before)) after"
    and "list_all (\<lambda>i. \<not> unblocks i) after" "tid < IEEE80211_NUM_TIDS"
  shows "dead_at tid s \<and> list_all eff_quiet (stx_out (cleanup_ba_sessions s))"
proof -
  let ?s0 = "fresh_sta_tx reserved sp ht he txqs seqs l" and ?s1 = "run sess_step (fresh_sta_tx reserved sp ht he txqs seqs l) before"
  have s: "s = run sess_step ?s0 (before @ destroy_events env @ after)" by (simp add: assms(1) destroy_is_run run_append)
  have i: "agg_inv s" unfolding s by (rule reachable_inv)
  have "agg_inv (destroy_ba_sessions env ?s1)" by (simp only: destroy_is_run run_append [symmetric] reachable_inv)
  then have d: "y < IEEE80211_NUM_TIDS \<Longrightarrow> dead_at y s" for y
    unfolding assms(1) using run_dead destroy_dead [OF reachable_inv] assms(2) by blast
  have "stx_out ?s0 = []" by (simp add: fresh_sta_tx_def)
  moreover obtain effs c d h where "flow tid c d ?s0 s h effs" using session_run_flow [OF fresh_sta_inv] unfolding s by blast
  ultimately have "list_all eff_quiet (stx_out s)" by (simp add: flow_def)
  moreover have "list_all eff_quiet (concat (map (\<lambda>tid. cleaned tid s) [0..<IEEE80211_NUM_TIDS]))"
    using cleaned_dead [OF d i] by (auto simp: list_all_iff)
  ultimately show ?thesis using d assms(3) by (simp add: cleanup_all)
qed

text \<open>C37: A driver callback that comes after the stop revives the session: when the driver reports it is ready only
  after a session the peer had accepted was stopped, the session work tells the driver that the session is operational although
  it has been told to stop, marks the session operational while it stops, and lets its queue run again.\<close>

theorem late_start_callback:
  assumes "late_start_cb tid s" "tid_start_tx s tid = None" "tid_tx s tid = Some t" "stx_txq s tid = Some q"
    and "\<not> tt_state t HT_AGG_STATE_WANT_STOP" "\<not> tt_state t HT_AGG_STATE_STOP_CB" "tt_pending t = []"
  shows "\<exists>t'. tid_tx (ba_work_tx env False tid s) tid = Some t' \<and> tt_state t' HT_AGG_STATE_OPERATIONAL \<and> tt_state t' HT_AGG_STATE_STOPPING \<and>
    drv_calls tid (stx_out (ba_work_tx env False tid s)) = drv_calls tid (stx_out s) @ [IEEE80211_AMPDU_TX_OPERATIONAL] \<and>
    stx_txq (ba_work_tx env False tid s) tid = Some (q\<lparr>sq_ampdu := True, sq_stop := False\<rparr>)"
proof -
  have "tt_state t HT_AGG_STATE_START_CB" "tt_state t HT_AGG_STATE_STOPPING"
    "tt_state t HT_AGG_STATE_RESPONSE_RECEIVED" "\<not> tt_state t HT_AGG_STATE_DRV_READY"
    using assms(1,3) by (simp_all add: late_start_cb_def)
  then show ?thesis using assms(2-7)
    by (simp add: ba_work_tx_def on_note_def ieee80211_start_tx_ba_cb_def ieee80211_agg_tx_operational_def Let_def
        spliced_def tx_params_def)
qed

end
