(* ===== verification/Frames.thy ===== *)
theory Frames
  imports Prelude
begin

text \<open>
  IEEE 802.11 frames in memory: the socket buffer with its headroom and tailroom, the
  little-endian fields of the header, the predicates on the frame control field
  (include/linux/ieee80211.h) and the header length (net/wireless/util.c).

  A buffer is its bytes. A read or a move outside of it is None, so that a function of the
  code that leaves the buffer is visible as a function that has no result. Buffers are linear:
  \<open>skb_linearize\<close> succeeds and \<open>pskb_may_pull\<close> only compares lengths.
\<close>

section \<open>Byte memory\<close>

definition rd_bytes :: "u8 list \<Rightarrow> nat \<Rightarrow> nat \<Rightarrow> u8 list option" where
  "rd_bytes d off n = (if off + n \<le> length d then Some (take n (drop off d)) else None)"

definition rd_u8 :: "u8 list \<Rightarrow> nat \<Rightarrow> u8 option" where
  "rd_u8 d off = (if off < length d then Some (d ! off) else None)"

definition wr_bytes :: "u8 list \<Rightarrow> nat \<Rightarrow> u8 list \<Rightarrow> u8 list option" where
  "wr_bytes d off bs =
     (if off + length bs \<le> length d then Some (take off d @ bs @ drop (off + length bs) d) else None)"

text \<open>\<open>get_unaligned_le16/le32\<close>, \<open>put_unaligned_le16/le32\<close> and \<open>put_unaligned_be16\<close>.\<close>

definition le16 :: "u8 \<Rightarrow> u8 \<Rightarrow> u16" where
  "le16 a b = ucast a OR push_bit 8 (ucast b)"

definition le32 :: "u8 \<Rightarrow> u8 \<Rightarrow> u8 \<Rightarrow> u8 \<Rightarrow> u32" where
  "le32 a b c d = ucast a OR push_bit 8 (ucast b) OR push_bit 16 (ucast c) OR push_bit 24 (ucast d)"

definition get_unaligned_le16 :: "u8 list \<Rightarrow> nat \<Rightarrow> u16 option" where
  "get_unaligned_le16 d off = do { a \<leftarrow> rd_u8 d off; b \<leftarrow> rd_u8 d (off + 1); Some (le16 a b) }"

definition get_unaligned_le32 :: "u8 list \<Rightarrow> nat \<Rightarrow> u32 option" where
  "get_unaligned_le32 d off = do {
     a \<leftarrow> rd_u8 d off; b \<leftarrow> rd_u8 d (off + 1); c \<leftarrow> rd_u8 d (off + 2); e \<leftarrow> rd_u8 d (off + 3);
     Some (le32 a b c e) }"

definition le16_bytes :: "u16 \<Rightarrow> u8 list" where
  "le16_bytes x = [ucast x, ucast (drop_bit 8 x)]"

definition be16_bytes :: "u16 \<Rightarrow> u8 list" where
  "be16_bytes x = [ucast (drop_bit 8 x), ucast x]"

definition le32_bytes :: "u32 \<Rightarrow> u8 list" where
  "le32_bytes x = [ucast x, ucast (drop_bit 8 x), ucast (drop_bit 16 x), ucast (drop_bit 24 x)]"

lemma rd_u8_nth [simp]: "off < length d \<Longrightarrow> rd_u8 d off = Some (d ! off)"
  by (simp add: rd_u8_def)

lemma rd_bytes_some [simp]: "off + n \<le> length d \<Longrightarrow> rd_bytes d off n = Some (take n (drop off d))"
  by (simp add: rd_bytes_def)

lemma rd_bytes_length: "rd_bytes d off n = Some bs \<Longrightarrow> length bs = n"
  by (auto simp: rd_bytes_def split: if_splits)

lemma wr_bytes_length: "wr_bytes d off bs = Some d' \<Longrightarrow> length d' = length d"
  by (auto simp: wr_bytes_def split: if_splits)

lemma le16_le16_bytes [simp]: "le16 (ucast (x :: u16)) (ucast (drop_bit 8 x)) = x"
  by (rule bit_word_eqI) (auto simp: le16_def bit_or_iff bit_push_bit_iff bit_ucast_iff bit_drop_bit_eq)

lemma le32_le32_bytes [simp]:
  "le32 (ucast (x :: u32)) (ucast (drop_bit 8 x)) (ucast (drop_bit 16 x)) (ucast (drop_bit 24 x)) = x"
proof (rule bit_word_eqI)
  fix n assume "n < LENGTH(32)"
  then consider "n < 8" | "8 \<le> n" "n < 16" | "16 \<le> n" "n < 24" | "24 \<le> n" "n < 32" by fastforce
  then show "bit (le32 (ucast x) (ucast (drop_bit 8 x)) (ucast (drop_bit 16 x)) (ucast (drop_bit 24 x))) n
    = bit x n"
    by cases (auto simp: le32_def bit_or_iff bit_push_bit_iff bit_ucast_iff bit_drop_bit_eq)
qed

lemma ucast_le16 [simp]: "(ucast (le16 a b) :: u8) = a" "(ucast (drop_bit 8 (le16 a b)) :: u8) = b"
  by (rule bit_word_eqI; auto simp: le16_def bit_or_iff bit_push_bit_iff bit_ucast_iff bit_drop_bit_eq
      dest: bit_imp_le_length)+

section \<open>Socket buffers\<close>

text \<open>
  The bytes in front of the data, the data, and the bytes behind it. \<open>skb_push\<close> and
  \<open>skb_put\<close> move the borders and leave what is in memory; beyond the room they panic
  (None). \<open>skb_trim\<close> to a length the caller computes as \<open>skb->len - n\<close> does
  nothing when the subtraction wraps. \<open>skb_pull\<close> beyond the data does nothing.
\<close>

record sk_buff =
  sk_head :: "u8 list"
  sk_data :: "u8 list"
  sk_tail :: "u8 list"

definition skb_push :: "nat \<Rightarrow> sk_buff \<Rightarrow> sk_buff option" where
  "skb_push n s =
     (let h = sk_head s; k = length h - n in
      if length h < n then None
      else Some (s\<lparr>sk_head := take k h, sk_data := drop k h @ sk_data s\<rparr>))"

definition skb_pull :: "nat \<Rightarrow> sk_buff \<Rightarrow> sk_buff" where
  "skb_pull n s =
     (if length (sk_data s) < n then s
      else s\<lparr>sk_head := sk_head s @ take n (sk_data s), sk_data := drop n (sk_data s)\<rparr>)"

definition skb_put :: "nat \<Rightarrow> sk_buff \<Rightarrow> sk_buff option" where
  "skb_put n s =
     (if length (sk_tail s) < n then None
      else Some (s\<lparr>sk_data := sk_data s @ take n (sk_tail s), sk_tail := drop n (sk_tail s)\<rparr>))"

definition skb_trim_by :: "nat \<Rightarrow> sk_buff \<Rightarrow> sk_buff" where
  "skb_trim_by n s =
     (let k = length (sk_data s) - n in
      if length (sk_data s) < n then s
      else s\<lparr>sk_data := take k (sk_data s), sk_tail := drop k (sk_data s) @ sk_tail s\<rparr>)"

text \<open>\<open>memmove\<close> inside the data, and writing into it.\<close>

definition skb_memmove :: "nat \<Rightarrow> nat \<Rightarrow> nat \<Rightarrow> sk_buff \<Rightarrow> sk_buff option" where
  "skb_memmove dst src n s = do {
     bs \<leftarrow> rd_bytes (sk_data s) src n;
     d \<leftarrow> wr_bytes (sk_data s) dst bs;
     Some (s\<lparr>sk_data := d\<rparr>) }"

definition skb_write :: "nat \<Rightarrow> u8 list \<Rightarrow> sk_buff \<Rightarrow> sk_buff option" where
  "skb_write off bs s = do { d \<leftarrow> wr_bytes (sk_data s) off bs; Some (s\<lparr>sk_data := d\<rparr>) }"

text \<open>
  What the encryption of every cipher does first, and its decryption last: room for \<open>n\<close>
  bytes between the header and the payload.
\<close>

definition skb_open_gap :: "nat \<Rightarrow> nat \<Rightarrow> sk_buff \<Rightarrow> sk_buff option" where
  "skb_open_gap n hdrlen s = do { s \<leftarrow> skb_push n s; skb_memmove 0 n hdrlen s }"

definition skb_close_gap :: "nat \<Rightarrow> nat \<Rightarrow> sk_buff \<Rightarrow> sk_buff option" where
  "skb_close_gap n hdrlen s = do { s \<leftarrow> skb_memmove n 0 hdrlen s; Some (skb_pull n s) }"

lemma skb_open_gap_data:
  assumes "hdrlen \<le> length (sk_data s)" and "n \<le> length (sk_head s)"
  shows "\<exists>gap s'. skb_open_gap n hdrlen s = Some s' \<and> length gap = n \<and>
    sk_data s' = take hdrlen (sk_data s) @ gap @ drop hdrlen (sk_data s) \<and>
    sk_head s' = take (length (sk_head s) - n) (sk_head s) \<and> sk_tail s' = sk_tail s"
proof -
  define k where "k = length (sk_head s) - n"
  define room where "room = drop k (sk_head s)"
  define gap where "gap = take n (drop hdrlen (room @ sk_data s))"
  have l: "length room = n" using assms(2) by (simp add: room_def k_def)
  then have dn: "drop n (room @ sk_data s) = sk_data s" by simp
  have g: "length gap = n" using assms l by (simp add: gap_def)
  have "drop hdrlen (room @ sk_data s) = gap @ drop n (drop hdrlen (room @ sk_data s))"
    by (simp only: gap_def append_take_drop_id)
  also have "drop n (drop hdrlen (room @ sk_data s)) = drop hdrlen (sk_data s)"
    using l by (cases "n \<le> hdrlen") (simp_all add: add.commute)
  finally have d: "drop hdrlen (room @ sk_data s) = gap @ drop hdrlen (sk_data s)" .
  have "skb_open_gap n hdrlen s =
      Some (s\<lparr>sk_head := take k (sk_head s), sk_data := take hdrlen (sk_data s) @ drop hdrlen (room @ sk_data s)\<rparr>)"
    using assms l dn unfolding k_def room_def
    by (simp add: skb_open_gap_def skb_push_def skb_memmove_def wr_bytes_def Let_def del: drop_append)
  then show ?thesis using g unfolding d k_def by auto
qed

lemma skb_close_gap_data:
  assumes "sk_data s = hdr @ gap @ payload" and "length hdr = hdrlen" and "length gap = n"
  shows "\<exists>s'. skb_close_gap n hdrlen s = Some s' \<and> sk_data s' = hdr @ payload \<and> sk_tail s' = sk_tail s"
proof -
  have a: "take n (hdr @ gap) @ hdr @ payload = (take n (hdr @ gap) @ hdr) @ payload" by simp
  have "skb_memmove n 0 hdrlen s = Some (s\<lparr>sk_data := take n (hdr @ gap) @ hdr @ payload\<rparr>)"
    using assms by (simp add: skb_memmove_def wr_bytes_def)
  then show ?thesis using assms
    by (auto simp: skb_close_gap_def skb_pull_def)
qed

text \<open>Writing and appending behind a prefix keep it.\<close>

lemma take_after_write: "skb_write off bs s = Some s' \<Longrightarrow> n \<le> off \<Longrightarrow> take n (sk_data s') = take n (sk_data s)"
  by (auto simp: skb_write_def wr_bytes_def bind_eq_Some_conv min_def split: if_splits)

lemma take_after_put: "skb_put k s = Some s' \<Longrightarrow> n \<le> length (sk_data s) \<Longrightarrow> take n (sk_data s') = take n (sk_data s)"
  by (auto simp: skb_put_def split: if_splits)

section \<open>The frame control field\<close>

definition fc_any :: "u16 \<Rightarrow> u16 \<Rightarrow> bool" where
  "fc_any fc m \<longleftrightarrow> fc AND m \<noteq> 0"

definition IEEE80211_FCTL_FTYPE :: u16 where "IEEE80211_FCTL_FTYPE = 0x000c"
definition IEEE80211_FCTL_STYPE :: u16 where "IEEE80211_FCTL_STYPE = 0x00f0"
definition IEEE80211_FCTL_TODS :: u16 where "IEEE80211_FCTL_TODS = 0x0100"
definition IEEE80211_FCTL_FROMDS :: u16 where "IEEE80211_FCTL_FROMDS = 0x0200"
definition IEEE80211_FCTL_MOREFRAGS :: u16 where "IEEE80211_FCTL_MOREFRAGS = 0x0400"
definition IEEE80211_FCTL_RETRY :: u16 where "IEEE80211_FCTL_RETRY = 0x0800"
definition IEEE80211_FCTL_PM :: u16 where "IEEE80211_FCTL_PM = 0x1000"
definition IEEE80211_FCTL_MOREDATA :: u16 where "IEEE80211_FCTL_MOREDATA = 0x2000"
definition IEEE80211_FCTL_PROTECTED :: u16 where "IEEE80211_FCTL_PROTECTED = 0x4000"
definition IEEE80211_FCTL_ORDER :: u16 where "IEEE80211_FCTL_ORDER = 0x8000"
definition IEEE80211_FTYPE_MGMT :: u16 where "IEEE80211_FTYPE_MGMT = 0x0000"
definition IEEE80211_FTYPE_CTL :: u16 where "IEEE80211_FTYPE_CTL = 0x0004"
definition IEEE80211_FTYPE_DATA :: u16 where "IEEE80211_FTYPE_DATA = 0x0008"
definition IEEE80211_STYPE_QOS_DATA :: u16 where "IEEE80211_STYPE_QOS_DATA = 0x0080"
definition IEEE80211_STYPE_DISASSOC :: u16 where "IEEE80211_STYPE_DISASSOC = 0x00A0"
definition IEEE80211_STYPE_AUTH :: u16 where "IEEE80211_STYPE_AUTH = 0x00B0"
definition IEEE80211_STYPE_DEAUTH :: u16 where "IEEE80211_STYPE_DEAUTH = 0x00C0"
definition IEEE80211_STYPE_ACTION :: u16 where "IEEE80211_STYPE_ACTION = 0x00D0"

lemmas fc_defs = IEEE80211_FCTL_FTYPE_def IEEE80211_FCTL_STYPE_def IEEE80211_FCTL_TODS_def
  IEEE80211_FCTL_FROMDS_def IEEE80211_FCTL_MOREFRAGS_def IEEE80211_FCTL_RETRY_def IEEE80211_FCTL_PM_def
  IEEE80211_FCTL_MOREDATA_def IEEE80211_FCTL_PROTECTED_def IEEE80211_FCTL_ORDER_def
  IEEE80211_FTYPE_MGMT_def IEEE80211_FTYPE_CTL_def IEEE80211_FTYPE_DATA_def IEEE80211_STYPE_QOS_DATA_def
  IEEE80211_STYPE_DISASSOC_def IEEE80211_STYPE_AUTH_def IEEE80211_STYPE_DEAUTH_def IEEE80211_STYPE_ACTION_def

definition ieee80211_has_tods :: "u16 \<Rightarrow> bool" where
  "ieee80211_has_tods fc \<longleftrightarrow> fc_any fc IEEE80211_FCTL_TODS"

definition ieee80211_has_fromds :: "u16 \<Rightarrow> bool" where
  "ieee80211_has_fromds fc \<longleftrightarrow> fc_any fc IEEE80211_FCTL_FROMDS"

definition ieee80211_has_a4 :: "u16 \<Rightarrow> bool" where
  "ieee80211_has_a4 fc \<longleftrightarrow>
     (let tmp = IEEE80211_FCTL_TODS OR IEEE80211_FCTL_FROMDS in fc AND tmp = tmp)"

definition ieee80211_has_morefrags :: "u16 \<Rightarrow> bool" where
  "ieee80211_has_morefrags fc \<longleftrightarrow> fc_any fc IEEE80211_FCTL_MOREFRAGS"

definition ieee80211_has_protected :: "u16 \<Rightarrow> bool" where
  "ieee80211_has_protected fc \<longleftrightarrow> fc_any fc IEEE80211_FCTL_PROTECTED"

definition ieee80211_has_order :: "u16 \<Rightarrow> bool" where
  "ieee80211_has_order fc \<longleftrightarrow> fc_any fc IEEE80211_FCTL_ORDER"

definition ieee80211_is_mgmt :: "u16 \<Rightarrow> bool" where
  "ieee80211_is_mgmt fc \<longleftrightarrow> fc AND IEEE80211_FCTL_FTYPE = IEEE80211_FTYPE_MGMT"

definition ieee80211_is_ctl :: "u16 \<Rightarrow> bool" where
  "ieee80211_is_ctl fc \<longleftrightarrow> fc AND IEEE80211_FCTL_FTYPE = IEEE80211_FTYPE_CTL"

definition ieee80211_is_data :: "u16 \<Rightarrow> bool" where
  "ieee80211_is_data fc \<longleftrightarrow> fc AND IEEE80211_FCTL_FTYPE = IEEE80211_FTYPE_DATA"

definition ieee80211_is_data_qos :: "u16 \<Rightarrow> bool" where
  "ieee80211_is_data_qos fc \<longleftrightarrow>
     fc AND (IEEE80211_FCTL_FTYPE OR IEEE80211_STYPE_QOS_DATA) = IEEE80211_FTYPE_DATA OR IEEE80211_STYPE_QOS_DATA"

definition ieee80211_is_data_present :: "u16 \<Rightarrow> bool" where
  "ieee80211_is_data_present fc \<longleftrightarrow> fc AND (IEEE80211_FCTL_FTYPE OR 0x40) = IEEE80211_FTYPE_DATA"

text \<open>A management frame of a given subtype.\<close>

definition fc_mgmt :: "u16 \<Rightarrow> u16 \<Rightarrow> bool" where
  "fc_mgmt stype fc \<longleftrightarrow>
     fc AND (IEEE80211_FCTL_FTYPE OR IEEE80211_FCTL_STYPE) = IEEE80211_FTYPE_MGMT OR stype"

definition ieee80211_is_disassoc :: "u16 \<Rightarrow> bool" where
  "ieee80211_is_disassoc = fc_mgmt IEEE80211_STYPE_DISASSOC"

definition ieee80211_is_auth :: "u16 \<Rightarrow> bool" where
  "ieee80211_is_auth = fc_mgmt IEEE80211_STYPE_AUTH"

definition ieee80211_is_deauth :: "u16 \<Rightarrow> bool" where
  "ieee80211_is_deauth = fc_mgmt IEEE80211_STYPE_DEAUTH"

definition ieee80211_is_action :: "u16 \<Rightarrow> bool" where
  "ieee80211_is_action = fc_mgmt IEEE80211_STYPE_ACTION"

lemmas fc_tests = fc_any_def ieee80211_has_tods_def ieee80211_has_fromds_def ieee80211_has_a4_def
  ieee80211_has_morefrags_def ieee80211_has_protected_def ieee80211_has_order_def ieee80211_is_mgmt_def
  ieee80211_is_ctl_def ieee80211_is_data_def ieee80211_is_data_qos_def ieee80211_is_data_present_def
  fc_mgmt_def ieee80211_is_disassoc_def ieee80211_is_auth_def ieee80211_is_deauth_def ieee80211_is_action_def

section \<open>The header\<close>

definition IEEE80211_QOS_CTL_LEN :: nat where "IEEE80211_QOS_CTL_LEN = 2"
definition IEEE80211_HT_CTL_LEN :: nat where "IEEE80211_HT_CTL_LEN = 4"
definition IEEE80211_MIN_ACTION_SIZE :: nat where "IEEE80211_MIN_ACTION_SIZE = 25"
definition ETH_ALEN :: nat where "ETH_ALEN = 6"

definition ieee80211_hdrlen :: "u16 \<Rightarrow> nat" where
  "ieee80211_hdrlen fc =
     (if ieee80211_is_data fc then
        (if ieee80211_has_a4 fc then 30 else 24) +
        (if ieee80211_is_data_qos fc
         then IEEE80211_QOS_CTL_LEN + (if ieee80211_has_order fc then IEEE80211_HT_CTL_LEN else 0)
         else 0)
      else if ieee80211_is_mgmt fc then
        24 + (if ieee80211_has_order fc then IEEE80211_HT_CTL_LEN else 0)
      else if ieee80211_is_ctl fc then (if fc AND 0x00E0 = 0x00C0 then 10 else 16)
      else 24)"

definition ieee80211_get_hdrlen_from_skb :: "sk_buff \<Rightarrow> nat option" where
  "ieee80211_get_hdrlen_from_skb s =
     (if length (sk_data s) < 10 then Some 0
      else do {
        fc \<leftarrow> get_unaligned_le16 (sk_data s) 0;
        Some (if ieee80211_hdrlen fc > length (sk_data s) then 0 else ieee80211_hdrlen fc) })"

text \<open>The fields of \<open>struct ieee80211_hdr\<close> by their offsets.\<close>

definition hdr_frame_control :: "u8 list \<Rightarrow> u16 option" where
  "hdr_frame_control d = get_unaligned_le16 d 0"

definition hdr_addr1 :: nat where "hdr_addr1 = 4"
definition hdr_addr2 :: nat where "hdr_addr2 = 10"
definition hdr_addr3 :: nat where "hdr_addr3 = 16"
definition hdr_seq_ctrl :: nat where "hdr_seq_ctrl = 22"
definition hdr_addr4 :: nat where "hdr_addr4 = 24"

lemmas hdr_offsets = hdr_addr1_def hdr_addr2_def hdr_addr3_def hdr_seq_ctrl_def hdr_addr4_def ETH_ALEN_def

text \<open>Offsets of the fields whose place depends on the frame.\<close>

definition ieee80211_get_qos_ctl :: "u16 \<Rightarrow> nat" where
  "ieee80211_get_qos_ctl fc = (if ieee80211_has_a4 fc then 30 else 24)"

definition ieee80211_get_tid :: "u8 list \<Rightarrow> u8 option" where
  "ieee80211_get_tid d = do {
     fc \<leftarrow> hdr_frame_control d;
     qc \<leftarrow> rd_u8 d (ieee80211_get_qos_ctl fc);
     Some (qc AND 0x0f) }"

definition ieee80211_get_SA :: "u16 \<Rightarrow> nat" where
  "ieee80211_get_SA fc =
     (if ieee80211_has_a4 fc then hdr_addr4
      else if ieee80211_has_fromds fc then hdr_addr3 else hdr_addr2)"

definition ieee80211_get_DA :: "u16 \<Rightarrow> nat" where
  "ieee80211_get_DA fc = (if ieee80211_has_tods fc then hdr_addr3 else hdr_addr1)"

text \<open>Robust management frames; the categories of action frames that are not.\<close>

definition unprotected_categories :: "u8 list" where
  "unprotected_categories = [4, 7, 11, 15, 20, 21, 127]"

definition robust_mgmt_frame :: "u8 list \<Rightarrow> bool option" where
  "robust_mgmt_frame d = do {
     fc \<leftarrow> hdr_frame_control d;
     if ieee80211_is_disassoc fc \<or> ieee80211_is_deauth fc then Some True
     else if ieee80211_is_action fc then
       (if ieee80211_has_protected fc then Some True
        else do { category \<leftarrow> rd_u8 d 24; Some (category \<notin> set unprotected_categories) })
     else Some False }"

definition ieee80211_is_robust_mgmt_frame :: "sk_buff \<Rightarrow> bool option" where
  "ieee80211_is_robust_mgmt_frame s =
     (if length (sk_data s) < IEEE80211_MIN_ACTION_SIZE then Some False else robust_mgmt_frame (sk_data s))"

lemma data_not_mgmt: "ieee80211_is_data fc \<Longrightarrow> stype AND 0x000c = 0 \<Longrightarrow> \<not> fc_mgmt stype fc"
proof
  assume d: "ieee80211_is_data fc" and s: "stype AND 0x000c = 0" and m: "fc_mgmt stype fc"
  have "fc AND 0x000c = (fc AND 0x00fc) AND 0x000c" by (simp add: and.assoc)
  also have "\<dots> = 0" using m s by (simp add: fc_mgmt_def fc_defs)
  finally show False using d by (simp add: ieee80211_is_data_def fc_defs)
qed

lemma data_subtypes:
  assumes "ieee80211_is_data fc"
  shows "\<not> ieee80211_is_disassoc fc" "\<not> ieee80211_is_deauth fc" "\<not> ieee80211_is_action fc" "\<not> ieee80211_is_mgmt fc"
  using data_not_mgmt [OF assms] assms
  by (simp_all add: ieee80211_is_disassoc_def ieee80211_is_deauth_def ieee80211_is_action_def
      ieee80211_is_mgmt_def ieee80211_is_data_def fc_defs)

text \<open>Header lengths, and what fits into the header of a data frame.\<close>

lemma hdrlen_bounds: "10 \<le> ieee80211_hdrlen fc" "ieee80211_hdrlen fc \<le> 36"
  by (auto simp: ieee80211_hdrlen_def IEEE80211_QOS_CTL_LEN_def IEEE80211_HT_CTL_LEN_def)

lemma hdrlen_data: "ieee80211_is_data fc \<Longrightarrow> 24 \<le> ieee80211_hdrlen fc"
  by (auto simp: ieee80211_hdrlen_def)

lemma hdrlen_mgmt: "ieee80211_is_mgmt fc \<Longrightarrow> 24 \<le> ieee80211_hdrlen fc"
  by (auto simp: ieee80211_hdrlen_def ieee80211_is_data_def ieee80211_is_mgmt_def fc_defs)

lemma data_qos_data: "ieee80211_is_data_qos fc \<Longrightarrow> ieee80211_is_data fc"
proof -
  assume "ieee80211_is_data_qos fc"
  then have "(fc AND (IEEE80211_FCTL_FTYPE OR IEEE80211_STYPE_QOS_DATA)) AND IEEE80211_FCTL_FTYPE
    = (IEEE80211_FTYPE_DATA OR IEEE80211_STYPE_QOS_DATA) AND IEEE80211_FCTL_FTYPE"
    by (simp add: ieee80211_is_data_qos_def)
  then show ?thesis
    by (simp add: ieee80211_is_data_def fc_defs and.assoc)
qed

lemma hdrlen_qos: "ieee80211_is_data_qos fc \<Longrightarrow> ieee80211_get_qos_ctl fc + 2 \<le> ieee80211_hdrlen fc"
  using data_qos_data [of fc]
  by (auto simp: ieee80211_hdrlen_def ieee80211_get_qos_ctl_def IEEE80211_QOS_CTL_LEN_def)

lemma hdrlen_a4: "ieee80211_is_data fc \<Longrightarrow> ieee80211_has_a4 fc \<Longrightarrow> hdr_addr4 + ETH_ALEN \<le> ieee80211_hdrlen fc"
  by (auto simp: ieee80211_hdrlen_def hdr_offsets)

lemma hdrlen_addresses:
  "ieee80211_is_data fc \<Longrightarrow> ieee80211_get_SA fc + ETH_ALEN \<le> ieee80211_hdrlen fc"
  "ieee80211_is_data fc \<Longrightarrow> ieee80211_get_DA fc + ETH_ALEN \<le> ieee80211_hdrlen fc"
  using hdrlen_a4 [of fc] hdrlen_data [of fc]
  by (auto simp: ieee80211_get_SA_def ieee80211_get_DA_def hdr_offsets)

lemma frame_control_some: "2 \<le> length d \<Longrightarrow> hdr_frame_control d = Some (le16 (d ! 0) (d ! 1))"
  by (auto simp: hdr_frame_control_def get_unaligned_le16_def rd_u8_def Suc_le_eq)

lemma frame_control_append: "2 \<le> length h \<Longrightarrow> hdr_frame_control (h @ t) = hdr_frame_control h"
  by (cases h) (auto simp: frame_control_some nth_append)

text \<open>\<open>hdr->frame_control |= IEEE80211_FCTL_PROTECTED\<close>.\<close>

definition set_protected :: "sk_buff \<Rightarrow> sk_buff option" where
  "set_protected skb = do {
     fc \<leftarrow> hdr_frame_control (sk_data skb);
     skb_write 0 (le16_bytes (fc OR IEEE80211_FCTL_PROTECTED)) skb }"

definition protect :: "u8 list \<Rightarrow> u8 list" where
  "protect h = le16_bytes (le16 (h ! 0) (h ! 1) OR IEEE80211_FCTL_PROTECTED) @ drop 2 h"

text \<open>Setting the protected bit changes neither the type nor the length of the header.\<close>

lemma protected_fc:
  "ieee80211_hdrlen (fc OR IEEE80211_FCTL_PROTECTED) = ieee80211_hdrlen fc"
  "ieee80211_is_data (fc OR IEEE80211_FCTL_PROTECTED) = ieee80211_is_data fc"
  "ieee80211_is_auth (fc OR IEEE80211_FCTL_PROTECTED) = ieee80211_is_auth fc"
  "ieee80211_has_a4 (fc OR IEEE80211_FCTL_PROTECTED) = ieee80211_has_a4 fc"
  "ieee80211_has_protected (fc OR IEEE80211_FCTL_PROTECTED)"
proof -
  have m: "(fc OR 0x4000) AND k = fc AND k" if "0x4000 AND k = 0" for k
    using that by (simp only: bit.conj_disj_distrib2) simp
  have "ieee80211_is_data (fc OR IEEE80211_FCTL_PROTECTED) = ieee80211_is_data fc"
    "ieee80211_is_data_qos (fc OR IEEE80211_FCTL_PROTECTED) = ieee80211_is_data_qos fc"
    "ieee80211_is_mgmt (fc OR IEEE80211_FCTL_PROTECTED) = ieee80211_is_mgmt fc"
    "ieee80211_is_ctl (fc OR IEEE80211_FCTL_PROTECTED) = ieee80211_is_ctl fc"
    and a4: "ieee80211_has_a4 (fc OR IEEE80211_FCTL_PROTECTED) = ieee80211_has_a4 fc"
    and "ieee80211_has_order (fc OR IEEE80211_FCTL_PROTECTED) = ieee80211_has_order fc"
    and auth: "ieee80211_is_auth (fc OR IEEE80211_FCTL_PROTECTED) = ieee80211_is_auth fc"
    by (simp_all add: fc_tests Let_def m fc_defs)
  moreover have "(fc OR IEEE80211_FCTL_PROTECTED) AND 0x00E0 = fc AND 0x00E0" by (simp add: m fc_defs)
  ultimately show "ieee80211_hdrlen (fc OR IEEE80211_FCTL_PROTECTED) = ieee80211_hdrlen fc"
    "ieee80211_is_data (fc OR IEEE80211_FCTL_PROTECTED) = ieee80211_is_data fc"
    by (simp_all add: ieee80211_hdrlen_def)
  show "ieee80211_is_auth (fc OR IEEE80211_FCTL_PROTECTED) = ieee80211_is_auth fc" by (rule auth)
  show "ieee80211_has_a4 (fc OR IEEE80211_FCTL_PROTECTED) = ieee80211_has_a4 fc" by (rule a4)
  show "ieee80211_has_protected (fc OR IEEE80211_FCTL_PROTECTED)"
    by (simp add: ieee80211_has_protected_def fc_any_def fc_defs bit.conj_disj_distrib2 or_eq_0_iff)
qed

lemma le16_bytes_length [simp]: "length (le16_bytes x) = 2"
  by (simp add: le16_bytes_def)

lemma frame_control_le16 [simp]: "hdr_frame_control (le16_bytes x @ t) = Some x"
  by (simp add: frame_control_some le16_bytes_def)

lemma set_protected_data:
  assumes "sk_data skb = h @ t" and "2 \<le> length h"
  shows "set_protected skb = Some (skb\<lparr>sk_data := protect h @ t\<rparr>)"
proof -
  have "hdr_frame_control (sk_data skb) = Some (le16 (h ! 0) (h ! 1))"
    using assms frame_control_append [of h t] frame_control_some [of h] by simp
  then show ?thesis using assms by (simp add: set_protected_def skb_write_def wr_bytes_def protect_def numeral_2_eq_2)
qed

lemma protect_length [simp]: "2 \<le> length h \<Longrightarrow> length (protect h) = length h"
  by (simp add: protect_def)

lemma protect_fc:
  "2 \<le> length h \<Longrightarrow> hdr_frame_control h = Some fc \<Longrightarrow> hdr_frame_control (protect h) = Some (fc OR IEEE80211_FCTL_PROTECTED)"
  by (simp add: protect_def frame_control_some [of h])

end
