(* ===== verification/AggFrames.thy ===== *)
theory AggFrames
  imports AggTxRun Frames
begin

text \<open>
  The frames of block-ack sessions as bytes: the builders of net/mac80211/agg-tx.c, agg-rx.c and
  ht.c, the length checks of the receive path (net/mac80211/rx.c) and the dispatch of the interface
  work (net/mac80211/iface.c). With them the two halves of a session meet: what the originator asks for is what the
  recipient sets up, and what the recipient answers is what the originator uses.
\<close>

section \<open>Building\<close>

record agg_if =
  ai_type :: nl80211_iftype
  ai_addr :: "u8 list"
  ai_mgd_bssid :: "u8 list"
  ai_ibss_bssid :: "u8 list"

definition WLAN_CATEGORY_BACK :: u8 where "WLAN_CATEGORY_BACK = 3"
definition WLAN_ACTION_ADDBA_REQ :: u8 where "WLAN_ACTION_ADDBA_REQ = 0"
definition WLAN_ACTION_ADDBA_RESP :: u8 where "WLAN_ACTION_ADDBA_RESP = 1"
definition WLAN_ACTION_DELBA :: u8 where "WLAN_ACTION_DELBA = 2"
definition IEEE80211_STYPE_BACK_REQ :: u16 where "IEEE80211_STYPE_BACK_REQ = 0x0080"
definition IEEE80211_BAR_CTRL_ACK_POLICY_NORMAL :: u16 where "IEEE80211_BAR_CTRL_ACK_POLICY_NORMAL = 0x0000"
definition IEEE80211_BAR_CTRL_CBMTID_COMPRESSED_BA :: u16 where "IEEE80211_BAR_CTRL_CBMTID_COMPRESSED_BA = 0x0004"
definition IEEE80211_BAR_CTRL_TID_INFO_SHIFT :: nat where "IEEE80211_BAR_CTRL_TID_INFO_SHIFT = 12"

text \<open>The header the three builders of action frames share; what is not set is zero.\<close>

definition action_bssid :: "agg_if \<Rightarrow> u8 list" where
  "action_bssid i =
     (if ai_type i = NL80211_IFTYPE_AP \<or> ai_type i = NL80211_IFTYPE_AP_VLAN \<or> ai_type i = NL80211_IFTYPE_MESH_POINT then ai_addr i
      else if ai_type i = NL80211_IFTYPE_STATION then ai_mgd_bssid i
      else if ai_type i = NL80211_IFTYPE_ADHOC then ai_ibss_bssid i
      else replicate ETH_ALEN 0)"

definition action_header :: "agg_if \<Rightarrow> u8 list \<Rightarrow> u8 list" where
  "action_header i da =
     le16_bytes (IEEE80211_FTYPE_MGMT OR IEEE80211_STYPE_ACTION) @ [0, 0] @ da @ ai_addr i @ action_bssid i @ [0, 0]"

definition ieee80211_send_addba_request ::
  "bool \<Rightarrow> agg_if \<Rightarrow> u8 list \<Rightarrow> nat \<Rightarrow> u8 \<Rightarrow> u16 \<Rightarrow> u16 \<Rightarrow> u16 \<Rightarrow> u8 list option" where
  "ieee80211_send_addba_request alloc i da tid dialog_token start_seq_num agg_size timeout =
     (if \<not> alloc then None
      else
        let capab = 1 OR push_bit 1 1 OR push_bit 2 (of_nat tid) OR push_bit 6 agg_size
        in Some (action_header i da @ [WLAN_CATEGORY_BACK, WLAN_ACTION_ADDBA_REQ, dialog_token] @
             le16_bytes capab @ le16_bytes timeout @ le16_bytes (push_bit 4 start_seq_num)))"

definition ieee80211_send_addba_resp ::
  "bool \<Rightarrow> bool \<Rightarrow> agg_if \<Rightarrow> u8 list \<Rightarrow> nat \<Rightarrow> u8 \<Rightarrow> u16 \<Rightarrow> u16 \<Rightarrow> u16 \<Rightarrow> u16 \<Rightarrow> u8 list option" where
  "ieee80211_send_addba_resp alloc amsdu i da tid dialog_token status policy bsize timeout =
     (if \<not> alloc then None
      else
        let capab = of_bool amsdu OR push_bit 1 policy OR push_bit 2 (of_nat tid) OR push_bit 6 bsize
        in Some (action_header i da @ [WLAN_CATEGORY_BACK, WLAN_ACTION_ADDBA_RESP, dialog_token] @
             le16_bytes status @ le16_bytes capab @ le16_bytes timeout))"

definition ieee80211_send_delba :: "bool \<Rightarrow> agg_if \<Rightarrow> u8 list \<Rightarrow> nat \<Rightarrow> u16 \<Rightarrow> u16 \<Rightarrow> u8 list option" where
  "ieee80211_send_delba alloc i da tid initiator reason_code =
     (if \<not> alloc then None
      else
        let params = push_bit 11 initiator OR push_bit 12 (of_nat tid)
        in Some (action_header i da @ [WLAN_CATEGORY_BACK, WLAN_ACTION_DELBA] @ le16_bytes params @ le16_bytes reason_code))"

definition ieee80211_send_bar :: "bool \<Rightarrow> agg_if \<Rightarrow> u8 list \<Rightarrow> nat \<Rightarrow> u16 \<Rightarrow> u8 list option" where
  "ieee80211_send_bar alloc i ra tid start =
     (if \<not> alloc then None
      else
        let bar_control = IEEE80211_BAR_CTRL_ACK_POLICY_NORMAL OR IEEE80211_BAR_CTRL_CBMTID_COMPRESSED_BA OR
              push_bit IEEE80211_BAR_CTRL_TID_INFO_SHIFT (of_nat tid)
        in Some (le16_bytes (IEEE80211_FTYPE_CTL OR IEEE80211_STYPE_BACK_REQ) @ [0, 0] @ ra @ ai_addr i @
             le16_bytes bar_control @ le16_bytes start))"

section \<open>Receiving\<close>

text \<open>The part of \<open>ieee80211_rx_h_action\<close> for block-ack frames: not handled, refused or queued for the work.\<close>

datatype back_verdict = BackBreak | BackInvalid | BackQueue

definition rx_back_action :: "nl80211_iftype \<Rightarrow> u8 list \<Rightarrow> back_verdict" where
  "rx_back_action iftype d =
     (if iftype \<noteq> NL80211_IFTYPE_STATION \<and> iftype \<noteq> NL80211_IFTYPE_MESH_POINT \<and> iftype \<noteq> NL80211_IFTYPE_AP_VLAN \<and>
         iftype \<noteq> NL80211_IFTYPE_AP \<and> iftype \<noteq> NL80211_IFTYPE_ADHOC then BackBreak
      else if length d < IEEE80211_MIN_ACTION_SIZE + 1 then BackBreak
      else if d ! 25 = WLAN_ACTION_ADDBA_REQ then (if length d < IEEE80211_MIN_ACTION_SIZE + 8 then BackInvalid else BackQueue)
      else if d ! 25 = WLAN_ACTION_ADDBA_RESP then (if length d < IEEE80211_MIN_ACTION_SIZE + 8 then BackInvalid else BackQueue)
      else if d ! 25 = WLAN_ACTION_DELBA then (if length d < IEEE80211_MIN_ACTION_SIZE + 5 then BackInvalid else BackQueue)
      else BackInvalid)"

text \<open>
  The dispatch of \<open>ieee80211_iface_work\<close> for a station: the two halves of its sessions and what is
  asked of others on the receive half. \<open>None\<close> is a read behind the frame.
\<close>

definition iface_back ::
  "hw_env \<Rightarrow> agg_env \<Rightarrow> u8 list \<Rightarrow> sta_rx \<Rightarrow> sta_tx \<Rightarrow> (sta_rx \<times> sta_tx \<times> ba_effect list) option" where
  "iface_back henv env d rx tx = do {
     action \<leftarrow> rd_u8 d 25;
     if action = WLAN_ACTION_ADDBA_REQ then do {
       token \<leftarrow> rd_u8 d 26; capab \<leftarrow> get_unaligned_le16 d 27; timeout \<leftarrow> get_unaligned_le16 d 29;
       start \<leftarrow> get_unaligned_le16 d 31;
       Some (case ieee80211_process_addba_request henv token capab timeout start rx of (rx', effs) \<Rightarrow> (rx', tx, effs)) }
     else if action = WLAN_ACTION_ADDBA_RESP then do {
       token \<leftarrow> rd_u8 d 26; status \<leftarrow> get_unaligned_le16 d 27; capab \<leftarrow> get_unaligned_le16 d 29;
       timeout \<leftarrow> get_unaligned_le16 d 31;
       Some (rx, ieee80211_process_addba_resp env token capab status timeout tx, []) }
     else if action = WLAN_ACTION_DELBA then do {
       params \<leftarrow> get_unaligned_le16 d 26;
       Some (case ieee80211_process_delba params rx of (rx', effs) \<Rightarrow> (rx', process_delba_tx env params tx, effs)) }
     else Some (rx, tx, []) }"

text \<open>\<open>ieee80211_rx_h_ctrl\<close> on a block-ack request: \<open>None\<close> where the copy of the fields fails.\<close>

definition rx_h_back_req :: "u8 list \<Rightarrow> sta_rx \<Rightarrow> (sta_rx \<times> ba_effect list \<times> skb list option) option" where
  "rx_h_back_req d sta = do {
     control \<leftarrow> get_unaligned_le16 d 16; start \<leftarrow> get_unaligned_le16 d 18;
     Some (rx_bar control start sta) }"

section \<open>Lemmas on the fields\<close>

lemma below_bits: "x = take_bit n x \<Longrightarrow> bit (x :: u16) k \<Longrightarrow> k < n"
  by (metis bit_take_bit_iff)

lemma small_word: "x < 2 ^ n \<Longrightarrow> n < 16 \<Longrightarrow> (of_nat x :: u16) = take_bit n (of_nat x)"
  by (metis of_nat_take_bit take_bit_nat_eq_self)

lemma field_masks:
  "(0x0001 :: u16) = mask 1" "(0x0002 :: u16) = push_bit 1 (mask 1)" "(0x003C :: u16) = push_bit 2 (mask 4)"
  "(0xFFC0 :: u16) = push_bit 6 (mask 10)" "(0xF000 :: u16) = push_bit 12 (mask 4)" "(0x0800 :: u16) = push_bit 11 (mask 1)"
  by (simp_all add: mask_eq_exp_minus_1 push_bit_eq_mult)

lemmas field_bits = bit_or_iff bit_and_iff bit_push_bit_iff bit_drop_bit_eq bit_mask_iff

lemma capab_fields:
  fixes a p w b :: u16
  assumes "a = take_bit 1 a" "p = take_bit 1 p" "w = take_bit 4 w" "b = take_bit 10 b"
  defines "capab \<equiv> a OR push_bit 1 p OR push_bit 2 w OR push_bit 6 b"
  shows "drop_bit 1 (capab AND 0x0002) = p" "drop_bit 2 (capab AND 0x003C) = w" "drop_bit 6 (capab AND 0xFFC0) = b"
    "capab AND 0x0001 = a"
proof -
  note b = below_bits [OF assms(1)] below_bits [OF assms(2)] below_bits [OF assms(3)] below_bits [OF assms(4)]
  show "drop_bit 1 (capab AND 0x0002) = p" unfolding capab_def field_masks
    by (rule bit_word_eqI, simp only: field_bits comp_apply) (auto dest: b)
  show "drop_bit 2 (capab AND 0x003C) = w" unfolding capab_def field_masks
    by (rule bit_word_eqI, simp only: field_bits comp_apply) (auto dest: b)
  show "drop_bit 6 (capab AND 0xFFC0) = b" unfolding capab_def field_masks
    by (rule bit_word_eqI, simp only: field_bits comp_apply) (auto dest: b)
  show "capab AND 0x0001 = a" unfolding capab_def field_masks
    by (rule bit_word_eqI, simp only: field_bits comp_apply) (auto dest: b)
qed

lemma delba_fields:
  fixes i w :: u16
  assumes "i = take_bit 1 i" "w = take_bit 4 w"
  shows "drop_bit 12 ((push_bit 11 i OR push_bit 12 w) AND 0xF000) = w" "drop_bit 11 ((push_bit 11 i OR push_bit 12 w) AND 0x0800) = i"
proof -
  note b = below_bits [OF assms(1)] below_bits [OF assms(2)]
  show "drop_bit 12 ((push_bit 11 i OR push_bit 12 w) AND 0xF000) = w" unfolding field_masks
    by (rule bit_word_eqI, simp only: field_bits comp_apply) (auto dest: b)
  show "drop_bit 11 ((push_bit 11 i OR push_bit 12 w) AND 0x0800) = i" unfolding field_masks
    by (rule bit_word_eqI, simp only: field_bits comp_apply) (auto dest: b)
qed

lemma small_size: "(x :: u16) < 2 ^ n \<Longrightarrow> n < 16 \<Longrightarrow> x = take_bit n x"
  by (simp add: less_mask_eq take_bit_eq_mask)

section \<open>Round trip\<close>

definition agg_if_ok :: "agg_if \<Rightarrow> bool" where
  "agg_if_ok i \<longleftrightarrow> length (ai_addr i) = ETH_ALEN \<and> length (ai_mgd_bssid i) = ETH_ALEN \<and> length (ai_ibss_bssid i) = ETH_ALEN"

lemma action_header_length: "agg_if_ok i \<Longrightarrow> length da = ETH_ALEN \<Longrightarrow> length (action_header i da) = 24"
  by (simp add: agg_if_ok_def action_header_def action_bssid_def ETH_ALEN_def)

lemma body_reads:
  assumes "length h = 24"
  shows "rd_u8 (h @ xs) 25 = rd_u8 xs 1" "rd_u8 (h @ xs) 26 = rd_u8 xs 2" "get_unaligned_le16 (h @ xs) 26 = get_unaligned_le16 xs 2"
    "get_unaligned_le16 (h @ xs) 27 = get_unaligned_le16 xs 3" "get_unaligned_le16 (h @ xs) 29 = get_unaligned_le16 xs 5"
    "get_unaligned_le16 (h @ xs) 31 = get_unaligned_le16 xs 7"
proof -
  have r: "rd_u8 (h @ xs) (24 + k) = rd_u8 xs k" for k using assms by (auto simp: rd_u8_def nth_append)
  show "rd_u8 (h @ xs) 25 = rd_u8 xs 1" "rd_u8 (h @ xs) 26 = rd_u8 xs 2" using r [of 1] r [of 2] by simp_all
  show "get_unaligned_le16 (h @ xs) 26 = get_unaligned_le16 xs 2" "get_unaligned_le16 (h @ xs) 27 = get_unaligned_le16 xs 3"
    "get_unaligned_le16 (h @ xs) 29 = get_unaligned_le16 xs 5" "get_unaligned_le16 (h @ xs) 31 = get_unaligned_le16 xs 7"
    using r [of 2] r [of 3] r [of 4] r [of 5] r [of 6] r [of 7] r [of 8] by (simp_all add: get_unaligned_le16_def)
qed

lemma le16_reads [simp]:
  "get_unaligned_le16 (x # xs) (Suc n) = get_unaligned_le16 xs n" "get_unaligned_le16 (le16_bytes v @ xs) 0 = Some v"
  "get_unaligned_le16 (le16_bytes v) 0 = Some v"
  "get_unaligned_le16 (le16_bytes v @ xs) (Suc (Suc n)) = get_unaligned_le16 xs n"
  by (simp_all add: get_unaligned_le16_def rd_u8_def le16_bytes_def)

text \<open>What the dispatch reads of each frame.\<close>

lemma reads_of_built:
  assumes "length h = 24"
  shows "iface_back henv env (h @ c # WLAN_ACTION_ADDBA_REQ # token # le16_bytes capab @ le16_bytes timeout @ le16_bytes start) rx tx =
      Some (case ieee80211_process_addba_request henv token capab timeout start rx of (rx', effs) \<Rightarrow> (rx', tx, effs))"
    "iface_back henv env (h @ c # WLAN_ACTION_ADDBA_RESP # token # le16_bytes status @ le16_bytes capab @ le16_bytes timeout) rx tx =
      Some (rx, ieee80211_process_addba_resp env token capab status timeout tx, [])"
    "iface_back henv env (h @ c # WLAN_ACTION_DELBA # le16_bytes params @ le16_bytes reason) rx tx =
      Some (case ieee80211_process_delba params rx of (rx', effs) \<Rightarrow> (rx', process_delba_tx env params tx, effs))"
  unfolding iface_back_def body_reads [OF assms]
  by (simp_all add: eval_nat_numeral rd_u8_def WLAN_ACTION_ADDBA_REQ_def WLAN_ACTION_ADDBA_RESP_def WLAN_ACTION_DELBA_def)

lemma small_tid: "tid < 16 \<Longrightarrow> unat (of_nat tid :: u16) = tid"
  by (simp add: unat_of_nat)

lemma request_received:
  assumes "ieee80211_send_addba_request True i da tid token start sz timeout = Some f" "agg_if_ok i" "length da = ETH_ALEN"
    and "tid < 16" "sz < 1024" "start < 4096"
  shows "iface_back henv env f rx tx =
     Some (case start_rx_ba_session henv token timeout start 1 tid sz True False rx of (rx', effs) \<Rightarrow> (rx', tx, effs))"
    and "rx_back_action NL80211_IFTYPE_STATION f = BackQueue"
proof -
  define capab :: u16 where "capab = 1 OR push_bit 1 1 OR push_bit 2 (of_nat tid) OR push_bit 6 sz"
  define field where "field = push_bit 4 start"
  note h = action_header_length [OF assms(2,3)]
  have f: "f = action_header i da @ WLAN_CATEGORY_BACK # WLAN_ACTION_ADDBA_REQ # token #
      le16_bytes capab @ le16_bytes timeout @ le16_bytes field"
    using assms(1) by (simp add: ieee80211_send_addba_request_def Let_def capab_def field_def)
  have c: "drop_bit 1 (capab AND 0x0002) = 1" "drop_bit 2 (capab AND 0x003C) = of_nat tid" "drop_bit 6 (capab AND 0xFFC0) = sz"
    unfolding capab_def by (rule capab_fields; use assms small_word [of tid 4] small_size [of sz 10] in simp)+
  have "drop_bit 4 field = start" unfolding field_def
    by (intro bit_word_eqI, simp only: field_bits comp_apply) (use small_size [of start 12] assms(6) in \<open>auto dest: below_bits\<close>)
  then have "ieee80211_process_addba_request henv token capab timeout field rx =
      start_rx_ba_session henv token timeout start 1 tid sz True False rx"
    unfolding ieee80211_process_addba_request_def c using assms(4) by (simp add: small_tid)
  then show "iface_back henv env f rx tx =
     Some (case start_rx_ba_session henv token timeout start 1 tid sz True False rx of (rx', effs) \<Rightarrow> (rx', tx, effs))"
    unfolding f reads_of_built [OF h] by simp
  show "rx_back_action NL80211_IFTYPE_STATION f = BackQueue"
    using h by (simp add: f rx_back_action_def IEEE80211_MIN_ACTION_SIZE_def nth_append)
qed

lemma resp_received:
  assumes "ieee80211_send_addba_resp True amsdu i da tid token status 1 sz timeout = Some f" "agg_if_ok i" "length da = ETH_ALEN"
    and "tid < 16" "sz < 1024"
  obtains capab where "iface_back henv env f rx tx = Some (rx, ieee80211_process_addba_resp env token capab status timeout tx, [])"
    and "resp_tid capab = tid" "drop_bit 6 (capab AND 0xFFC0) = sz" "(capab AND 0x0001 \<noteq> 0) = amsdu"
    and "rx_back_action NL80211_IFTYPE_STATION f = BackQueue"
proof
  define capab :: u16 where "capab = of_bool amsdu OR push_bit 1 1 OR push_bit 2 (of_nat tid) OR push_bit 6 sz"
  note h = action_header_length [OF assms(2,3)]
  have f: "f = action_header i da @ WLAN_CATEGORY_BACK # WLAN_ACTION_ADDBA_RESP # token #
      le16_bytes status @ le16_bytes capab @ le16_bytes timeout"
    using assms(1) by (simp add: ieee80211_send_addba_resp_def Let_def capab_def)
  have "drop_bit 2 (capab AND 0x003C) = of_nat tid" and s: "drop_bit 6 (capab AND 0xFFC0) = sz" and a: "capab AND 0x0001 = of_bool amsdu"
    unfolding capab_def by (rule capab_fields; use assms small_word [of tid 4] small_size [of sz 10] in \<open>cases amsdu; simp\<close>)+
  then show "resp_tid capab = tid" using assms(4) by (simp add: resp_tid_def small_tid)
  show "drop_bit 6 (capab AND 0xFFC0) = sz" by (rule s)
  show "(capab AND 0x0001 \<noteq> 0) = amsdu" using a by (cases amsdu) simp_all
  show "iface_back henv env f rx tx = Some (rx, ieee80211_process_addba_resp env token capab status timeout tx, [])"
    unfolding f reads_of_built [OF h] by simp
  show "rx_back_action NL80211_IFTYPE_STATION f = BackQueue"
    using h by (simp add: f rx_back_action_def IEEE80211_MIN_ACTION_SIZE_def nth_append WLAN_ACTION_ADDBA_REQ_def WLAN_ACTION_ADDBA_RESP_def)
qed

lemma delba_received:
  assumes "ieee80211_send_delba True i da tid initiator reason = Some f" "agg_if_ok i" "length da = ETH_ALEN"
    and "tid < 16" "initiator < 2"
  shows "iface_back henv env f rx tx =
     (if initiator = WLAN_BACK_INITIATOR
      then Some (case stop_rx_ba_session tid WLAN_BACK_INITIATOR 0 True rx of (rx', effs) \<Rightarrow> (rx', tx, effs))
      else Some (rx, snd (stop_tx_ba_session env tid AGG_STOP_PEER_REQUEST tx), []))"
    and "rx_back_action NL80211_IFTYPE_STATION f = BackQueue"
proof -
  define params :: u16 where "params = push_bit 11 initiator OR push_bit 12 (of_nat tid)"
  note h = action_header_length [OF assms(2,3)]
  have f: "f = action_header i da @ WLAN_CATEGORY_BACK # WLAN_ACTION_DELBA # le16_bytes params @ le16_bytes reason"
    using assms(1) by (simp add: ieee80211_send_delba_def Let_def params_def)
  have c: "drop_bit 12 (params AND 0xF000) = of_nat tid" "drop_bit 11 (params AND 0x0800) = initiator"
    unfolding params_def by (rule delba_fields; use assms small_word [of tid 4] small_size [of initiator 1] in simp)+
  show "iface_back henv env f rx tx =
     (if initiator = WLAN_BACK_INITIATOR
      then Some (case stop_rx_ba_session tid WLAN_BACK_INITIATOR 0 True rx of (rx', effs) \<Rightarrow> (rx', tx, effs))
      else Some (rx, snd (stop_tx_ba_session env tid AGG_STOP_PEER_REQUEST tx), []))"
    unfolding f reads_of_built [OF h] ieee80211_process_delba_def process_delba_tx_def Let_def c
    using assms(4) by (simp add: small_tid)
  show "rx_back_action NL80211_IFTYPE_STATION f = BackQueue"
    using h by (simp add: f rx_back_action_def IEEE80211_MIN_ACTION_SIZE_def nth_append WLAN_ACTION_ADDBA_REQ_def
        WLAN_ACTION_ADDBA_RESP_def WLAN_ACTION_DELBA_def)
qed

lemma bar_field:
  fixes w :: u16
  assumes "w = take_bit 4 w" shows "drop_bit 12 (0x0004 OR push_bit 12 w) = w"
proof -
  have e: "(0x0004 :: u16) = push_bit 2 (mask 1)" by (simp add: mask_eq_exp_minus_1)
  note b = below_bits [OF assms]
  show ?thesis unfolding e by (rule bit_word_eqI, simp only: field_bits comp_apply) (auto dest: b)
qed

lemma bar_received:
  assumes "ieee80211_send_bar True i ra tid start = Some f" "length ra = ETH_ALEN" "agg_if_ok i" "tid < 16"
  shows "\<exists>control. rx_h_back_req f sta = Some (rx_bar control start sta) \<and> unat (drop_bit 12 control) = tid"
proof -
  define control :: u16 where "control = 0x0004 OR push_bit 12 (of_nat tid)"
  have "length ([0, 0] @ ra @ ai_addr i :: u8 list) = 14" using assms(2,3) by (simp add: agg_if_ok_def ETH_ALEN_def)
  then obtain h where h: "length h = 16" "f = h @ le16_bytes control @ le16_bytes start"
    using assms(1) by (auto simp: ieee80211_send_bar_def Let_def control_def IEEE80211_BAR_CTRL_ACK_POLICY_NORMAL_def
        IEEE80211_BAR_CTRL_CBMTID_COMPRESSED_BA_def IEEE80211_BAR_CTRL_TID_INFO_SHIFT_def intro!: that
          [of "le16_bytes (IEEE80211_FTYPE_CTL OR IEEE80211_STYPE_BACK_REQ) @ [0, 0] @ ra @ ai_addr i"])
  have "get_unaligned_le16 f 16 = Some control" "get_unaligned_le16 f 18 = Some start"
    using h by (simp_all add: get_unaligned_le16_def rd_u8_def nth_append le16_bytes_def)
  moreover have "drop_bit 12 control = of_nat tid" unfolding control_def
    by (rule bar_field) (use assms(4) small_word [of tid 4] in simp)
  ultimately show ?thesis using assms(4) by (intro exI [of _ control]) (simp add: rx_h_back_req_def small_tid)
qed

section \<open>The two halves of a session\<close>

lemma declined_stops:
  assumes "tid_tx s tid = Some t" "\<not> tt_state t HT_AGG_STATE_STOPPING" "\<not> tt_state t HT_AGG_STATE_WANT_START"
  shows "\<exists>t'. tid_tx (snd (stop_tx_ba_session env tid AGG_STOP_DECLINED s)) tid = Some t' \<and> tt_state t' HT_AGG_STATE_STOPPING"
  using assms by (simp add: stop_tx_ba_session_def Let_def)

lemma accepted_session:
  assumes "tid_tx s tid = Some t" "\<not> tt_state t HT_AGG_STATE_RESPONSE_RECEIVED"
  shows "\<exists>t'. tid_tx (accept_addba_resp env tid sz amsdu timeout t s) tid = Some t' \<and>
    tt_state t' HT_AGG_STATE_RESPONSE_RECEIVED \<and> tt_buf_size t' = sz \<and>
    (tt_state t HT_AGG_STATE_DRV_READY \<longrightarrow> tt_state t' HT_AGG_STATE_OPERATIONAL)"
  using assms by (auto simp: accept_addba_resp_def Let_def ieee80211_agg_tx_operational_def)

text \<open>The recipient's half: a session that is set up has the ring it announces.\<close>

lemma start_session_ring:
  assumes "start_rx_session env token timeout start tid b auto sta = (status, sta', eff)"
    and "\<not> agg_session_valid (ampdu_mlme sta) tid" "\<not> supports_reordering_buffer env" "status = WLAN_STATUS_SUCCESS"
  shows "\<exists>r. tid_rx (ampdu_mlme sta') tid = Some r \<and> head_seq_num r = start \<and> buf_size r = b"
  using assms by (auto simp: start_rx_session_def Let_def new_tid_rx_def WLAN_STATUS_SUCCESS_def WLAN_STATUS_REQUEST_DECLINED_def
      split: if_splits)

lemma recipient_ring:
  assumes "start_rx_ba_session henv token timeout start 1 tid sz True False sta = (sta', effs)"
    and "\<not> agg_session_valid (ampdu_mlme sta) tid" "\<not> supports_reordering_buffer henv" "0 < max_rx_aggregation_subframes sta"
    and "SendAddbaResp x tok status pol b tmo \<in> set effs"
  shows "x = tid \<and> tok = token \<and> pol = 1 \<and> (sz < 1024 \<longrightarrow> b < 1024) \<and> (status = WLAN_STATUS_SUCCESS \<longrightarrow> 0 < b \<and> b \<le> 256 \<and>
    (\<exists>r. tid_rx (ampdu_mlme sta') tid = Some r \<and> head_seq_num r = start \<and> buf_size r = b))"
proof -
  obtain st b' sta1 eff where o: "start_rx_outcome henv token timeout start 1 tid sz False sta = (st, b', sta1, eff)"
    by (cases "start_rx_outcome henv token timeout start 1 tid sz False sta") auto
  have noresp: "SendAddbaResp x1 x2 x3 x4 x5 x6 \<notin> set eff" for x1 x2 x3 x4 x5 x6
    using start_outcome_session [OF o] start_session_quiet by (fastforce simp: quiet_def list_all_iff)
  have e: "x = tid" "tok = token" "pol = 1" "st = status" "b' = b"
    using assms(1,5) noresp by (auto simp: start_rx_ba_session_def o Let_def)
  have r: "tid_rx (ampdu_mlme sta') = tid_rx (ampdu_mlme sta1)"
    using assms(1) by (auto simp: start_rx_ba_session_def o Let_def)
  have bounds: "(sz < 1024 \<longrightarrow> b' < 1024) \<and> (st = WLAN_STATUS_SUCCESS \<longrightarrow> 0 < b' \<and> b' \<le> 256)"
    using o assms(4) by (auto simp: start_rx_outcome_def Let_def ba_constants IEEE80211_FIRST_TSPEC_TSID_def word_less_nat_alt word_le_nat_alt unat_gt_0
        split: if_splits prod.splits)
  show ?thesis
  proof (cases "status = WLAN_STATUS_SUCCESS")
    case True
    then have "start_rx_session henv token timeout start tid b False sta = (status, sta1, eff)"
      using start_outcome_session [OF o] e by blast
    from start_session_ring [OF this assms(2,3) True] show ?thesis using e r bounds by simp
  qed (use e bounds in simp)
qed

text \<open>C21: The block-ack frames say what they mean: the requests, answers, terminations and block-ack requests that the
  builders make are long enough for the receive path, and reach the handlers of the other station with the
  traffic identifier, token, window, start and role they were built with.\<close>

theorem block_ack_frames_roundtrip:
  assumes "agg_if_ok i" "length da = ETH_ALEN" "tid < 16" "sz < 1024" "start < 4096" "initiator < 2"
    and "ieee80211_send_addba_request True i da tid token start sz timeout = Some req"
    and "ieee80211_send_addba_resp True amsdu i da tid token status 1 sz timeout = Some resp"
    and "ieee80211_send_delba True i da tid initiator reason = Some delba"
    and "ieee80211_send_bar True i da tid field = Some bar"
  shows "iface_back henv env req rx tx =
      Some (case start_rx_ba_session henv token timeout start 1 tid sz True False rx of (rx', effs) \<Rightarrow> (rx', tx, effs)) \<and>
    (\<exists>capab. iface_back henv env resp rx tx = Some (rx, ieee80211_process_addba_resp env token capab status timeout tx, []) \<and>
      resp_tid capab = tid \<and> drop_bit 6 (capab AND 0xFFC0) = sz \<and> (capab AND 0x0001 \<noteq> 0) = amsdu) \<and>
    iface_back henv env delba rx tx =
      (if initiator = WLAN_BACK_INITIATOR
       then Some (case stop_rx_ba_session tid WLAN_BACK_INITIATOR 0 True rx of (rx', effs) \<Rightarrow> (rx', tx, effs))
       else Some (rx, snd (stop_tx_ba_session env tid AGG_STOP_PEER_REQUEST tx), [])) \<and>
    (\<exists>control. rx_h_back_req bar rx = Some (rx_bar control field rx) \<and> unat (drop_bit 12 control) = tid) \<and>
    list_all (\<lambda>f. rx_back_action NL80211_IFTYPE_STATION f = BackQueue) [req, resp, delba]"
proof -
  obtain capab where "iface_back henv env resp rx tx = Some (rx, ieee80211_process_addba_resp env token capab status timeout tx, [])"
    "resp_tid capab = tid" "drop_bit 6 (capab AND 0xFFC0) = sz" "(capab AND 0x0001 \<noteq> 0) = amsdu"
    "rx_back_action NL80211_IFTYPE_STATION resp = BackQueue"
    by (rule resp_received [OF assms(8,1-4), where rx = rx and tx = tx and henv = henv and env = env])
  then show ?thesis
    using request_received(1) [OF assms(7,1-5), where henv = henv and env = env and rx = rx and tx = tx] request_received(2) [OF assms(7,1-5)]
      delba_received(1) [OF assms(9,1-3,6), where henv = henv and env = env and rx = rx and tx = tx] delba_received(2) [OF assms(9,1-3,6)]
      bar_received [OF assms(10,2,1,3), of rx] by (intro conjI) auto
qed

lemma resp_result:
  assumes "resp_tid capab = tid" "drop_bit 6 (capab AND 0xFFC0) = sz" "(capab AND 0x0001 \<noteq> 0) = amsdu"
    and "tid_tx s tid = Some t" "\<not> tt_state t HT_AGG_STATE_WANT_STOP" "\<not> tt_state t HT_AGG_STATE_STOPPING"
  shows "ieee80211_process_addba_resp env (tt_dialog_token t) capab status timeout s =
    (let s1 = upd_tid_tx tid (\<lambda>t. t\<lparr>tt_addba_resp_timer := None\<rparr>) (note_no_amsdu amsdu tid s);
         b = min sz (ae_max_tx_aggregation_subframes env)
     in if status = WLAN_STATUS_SUCCESS \<and> b \<noteq> 0 then accept_addba_resp env tid b amsdu timeout (t\<lparr>tt_addba_resp_timer := None\<rparr>) s1
        else snd (stop_tx_ba_session env tid AGG_STOP_DECLINED s1))"
  unfolding ieee80211_process_addba_resp_def Let_def assms(2,3) assms(1) [unfolded resp_tid_def] using assms(4-6) by simp

text \<open>C8: The two ends of a session agree: when the recipient without a session in the way answers the request of
  an originator that still waits, and says yes, the recipient reorders from the originator's start, and the originator has
  the answer on record with a window that is not empty and not larger than the recipient's ring; it is operational if its
  driver was ready. When the recipient says no the originator's session stops.\<close>

theorem addba_handshake_agrees:
  assumes "agg_if_ok ia" "agg_if_ok ib" "length a = ETH_ALEN" "length b = ETH_ALEN" "tid < 16" "sz < 1024" "start < 4096"
    and "agg_inv s" "tid_tx s tid = Some t" "\<not> tt_state t HT_AGG_STATE_WANT_STOP" "\<not> tt_state t HT_AGG_STATE_STOPPING"
      "\<not> tt_state t HT_AGG_STATE_RESPONSE_RECEIVED" "0 < ae_max_tx_aggregation_subframes env"
    and "\<not> agg_session_valid (ampdu_mlme peer) tid" "\<not> supports_reordering_buffer henv" "0 < max_rx_aggregation_subframes peer"
    and req: "ieee80211_send_addba_request True ia b tid (tt_dialog_token t) start sz timeout = Some req"
    and rx: "iface_back henv env' req peer other = Some (peer', other', effs)"
    and "SendAddbaResp x token status policy bsize tmo \<in> set effs"
    and resp: "ieee80211_send_addba_resp True amsdu ib a x token status policy bsize tmo = Some resp"
    and tx: "iface_back henv' env resp self s = Some (self', s', effs')"
  shows "\<exists>t'. tid_tx s' tid = Some t' \<and>
    (if status = WLAN_STATUS_SUCCESS
     then \<exists>r. tid_rx (ampdu_mlme peer') tid = Some r \<and> head_seq_num r = start \<and>
            tt_state t' HT_AGG_STATE_RESPONSE_RECEIVED \<and> 0 < tt_buf_size t' \<and> tt_buf_size t' \<le> buf_size r \<and>
            (tt_state t HT_AGG_STATE_DRV_READY \<longrightarrow> tt_state t' HT_AGG_STATE_OPERATIONAL)
     else tt_state t' HT_AGG_STATE_STOPPING)"
proof -
  obtain e: "start_rx_ba_session henv (tt_dialog_token t) timeout start 1 tid sz True False peer = (peer', effs)"
    using rx request_received(1) [OF req assms(1,4,5-7), where henv = henv and env = env' and rx = peer and tx = other] by (auto split: prod.splits)
  note r = recipient_ring [OF e assms(14-16,19)]
  have f: "ieee80211_send_addba_resp True amsdu ib a tid (tt_dialog_token t) status 1 bsize tmo = Some resp" "bsize < 1024"
    using resp r assms(6) by simp_all
  obtain capab where c: "iface_back henv' env resp self s =
      Some (self, ieee80211_process_addba_resp env (tt_dialog_token t) capab status tmo s, [])"
    "resp_tid capab = tid" "drop_bit 6 (capab AND 0xFFC0) = bsize" "(capab AND 0x0001 \<noteq> 0) = amsdu"
    by (rule resp_received [OF f(1) assms(2,3,5) f(2), where rx = self and env = env and tx = s and henv = henv'])
  define s1 where "s1 = upd_tid_tx tid (\<lambda>t. t\<lparr>tt_addba_resp_timer := None\<rparr>) (note_no_amsdu amsdu tid s)"
  let ?t = "t\<lparr>tt_addba_resp_timer := None\<rparr>" and ?sz = "min bsize (ae_max_tx_aggregation_subframes env)"
  have t1: "tid_tx s1 tid = Some ?t" using assms(9) by (simp add: s1_def)
  have s': "s' = (if status = WLAN_STATUS_SUCCESS \<and> ?sz \<noteq> 0 then accept_addba_resp env tid ?sz amsdu tmo ?t s1
      else snd (stop_tx_ba_session env tid AGG_STOP_DECLINED s1))"
  proof -
    have "s' = ieee80211_process_addba_resp env (tt_dialog_token t) capab status tmo s" using tx c(1) by simp
    then show ?thesis unfolding resp_result [OF c(2-4) assms(9-11)] Let_def s1_def .
  qed
  show ?thesis
  proof (cases "status = WLAN_STATUS_SUCCESS")
    case True
    then have "?sz \<noteq> 0" "0 < ?sz" using r assms(13) by (auto simp: min_def)
    then show ?thesis using accepted_session [OF t1, of env ?sz amsdu tmo] assms(12) True r by (auto simp: s')
  next
    case False
    have "\<not> tt_state t HT_AGG_STATE_WANT_START" using assms(8,9) unfolding agg_inv_def sess_ok_def live_session_def by blast
    then show ?thesis using declined_stops [OF t1, of env] assms(11) False by (simp add: s')
  qed
qed

end
