(* ===== verification/AggTxSample.thy ===== *)
theory AggTxSample
  imports AggFrames
begin

text \<open>
  Runs of the transmit block-ack machine on a concrete station: the instances that show that the
  properties of \<open>AggTxRun\<close> and \<open>AggFrames\<close> speak of runs that happen.
\<close>

definition sample_agg_env :: "int \<Rightarrow> agg_env" where
  "sample_agg_env ret =
     \<lparr>ae_ampdu_action = Some (\<lambda>_. ret), ae_in_driver = True, ae_alloc_ok = True, ae_jiffies = 1000, ae_HZ = 250,
      ae_timeout_factor = 1, ae_tu_to_jiffies = ucast, ae_ampdu_aggregation = True, ae_tx_ampdu_setup_in_hw = False,
      ae_max_tx_aggregation_subframes = 64, ae_iftype = NL80211_IFTYPE_STATION, ae_vif = 0, ae_vif_hw_queue = (\<lambda>ac. ac)\<rparr>"

definition sample_agg_sta :: sta_tx where
  "sample_agg_sta = fresh_sta_tx 255 False True False (\<lambda>_. True) (\<lambda>_. 0x120) (fresh_local 4 [sample_iface])"

text \<open>The driver starts at once (1) or reports later (0); the peer accepts 64 frames.\<close>

definition start_inputs :: "int \<Rightarrow> (agg_env \<times> agg_event) list" where
  "start_inputs ret = [(sample_agg_env ret, StartSession 0 0), (sample_agg_env ret, SessionWork False 0)]"

definition accept_inputs :: "int \<Rightarrow> (agg_env \<times> agg_event) list" where
  "accept_inputs ret = start_inputs ret @ [(sample_agg_env ret, AddbaResponse 1 0x1000 0 0)]"

text \<open>The peer takes its answer back before the driver reports.\<close>

definition late_inputs :: "(agg_env \<times> agg_event) list" where
  "late_inputs = accept_inputs 0 @ [(sample_agg_env 0, TxDelba 0), (sample_agg_env 0, DriverStarted 0)]"

lemmas sample_sta_simps = sample_agg_sta_def fresh_sta_tx_def sample_agg_env_def start_inputs_def accept_inputs_def late_inputs_def

lemmas sample_eval = ieee80211_start_tx_ba_session_def start_refused_def HT_AGG_MAX_RETRIES_def HT_AGG_BURST_RETRIES_def
  IEEE80211_FIRST_TSPEC_TSID_def IEEE80211_NUM_TIDS_def ba_work_tx_def ieee80211_tx_ba_session_handle_start_def new_tid_tx_def
  IEEE80211_AMPDU_TX_START_IMMEDIATE_def drv_ampdu_action_def Let_def

definition started :: "int \<Rightarrow> sta_tx" where "started ret = run sess_step sample_agg_sta (start_inputs ret)"

lemma started_parts:
  assumes "ret = 0 \<or> ret = 1"
  shows "tid_tx (started ret) 0 = Some (new_tid_tx 0 1\<lparr>tt_state := (\<lambda>b. ret = 1 \<and> b = HT_AGG_STATE_DRV_READY),
      tt_addba_resp_timer := Some 1250\<rparr>)"
    "tid_start_tx (started ret) 0 = None" "requests 0 (stx_out (started ret)) = 1"
    "drv_calls 0 (stx_out (started ret)) = [IEEE80211_AMPDU_TX_START]" "stx_block_ba (started ret) = False"
    "stx_txq (started ret) 0 = Some \<lparr>sq_stop = True, sq_ampdu = False, sq_no_amsdu = False\<rparr>"
  using assms
  by (auto simp: started_def sample_sta_simps sample_eval tx_params_def set_agg_def fun_eq_iff)

definition accepted :: "int \<Rightarrow> sta_tx" where "accepted ret = run sess_step sample_agg_sta (accept_inputs ret)"

lemma accepted_step:
  "accepted ret = ieee80211_process_addba_resp (sample_agg_env ret) 1 0x1000 0 0 (started ret)"
  by (simp add: accepted_def started_def accept_inputs_def run_append)

lemma accepted_immediate:
  "drv_calls 0 (stx_out (accepted 1)) = [IEEE80211_AMPDU_TX_START, IEEE80211_AMPDU_TX_OPERATIONAL]"
  "drv_view 0 (accepted 1) = DrvOperational"
  using started_parts [of 1]
  by (simp_all add: accepted_step ieee80211_process_addba_resp_def accept_addba_resp_def note_no_amsdu_def
      ieee80211_agg_tx_operational_def sample_agg_env_def Let_def new_tid_tx_def spliced_def tx_params_def drv_view_def
      WLAN_STATUS_SUCCESS_def)

definition late_sta :: sta_tx where "late_sta = run sess_step sample_agg_sta late_inputs"

lemma late_parts:
  "late_start_cb 0 late_sta" "tid_start_tx late_sta 0 = None"
  "tid_tx late_sta 0 = Some (the (tid_tx late_sta 0))" "stx_txq late_sta 0 = Some (the (stx_txq late_sta 0))"
  "\<not> tt_state (the (tid_tx late_sta 0)) HT_AGG_STATE_WANT_STOP" "\<not> tt_state (the (tid_tx late_sta 0)) HT_AGG_STATE_STOP_CB"
  "tt_pending (the (tid_tx late_sta 0)) = []"
  "drv_calls 0 (stx_out late_sta) = [IEEE80211_AMPDU_TX_START, IEEE80211_AMPDU_TX_STOP_CONT]"
proof -
  have "late_sta = sess_step (sess_step (accepted 0) (sample_agg_env 0, TxDelba 0)) (sample_agg_env 0, DriverStarted 0)"
    by (simp add: late_sta_def accepted_def late_inputs_def run_append)
  then have e: "late_sta = ieee80211_start_tx_ba_cb_irqsafe 0 (process_delba_tx (sample_agg_env 0) 0 (accepted 0))" by simp
  note evals = e accepted_step ieee80211_process_addba_resp_def accept_addba_resp_def note_no_amsdu_def
      sample_agg_env_def Let_def new_tid_tx_def WLAN_STATUS_SUCCESS_def process_delba_tx_def stop_tx_ba_session_def
      ieee80211_start_tx_ba_cb_irqsafe_def note_cb_def IEEE80211_NUM_TIDS_def WLAN_BACK_INITIATOR_def late_start_cb_def
      tx_params_def stop_action_def
  show "late_start_cb 0 late_sta" "tid_start_tx late_sta 0 = None"
    "tid_tx late_sta 0 = Some (the (tid_tx late_sta 0))" "stx_txq late_sta 0 = Some (the (stx_txq late_sta 0))"
    "\<not> tt_state (the (tid_tx late_sta 0)) HT_AGG_STATE_WANT_STOP" "\<not> tt_state (the (tid_tx late_sta 0)) HT_AGG_STATE_STOP_CB"
    "tt_pending (the (tid_tx late_sta 0)) = []"
    "drv_calls 0 (stx_out late_sta) = [IEEE80211_AMPDU_TX_START, IEEE80211_AMPDU_TX_STOP_CONT]"
    using started_parts [of 0] by (simp_all add: evals)
qed

theorem late_start_callback_witness:
  "drv_calls 0 (stx_out (ba_work_tx (sample_agg_env 0) False 0 late_sta)) =
     [IEEE80211_AMPDU_TX_START, IEEE80211_AMPDU_TX_STOP_CONT, IEEE80211_AMPDU_TX_OPERATIONAL]"
  using late_start_callback [OF late_parts(1-7), of "sample_agg_env 0"] late_parts(8) by auto

theorem session_invariant_witness:
  "sq_stop (the (stx_txq late_sta 0)) \<and> tt_addba_resp_timer (the (tid_tx late_sta 0)) = None"
proof -
  have "late_sta = run sess_step (fresh_sta_tx 255 False True False (\<lambda>_. True) (\<lambda>_. 0x120) (fresh_local 4 [sample_iface])) late_inputs"
    by (simp add: late_sta_def sample_agg_sta_def)
  moreover have "tt_state (the (tid_tx late_sta 0)) HT_AGG_STATE_STOPPING" "\<not> tt_state (the (tid_tx late_sta 0)) HT_AGG_STATE_DRV_READY"
    using late_parts(1,3) by (auto simp: late_start_cb_def split: option.splits)
  ultimately show ?thesis using session_invariant [OF _ late_parts(3)] late_parts(4) by blast
qed

theorem addba_requests_bounded_witness:
  "requests 0 (stx_out (started 0)) \<le> requests 0 (stx_out sample_agg_sta) + 16"
  using addba_requests_bounded [where before = "[]" and after = "start_inputs 0" and tid = 0, OF refl]
  by (simp add: started_def sample_agg_sta_def start_inputs_def)

theorem driver_protocol_witness:
  "drv_path DrvIdle [IEEE80211_AMPDU_TX_START, IEEE80211_AMPDU_TX_OPERATIONAL] DrvOperational"
proof -
  have "timely_run sample_agg_sta (accept_inputs 1)"
    by (simp add: accept_inputs_def start_inputs_def late_start_cb_def ieee80211_start_tx_ba_session_def start_refused_def
        sample_agg_sta_def fresh_sta_tx_def Let_def)
  from driver_protocol [OF sample_agg_sta_def this accepted_def, of 0] show ?thesis
    by (simp add: accepted_immediate)
qed

theorem destroyed_sessions_stay_dead_witness:
  "dead_at 0 (run sess_step (destroy_ba_sessions (sample_agg_env 0) (started 0)) [(sample_agg_env 0, DriverStopped 0)])"
  using destroyed_sessions_stay_dead [OF refl, where tid = 0 and after = "[(sample_agg_env 0, DriverStopped 0)]"]
  by (simp add: unblocks_def IEEE80211_NUM_TIDS_def started_def sample_agg_sta_def del: run.simps)

section \<open>Frames between two stations\<close>

definition sample_agg_if :: agg_if where
  "sample_agg_if = \<lparr>ai_type = NL80211_IFTYPE_STATION, ai_addr = [2, 0, 0, 0, 0, 1], ai_mgd_bssid = [2, 0, 0, 0, 0, 2],
     ai_ibss_bssid = replicate 6 0\<rparr>"

definition sample_peer_addr :: "u8 list" where "sample_peer_addr = [2, 0, 0, 0, 0, 2]"

lemma sample_agg_if_ok: "agg_if_ok sample_agg_if" "length sample_peer_addr = ETH_ALEN"
  by (simp_all add: agg_if_ok_def sample_agg_if_def sample_peer_addr_def ETH_ALEN_def)

theorem block_ack_frames_roundtrip_witness:
  "rx_back_action NL80211_IFTYPE_STATION (the (ieee80211_send_delba True sample_agg_if sample_peer_addr 5 1 37)) = BackQueue"
  using block_ack_frames_roundtrip [OF sample_agg_if_ok, where tid = 5 and sz = 64 and start = 7 and initiator = 1 and reason = 37
      and delba = "the (ieee80211_send_delba True sample_agg_if sample_peer_addr 5 1 37)", simplified]
  by (simp add: ieee80211_send_addba_request_def ieee80211_send_addba_resp_def ieee80211_send_delba_def ieee80211_send_bar_def Let_def)

lemma sample_peer_answers:
  "start_rx_ba_session sample_env 1 0 0x12 1 0 64 True False (new_sta 64) =
     (fst (start_rx_ba_session sample_env 1 0 0x12 1 0 64 True False (new_sta 64)),
      [DrvAmpduAction \<lparr>ap_action = IEEE80211_AMPDU_RX_START, ap_tid = 0, ap_ssn = 0x12, ap_buf_size = 64, ap_amsdu = False, ap_timeout = 0\<rparr>,
       SendAddbaResp 0 1 WLAN_STATUS_SUCCESS 1 64 0])"
  by (simp add: start_rx_ba_session_def start_rx_outcome_def start_rx_session_def new_sta_def sample_env_def ba_constants)

definition sample_request :: "u8 list" where
  "sample_request = the (ieee80211_send_addba_request True sample_agg_if sample_peer_addr 0 1 0x12 64 0)"

definition sample_answer :: "u8 list" where
  "sample_answer = the (ieee80211_send_addba_resp True False sample_agg_if sample_peer_addr 0 1 WLAN_STATUS_SUCCESS 1 64 0)"

theorem addba_handshake_agrees_witness:
  "\<exists>t'. tid_tx (fst (snd (the (iface_back sample_env (sample_agg_env 1) sample_answer (new_sta 64) (started 1))))) 0 = Some t' \<and>
     tt_state t' HT_AGG_STATE_OPERATIONAL"
proof -
  let ?t = "new_tid_tx 0 1\<lparr>tt_state := (\<lambda>b. (1::int) = 1 \<and> b = HT_AGG_STATE_DRV_READY), tt_addba_resp_timer := Some 1250\<rparr>"
  have t: "tid_tx (started 1) 0 = Some ?t" "tt_dialog_token ?t = 1" using started_parts(1) [of 1] by (simp_all add: new_tid_tx_def)
  have i: "agg_inv (started 1)" unfolding started_def sample_agg_sta_def by (rule reachable_inv)
  have req: "ieee80211_send_addba_request True sample_agg_if sample_peer_addr 0 (tt_dialog_token ?t) 0x12 64 0 = Some sample_request"
    unfolding t(2) sample_request_def by (simp add: ieee80211_send_addba_request_def)
  have rx: "iface_back sample_env (sample_agg_env 1) sample_request (new_sta 64) (started 1) =
      Some (fst (start_rx_ba_session sample_env 1 0 0x12 1 0 64 True False (new_sta 64)), started 1,
        snd (start_rx_ba_session sample_env 1 0 0x12 1 0 64 True False (new_sta 64)))"
    using request_received(1) [OF req sample_agg_if_ok, where rx = "new_sta 64" and tx = "started 1" and henv = sample_env and env = "sample_agg_env 1"]
    by (simp add: new_tid_tx_def split_beta)
  have e: "SendAddbaResp 0 1 WLAN_STATUS_SUCCESS 1 64 0 \<in> set (snd (start_rx_ba_session sample_env 1 0 0x12 1 0 64 True False (new_sta 64)))"
    by (subst sample_peer_answers) simp
  have resp: "ieee80211_send_addba_resp True False sample_agg_if sample_peer_addr 0 1 WLAN_STATUS_SUCCESS 1 64 0 = Some sample_answer"
    by (simp add: sample_answer_def ieee80211_send_addba_resp_def)
  obtain s' where tx: "iface_back sample_env (sample_agg_env 1) sample_answer (new_sta 64) (started 1) = Some (new_sta 64, s', [])"
    by (rule resp_received [OF resp sample_agg_if_ok, where rx = "new_sta 64" and env = "sample_agg_env 1" and tx = "started 1" and henv = sample_env])
      simp_all
  have "0 < ae_max_tx_aggregation_subframes (sample_agg_env 1)" "\<not> agg_session_valid (ampdu_mlme (new_sta 64)) 0"
    "\<not> supports_reordering_buffer sample_env" "0 < max_rx_aggregation_subframes (new_sta 64)"
    by (simp_all add: sample_agg_env_def new_sta_def sample_env_def)
  from addba_handshake_agrees [OF sample_agg_if_ok(1) sample_agg_if_ok(1) sample_agg_if_ok(2) sample_agg_if_ok(2) _ _ _ i t(1) _ _ _ this req rx _ resp tx] e
  show ?thesis using tx by (auto simp: t(2) new_tid_tx_def)
qed

end
