(* ===== verification/PacketNumber.thy ===== *)
theory PacketNumber
  imports Frames
begin

text \<open>
  What the ciphers of net/mac80211/wpa.c share: the key configuration, the results of the
  handlers, packet numbers as bytes with \<open>memcmp\<close>, and the wrapper around the kernel's
  authenticated encryption (aead_api.c, aes_ccm.h, aes_gcm.h). The kernel's algorithm is a
  parameter, the record \<open>crypto_aead\<close>.
\<close>

section \<open>Keys, flags and results\<close>

text \<open>\<open>struct ieee80211_key_conf\<close>; \<open>keylen\<close> is the length of the key.\<close>

record ieee80211_key_conf =
  kc_tx_pn :: u64
  kc_cipher :: u32
  kc_keyidx :: int
  kc_flags :: u16
  kc_key :: "u8 list"

text \<open>\<open>enum mac80211_rx_flags\<close> and \<open>enum ieee80211_key_flags\<close>, as far as used.\<close>

definition RX_FLAG_MMIC_ERROR :: u32 where "RX_FLAG_MMIC_ERROR = BIT 0"
definition RX_FLAG_DECRYPTED :: u32 where "RX_FLAG_DECRYPTED = BIT 1"
definition RX_FLAG_MMIC_STRIPPED :: u32 where "RX_FLAG_MMIC_STRIPPED = BIT 3"
definition RX_FLAG_IV_STRIPPED :: u32 where "RX_FLAG_IV_STRIPPED = BIT 4"
definition RX_FLAG_PN_VALIDATED :: u32 where "RX_FLAG_PN_VALIDATED = BIT 10"
definition RX_FLAG_MIC_STRIPPED :: u32 where "RX_FLAG_MIC_STRIPPED = BIT 21"
definition RX_FLAG_ALLOW_SAME_PN :: u32 where "RX_FLAG_ALLOW_SAME_PN = BIT 22"
definition RX_FLAG_ICV_STRIPPED :: u32 where "RX_FLAG_ICV_STRIPPED = BIT 23"

definition IEEE80211_KEY_FLAG_GENERATE_IV_MGMT :: u16 where "IEEE80211_KEY_FLAG_GENERATE_IV_MGMT = 0x0001"
definition IEEE80211_KEY_FLAG_GENERATE_IV :: u16 where "IEEE80211_KEY_FLAG_GENERATE_IV = 0x0002"
definition IEEE80211_KEY_FLAG_GENERATE_MMIC :: u16 where "IEEE80211_KEY_FLAG_GENERATE_MMIC = 0x0004"
definition IEEE80211_KEY_FLAG_PUT_IV_SPACE :: u16 where "IEEE80211_KEY_FLAG_PUT_IV_SPACE = 0x0020"
definition IEEE80211_KEY_FLAG_PUT_MIC_SPACE :: u16 where "IEEE80211_KEY_FLAG_PUT_MIC_SPACE = 0x0100"

lemmas rx_flag_defs = RX_FLAG_MMIC_ERROR_def RX_FLAG_DECRYPTED_def RX_FLAG_MMIC_STRIPPED_def
  RX_FLAG_IV_STRIPPED_def RX_FLAG_PN_VALIDATED_def RX_FLAG_MIC_STRIPPED_def RX_FLAG_ALLOW_SAME_PN_def
  RX_FLAG_ICV_STRIPPED_def

lemmas key_flag_defs = IEEE80211_KEY_FLAG_GENERATE_IV_MGMT_def IEEE80211_KEY_FLAG_GENERATE_IV_def
  IEEE80211_KEY_FLAG_GENERATE_MMIC_def IEEE80211_KEY_FLAG_PUT_IV_SPACE_def IEEE80211_KEY_FLAG_PUT_MIC_SPACE_def

text \<open>
  \<open>info->control.hw_key\<close>: None where encryption is done in software, otherwise the
  flags of the key the hardware uses.
\<close>

type_synonym hw_key = "u16 option"

definition hw_key_has :: "hw_key \<Rightarrow> u16 \<Rightarrow> bool" where
  "hw_key_has hw f \<longleftrightarrow> (case hw of None \<Rightarrow> False | Some flags \<Rightarrow> flags AND f \<noteq> 0)"

lemma hw_key_none [simp]: "\<not> hw_key_has None f"
  by (simp add: hw_key_has_def)

datatype ieee80211_rx_result = RX_CONTINUE | RX_DROP_UNUSABLE | RX_DROP_MONITOR | RX_QUEUED
datatype ieee80211_tx_result = TX_CONTINUE | TX_DROP

section \<open>The frames of a transmission\<close>

text \<open>\<open>ieee80211_tx_set_protected\<close> on the fragments with their \<open>hw_key\<close>.\<close>

fun ieee80211_tx_set_protected :: "(hw_key \<times> sk_buff) list \<Rightarrow> (hw_key \<times> sk_buff) list option" where
  "ieee80211_tx_set_protected [] = Some []"
| "ieee80211_tx_set_protected ((hw, skb) # skbs) = do {
     skb \<leftarrow> set_protected skb;
     skbs \<leftarrow> ieee80211_tx_set_protected skbs;
     Some ((hw, skb) # skbs) }"

text \<open>
  The handlers walk over the fragments and stop at the first error; each fragment has its own
  \<open>hw_key\<close>.
\<close>

fun encrypt_queue ::
  "(hw_key \<Rightarrow> 'k \<Rightarrow> sk_buff \<Rightarrow> (status \<times> 'k \<times> sk_buff) option) \<Rightarrow> 'k \<Rightarrow> (hw_key \<times> sk_buff) list \<Rightarrow>
     (ieee80211_tx_result \<times> 'k \<times> (hw_key \<times> sk_buff) list) option" where
  "encrypt_queue enc k [] = Some (TX_CONTINUE, k, [])"
| "encrypt_queue enc k ((hw, skb) # skbs) = do {
     (st, k, skb) \<leftarrow> enc hw k skb;
     if st \<noteq> ok then Some (TX_DROP, k, (hw, skb) # skbs)
     else do {
       (res, k, skbs) \<leftarrow> encrypt_queue enc k skbs;
       Some (res, k, (hw, skb) # skbs)
     }
   }"

section \<open>Packet numbers\<close>

text \<open>\<open>memcmp\<close> on byte strings of the same length: the sign of its result.\<close>

fun memcmp :: "u8 list \<Rightarrow> u8 list \<Rightarrow> int" where
  "memcmp (a # as) (b # bs) = (if a < b then -1 else if b < a then 1 else memcmp as bs)"
| "memcmp _ _ = 0"

text \<open>The number a big-endian byte string stands for.\<close>

fun be_value :: "u8 list \<Rightarrow> nat" where
  "be_value [] = 0"
| "be_value (a # as) = unat a * 256 ^ length as + be_value as"

lemma be_digit_less:
  assumes "x < (y :: nat)" and "r < k"
  shows "x * k + r < y * k + s"
proof -
  have "x * k + r < Suc x * k" using assms(2) by simp
  also have "\<dots> \<le> y * k" using assms(1) by (intro mult_le_mono1) simp
  finally show ?thesis by simp
qed

lemma be_value_bound: "be_value as < 256 ^ length as"
proof (induction as)
  case (Cons a as)
  have "unat a < 256" using unsigned_less [of a, where 'a = nat] by simp
  from be_digit_less [OF this Cons, of 0] show ?case by simp
qed simp

lemma be_value_zeros: "be_value (replicate n 0) = 0"
  by (induction n) simp_all

lemma memcmp_value:
  "length as = length bs \<Longrightarrow>
     (memcmp as bs < 0 \<longleftrightarrow> be_value as < be_value bs) \<and> (memcmp as bs = 0 \<longleftrightarrow> as = bs)"
proof (induction as bs rule: memcmp.induct)
  case (1 a as b bs)
  have bound: "be_value as < 256 ^ length bs" "be_value bs < 256 ^ length bs"
    using be_value_bound [of as] be_value_bound [of bs] 1 by simp_all
  consider "a < b" | "b < a" | "a = b" by fastforce
  then show ?case
  proof cases
    case 1
    then have "unat a < unat b" by (simp add: word_less_nat_alt)
    from be_digit_less [OF this bound(1)] show ?thesis using 1 \<open>length (a # as) = length (b # bs)\<close> by auto
  next
    case 2
    then have "unat b < unat a" by (simp add: word_less_nat_alt)
    from be_digit_less [OF this bound(2), of "be_value as"] show ?thesis
      using 2 \<open>length (a # as) = length (b # bs)\<close> by auto
  next
    case 3
    then show ?thesis using 1 by simp
  qed
qed auto

lemmas memcmp_less = memcmp_value [THEN conjunct1]
lemmas memcmp_eq = memcmp_value [THEN conjunct2]

lemma memcmp_flip: "memcmp bs as = - memcmp as bs"
  by (induction as bs rule: memcmp.induct) auto

lemma memcmp_le: "length as = length bs \<Longrightarrow> memcmp as bs \<le> 0 \<longleftrightarrow> be_value as \<le> be_value bs"
  using memcmp_less [of bs as] memcmp_flip [of as bs] by auto

text \<open>The 48 bits of \<open>tx_pn\<close> that are sent, most significant byte first.\<close>

definition pn_bytes :: "u64 \<Rightarrow> u8 list" where
  "pn_bytes pn64 =
     [ucast (drop_bit 40 pn64), ucast (drop_bit 32 pn64), ucast (drop_bit 24 pn64),
      ucast (drop_bit 16 pn64), ucast (drop_bit 8 pn64), ucast pn64]"

lemma length_pn_bytes [simp]: "length (pn_bytes x) = 6"
  by (simp add: pn_bytes_def)

lemma unat_byte: "unat (ucast (drop_bit n (x :: u64)) :: u8) = unat x div 2 ^ n mod 256"
proof -
  have "unat (ucast (drop_bit n x) :: u8) = unat (drop_bit n x) mod 256"
    by (simp add: unsigned_ucast_eq take_bit_eq_mod)
  also have "unat (drop_bit n x) = unat x div 2 ^ n"
    unfolding unat_drop_bit_eq by (rule drop_bit_eq_div)
  finally show ?thesis .
qed

lemma be_value_pn_bytes: "be_value (pn_bytes x) = unat x mod 2 ^ 48"
proof -
  define n where "n = unat x"
  have b: "unat (ucast x :: u8) = n mod 256" using unat_byte [of 0 x] by (simp add: n_def)
  have "be_value (pn_bytes x) = (n div 2 ^ 40 mod 256) * 256 ^ 5 + ((n div 2 ^ 32 mod 256) * 256 ^ 4
      + ((n div 2 ^ 24 mod 256) * 256 ^ 3 + ((n div 2 ^ 16 mod 256) * 256 ^ 2
      + ((n div 2 ^ 8 mod 256) * 256 + n mod 256))))"
    by (simp add: pn_bytes_def unat_byte b n_def [symmetric])
  also have "\<dots> = n mod 2 ^ 48"
  proof -
    have step: "n mod (2 ^ k * 256) = (n div 2 ^ k mod 256) * 2 ^ k + n mod 2 ^ k" for k
      by (simp add: mod_mult2_eq)
    show ?thesis using step [of 8] step [of 16] step [of 24] step [of 32] step [of 40] by simp
  qed
  finally show ?thesis by (simp add: n_def)
qed

lemma pn_bytes_eq: "pn_bytes x = pn_bytes y \<Longrightarrow> unat x mod 2 ^ 48 = unat y mod 2 ^ 48"
  by (metis be_value_pn_bytes)

section \<open>Authenticated encryption\<close>

text \<open>
  The transform of the kernel's crypto library: how many bytes of the first block it reads,
  the length of the authentication tag, encryption of a plaintext to ciphertext and tag, and
  decryption, which checks the tag. Both may report an error.
\<close>

record crypto_aead =
  aead_ivlen :: nat
  aead_authsize :: nat
  crypto_aead_encrypt :: "u8 list \<Rightarrow> u8 list \<Rightarrow> u8 list \<Rightarrow> errno + u8 list"
  crypto_aead_decrypt :: "u8 list \<Rightarrow> u8 list \<Rightarrow> u8 list \<Rightarrow> errno + u8 list"

text \<open>
  \<open>aead_encrypt\<close> encrypts the data in place and writes the tag behind it. It ignores
  what the transform reports (the buffers are then as before).
\<close>

definition aead_encrypt ::
  "bool \<Rightarrow> crypto_aead \<Rightarrow> u8 list \<Rightarrow> u8 list \<Rightarrow> u8 list \<Rightarrow> u8 list \<Rightarrow> status \<times> u8 list \<times> u8 list" where
  "aead_encrypt alloc_ok tfm b_0 aad data mic =
     (if \<not> alloc_ok then (Inl ENOMEM, data, mic)
      else case crypto_aead_encrypt tfm (take (aead_ivlen tfm) b_0) aad data of
             Inl e \<Rightarrow> (ok, data, mic)
           | Inr out \<Rightarrow> (ok, take (length data) out, drop (length data) out))"

definition aead_decrypt ::
  "bool \<Rightarrow> crypto_aead \<Rightarrow> u8 list \<Rightarrow> u8 list \<Rightarrow> u8 list \<Rightarrow> u8 list \<Rightarrow> errno + u8 list" where
  "aead_decrypt alloc_ok tfm b_0 aad data mic =
     (if data = [] then Inl EINVAL
      else if \<not> alloc_ok then Inl ENOMEM
      else crypto_aead_decrypt tfm (take (aead_ivlen tfm) b_0) aad (data @ mic))"

text \<open>
  The callers pass the additional data in an array of 32 bytes: its length in the first two
  bytes, then the data. Reading behind the array is None.
\<close>

definition aad_of :: "u8 list \<Rightarrow> u8 list option" where
  "aad_of aad = do { a \<leftarrow> rd_u8 aad 0; b \<leftarrow> rd_u8 aad 1; rd_bytes aad 2 (unat (le16 b a)) }"

definition ieee80211_aes_ccm_encrypt ::
  "bool \<Rightarrow> crypto_aead \<Rightarrow> u8 list \<Rightarrow> u8 list \<Rightarrow> u8 list \<Rightarrow> u8 list \<Rightarrow> (status \<times> u8 list \<times> u8 list) option" where
  "ieee80211_aes_ccm_encrypt alloc_ok tfm b_0 aad data mic =
     do { a \<leftarrow> aad_of aad; Some (aead_encrypt alloc_ok tfm b_0 a data mic) }"

definition ieee80211_aes_ccm_decrypt ::
  "bool \<Rightarrow> crypto_aead \<Rightarrow> u8 list \<Rightarrow> u8 list \<Rightarrow> u8 list \<Rightarrow> u8 list \<Rightarrow> (errno + u8 list) option" where
  "ieee80211_aes_ccm_decrypt alloc_ok tfm b_0 aad data mic =
     do { a \<leftarrow> aad_of aad; Some (aead_decrypt alloc_ok tfm b_0 a data mic) }"

definition ieee80211_aes_gcm_encrypt ::
  "bool \<Rightarrow> crypto_aead \<Rightarrow> u8 list \<Rightarrow> u8 list \<Rightarrow> u8 list \<Rightarrow> u8 list \<Rightarrow> (status \<times> u8 list \<times> u8 list) option" where
  "ieee80211_aes_gcm_encrypt alloc_ok tfm j_0 aad data mic =
     do { a \<leftarrow> aad_of aad; Some (aead_encrypt alloc_ok tfm j_0 a data mic) }"

definition ieee80211_aes_gcm_decrypt ::
  "bool \<Rightarrow> crypto_aead \<Rightarrow> u8 list \<Rightarrow> u8 list \<Rightarrow> u8 list \<Rightarrow> u8 list \<Rightarrow> (errno + u8 list) option" where
  "ieee80211_aes_gcm_decrypt alloc_ok tfm j_0 aad data mic =
     do { a \<leftarrow> aad_of aad; Some (aead_decrypt alloc_ok tfm j_0 a data mic) }"

text \<open>
  What a transform promises: encryption succeeds, appends a tag of the set length and is
  undone by decryption under the same nonce and additional data.
\<close>

definition aead_correct :: "crypto_aead \<Rightarrow> bool" where
  "aead_correct tfm \<longleftrightarrow>
     (\<forall>iv aad plain. \<exists>out. crypto_aead_encrypt tfm iv aad plain = Inr out \<and>
        length out = length plain + aead_authsize tfm \<and> crypto_aead_decrypt tfm iv aad out = Inr plain)"

lemma aead_encrypt_works:
  assumes "aead_correct tfm"
  shows "\<exists>c m. aead_encrypt True tfm b_0 aad data mic = (ok, c, m) \<and> length c = length data \<and>
    length m = aead_authsize tfm \<and>
    (\<forall>b_1. take (aead_ivlen tfm) b_1 = take (aead_ivlen tfm) b_0 \<longrightarrow> data \<noteq> [] \<longrightarrow>
       aead_decrypt True tfm b_1 aad c m = Inr data)"
proof -
  obtain out where out: "crypto_aead_encrypt tfm (take (aead_ivlen tfm) b_0) aad data = Inr out"
    "length out = length data + aead_authsize tfm"
    "crypto_aead_decrypt tfm (take (aead_ivlen tfm) b_0) aad out = Inr data"
    using assms unfolding aead_correct_def by blast
  have "take (length data) out \<noteq> []" if "data \<noteq> []" using out(2) that by auto
  then show ?thesis using out by (auto simp: aead_encrypt_def aead_decrypt_def)
qed

end
