(* ===== verification/Wep.thy ===== *)
theory Wep
  imports PacketNumber
begin

text \<open>
  WEP of net/mac80211/wep.c: the choice of the initialisation vector, the frame around the
  encrypted payload, encryption and decryption with the check value.

  The stream cipher and the checksum are the kernel's: \<open>arc4\<close> applies the cipher with a
  key to a byte string (None for a transform that could not be allocated), \<open>crc32_le\<close>
  takes the start value and the bytes.
\<close>

definition IEEE80211_WEP_IV_LEN :: nat where "IEEE80211_WEP_IV_LEN = 4"
definition IEEE80211_WEP_ICV_LEN :: nat where "IEEE80211_WEP_ICV_LEN = 4"
definition WLAN_KEY_LEN_WEP104 :: nat where "WLAN_KEY_LEN_WEP104 = 13"

lemmas wep_lengths = IEEE80211_WEP_IV_LEN_def IEEE80211_WEP_ICV_LEN_def WLAN_KEY_LEN_WEP104_def

type_synonym crypto_cipher = "(u8 list \<Rightarrow> u8 list \<Rightarrow> u8 list) option"

record wep_lib =
  arc4 :: crypto_cipher
  crc32_le :: "u32 \<Rightarrow> u8 list \<Rightarrow> u32"

section \<open>The initialisation vector\<close>

definition ieee80211_wep_weak_iv :: "u32 \<Rightarrow> int \<Rightarrow> bool" where
  "ieee80211_wep_weak_iv iv keylen \<longleftrightarrow>
     iv AND 0xff00 = 0xff00 \<and>
     (let B = uint (ucast (drop_bit 16 iv AND 0xff) :: u8) in 3 \<le> B \<and> B < 3 + keylen)"

definition wep_next_iv :: "int \<Rightarrow> u32 \<Rightarrow> u32" where
  "wep_next_iv keylen wep_iv =
     (let iv = wep_iv + 1 in if ieee80211_wep_weak_iv iv keylen then iv + 0x0100 else iv)"

definition ieee80211_wep_get_iv :: "int \<Rightarrow> int \<Rightarrow> u32 \<Rightarrow> u8 list \<times> u32" where
  "ieee80211_wep_get_iv keylen keyidx wep_iv =
     (let iv = wep_next_iv keylen wep_iv in
      ([ucast (drop_bit 16 iv AND 0xff), ucast (drop_bit 8 iv AND 0xff), ucast (iv AND 0xff),
        push_bit 6 (word_of_int keyidx)], iv))"

text \<open>Room for the vector. The result is the offset of the vector, None for NULL.\<close>

definition ieee80211_wep_add_iv ::
  "int \<Rightarrow> int \<Rightarrow> hw_key \<Rightarrow> u32 \<Rightarrow> sk_buff \<Rightarrow> (nat option \<times> u32 \<times> sk_buff) option" where
  "ieee80211_wep_add_iv keylen keyidx hw wep_iv skb = do {
     skb \<leftarrow> set_protected skb;
     fc \<leftarrow> hdr_frame_control (sk_data skb);
     if length (sk_head skb) < IEEE80211_WEP_IV_LEN then Some (None, wep_iv, skb)
     else do {
       let hdrlen = ieee80211_hdrlen fc;
       skb \<leftarrow> skb_open_gap IEEE80211_WEP_IV_LEN hdrlen skb;
       if hw_key_has hw IEEE80211_KEY_FLAG_PUT_IV_SPACE then Some (Some hdrlen, wep_iv, skb)
       else case ieee80211_wep_get_iv keylen keyidx wep_iv of
         (iv, wep_iv) \<Rightarrow> do { skb \<leftarrow> skb_write hdrlen iv skb; Some (Some hdrlen, wep_iv, skb) }
     }
   }"

definition ieee80211_wep_remove_iv :: "sk_buff \<Rightarrow> sk_buff option" where
  "ieee80211_wep_remove_iv skb = do {
     fc \<leftarrow> hdr_frame_control (sk_data skb);
     skb_close_gap IEEE80211_WEP_IV_LEN (ieee80211_hdrlen fc) skb }"

section \<open>Encryption\<close>

text \<open>
  The data with the check value behind it, encrypted; -1 for a missing transform. The result
  of the decryption is the decrypted bytes and whether the check value matches.
\<close>

definition wep_icv :: "wep_lib \<Rightarrow> u8 list \<Rightarrow> u8 list" where
  "wep_icv lib data = le32_bytes (NOT (crc32_le lib (NOT 0) data))"

definition ieee80211_wep_encrypt_data :: "wep_lib \<Rightarrow> u8 list \<Rightarrow> u8 list \<Rightarrow> errno + u8 list" where
  "ieee80211_wep_encrypt_data lib rc4key data =
     (case arc4 lib of
        None \<Rightarrow> Inl EPERM
      | Some rc4 \<Rightarrow> Inr (rc4 rc4key (data @ wep_icv lib data)))"

definition ieee80211_wep_decrypt_data :: "wep_lib \<Rightarrow> u8 list \<Rightarrow> u8 list \<Rightarrow> bool \<times> u8 list" where
  "ieee80211_wep_decrypt_data lib rc4key data =
     (case arc4 lib of
        None \<Rightarrow> (False, data)
      | Some rc4 \<Rightarrow>
          let plain = rc4 rc4key data; len = length data - IEEE80211_WEP_ICV_LEN in
          (wep_icv lib (take len plain) = drop len plain, plain))"

text \<open>\<open>rc4key\<close> is an array of 16 bytes: a longer key is written behind it.\<close>

definition wep_rc4key :: "u8 list \<Rightarrow> u8 list \<Rightarrow> u8 list option" where
  "wep_rc4key iv key = (if length key \<le> WLAN_KEY_LEN_WEP104 then Some (iv @ key) else None)"

definition ieee80211_wep_encrypt ::
  "wep_lib \<Rightarrow> u8 list \<Rightarrow> int \<Rightarrow> hw_key \<Rightarrow> u32 \<Rightarrow> sk_buff \<Rightarrow> (status \<times> u32 \<times> sk_buff) option" where
  "ieee80211_wep_encrypt lib key keyidx hw wep_iv skb =
     (if length (sk_tail skb) < IEEE80211_WEP_ICV_LEN then Some (Inl EPERM, wep_iv, skb)
      else do {
        (iv, wep_iv, skb) \<leftarrow> ieee80211_wep_add_iv (int (length key)) keyidx hw wep_iv skb;
        case iv of
          None \<Rightarrow> Some (Inl EPERM, wep_iv, skb)
        | Some iv \<Rightarrow> do {
            let start = iv + IEEE80211_WEP_IV_LEN;
            data \<leftarrow> rd_bytes (sk_data skb) start (length (sk_data skb) - start);
            iv3 \<leftarrow> rd_bytes (sk_data skb) iv 3;
            rc4key \<leftarrow> wep_rc4key iv3 key;
            skb \<leftarrow> skb_put IEEE80211_WEP_ICV_LEN skb;
            case ieee80211_wep_encrypt_data lib rc4key data of
              Inl e \<Rightarrow> Some (Inl e, wep_iv, skb)
            | Inr out \<Rightarrow> do { skb \<leftarrow> skb_write start out skb; Some (ok, wep_iv, skb) }
          }
      })"

definition wep_encrypt_skb ::
  "wep_lib \<Rightarrow> ieee80211_key_conf \<Rightarrow> hw_key \<Rightarrow> u32 \<Rightarrow> sk_buff \<Rightarrow> (status \<times> u32 \<times> sk_buff) option" where
  "wep_encrypt_skb lib conf hw wep_iv skb =
     (if hw = None then ieee80211_wep_encrypt lib (kc_key conf) (kc_keyidx conf) hw wep_iv skb
      else if hw_key_has hw IEEE80211_KEY_FLAG_GENERATE_IV \<or> hw_key_has hw IEEE80211_KEY_FLAG_PUT_IV_SPACE
      then do {
        (iv, wep_iv, skb) \<leftarrow> ieee80211_wep_add_iv (int (length (kc_key conf))) (kc_keyidx conf) hw wep_iv skb;
        Some (case iv of None \<Rightarrow> Inl EPERM | Some i \<Rightarrow> ok, wep_iv, skb) }
      else Some (ok, wep_iv, skb))"

section \<open>Decryption\<close>

definition ieee80211_wep_decrypt ::
  "wep_lib \<Rightarrow> ieee80211_key_conf option \<Rightarrow> sk_buff \<Rightarrow> (status \<times> sk_buff) option" where
  "ieee80211_wep_decrypt lib key skb = do {
     fc \<leftarrow> hdr_frame_control (sk_data skb);
     let hdrlen = ieee80211_hdrlen fc;
     let total = length (sk_data skb);
     if \<not> ieee80211_has_protected fc then Some (Inl EPERM, skb)
     else if total < hdrlen + IEEE80211_WEP_IV_LEN + IEEE80211_WEP_ICV_LEN then Some (Inl EPERM, skb)
     else do {
       b \<leftarrow> rd_u8 (sk_data skb) (hdrlen + 3);
       let keyidx = uint (drop_bit 6 b);
       case key of
         None \<Rightarrow> Some (Inl EPERM, skb)
       | Some conf \<Rightarrow>
           if keyidx \<noteq> kc_keyidx conf then Some (Inl EPERM, skb)
           else do {
             iv3 \<leftarrow> rd_bytes (sk_data skb) hdrlen 3;
             rc4key \<leftarrow> wep_rc4key iv3 (kc_key conf);
             let start = hdrlen + IEEE80211_WEP_IV_LEN;
             data \<leftarrow> rd_bytes (sk_data skb) start (total - start);
             let (matches, plain) = ieee80211_wep_decrypt_data lib rc4key data;
             skb \<leftarrow> skb_write start plain skb;
             skb \<leftarrow> skb_close_gap IEEE80211_WEP_IV_LEN hdrlen (skb_trim_by IEEE80211_WEP_ICV_LEN skb);
             Some (if matches then ok else Inl EPERM, skb)
           }
     }
   }"

definition ieee80211_crypto_wep_decrypt ::
  "wep_lib \<Rightarrow> u32 \<Rightarrow> ieee80211_key_conf option \<Rightarrow> sk_buff \<Rightarrow> (ieee80211_rx_result \<times> sk_buff) option" where
  "ieee80211_crypto_wep_decrypt lib flag key skb = do {
     fc \<leftarrow> hdr_frame_control (sk_data skb);
     if \<not> ieee80211_is_data fc \<and> \<not> ieee80211_is_auth fc then Some (RX_CONTINUE, skb)
     else if \<not> flag_set flag RX_FLAG_DECRYPTED then do {
       (st, skb) \<leftarrow> ieee80211_wep_decrypt lib key skb;
       Some (if st = ok then RX_CONTINUE else RX_DROP_UNUSABLE, skb) }
     else if \<not> flag_set flag RX_FLAG_IV_STRIPPED then
       (if length (sk_data skb) < ieee80211_hdrlen fc + IEEE80211_WEP_IV_LEN then Some (RX_DROP_UNUSABLE, skb)
        else do {
          skb \<leftarrow> ieee80211_wep_remove_iv skb;
          Some (RX_CONTINUE,
            if flag_set flag RX_FLAG_ICV_STRIPPED then skb else skb_trim_by IEEE80211_WEP_ICV_LEN skb) })
     else Some (RX_CONTINUE, skb)
   }"

section \<open>Weak vectors\<close>

lemma second_byte: "uint (drop_bit 8 (x :: u32) AND 0xff) = uint x div 256 mod 256"
proof -
  have m: "(0xff :: u32) = Bit_Operations.mask 8" by (simp add: mask_eq_exp_minus_1)
  have "uint (drop_bit 8 x AND 0xff) = take_bit 8 (uint (drop_bit 8 x))"
    unfolding m by (simp add: take_bit_eq_mask [symmetric] unsigned_take_bit_eq)
  also have "uint (drop_bit 8 x) = uint x div 256"
    by (simp add: drop_bit_eq_div uint_div)
  finally show ?thesis by (simp add: take_bit_eq_mod)
qed

lemma carry_clears_weak:
  assumes "(iv :: u32) AND 0xff00 = 0xff00"
  shows "(iv + 0x100) AND 0xff00 \<noteq> 0xff00"
proof
  have byte: "uint x div 256 mod 256 = 255" if "x AND 0xff00 = 0xff00" for x :: u32
  proof -
    have "drop_bit 8 x AND 0xff = drop_bit 8 (x AND 0xff00)" by (simp add: drop_bit_and)
    then show ?thesis unfolding that second_byte [symmetric] by simp
  qed
  assume "(iv + 0x100) AND 0xff00 = 0xff00"
  then have "uint (iv + 0x100) div 256 mod 256 = 255" by (rule byte)
  moreover have "uint (iv + 0x100) = (uint iv + 256) mod 2 ^ 32" by (simp add: uint_word_ariths)
  ultimately have "(uint iv + 256) mod 2 ^ 32 div 256 mod 256 = 255" by simp
  moreover have "(uint iv + 256) mod 2 ^ 32 div 256 mod 256 = (uint iv + 256) div 256 mod 256"
  proof -
    have "x mod (256 * 2 ^ 24) = 256 * (x div 256 mod 2 ^ 24) + x mod 256" for x :: int
      by (rule zmod_zmult2_eq) simp
    then have "x mod 2 ^ 32 div 256 = x div 256 mod 2 ^ 24" for x :: int by simp
    then show ?thesis by (simp add: mod_mod_cancel)
  qed
  ultimately have "(uint iv + 256) div 256 mod 256 = 255" by simp
  moreover have "(uint iv + 256) div 256 mod 256 = (uint iv div 256 mod 256 + 1) mod 256"
  proof -
    have "(uint iv + 256) div 256 = uint iv div 256 + 1" by (rule div_add_self2) simp
    then show ?thesis by (simp only: mod_add_left_eq)
  qed
  ultimately show False using byte [OF assms] by simp
qed

lemma next_iv_not_weak: "\<not> ieee80211_wep_weak_iv (wep_next_iv keylen iv) keylen"
  using carry_clears_weak [of "iv + 1"]
  by (auto simp: wep_next_iv_def Let_def ieee80211_wep_weak_iv_def)

section \<open>Round trip\<close>

text \<open>What the library promises: the cipher keeps the length and applying it twice gives the data back.\<close>

definition wep_lib_ok :: "wep_lib \<Rightarrow> bool" where
  "wep_lib_ok lib \<longleftrightarrow>
     (\<exists>rc4. arc4 lib = Some rc4 \<and> (\<forall>k d. length (rc4 k d) = length d \<and> rc4 k (rc4 k d) = d))"

lemma icv_length [simp]: "length (wep_icv lib data) = 4"
  by (simp add: wep_icv_def le32_bytes_def)

lemma wep_data_roundtrip:
  assumes "wep_lib_ok lib"
  shows "\<exists>out. ieee80211_wep_encrypt_data lib k data = Inr out \<and> length out = length data + 4 \<and>
    ieee80211_wep_decrypt_data lib k out = (True, data @ wep_icv lib data)"
  using assms
  by (auto simp: wep_lib_ok_def ieee80211_wep_encrypt_data_def ieee80211_wep_decrypt_data_def wep_lengths)

definition ieee80211_crypto_wep_encrypt ::
  "wep_lib \<Rightarrow> ieee80211_key_conf \<Rightarrow> u32 \<Rightarrow> (hw_key \<times> sk_buff) list \<Rightarrow>
     (ieee80211_tx_result \<times> u32 \<times> (hw_key \<times> sk_buff) list) option" where
  "ieee80211_crypto_wep_encrypt lib conf wep_iv skbs = do {
     skbs \<leftarrow> ieee80211_tx_set_protected skbs;
     encrypt_queue (wep_encrypt_skb lib conf) wep_iv skbs }"

lemma wep_encrypted_form:
  assumes lib: "wep_lib_ok lib" and key: "length key \<le> 13"
    and skb: "sk_data skb = h @ payload" "hdr_frame_control h = Some fc" "length h = ieee80211_hdrlen fc"
      "4 \<le> length (sk_head skb)" "4 \<le> length (sk_tail skb)"
  shows "\<exists>skb' iv out. ieee80211_wep_encrypt lib key keyidx None wep_iv skb
      = Some (ok, wep_next_iv (int (length key)) wep_iv, skb') \<and>
    sk_data skb' = protect h @ iv @ [push_bit 6 (word_of_int keyidx)] @ out \<and>
    length iv = 3 \<and> length out = length payload + 4 \<and>
    ieee80211_wep_decrypt_data lib (iv @ key) out = (True, payload @ wep_icv lib payload)"
proof -
  have l: "10 \<le> length h" "2 \<le> length h" using skb(3) hdrlen_bounds(1) [of fc] by simp_all
  let ?s0 = "skb\<lparr>sk_data := protect h @ payload\<rparr>"
  have p: "set_protected skb = Some ?s0" by (rule set_protected_data [OF skb(1) l(2)])
  have fc: "hdr_frame_control (protect h @ payload) = Some (fc OR IEEE80211_FCTL_PROTECTED)"
    using protect_fc [OF l(2) skb(2)] frame_control_append [of "protect h" payload] l by simp
  obtain gap s1 where s1: "skb_open_gap 4 (length h) ?s0 = Some s1" "length gap = 4"
    "sk_data s1 = protect h @ gap @ payload" "sk_tail s1 = sk_tail skb"
    using skb_open_gap_data [of "length h" ?s0 4] skb(4) l by auto
  obtain iv where g: "ieee80211_wep_get_iv (int (length key)) keyidx wep_iv
      = (iv @ [push_bit 6 (word_of_int keyidx)], wep_next_iv (int (length key)) wep_iv)" "length iv = 3"
    by (simp add: ieee80211_wep_get_iv_def Let_def)
  let ?H = "iv @ [push_bit 6 (word_of_int keyidx)]"
  define s2 where "s2 = s1\<lparr>sk_data := protect h @ ?H @ payload\<rparr>"
  have w1: "skb_write (length h) ?H s1 = Some s2"
    using s1 l g(2) by (simp add: skb_write_def wr_bytes_def s2_def)
  have a: "ieee80211_wep_add_iv (int (length key)) keyidx None wep_iv skb
      = Some (Some (length h), wep_next_iv (int (length key)) wep_iv, s2)"
    using p fc s1(1) w1 g skb(4)
    by (simp add: ieee80211_wep_add_iv_def wep_lengths protected_fc skb(3) [symmetric])
  obtain out where out: "ieee80211_wep_encrypt_data lib (iv @ key) payload = Inr out" "length out = length payload + 4"
    "ieee80211_wep_decrypt_data lib (iv @ key) out = (True, payload @ wep_icv lib payload)"
    using wep_data_roundtrip [OF lib] by blast
  define s3 where "s3 = s2\<lparr>sk_data := protect h @ ?H @ payload @ take 4 (sk_tail skb), sk_tail := drop 4 (sk_tail skb)\<rparr>"
  have r: "rd_bytes (sk_data s2) (length h + 4) (length (sk_data s2) - (length h + 4)) = Some payload"
    "rd_bytes (sk_data s2) (length h) 3 = Some iv" "wep_rc4key iv key = Some (iv @ key)"
    using l g(2) key by (simp_all add: s2_def wep_rc4key_def wep_lengths)
  have t: "skb_put 4 s2 = Some s3" using s1 skb(5) by (simp add: skb_put_def s2_def s3_def)
  have w2: "skb_write (length h + 4) out s3 = Some (s3\<lparr>sk_data := protect h @ ?H @ out\<rparr>)"
    using l g(2) out(2) skb(5) by (simp add: skb_write_def wr_bytes_def s3_def)
  have "ieee80211_wep_encrypt lib key keyidx None wep_iv skb
      = Some (ok, wep_next_iv (int (length key)) wep_iv, s3\<lparr>sk_data := protect h @ ?H @ out\<rparr>)"
    using skb(5) a r t w2 out(1) by (simp add: ieee80211_wep_encrypt_def wep_lengths)
  then show ?thesis using g(2) out(2,3) by (intro exI [of _ "s3\<lparr>sk_data := protect h @ ?H @ out\<rparr>"]) auto
qed

lemma keyidx_byte: "0 \<le> k \<Longrightarrow> k < 4 \<Longrightarrow> uint (drop_bit 6 (push_bit 6 (word_of_int k) :: u8)) = k"
proof -
  assume k: "0 \<le> k" "k < 4"
  then have "k \<in> {0, 1, 2, 3}" by auto
  then show ?thesis by auto
qed

text \<open>No frame encrypted in software carries a vector of the weak class the code avoids, whatever the
  counter was, and the frame decrypts to what it was: for data frames, every key of up to 13
  bytes with index 0 to 3, and a library whose cipher undoes itself.\<close>

lemma wep_roundtrip:
  assumes "wep_lib_ok lib" and "length (kc_key conf) \<le> 13" and "0 \<le> kc_keyidx conf" and "kc_keyidx conf < 4"
    and "sk_data skb = h @ payload" and "hdr_frame_control h = Some fc" and "length h = ieee80211_hdrlen fc"
    and "ieee80211_is_data fc" and "4 \<le> length (sk_head skb)" and "4 \<le> length (sk_tail skb)"
  shows "\<exists>iv sent. wep_encrypt_skb lib conf None wep_iv skb = Some (ok, iv, sent) \<and>
    \<not> ieee80211_wep_weak_iv iv (int (length (kc_key conf))) \<and>
    (\<forall>air. sk_data air = sk_data sent \<longrightarrow>
      (\<exists>out. ieee80211_crypto_wep_decrypt lib 0 (Some conf) air = Some (RX_CONTINUE, out) \<and>
         sk_data out = protect h @ payload))"
proof -
  obtain sent iv out where e: "ieee80211_wep_encrypt lib (kc_key conf) (kc_keyidx conf) None wep_iv skb
      = Some (ok, wep_next_iv (int (length (kc_key conf))) wep_iv, sent)"
    "sk_data sent = protect h @ iv @ [push_bit 6 (word_of_int (kc_keyidx conf))] @ out"
    "length iv = 3" "length out = length payload + 4"
    "ieee80211_wep_decrypt_data lib (iv @ kc_key conf) out = (True, payload @ wep_icv lib payload)"
    using wep_encrypted_form [OF assms(1,2,5-7,9,10)] by blast
  have l: "10 \<le> length h" "2 \<le> length h" using assms(7) hdrlen_bounds(1) [of fc] by simp_all
  have "\<exists>out. ieee80211_crypto_wep_decrypt lib 0 (Some conf) air = Some (RX_CONTINUE, out) \<and> sk_data out = protect h @ payload"
    if air: "sk_data air = sk_data sent" for air
  proof -
    let ?H = "iv @ [push_bit 6 (word_of_int (kc_keyidx conf))]"
    have d: "sk_data air = protect h @ ?H @ out" using air e(2) by simp
    have fc: "hdr_frame_control (sk_data air) = Some (fc OR IEEE80211_FCTL_PROTECTED)"
      using protect_fc [OF l(2) assms(6)] frame_control_append [of "protect h"] l d by simp
    let ?s1 = "air\<lparr>sk_data := protect h @ ?H @ payload @ wep_icv lib payload\<rparr>"
    have w: "skb_write (length h + 4) (payload @ wep_icv lib payload) air = Some ?s1"
      using d l e(3,4) by (simp add: skb_write_def wr_bytes_def)
    have t: "sk_data (skb_trim_by 4 ?s1) = protect h @ ?H @ payload" using l e(3) by (simp add: skb_trim_by_def)
    obtain s2 where s2: "skb_close_gap 4 (length h) (skb_trim_by 4 ?s1) = Some s2" "sk_data s2 = protect h @ payload"
      using skb_close_gap_data [OF t] e(3) l by auto
    have b: "sk_data air ! (length h + 3) = push_bit 6 (word_of_int (kc_keyidx conf))"
      using d l e(3) by (simp add: nth_append)
    have "ieee80211_wep_decrypt lib (Some conf) air = Some (ok, s2)"
      using fc d l e(3-5) w s2(1) assms(2) b keyidx_byte [OF assms(3,4)]
      by (simp add: ieee80211_wep_decrypt_def protected_fc assms(7) [symmetric] wep_lengths wep_rc4key_def)
    then show ?thesis using fc s2(2) assms(8) by (simp add: ieee80211_crypto_wep_decrypt_def protected_fc)
  qed
  then show ?thesis using e(1) next_iv_not_weak by (auto simp: wep_encrypt_skb_def)
qed

definition sample_wep_lib :: wep_lib where
  "sample_wep_lib = \<lparr>arc4 = Some (\<lambda>k d. map (\<lambda>b. b XOR 0x5a) d), crc32_le = (\<lambda>start d. start + of_nat (length d))\<rparr>"

lemma sample_wep_lib_ok: "wep_lib_ok sample_wep_lib"
  by (simp add: wep_lib_ok_def sample_wep_lib_def comp_def xor.assoc)

lemma wep_roundtrip_witness:
  "\<exists>iv sent out. wep_encrypt_skb sample_wep_lib \<lparr>kc_tx_pn = 0, kc_cipher = 0x000FAC01, kc_keyidx = 2, kc_flags = 0, kc_key = [1, 2, 3, 4, 5]\<rparr>
       None 0x04feff \<lparr>sk_head = replicate 4 0, sk_data = [0x08, 0x01] @ replicate 22 7 @ [42], sk_tail = replicate 4 0\<rparr> = Some (ok, iv, sent) \<and>
     \<not> ieee80211_wep_weak_iv iv 5 \<and>
     ieee80211_crypto_wep_decrypt sample_wep_lib 0
       (Some \<lparr>kc_tx_pn = 0, kc_cipher = 0x000FAC01, kc_keyidx = 2, kc_flags = 0, kc_key = [1, 2, 3, 4, 5]\<rparr>) sent = Some (RX_CONTINUE, out) \<and>
     sk_data out = [0x08, 0x41] @ replicate 22 7 @ [42]"
proof -
  let ?conf = "\<lparr>kc_tx_pn = 0, kc_cipher = 0x000FAC01, kc_keyidx = 2, kc_flags = 0, kc_key = [1, 2, 3, 4, 5]\<rparr>"
  let ?skb = "\<lparr>sk_head = replicate 4 0, sk_data = [0x08, 0x01] @ replicate 22 7 @ [42 :: u8], sk_tail = replicate 4 0\<rparr>"
  let ?h = "[0x08, 0x01] @ replicate 22 (7 :: u8)"
  have d: "sk_data ?skb = ?h @ [42]" by simp
  have fc: "hdr_frame_control ?h = Some 0x0108" "length ?h = ieee80211_hdrlen 0x0108" "ieee80211_is_data 0x0108" by code_simp+
  have r: "4 \<le> length (sk_head ?skb)" "4 \<le> length (sk_tail ?skb)" "length (kc_key ?conf) \<le> 13" "0 \<le> kc_keyidx ?conf" "kc_keyidx ?conf < 4"
    by simp_all
  have p: "protect ?h @ [42] = [0x08, 0x41] @ replicate 22 7 @ [42]" by code_simp
  from wep_roundtrip [OF sample_wep_lib_ok r(3-5) d fc r(1,2), where wep_iv = "0x04feff", unfolded p] show ?thesis
    by auto
qed

end
