(* ===== verification/Michael.thy ===== *)
theory Michael
  imports PacketNumber
begin

text \<open>
  The Michael message integrity code (net/mac80211/michael.c) and its use on transmitted and
  received frames (\<open>ieee80211_tx_h_michael_mic_add\<close>,
  \<open>ieee80211_rx_h_michael_mic_verify\<close> of wpa.c).
\<close>

definition MICHAEL_MIC_LEN :: nat where "MICHAEL_MIC_LEN = 8"

section \<open>The code\<close>

record michael_mic_ctx =
  mic_l :: u32
  mic_r :: u32

definition rol32 :: "u32 \<Rightarrow> nat \<Rightarrow> u32" where "rol32 x n = word_rotl n x"
definition ror32 :: "u32 \<Rightarrow> nat \<Rightarrow> u32" where "ror32 x n = word_rotr n x"

definition michael_block :: "michael_mic_ctx \<Rightarrow> u32 \<Rightarrow> michael_mic_ctx" where
  "michael_block mctx val =
     (let l = mic_l mctx XOR val;
          r = mic_r mctx XOR rol32 l 17;
          l = l + r;
          r = r XOR (drop_bit 8 (l AND 0xff00ff00) OR push_bit 8 (l AND 0x00ff00ff));
          l = l + r;
          r = r XOR rol32 l 3;
          l = l + r;
          r = r XOR ror32 l 2;
          l = l + r
      in \<lparr>mic_l = l, mic_r = r\<rparr>)"

definition michael_mic_hdr :: "u8 list \<Rightarrow> u8 list \<Rightarrow> michael_mic_ctx option" where
  "michael_mic_hdr key hdr = do {
     fc \<leftarrow> hdr_frame_control hdr;
     let da = ieee80211_get_DA fc;
     let sa = ieee80211_get_SA fc;
     tid \<leftarrow> (if ieee80211_is_data_qos fc then ieee80211_get_tid hdr else Some 0);
     l \<leftarrow> get_unaligned_le32 key 0;
     r \<leftarrow> get_unaligned_le32 key 4;
     w1 \<leftarrow> get_unaligned_le32 hdr da;
     a \<leftarrow> get_unaligned_le16 hdr (da + 4);
     b \<leftarrow> get_unaligned_le16 hdr sa;
     w3 \<leftarrow> get_unaligned_le32 hdr (sa + 2);
     Some (fold (\<lambda>w m. michael_block m w)
       [w1, ucast a OR push_bit 16 (ucast b), w3, ucast tid] \<lparr>mic_l = l, mic_r = r\<rparr>) }"

text \<open>\<open>while (left > 0)\<close>: the bytes of the last, partial block.\<close>

fun partial_block :: "u8 list \<Rightarrow> nat \<Rightarrow> nat \<Rightarrow> u32 \<Rightarrow> u32" where
  "partial_block data base 0 val = val"
| "partial_block data base (Suc left) val =
     partial_block data base left (push_bit 8 val OR ucast (data ! (base + left)))"

definition michael_mic :: "u8 list \<Rightarrow> u8 list \<Rightarrow> u8 list \<Rightarrow> u8 list option" where
  "michael_mic key hdr data = do {
     mctx \<leftarrow> michael_mic_hdr key hdr;
     let blocks = length data div 4;
     let left = length data mod 4;
     let mctx = fold (\<lambda>block m. michael_block m
                        (le32 (data ! (block * 4)) (data ! (block * 4 + 1)) (data ! (block * 4 + 2)) (data ! (block * 4 + 3))))
                  [0..<blocks] mctx;
     let mctx = michael_block mctx (partial_block data (blocks * 4) left 0x5a);
     let mctx = michael_block mctx 0;
     Some (le32_bytes (mic_l mctx) @ le32_bytes (mic_r mctx)) }"

section \<open>The reference form\<close>

text \<open>
  The standard's definition: the blocks of the pseudo header and of the data with a byte 0x5a
  and four to seven zero bytes behind it, one after the other.
\<close>

fun words32 :: "u8 list \<Rightarrow> u32 list" where
  "words32 (a # b # c # d # rest) = le32 a b c d # words32 rest"
| "words32 _ = []"

definition michael_padding :: "nat \<Rightarrow> u8 list" where
  "michael_padding n = 0x5a # replicate (7 - n mod 4) 0"

definition michael_spec :: "u8 list \<Rightarrow> u8 list \<Rightarrow> u8 list" where
  "michael_spec key message =
     (let m = fold (\<lambda>w m. michael_block m w) (words32 message)
                \<lparr>mic_l = hd (words32 (take 4 key)), mic_r = hd (words32 (take 4 (drop 4 key)))\<rparr>
      in le32_bytes (mic_l m) @ le32_bytes (mic_r m))"

definition pseudo_header :: "u8 list \<Rightarrow> u8 list \<Rightarrow> u8 \<Rightarrow> u8 list" where
  "pseudo_header da sa tid = da @ sa @ [tid, 0, 0, 0]"

lemma words32_append: "length xs mod 4 = 0 \<Longrightarrow> words32 (xs @ ys) = words32 xs @ words32 ys"
proof (induction xs rule: words32.induct)
  case (1 a b c d rest)
  have "length rest mod 4 = length (a # b # c # d # rest) mod 4" by simp
  then have "length rest mod 4 = 0" using 1 by simp
  with 1 show ?case by simp
qed auto

lemma words32_blocks:
  assumes "4 * n \<le> length xs"
  shows "words32 (take (4 * n) xs) =
    map (\<lambda>k. le32 (xs ! (k * 4)) (xs ! (k * 4 + 1)) (xs ! (k * 4 + 2)) (xs ! (k * 4 + 3))) [0..<n]"
  using assms
proof (induction n)
  case (Suc n)
  have "take (4 * Suc n) xs = take (4 * n) xs @ [xs ! (4 * n), xs ! (4 * n + 1), xs ! (4 * n + 2), xs ! (4 * n + 3)]"
  proof -
    have "4 * Suc n = Suc (Suc (Suc (Suc (4 * n))))" by simp
    then show ?thesis using Suc.prems by (simp add: take_Suc_conv_app_nth numeral_eq_Suc)
  qed
  moreover have "length (take (4 * n) xs) mod 4 = 0" using Suc.prems by simp
  ultimately show ?case using Suc by (simp add: words32_append mult.commute)
qed simp

lemma le32_partial:
  "le32 a 0x5a 0 0 = 0x5a00 OR ucast a"
  "le32 a b 0x5a 0 = push_bit 8 (0x5a00 OR ucast b) OR ucast a"
  "le32 a b c 0x5a = push_bit 8 (push_bit 8 (0x5a00 OR ucast c) OR ucast b) OR ucast a"
  by (simp_all only: le32_def push_bit_or) (simp_all add: or.commute or.left_commute or.assoc)

text \<open>The partial block is the last word of the data followed by the padding.\<close>

lemma partial_block_padding:
  assumes "length rest < 4" and "length data = base + length rest" and "drop base data = rest"
  shows "words32 (rest @ michael_padding (length rest)) = [partial_block data base (length rest) 0x5a, 0]"
proof -
  have nth: "data ! (base + i) = rest ! i" if "i < length rest" for i
    using that assms by (metis nth_drop le_add1)
  have z: "le32 0 0 0 0 = 0" by (simp add: le32_def)
  consider "rest = []" | a where "rest = [a]" | a b where "rest = [a, b]" | a b c where "rest = [a, b, c]"
    using assms(1) by (cases rest; cases "tl rest"; cases "tl (tl rest)"; cases "tl (tl (tl rest))") auto
  then show ?thesis
  proof cases
    case 1
    have "michael_padding 0 = [0x5a, 0, 0, 0, 0, 0, 0, 0]" by code_simp
    then show ?thesis using 1 z by (simp add: le32_def)
  next
    case 2
    have "michael_padding (Suc 0) = [0x5a, 0, 0, 0, 0, 0, 0]" by code_simp
    then show ?thesis using 2 nth [of 0] z by (simp add: le32_partial)
  next
    case 3
    have "michael_padding (Suc (Suc 0)) = [0x5a, 0, 0, 0, 0, 0]" by code_simp
    then show ?thesis using 3 nth [of 0] nth [of "Suc 0"] z by (simp add: le32_partial)
  next
    case 4
    have "michael_padding (Suc (Suc (Suc 0))) = [0x5a, 0, 0, 0, 0]" by code_simp
    then show ?thesis using 4 nth [of 0] nth [of "Suc 0"] nth [of "Suc (Suc 0)"] z
      by (simp add: le32_partial)
  qed
qed

lemma get_le32_words: "off + 4 \<le> length d \<Longrightarrow> get_unaligned_le32 d off
    = Some (le32 (d ! off) (d ! (off + 1)) (d ! (off + 2)) (d ! (off + 3)))"
  by (simp add: get_unaligned_le32_def)

lemma get_le16_words: "off + 2 \<le> length d \<Longrightarrow> get_unaligned_le16 d off = Some (le16 (d ! off) (d ! (off + 1)))"
  by (simp add: get_unaligned_le16_def)

lemma le16_pair: "ucast (le16 a b) OR push_bit 16 (ucast (le16 c d)) = le32 a b c d"
proof (rule bit_word_eqI)
  fix n assume "n < LENGTH(32)"
  then consider "n < 8" | "8 \<le> n" "n < 16" | "16 \<le> n" "n < 24" | "24 \<le> n" "n < 32" by fastforce
  then show "bit (ucast (le16 a b) OR push_bit 16 (ucast (le16 c d)) :: u32) n = bit (le32 a b c d) n"
    by cases (auto simp: le16_def le32_def bit_or_iff bit_push_bit_iff bit_ucast_iff dest: bit_imp_le_length)
qed

lemma six_take: "off + 6 \<le> length d \<Longrightarrow>
    take 6 (drop off d) = [d ! off, d ! (off + 1), d ! (off + 2), d ! (off + 3), d ! (off + 4), d ! (off + 5)]"
  by (rule nth_equalityI) (auto simp: numeral_eq_Suc less_Suc_eq)

lemma words32_pseudo_header:
  assumes "da + 6 \<le> length d" and "sa + 6 \<le> length d"
  shows "words32 (pseudo_header (take 6 (drop da d)) (take 6 (drop sa d)) tid) =
    [le32 (d ! da) (d ! (da + 1)) (d ! (da + 2)) (d ! (da + 3)),
     le32 (d ! (da + 4)) (d ! (da + 5)) (d ! sa) (d ! (sa + 1)),
     le32 (d ! (sa + 2)) (d ! (sa + 3)) (d ! (sa + 4)) (d ! (sa + 5)), ucast tid]"
  by (simp add: pseudo_header_def six_take [OF assms(1)] six_take [OF assms(2)]) (simp add: le32_def)

lemma michael_mic_hdr_eq:
  assumes "hdr_frame_control hdr = Some fc" and "ieee80211_is_data fc" and "ieee80211_hdrlen fc \<le> length hdr"
    and "8 \<le> length key"
  shows "\<exists>tid. (if ieee80211_is_data_qos fc then ieee80211_get_tid hdr else Some 0) = Some tid \<and>
    michael_mic_hdr key hdr = Some (fold (\<lambda>w m. michael_block m w)
      (words32 (pseudo_header (take 6 (drop (ieee80211_get_DA fc) hdr)) (take 6 (drop (ieee80211_get_SA fc) hdr)) tid))
      \<lparr>mic_l = hd (words32 (take 4 key)), mic_r = hd (words32 (take 4 (drop 4 key)))\<rparr>)"
proof -
  let ?da = "ieee80211_get_DA fc" and ?sa = "ieee80211_get_SA fc"
  have b: "?da + 6 \<le> length hdr" "?sa + 6 \<le> length hdr"
    using hdrlen_addresses [OF assms(2)] assms(3) by (simp_all add: ETH_ALEN_def)
  have "\<exists>tid. (if ieee80211_is_data_qos fc then ieee80211_get_tid hdr else Some 0) = Some tid"
  proof (cases "ieee80211_is_data_qos fc")
    case True
    then have "ieee80211_get_qos_ctl fc < length hdr" using hdrlen_qos [of fc] assms(3) by simp
    with True assms(1) show ?thesis by (simp add: ieee80211_get_tid_def)
  qed simp
  then obtain tid where tid: "(if ieee80211_is_data_qos fc then ieee80211_get_tid hdr else Some 0) = Some tid" by blast
  have k: "words32 (take 4 key) = [le32 (key ! 0) (key ! 1) (key ! 2) (key ! 3)]"
    "words32 (take 4 (drop 4 key)) = [le32 (key ! 4) (key ! 5) (key ! 6) (key ! 7)]"
    using words32_blocks [of 1 key] words32_blocks [of 1 "drop 4 key"] assms(4) by (simp_all add: nth_drop numeral_2_eq_2)
  have w: "get_unaligned_le16 hdr (?da + 4) = Some (le16 (hdr ! (?da + 4)) (hdr ! (?da + 5)))"
    "get_unaligned_le32 hdr (?sa + 2) = Some (le32 (hdr ! (?sa + 2)) (hdr ! (?sa + 3)) (hdr ! (?sa + 4)) (hdr ! (?sa + 5)))"
    using b get_le16_words [of "?da + 4" hdr] get_le32_words [of "?sa + 2" hdr] by (simp_all add: numeral_eq_Suc)
  have kk: "get_unaligned_le32 key 0 = Some (le32 (key ! 0) (key ! 1) (key ! 2) (key ! 3))"
    "get_unaligned_le32 key 4 = Some (le32 (key ! 4) (key ! 5) (key ! 6) (key ! 7))"
    using assms(4) get_le32_words [of 0 key] get_le32_words [of 4 key] by (simp_all add: numeral_2_eq_2)
  show ?thesis using assms(1) b tid
    by (simp add: michael_mic_hdr_def words32_pseudo_header get_le32_words [of ?da] get_le16_words [of ?sa] w kk le16_pair k
        Let_def del: add_2_eq_Suc')
qed



text \<open>The first test vector of the standard.\<close>

lemma michael_test_vector:
  "michael_spec (replicate 8 0) (michael_padding 0) = [0x82, 0x92, 0x5c, 0x1c, 0xa1, 0xd1, 0x30, 0xb8]"
  by code_simp

section \<open>On transmitted frames\<close>

definition WLAN_CIPHER_SUITE_TKIP :: u32 where "WLAN_CIPHER_SUITE_TKIP = 0x000FAC02"
definition IEEE80211_TX_INTFL_TKIP_MIC_FAILURE :: u32 where "IEEE80211_TX_INTFL_TKIP_MIC_FAILURE = BIT 26"
definition IEEE80211_TX_CTL_DONTFRAG :: u32 where "IEEE80211_TX_CTL_DONTFRAG = BIT 30"
definition NL80211_TKIP_DATA_OFFSET_TX_MIC_KEY :: nat where "NL80211_TKIP_DATA_OFFSET_TX_MIC_KEY = 16"
definition NL80211_TKIP_DATA_OFFSET_RX_MIC_KEY :: nat where "NL80211_TKIP_DATA_OFFSET_RX_MIC_KEY = 24"
definition IEEE80211_TKIP_IV_LEN :: nat where "IEEE80211_TKIP_IV_LEN = 8"
definition IEEE80211_TKIP_ICV_LEN :: nat where "IEEE80211_TKIP_ICV_LEN = 4"

lemmas tkip_constants = WLAN_CIPHER_SUITE_TKIP_def IEEE80211_TX_INTFL_TKIP_MIC_FAILURE_def IEEE80211_TX_CTL_DONTFRAG_def
  NL80211_TKIP_DATA_OFFSET_TX_MIC_KEY_def NL80211_TKIP_DATA_OFFSET_RX_MIC_KEY_def IEEE80211_TKIP_IV_LEN_def
  IEEE80211_TKIP_ICV_LEN_def MICHAEL_MIC_LEN_def

text \<open>
  The key, \<open>info->flags\<close>, \<open>hw_key\<close> (cleared when the frame is to have a wrong MIC),
  whether the hardware fragments. The code writes the MIC into the tailroom it has just put.
\<close>

definition ieee80211_tx_h_michael_mic_add ::
  "ieee80211_key_conf option \<Rightarrow> u32 \<Rightarrow> bool \<Rightarrow> hw_key \<Rightarrow> sk_buff \<Rightarrow> (ieee80211_tx_result \<times> hw_key \<times> sk_buff) option" where
  "ieee80211_tx_h_michael_mic_add key flags supports_tx_frag hw skb = do {
     fc \<leftarrow> hdr_frame_control (sk_data skb);
     case key of
       None \<Rightarrow> Some (TX_CONTINUE, hw, skb)
     | Some conf \<Rightarrow>
         if kc_cipher conf \<noteq> WLAN_CIPHER_SUITE_TKIP \<or> length (sk_data skb) < 24 \<or> \<not> ieee80211_is_data_present fc
         then Some (TX_CONTINUE, hw, skb)
         else
           let hdrlen = ieee80211_hdrlen fc in
           if length (sk_data skb) < hdrlen then Some (TX_DROP, hw, skb)
           else
             let hw = (if flag_set flags IEEE80211_TX_INTFL_TKIP_MIC_FAILURE then None else hw);
                 tail = MICHAEL_MIC_LEN + (if hw = None then IEEE80211_TKIP_ICV_LEN else 0)
             in
             if hw \<noteq> None \<and> (flag_set flags IEEE80211_TX_CTL_DONTFRAG \<or> supports_tx_frag) \<and>
                kc_flags conf AND (IEEE80211_KEY_FLAG_GENERATE_MMIC OR IEEE80211_KEY_FLAG_PUT_MIC_SPACE) = 0
             then Some (TX_CONTINUE, hw, skb)
             else if length (sk_tail skb) < tail \<or> length (sk_head skb) < IEEE80211_TKIP_IV_LEN
             then Some (TX_DROP, hw, skb)
             else do {
               let data = drop hdrlen (sk_data skb);
               let pos = length (sk_data skb);
               skb \<leftarrow> skb_put MICHAEL_MIC_LEN skb;
               if kc_flags conf AND IEEE80211_KEY_FLAG_PUT_MIC_SPACE \<noteq> 0 then do {
                 skb \<leftarrow> skb_write pos (replicate MICHAEL_MIC_LEN 0) skb;
                 Some (TX_CONTINUE, hw, skb) }
               else do {
                 mic \<leftarrow> michael_mic (drop NL80211_TKIP_DATA_OFFSET_TX_MIC_KEY (kc_key conf)) (sk_data skb) data;
                 let mic = (if flag_set flags IEEE80211_TX_INTFL_TKIP_MIC_FAILURE then (hd mic + 1) # tl mic else mic);
                 skb \<leftarrow> skb_write pos mic skb;
                 Some (TX_CONTINUE, hw, skb) }
             }
   }"

end
