(* ===== verification/Tkip.thy ===== *)
theory Tkip
  imports Wep Michael
begin

text \<open>
  TKIP of net/mac80211/tkip.c and wpa.c: the two phases of key mixing, the sequence counter in
  the frame, encryption and decryption, the replay check and the check of the Michael MIC on
  received frames, which is where the counter is recorded.
\<close>

section \<open>Key mixing\<close>

definition tkip_sbox :: "u16 list" where
  "tkip_sbox = [
     0xC6A5, 0xF884, 0xEE99, 0xF68D, 0xFF0D, 0xD6BD, 0xDEB1, 0x9154,
     0x6050, 0x0203, 0xCEA9, 0x567D, 0xE719, 0xB562, 0x4DE6, 0xEC9A,
     0x8F45, 0x1F9D, 0x8940, 0xFA87, 0xEF15, 0xB2EB, 0x8EC9, 0xFB0B,
     0x41EC, 0xB367, 0x5FFD, 0x45EA, 0x23BF, 0x53F7, 0xE496, 0x9B5B,
     0x75C2, 0xE11C, 0x3DAE, 0x4C6A, 0x6C5A, 0x7E41, 0xF502, 0x834F,
     0x685C, 0x51F4, 0xD134, 0xF908, 0xE293, 0xAB73, 0x6253, 0x2A3F,
     0x080C, 0x9552, 0x4665, 0x9D5E, 0x3028, 0x37A1, 0x0A0F, 0x2FB5,
     0x0E09, 0x2436, 0x1B9B, 0xDF3D, 0xCD26, 0x4E69, 0x7FCD, 0xEA9F,
     0x121B, 0x1D9E, 0x5874, 0x342E, 0x362D, 0xDCB2, 0xB4EE, 0x5BFB,
     0xA4F6, 0x764D, 0xB761, 0x7DCE, 0x527B, 0xDD3E, 0x5E71, 0x1397,
     0xA6F5, 0xB968, 0x0000, 0xC12C, 0x4060, 0xE31F, 0x79C8, 0xB6ED,
     0xD4BE, 0x8D46, 0x67D9, 0x724B, 0x94DE, 0x98D4, 0xB0E8, 0x854A,
     0xBB6B, 0xC52A, 0x4FE5, 0xED16, 0x86C5, 0x9AD7, 0x6655, 0x1194,
     0x8ACF, 0xE910, 0x0406, 0xFE81, 0xA0F0, 0x7844, 0x25BA, 0x4BE3,
     0xA2F3, 0x5DFE, 0x80C0, 0x058A, 0x3FAD, 0x21BC, 0x7048, 0xF104,
     0x63DF, 0x77C1, 0xAF75, 0x4263, 0x2030, 0xE51A, 0xFD0E, 0xBF6D,
     0x814C, 0x1814, 0x2635, 0xC32F, 0xBEE1, 0x35A2, 0x88CC, 0x2E39,
     0x9357, 0x55F2, 0xFC82, 0x7A47, 0xC8AC, 0xBAE7, 0x322B, 0xE695,
     0xC0A0, 0x1998, 0x9ED1, 0xA37F, 0x4466, 0x547E, 0x3BAB, 0x0B83,
     0x8CCA, 0xC729, 0x6BD3, 0x283C, 0xA779, 0xBCE2, 0x161D, 0xAD76,
     0xDB3B, 0x6456, 0x744E, 0x141E, 0x92DB, 0x0C0A, 0x486C, 0xB8E4,
     0x9F5D, 0xBD6E, 0x43EF, 0xC4A6, 0x39A8, 0x31A4, 0xD337, 0xF28B,
     0xD532, 0x8B43, 0x6E59, 0xDAB7, 0x018C, 0xB164, 0x9CD2, 0x49E0,
     0xD8B4, 0xACFA, 0xF307, 0xCF25, 0xCAAF, 0xF48E, 0x47E9, 0x1018,
     0x6FD5, 0xF088, 0x4A6F, 0x5C72, 0x3824, 0x57F1, 0x73C7, 0x9751,
     0xCB23, 0xA17C, 0xE89C, 0x3E21, 0x96DD, 0x61DC, 0x0D86, 0x0F85,
     0xE090, 0x7C42, 0x71C4, 0xCCAA, 0x90D8, 0x0605, 0xF701, 0x1C12,
     0xC2A3, 0x6A5F, 0xAEF9, 0x69D0, 0x1791, 0x9958, 0x3A27, 0x27B9,
     0xD938, 0xEB13, 0x2BB3, 0x2233, 0xD2BB, 0xA970, 0x0789, 0x33A7,
     0x2DB6, 0x3C22, 0x1592, 0xC920, 0x8749, 0xAAFF, 0x5078, 0xA57A,
     0x038F, 0x59F8, 0x0980, 0x1A17, 0x65DA, 0xD731, 0x84C6, 0xD0B8,
     0x82C3, 0x29B0, 0x5A77, 0x1E11, 0x7BCB, 0xA8FC, 0x6DD6, 0x2C3A]"

definition swab16 :: "u16 \<Rightarrow> u16" where "swab16 x = push_bit 8 x OR drop_bit 8 x"
definition ror16 :: "u16 \<Rightarrow> nat \<Rightarrow> u16" where "ror16 x n = word_rotr n x"

definition tkipS :: "u16 \<Rightarrow> u16" where
  "tkipS val = tkip_sbox ! unat (val AND 0xff) XOR swab16 (tkip_sbox ! unat (drop_bit 8 val))"

text \<open>\<open>enum ieee80211_internal_tkip_state\<close>, \<open>struct tkip_ctx\<close>, \<open>struct tkip_ctx_rx\<close>.\<close>

datatype ieee80211_internal_tkip_state = TKIP_STATE_NOT_INIT | TKIP_STATE_PHASE1_DONE | TKIP_STATE_PHASE1_HW_UPLOADED

record tkip_ctx =
  p1k :: "u16 list"
  p1k_iv32 :: u32
  tkip_state :: ieee80211_internal_tkip_state

record tkip_ctx_rx =
  rx_tkip_ctx :: tkip_ctx
  rx_iv32 :: u32
  rx_iv16 :: u16

text \<open>The little-endian 16-bit words of the temporal key and of an address.\<close>

definition le16_at :: "u8 list \<Rightarrow> nat \<Rightarrow> u16" where
  "le16_at d off = le16 (d ! off) (d ! (off + 1))"

fun phase1_round :: "u8 list \<Rightarrow> nat \<Rightarrow> u16 list \<Rightarrow> u16 list" where
  "phase1_round tk i [a, b, c, d, e] =
     (let j = (if odd i then 2 else 0);
          a = a + tkipS (e XOR le16_at tk (0 + j));
          b = b + tkipS (a XOR le16_at tk (4 + j));
          c = c + tkipS (b XOR le16_at tk (8 + j));
          d = d + tkipS (c XOR le16_at tk (12 + j));
          e = e + tkipS (d XOR le16_at tk (0 + j)) + of_nat i
      in [a, b, c, d, e])"
| "phase1_round tk i p = p"

definition PHASE1_LOOP_COUNT :: nat where "PHASE1_LOOP_COUNT = 8"

definition phase1_key :: "u8 list \<Rightarrow> u8 list \<Rightarrow> u32 \<Rightarrow> u16 list" where
  "phase1_key tk ta tsc_IV32 =
     fold (phase1_round tk) [0..<PHASE1_LOOP_COUNT]
       [ucast (tsc_IV32 AND 0xFFFF), ucast (drop_bit 16 tsc_IV32), le16_at ta 0, le16_at ta 2, le16_at ta 4]"

definition tkip_mixing_phase1 :: "u8 list \<Rightarrow> u8 list \<Rightarrow> u32 \<Rightarrow> tkip_ctx" where
  "tkip_mixing_phase1 tk ta tsc_IV32 =
     \<lparr>p1k = phase1_key tk ta tsc_IV32, p1k_iv32 = tsc_IV32, tkip_state = TKIP_STATE_PHASE1_DONE\<rparr>"

definition write_tkip_iv :: "u16 \<Rightarrow> u8 list" where
  "write_tkip_iv iv16 =
     [ucast (drop_bit 8 iv16), (ucast (drop_bit 8 iv16) OR 0x20) AND 0x7f, ucast (iv16 AND 0xFF)]"

definition tkip_mixing_phase2 :: "u8 list \<Rightarrow> tkip_ctx \<Rightarrow> u16 \<Rightarrow> u8 list" where
  "tkip_mixing_phase2 tk ctx tsc_IV16 =
     (let p = p1k ctx;
          k0 = p ! 0; k1 = p ! 1; k2 = p ! 2; k3 = p ! 3; k4 = p ! 4; k5 = p ! 4 + tsc_IV16;
          k0 = k0 + tkipS (k5 XOR le16_at tk 0);
          k1 = k1 + tkipS (k0 XOR le16_at tk 2);
          k2 = k2 + tkipS (k1 XOR le16_at tk 4);
          k3 = k3 + tkipS (k2 XOR le16_at tk 6);
          k4 = k4 + tkipS (k3 XOR le16_at tk 8);
          k5 = k5 + tkipS (k4 XOR le16_at tk 10);
          k0 = k0 + ror16 (k5 XOR le16_at tk 12) 1;
          k1 = k1 + ror16 (k0 XOR le16_at tk 14) 1;
          k2 = k2 + ror16 k1 1;
          k3 = k3 + ror16 k2 1;
          k4 = k4 + ror16 k3 1;
          k5 = k5 + ror16 k4 1
      in write_tkip_iv tsc_IV16 @ [ucast (drop_bit 1 (k5 XOR le16_at tk 0) AND 0xFF)] @
         concat (map le16_bytes [k0, k1, k2, k3, k4, k5]))"

section \<open>Transmission\<close>

definition TKIP_PN_TO_IV16 :: "u64 \<Rightarrow> u16" where "TKIP_PN_TO_IV16 pn = ucast (pn AND 0xffff)"
definition TKIP_PN_TO_IV32 :: "u64 \<Rightarrow> u32" where "TKIP_PN_TO_IV32 pn = ucast (drop_bit 16 pn AND 0xffffffff)"

definition ieee80211_tkip_add_iv :: "int \<Rightarrow> u64 \<Rightarrow> u8 list" where
  "ieee80211_tkip_add_iv keyidx pn =
     write_tkip_iv (TKIP_PN_TO_IV16 pn) @ [push_bit 6 (word_of_int keyidx) OR 0x20] @
     le32_bytes (TKIP_PN_TO_IV32 pn)"

text \<open>The cached phase 1 key of the transmit context is computed again when the upper 32 bits differ.\<close>

definition ieee80211_compute_tkip_p1k :: "u8 list \<Rightarrow> u8 list \<Rightarrow> u32 \<Rightarrow> tkip_ctx \<Rightarrow> tkip_ctx" where
  "ieee80211_compute_tkip_p1k tk vif_addr iv32 ctx =
     (if p1k_iv32 ctx \<noteq> iv32 \<or> tkip_state ctx = TKIP_STATE_NOT_INIT
      then tkip_mixing_phase1 tk vif_addr iv32 else ctx)"

definition ieee80211_get_tkip_p1k_iv :: "u8 list \<Rightarrow> u8 list \<Rightarrow> u32 \<Rightarrow> tkip_ctx \<Rightarrow> u16 list \<times> tkip_ctx" where
  "ieee80211_get_tkip_p1k_iv tk vif_addr iv32 ctx =
     (let ctx = ieee80211_compute_tkip_p1k tk vif_addr iv32 ctx in (p1k ctx, ctx))"

definition ieee80211_get_tkip_rx_p1k :: "u8 list \<Rightarrow> u8 list \<Rightarrow> u32 \<Rightarrow> u16 list" where
  "ieee80211_get_tkip_rx_p1k tk ta iv32 = p1k (tkip_mixing_phase1 tk ta iv32)"

definition ieee80211_get_tkip_p2k :: "u8 list \<Rightarrow> u8 list \<Rightarrow> u8 list \<Rightarrow> tkip_ctx \<Rightarrow> (u8 list \<times> tkip_ctx) option" where
  "ieee80211_get_tkip_p2k tk vif_addr frame ctx = do {
     fc \<leftarrow> hdr_frame_control frame;
     let hdrlen = ieee80211_hdrlen fc;
     iv32 \<leftarrow> get_unaligned_le32 frame (hdrlen + 4);
     b2 \<leftarrow> rd_u8 frame (hdrlen + 2);
     b0 \<leftarrow> rd_u8 frame hdrlen;
     let iv16 = ucast b2 OR push_bit 8 (ucast b0);
     let ctx = ieee80211_compute_tkip_p1k tk vif_addr iv32 ctx;
     Some (tkip_mixing_phase2 tk ctx iv16, ctx) }"

definition ieee80211_tkip_encrypt_data ::
  "wep_lib \<Rightarrow> u8 list \<Rightarrow> u8 list \<Rightarrow> u8 list \<Rightarrow> tkip_ctx \<Rightarrow> u8 list \<Rightarrow> ((errno + u8 list) \<times> tkip_ctx) option" where
  "ieee80211_tkip_encrypt_data lib tk vif_addr frame ctx payload = do {
     (rc4key, ctx) \<leftarrow> ieee80211_get_tkip_p2k tk vif_addr frame ctx;
     Some (ieee80211_wep_encrypt_data lib rc4key payload, ctx) }"

text \<open>\<open>tkip_encrypt_skb\<close> on the key configuration and the transmit context.\<close>

type_synonym tkip_tx = "ieee80211_key_conf \<times> tkip_ctx"

definition tkip_encrypt_skb ::
  "wep_lib \<Rightarrow> u8 list \<Rightarrow> hw_key \<Rightarrow> tkip_tx \<Rightarrow> sk_buff \<Rightarrow> (status \<times> tkip_tx \<times> sk_buff) option" where
  "tkip_encrypt_skb lib vif_addr hw k skb = (case k of (conf, ctx) \<Rightarrow>
     if hw \<noteq> None \<and> \<not> hw_key_has hw IEEE80211_KEY_FLAG_GENERATE_IV \<and> \<not> hw_key_has hw IEEE80211_KEY_FLAG_PUT_IV_SPACE
     then Some (ok, k, skb)
     else do {
       fc \<leftarrow> hdr_frame_control (sk_data skb);
       let hdrlen = ieee80211_hdrlen fc;
       let len = length (sk_data skb) - hdrlen;
       let tail = (if hw \<noteq> None then 0 else IEEE80211_TKIP_ICV_LEN);
       if length (sk_tail skb) < tail \<or> length (sk_head skb) < IEEE80211_TKIP_IV_LEN then Some (Inl EPERM, k, skb)
       else do {
         skb \<leftarrow> skb_open_gap IEEE80211_TKIP_IV_LEN hdrlen skb;
         if hw_key_has hw IEEE80211_KEY_FLAG_PUT_IV_SPACE then Some (ok, k, skb)
         else do {
           let conf = conf\<lparr>kc_tx_pn := kc_tx_pn conf + 1\<rparr>;
           skb \<leftarrow> skb_write hdrlen (ieee80211_tkip_add_iv (kc_keyidx conf) (kc_tx_pn conf)) skb;
           if hw \<noteq> None then Some (ok, (conf, ctx), skb)
           else do {
             let pos = hdrlen + IEEE80211_TKIP_IV_LEN;
             payload \<leftarrow> rd_bytes (sk_data skb) pos len;
             skb \<leftarrow> skb_put IEEE80211_TKIP_ICV_LEN skb;
             (r, ctx) \<leftarrow> ieee80211_tkip_encrypt_data lib (kc_key conf) vif_addr (sk_data skb) ctx payload;
             case r of
               Inl e \<Rightarrow> Some (Inl e, (conf, ctx), skb)
             | Inr out \<Rightarrow> do { skb \<leftarrow> skb_write pos out skb; Some (ok, (conf, ctx), skb) }
           }
         }
       }
     })"

definition ieee80211_crypto_tkip_encrypt ::
  "wep_lib \<Rightarrow> u8 list \<Rightarrow> tkip_tx \<Rightarrow> (hw_key \<times> sk_buff) list \<Rightarrow>
     (ieee80211_tx_result \<times> tkip_tx \<times> (hw_key \<times> sk_buff) list) option" where
  "ieee80211_crypto_tkip_encrypt lib vif_addr k skbs = do {
     skbs \<leftarrow> ieee80211_tx_set_protected skbs;
     encrypt_queue (tkip_encrypt_skb lib vif_addr) k skbs }"

section \<open>Reception\<close>

definition TKIP_DECRYPT_OK :: int where "TKIP_DECRYPT_OK = 0"
definition TKIP_DECRYPT_NO_EXT_IV :: int where "TKIP_DECRYPT_NO_EXT_IV = -1"
definition TKIP_DECRYPT_INVALID_KEYIDX :: int where "TKIP_DECRYPT_INVALID_KEYIDX = -2"
definition TKIP_DECRYPT_REPLAY :: int where "TKIP_DECRYPT_REPLAY = -3"

lemmas tkip_results = TKIP_DECRYPT_OK_def TKIP_DECRYPT_NO_EXT_IV_def TKIP_DECRYPT_INVALID_KEYIDX_def TKIP_DECRYPT_REPLAY_def

text \<open>\<open>drv_update_tkip_key\<close>: the phase 1 key goes to the hardware.\<close>

datatype tkip_effect = DrvUpdateTkipKey u32 "u16 list"

text \<open>
  The payload starts with the counter. \<open>update_key\<close>: the driver has the operation and the
  key is in the hardware. The result: the code's result, the receive context, the payload as
  far as decrypted, the counter read, the calls to the driver.
\<close>

definition tkip_replayed :: "tkip_ctx_rx \<Rightarrow> u32 \<Rightarrow> u16 \<Rightarrow> bool" where
  "tkip_replayed rx_ctx iv32 iv16 \<longleftrightarrow>
     tkip_state (rx_tkip_ctx rx_ctx) \<noteq> TKIP_STATE_NOT_INIT \<and>
     (iv32 < rx_iv32 rx_ctx \<or> (iv32 = rx_iv32 rx_ctx \<and> iv16 \<le> rx_iv16 rx_ctx))"

definition ieee80211_tkip_decrypt_data ::
  "wep_lib \<Rightarrow> bool \<Rightarrow> ieee80211_key_conf \<Rightarrow> u8 list \<Rightarrow> u8 list \<Rightarrow> bool \<Rightarrow> tkip_ctx_rx \<Rightarrow>
     int \<times> tkip_ctx_rx \<times> u8 list \<times> (u32 \<times> u16) option \<times> tkip_effect list" where
  "ieee80211_tkip_decrypt_data lib update_key conf payload ta only_iv rx_ctx =
     (if length payload < 12 then (-1, rx_ctx, payload, None, [])
      else
        let iv16 = push_bit 8 (ucast (payload ! 0)) OR ucast (payload ! 2);
            keyid = payload ! 3;
            iv32 = le32 (payload ! 4) (payload ! 5) (payload ! 6) (payload ! 7);
            tk = kc_key conf
        in
        if keyid AND 0x20 = 0 then (TKIP_DECRYPT_NO_EXT_IV, rx_ctx, payload, None, [])
        else if uint (drop_bit 6 keyid) \<noteq> kc_keyidx conf then (TKIP_DECRYPT_INVALID_KEYIDX, rx_ctx, payload, None, [])
        else if tkip_replayed rx_ctx iv32 iv16 then (TKIP_DECRYPT_REPLAY, rx_ctx, payload, None, [])
        else if only_iv then
          (TKIP_DECRYPT_OK, rx_ctx\<lparr>rx_tkip_ctx := (rx_tkip_ctx rx_ctx)\<lparr>tkip_state := TKIP_STATE_PHASE1_HW_UPLOADED\<rparr>\<rparr>,
           payload, Some (iv32, iv16), [])
        else
          let ctx = (if tkip_state (rx_tkip_ctx rx_ctx) = TKIP_STATE_NOT_INIT \<or> rx_iv32 rx_ctx \<noteq> iv32
                     then tkip_mixing_phase1 tk ta iv32 else rx_tkip_ctx rx_ctx);
              (ctx, effects) = (if update_key \<and> tkip_state ctx \<noteq> TKIP_STATE_PHASE1_HW_UPLOADED
                     then (ctx\<lparr>tkip_state := TKIP_STATE_PHASE1_HW_UPLOADED\<rparr>, [DrvUpdateTkipKey iv32 (p1k ctx)])
                     else (ctx, []));
              rc4key = tkip_mixing_phase2 tk ctx iv16;
              (matches, plain) = ieee80211_wep_decrypt_data lib rc4key (drop 8 payload)
          in (if matches then TKIP_DECRYPT_OK else -1, rx_ctx\<lparr>rx_tkip_ctx := ctx\<rparr>, take 8 payload @ plain,
              if matches then Some (iv32, iv16) else None, effects))"

text \<open>\<open>key->u.tkip\<close> of a key as the receive path sees it: a context per TID.\<close>

record tkip_key =
  tk_conf :: ieee80211_key_conf
  tk_rx :: "tkip_ctx_rx list"
  tk_mic_failures :: u32

text \<open>
  \<open>rx->sta\<close> with its address, the flags, \<open>rx->security_idx\<close>, and whether the interface is
  an access point. A frame shorter than its header passes the length check of the code (the
  subtraction wraps) and is read behind its end: None.
\<close>

record tkip_rx =
  trx_sta :: "u8 list option"
  trx_flag :: u32
  trx_security_idx :: nat
  trx_ap :: bool
  trx_update_key :: bool

definition ieee80211_crypto_tkip_decrypt ::
  "wep_lib \<Rightarrow> tkip_rx \<Rightarrow> tkip_key \<Rightarrow> sk_buff \<Rightarrow>
     (ieee80211_rx_result \<times> tkip_key \<times> sk_buff \<times> (u32 \<times> u16) option \<times> tkip_effect list) option" where
  "ieee80211_crypto_tkip_decrypt lib rx key skb = do {
     fc \<leftarrow> hdr_frame_control (sk_data skb);
     let hdrlen = ieee80211_hdrlen fc;
     if \<not> ieee80211_is_data fc then Some (RX_CONTINUE, key, skb, None, [])
     else case trx_sta rx of
       None \<Rightarrow> Some (RX_DROP_UNUSABLE, key, skb, None, [])
     | Some ta \<Rightarrow>
         if length (sk_data skb) < hdrlen then None
         else if length (sk_data skb) - hdrlen < 12 then Some (RX_DROP_UNUSABLE, key, skb, None, [])
         else do {
           let idx = trx_security_idx rx;
           rx_ctx \<leftarrow> (if idx < length (tk_rx key) then Some (tk_rx key ! idx) else None);
           let (res, rx_ctx, payload, iv, effects) =
             ieee80211_tkip_decrypt_data lib (trx_update_key rx) (tk_conf key) (drop hdrlen (sk_data skb)) ta
               (flag_set (trx_flag rx) RX_FLAG_DECRYPTED) rx_ctx;
           let key = key\<lparr>tk_rx := (tk_rx key)[idx := rx_ctx]\<rparr>;
           skb \<leftarrow> skb_write hdrlen payload skb;
           if res \<noteq> TKIP_DECRYPT_OK then Some (RX_DROP_UNUSABLE, key, skb, iv, effects)
           else do {
             let skb = (if flag_set (trx_flag rx) RX_FLAG_ICV_STRIPPED then skb
                        else skb_trim_by IEEE80211_TKIP_ICV_LEN skb);
             skb \<leftarrow> skb_close_gap IEEE80211_TKIP_IV_LEN hdrlen skb;
             Some (RX_CONTINUE, key, skb, iv, effects) }
         }
   }"

text \<open>
  \<open>ieee80211_rx_h_michael_mic_verify\<close>: \<open>iv\<close> is what decryption left in
  \<open>rx->tkip_iv32\<close>, \<open>rx->tkip_iv16\<close>; the last component of the result says whether a
  MIC failure is reported.
\<close>

definition tkip_update_iv :: "nat \<Rightarrow> u32 \<times> u16 \<Rightarrow> tkip_key \<Rightarrow> tkip_key option" where
  "tkip_update_iv idx iv key =
     (if idx < length (tk_rx key)
      then Some (key\<lparr>tk_rx := (tk_rx key)[idx := (tk_rx key ! idx)\<lparr>rx_iv32 := fst iv, rx_iv16 := snd iv\<rparr>]\<rparr>)
      else None)"

definition ieee80211_rx_h_michael_mic_verify ::
  "tkip_rx \<Rightarrow> u32 \<times> u16 \<Rightarrow> tkip_key option \<Rightarrow> sk_buff \<Rightarrow>
     (ieee80211_rx_result \<times> tkip_key option \<times> sk_buff \<times> bool) option" where
  "ieee80211_rx_h_michael_mic_verify rx iv key skb = do {
     fc \<leftarrow> hdr_frame_control (sk_data skb);
     let flag = trx_flag rx;
     let hdrlen = ieee80211_hdrlen fc;
     let tkip = (case key of None \<Rightarrow> False | Some k \<Rightarrow> kc_cipher (tk_conf k) = WLAN_CIPHER_SUITE_TKIP);
     if \<not> ieee80211_is_data_present fc then Some (RX_CONTINUE, key, skb, False)
     else if flag_set flag (RX_FLAG_MMIC_STRIPPED OR RX_FLAG_IV_STRIPPED) then
       (if flag_set flag RX_FLAG_MMIC_ERROR then Some (RX_DROP_UNUSABLE, key, skb, True)
        else case key of
          Some k \<Rightarrow>
            if \<not> flag_set flag RX_FLAG_IV_STRIPPED \<and> tkip
            then do { k \<leftarrow> tkip_update_iv (trx_security_idx rx) iv k; Some (RX_CONTINUE, Some k, skb, False) }
            else Some (RX_CONTINUE, key, skb, False)
        | None \<Rightarrow> Some (RX_CONTINUE, key, skb, False))
     else case key of
       None \<Rightarrow> Some (RX_CONTINUE, key, skb, False)
     | Some k \<Rightarrow>
         if \<not> tkip \<or> \<not> flag_set flag RX_FLAG_DECRYPTED then Some (RX_CONTINUE, key, skb, False)
         else if trx_ap rx \<and> kc_keyidx (tk_conf k) \<noteq> 0 then Some (RX_DROP_UNUSABLE, key, skb, False)
         else if flag_set flag RX_FLAG_MMIC_ERROR
         then Some (RX_DROP_UNUSABLE, Some (k\<lparr>tk_mic_failures := tk_mic_failures k + 1\<rparr>), skb, True)
         else if length (sk_data skb) < hdrlen + MICHAEL_MIC_LEN then Some (RX_DROP_UNUSABLE, key, skb, False)
         else do {
           let data_len = length (sk_data skb) - hdrlen - MICHAEL_MIC_LEN;
           data \<leftarrow> rd_bytes (sk_data skb) hdrlen data_len;
           sent \<leftarrow> rd_bytes (sk_data skb) (hdrlen + data_len) MICHAEL_MIC_LEN;
           mic \<leftarrow> michael_mic (drop NL80211_TKIP_DATA_OFFSET_RX_MIC_KEY (kc_key (tk_conf k))) (sk_data skb) data;
           if mic \<noteq> sent
           then Some (RX_DROP_UNUSABLE, Some (k\<lparr>tk_mic_failures := tk_mic_failures k + 1\<rparr>), skb, True)
           else do {
             k \<leftarrow> tkip_update_iv (trx_security_idx rx) iv k;
             Some (RX_CONTINUE, Some k, skb_trim_by MICHAEL_MIC_LEN skb, False) }
         }
   }"

text \<open>
  An unfragmented frame through both handlers; \<open>ieee80211_rx_h_decrypt\<close> marks the frame as
  decrypted in between.
\<close>

definition tkip_receive ::
  "wep_lib \<Rightarrow> tkip_rx \<Rightarrow> tkip_key \<Rightarrow> sk_buff \<Rightarrow> (ieee80211_rx_result \<times> tkip_key \<times> sk_buff) option" where
  "tkip_receive lib rx key skb = do {
     (res, key, skb, iv, effects) \<leftarrow> ieee80211_crypto_tkip_decrypt lib rx key skb;
     if res \<noteq> RX_CONTINUE then Some (res, key, skb)
     else do {
       (res, k, skb, failure) \<leftarrow>
         ieee80211_rx_h_michael_mic_verify (rx\<lparr>trx_flag := trx_flag rx OR RX_FLAG_DECRYPTED\<rparr>)
           (case iv of Some v \<Rightarrow> v | None \<Rightarrow> (0, 0)) (Some key) skb;
       Some (res, case k of Some k \<Rightarrow> k | None \<Rightarrow> key, skb) } }"

section \<open>Replay\<close>

text \<open>
  How far a context has got: nothing while it has not decrypted a frame, then the counter
  recorded last.
\<close>

definition tsc :: "u32 \<Rightarrow> u16 \<Rightarrow> nat" where
  "tsc iv32 iv16 = unat iv32 * 2 ^ 16 + unat iv16"

definition tkip_ctx_level :: "tkip_ctx_rx \<Rightarrow> nat" where
  "tkip_ctx_level c = (if tkip_state (rx_tkip_ctx c) = TKIP_STATE_NOT_INIT then 0 else Suc (tsc (rx_iv32 c) (rx_iv16 c)))"

definition tkip_level :: "nat \<Rightarrow> tkip_key \<Rightarrow> nat" where
  "tkip_level idx key = tkip_ctx_level (tk_rx key ! idx)"

lemma tsc_less: "tsc a b < tsc c d \<longleftrightarrow> a < c \<or> (a = c \<and> b < d)"
proof -
  have l: "unat b < 2 ^ 16" "unat d < 2 ^ 16" using unsigned_less [of b, where 'a = nat] unsigned_less [of d, where 'a = nat] by simp_all
  consider "unat a < unat c" | "unat c < unat a" | "a = c" by (metis linorder_neqE_nat word_unat_eq_iff)
  then show ?thesis
  proof cases
    case 1
    then show ?thesis using be_digit_less [OF 1 l(1), of "unat d"] by (simp add: tsc_def word_less_nat_alt)
  next
    case 2
    then show ?thesis using be_digit_less [OF 2 l(2), of "unat b"] by (auto simp: tsc_def word_less_nat_alt)
  next
    case 3
    then show ?thesis by (simp add: tsc_def word_less_nat_alt)
  qed
qed

lemma replayed_iff:
  "tkip_state (rx_tkip_ctx c) \<noteq> TKIP_STATE_NOT_INIT \<Longrightarrow>
     tkip_replayed c iv32 iv16 \<longleftrightarrow> tsc iv32 iv16 \<le> tsc (rx_iv32 c) (rx_iv16 c)"
  using tsc_less [of "rx_iv32 c" "rx_iv16 c" iv32 iv16]
  by (auto simp: tkip_replayed_def not_less[symmetric])

text \<open>What decryption does to a context: it keeps the recorded counter and does not fall back.\<close>

lemma decrypt_data_ctx:
  assumes "ieee80211_tkip_decrypt_data lib update_key conf payload ta only_iv c = (res, c', payload', iv, effects)"
  shows "rx_iv32 c' = rx_iv32 c" and "rx_iv16 c' = rx_iv16 c"
    and "tkip_state (rx_tkip_ctx c) \<noteq> TKIP_STATE_NOT_INIT \<Longrightarrow> tkip_state (rx_tkip_ctx c') \<noteq> TKIP_STATE_NOT_INIT"
    and "res = TKIP_DECRYPT_OK \<Longrightarrow> tkip_state (rx_tkip_ctx c') \<noteq> TKIP_STATE_NOT_INIT \<and> 12 \<le> length payload \<and>
      iv = Some (le32 (payload ! 4) (payload ! 5) (payload ! 6) (payload ! 7), push_bit 8 (ucast (payload ! 0)) OR ucast (payload ! 2)) \<and>
      \<not> tkip_replayed c (fst (the iv)) (snd (the iv))"
  using assms
  by (auto simp: ieee80211_tkip_decrypt_data_def Let_def tkip_results tkip_mixing_phase1_def split: if_splits prod.splits)

definition next_ctx :: "tkip_ctx_rx \<Rightarrow> ieee80211_rx_result \<Rightarrow> (u32 \<times> u16) option \<Rightarrow> tkip_ctx_rx \<Rightarrow> bool" where
  "next_ctx c res iv c' \<longleftrightarrow> rx_iv32 c' = rx_iv32 c \<and> rx_iv16 c' = rx_iv16 c \<and>
     (tkip_state (rx_tkip_ctx c) \<noteq> TKIP_STATE_NOT_INIT \<longrightarrow> tkip_state (rx_tkip_ctx c') \<noteq> TKIP_STATE_NOT_INIT) \<and>
     (res = RX_CONTINUE \<longrightarrow> tkip_state (rx_tkip_ctx c') \<noteq> TKIP_STATE_NOT_INIT \<and>
        (\<exists>v. iv = Some v \<and> \<not> tkip_replayed c (fst v) (snd v)))"

lemma decrypt_frame_ctx:
  assumes "ieee80211_crypto_tkip_decrypt lib rx key skb = Some (res, key', skb', iv, effects)"
    and "hdr_frame_control (sk_data skb) = Some fc"
  shows "(\<not> ieee80211_is_data fc \<and> (res, key', skb', iv) = (RX_CONTINUE, key, skb, None)) \<or>
    (res = RX_DROP_UNUSABLE \<and> key' = key) \<or>
    (\<exists>c'. ieee80211_is_data fc \<and> trx_security_idx rx < length (tk_rx key) \<and>
      key' = key\<lparr>tk_rx := (tk_rx key)[trx_security_idx rx := c']\<rparr> \<and> next_ctx (tk_rx key ! trx_security_idx rx) res iv c')"
proof -
  let ?c = "tk_rx key ! trx_security_idx rx"
  show ?thesis
  proof (cases "ieee80211_is_data fc")
    case False
    then show ?thesis using assms by (auto simp: ieee80211_crypto_tkip_decrypt_def Let_def)
  next
    case data: True
    show ?thesis
    proof (cases "key' = key \<and> res = RX_DROP_UNUSABLE")
      case False
      obtain ta where ta: "trx_sta rx = Some ta"
        using assms data False by (cases "trx_sta rx") (auto simp: ieee80211_crypto_tkip_decrypt_def Let_def)
      obtain r c' p iv2 eff where d: "ieee80211_tkip_decrypt_data lib (trx_update_key rx) (tk_conf key)
          (drop (ieee80211_hdrlen fc) (sk_data skb)) ta (flag_set (trx_flag rx) RX_FLAG_DECRYPTED) ?c = (r, c', p, iv2, eff)"
        by (cases "ieee80211_tkip_decrypt_data lib (trx_update_key rx) (tk_conf key)
          (drop (ieee80211_hdrlen fc) (sk_data skb)) ta (flag_set (trx_flag rx) RX_FLAG_DECRYPTED) ?c")
      have "trx_security_idx rx < length (tk_rx key) \<and> key' = key\<lparr>tk_rx := (tk_rx key)[trx_security_idx rx := c']\<rparr> \<and>
          (res = RX_CONTINUE \<longrightarrow> r = TKIP_DECRYPT_OK) \<and> iv = iv2"
        using assms data ta False d
        by (auto simp: ieee80211_crypto_tkip_decrypt_def Let_def bind_eq_Some_conv split: if_splits)
      moreover have "next_ctx ?c res iv c'" if "res = RX_CONTINUE \<longrightarrow> r = TKIP_DECRYPT_OK" "iv = iv2"
        using decrypt_data_ctx [OF d] that by (auto simp: next_ctx_def)
      ultimately show ?thesis using data by blast
    qed simp
  qed
qed

text \<open>The MIC check records the counter of the frames it lets through.\<close>

lemma verify_ctx:
  assumes "ieee80211_rx_h_michael_mic_verify rx iv (Some key) skb = Some (res, k', skb', failure)"
  shows "\<exists>key'. k' = Some key' \<and> (tk_rx key' = tk_rx key \<or> trx_security_idx rx < length (tk_rx key) \<and> res = RX_CONTINUE \<and>
    tk_rx key' = (tk_rx key)[trx_security_idx rx := (tk_rx key ! trx_security_idx rx)\<lparr>rx_iv32 := fst iv, rx_iv16 := snd iv\<rparr>])"
  using assms
  by (auto simp: ieee80211_rx_h_michael_mic_verify_def tkip_update_iv_def Let_def bind_eq_Some_conv
      split: if_splits option.splits)

definition tkip_step :: "tkip_key \<Rightarrow> wep_lib \<times> tkip_rx \<times> sk_buff \<Rightarrow> tkip_key" where
  "tkip_step key f = (case f of (lib, rx, skb) \<Rightarrow>
     (case tkip_receive lib rx key skb of None \<Rightarrow> key | Some (res, key', skb') \<Rightarrow> key'))"

lemma data_present_data: "ieee80211_is_data_present fc \<Longrightarrow> ieee80211_is_data fc"
proof -
  assume "ieee80211_is_data_present fc"
  then have "(fc AND 0x004c) AND 0x000c = 0x0008" by (simp add: ieee80211_is_data_present_def fc_defs)
  moreover have "(fc AND 0x004c) AND 0x000c = fc AND 0x000c" by (simp add: and.assoc)
  ultimately show ?thesis by (simp add: ieee80211_is_data_def fc_defs)
qed

text \<open>
  A received frame leaves the number of contexts, and no context of the key falls behind; the
  context of an accepted data frame has its counter.
\<close>

lemma tkip_receive_key:
  assumes "tkip_receive lib rx key skb = Some (res, key', skb')"
  shows "tk_rx key' = tk_rx key \<or> (\<exists>c'. trx_security_idx rx < length (tk_rx key) \<and>
    tk_rx key' = (tk_rx key)[trx_security_idx rx := c'] \<and> tkip_ctx_level (tk_rx key ! trx_security_idx rx) \<le> tkip_ctx_level c')"
proof -
  let ?i = "trx_security_idx rx" and ?c = "tk_rx key ! trx_security_idx rx"
  obtain r1 k1 s1 iv e where d: "ieee80211_crypto_tkip_decrypt lib rx key skb = Some (r1, k1, s1, iv, e)"
    and rest: "(r1 \<noteq> RX_CONTINUE \<and> key' = k1) \<or> (\<exists>k s f.
      ieee80211_rx_h_michael_mic_verify (rx\<lparr>trx_flag := trx_flag rx OR RX_FLAG_DECRYPTED\<rparr>)
        (case iv of Some v \<Rightarrow> v | None \<Rightarrow> (0, 0)) (Some k1) s1 = Some (res, k, s, f) \<and> r1 = RX_CONTINUE \<and>
      key' = (case k of Some k \<Rightarrow> k | None \<Rightarrow> k1))"
    using assms by (auto simp: tkip_receive_def bind_eq_Some_conv split: if_splits)
  obtain fc where fc: "hdr_frame_control (sk_data skb) = Some fc"
    using d by (auto simp: ieee80211_crypto_tkip_decrypt_def bind_eq_Some_conv)
  consider "\<not> ieee80211_is_data fc" "(r1, k1, s1, iv) = (RX_CONTINUE, key, skb, None)"
    | "r1 = RX_DROP_UNUSABLE" "k1 = key"
    | c' where "?i < length (tk_rx key)" "k1 = key\<lparr>tk_rx := (tk_rx key)[?i := c']\<rparr>" "next_ctx ?c r1 iv c'"
    using decrypt_frame_ctx [OF d fc] by blast
  then show ?thesis
  proof cases
    case 1
    then have "\<not> ieee80211_is_data_present fc" using data_present_data by blast
    then show ?thesis using 1 rest fc by (auto simp: ieee80211_rx_h_michael_mic_verify_def Let_def)
  next
    case 2
    then show ?thesis using rest by auto
  next
    case 3
    have keep: "tkip_ctx_level ?c \<le> tkip_ctx_level c'" using 3(3) by (auto simp: next_ctx_def tkip_ctx_level_def)
    from rest show ?thesis
    proof
      assume "r1 \<noteq> RX_CONTINUE \<and> key' = k1"
      then show ?thesis using 3 keep by auto
    next
      assume "\<exists>k s f. ieee80211_rx_h_michael_mic_verify (rx\<lparr>trx_flag := trx_flag rx OR RX_FLAG_DECRYPTED\<rparr>)
          (case iv of Some v \<Rightarrow> v | None \<Rightarrow> (0, 0)) (Some k1) s1 = Some (res, k, s, f) \<and> r1 = RX_CONTINUE \<and>
        key' = (case k of Some k \<Rightarrow> k | None \<Rightarrow> k1)"
      then obtain k s f where m: "ieee80211_rx_h_michael_mic_verify (rx\<lparr>trx_flag := trx_flag rx OR RX_FLAG_DECRYPTED\<rparr>)
          (case iv of Some v \<Rightarrow> v | None \<Rightarrow> (0, 0)) (Some k1) s1 = Some (res, k, s, f)"
        and r1: "r1 = RX_CONTINUE" and k: "key' = (case k of Some k \<Rightarrow> k | None \<Rightarrow> k1)" by blast
      obtain v where v: "iv = Some v" "\<not> tkip_replayed ?c (fst v) (snd v)" "tkip_state (rx_tkip_ctx c') \<noteq> TKIP_STATE_NOT_INIT"
        using 3(3) r1 by (auto simp: next_ctx_def)
      let ?c2 = "c'\<lparr>rx_iv32 := fst v, rx_iv16 := snd v\<rparr>"
      have up: "tkip_ctx_level ?c \<le> tkip_ctx_level ?c2"
        using v replayed_iff [of ?c "fst v" "snd v"] by (auto simp: tkip_ctx_level_def)
      from verify_ctx [OF m] obtain key2 where k2: "k = Some key2" "tk_rx key2 = tk_rx k1 \<or>
          tk_rx key2 = (tk_rx k1)[?i := (tk_rx k1 ! ?i)\<lparr>rx_iv32 := fst v, rx_iv16 := snd v\<rparr>]"
        using v(1) by auto
      then have "tk_rx key' = (tk_rx key)[?i := c'] \<or> tk_rx key' = (tk_rx key)[?i := ?c2]" using 3(1,2) k by auto
      then show ?thesis using 3(1) keep up by blast
    qed
  qed
qed

interpretation tkip_replay: monotone_machine tkip_step "\<lambda>key. length (tk_rx key) = 16" "\<lambda>f. True" "tkip_level idx" for idx
proof
  fix key :: tkip_key and f assume wf: "length (tk_rx key) = 16"
  have "length (tk_rx (tkip_step key f)) = 16 \<and> tkip_level idx key \<le> tkip_level idx (tkip_step key f)"
    using wf tkip_receive_key
    by (fastforce simp: tkip_step_def tkip_level_def nth_list_update split: prod.split option.split)
  then show "length (tk_rx (tkip_step key f)) = 16" "tkip_level idx key \<le> tkip_level idx (tkip_step key f)" by auto
qed

section \<open>What encryption makes of a frame\<close>

text \<open>The cached phase 1 key belongs to the counter recorded with it.\<close>

definition p1k_cached :: "u8 list \<Rightarrow> u8 list \<Rightarrow> tkip_ctx \<Rightarrow> u32 \<Rightarrow> bool" where
  "p1k_cached tk ta ctx iv32 \<longleftrightarrow> tkip_state ctx = TKIP_STATE_NOT_INIT \<or> p1k ctx = phase1_key tk ta iv32"

definition tkip_rc4key :: "u8 list \<Rightarrow> u8 list \<Rightarrow> u32 \<Rightarrow> u16 \<Rightarrow> u8 list" where
  "tkip_rc4key tk ta iv32 iv16 = tkip_mixing_phase2 tk (tkip_mixing_phase1 tk ta iv32) iv16"

lemma phase2_p1k: "p1k ctx = phase1_key tk ta iv32 \<Longrightarrow> tkip_mixing_phase2 tk ctx iv16 = tkip_rc4key tk ta iv32 iv16"
  by (simp only: tkip_rc4key_def tkip_mixing_phase2_def tkip_mixing_phase1_def tkip_ctx.simps)

lemma newer_not_replayed: "tsc (rx_iv32 c) (rx_iv16 c) < tsc iv32 iv16 \<Longrightarrow> \<not> tkip_replayed c iv32 iv16"
  using replayed_iff [of c iv32 iv16] by (cases "tkip_state (rx_tkip_ctx c) = TKIP_STATE_NOT_INIT") (auto simp: tkip_replayed_def)

lemma compute_tkip_p1k:
  assumes "p1k_cached tk ta ctx (p1k_iv32 ctx)" and "ctx' = ieee80211_compute_tkip_p1k tk ta iv32 ctx"
  shows "p1k ctx' = phase1_key tk ta iv32" and "p1k_cached tk ta ctx' (p1k_iv32 ctx')"
proof -
  consider "p1k_iv32 ctx \<noteq> iv32 \<or> tkip_state ctx = TKIP_STATE_NOT_INIT" "ctx' = tkip_mixing_phase1 tk ta iv32"
    | "p1k_iv32 ctx = iv32" "tkip_state ctx \<noteq> TKIP_STATE_NOT_INIT" "ctx' = ctx"
    using assms(2) unfolding ieee80211_compute_tkip_p1k_def by (metis (full_types))
  then have "p1k ctx' = phase1_key tk ta iv32 \<and> p1k_cached tk ta ctx' (p1k_iv32 ctx')"
    by cases (use assms(1) in \<open>simp_all add: p1k_cached_def tkip_mixing_phase1_def\<close>)
  then show "p1k ctx' = phase1_key tk ta iv32" and "p1k_cached tk ta ctx' (p1k_iv32 ctx')" by simp_all
qed

lemma iv16_bytes [simp]:
  "push_bit 8 (ucast (ucast (drop_bit 8 (x :: u16)) :: u8)) OR ucast (ucast (x AND 0xFF) :: u8) = x"
  "ucast (ucast (x AND 0xFF) :: u8) OR push_bit 8 (ucast (ucast (drop_bit 8 (x :: u16)) :: u8)) = x"
proof -
  have a: "(ucast (x AND 0xFF) :: u8) = ucast x"
  proof (rule bit_word_eqI)
    fix n assume n: "n < LENGTH(8)"
    have m: "(0xFF :: u16) = mask 8" by (simp add: mask_eq_exp_minus_1)
    have "bit (0xFF :: u16) n" unfolding m bit_mask_iff using n by simp
    then show "bit (ucast (x AND 0xFF) :: u8) n = bit (ucast x :: u8) n"
      using n by (simp add: bit_ucast_iff bit_and_iff del: bit_numeral_rec)
  qed
  have b: "(ucast (ucast x :: u8) :: u16) OR push_bit 8 (ucast (ucast (drop_bit 8 x) :: u8)) = x"
    using le16_le16_bytes [of x] by (simp add: le16_def)
  show "ucast (ucast (x AND 0xFF) :: u8) OR push_bit 8 (ucast (ucast (drop_bit 8 (x :: u16)) :: u8)) = x"
    unfolding a by (rule b)
  then show "push_bit 8 (ucast (ucast (drop_bit 8 (x :: u16)) :: u8)) OR ucast (ucast (x AND 0xFF) :: u8) = x"
    by (simp only: or.commute)
qed

lemma tkip_keyid:
  assumes "0 \<le> k" and "k < 4"
  shows "(push_bit 6 (word_of_int k) OR 0x20 :: u8) AND 0x20 \<noteq> 0"
    and "uint (drop_bit 6 (push_bit 6 (word_of_int k) OR 0x20 :: u8)) = k"
proof -
  have "k \<in> {0, 1, 2, 3}" using assms by auto
  then show "(push_bit 6 (word_of_int k) OR 0x20 :: u8) AND 0x20 \<noteq> 0"
    and "uint (drop_bit 6 (push_bit 6 (word_of_int k) OR 0x20 :: u8)) = k"
    by (auto simp: push_bit_eq_mult drop_bit_eq_div uint_div)
qed

lemma length_add_iv [simp]: "length (ieee80211_tkip_add_iv k pn) = 8"
  by (simp add: ieee80211_tkip_add_iv_def write_tkip_iv_def le32_bytes_def)

text \<open>What the receiver, and \<open>ieee80211_get_tkip_p2k\<close>, read from the eight bytes.\<close>

lemma add_iv_read:
  fixes k :: int and pn :: u64
  defines "iv \<equiv> ieee80211_tkip_add_iv k pn"
  shows "push_bit 8 (ucast (iv ! 0)) OR ucast (iv ! 2) = TKIP_PN_TO_IV16 pn"
    and "ucast (iv ! 2) OR push_bit 8 (ucast (iv ! 0)) = TKIP_PN_TO_IV16 pn"
    and "iv ! 3 = push_bit 6 (word_of_int k) OR 0x20"
    and "le32 (iv ! 4) (iv ! 5) (iv ! 6) (iv ! 7) = TKIP_PN_TO_IV32 pn"
  by (simp_all add: iv_def ieee80211_tkip_add_iv_def write_tkip_iv_def le32_bytes_def)

lemma get_p2k:
  assumes "hdr_frame_control h = Some fc" and "length h = ieee80211_hdrlen fc"
  shows "ieee80211_get_tkip_p2k tk ta (h @ ieee80211_tkip_add_iv k pn @ t) ctx =
    (let ctx' = ieee80211_compute_tkip_p1k tk ta (TKIP_PN_TO_IV32 pn) ctx
     in Some (tkip_mixing_phase2 tk ctx' (TKIP_PN_TO_IV16 pn), ctx'))"
proof -
  let ?iv = "ieee80211_tkip_add_iv k pn"
  have h: "2 \<le> length h" "0 < length h" using assms(2) hdrlen_bounds(1) [of fc] by simp_all
  have n: "(h @ ?iv @ t) ! (length h + i) = ?iv ! i" if "i < 8" for i using that by (simp add: nth_append)
  have i: "rd_u8 (h @ ?iv @ t) (length h + i) = Some (?iv ! i)" if "i < 8" for i
    using that n [OF that] by (simp add: rd_u8_def)
  have "get_unaligned_le32 (h @ ?iv @ t) (length h + 4) = Some (TKIP_PN_TO_IV32 pn)"
  proof -
    have e: "length h + 4 + 1 = length h + 5" "length h + 4 + 2 = length h + 6" "length h + 4 + 3 = length h + 7" by simp_all
    have "rd_u8 (h @ ?iv @ t) (length h + 4) = Some (?iv ! 4)" "rd_u8 (h @ ?iv @ t) (length h + 5) = Some (?iv ! 5)"
      "rd_u8 (h @ ?iv @ t) (length h + 6) = Some (?iv ! 6)" "rd_u8 (h @ ?iv @ t) (length h + 7) = Some (?iv ! 7)"
      by (rule i, simp)+
    then show ?thesis by (simp only: get_unaligned_le32_def e Option.bind.bind_lunit add_iv_read(4))
  qed
  then show ?thesis
    using i [of 0] i [of 2] add_iv_read(2) [of k pn] frame_control_append [OF h(1), of "?iv @ t"] assms
    by (simp add: ieee80211_get_tkip_p2k_def Let_def)
qed

lemma tkip_encrypted_form:
  assumes lib: "wep_lib_ok lib"
    and skb: "sk_data skb = h @ payload" "hdr_frame_control h = Some fc" "length h = ieee80211_hdrlen fc"
      "8 \<le> length (sk_head skb)" "4 \<le> length (sk_tail skb)"
    and ctx: "p1k_cached (kc_key conf) ta ctx (p1k_iv32 ctx)"
  shows "\<exists>skb' ctx' out. tkip_encrypt_skb lib ta None (conf, ctx) skb
      = Some (ok, (conf\<lparr>kc_tx_pn := kc_tx_pn conf + 1\<rparr>, ctx'), skb') \<and>
    sk_data skb' = h @ ieee80211_tkip_add_iv (kc_keyidx conf) (kc_tx_pn conf + 1) @ out \<and>
    length out = length payload + 4 \<and> p1k_cached (kc_key conf) ta ctx' (p1k_iv32 ctx') \<and>
    ieee80211_wep_decrypt_data lib (tkip_rc4key (kc_key conf) ta (TKIP_PN_TO_IV32 (kc_tx_pn conf + 1))
      (TKIP_PN_TO_IV16 (kc_tx_pn conf + 1))) out = (True, payload @ wep_icv lib payload)"
proof -
  let ?pn = "kc_tx_pn conf + 1" and ?iv = "ieee80211_tkip_add_iv (kc_keyidx conf) (kc_tx_pn conf + 1)"
  have l: "10 \<le> length h" "2 \<le> length h" using skb(3) hdrlen_bounds(1) [of fc] by simp_all
  obtain gap s1 where s1: "skb_open_gap 8 (length h) skb = Some s1" "length gap = 8"
    "sk_data s1 = h @ gap @ payload" "sk_tail s1 = sk_tail skb"
    using skb_open_gap_data [of "length h" skb 8] skb(1,4) by auto
  define s2 where "s2 = s1\<lparr>sk_data := h @ ?iv @ payload\<rparr>"
  have w1: "skb_write (length h) ?iv s1 = Some s2" using s1 by (simp add: skb_write_def wr_bytes_def s2_def)
  define s3 where "s3 = s2\<lparr>sk_data := h @ ?iv @ payload @ take 4 (sk_tail skb), sk_tail := drop 4 (sk_tail skb)\<rparr>"
  have t: "skb_put 4 s2 = Some s3" using s1 skb(5) by (simp add: skb_put_def s2_def s3_def)
  define ctx' where "ctx' = ieee80211_compute_tkip_p1k (kc_key conf) ta (TKIP_PN_TO_IV32 ?pn) ctx"
  note c = compute_tkip_p1k [OF ctx ctx'_def]
  have p2k: "ieee80211_get_tkip_p2k (kc_key conf) ta (sk_data s3) ctx
    = Some (tkip_rc4key (kc_key conf) ta (TKIP_PN_TO_IV32 ?pn) (TKIP_PN_TO_IV16 ?pn), ctx')"
    using get_p2k [OF skb(2,3)] phase2_p1k [OF c(1)] by (simp add: s3_def ctx'_def Let_def)
  obtain out where out: "ieee80211_wep_encrypt_data lib (tkip_rc4key (kc_key conf) ta (TKIP_PN_TO_IV32 ?pn) (TKIP_PN_TO_IV16 ?pn)) payload = Inr out"
    "length out = length payload + 4"
    "ieee80211_wep_decrypt_data lib (tkip_rc4key (kc_key conf) ta (TKIP_PN_TO_IV32 ?pn) (TKIP_PN_TO_IV16 ?pn)) out = (True, payload @ wep_icv lib payload)"
    using wep_data_roundtrip [OF lib] by blast
  have r: "rd_bytes (sk_data s2) (length h + 8) (length payload) = Some payload" by (simp add: s2_def)
  have w2: "skb_write (length h + 8) out s3 = Some (s3\<lparr>sk_data := h @ ?iv @ out\<rparr>)"
    using out(2) skb(5) by (simp add: skb_write_def wr_bytes_def s3_def)
  have fc: "hdr_frame_control (sk_data skb) = Some fc" using skb(1,2) frame_control_append [OF l(2)] by simp
  have "tkip_encrypt_skb lib ta None (conf, ctx) skb
      = Some (ok, (conf\<lparr>kc_tx_pn := ?pn\<rparr>, ctx'), s3\<lparr>sk_data := h @ ?iv @ out\<rparr>)"
    using skb(4,5) fc s1(1) w1 r t p2k out(1) w2
    by (simp add: tkip_encrypt_skb_def skb(1) skb(3) [symmetric] tkip_constants ieee80211_tkip_encrypt_data_def Let_def)
  then show ?thesis using c(2) out(2,3) by (intro exI [of _ "s3\<lparr>sk_data := h @ ?iv @ out\<rparr>"]) auto
qed

text \<open>
  The receiver decrypts such a frame if its context does not hold it for repeated and has not
  cached the phase 1 key of another counter for it.
\<close>

lemma tkip_decrypted_form:
  assumes air: "sk_data air = h @ ieee80211_tkip_add_iv (kc_keyidx conf) pn @ out"
    and h: "hdr_frame_control h = Some fc" "length h = ieee80211_hdrlen fc" "ieee80211_is_data fc"
    and out: "length out = length payload + 4"
      "ieee80211_wep_decrypt_data lib (tkip_rc4key (kc_key conf) ta (TKIP_PN_TO_IV32 pn) (TKIP_PN_TO_IV16 pn)) out
        = (True, payload @ wep_icv lib payload)"
    and rx: "trx_sta rx = Some ta" "trx_flag rx = 0" "trx_security_idx rx < length (tk_rx key)"
      "tk_conf key = conf" "0 \<le> kc_keyidx conf" "kc_keyidx conf < 4"
    and new: "\<not> tkip_replayed (tk_rx key ! trx_security_idx rx) (TKIP_PN_TO_IV32 pn) (TKIP_PN_TO_IV16 pn)"
    and cached: "p1k_cached (kc_key conf) ta (rx_tkip_ctx (tk_rx key ! trx_security_idx rx)) (rx_iv32 (tk_rx key ! trx_security_idx rx))"
  shows "\<exists>key' s effects. ieee80211_crypto_tkip_decrypt lib rx key air
      = Some (RX_CONTINUE, key', s, Some (TKIP_PN_TO_IV32 pn, TKIP_PN_TO_IV16 pn), effects) \<and> sk_data s = h @ payload"
proof -
  let ?iv = "ieee80211_tkip_add_iv (kc_keyidx conf) pn" and ?c = "tk_rx key ! trx_security_idx rx"
  let ?iv32 = "TKIP_PN_TO_IV32 pn" and ?iv16 = "TKIP_PN_TO_IV16 pn"
  have l: "10 \<le> length h" "2 \<le> length h" using h(2) hdrlen_bounds(1) [of fc] by simp_all
  have f: "\<not> flag_set 0 m" for m :: u32 by (simp add: flag_set_def)
  define c1 where "c1 = (if tkip_state (rx_tkip_ctx ?c) = TKIP_STATE_NOT_INIT \<or> rx_iv32 ?c \<noteq> ?iv32
    then tkip_mixing_phase1 (kc_key conf) ta ?iv32 else rx_tkip_ctx ?c)"
  have "p1k c1 = phase1_key (kc_key conf) ta ?iv32"
    using cached by (auto simp: c1_def p1k_cached_def tkip_mixing_phase1_def)
  then have key: "tkip_mixing_phase2 (kc_key conf) c1 ?iv16 = tkip_rc4key (kc_key conf) ta ?iv32 ?iv16"
    "tkip_mixing_phase2 (kc_key conf) (c1\<lparr>tkip_state := st\<rparr>) ?iv16 = tkip_rc4key (kc_key conf) ta ?iv32 ?iv16" for st
    by (simp_all add: phase2_p1k)
  have n: "(?iv @ out) ! i = ?iv ! i" if "i < 8" for i using that by (simp add: nth_append)
  have r: "(?iv @ out) ! 3 AND 0x20 \<noteq> 0" "uint (drop_bit 6 ((?iv @ out) ! 3)) = kc_keyidx conf"
    "push_bit 8 (ucast ((?iv @ out) ! 0)) OR ucast ((?iv @ out) ! 2) = ?iv16"
    "le32 ((?iv @ out) ! 4) ((?iv @ out) ! 5) ((?iv @ out) ! 6) ((?iv @ out) ! 7) = ?iv32"
    using add_iv_read [of "kc_keyidx conf" pn] tkip_keyid [OF rx(5,6)] by (simp_all add: nth_append)
  have e: "take 8 (?iv @ out) = ?iv" "drop 8 (?iv @ out) = out" "12 \<le> length (?iv @ out)" using out(1) by simp_all
  have "\<exists>c' effects. ieee80211_tkip_decrypt_data lib (trx_update_key rx) conf (?iv @ out) ta False ?c
      = (TKIP_DECRYPT_OK, c', ?iv @ payload @ wep_icv lib payload, Some (?iv32, ?iv16), effects)"
    using e(3) by (simp add: ieee80211_tkip_decrypt_data_def Let_def r e(1,2) new c1_def [symmetric] key out(2) del: nth_append)
  then obtain c' effects where d: "ieee80211_tkip_decrypt_data lib (trx_update_key rx) conf (?iv @ out) ta False ?c
      = (TKIP_DECRYPT_OK, c', ?iv @ payload @ wep_icv lib payload, Some (?iv32, ?iv16), effects)" by blast
  let ?s1 = "air\<lparr>sk_data := h @ ?iv @ payload @ wep_icv lib payload\<rparr>"
  have w: "skb_write (length h) (?iv @ payload @ wep_icv lib payload) air = Some ?s1"
    using air out(1) by (simp add: skb_write_def wr_bytes_def)
  have t: "sk_data (skb_trim_by 4 ?s1) = h @ ?iv @ payload" by (simp add: skb_trim_by_def)
  obtain s where s: "skb_close_gap 8 (length h) (skb_trim_by 4 ?s1) = Some s" "sk_data s = h @ payload"
    using skb_close_gap_data [OF t] by auto
  have fc: "hdr_frame_control (sk_data air) = Some fc" using air h(1) frame_control_append [OF l(2)] by simp
  have "ieee80211_crypto_tkip_decrypt lib rx key air
      = Some (RX_CONTINUE, key\<lparr>tk_rx := (tk_rx key)[trx_security_idx rx := c']\<rparr>, s, Some (?iv32, ?iv16), effects)"
    using fc h(3) rx(1-4) d w s(1) f air out(1)
    by (simp add: ieee80211_crypto_tkip_decrypt_def h(2) [symmetric] tkip_constants)
  then show ?thesis using s(2) by blast
qed

text \<open>The counter in a frame, and data frames that carry one.\<close>

definition frame_tsc :: "sk_buff \<Rightarrow> nat option" where
  "frame_tsc skb = do {
     fc \<leftarrow> hdr_frame_control (sk_data skb);
     h \<leftarrow> rd_bytes (sk_data skb) (ieee80211_hdrlen fc) 8;
     Some (tsc (le32 (h ! 4) (h ! 5) (h ! 6) (h ! 7)) (push_bit 8 (ucast (h ! 0)) OR ucast (h ! 2))) }"

definition tkip_data_frame :: "sk_buff \<Rightarrow> nat \<Rightarrow> bool" where
  "tkip_data_frame skb t \<longleftrightarrow>
     (\<exists>fc. hdr_frame_control (sk_data skb) = Some fc \<and> ieee80211_is_data_present fc) \<and> frame_tsc skb = Some t"

lemma gap_closed_fc:
  assumes "skb_write hdrlen payload skb = Some s1" and "s2 = s1 \<or> s2 = skb_trim_by 4 s1" and "2 \<le> hdrlen"
    and "hdrlen + 12 \<le> length (sk_data skb)" and "skb_close_gap 8 hdrlen s2 = Some s3"
  shows "hdr_frame_control (sk_data s3) = hdr_frame_control (sk_data skb)"
proof -
  have l: "length (sk_data s1) = length (sk_data skb)"
    using assms(1) by (auto simp: skb_write_def bind_eq_Some_conv wr_bytes_length)
  have l2: "hdrlen + 8 \<le> length (sk_data s2)" "take hdrlen (sk_data s2) = take hdrlen (sk_data s1)"
    using assms(2,4) l by (auto simp: skb_trim_by_def Let_def)
  let ?h = "take hdrlen (sk_data s2)"
  have d: "sk_data s2 = ?h @ take 8 (drop hdrlen (sk_data s2)) @ drop (hdrlen + 8) (sk_data s2)"
    by (metis append_take_drop_id drop_drop add.commute)
  obtain s' where s': "skb_close_gap 8 hdrlen s2 = Some s'" "sk_data s' = ?h @ drop (hdrlen + 8) (sk_data s2)"
    using skb_close_gap_data [OF d, of hdrlen 8] l2(1) by auto
  have h: "?h = take hdrlen (sk_data skb)" using l2(2) take_after_write [OF assms(1), of hdrlen] by simp
  have "hdr_frame_control (sk_data s3) = hdr_frame_control ?h"
    using s' assms(3,5) l2(1) frame_control_append [of ?h] by simp
  also have "\<dots> = hdr_frame_control (?h @ drop hdrlen (sk_data skb))"
    using assms(3) l2(1) frame_control_append [of ?h] by simp
  also have "\<dots> = hdr_frame_control (sk_data skb)" by (simp add: h)
  finally show ?thesis .
qed

lemma decrypt_accepts:
  assumes "ieee80211_crypto_tkip_decrypt lib rx key skb = Some (RX_CONTINUE, key', skb', iv, effects)"
    and "hdr_frame_control (sk_data skb) = Some fc" and "ieee80211_is_data fc"
  shows "\<exists>v c'. trx_security_idx rx < length (tk_rx key) \<and> iv = Some v \<and> frame_tsc skb = Some (tsc (fst v) (snd v)) \<and>
    \<not> tkip_replayed (tk_rx key ! trx_security_idx rx) (fst v) (snd v) \<and>
    key' = key\<lparr>tk_rx := (tk_rx key)[trx_security_idx rx := c']\<rparr> \<and> tkip_state (rx_tkip_ctx c') \<noteq> TKIP_STATE_NOT_INIT \<and>
    hdr_frame_control (sk_data skb') = Some fc"
proof -
  let ?i = "trx_security_idx rx" and ?d = "sk_data skb" and ?l = "ieee80211_hdrlen fc"
  obtain ta where ta: "trx_sta rx = Some ta"
    using assms by (cases "trx_sta rx") (auto simp: ieee80211_crypto_tkip_decrypt_def Let_def)
  obtain r c' p iv2 eff where d: "ieee80211_tkip_decrypt_data lib (trx_update_key rx) (tk_conf key) (drop ?l ?d) ta
      (flag_set (trx_flag rx) RX_FLAG_DECRYPTED) (tk_rx key ! ?i) = (r, c', p, iv2, eff)"
    by (metis prod.exhaust)
  have u: "?i < length (tk_rx key) \<and> r = TKIP_DECRYPT_OK \<and> iv = iv2 \<and> key' = key\<lparr>tk_rx := (tk_rx key)[?i := c']\<rparr> \<and>
      (\<exists>s1. skb_write ?l p skb = Some s1 \<and>
        skb_close_gap 8 ?l (if flag_set (trx_flag rx) RX_FLAG_ICV_STRIPPED then s1 else skb_trim_by 4 s1) = Some skb')"
    using assms ta d
    by (auto simp: ieee80211_crypto_tkip_decrypt_def Let_def bind_eq_Some_conv tkip_constants split: if_splits)
  note k = decrypt_data_ctx(4) [OF d]
  have "12 \<le> length (drop ?l ?d)" using k u by blast
  then have len: "?l + 12 \<le> length ?d" by simp
  have "frame_tsc skb = Some (tsc (fst (the iv2)) (snd (the iv2)))"
    using k u len assms(2) by (simp add: frame_tsc_def)
  moreover obtain s1 where s1: "skb_write ?l p skb = Some s1"
    "skb_close_gap 8 ?l (if flag_set (trx_flag rx) RX_FLAG_ICV_STRIPPED then s1 else skb_trim_by 4 s1) = Some skb'"
    using u by blast
  moreover have "hdr_frame_control (sk_data skb') = Some fc"
    using gap_closed_fc [OF s1(1) _ _ len s1(2)] hdrlen_bounds(1) [of fc] assms(2) by (auto split: if_splits)
  ultimately show ?thesis using u k by auto
qed

text \<open>An accepted software frame is newer than its context, and its counter is recorded.\<close>

lemma verify_accepts:
  assumes "ieee80211_rx_h_michael_mic_verify rx iv (Some key) skb = Some (RX_CONTINUE, k', skb', failure)"
    and "hdr_frame_control (sk_data skb) = Some fc" and "ieee80211_is_data_present fc"
    and "kc_cipher (tk_conf key) = WLAN_CIPHER_SUITE_TKIP" and "trx_flag rx = RX_FLAG_DECRYPTED"
  shows "\<exists>key'. k' = Some key' \<and>
    tk_rx key' = (tk_rx key)[trx_security_idx rx := (tk_rx key ! trx_security_idx rx)\<lparr>rx_iv32 := fst iv, rx_iv16 := snd iv\<rparr>]"
proof -
  have f: "\<not> flag_set RX_FLAG_DECRYPTED (RX_FLAG_MMIC_STRIPPED OR RX_FLAG_IV_STRIPPED)" "flag_set RX_FLAG_DECRYPTED RX_FLAG_DECRYPTED"
    "\<not> flag_set RX_FLAG_DECRYPTED RX_FLAG_MMIC_ERROR" by code_simp+
  show ?thesis
    using assms f by (auto simp: ieee80211_rx_h_michael_mic_verify_def tkip_update_iv_def Let_def bind_eq_Some_conv split: if_splits)
qed

lemma tkip_accepts:
  assumes "tkip_receive lib rx key skb = Some (RX_CONTINUE, key', skb')"
    and "tkip_data_frame skb t" and "kc_cipher (tk_conf key) = WLAN_CIPHER_SUITE_TKIP" and "trx_flag rx = 0"
  shows "trx_security_idx rx < length (tk_rx key)"
    and "tkip_level (trx_security_idx rx) key \<le> t" and "tkip_level (trx_security_idx rx) key' = Suc t"
proof -
  let ?i = "trx_security_idx rx"
  obtain fc where fc: "hdr_frame_control (sk_data skb) = Some fc" "ieee80211_is_data_present fc" "frame_tsc skb = Some t"
    using assms(2) by (auto simp: tkip_data_frame_def)
  obtain k1 s1 iv e k2 f where d: "ieee80211_crypto_tkip_decrypt lib rx key skb = Some (RX_CONTINUE, k1, s1, iv, e)"
    and m: "ieee80211_rx_h_michael_mic_verify (rx\<lparr>trx_flag := RX_FLAG_DECRYPTED\<rparr>)
        (case iv of Some v \<Rightarrow> v | None \<Rightarrow> (0, 0)) (Some k1) s1 = Some (RX_CONTINUE, k2, skb', f)"
    and k: "key' = (case k2 of Some k \<Rightarrow> k | None \<Rightarrow> k1)"
    using assms(1,4) by (auto simp: tkip_receive_def bind_eq_Some_conv split: if_splits)
  obtain v c' where v: "?i < length (tk_rx key)" "iv = Some v" "t = tsc (fst v) (snd v)"
    "\<not> tkip_replayed (tk_rx key ! ?i) (fst v) (snd v)" "k1 = key\<lparr>tk_rx := (tk_rx key)[?i := c']\<rparr>"
    "tkip_state (rx_tkip_ctx c') \<noteq> TKIP_STATE_NOT_INIT" "hdr_frame_control (sk_data s1) = Some fc"
    using decrypt_accepts [OF d fc(1) data_present_data [OF fc(2)]] fc(3) by auto
  obtain k3 where "k2 = Some k3" "tk_rx k3 = (tk_rx key)[?i := c'\<lparr>rx_iv32 := fst v, rx_iv16 := snd v\<rparr>]"
    using verify_accepts [OF m v(7) fc(2)] assms(3) v(1,2,5) by auto
  then show "tkip_level ?i key' = Suc t" using k v(1,3,6) by (simp add: tkip_level_def tkip_ctx_level_def)
  show "?i < length (tk_rx key)" by (rule v(1))
  show "tkip_level ?i key \<le> t"
    using v(3,4) replayed_iff [of "tk_rx key ! ?i" "fst v" "snd v"] by (auto simp: tkip_level_def tkip_ctx_level_def)
qed

lemma tkip_conf_kept:
  assumes "tkip_receive lib rx key skb = Some (res, key', skb')"
  shows "tk_conf key' = tk_conf key"
proof -
  have d: "tk_conf k1 = tk_conf key" if h: "ieee80211_crypto_tkip_decrypt lib rx key skb = Some (r, k1, s, iv, e)" for r k1 s iv e
  proof -
    obtain fc where "hdr_frame_control (sk_data skb) = Some fc"
      using h by (auto simp: ieee80211_crypto_tkip_decrypt_def bind_eq_Some_conv)
    from decrypt_frame_ctx [OF h this] show ?thesis by auto
  qed
  have "tk_conf k3 = tk_conf k1" if "ieee80211_rx_h_michael_mic_verify rx' iv (Some k1) s = Some (r, Some k3, s', f)"
    for rx' iv k1 s r k3 s' f
    using that by (auto simp: ieee80211_rx_h_michael_mic_verify_def tkip_update_iv_def Let_def bind_eq_Some_conv split: if_splits)
  then show ?thesis using assms d
    by (auto simp: tkip_receive_def bind_eq_Some_conv split: if_splits option.splits)
qed

lemma tkip_run_conf: "tk_conf (run tkip_step key frames) = tk_conf key"
  by (induction frames arbitrary: key) (auto simp: tkip_step_def dest: tkip_conf_kept split: prod.splits option.splits)

lemma tkip_receive_length: "tkip_receive lib rx key skb = Some (res, key', skb') \<Longrightarrow> length (tk_rx key') = length (tk_rx key)"
  using tkip_receive_key [of lib rx key skb res key' skb'] by auto

section \<open>Properties\<close>

text \<open>C34: Once a data frame has passed decryption and its Michael check in software, no data frame of the same
  context whose sequence counter is not larger is accepted, whatever frames (forged ones too) come
  in between.\<close>

theorem tkip_no_replay:
  assumes "length (tk_rx key) = 16" and "kc_cipher (tk_conf key) = WLAN_CIPHER_SUITE_TKIP"
    and "trx_flag rx1 = 0" and "tkip_data_frame skb1 t1"
    and "tkip_receive lib1 rx1 key skb1 = Some (RX_CONTINUE, key1, out1)"
    and "trx_flag rx2 = 0" and "tkip_data_frame skb2 t2" and "t2 \<le> t1"
    and "trx_security_idx rx2 = trx_security_idx rx1"
    and "tkip_receive lib2 rx2 (run tkip_step key1 frames) skb2 = Some (res, key2, out2)"
  shows "res \<noteq> RX_CONTINUE"
proof
  let ?i = "trx_security_idx rx1" and ?last = "run tkip_step key1 frames"
  assume r: "res = RX_CONTINUE"
  have "Suc t1 = tkip_level ?i key1" using tkip_accepts(3) [OF assms(5,4,2,3)] by simp
  also have "\<dots> \<le> tkip_level ?i ?last"
    using tkip_receive_length [OF assms(5)] assms(1) by (intro tkip_replay.run_level) (simp_all add: list.pred_True)
  also have "\<dots> \<le> t2"
    using tkip_accepts(2) [OF assms(10) [unfolded r] assms(7) _ assms(6)] assms(2,9)
      tkip_conf_kept [OF assms(5)] tkip_run_conf [of key1 frames] by simp
  finally show False using assms(8) by simp
qed

text \<open>A sample key, interface state and cipher (the fourth byte of the key, added by exclusive or).\<close>

definition sample_tkip_lib :: wep_lib where
  "sample_tkip_lib = \<lparr>arc4 = Some (\<lambda>k d. map (\<lambda>b. b XOR k ! 3) d), crc32_le = (\<lambda>start d. 0x12345678)\<rparr>"

definition sample_tkip_conf :: ieee80211_key_conf where
  "sample_tkip_conf = \<lparr>kc_tx_pn = 0x10005, kc_cipher = 0x000FAC02, kc_keyidx = 0, kc_flags = 0, kc_key = replicate 32 1\<rparr>"

definition sample_ta :: "u8 list" where "sample_ta = [2, 0, 0, 0, 0, 1]"

definition fresh_tkip_ctx :: "u32 \<Rightarrow> u16 \<Rightarrow> tkip_ctx_rx" where
  "fresh_tkip_ctx iv32 iv16 =
     \<lparr>rx_tkip_ctx = \<lparr>p1k = replicate 5 0, p1k_iv32 = 0, tkip_state = TKIP_STATE_NOT_INIT\<rparr>, rx_iv32 = iv32, rx_iv16 = iv16\<rparr>"

definition sample_tkip_key :: "u32 \<Rightarrow> u16 \<Rightarrow> tkip_key" where
  "sample_tkip_key iv32 iv16 = \<lparr>tk_conf = sample_tkip_conf, tk_rx = replicate 16 (fresh_tkip_ctx iv32 iv16), tk_mic_failures = 0\<rparr>"

definition sample_tkip_rx :: tkip_rx where
  "sample_tkip_rx = \<lparr>trx_sta = Some sample_ta, trx_flag = 0, trx_security_idx = 0, trx_ap = False, trx_update_key = False\<rparr>"

definition sample_tkip_skb :: sk_buff where
  "sample_tkip_skb = \<lparr>sk_head = replicate 8 0, sk_data = [0x08, 0x41] @ replicate 22 7 @ [42, 43], sk_tail = replicate 4 0\<rparr>"

text \<open>The frame with payload 42, 43 and its MIC as the sample cipher sends it, with counter 0x10006.\<close>

definition sample_tkip_air :: sk_buff where
  "sample_tkip_air = \<lparr>sk_head = [], sk_data = [0x08, 0x41] @ replicate 22 7 @ [0, 32, 6, 32, 1, 0, 0, 0] @
     [31, 30, 83, 33, 9, 192, 73, 59, 213, 119, 178, 156, 254, 216], sk_tail = []\<rparr>"

lemma sample_tkip_lib_ok: "wep_lib_ok sample_tkip_lib"
  by (simp add: wep_lib_ok_def sample_tkip_lib_def comp_def xor.assoc)

lemma sample_tkip_air_data: "tkip_data_frame sample_tkip_air 0x10006"
proof -
  have "hdr_frame_control (sk_data sample_tkip_air) = Some 0x4108" "ieee80211_is_data_present 0x4108" by code_simp+
  moreover have "frame_tsc sample_tkip_air = Some 0x10006"
  proof -
    have h: "rd_bytes (sk_data sample_tkip_air) 24 8 = Some [0, 0x20, 6, 0x20, 1, 0, 0, 0]" "ieee80211_hdrlen 0x4108 = 24" by code_simp+
    have "le32 1 0 0 0 = 1" "push_bit 8 (ucast (0 :: u8)) OR ucast (6 :: u8) = (6 :: u16)" by code_simp+
    then show ?thesis using h calculation by (simp add: frame_tsc_def tsc_def)
  qed
  ultimately show ?thesis by (auto simp: tkip_data_frame_def)
qed

lemma sample_tkip_air_decrypts:
  "\<exists>c key s. ieee80211_crypto_tkip_decrypt sample_tkip_lib sample_tkip_rx (sample_tkip_key 0 0) sample_tkip_air
      = Some (RX_CONTINUE, key, s, Some (1, 6), []) \<and>
     key = (sample_tkip_key 0 0)\<lparr>tk_rx := (tk_rx (sample_tkip_key 0 0))[0 := c]\<rparr> \<and>
     tkip_state (rx_tkip_ctx c) = TKIP_STATE_PHASE1_DONE \<and>
     s = \<lparr>sk_head = [0x08, 0x41] @ replicate 6 7, sk_data = [0x08, 0x41] @ replicate 22 7 @ [42, 43, 102, 20, 60, 245, 124, 14, 224, 66],
           sk_tail = [135, 169, 203, 237]\<rparr>"
proof -
  let ?p = "[0, 32, 6, 32, 1, 0, 0, 0, 31, 30, 83, 33, 9, 192, 73, 59, 213, 119, 178, 156, 254, 216] :: u8 list"
  let ?q = "[0, 32, 6, 32, 1, 0, 0, 0, 42, 43, 102, 20, 60, 245, 124, 14, 224, 66, 135, 169, 203, 237] :: u8 list"
  let ?D = "ieee80211_tkip_decrypt_data sample_tkip_lib False sample_tkip_conf ?p sample_ta False (fresh_tkip_ctx 0 0)"
  have "(\<lambda>(r, c, p, iv, e). (r, tkip_state (rx_tkip_ctx c), p, iv, e)) ?D = (0, TKIP_STATE_PHASE1_DONE, ?q, Some (1, 6), [])"
    by code_simp
  then obtain c where c: "?D = (0, c, ?q, Some (1, 6), [])" "tkip_state (rx_tkip_ctx c) = TKIP_STATE_PHASE1_DONE"
    by (auto split: prod.splits)
  have w: "do { s \<leftarrow> skb_write 24 ?q sample_tkip_air; skb_close_gap 8 24 (skb_trim_by 4 s) }
    = Some \<lparr>sk_head = [0x08, 0x41] @ replicate 6 7, sk_data = [0x08, 0x41] @ replicate 22 7 @ [42, 43, 102, 20, 60, 245, 124, 14, 224, 66],
           sk_tail = [135, 169, 203, 237]\<rparr>"
    by code_simp
  then obtain s1 where s1: "skb_write 24 ?q sample_tkip_air = Some s1" "skb_close_gap 8 24 (skb_trim_by 4 s1)
    = Some \<lparr>sk_head = [0x08, 0x41] @ replicate 6 7, sk_data = [0x08, 0x41] @ replicate 22 7 @ [42, 43, 102, 20, 60, 245, 124, 14, 224, 66],
           sk_tail = [135, 169, 203, 237]\<rparr>"
    unfolding bind_eq_Some_conv by blast
  have f: "hdr_frame_control (sk_data sample_tkip_air) = Some 0x4108" "ieee80211_hdrlen 0x4108 = 24" "ieee80211_is_data 0x4108"
    "drop 24 (sk_data sample_tkip_air) = ?p" "length (sk_data sample_tkip_air) = 46" "\<not> flag_set 0 RX_FLAG_DECRYPTED"
    "\<not> flag_set 0 RX_FLAG_ICV_STRIPPED"
    by code_simp+
  show ?thesis
    using s1 c f by (auto simp: ieee80211_crypto_tkip_decrypt_def sample_tkip_rx_def sample_tkip_key_def tkip_results tkip_constants)
qed

theorem tkip_no_replay_witness:
  "\<exists>key1 out1. tkip_receive sample_tkip_lib sample_tkip_rx (sample_tkip_key 0 0) sample_tkip_air = Some (RX_CONTINUE, key1, out1) \<and>
     (\<exists>res key2 out2. tkip_receive sample_tkip_lib sample_tkip_rx key1 sample_tkip_air = Some (res, key2, out2) \<and> res \<noteq> RX_CONTINUE)"
proof -
  obtain c key s where d: "ieee80211_crypto_tkip_decrypt sample_tkip_lib sample_tkip_rx (sample_tkip_key 0 0) sample_tkip_air
      = Some (RX_CONTINUE, key, s, Some (1, 6), [])"
    "key = (sample_tkip_key 0 0)\<lparr>tk_rx := (tk_rx (sample_tkip_key 0 0))[0 := c]\<rparr>" "tkip_state (rx_tkip_ctx c) = TKIP_STATE_PHASE1_DONE"
    "s = \<lparr>sk_head = [0x08, 0x41] @ replicate 6 7, sk_data = [0x08, 0x41] @ replicate 22 7 @ [42, 43, 102, 20, 60, 245, 124, 14, 224, 66],
           sk_tail = [135, 169, 203, 237]\<rparr>"
    using sample_tkip_air_decrypts by blast
  let ?key1 = "key\<lparr>tk_rx := (tk_rx key)[0 := c\<lparr>rx_iv32 := 1, rx_iv16 := 6\<rparr>]\<rparr>"
  have f: "hdr_frame_control (sk_data s) = Some 0x4108" "ieee80211_is_data_present 0x4108" "ieee80211_hdrlen 0x4108 = 24"
    "length (sk_data s) = 34" "rd_bytes (sk_data s) 24 2 = Some [42, 43]" "rd_bytes (sk_data s) 26 8 = Some [102, 20, 60, 245, 124, 14, 224, 66]"
    "michael_mic (drop 24 (kc_key sample_tkip_conf)) (sk_data s) [42, 43] = Some [102, 20, 60, 245, 124, 14, 224, 66]"
    "\<not> flag_set RX_FLAG_DECRYPTED (RX_FLAG_MMIC_STRIPPED OR RX_FLAG_IV_STRIPPED)" "flag_set RX_FLAG_DECRYPTED RX_FLAG_DECRYPTED"
    "\<not> flag_set RX_FLAG_DECRYPTED RX_FLAG_MMIC_ERROR" "kc_cipher sample_tkip_conf = WLAN_CIPHER_SUITE_TKIP"
    unfolding d(4) by code_simp+
  have v: "ieee80211_rx_h_michael_mic_verify (sample_tkip_rx\<lparr>trx_flag := trx_flag sample_tkip_rx OR RX_FLAG_DECRYPTED\<rparr>) (1, 6) (Some key) s
    = Some (RX_CONTINUE, Some ?key1, skb_trim_by 8 s, False)"
    using f by (simp add: ieee80211_rx_h_michael_mic_verify_def d(2) sample_tkip_rx_def sample_tkip_key_def tkip_constants tkip_update_iv_def)
  have a: "tkip_receive sample_tkip_lib sample_tkip_rx (sample_tkip_key 0 0) sample_tkip_air = Some (RX_CONTINUE, ?key1, skb_trim_by 8 s)"
    using d(1) v by (simp add: tkip_receive_def)
  let ?p = "[0, 32, 6, 32, 1, 0, 0, 0, 31, 30, 83, 33, 9, 192, 73, 59, 213, 119, 178, 156, 254, 216] :: u8 list"
  have c2: "tk_rx ?key1 ! 0 = c\<lparr>rx_iv32 := 1, rx_iv16 := 6\<rparr>" "0 < length (tk_rx ?key1)" "tk_conf ?key1 = sample_tkip_conf"
    by (simp_all add: d(2) sample_tkip_key_def)
  have r: "ieee80211_tkip_decrypt_data sample_tkip_lib False sample_tkip_conf ?p sample_ta False (c\<lparr>rx_iv32 := 1, rx_iv16 := 6\<rparr>)
    = (TKIP_DECRYPT_REPLAY, c\<lparr>rx_iv32 := 1, rx_iv16 := 6\<rparr>, ?p, None, [])"
  proof -
    have p: "\<not> length ?p < 12" "push_bit 8 (ucast (?p ! 0)) OR ucast (?p ! 2) = (6 :: u16)" "le32 (?p ! 4) (?p ! 5) (?p ! 6) (?p ! 7) = 1"
      "?p ! 3 AND 0x20 \<noteq> 0" "uint (drop_bit 6 (?p ! 3)) = kc_keyidx sample_tkip_conf" by code_simp+
    have "tkip_replayed (c\<lparr>rx_iv32 := 1, rx_iv16 := 6\<rparr>) 1 6" using d(3) by (simp add: tkip_replayed_def)
    then show ?thesis unfolding ieee80211_tkip_decrypt_data_def Let_def p(2,3) using p(1,4,5) by simp
  qed
  have g: "hdr_frame_control (sk_data sample_tkip_air) = Some 0x4108" "ieee80211_is_data 0x4108"
    "drop 24 (sk_data sample_tkip_air) = ?p" "length (sk_data sample_tkip_air) = 46" "\<not> flag_set 0 RX_FLAG_DECRYPTED"
    by code_simp+
  have "\<exists>s. skb_write 24 ?p sample_tkip_air = Some s" by (rule exI, code_simp)
  then have "\<exists>key2 out2. tkip_receive sample_tkip_lib sample_tkip_rx ?key1 sample_tkip_air = Some (RX_DROP_UNUSABLE, key2, out2)"
    using g c2 r f(3) by (auto simp: tkip_receive_def ieee80211_crypto_tkip_decrypt_def sample_tkip_rx_def tkip_results)
  then obtain key2 out2 where b: "tkip_receive sample_tkip_lib sample_tkip_rx ?key1 sample_tkip_air = Some (RX_DROP_UNUSABLE, key2, out2)"
    by blast
  have k: "length (tk_rx (sample_tkip_key 0 0)) = 16" "kc_cipher (tk_conf (sample_tkip_key 0 0)) = WLAN_CIPHER_SUITE_TKIP"
    "trx_flag sample_tkip_rx = 0"
    by (simp_all add: sample_tkip_key_def sample_tkip_conf_def tkip_constants sample_tkip_rx_def)
  have "RX_DROP_UNUSABLE \<noteq> RX_CONTINUE"
    by (rule tkip_no_replay [OF k sample_tkip_air_data a k(3) sample_tkip_air_data order.refl refl, of sample_tkip_lib "[]"]) (simp add: b)
  then show ?thesis using a b by blast
qed


lemma sample_tkip_parts:
  "sk_data sample_tkip_skb = ([0x08, 0x41] @ replicate 22 7) @ [42, 43]"
  "hdr_frame_control ([0x08, 0x41] @ replicate 22 7) = Some 0x4108" "length ([0x08, 0x41] @ replicate 22 (7 :: u8)) = ieee80211_hdrlen 0x4108"
  "ieee80211_is_data 0x4108" "8 \<le> length (sk_head sample_tkip_skb)" "4 \<le> length (sk_tail sample_tkip_skb)"
  by code_simp+

lemma sample_tkip_ctx:
  "p1k_cached (kc_key sample_tkip_conf) sample_ta (rx_tkip_ctx (fresh_tkip_ctx a b)) iv"
  "trx_sta sample_tkip_rx = Some sample_ta" "trx_flag sample_tkip_rx = 0"
  "trx_security_idx sample_tkip_rx < length (tk_rx (sample_tkip_key a b))" "tk_conf (sample_tkip_key a b) = sample_tkip_conf"
  "0 \<le> kc_keyidx sample_tkip_conf" "kc_keyidx sample_tkip_conf < 4"
  "tk_rx (sample_tkip_key a b) ! trx_security_idx sample_tkip_rx = fresh_tkip_ctx a b"
  "rx_iv32 (fresh_tkip_ctx a b) = a" "rx_iv16 (fresh_tkip_ctx a b) = b"
  "tkip_state (rx_tkip_ctx (fresh_tkip_ctx a b)) = TKIP_STATE_NOT_INIT"
  by (simp_all add: p1k_cached_def fresh_tkip_ctx_def sample_tkip_rx_def sample_tkip_key_def sample_tkip_conf_def)


text \<open>The sequence counter installed with a key is not looked at for the first frame of a context: until a
  frame has been decrypted, a recorded frame of the station passes decryption however far behind
  the installed counter it is.\<close>

lemma installed_counter_ignored:
  assumes "wep_lib_ok lib" and "sk_data skb = h @ payload" and "hdr_frame_control h = Some fc"
    and "length h = ieee80211_hdrlen fc" and "ieee80211_is_data fc"
    and "8 \<le> length (sk_head skb)" and "4 \<le> length (sk_tail skb)"
    and "p1k_cached (kc_key conf) ta ctx (p1k_iv32 ctx)"
    and "trx_sta rx = Some ta" and "trx_flag rx = 0" and "trx_security_idx rx < length (tk_rx key)"
    and "tk_conf key = conf" and "0 \<le> kc_keyidx conf" and "kc_keyidx conf < 4"
    and "rx_tkip_ctx (tk_rx key ! trx_security_idx rx) = ctx0" and "tkip_state ctx0 = TKIP_STATE_NOT_INIT"
    and "rx_iv32 (tk_rx key ! trx_security_idx rx) = installed32" and "rx_iv16 (tk_rx key ! trx_security_idx rx) = installed16"
  shows "\<exists>conf' sent key' out iv effects. tkip_encrypt_skb lib ta None (conf, ctx) skb = Some (ok, conf', sent) \<and>
    ieee80211_crypto_tkip_decrypt lib rx key sent = Some (RX_CONTINUE, key', out, iv, effects) \<and> sk_data out = sk_data skb"
proof -
  obtain sent ctx' out where e: "tkip_encrypt_skb lib ta None (conf, ctx) skb
      = Some (ok, (conf\<lparr>kc_tx_pn := kc_tx_pn conf + 1\<rparr>, ctx'), sent)"
    "sk_data sent = h @ ieee80211_tkip_add_iv (kc_keyidx conf) (kc_tx_pn conf + 1) @ out"
    "length out = length payload + 4"
    "ieee80211_wep_decrypt_data lib (tkip_rc4key (kc_key conf) ta (TKIP_PN_TO_IV32 (kc_tx_pn conf + 1))
      (TKIP_PN_TO_IV16 (kc_tx_pn conf + 1))) out = (True, payload @ wep_icv lib payload)"
    using tkip_encrypted_form [OF assms(1-4,6-8)] by blast
  have "\<not> tkip_replayed (tk_rx key ! trx_security_idx rx) (TKIP_PN_TO_IV32 (kc_tx_pn conf + 1)) (TKIP_PN_TO_IV16 (kc_tx_pn conf + 1))"
    "p1k_cached (kc_key conf) ta (rx_tkip_ctx (tk_rx key ! trx_security_idx rx)) (rx_iv32 (tk_rx key ! trx_security_idx rx))"
    using assms(15,16) by (simp_all add: tkip_replayed_def p1k_cached_def)
  from tkip_decrypted_form [OF e(2) assms(3-5) e(3,4) assms(9-14) this] e(1) assms(2) show ?thesis by auto
qed

lemma installed_counter_ignored_witness:
  "\<exists>k sent key' out iv effects. tkip_encrypt_skb sample_tkip_lib sample_ta None
       (sample_tkip_conf, rx_tkip_ctx (fresh_tkip_ctx 0 0)) sample_tkip_skb = Some (ok, k, sent) \<and>
     ieee80211_crypto_tkip_decrypt sample_tkip_lib sample_tkip_rx (sample_tkip_key 0xffff 0xffff) sent
       = Some (RX_CONTINUE, key', out, iv, effects) \<and> sk_data out = [0x08, 0x41] @ replicate 22 7 @ [42, 43]"
proof -
  from installed_counter_ignored [OF sample_tkip_lib_ok sample_tkip_parts sample_tkip_ctx(1) [of 0 0] sample_tkip_ctx(2,3)
      sample_tkip_ctx(4,5) [of "0xffff" "0xffff"] sample_tkip_ctx(6,7) refl _ refl refl] sample_tkip_ctx(8,11)
  show ?thesis unfolding sample_tkip_parts(1) by auto
qed

text \<open>
  The first eight bytes of a payload, as \<open>ieee80211_tkip_decrypt_data\<close> takes them apart.
\<close>

definition tkip_counter :: "u8 list \<Rightarrow> u32 \<times> u16" where
  "tkip_counter payload = (le32 (payload ! 4) (payload ! 5) (payload ! 6) (payload ! 7),
     push_bit 8 (ucast (payload ! 0)) OR ucast (payload ! 2))"

text \<open>C40: One forged frame with a larger upper counter, which fails its check, leaves its phase 1 key in the
  context next to the old upper counter: a genuine frame that was decrypted before the forgery is
  then decrypted with the key of the forged counter, and dropped where that key does not open it.\<close>

theorem forged_frame_blocks_sender:
  assumes "tkip_state (rx_tkip_ctx c) = TKIP_STATE_PHASE1_DONE"
    and "12 \<le> length forged" and "forged ! 3 AND 0x20 \<noteq> 0" and "tkip_counter forged = (f32, f16)" and "rx_iv32 c < f32"
    and "ieee80211_tkip_decrypt_data lib False conf forged ta False c = (-1, c2, left, None, effects)"
    and "tkip_counter genuine = (rx_iv32 c, g16)"
    and "ieee80211_tkip_decrypt_data lib False conf genuine ta False c = (TKIP_DECRYPT_OK, c3, plain, iv, effects3)"
    and "fst (ieee80211_wep_decrypt_data lib (tkip_rc4key (kc_key conf) ta f32 g16) (drop 8 genuine)) = False"
  shows "\<exists>left2 iv2. ieee80211_tkip_decrypt_data lib False conf genuine ta False c2 = (-1, c2, left2, iv2, [])"
proof -
  let ?c2 = "c\<lparr>rx_tkip_ctx := tkip_mixing_phase1 (kc_key conf) ta f32\<rparr>"
  note n = decrypt_data_ctx(4) [OF assms(8) refl]
  have f: "le32 (forged ! 4) (forged ! 5) (forged ! 6) (forged ! 7) = f32" using assms(4) by (simp add: tkip_counter_def)
  have g: "le32 (genuine ! 4) (genuine ! 5) (genuine ! 6) (genuine ! 7) = rx_iv32 c"
    "push_bit 8 (ucast (genuine ! 0)) OR ucast (genuine ! 2) = g16" using assms(7) by (simp_all add: tkip_counter_def)
  have k: "genuine ! 3 AND 0x20 \<noteq> 0" "uint (drop_bit 6 (genuine ! 3)) = kc_keyidx conf"
    using assms(8) n by (auto simp: ieee80211_tkip_decrypt_data_def Let_def tkip_results split: if_splits)
  have new: "\<not> tkip_replayed c (rx_iv32 c) g16" using n unfolding g by auto
  have c2: "c2 = ?c2"
    using assms(2,3,5,6) f by (auto simp: ieee80211_tkip_decrypt_data_def Let_def tkip_results split: if_splits prod.splits)
  have s: "tkip_state (tkip_mixing_phase1 tk ta f32) = TKIP_STATE_PHASE1_DONE" for tk by (simp add: tkip_mixing_phase1_def)
  have new2: "\<not> tkip_replayed ?c2 (rx_iv32 c) g16" using new assms(1) by (auto simp: tkip_replayed_def)
  have p: "tkip_mixing_phase2 (kc_key conf) (tkip_mixing_phase1 (kc_key conf) ta f32) g16 = tkip_rc4key (kc_key conf) ta f32 g16"
    by (simp only: tkip_rc4key_def)
  obtain q where q: "ieee80211_wep_decrypt_data lib (tkip_rc4key (kc_key conf) ta f32 g16) (drop 8 genuine) = (False, q)"
    using assms(9) by (metis prod.collapse)
  show ?thesis
    using n by (simp add: c2 ieee80211_tkip_decrypt_data_def Let_def g k new2 s p q)
qed

theorem forged_frame_blocks_sender_witness:
  "\<exists>c forged genuine c2 left left2 iv2. tkip_counter forged = (2, 0) \<and>
     ieee80211_tkip_decrypt_data sample_tkip_lib False sample_tkip_conf forged sample_ta False c = (-1, c2, left, None, []) \<and>
     fst (ieee80211_tkip_decrypt_data sample_tkip_lib False sample_tkip_conf genuine sample_ta False c) = TKIP_DECRYPT_OK \<and>
     ieee80211_tkip_decrypt_data sample_tkip_lib False sample_tkip_conf genuine sample_ta False c2 = (-1, c2, left2, iv2, [])"
proof -
  let ?c = "\<lparr>rx_tkip_ctx = tkip_mixing_phase1 (replicate 32 1) sample_ta 1, rx_iv32 = 1, rx_iv16 = 5\<rparr>"
  let ?forged = "ieee80211_tkip_add_iv 0 0x20000 @ [1, 2, 3, 4]"
  let ?genuine = "ieee80211_tkip_add_iv 0 0x10006 @ (case ieee80211_wep_encrypt_data sample_tkip_lib (tkip_rc4key (replicate 32 1) sample_ta 1 6) [] of Inr out \<Rightarrow> out)"
  let ?D = "\<lambda>p c. ieee80211_tkip_decrypt_data sample_tkip_lib False sample_tkip_conf p sample_ta False c"
  have s: "tkip_state (rx_tkip_ctx ?c) = TKIP_STATE_PHASE1_DONE" "rx_iv32 ?c = 1" by (simp_all add: tkip_mixing_phase1_def)
  have l: "12 \<le> length ?forged" "rx_iv32 ?c < 2" by simp_all
  have x: "?forged ! 3 AND 0x20 \<noteq> 0" by code_simp
  have f: "tkip_counter ?forged = (2, 0)" "tkip_counter ?genuine = (rx_iv32 ?c, 6)" by code_simp+
  have r: "(\<lambda>(r, c, p, iv, e). (r, iv, e)) (?D ?forged ?c) = (-1, None, [])" by code_simp
  then obtain c2 left where d: "?D ?forged ?c = (-1, c2, left, None, [])" by (auto split: prod.splits)
  have "fst (?D ?genuine ?c) = TKIP_DECRYPT_OK" by code_simp
  then obtain c3 plain iv e where g: "?D ?genuine ?c = (TKIP_DECRYPT_OK, c3, plain, iv, e)" by (metis prod.collapse)
  have w: "fst (ieee80211_wep_decrypt_data sample_tkip_lib (tkip_rc4key (kc_key sample_tkip_conf) sample_ta 2 6) (drop 8 ?genuine)) = False"
    by code_simp
  from forged_frame_blocks_sender [OF s(1) l(1) x f(1) l(2) d f(2) g w] d g f(1) show ?thesis by (metis fst_conv)
qed

end
