(* ===== verification/Ccmp.thy ===== *)
theory Ccmp
  imports PacketNumber
begin

text \<open>
  CCMP and GCMP of net/mac80211/wpa.c: the nonce and the additional data built from the
  header, the 8-byte header with the packet number, encryption and decryption of frames.

  The two ciphers are two copies of the same code around different blocks. The model has the
  shared steps once, with the blocks and the wrapper of the transform as arguments, and the
  functions of the code as their instances. \<open>stk\<close> stands for the bytes of the blocks the
  code does not set.
\<close>

definition IEEE80211_CCMP_HDR_LEN :: nat where "IEEE80211_CCMP_HDR_LEN = 8"
definition IEEE80211_GCMP_HDR_LEN :: nat where "IEEE80211_GCMP_HDR_LEN = 8"
definition IEEE80211_GCMP_MIC_LEN :: nat where "IEEE80211_GCMP_MIC_LEN = 16"
definition IEEE80211_NUM_TIDS_RX :: nat where "IEEE80211_NUM_TIDS_RX = 17"

section \<open>The special blocks\<close>

definition masked_fc :: "u16 \<Rightarrow> u16" where
  "masked_fc fc =
     (let m = fc AND NOT (IEEE80211_FCTL_RETRY OR IEEE80211_FCTL_PM OR IEEE80211_FCTL_MOREDATA);
          m = (if ieee80211_is_mgmt fc then m else m AND NOT 0x0070)
      in m OR IEEE80211_FCTL_PROTECTED)"

definition qos_tid_of :: "u8 list \<Rightarrow> u16 \<Rightarrow> u8 option" where
  "qos_tid_of d fc = (if ieee80211_is_data_qos fc then ieee80211_get_tid d else Some 0)"

definition aad_block :: "u8 list \<Rightarrow> u16 \<Rightarrow> u8 \<Rightarrow> u8 list option" where
  "aad_block d fc qos_tid = do {
     addrs \<leftarrow> rd_bytes d hdr_addr1 (3 * ETH_ALEN);
     sc \<leftarrow> rd_u8 d hdr_seq_ctrl;
     rest \<leftarrow> (if ieee80211_has_a4 fc
              then do { a4 \<leftarrow> rd_bytes d hdr_addr4 ETH_ALEN; Some (a4 @ [qos_tid, 0]) }
              else Some (qos_tid # replicate 7 0));
     Some (be16_bytes (of_nat (ieee80211_hdrlen fc - 2)) @ le16_bytes (masked_fc fc) @ addrs @
           [sc AND 0x0f, 0] @ rest) }"

definition ccmp_special_blocks :: "u8 list \<Rightarrow> u8 list \<Rightarrow> u8 list \<Rightarrow> (u8 list \<times> u8 list) option" where
  "ccmp_special_blocks stk d pn = do {
     fc \<leftarrow> hdr_frame_control d;
     qos_tid \<leftarrow> qos_tid_of d fc;
     addr2 \<leftarrow> rd_bytes d hdr_addr2 ETH_ALEN;
     aad \<leftarrow> aad_block d fc qos_tid;
     Some ([0x1, qos_tid OR (if ieee80211_is_mgmt fc then 0x10 else 0)] @ addr2 @ pn @ stk, aad) }"

definition gcmp_special_blocks :: "u8 list \<Rightarrow> u8 list \<Rightarrow> u8 list \<Rightarrow> (u8 list \<times> u8 list) option" where
  "gcmp_special_blocks stk d pn = do {
     fc \<leftarrow> hdr_frame_control d;
     addr2 \<leftarrow> rd_bytes d hdr_addr2 ETH_ALEN;
     qos_tid \<leftarrow> qos_tid_of d fc;
     aad \<leftarrow> aad_block d fc qos_tid;
     Some (addr2 @ pn @ stk @ [0, 0, 1], aad) }"

section \<open>The packet number in the frame\<close>

definition ccmp_pn2hdr :: "u8 list \<Rightarrow> int \<Rightarrow> u8 list" where
  "ccmp_pn2hdr pn key_id =
     [pn ! 5, pn ! 4, 0, 0x20 OR push_bit 6 (word_of_int key_id), pn ! 3, pn ! 2, pn ! 1, pn ! 0]"

definition ccmp_hdr2pn :: "u8 list \<Rightarrow> u8 list" where
  "ccmp_hdr2pn h = [h ! 7, h ! 6, h ! 5, h ! 4, h ! 1, h ! 0]"

definition gcmp_pn2hdr :: "u8 list \<Rightarrow> int \<Rightarrow> u8 list" where
  "gcmp_pn2hdr pn key_id =
     [pn ! 5, pn ! 4, 0, 0x20 OR push_bit 6 (word_of_int key_id), pn ! 3, pn ! 2, pn ! 1, pn ! 0]"

definition gcmp_hdr2pn :: "u8 list \<Rightarrow> u8 list" where
  "gcmp_hdr2pn h = [h ! 7, h ! 6, h ! 5, h ! 4, h ! 1, h ! 0]"

lemma gcmp_like_ccmp: "gcmp_pn2hdr = ccmp_pn2hdr" "gcmp_hdr2pn = ccmp_hdr2pn"
  by (simp_all add: fun_eq_iff ccmp_pn2hdr_def gcmp_pn2hdr_def ccmp_hdr2pn_def gcmp_hdr2pn_def)

lemma pn2hdr_length [simp]: "length (ccmp_pn2hdr pn k) = 8"
  by (simp add: ccmp_pn2hdr_def)

lemma six_bytes: "length pn = 6 \<Longrightarrow> [pn ! 0, pn ! 1, pn ! 2, pn ! 3, pn ! 4, pn ! 5] = pn"
  by (rule nth_equalityI) (auto simp: numeral_eq_Suc less_Suc_eq)

lemma hdr2pn_pn2hdr [simp]: "length pn = 6 \<Longrightarrow> ccmp_hdr2pn (ccmp_pn2hdr pn k) = pn"
  using six_bytes [of pn] by (simp add: ccmp_hdr2pn_def ccmp_pn2hdr_def)

section \<open>Encryption\<close>

type_synonym blocks = "u8 list \<Rightarrow> u8 list \<Rightarrow> u8 list \<Rightarrow> (u8 list \<times> u8 list) option"
type_synonym aes_encrypt =
  "bool \<Rightarrow> crypto_aead \<Rightarrow> u8 list \<Rightarrow> u8 list \<Rightarrow> u8 list \<Rightarrow> u8 list \<Rightarrow> (status \<times> u8 list \<times> u8 list) option"
type_synonym aes_decrypt =
  "bool \<Rightarrow> crypto_aead \<Rightarrow> u8 list \<Rightarrow> u8 list \<Rightarrow> u8 list \<Rightarrow> u8 list \<Rightarrow> (errno + u8 list) option"

text \<open>The result -1 of the code is \<open>Inl EPERM\<close>.\<close>

definition aead_encrypt_skb ::
  "blocks \<Rightarrow> aes_encrypt \<Rightarrow> bool \<Rightarrow> u8 list \<Rightarrow> crypto_aead \<Rightarrow> hw_key \<Rightarrow> nat \<Rightarrow>
     ieee80211_key_conf \<Rightarrow> sk_buff \<Rightarrow> (status \<times> ieee80211_key_conf \<times> sk_buff) option" where
  "aead_encrypt_skb special_blocks aes_enc alloc_ok stk tfm hw mic_len conf skb = do {
     fc \<leftarrow> hdr_frame_control (sk_data skb);
     if hw \<noteq> None \<and> \<not> hw_key_has hw IEEE80211_KEY_FLAG_GENERATE_IV \<and>
        \<not> hw_key_has hw IEEE80211_KEY_FLAG_PUT_IV_SPACE \<and>
        \<not> (hw_key_has hw IEEE80211_KEY_FLAG_GENERATE_IV_MGMT \<and> ieee80211_is_mgmt fc)
     then Some (ok, conf, skb)
     else
       let hdrlen = ieee80211_hdrlen fc;
           len = length (sk_data skb) - hdrlen;
           tail = (if hw \<noteq> None then 0 else mic_len)
       in
       if length (sk_tail skb) < tail \<or> length (sk_head skb) < 8 then Some (Inl EPERM, conf, skb)
       else do {
         skb \<leftarrow> skb_open_gap 8 hdrlen skb;
         if hw_key_has hw IEEE80211_KEY_FLAG_PUT_IV_SPACE then Some (ok, conf, skb)
         else do {
           let conf = conf\<lparr>kc_tx_pn := kc_tx_pn conf + 1\<rparr>;
           let pn = pn_bytes (kc_tx_pn conf);
           skb \<leftarrow> skb_write hdrlen (ccmp_pn2hdr pn (kc_keyidx conf)) skb;
           if hw \<noteq> None then Some (ok, conf, skb)
           else do {
             (b_0, aad) \<leftarrow> special_blocks stk (sk_data skb) pn;
             skb \<leftarrow> skb_put mic_len skb;
             data \<leftarrow> rd_bytes (sk_data skb) (hdrlen + 8) len;
             mic \<leftarrow> rd_bytes (sk_data skb) (hdrlen + 8 + len) mic_len;
             (st, data, mic) \<leftarrow> aes_enc alloc_ok tfm b_0 aad data mic;
             skb \<leftarrow> skb_write (hdrlen + 8) data skb;
             skb \<leftarrow> skb_write (hdrlen + 8 + len) mic skb;
             Some (st, conf, skb)
           }
         }
       }
   }"

definition ccmp_encrypt_skb ::
  "bool \<Rightarrow> u8 list \<Rightarrow> crypto_aead \<Rightarrow> hw_key \<Rightarrow> nat \<Rightarrow> ieee80211_key_conf \<Rightarrow> sk_buff \<Rightarrow>
     (status \<times> ieee80211_key_conf \<times> sk_buff) option" where
  "ccmp_encrypt_skb = aead_encrypt_skb ccmp_special_blocks ieee80211_aes_ccm_encrypt"

definition gcmp_encrypt_skb ::
  "bool \<Rightarrow> u8 list \<Rightarrow> crypto_aead \<Rightarrow> hw_key \<Rightarrow> ieee80211_key_conf \<Rightarrow> sk_buff \<Rightarrow>
     (status \<times> ieee80211_key_conf \<times> sk_buff) option" where
  "gcmp_encrypt_skb alloc_ok stk tfm hw =
     aead_encrypt_skb gcmp_special_blocks ieee80211_aes_gcm_encrypt alloc_ok stk tfm hw IEEE80211_GCMP_MIC_LEN"

definition ieee80211_crypto_ccmp_encrypt ::
  "bool \<Rightarrow> u8 list \<Rightarrow> crypto_aead \<Rightarrow> nat \<Rightarrow> ieee80211_key_conf \<Rightarrow> (hw_key \<times> sk_buff) list \<Rightarrow>
     (ieee80211_tx_result \<times> ieee80211_key_conf \<times> (hw_key \<times> sk_buff) list) option" where
  "ieee80211_crypto_ccmp_encrypt alloc_ok stk tfm mic_len conf skbs = do {
     skbs \<leftarrow> ieee80211_tx_set_protected skbs;
     encrypt_queue (\<lambda>hw. ccmp_encrypt_skb alloc_ok stk tfm hw mic_len) conf skbs }"

definition ieee80211_crypto_gcmp_encrypt ::
  "bool \<Rightarrow> u8 list \<Rightarrow> crypto_aead \<Rightarrow> ieee80211_key_conf \<Rightarrow> (hw_key \<times> sk_buff) list \<Rightarrow>
     (ieee80211_tx_result \<times> ieee80211_key_conf \<times> (hw_key \<times> sk_buff) list) option" where
  "ieee80211_crypto_gcmp_encrypt alloc_ok stk tfm conf skbs = do {
     skbs \<leftarrow> ieee80211_tx_set_protected skbs;
     encrypt_queue (gcmp_encrypt_skb alloc_ok stk tfm) conf skbs }"

section \<open>Decryption\<close>

text \<open>
  \<open>key->u.ccmp\<close> and \<open>key->u.gcmp\<close>: the last packet number of each queue
  (\<open>rx_pn\<close>, 17 of them), the transform and the number of replays.
\<close>

record aead_rx_key =
  rx_pn :: "u8 list list"
  rx_tfm :: crypto_aead
  rx_replays :: u32

text \<open>\<open>rx->sta\<close> present, the flags of the status, \<open>rx->security_idx\<close>.\<close>

record rx_context =
  rxc_sta :: bool
  rxc_flag :: u32
  rxc_security_idx :: nat

text \<open>
  The replay check and, unless the hardware has decrypted, decryption in place: whether the
  frame is accepted, the key with its counters, the buffer.
\<close>

definition pn_replayed :: "rx_context \<Rightarrow> u8 list \<Rightarrow> u8 list \<Rightarrow> bool" where
  "pn_replayed rx pn last_pn \<longleftrightarrow>
     (let res = memcmp pn last_pn in
      res < 0 \<or> (res = 0 \<and> \<not> flag_set (rxc_flag rx) RX_FLAG_ALLOW_SAME_PN))"

definition aead_verify ::
  "blocks \<Rightarrow> aes_decrypt \<Rightarrow> bool \<Rightarrow> u8 list \<Rightarrow> nat \<Rightarrow> nat \<Rightarrow> rx_context \<Rightarrow> aead_rx_key \<Rightarrow> sk_buff \<Rightarrow>
     (bool \<times> aead_rx_key \<times> sk_buff) option" where
  "aead_verify special_blocks aes_dec alloc_ok stk hdrlen mic_len rx key skb = do {
     h \<leftarrow> rd_bytes (sk_data skb) hdrlen 8;
     let pn = ccmp_hdr2pn h;
     let queue = rxc_security_idx rx;
     last_pn \<leftarrow> (if queue < length (rx_pn key) then Some (rx_pn key ! queue) else None);
     if pn_replayed rx pn last_pn
     then Some (False, key\<lparr>rx_replays := rx_replays key + 1\<rparr>, skb)
     else do {
       r \<leftarrow>
         (if flag_set (rxc_flag rx) RX_FLAG_DECRYPTED then Some (Inr skb)
          else do {
            let data_len = length (sk_data skb) - hdrlen - 8 - mic_len;
            (b_0, aad) \<leftarrow> special_blocks stk (sk_data skb) pn;
            data \<leftarrow> rd_bytes (sk_data skb) (hdrlen + 8) data_len;
            mic \<leftarrow> rd_bytes (sk_data skb) (hdrlen + 8 + data_len) mic_len;
            plain \<leftarrow> aes_dec alloc_ok (rx_tfm key) b_0 aad data mic;
            case plain of
              Inl e \<Rightarrow> Some (Inl e)
            | Inr bs \<Rightarrow> map_option Inr (skb_write (hdrlen + 8) bs skb)
          });
       Some (case r of
               Inl e \<Rightarrow> (False, key, skb)
             | Inr skb' \<Rightarrow> (True, key\<lparr>rx_pn := (rx_pn key)[queue := pn]\<rparr>, skb'))
     }
   }"

definition aead_crypto_decrypt ::
  "blocks \<Rightarrow> aes_decrypt \<Rightarrow> bool \<Rightarrow> u8 list \<Rightarrow> nat \<Rightarrow> rx_context \<Rightarrow> aead_rx_key \<Rightarrow> sk_buff \<Rightarrow>
     (ieee80211_rx_result \<times> aead_rx_key \<times> sk_buff) option" where
  "aead_crypto_decrypt special_blocks aes_dec alloc_ok stk mic_len rx key skb = do {
     fc \<leftarrow> hdr_frame_control (sk_data skb);
     robust \<leftarrow> ieee80211_is_robust_mgmt_frame skb;
     let hdrlen = ieee80211_hdrlen fc;
     let decrypted = flag_set (rxc_flag rx) RX_FLAG_DECRYPTED;
     let mic_len = (if decrypted \<and> flag_set (rxc_flag rx) RX_FLAG_MIC_STRIPPED then 0 else mic_len);
     if \<not> ieee80211_is_data fc \<and> \<not> robust then Some (RX_CONTINUE, key, skb)
     else if decrypted \<and> length (sk_data skb) < hdrlen + 8 then Some (RX_DROP_UNUSABLE, key, skb)
     else if \<not> rxc_sta rx \<or> length (sk_data skb) < hdrlen + 8 + mic_len then Some (RX_DROP_UNUSABLE, key, skb)
     else do {
       (accepted, key, skb) \<leftarrow>
         (if flag_set (rxc_flag rx) RX_FLAG_PN_VALIDATED then Some (True, key, skb)
          else aead_verify special_blocks aes_dec alloc_ok stk hdrlen mic_len rx key skb);
       if \<not> accepted then Some (RX_DROP_UNUSABLE, key, skb)
       else do {
         skb \<leftarrow> skb_close_gap 8 hdrlen (skb_trim_by mic_len skb);
         Some (RX_CONTINUE, key, skb)
       }
     }
   }"

definition ieee80211_crypto_ccmp_decrypt ::
  "bool \<Rightarrow> u8 list \<Rightarrow> nat \<Rightarrow> rx_context \<Rightarrow> aead_rx_key \<Rightarrow> sk_buff \<Rightarrow>
     (ieee80211_rx_result \<times> aead_rx_key \<times> sk_buff) option" where
  "ieee80211_crypto_ccmp_decrypt = aead_crypto_decrypt ccmp_special_blocks ieee80211_aes_ccm_decrypt"

definition ieee80211_crypto_gcmp_decrypt ::
  "bool \<Rightarrow> u8 list \<Rightarrow> rx_context \<Rightarrow> aead_rx_key \<Rightarrow> sk_buff \<Rightarrow>
     (ieee80211_rx_result \<times> aead_rx_key \<times> sk_buff) option" where
  "ieee80211_crypto_gcmp_decrypt alloc_ok stk =
     aead_crypto_decrypt gcmp_special_blocks ieee80211_aes_gcm_decrypt alloc_ok stk IEEE80211_GCMP_MIC_LEN"

section \<open>What the blocks depend on\<close>

text \<open>
  The blocks are built from the header, and the part of them the transform reads depends on
  neither the payload nor the bytes the code leaves unset.
\<close>

definition proper_header :: "u8 list \<Rightarrow> bool" where
  "proper_header h \<longleftrightarrow> 24 \<le> length h \<and>
     (\<exists>fc. hdr_frame_control h = Some fc \<and> length h = ieee80211_hdrlen fc \<and> length h \<le> 32 \<and>
        (ieee80211_has_a4 fc \<longrightarrow> ieee80211_is_data fc))"

lemma rd_bytes_header: "off + n \<le> length h \<Longrightarrow> rd_bytes (h @ t) off n = rd_bytes h off n"
  by (simp add: rd_bytes_def)

lemma rd_u8_header: "off < length h \<Longrightarrow> rd_u8 (h @ t) off = rd_u8 h off"
  by (simp add: rd_u8_def nth_append)

lemma qos_tid_header:
  assumes "proper_header h" and "hdr_frame_control h = Some fc"
  shows "qos_tid_of (h @ t) fc = qos_tid_of h fc" and "\<exists>q. qos_tid_of h fc = Some q"
proof -
  have "ieee80211_get_qos_ctl fc < length h" if "ieee80211_is_data_qos fc"
    using hdrlen_qos [OF that] assms by (auto simp: proper_header_def)
  moreover have "hdr_frame_control (h @ t) = Some fc"
    using assms frame_control_append [of h t] by (simp add: proper_header_def)
  ultimately show "qos_tid_of (h @ t) fc = qos_tid_of h fc" and "\<exists>q. qos_tid_of h fc = Some q"
    using assms(2) by (auto simp: qos_tid_of_def ieee80211_get_tid_def rd_u8_header)
qed

lemma aad_header:
  assumes "proper_header h" and "hdr_frame_control h = Some fc"
  shows "aad_block (h @ t) fc q = aad_block h fc q" and "\<exists>a x. aad_block h fc q = Some a \<and> aad_of a = Some x"
proof -
  have a4: "30 \<le> length h" if "ieee80211_has_a4 fc"
    using that assms hdrlen_a4 [of fc] by (auto simp: proper_header_def hdr_offsets)
  have l: "24 \<le> length h" "length h \<le> 32" "length h = ieee80211_hdrlen fc" using assms by (auto simp: proper_header_def)
  show "aad_block (h @ t) fc q = aad_block h fc q"
    using l a4 by (auto simp: aad_block_def rd_bytes_header rd_u8_header hdr_offsets nth_append)
  define k where "k = ieee80211_hdrlen fc - 2"
  have le: "le16 (ucast (of_nat k :: u16)) (ucast (drop_bit 8 (of_nat k :: u16))) = of_nat k"
    by (rule le16_le16_bytes)
  have "unat (of_nat k :: u16) + 2 \<le> 32"
  proof -
    have "k + 2 \<le> 32" using l by (simp add: k_def)
    then show ?thesis by (simp add: unat_of_nat)
  qed
  with l a4 show "\<exists>a x. aad_block h fc q = Some a \<and> aad_of a = Some x"
    by (auto simp: aad_block_def aad_of_def hdr_offsets be16_bytes_def le16_bytes_def k_def [symmetric] le)
qed

lemma ccmp_blocks_header:
  assumes "proper_header h"
  shows "\<exists>b aad x. aad_of aad = Some x \<and>
    (\<forall>stk t. ccmp_special_blocks stk (h @ t) pn = Some (b @ pn @ stk, aad)) \<and> length b = 8"
proof -
  obtain fc where fc: "hdr_frame_control h = Some fc" using assms by (auto simp: proper_header_def)
  obtain q where q: "qos_tid_of h fc = Some q" using qos_tid_header(2) [OF assms fc] by blast
  obtain a x where a: "aad_block h fc q = Some a" "aad_of a = Some x" using aad_header(2) [OF assms fc] by blast
  have l: "24 \<le> length h" using assms by (simp add: proper_header_def)
  then have "hdr_frame_control (h @ t) = Some fc" for t using fc frame_control_append [of h t] by simp
  then show ?thesis using l q a qos_tid_header(1) [OF assms fc] aad_header(1) [OF assms fc]
    by (auto simp: ccmp_special_blocks_def rd_bytes_header hdr_offsets)
qed

lemma gcmp_blocks_header:
  assumes "proper_header h"
  shows "\<exists>b aad x. aad_of aad = Some x \<and>
    (\<forall>stk t. gcmp_special_blocks stk (h @ t) pn = Some (b @ pn @ stk @ [0, 0, 1], aad)) \<and> length b = 6"
proof -
  obtain fc where fc: "hdr_frame_control h = Some fc" using assms by (auto simp: proper_header_def)
  obtain q where q: "qos_tid_of h fc = Some q" using qos_tid_header(2) [OF assms fc] by blast
  obtain a x where a: "aad_block h fc q = Some a" "aad_of a = Some x" using aad_header(2) [OF assms fc] by blast
  have l: "24 \<le> length h" using assms by (simp add: proper_header_def)
  then have "hdr_frame_control (h @ t) = Some fc" for t using fc frame_control_append [of h t] by simp
  then show ?thesis using l q a qos_tid_header(1) [OF assms fc] aad_header(1) [OF assms fc]
    by (auto simp: gcmp_special_blocks_def rd_bytes_header hdr_offsets)
qed

definition frame_pn :: "sk_buff \<Rightarrow> u8 list option" where
  "frame_pn skb = do {
     fc \<leftarrow> hdr_frame_control (sk_data skb);
     h \<leftarrow> rd_bytes (sk_data skb) (ieee80211_hdrlen fc) 8;
     Some (ccmp_hdr2pn h) }"

lemma frame_pn_of:
  assumes "take (length h + 8) (sk_data s) = h @ ccmp_pn2hdr pn k" and "proper_header h" and "length pn = 6"
  shows "frame_pn s = Some pn"
proof -
  obtain fc where fc: "hdr_frame_control h = Some fc" "length h = ieee80211_hdrlen fc" "24 \<le> length h"
    using assms(2) by (auto simp: proper_header_def)
  obtain t where t: "sk_data s = h @ ccmp_pn2hdr pn k @ t"
    using assms(1) append_take_drop_id [of "length h + 8" "sk_data s"] by (metis append.assoc)
  show ?thesis using fc frame_control_append [of h] assms(3)
    by (simp add: frame_pn_def t fc(2) [symmetric])
qed

lemma pn_bytes_inj:
  assumes "pn_bytes (x + of_nat i) = pn_bytes (x + of_nat j)" and "i < 2 ^ 48" and "j < 2 ^ 48"
  shows "i = j"
proof -
  have u: "unat (x + of_nat k) mod 2 ^ 48 = (unat x + k) mod 2 ^ 48" for k
  proof -
    have "unat (x + of_nat k) = (unat x + k) mod 2 ^ 64" by (simp add: unat_word_ariths unat_of_nat mod_simps)
    then show ?thesis by (simp add: mod_mod_cancel)
  qed
  from assms(1) have "(unat x + i) mod 2 ^ 48 = (unat x + j) mod 2 ^ 48"
    using pn_bytes_eq u by metis
  then have "i mod 2 ^ 48 = j mod 2 ^ 48" by (simp only: nat_mod_eq_iff) (auto simp: algebra_simps)
  then show ?thesis using assms(2,3) by simp
qed

text \<open>Frames as the transmit path hands them over.\<close>

definition well_formed_frame :: "sk_buff \<Rightarrow> bool" where
  "well_formed_frame skb \<longleftrightarrow> (\<exists>h payload. sk_data skb = h @ payload \<and> proper_header h)"

definition software_frames :: "(hw_key \<times> sk_buff) list \<Rightarrow> bool" where
  "software_frames = list_all (\<lambda>(hw, skb). hw = None \<and> well_formed_frame skb)"

lemma protect_proper: "proper_header h \<Longrightarrow> proper_header (protect h)"
  using protect_fc [of h] by (auto simp: proper_header_def protected_fc)

lemma protected_frames:
  "software_frames skbs \<Longrightarrow> \<exists>skbs'. ieee80211_tx_set_protected skbs = Some skbs' \<and> software_frames skbs' \<and> length skbs' = length skbs"
proof (induction skbs)
  case (Cons f skbs)
  obtain skb h t where f: "f = (None, skb)" "sk_data skb = h @ t" "proper_header h"
    using Cons.prems by (auto simp: software_frames_def well_formed_frame_def)
  have "2 \<le> length h" using f(3) by (simp add: proper_header_def)
  from set_protected_data [OF f(2) this] protect_proper [OF f(3)] Cons f(1) show ?case
    by (fastforce simp: software_frames_def well_formed_frame_def)
qed (simp add: software_frames_def)

section \<open>A cipher with packet numbers\<close>

text \<open>
  What the shared code relies on: the wrapper hands the data of the array to the transform,
  and the blocks start with a part made of the header alone, then the packet number, which is
  all the transform reads of the first block.
\<close>

locale aead_cipher =
  fixes special_blocks :: blocks
    and aes_enc :: aes_encrypt
    and aes_dec :: aes_decrypt
    and ivlen :: nat
  assumes enc_aad: "aad_of aad = Some x \<Longrightarrow>
      aes_enc alloc_ok tfm b aad data mic = Some (aead_encrypt alloc_ok tfm b x data mic)"
    and dec_aad: "aad_of aad = Some x \<Longrightarrow>
      aes_dec alloc_ok tfm b aad data mic = Some (aead_decrypt alloc_ok tfm b x data mic)"
    and blocks_header: "proper_header h \<Longrightarrow>
      \<exists>b aad x. aad_of aad = Some x \<and> ivlen = length b + 6 \<and>
        (\<forall>stk t. \<exists>u. special_blocks stk (h @ t) pn = Some (b @ pn @ u, aad))"
begin

text \<open>What software encryption does to a frame, for any outcome of the transform.\<close>

lemma encrypt_steps:
  assumes skb: "sk_data skb = h @ payload" "proper_header h" "8 \<le> length (sk_head skb)" "mic_len \<le> length (sk_tail skb)"
    and pn: "pn = pn_bytes (kc_tx_pn conf + 1)"
    and blk: "aad_of aad = Some x" "special_blocks stk (h @ ccmp_pn2hdr pn (kc_keyidx conf) @ payload) pn = Some (b_0, aad)"
    and enc: "aead_encrypt alloc_ok tfm b_0 x payload (take mic_len (sk_tail skb)) = (st, c, m)"
      "length c = length payload" "length m = mic_len"
  shows "\<exists>skb'. aead_encrypt_skb special_blocks aes_enc alloc_ok stk tfm None mic_len conf skb
      = Some (st, conf\<lparr>kc_tx_pn := kc_tx_pn conf + 1\<rparr>, skb') \<and>
    sk_data skb' = h @ ccmp_pn2hdr pn (kc_keyidx conf) @ c @ m"
proof -
  let ?H = "ccmp_pn2hdr pn (kc_keyidx conf)"
  obtain fc where fc: "hdr_frame_control h = Some fc" "length h = ieee80211_hdrlen fc" "24 \<le> length h"
    using skb(2) by (auto simp: proper_header_def)
  have fcs: "hdr_frame_control (sk_data skb) = Some fc"
    using fc frame_control_append [of h payload] skb(1) by simp
  obtain gap s1 where s1: "skb_open_gap 8 (length h) skb = Some s1" "length gap = 8"
    "sk_data s1 = h @ gap @ payload" "sk_tail s1 = sk_tail skb"
    using skb_open_gap_data [of "length h" skb 8] skb(1,3) by auto
  define mic where "mic = take mic_len (sk_tail skb)"
  have lm: "length mic = mic_len" using skb(4) by (simp add: mic_def)
  define s2 where "s2 = s1\<lparr>sk_data := h @ ?H @ payload\<rparr>"
  define s3 where "s3 = s2\<lparr>sk_data := h @ ?H @ payload @ mic, sk_tail := drop mic_len (sk_tail skb)\<rparr>"
  have w1: "skb_write (length h) ?H s1 = Some s2" using s1 by (simp add: skb_write_def wr_bytes_def s2_def)
  have p: "skb_put mic_len s2 = Some s3"
    using s1 skb(4) by (simp add: skb_put_def s2_def s3_def mic_def)
  have r: "rd_bytes (sk_data s3) (length h + 8) (length payload) = Some payload"
    "rd_bytes (sk_data s3) (length h + 8 + length payload) mic_len = Some mic"
    using lm by (simp_all add: s3_def)
  have w2: "skb_write (length h + 8) c s3 = Some (s3\<lparr>sk_data := h @ ?H @ c @ mic\<rparr>)"
    using enc(2) by (simp add: skb_write_def wr_bytes_def s3_def)
  have w3: "skb_write (length h + 8 + length payload) m (s3\<lparr>sk_data := h @ ?H @ c @ mic\<rparr>)
      = Some (s3\<lparr>sk_data := h @ ?H @ c @ m\<rparr>)"
    using enc(2,3) lm by (simp add: skb_write_def wr_bytes_def)
  have "aead_encrypt_skb special_blocks aes_enc alloc_ok stk tfm None mic_len conf skb
      = Some (st, conf\<lparr>kc_tx_pn := kc_tx_pn conf + 1\<rparr>, s3\<lparr>sk_data := h @ ?H @ c @ m\<rparr>)"
    using skb fcs s1(1) w1 p r w2 w3 blk(2) enc(1)
    by (simp add: aead_encrypt_skb_def fc(2) [symmetric] pn [symmetric] enc_aad [OF blk(1)] s2_def mic_def)
  then show ?thesis by simp
qed

lemma encrypted_form:
  assumes tfm: "aead_correct tfm" "aead_ivlen tfm = ivlen" "aead_authsize tfm = mic_len"
    and skb: "sk_data skb = h @ payload" "proper_header h" "8 \<le> length (sk_head skb)" "mic_len \<le> length (sk_tail skb)"
    and pn: "pn = pn_bytes (kc_tx_pn conf + 1)"
  shows "\<exists>skb' c m b x aad. aead_encrypt_skb special_blocks aes_enc True stk tfm None mic_len conf skb
      = Some (ok, conf\<lparr>kc_tx_pn := kc_tx_pn conf + 1\<rparr>, skb') \<and>
    sk_data skb' = h @ ccmp_pn2hdr pn (kc_keyidx conf) @ c @ m \<and> length c = length payload \<and> length m = mic_len \<and>
    aad_of aad = Some x \<and> (\<forall>stk t. \<exists>u. special_blocks stk (h @ t) pn = Some (b @ pn @ u, aad)) \<and>
    (\<forall>u. payload \<noteq> [] \<longrightarrow> aead_decrypt True tfm (b @ pn @ u) x c m = Inr payload)"
proof -
  let ?H = "ccmp_pn2hdr pn (kc_keyidx conf)"
  obtain b aad x where blk: "aad_of aad = Some x" "ivlen = length b + 6"
    "\<forall>stk t. \<exists>u. special_blocks stk (h @ t) pn = Some (b @ pn @ u, aad)"
    using blocks_header [OF skb(2)] by blast
  obtain u where u: "special_blocks stk (h @ ?H @ payload) pn = Some (b @ pn @ u, aad)" using blk(3) by blast
  have iv: "take (aead_ivlen tfm) (b @ pn @ v) = b @ pn" for v
    using blk(2) tfm(2) by (simp add: pn)
  obtain c m where cm: "aead_encrypt True tfm (b @ pn @ u) x payload (take mic_len (sk_tail skb)) = (ok, c, m)"
    "length c = length payload" "length m = mic_len"
    "\<forall>v. payload \<noteq> [] \<longrightarrow> aead_decrypt True tfm (b @ pn @ v) x c m = Inr payload"
    using aead_encrypt_works [OF tfm(1), of "b @ pn @ u" x payload "take mic_len (sk_tail skb)"] tfm(3) iv by auto
  from encrypt_steps [OF skb pn blk(1) u cm(1-3)] show ?thesis using cm(2-4) blk(1,3) by blast
qed

text \<open>A transform that fails is not noticed.\<close>

lemma failed_encryption:
  assumes tfm: "\<And>iv aad plain. \<exists>e. crypto_aead_encrypt tfm iv aad plain = Inl e"
    and skb: "sk_data skb = h @ payload" "proper_header h" "8 \<le> length (sk_head skb)" "mic_len \<le> length (sk_tail skb)"
  shows "\<exists>skb'. aead_encrypt_skb special_blocks aes_enc True stk tfm None mic_len conf skb
      = Some (ok, conf\<lparr>kc_tx_pn := kc_tx_pn conf + 1\<rparr>, skb') \<and>
    sk_data skb' = h @ ccmp_pn2hdr (pn_bytes (kc_tx_pn conf + 1)) (kc_keyidx conf) @ payload @ take mic_len (sk_tail skb)"
proof -
  let ?pn = "pn_bytes (kc_tx_pn conf + 1)"
  obtain b aad x u where blk: "aad_of aad = Some x"
    "special_blocks stk (h @ ccmp_pn2hdr ?pn (kc_keyidx conf) @ payload) ?pn = Some (b @ ?pn @ u, aad)"
    using blocks_header [OF skb(2), of ?pn] by blast
  have "aead_encrypt True tfm (b @ ?pn @ u) x payload (take mic_len (sk_tail skb)) = (ok, payload, take mic_len (sk_tail skb))"
    using tfm [of "take (aead_ivlen tfm) (b @ ?pn @ u)" x payload] by (auto simp: aead_encrypt_def)
  from encrypt_steps [OF skb refl blk this] skb(4) show ?thesis by simp
qed

text \<open>Every software encryption that succeeds uses up one packet number and writes it into the frame.\<close>

lemma encrypt_uses_pn:
  assumes "aead_encrypt_skb special_blocks aes_enc alloc_ok stk tfm None mic_len conf skb = Some (ok, conf', skb')"
    and skb: "sk_data skb = h @ payload" "proper_header h"
  shows "kc_tx_pn conf' = kc_tx_pn conf + 1"
    and "take (length h + 8) (sk_data skb') = h @ ccmp_pn2hdr (pn_bytes (kc_tx_pn conf + 1)) (kc_keyidx conf)"
proof -
  let ?H = "ccmp_pn2hdr (pn_bytes (kc_tx_pn conf + 1)) (kc_keyidx conf)"
  obtain fc where fc: "hdr_frame_control h = Some fc" "length h = ieee80211_hdrlen fc" "24 \<le> length h"
    using skb(2) by (auto simp: proper_header_def)
  have fcs: "hdr_frame_control (sk_data skb) = Some fc"
    using fc frame_control_append [of h payload] skb(1) by simp
  have room: "8 \<le> length (sk_head skb)"
    using assms(1) fcs by (auto simp: aead_encrypt_skb_def Let_def split: if_splits)
  obtain gap s1 where s1: "skb_open_gap 8 (length h) skb = Some s1" "length gap = 8"
    "sk_data s1 = h @ gap @ payload"
    using skb_open_gap_data [of "length h" skb 8] skb(1) room by auto
  have w1: "skb_write (length h) ?H s1 = Some (s1\<lparr>sk_data := h @ ?H @ payload\<rparr>)"
    using s1 by (simp add: skb_write_def wr_bytes_def)
  let ?s2 = "s1\<lparr>sk_data := h @ ?H @ payload\<rparr>"
  from assms(1) fcs s1(1) w1 obtain s3 s4 d m where s: "skb_put mic_len ?s2 = Some s3"
      "skb_write (length h + 8) d s3 = Some s4" "skb_write (length h + 8 + (length (sk_data skb) - length h)) m s4 = Some skb'"
    and tx: "kc_tx_pn conf' = kc_tx_pn conf + 1"
    unfolding aead_encrypt_skb_def
    by (auto simp: bind_eq_Some_conv Let_def fc(2) [symmetric] split: if_splits)
  show "kc_tx_pn conf' = kc_tx_pn conf + 1" by (rule tx)
  let ?n = "length h + 8"
  have "take ?n (sk_data skb') = take ?n (sk_data s4)" using take_after_write [OF s(3)] by simp
  also have "\<dots> = take ?n (sk_data s3)" using take_after_write [OF s(2)] by simp
  also have "\<dots> = take ?n (h @ ?H @ payload)" using take_after_put [OF s(1), of ?n] by simp
  finally show "take ?n (sk_data skb') = h @ ?H" by simp
qed

text \<open>The frames the receive handler decrypts.\<close>

lemma decrypted_form:
  assumes r: "sk_data r = h @ ccmp_pn2hdr pn k @ c @ m" "proper_header h" "length m = mic_len" "length pn = 6"
    and fc: "hdr_frame_control h = Some fc" "ieee80211_is_data fc"
    and rx: "rxc_sta rx" "rxc_flag rx = 0" "rxc_security_idx rx < length (rx_pn key)"
      "length (rx_pn key ! rxc_security_idx rx) = 6" "be_value (rx_pn key ! rxc_security_idx rx) < be_value pn"
    and blk: "aad_of aad = Some x" "\<forall>stk t. \<exists>u. special_blocks stk (h @ t) pn = Some (b @ pn @ u, aad)"
    and dec: "\<forall>u. aead_decrypt True (rx_tfm key) (b @ pn @ u) x c m = Inr payload" "length payload = length c"
  shows "\<exists>r'. aead_crypto_decrypt special_blocks aes_dec True stk mic_len rx key r
      = Some (RX_CONTINUE, key\<lparr>rx_pn := (rx_pn key)[rxc_security_idx rx := pn]\<rparr>, r') \<and> sk_data r' = h @ payload"
proof -
  let ?H = "ccmp_pn2hdr pn k"
  let ?key = "key\<lparr>rx_pn := (rx_pn key)[rxc_security_idx rx := pn]\<rparr>"
  have l: "24 \<le> length h" "length h = ieee80211_hdrlen fc" using r(2) fc(1) by (auto simp: proper_header_def)
  have fcr: "hdr_frame_control (sk_data r) = Some fc" using fc l frame_control_append [of h] r(1) by simp
  have rob: "ieee80211_is_robust_mgmt_frame r = Some False"
    using fcr data_subtypes [OF fc(2)] by (simp add: ieee80211_is_robust_mgmt_frame_def robust_mgmt_frame_def)
  obtain u where u: "special_blocks stk (sk_data r) pn = Some (b @ pn @ u, aad)" using blk(2) r(1) by metis
  have cmp: "\<not> memcmp pn (rx_pn key ! rxc_security_idx rx) < 0" "memcmp pn (rx_pn key ! rxc_security_idx rx) \<noteq> 0"
    using memcmp_less [of pn "rx_pn key ! rxc_security_idx rx"] memcmp_eq [of pn "rx_pn key ! rxc_security_idx rx"]
      rx(4,5) r(4) by auto
  have v: "aead_verify special_blocks aes_dec True stk (length h) mic_len rx key r
      = Some (True, ?key, r\<lparr>sk_data := h @ ?H @ payload @ m\<rparr>)"
    using r cmp u rx dec blk(1)
    by (simp add: aead_verify_def pn_replayed_def dec_aad [OF blk(1)] skb_write_def wr_bytes_def)
  have t: "sk_data (skb_trim_by mic_len (r\<lparr>sk_data := h @ ?H @ payload @ m\<rparr>)) = h @ ?H @ payload"
    using r(3) by (simp add: skb_trim_by_def)
  obtain r' where "skb_close_gap 8 (length h) (skb_trim_by mic_len (r\<lparr>sk_data := h @ ?H @ payload @ m\<rparr>)) = Some r'"
    "sk_data r' = h @ payload"
    using skb_close_gap_data [OF t] by auto
  then show ?thesis using fcr rob fc(2) rx(1,2) r v
    by (simp add: aead_crypto_decrypt_def l(2) [symmetric])
qed

text \<open>The packet numbers of a queue of frames are consecutive.\<close>

lemma queue_pns:
  assumes "encrypt_queue (\<lambda>hw. aead_encrypt_skb special_blocks aes_enc alloc_ok stk tfm hw mic_len) conf skbs
      = Some (TX_CONTINUE, conf', out)" and "software_frames skbs"
  shows "map (frame_pn \<circ> snd) out = map (\<lambda>i. Some (pn_bytes (kc_tx_pn conf + 1 + of_nat i))) [0..<length skbs]"
  using assms
proof (induction skbs arbitrary: conf out)
  case (Cons f skbs)
  obtain skb where f: "f = (None, skb)" "well_formed_frame skb" using Cons.prems(2)
    by (auto simp: software_frames_def)
  then obtain h payload where h: "sk_data skb = h @ payload" "proper_header h" by (auto simp: well_formed_frame_def)
  obtain conf1 skb1 out1 where e: "aead_encrypt_skb special_blocks aes_enc alloc_ok stk tfm None mic_len conf skb
      = Some (ok, conf1, skb1)"
    and q: "encrypt_queue (\<lambda>hw. aead_encrypt_skb special_blocks aes_enc alloc_ok stk tfm hw mic_len) conf1 skbs
      = Some (TX_CONTINUE, conf', out1)" and out: "out = (None, skb1) # out1"
    using Cons.prems(1) f(1) by (auto simp: bind_eq_Some_conv split: if_splits)
  have pn: "frame_pn skb1 = Some (pn_bytes (kc_tx_pn conf + 1))"
    using frame_pn_of [OF encrypt_uses_pn(2) [OF e h] h(2)] by simp
  have "map (frame_pn \<circ> snd) out1 = map (\<lambda>i. Some (pn_bytes (kc_tx_pn conf1 + 1 + of_nat i))) [0..<length skbs]"
    by (rule Cons.IH [OF q]) (use Cons.prems(2) in \<open>simp add: software_frames_def\<close>)
  then show ?case using pn encrypt_uses_pn(1) [OF e h] unfolding out
    by (simp add: upt_conv_Cons map_Suc_upt [symmetric] comp_def algebra_simps del: upt_Suc map_Suc_upt)
qed (simp add: software_frames_def)

lemma queue_pns_distinct:
  assumes "encrypt_queue (\<lambda>hw. aead_encrypt_skb special_blocks aes_enc alloc_ok stk tfm hw mic_len) conf skbs
      = Some (TX_CONTINUE, conf', out)" and "software_frames skbs" and "length skbs \<le> 2 ^ 48"
  shows "\<exists>pns. map (frame_pn \<circ> snd) out = map Some pns \<and> distinct pns \<and> length pns = length skbs"
proof (intro exI conjI)
  let ?pns = "map (\<lambda>i. pn_bytes (kc_tx_pn conf + 1 + of_nat i)) [0..<length skbs]"
  show "map (frame_pn \<circ> snd) out = map Some ?pns" using queue_pns [OF assms(1,2)] by simp
  show "distinct ?pns" using assms(3)
    by (auto simp: distinct_map inj_on_def dest!: pn_bytes_inj)
qed simp

end

section \<open>The two instances\<close>

interpretation ccmp: aead_cipher ccmp_special_blocks ieee80211_aes_ccm_encrypt ieee80211_aes_ccm_decrypt 14
proof
  fix h pn assume "proper_header h"
  from ccmp_blocks_header [OF this, of pn]
  show "\<exists>b aad x. aad_of aad = Some x \<and> 14 = length b + 6 \<and>
      (\<forall>stk t. \<exists>u. ccmp_special_blocks stk (h @ t) pn = Some (b @ pn @ u, aad))" by force
qed (simp_all add: ieee80211_aes_ccm_encrypt_def ieee80211_aes_ccm_decrypt_def)

interpretation gcmp: aead_cipher gcmp_special_blocks ieee80211_aes_gcm_encrypt ieee80211_aes_gcm_decrypt 12
proof
  fix h pn assume "proper_header h"
  from gcmp_blocks_header [OF this, of pn]
  show "\<exists>b aad x. aad_of aad = Some x \<and> 12 = length b + 6 \<and>
      (\<forall>stk t. \<exists>u. gcmp_special_blocks stk (h @ t) pn = Some (b @ pn @ u, aad))" by force
qed (simp_all add: ieee80211_aes_gcm_encrypt_def ieee80211_aes_gcm_decrypt_def)

section \<open>Replay\<close>

text \<open>
  A key under a sequence of received frames. A frame that makes the handler leave its memory
  leaves the key as it is.
\<close>

type_synonym rx_frame = "bool \<times> u8 list \<times> nat \<times> rx_context \<times> sk_buff"

definition ccmp_receive :: "aead_rx_key \<Rightarrow> rx_frame \<Rightarrow> aead_rx_key" where
  "ccmp_receive key f = (case f of (alloc_ok, stk, mic_len, rx, skb) \<Rightarrow>
     (case ieee80211_crypto_ccmp_decrypt alloc_ok stk mic_len rx key skb of
        None \<Rightarrow> key | Some (res, key', skb') \<Rightarrow> key'))"

definition rx_key_wf :: "aead_rx_key \<Rightarrow> bool" where
  "rx_key_wf key \<longleftrightarrow> length (rx_pn key) = IEEE80211_NUM_TIDS_RX \<and> list_all (\<lambda>pn. length pn = 6) (rx_pn key)"

definition rx_level :: "nat \<Rightarrow> aead_rx_key \<Rightarrow> nat" where
  "rx_level queue key = be_value (rx_pn key ! queue)"

lemma hdr2pn_length [simp]: "length (ccmp_hdr2pn h) = 6"
  by (simp add: ccmp_hdr2pn_def)

text \<open>What the check leaves of the key.\<close>

lemma aead_verify_key:
  assumes "aead_verify special_blocks aes_dec alloc_ok stk hdrlen mic_len rx key skb = Some (accepted, key', skb')"
  shows "(\<not> accepted \<and> rx_pn key' = rx_pn key) \<or>
    (\<exists>h. rd_bytes (sk_data skb) hdrlen 8 = Some h \<and> rxc_security_idx rx < length (rx_pn key) \<and> accepted \<and>
       rx_pn key' = (rx_pn key)[rxc_security_idx rx := ccmp_hdr2pn h] \<and>
       0 \<le> memcmp (ccmp_hdr2pn h) (rx_pn key ! rxc_security_idx rx) \<and>
       (flag_set (rxc_flag rx) RX_FLAG_ALLOW_SAME_PN \<or> memcmp (ccmp_hdr2pn h) (rx_pn key ! rxc_security_idx rx) \<noteq> 0))"
proof -
  let ?q = "rxc_security_idx rx"
  obtain h where h: "rd_bytes (sk_data skb) hdrlen 8 = Some h" "?q < length (rx_pn key)"
    using assms by (auto simp: aead_verify_def Let_def bind_eq_Some_conv split: if_splits)
  show ?thesis
  proof (cases "pn_replayed rx (ccmp_hdr2pn h) (rx_pn key ! ?q)")
    case True
    then show ?thesis using assms h by (auto simp: aead_verify_def Let_def)
  next
    case False
    with assms h obtain r where "(case r of Inl (e :: errno) \<Rightarrow> (False, key, skb)
        | Inr s \<Rightarrow> (True, key\<lparr>rx_pn := (rx_pn key)[?q := ccmp_hdr2pn h]\<rparr>, s)) = (accepted, key', skb')"
      by (auto simp: aead_verify_def Let_def bind_eq_Some_conv)
    then show ?thesis using h False by (auto simp: pn_replayed_def Let_def split: sum.splits)
  qed
qed

lemma aead_decrypt_key:
  assumes "aead_crypto_decrypt special_blocks aes_dec alloc_ok stk mic_len rx key skb = Some (res, key', skb')"
  shows "rx_pn key' = rx_pn key \<or>
    (\<exists>h. rxc_security_idx rx < length (rx_pn key) \<and> res = RX_CONTINUE \<and>
       rx_pn key' = (rx_pn key)[rxc_security_idx rx := ccmp_hdr2pn h] \<and>
       0 \<le> memcmp (ccmp_hdr2pn h) (rx_pn key ! rxc_security_idx rx))"
  using assms
  by (auto simp: aead_crypto_decrypt_def Let_def bind_eq_Some_conv split: if_splits dest!: aead_verify_key)

lemma aead_decrypt_result:
  "aead_crypto_decrypt special_blocks aes_dec alloc_ok stk mic_len rx key skb = Some (res, key', skb') \<Longrightarrow>
     res = RX_CONTINUE \<or> res = RX_DROP_UNUSABLE"
  by (auto simp: aead_crypto_decrypt_def Let_def bind_eq_Some_conv split: if_splits)

lemma ccmp_receive_pn:
  "rx_pn (ccmp_receive key f) = rx_pn key \<or>
     (\<exists>q h. q < length (rx_pn key) \<and> rx_pn (ccmp_receive key f) = (rx_pn key)[q := ccmp_hdr2pn h] \<and>
        0 \<le> memcmp (ccmp_hdr2pn h) (rx_pn key ! q))"
  by (fastforce simp: ccmp_receive_def ieee80211_crypto_ccmp_decrypt_def split: prod.split option.split dest: aead_decrypt_key)

interpretation ccmp_replay: monotone_machine ccmp_receive rx_key_wf "\<lambda>f. True" "rx_level queue" for queue
proof
  fix key f assume wf: "rx_key_wf key"
  have "rx_key_wf (ccmp_receive key f) \<and> rx_level queue key \<le> rx_level queue (ccmp_receive key f)"
    using ccmp_receive_pn [of key f]
  proof (elim disjE exE conjE)
    fix q h assume q: "q < length (rx_pn key)" "rx_pn (ccmp_receive key f) = (rx_pn key)[q := ccmp_hdr2pn h]"
      "0 \<le> memcmp (ccmp_hdr2pn h) (rx_pn key ! q)"
    have "length (rx_pn key ! q) = 6" using wf q(1) by (simp add: rx_key_wf_def list_all_length)
    then have "be_value (rx_pn key ! q) \<le> be_value (ccmp_hdr2pn h)"
      using memcmp_less [of "ccmp_hdr2pn h" "rx_pn key ! q"] q(3) by simp
    then show ?thesis using wf q
      by (auto simp: rx_key_wf_def rx_level_def list_all_length nth_list_update)
  qed (use wf in \<open>auto simp: rx_key_wf_def rx_level_def\<close>)
  then show "rx_key_wf (ccmp_receive key f)" "rx_level queue key \<le> rx_level queue (ccmp_receive key f)" by auto
qed

text \<open>A frame whose packet number the handler checks, on a data frame.\<close>

definition checked_frame :: "rx_context \<Rightarrow> sk_buff \<Rightarrow> u8 list \<Rightarrow> bool" where
  "checked_frame rx skb pn \<longleftrightarrow>
     (\<exists>fc. hdr_frame_control (sk_data skb) = Some fc \<and> ieee80211_is_data fc) \<and>
     frame_pn skb = Some pn \<and> \<not> flag_set (rxc_flag rx) RX_FLAG_PN_VALIDATED"

lemma data_not_robust:
  "hdr_frame_control (sk_data skb) = Some fc \<Longrightarrow> ieee80211_is_data fc \<Longrightarrow> ieee80211_is_robust_mgmt_frame skb = Some False"
  using data_subtypes [of fc] by (simp add: ieee80211_is_robust_mgmt_frame_def robust_mgmt_frame_def)

lemma accepted_frame:
  assumes "checked_frame rx skb pn"
    and "aead_crypto_decrypt special_blocks aes_dec alloc_ok stk mic_len rx key skb = Some (RX_CONTINUE, key', skb')"
  shows "rxc_security_idx rx < length (rx_pn key)"
    and "rx_pn key' = (rx_pn key)[rxc_security_idx rx := pn]"
    and "\<not> pn_replayed rx pn (rx_pn key ! rxc_security_idx rx)"
proof -
  let ?q = "rxc_security_idx rx"
  obtain fc h where fc: "hdr_frame_control (sk_data skb) = Some fc" "ieee80211_is_data fc"
    and h: "rd_bytes (sk_data skb) (ieee80211_hdrlen fc) 8 = Some h" "pn = ccmp_hdr2pn h"
    using assms(1) by (auto simp: checked_frame_def frame_pn_def bind_eq_Some_conv)
  from assms obtain ml s1 where v: "aead_verify special_blocks aes_dec alloc_ok stk (ieee80211_hdrlen fc) ml rx key skb
      = Some (True, key', s1)"
    by (auto simp: aead_crypto_decrypt_def Let_def bind_eq_Some_conv fc data_not_robust [OF fc] checked_frame_def
        split: if_splits)
  from aead_verify_key [OF v] h show "?q < length (rx_pn key)" and "rx_pn key' = (rx_pn key)[?q := pn]"
    and "\<not> pn_replayed rx pn (rx_pn key ! ?q)"
    by (auto simp: pn_replayed_def Let_def)
qed

section \<open>Properties\<close>

text \<open>Once a data frame is accepted, no frame of the same queue whose packet number is not larger is
  accepted later, whatever frames come in between (the driver neither vouches for the packet
  number nor allows a repeated one).\<close>

lemma ccmp_no_replay:
  assumes "rx_key_wf key" and "checked_frame rx1 skb1 pn1"
    and "ieee80211_crypto_ccmp_decrypt alloc1 stk1 mic1 rx1 key skb1 = Some (RX_CONTINUE, key1, out1)"
    and "checked_frame rx2 skb2 pn2" and "be_value pn2 \<le> be_value pn1"
    and "rxc_security_idx rx2 = rxc_security_idx rx1" and "\<not> flag_set (rxc_flag rx2) RX_FLAG_ALLOW_SAME_PN"
    and "ieee80211_crypto_ccmp_decrypt alloc2 stk2 mic2 rx2 (run ccmp_receive key1 frames) skb2 = Some (res, key2, out2)"
  shows "res = RX_DROP_UNUSABLE"
proof (rule ccontr)
  let ?q = "rxc_security_idx rx1"
  let ?last = "rx_pn (run ccmp_receive key1 frames) ! ?q"
  assume "res \<noteq> RX_DROP_UNUSABLE"
  then have "res = RX_CONTINUE"
    using aead_decrypt_result [OF assms(8) [unfolded ieee80211_crypto_ccmp_decrypt_def]] by simp
  note d = assms(3,8) [unfolded this ieee80211_crypto_ccmp_decrypt_def]
  note a1 = accepted_frame [OF assms(2) d(1)]
  note a2 = accepted_frame [OF assms(4) d(2)]
  have "key1 = ccmp_receive key (alloc1, stk1, mic1, rx1, skb1)" using assms(3) by (simp add: ccmp_receive_def)
  then have wf1: "rx_key_wf key1" using ccmp_replay.step_inv [OF assms(1)] by simp
  have "be_value pn1 = rx_level ?q key1" using a1(1,2) by (simp add: rx_level_def)
  also have "\<dots> \<le> be_value ?last" using ccmp_replay.run_level [OF wf1, of frames ?q] by (simp add: rx_level_def list.pred_True)
  finally have le: "be_value pn2 \<le> be_value ?last" using assms(5) by simp
  have "rx_key_wf (run ccmp_receive key1 frames)" using ccmp_replay.run_inv [OF wf1, of frames] by (simp add: list.pred_True)
  then have "length ?last = 6" using a2(1) assms(6) by (simp add: rx_key_wf_def list_all_length)
  moreover have "length pn2 = 6" using assms(4) by (auto simp: checked_frame_def frame_pn_def bind_eq_Some_conv)
  ultimately have "memcmp pn2 ?last \<le> 0" using le memcmp_le [of pn2 ?last] by simp
  then show False using a2(3) assms(6,7) by (auto simp: pn_replayed_def Let_def)
qed

text \<open>A sample transform: no secrecy, a tag of eight zero bytes.\<close>

definition sample_aead :: crypto_aead where
  "sample_aead = \<lparr>aead_ivlen = 14, aead_authsize = 8,
     crypto_aead_encrypt = (\<lambda>iv aad plain. Inr (plain @ replicate 8 0)),
     crypto_aead_decrypt = (\<lambda>iv aad out. Inr (take (length out - 8) out))\<rparr>"

definition sample_header :: "u8 list" where
  "sample_header = [0x08, 0x41] @ replicate 22 7"

definition sample_skb :: "u8 list \<Rightarrow> sk_buff" where
  "sample_skb payload = \<lparr>sk_head = replicate 8 0, sk_data = sample_header @ payload, sk_tail = replicate 8 0\<rparr>"

definition sample_rx_key :: "crypto_aead \<Rightarrow> aead_rx_key" where
  "sample_rx_key tfm = \<lparr>rx_pn = replicate 17 (replicate 6 0), rx_tfm = tfm, rx_replays = 0\<rparr>"

definition sample_conf :: ieee80211_key_conf where
  "sample_conf = \<lparr>kc_tx_pn = 0, kc_cipher = 0x000FAC04, kc_keyidx = 0, kc_flags = 0, kc_key = replicate 16 1\<rparr>"

definition sample_rx :: rx_context where
  "sample_rx = \<lparr>rxc_sta = True, rxc_flag = 0, rxc_security_idx = 0\<rparr>"

lemma sample_aead_ok: "aead_correct sample_aead" "aead_ivlen sample_aead = 14" "aead_authsize sample_aead = 8"
  by (simp_all add: aead_correct_def sample_aead_def)

lemma sample_header_fc: "hdr_frame_control sample_header = Some 0x4108"
  by (simp add: sample_header_def hdr_frame_control_def get_unaligned_le16_def le16_def)

lemma sample_header_proper: "proper_header sample_header" "ieee80211_is_data 0x4108"
proof -
  show d: "ieee80211_is_data 0x4108" by (simp add: ieee80211_is_data_def fc_defs)
  have "ieee80211_hdrlen 0x4108 = 24" by code_simp
  then show "proper_header sample_header"
    using sample_header_fc d by (simp add: proper_header_def) (simp add: sample_header_def)
qed

lemma sample_rx_key_wf: "rx_key_wf (sample_rx_key tfm)"
  by (simp add: rx_key_wf_def sample_rx_key_def IEEE80211_NUM_TIDS_RX_def list_all_length)

definition sample_air :: "u8 \<Rightarrow> sk_buff" where
  "sample_air n = \<lparr>sk_head = [], sk_data = sample_header @ [n, 0, 0, 0x20, 0, 0, 0, 0, 42] @ replicate 8 0, sk_tail = []\<rparr>"

definition rx_outcome ::
  "(ieee80211_rx_result \<times> aead_rx_key \<times> sk_buff) option \<Rightarrow> (ieee80211_rx_result \<times> u8 list list \<times> u8 list) option" where
  "rx_outcome = map_option (\<lambda>(res, key, skb). (res, rx_pn key, sk_data skb))"

lemma rx_outcome_some: "rx_outcome r = Some (res, pn, d) \<longleftrightarrow> (\<exists>key s. r = Some (res, key, s) \<and> rx_pn key = pn \<and> sk_data s = d)"
  by (auto simp: rx_outcome_def)

lemma sample_checked: "checked_frame sample_rx (sample_air 5) [0, 0, 0, 0, 0, 5]" "checked_frame sample_rx (sample_air 4) [0, 0, 0, 0, 0, 4]"
proof -
  have "hdr_frame_control (sk_data (sample_air n)) = Some 0x4108" for n
    by (simp add: sample_air_def sample_header_def frame_control_some le16_def)
  moreover have "frame_pn (sample_air 5) = Some [0, 0, 0, 0, 0, 5]" "frame_pn (sample_air 4) = Some [0, 0, 0, 0, 0, 4]"
    by code_simp+
  ultimately show "checked_frame sample_rx (sample_air 5) [0, 0, 0, 0, 0, 5]"
    "checked_frame sample_rx (sample_air 4) [0, 0, 0, 0, 0, 4]"
    using sample_header_proper(2) by (simp_all add: checked_frame_def sample_rx_def)
qed

lemma sample_received:
  "rx_outcome (ieee80211_crypto_ccmp_decrypt True [0, 0] 8 sample_rx (sample_rx_key sample_aead) (sample_air 5))
     = Some (RX_CONTINUE, (replicate 17 (replicate 6 0))[0 := [0, 0, 0, 0, 0, 5]], sample_header @ [42])"
  "\<exists>r. rx_outcome (do { (r, key, s) \<leftarrow> ieee80211_crypto_ccmp_decrypt True [0, 0] 8 sample_rx (sample_rx_key sample_aead) (sample_air 5);
     ieee80211_crypto_ccmp_decrypt True [0, 0] 8 sample_rx key (sample_air 4) }) = Some r"
  by (code_simp, intro exI, code_simp)

lemma ccmp_no_replay_witness:
  "\<exists>key1 out1 key2 out2.
     ieee80211_crypto_ccmp_decrypt True [0, 0] 8 sample_rx (sample_rx_key sample_aead) (sample_air 5) = Some (RX_CONTINUE, key1, out1) \<and>
     ieee80211_crypto_ccmp_decrypt True [0, 0] 8 sample_rx key1 (sample_air 4) = Some (RX_DROP_UNUSABLE, key2, out2)"
proof -
  obtain key1 out1 where first: "ieee80211_crypto_ccmp_decrypt True [0, 0] 8 sample_rx (sample_rx_key sample_aead) (sample_air 5)
      = Some (RX_CONTINUE, key1, out1)"
    using sample_received(1) by (auto simp: rx_outcome_some)
  then obtain res key2 out2 where second: "ieee80211_crypto_ccmp_decrypt True [0, 0] 8 sample_rx key1 (sample_air 4)
      = Some (res, key2, out2)"
    using sample_received(2) by (auto simp: rx_outcome_some)
  have "res = RX_DROP_UNUSABLE"
    by (rule ccmp_no_replay [OF sample_rx_key_wf sample_checked(1) first sample_checked(2), of _ _ _ "[]"])
      (use second in \<open>simp_all add: sample_rx_def\<close>)
  then show ?thesis using first second by blast
qed

text \<open>C33: Round trip: what CCMP encryption in software makes of a data frame (any payload but the empty
  one, any header up to 32 bytes), decryption with the same key turns back into the frame, and
  records its packet number, provided the receiver has not seen a larger one. The kernel's
  transform is assumed to undo its own encryption and to read the 14 bytes of the nonce.\<close>

theorem ccmp_roundtrip:
  assumes "aead_correct tfm" and "aead_ivlen tfm = 14" and "aead_authsize tfm = mic_len"
    and "sk_data skb = h @ payload" and "payload \<noteq> []" and "proper_header h"
    and "hdr_frame_control h = Some fc" and "ieee80211_is_data fc"
    and "8 \<le> length (sk_head skb)" and "mic_len \<le> length (sk_tail skb)"
    and "rxc_sta rx" and "rxc_flag rx = 0" and "rx_tfm key = tfm" and "rx_key_wf key"
    and "rxc_security_idx rx < IEEE80211_NUM_TIDS_RX"
    and "be_value (rx_pn key ! rxc_security_idx rx) < unat (kc_tx_pn conf + 1) mod 2 ^ 48"
  shows "\<exists>conf' sent. ccmp_encrypt_skb True stk tfm None mic_len conf skb = Some (ok, conf', sent) \<and>
    (\<forall>air. sk_data air = sk_data sent \<longrightarrow>
      (\<exists>out. ieee80211_crypto_ccmp_decrypt True stk' mic_len rx key air
         = Some (RX_CONTINUE, key\<lparr>rx_pn := (rx_pn key)[rxc_security_idx rx := pn_bytes (kc_tx_pn conf + 1)]\<rparr>, out) \<and>
         sk_data out = sk_data skb))"
proof -
  let ?pn = "pn_bytes (kc_tx_pn conf + 1)" and ?q = "rxc_security_idx rx"
  obtain sent c m b x aad where e: "ccmp_encrypt_skb True stk tfm None mic_len conf skb
      = Some (ok, conf\<lparr>kc_tx_pn := kc_tx_pn conf + 1\<rparr>, sent)"
      "sk_data sent = h @ ccmp_pn2hdr ?pn (kc_keyidx conf) @ c @ m" "length c = length payload" "length m = mic_len"
      "aad_of aad = Some x" "\<forall>stk t. \<exists>u. ccmp_special_blocks stk (h @ t) ?pn = Some (b @ ?pn @ u, aad)"
      "\<forall>u. payload \<noteq> [] \<longrightarrow> aead_decrypt True tfm (b @ ?pn @ u) x c m = Inr payload"
    using ccmp.encrypted_form [OF assms(1,2,3,4,6,9,10) refl] unfolding ccmp_encrypt_skb_def by blast
  have q: "?q < length (rx_pn key)" "length (rx_pn key ! ?q) = 6" "be_value (rx_pn key ! ?q) < be_value ?pn"
    using assms(14-16) by (simp_all add: rx_key_wf_def list_all_length be_value_pn_bytes)
  have "\<exists>out. ieee80211_crypto_ccmp_decrypt True stk' mic_len rx key air
         = Some (RX_CONTINUE, key\<lparr>rx_pn := (rx_pn key)[?q := ?pn]\<rparr>, out) \<and> sk_data out = sk_data skb"
    if "sk_data air = sk_data sent" for air
    unfolding ieee80211_crypto_ccmp_decrypt_def assms(4)
    by (rule ccmp.decrypted_form [OF that [unfolded e(2)] assms(6) e(4) _ assms(7,8,11,12) q e(5,6)])
      (use e(3,7) assms(5,13) in simp_all)
  then show ?thesis using e(1) by blast
qed

theorem ccmp_roundtrip_witness:
  "\<exists>conf' sent out. ccmp_encrypt_skb True [1, 2] sample_aead None 8 sample_conf (sample_skb [42, 43]) = Some (ok, conf', sent) \<and>
     ieee80211_crypto_ccmp_decrypt True [3, 4] 8 sample_rx (sample_rx_key sample_aead) sent
       = Some (RX_CONTINUE, (sample_rx_key sample_aead)\<lparr>rx_pn := (replicate 17 (replicate 6 0))[0 := pn_bytes 1]\<rparr>, out) \<and>
     sk_data out = sample_header @ [42, 43]"
proof -
  let ?skb = "sample_skb [42, 43]" and ?key = "sample_rx_key sample_aead"
  have f: "sk_data ?skb = sample_header @ [42, 43]" "[42, 43 :: u8] \<noteq> []" "8 \<le> length (sk_head ?skb)" "8 \<le> length (sk_tail ?skb)"
    by (simp_all add: sample_skb_def)
  have r: "rxc_sta sample_rx" "rxc_flag sample_rx = 0" "rx_tfm ?key = sample_aead" "rxc_security_idx sample_rx < IEEE80211_NUM_TIDS_RX"
    by (simp_all add: sample_rx_def sample_rx_key_def IEEE80211_NUM_TIDS_RX_def)
  have n: "be_value (rx_pn ?key ! rxc_security_idx sample_rx) < unat (kc_tx_pn sample_conf + 1) mod 2 ^ 48"
  proof -
    have a: "be_value (rx_pn ?key ! rxc_security_idx sample_rx) = 0"
      by (simp add: sample_rx_key_def sample_rx_def be_value_zeros)
    have b: "unat (kc_tx_pn sample_conf + 1) = 1" by (simp add: sample_conf_def)
    show ?thesis unfolding a b by simp
  qed
  have k: "(rx_pn ?key)[rxc_security_idx sample_rx := pn_bytes (kc_tx_pn sample_conf + 1)] = (replicate 17 (replicate 6 0))[0 := pn_bytes 1]"
    by (simp add: sample_rx_key_def sample_rx_def sample_conf_def)
  from ccmp_roundtrip [OF sample_aead_ok f(1,2) sample_header_proper(1) sample_header_fc sample_header_proper(2) f(3,4)
      r(1-3) sample_rx_key_wf r(4) n, of "[1, 2]" "[3, 4]", unfolded k f(1)]
  show ?thesis by blast
qed



text \<open>The additional data of a data frame with four addresses, QoS control and HT control would be 34
  bytes, but the array holds 30 behind its length: for every such frame that passes the replay
  check the decryption reads behind the array on the stack. The sender of the frame decides.\<close>

lemma ccmp_aad_overread:
  assumes "hdr_frame_control (sk_data skb) = Some fc" and "ieee80211_is_data fc" and "ieee80211_hdrlen fc = 36"
    and "rxc_sta rx" and "rxc_flag rx = 0" and "44 + mic_len \<le> length (sk_data skb)"
    and "rxc_security_idx rx < length (rx_pn key)" and "frame_pn skb = Some pn"
    and "\<not> pn_replayed rx pn (rx_pn key ! rxc_security_idx rx)"
  shows "ieee80211_crypto_ccmp_decrypt alloc_ok stk mic_len rx key skb = None"
proof -
  have aad: "aad_of a = None" if "aad_block (sk_data skb) fc q = Some a" for q a
  proof -
    have "length a = 32 \<and> take 2 a = be16_bytes 34"
      using that assms(3) by (auto simp: aad_block_def bind_eq_Some_conv be16_bytes_def le16_bytes_def rd_bytes_def
          hdr_offsets split: if_splits)
    moreover have "be16_bytes 34 = [0, 34]" by (simp add: be16_bytes_def)
    moreover have "unat (le16 34 0) = 34" by code_simp
    ultimately show ?thesis
      by (cases a; cases "tl a") (auto simp: aad_of_def rd_bytes_def)
  qed
  have "ieee80211_aes_ccm_decrypt alloc_ok (rx_tfm key) b a data mic = None"
    if "ccmp_special_blocks stk (sk_data skb) pn = Some (b, a)" for b a data mic
    using that aad by (auto simp: ccmp_special_blocks_def ieee80211_aes_ccm_decrypt_def bind_eq_Some_conv assms(1))
  moreover obtain h where "rd_bytes (sk_data skb) 36 8 = Some h" "pn = ccmp_hdr2pn h"
    using assms(1,3,8) by (auto simp: frame_pn_def bind_eq_Some_conv)
  ultimately have "aead_verify ccmp_special_blocks ieee80211_aes_ccm_decrypt alloc_ok stk 36 mic_len rx key skb = None"
    using assms(5,7,9) by (auto simp: aead_verify_def Let_def bind_eq_None_conv split: prod.splits)
  then show ?thesis using assms(1-6)
    by (simp add: ieee80211_crypto_ccmp_decrypt_def aead_crypto_decrypt_def data_not_robust [OF assms(1,2)])
qed

definition sample_ht_frame :: sk_buff where
  "sample_ht_frame = \<lparr>sk_head = [], sk_data = [0x88, 0xC3] @ replicate 34 7 @ [5, 0, 0, 0x20, 0, 0, 0, 0, 42] @ replicate 8 0, sk_tail = []\<rparr>"

lemma ccmp_aad_overread_witness:
  "ieee80211_crypto_ccmp_decrypt True [0, 0] 8 sample_rx (sample_rx_key sample_aead) sample_ht_frame = None"
proof (rule ccmp_aad_overread)
  show "hdr_frame_control (sk_data sample_ht_frame) = Some 0xC388" by code_simp
  show "ieee80211_is_data 0xC388" by code_simp
  show "ieee80211_hdrlen 0xC388 = 36" by code_simp
  show "rxc_sta sample_rx" "rxc_flag sample_rx = 0" by (simp_all add: sample_rx_def)
  show "44 + 8 \<le> length (sk_data sample_ht_frame)" by code_simp
  show "rxc_security_idx sample_rx < length (rx_pn (sample_rx_key sample_aead))" by code_simp
  show "frame_pn sample_ht_frame = Some [0, 0, 0, 0, 0, 5]" by code_simp
  show "\<not> pn_replayed sample_rx [0, 0, 0, 0, 0, 5] (rx_pn (sample_rx_key sample_aead) ! rxc_security_idx sample_rx)" by code_simp
qed

text \<open>When the kernel's transform fails, encryption still reports success: the frame keeps its payload in
  clear, with whatever was in the tailroom as its tag, and goes out as encrypted.\<close>

lemma failed_encryption_sends_plaintext:
  assumes "\<And>iv aad plain. \<exists>e. crypto_aead_encrypt tfm iv aad plain = Inl e"
    and "sk_data skb = h @ payload" and "proper_header h" and "8 \<le> length (sk_head skb)" and "mic_len \<le> length (sk_tail skb)"
  shows "\<exists>conf' sent. ccmp_encrypt_skb True stk tfm None mic_len conf skb = Some (ok, conf', sent) \<and>
    sk_data sent = h @ ccmp_pn2hdr (pn_bytes (kc_tx_pn conf + 1)) (kc_keyidx conf) @ payload @ take mic_len (sk_tail skb)"
  using ccmp.failed_encryption [OF assms] unfolding ccmp_encrypt_skb_def by blast

lemma failed_encryption_sends_plaintext_witness:
  "\<exists>conf' sent. ccmp_encrypt_skb True [0, 0] (sample_aead\<lparr>crypto_aead_encrypt := \<lambda>iv aad plain. Inl ENOMEM\<rparr>) None 8
     sample_conf (sample_skb [42]) = Some (ok, conf', sent) \<and>
     sk_data sent = sample_header @ [1, 0, 0, 0x20, 0, 0, 0, 0] @ [42] @ replicate 8 0"
proof -
  have "ccmp_pn2hdr (pn_bytes (kc_tx_pn sample_conf + 1)) (kc_keyidx sample_conf) = [1, 0, 0, 0x20, 0, 0, 0, 0]" by code_simp
  then show ?thesis
    using failed_encryption_sends_plaintext [of "sample_aead\<lparr>crypto_aead_encrypt := \<lambda>iv aad plain. Inl ENOMEM\<rparr>"
        "sample_skb [42]" sample_header "[42]" 8 "[0, 0]" sample_conf] sample_header_proper(1)
    by (auto simp: sample_skb_def)
qed

end
