(* ===== verification/Bip.thy ===== *)
theory Bip
  imports Ccmp
begin

text \<open>
  Protection of group addressed management frames (BIP) of net/mac80211/wpa.c: a management MIC
  element is put behind the frame, with AES-CMAC (128 and 256, aes_cmac.c) or AES-GMAC
  (aes_gmac.c). The hash and the authenticated encryption of the kernel are parameters.
\<close>

definition WLAN_EID_MMIE :: u8 where "WLAN_EID_MMIE = 76"
definition CMAC_TLEN :: nat where "CMAC_TLEN = 8"
definition CMAC_TLEN_256 :: nat where "CMAC_TLEN_256 = 16"
definition GMAC_AAD_LEN :: nat where "GMAC_AAD_LEN = 20"
definition GMAC_MIC_LEN :: nat where "GMAC_MIC_LEN = 16"
definition GMAC_NONCE_LEN :: nat where "GMAC_NONCE_LEN = 12"

lemmas bip_lengths = CMAC_TLEN_def CMAC_TLEN_256_def GMAC_AAD_LEN_def GMAC_MIC_LEN_def GMAC_NONCE_LEN_def

section \<open>The codes\<close>

text \<open>
  The keyed hash (\<open>struct crypto_shash\<close> with its key): byte \<open>i\<close> of the digest of a
  message. The digest of AES-CMAC has 16 bytes.
\<close>

type_synonym crypto_shash = "u8 list \<Rightarrow> nat \<Rightarrow> u8"

definition shash_digest :: "crypto_shash \<Rightarrow> u8 list \<Rightarrow> u8 list" where
  "shash_digest tfm msg = map (tfm msg) [0..<16]"

text \<open>The last bytes of the data are the place of the code, which counts as zero.\<close>

definition ieee80211_aes_cmac :: "crypto_shash \<Rightarrow> u8 list \<Rightarrow> u8 list \<Rightarrow> u8 list" where
  "ieee80211_aes_cmac tfm aad data =
     take CMAC_TLEN (shash_digest tfm (aad @ take (length data - CMAC_TLEN) data @ replicate CMAC_TLEN 0))"

definition ieee80211_aes_cmac_256 :: "crypto_shash \<Rightarrow> u8 list \<Rightarrow> u8 list \<Rightarrow> u8 list" where
  "ieee80211_aes_cmac_256 tfm aad data =
     shash_digest tfm (aad @ take (length data - CMAC_TLEN_256) data @ replicate CMAC_TLEN_256 0)"

text \<open>
  The tag of an empty plaintext under the additional data. What the transform reports is
  ignored: then the place of the code keeps what was in it.
\<close>

definition ieee80211_aes_gmac ::
  "bool \<Rightarrow> crypto_aead \<Rightarrow> u8 list \<Rightarrow> u8 list \<Rightarrow> u8 list \<Rightarrow> u8 list \<Rightarrow> status \<times> u8 list" where
  "ieee80211_aes_gmac alloc_ok tfm aad nonce data mic =
     (if length data < GMAC_MIC_LEN then (Inl EINVAL, mic)
      else if \<not> alloc_ok then (Inl ENOMEM, mic)
      else
        let iv = nonce @ [0, 0, 0, 1];
            ad = aad @ take (length data - GMAC_MIC_LEN) data @ replicate GMAC_MIC_LEN 0
        in case crypto_aead_encrypt tfm (take (aead_ivlen tfm) iv) ad [] of
             Inl e \<Rightarrow> (ok, mic)
           | Inr tag \<Rightarrow> (ok, tag))"

text \<open>The codes under one type: additional data, nonce, data, the old bytes at the place of the code.\<close>

type_synonym bip_code = "u8 list \<Rightarrow> u8 list \<Rightarrow> u8 list \<Rightarrow> u8 list \<Rightarrow> status \<times> u8 list"

definition cmac_code :: "crypto_shash \<Rightarrow> bip_code" where
  "cmac_code tfm aad nonce data old = (ok, ieee80211_aes_cmac tfm aad data)"

definition cmac_256_code :: "crypto_shash \<Rightarrow> bip_code" where
  "cmac_256_code tfm aad nonce data old = (ok, ieee80211_aes_cmac_256 tfm aad data)"

definition gmac_code :: "bool \<times> crypto_aead \<Rightarrow> bip_code" where
  "gmac_code t aad nonce data old = ieee80211_aes_gmac (fst t) (snd t) aad nonce data old"

section \<open>The frame\<close>

definition bip_aad :: "u8 list \<Rightarrow> u8 list option" where
  "bip_aad d = do {
     fc \<leftarrow> hdr_frame_control d;
     addrs \<leftarrow> rd_bytes d hdr_addr1 (3 * ETH_ALEN);
     Some (le16_bytes (fc AND NOT (IEEE80211_FCTL_RETRY OR IEEE80211_FCTL_PM OR IEEE80211_FCTL_MOREDATA)) @ addrs) }"

definition bip_ipn_set64 :: "u64 \<Rightarrow> u8 list" where
  "bip_ipn_set64 pn =
     [ucast pn, ucast (drop_bit 8 pn), ucast (drop_bit 16 pn), ucast (drop_bit 24 pn), ucast (drop_bit 32 pn),
      ucast (drop_bit 40 pn)]"

definition bip_ipn_swap :: "u8 list \<Rightarrow> u8 list" where
  "bip_ipn_swap s = [s ! 5, s ! 4, s ! 3, s ! 2, s ! 1, s ! 0]"

text \<open>\<open>struct ieee80211_mmie\<close> and \<open>ieee80211_mmie_16\<close>: 10 bytes, then the code.\<close>

definition mmie_head :: "nat \<Rightarrow> int \<Rightarrow> u64 \<Rightarrow> u8 list" where
  "mmie_head mic_len keyidx pn =
     [WLAN_EID_MMIE, of_nat (8 + mic_len)] @ le16_bytes (word_of_int keyidx) @ bip_ipn_set64 pn"

lemma mmie_head_length [simp]: "length (mmie_head mic_len keyidx pn) = 10"
  by (simp add: mmie_head_def bip_ipn_set64_def)

lemma ipn_swap_set64 [simp]: "bip_ipn_swap (bip_ipn_set64 pn) = pn_bytes pn"
  by (simp add: bip_ipn_swap_def bip_ipn_set64_def pn_bytes_def)

lemma ipn_swap_length [simp]: "length (bip_ipn_swap s) = 6"
  by (simp add: bip_ipn_swap_def)

text \<open>The additional data and the code of the frame: address 2 and the packet number are the nonce.\<close>

definition bip_mic :: "bip_code \<Rightarrow> u8 list \<Rightarrow> u8 list \<Rightarrow> u8 list \<Rightarrow> (status \<times> u8 list) option" where
  "bip_mic code d ipn old = do {
     aad \<leftarrow> bip_aad d;
     addr2 \<leftarrow> rd_bytes d hdr_addr2 ETH_ALEN;
     data \<leftarrow> rd_bytes d 24 (length d - 24);
     Some (code aad (addr2 @ ipn) data old) }"

section \<open>Transmission\<close>

definition bip_encrypt ::
  "bip_code \<Rightarrow> nat \<Rightarrow> ieee80211_key_conf \<Rightarrow> (hw_key \<times> sk_buff) list \<Rightarrow>
     (ieee80211_tx_result \<times> ieee80211_key_conf \<times> (hw_key \<times> sk_buff) list) option" where
  "bip_encrypt code mic_len conf skbs =
     (case skbs of
        [(hw, skb)] \<Rightarrow>
          if hw \<noteq> None then Some (TX_CONTINUE, conf, skbs)
          else if length (sk_tail skb) < 10 + mic_len then Some (TX_DROP, conf, skbs)
          else do {
            let start = length (sk_data skb);
            skb \<leftarrow> skb_put (10 + mic_len) skb;
            let conf = conf\<lparr>kc_tx_pn := kc_tx_pn conf + 1\<rparr>;
            skb \<leftarrow> skb_write start (mmie_head mic_len (kc_keyidx conf) (kc_tx_pn conf)) skb;
            (st, mic) \<leftarrow> bip_mic code (sk_data skb) (bip_ipn_swap (bip_ipn_set64 (kc_tx_pn conf)))
                           (drop (start + 10) (sk_data skb));
            skb \<leftarrow> skb_write (start + 10) mic skb;
            Some (if st = ok then TX_CONTINUE else TX_DROP, conf, [(hw, skb)])
          }
      | _ \<Rightarrow> Some (TX_DROP, conf, skbs))"

definition ieee80211_crypto_aes_cmac_encrypt where
  "ieee80211_crypto_aes_cmac_encrypt tfm = bip_encrypt (cmac_code tfm) 8"

definition ieee80211_crypto_aes_cmac_256_encrypt where
  "ieee80211_crypto_aes_cmac_256_encrypt tfm = bip_encrypt (cmac_256_code tfm) 16"

definition ieee80211_crypto_aes_gmac_encrypt where
  "ieee80211_crypto_aes_gmac_encrypt alloc_ok tfm = bip_encrypt (gmac_code (alloc_ok, tfm)) GMAC_MIC_LEN"

section \<open>Reception\<close>

text \<open>\<open>key->u.aes_cmac\<close>, \<open>key->u.aes_gmac\<close>.\<close>

record bip_rx_key =
  bip_rx_pn :: "u8 list"
  bip_replays :: u32
  bip_icverrors :: u32

text \<open>
  \<open>mic_alloc\<close>, \<open>junk\<close>: whether the buffer of the code is allocated and what is in it
  (the CMAC handlers have it on the stack and it is always written).
\<close>

definition bip_decrypt ::
  "bip_code \<Rightarrow> nat \<Rightarrow> bool \<Rightarrow> u8 list \<Rightarrow> u32 \<Rightarrow> bip_rx_key \<Rightarrow> sk_buff \<Rightarrow>
     (ieee80211_rx_result \<times> bip_rx_key \<times> sk_buff) option" where
  "bip_decrypt code mic_len mic_alloc junk flag key skb = do {
     fc \<leftarrow> hdr_frame_control (sk_data skb);
     if \<not> ieee80211_is_mgmt fc then Some (RX_CONTINUE, key, skb)
     else if length (sk_data skb) < 24 + (10 + mic_len) then Some (RX_DROP_UNUSABLE, key, skb)
     else do {
       let start = length (sk_data skb) - (10 + mic_len);
       head \<leftarrow> rd_bytes (sk_data skb) start 10;
       let sent = drop (start + 10) (sk_data skb);
       if head ! 0 \<noteq> WLAN_EID_MMIE \<or> head ! 1 \<noteq> of_nat (8 + mic_len) then Some (RX_DROP_UNUSABLE, key, skb)
       else
         let ipn = bip_ipn_swap (drop 4 head) in
         if memcmp ipn (bip_rx_pn key) \<le> 0
         then Some (RX_DROP_UNUSABLE, key\<lparr>bip_replays := bip_replays key + 1\<rparr>, skb)
         else do {
           r \<leftarrow> (if flag_set flag RX_FLAG_DECRYPTED then Some None
                 else do {
                   aad \<leftarrow> bip_aad (sk_data skb);
                   if \<not> mic_alloc then Some (Some key)
                   else do {
                     (st, mic) \<leftarrow> bip_mic code (sk_data skb) ipn junk;
                     Some (if st \<noteq> ok \<or> mic \<noteq> sent
                           then Some (key\<lparr>bip_icverrors := bip_icverrors key + 1\<rparr>) else None) }
                 });
           Some (case r of
                   Some key \<Rightarrow> (RX_DROP_UNUSABLE, key, skb)
                 | None \<Rightarrow> (RX_CONTINUE, key\<lparr>bip_rx_pn := ipn\<rparr>, skb_trim_by (10 + mic_len) skb))
         }
     }
   }"

definition ieee80211_crypto_aes_cmac_decrypt where
  "ieee80211_crypto_aes_cmac_decrypt tfm = bip_decrypt (cmac_code tfm) 8 True []"

definition ieee80211_crypto_aes_cmac_256_decrypt where
  "ieee80211_crypto_aes_cmac_256_decrypt tfm = bip_decrypt (cmac_256_code tfm) 16 True []"

definition ieee80211_crypto_aes_gmac_decrypt where
  "ieee80211_crypto_aes_gmac_decrypt alloc_ok tfm = bip_decrypt (gmac_code (alloc_ok, tfm)) GMAC_MIC_LEN"

section \<open>What a code promises\<close>

text \<open>
  A code that works has the length of its place, is computed without an error, and depends on
  neither the bytes at its place nor what is behind the frame.
\<close>

locale bip_mac =
  fixes code :: "'t \<Rightarrow> bip_code" and works :: "'t \<Rightarrow> bool" and mic_len :: nat
  assumes code_ok: "works t \<Longrightarrow> mic_len \<le> length data \<Longrightarrow> fst (code t aad nonce data old) = ok"
    and code_length: "works t \<Longrightarrow> mic_len \<le> length data \<Longrightarrow> length (snd (code t aad nonce data old)) = mic_len"
    and code_place: "works t \<Longrightarrow> length a = mic_len \<Longrightarrow> length b = mic_len \<Longrightarrow>
      code t aad nonce (data @ a) old1 = code t aad nonce (data @ b) old2"
begin

lemma protected_form:
  assumes "works t" and "sk_data skb = h" and "24 \<le> length h" and "10 + mic_len \<le> length (sk_tail skb)"
  shows "\<exists>sent m. bip_encrypt (code t) mic_len conf [(None, skb)]
      = Some (TX_CONTINUE, conf\<lparr>kc_tx_pn := kc_tx_pn conf + 1\<rparr>, [(None, sent)]) \<and>
    sk_data sent = h @ mmie_head mic_len (kc_keyidx conf) (kc_tx_pn conf + 1) @ m \<and> length m = mic_len \<and>
    (\<forall>t2 old. length t2 = mic_len \<longrightarrow>
       bip_mic (code t) (h @ mmie_head mic_len (kc_keyidx conf) (kc_tx_pn conf + 1) @ t2) (pn_bytes (kc_tx_pn conf + 1)) old = Some (ok, m))"
proof -
  let ?pn = "kc_tx_pn conf + 1" and ?n = "length h" and ?H = "mmie_head mic_len (kc_keyidx conf) (kc_tx_pn conf + 1)"
  let ?j = "take mic_len (drop 10 (sk_tail skb))"
  define s1 where "s1 = skb\<lparr>sk_data := h @ take (10 + mic_len) (sk_tail skb), sk_tail := drop (10 + mic_len) (sk_tail skb)\<rparr>"
  have p: "skb_put (10 + mic_len) skb = Some s1" using assms(2,4) by (simp add: skb_put_def s1_def)
  define s2 where "s2 = s1\<lparr>sk_data := h @ ?H @ ?j\<rparr>"
  have w: "skb_write ?n ?H s1 = Some s2" using assms(4)
    by (simp add: skb_write_def wr_bytes_def s1_def s2_def take_drop add.commute)
  obtain fc where fc: "hdr_frame_control h = Some fc" using assms(3) frame_control_some [of h] by simp
  have l: "2 \<le> ?n" using assms(3) by simp
  let ?aad = "le16_bytes (fc AND NOT (IEEE80211_FCTL_RETRY OR IEEE80211_FCTL_PM OR IEEE80211_FCTL_MOREDATA)) @ take 18 (drop 4 h)"
  let ?nonce = "take 6 (drop 10 h) @ pn_bytes ?pn"
  have aad: "bip_aad (h @ t2) = Some ?aad" for t2
    using fc assms(3) frame_control_append [OF l, of t2] by (simp add: bip_aad_def hdr_offsets)
  have mic: "bip_mic (code t) (h @ ?H @ t2) (pn_bytes ?pn) old = Some (code t ?aad ?nonce (drop 24 h @ ?H @ t2) old)" for t2 old
    using aad [of "?H @ t2"] assms(3) by (simp add: bip_mic_def hdr_offsets)
  define m where "m = snd (code t ?aad ?nonce (drop 24 h @ ?H @ ?j) (drop (?n + 10) (sk_data s2)))"
  have j: "length ?j = mic_len" using assms(4) by simp
  have len: "mic_len \<le> length (drop 24 h @ ?H @ t2)" if "length t2 = mic_len" for t2 using that by simp
  have m: "length m = mic_len" unfolding m_def by (rule code_length [OF assms(1) len [OF j]])
  have all: "code t ?aad ?nonce (drop 24 h @ ?H @ t2) old = (ok, m)" if "length t2 = mic_len" for t2 old
    using code_place [OF assms(1) that j, of ?aad ?nonce "drop 24 h @ ?H" old] code_ok [OF assms(1) len [OF j]]
    by (simp add: m_def prod_eq_iff)
  have w2: "skb_write (?n + 10) m s2 = Some (s2\<lparr>sk_data := h @ ?H @ m\<rparr>)"
    using m j by (simp add: skb_write_def wr_bytes_def s2_def)
  have "bip_encrypt (code t) mic_len conf [(None, skb)]
      = Some (TX_CONTINUE, conf\<lparr>kc_tx_pn := ?pn\<rparr>, [(None, s2\<lparr>sk_data := h @ ?H @ m\<rparr>)])"
    using assms(2,4) p w w2 mic [of ?j] all [OF j] by (simp add: bip_encrypt_def s2_def)
  then show ?thesis using m mic all by (intro exI [of _ "s2\<lparr>sk_data := h @ ?H @ m\<rparr>"] exI [of _ m]) simp
qed

lemma accepted_form:
  assumes "works t" and "sk_data air = h @ mmie_head mic_len keyidx pn @ m" and "hdr_frame_control h = Some fc"
    and "ieee80211_is_mgmt fc" and "24 \<le> length h" and "length m = mic_len"
    and "bip_mic (code t) (sk_data air) (pn_bytes pn) junk = Some (ok, m)" and "\<not> flag_set flag RX_FLAG_DECRYPTED"
    and "length (bip_rx_pn key) = 6" and "be_value (bip_rx_pn key) < unat pn mod 2 ^ 48"
  shows "bip_decrypt (code t) mic_len True junk flag key air
      = Some (RX_CONTINUE, key\<lparr>bip_rx_pn := pn_bytes pn\<rparr>, skb_trim_by (10 + mic_len) air)"
    and "sk_data (skb_trim_by (10 + mic_len) air) = h"
proof -
  let ?H = "mmie_head mic_len keyidx pn"
  have fc: "hdr_frame_control (sk_data air) = Some fc" using assms(2,3,5) frame_control_append [of h] by simp
  have h: "?H ! 0 = WLAN_EID_MMIE" "?H ! 1 = of_nat (8 + mic_len)" "drop 4 ?H = bip_ipn_set64 pn"
    by (simp_all add: mmie_head_def le16_bytes_def)
  have r: "rd_bytes (sk_data air) (length (sk_data air) - (10 + mic_len)) 10 = Some ?H"
    "drop (length (sk_data air) - (10 + mic_len) + 10) (sk_data air) = m"
    using assms(2,6) by simp_all
  have "\<not> memcmp (pn_bytes pn) (bip_rx_pn key) \<le> 0"
    using memcmp_le [of "pn_bytes pn" "bip_rx_pn key"] assms(9,10) by (simp add: be_value_pn_bytes)
  moreover have "\<exists>aad. bip_aad (sk_data air) = Some aad" using assms(7) by (auto simp: bip_mic_def bind_eq_Some_conv)
  moreover have "24 + (10 + mic_len) \<le> length (sk_data air)" using assms(2,5,6) by simp
  ultimately show "bip_decrypt (code t) mic_len True junk flag key air
      = Some (RX_CONTINUE, key\<lparr>bip_rx_pn := pn_bytes pn\<rparr>, skb_trim_by (10 + mic_len) air)"
    using fc assms(4,7,8) r h by (auto simp: bip_decrypt_def Let_def)
  show "sk_data (skb_trim_by (10 + mic_len) air) = h" using assms(2,6) by (simp add: skb_trim_by_def)
qed

end

interpretation bip_cmac: bip_mac cmac_code "\<lambda>tfm. True" 8
  by unfold_locales (simp_all add: cmac_code_def ieee80211_aes_cmac_def shash_digest_def bip_lengths)

interpretation bip_cmac_256: bip_mac cmac_256_code "\<lambda>tfm. True" 16
  by unfold_locales (simp_all add: cmac_256_code_def ieee80211_aes_cmac_256_def shash_digest_def bip_lengths)

definition gmac_works :: "bool \<times> crypto_aead \<Rightarrow> bool" where
  "gmac_works t \<longleftrightarrow> fst t \<and> aead_correct (snd t) \<and> aead_authsize (snd t) = GMAC_MIC_LEN"

lemma gmac_tag: "gmac_works t \<Longrightarrow> \<exists>tag. crypto_aead_encrypt (snd t) iv ad [] = Inr tag \<and> length tag = 16"
  unfolding gmac_works_def aead_correct_def by (metis GMAC_MIC_LEN_def add_0 list.size(3))

interpretation bip_gmac: bip_mac gmac_code gmac_works GMAC_MIC_LEN
proof unfold_locales
  fix t aad nonce old and data :: "u8 list" assume w: "gmac_works t" and l: "GMAC_MIC_LEN \<le> length data"
  have "fst (gmac_code t aad nonce data old) = ok \<and> length (snd (gmac_code t aad nonce data old)) = GMAC_MIC_LEN"
    using gmac_tag [OF w, of "take (aead_ivlen (snd t)) (nonce @ [0, 0, 0, 1])"
        "aad @ take (length data - GMAC_MIC_LEN) data @ replicate GMAC_MIC_LEN 0"] w l
    by (auto simp: gmac_code_def ieee80211_aes_gmac_def Let_def gmac_works_def bip_lengths)
  then show "fst (gmac_code t aad nonce data old) = ok" "length (snd (gmac_code t aad nonce data old)) = GMAC_MIC_LEN"
    by simp_all
next
  fix t aad nonce old1 old2 and a b data :: "u8 list"
  assume w: "gmac_works t" and l: "length a = GMAC_MIC_LEN" "length b = GMAC_MIC_LEN"
  show "gmac_code t aad nonce (data @ a) old1 = gmac_code t aad nonce (data @ b) old2"
    using gmac_tag [OF w, of "take (aead_ivlen (snd t)) (nonce @ [0, 0, 0, 1])" "aad @ data @ replicate GMAC_MIC_LEN 0"] w l
    by (auto simp: gmac_code_def ieee80211_aes_gmac_def Let_def gmac_works_def bip_lengths)
qed

section \<open>Replay\<close>

lemma bip_decrypt_pn:
  assumes "bip_decrypt code mic_len mic_alloc junk flag key skb = Some (res, key', skb')"
  shows "bip_rx_pn key' = bip_rx_pn key \<or> (\<exists>head. bip_rx_pn key' = bip_ipn_swap head \<and> 0 < memcmp (bip_ipn_swap head) (bip_rx_pn key))"
  using assms
  by (fastforce simp: bip_decrypt_def Let_def bind_eq_Some_conv split: if_splits option.splits prod.splits)

text \<open>A frame whose number is not above the recorded one is dropped.\<close>

lemma bip_replayed:
  assumes "sk_data air = h @ mmie_head mic_len keyidx pn @ m" and "hdr_frame_control h = Some fc"
    and "ieee80211_is_mgmt fc" and "24 \<le> length h" and "length m = mic_len"
    and "memcmp (pn_bytes pn) (bip_rx_pn key) \<le> 0"
    and "bip_decrypt code mic_len mic_alloc junk flag key air = Some (res, key', air')"
  shows "res = RX_DROP_UNUSABLE"
proof -
  have "hdr_frame_control (sk_data air) = Some fc" using assms(1,2,4) frame_control_append [of h] by simp
  moreover have "rd_bytes (sk_data air) (length (sk_data air) - (10 + mic_len)) 10 = Some (mmie_head mic_len keyidx pn)"
    using assms(1,5) by simp
  moreover have "drop 4 (mmie_head mic_len keyidx pn) = bip_ipn_set64 pn" by (simp add: mmie_head_def le16_bytes_def)
  moreover have "24 + (10 + mic_len) \<le> length (sk_data air)" using assms(1,4,5) by simp
  ultimately show ?thesis using assms(3,6,7) by (auto simp: bip_decrypt_def Let_def split: if_splits)
qed

definition cmac_receive :: "bip_rx_key \<Rightarrow> crypto_shash \<times> u32 \<times> sk_buff \<Rightarrow> bip_rx_key" where
  "cmac_receive key f = (case f of (tfm, flag, skb) \<Rightarrow>
     (case ieee80211_crypto_aes_cmac_decrypt tfm flag key skb of Some (res, key', skb') \<Rightarrow> key' | None \<Rightarrow> key))"

interpretation bip_replay: monotone_machine cmac_receive "\<lambda>key. length (bip_rx_pn key) = 6" "\<lambda>f. True" "\<lambda>key. be_value (bip_rx_pn key)"
proof
  fix key :: bip_rx_key and f assume wf: "length (bip_rx_pn key) = 6"
  have "bip_rx_pn (cmac_receive key f) = bip_rx_pn key \<or>
      (\<exists>head. bip_rx_pn (cmac_receive key f) = bip_ipn_swap head \<and> 0 < memcmp (bip_ipn_swap head) (bip_rx_pn key))"
    by (fastforce simp: cmac_receive_def ieee80211_crypto_aes_cmac_decrypt_def split: prod.split option.split dest: bip_decrypt_pn)
  moreover have "be_value (bip_rx_pn key) \<le> be_value (bip_ipn_swap head)" if "0 < memcmp (bip_ipn_swap head) (bip_rx_pn key)" for head
    using memcmp_le [of "bip_ipn_swap head" "bip_rx_pn key"] that wf by simp
  ultimately show "length (bip_rx_pn (cmac_receive key f)) = 6"
    "be_value (bip_rx_pn key) \<le> be_value (bip_rx_pn (cmac_receive key f))" using wf by auto
qed

section \<open>Properties\<close>

text \<open>Round trip and replay: a group addressed management frame protected with AES-CMAC is accepted by
  every receiver whose counter is behind, which gets the frame as it was; received again later,
  whatever came in between, it is dropped.\<close>

lemma bip_cmac_protects:
  assumes "sk_data skb = h" and "hdr_frame_control h = Some fc" and "ieee80211_is_mgmt fc" and "24 \<le> length h"
    and "18 \<le> length (sk_tail skb)" and "\<not> flag_set flag RX_FLAG_DECRYPTED"
    and "length (bip_rx_pn key) = 6" and "be_value (bip_rx_pn key) < unat (kc_tx_pn conf + 1) mod 2 ^ 48"
  shows "\<exists>sent. ieee80211_crypto_aes_cmac_encrypt tfm conf [(None, skb)]
      = Some (TX_CONTINUE, conf\<lparr>kc_tx_pn := kc_tx_pn conf + 1\<rparr>, [(None, sent)]) \<and>
    (\<forall>air. sk_data air = sk_data sent \<longrightarrow>
       (\<exists>key' out. ieee80211_crypto_aes_cmac_decrypt tfm flag key air = Some (RX_CONTINUE, key', out) \<and> sk_data out = h \<and>
          (\<forall>frames flag2 res key2 out2.
             ieee80211_crypto_aes_cmac_decrypt tfm flag2 (run cmac_receive key' frames) air = Some (res, key2, out2) \<longrightarrow>
             res = RX_DROP_UNUSABLE)))"
proof -
  let ?pn = "kc_tx_pn conf + 1"
  obtain sent m where e: "bip_encrypt (cmac_code tfm) 8 conf [(None, skb)]
      = Some (TX_CONTINUE, conf\<lparr>kc_tx_pn := ?pn\<rparr>, [(None, sent)])"
    "sk_data sent = h @ mmie_head 8 (kc_keyidx conf) ?pn @ m" "length m = 8"
    "\<And>t2 old. length t2 = 8 \<Longrightarrow>
       bip_mic (cmac_code tfm) (h @ mmie_head 8 (kc_keyidx conf) ?pn @ t2) (pn_bytes ?pn) old = Some (ok, m)"
    using bip_cmac.protected_form [OF TrueI assms(1,4), of tfm conf] assms(5) by auto
  have "\<exists>key' out. ieee80211_crypto_aes_cmac_decrypt tfm flag key air = Some (RX_CONTINUE, key', out) \<and> sk_data out = h \<and>
      (\<forall>frames flag2 res key2 out2.
         ieee80211_crypto_aes_cmac_decrypt tfm flag2 (run cmac_receive key' frames) air = Some (res, key2, out2) \<longrightarrow>
         res = RX_DROP_UNUSABLE)" if "sk_data air = sk_data sent" for air
  proof -
    have air: "sk_data air = h @ mmie_head 8 (kc_keyidx conf) ?pn @ m" using that e(2) by simp
    have mic: "bip_mic (cmac_code tfm) (sk_data air) (pn_bytes ?pn) [] = Some (ok, m)" using e(3,4) air by simp
    note a = bip_cmac.accepted_form [OF TrueI air assms(2-4) e(3) mic assms(6-8)]
    let ?key = "key\<lparr>bip_rx_pn := pn_bytes ?pn\<rparr>"
    have "res = RX_DROP_UNUSABLE"
      if d: "bip_decrypt (cmac_code tfm) 8 True [] flag2 (run cmac_receive ?key frames) air = Some (res, key2, out2)"
      for frames flag2 res key2 out2
    proof -
      have i: "length (bip_rx_pn (run cmac_receive ?key frames)) = 6"
        "be_value (pn_bytes ?pn) \<le> be_value (bip_rx_pn (run cmac_receive ?key frames))"
        using bip_replay.run_inv [of ?key frames] bip_replay.run_level [of ?key frames] by (simp_all add: list.pred_True)
      then show ?thesis
        using d memcmp_le [of "pn_bytes ?pn" "bip_rx_pn (run cmac_receive ?key frames)"]
          bip_replayed [OF air assms(2-4) e(3)] by simp
    qed
    then show ?thesis using a unfolding ieee80211_crypto_aes_cmac_decrypt_def by blast
  qed
  then show ?thesis using e(1) unfolding ieee80211_crypto_aes_cmac_encrypt_def by blast
qed

text \<open>A sample hash and a broadcast deauthentication frame.\<close>

definition sample_shash :: crypto_shash where
  "sample_shash msg i = of_nat (length msg) + (msg ! 2) + of_nat i"

definition sample_igtk :: ieee80211_key_conf where
  "sample_igtk = \<lparr>kc_tx_pn = 6, kc_cipher = 0x000FAC06, kc_keyidx = 4, kc_flags = 0, kc_key = replicate 16 1\<rparr>"

definition sample_deauth :: "u8 list" where
  "sample_deauth = [0xC0, 0] @ replicate 2 0 @ replicate 6 255 @ replicate 12 7 @ [0, 0, 3, 0]"

definition sample_deauth_skb :: sk_buff where
  "sample_deauth_skb = \<lparr>sk_head = [], sk_data = sample_deauth, sk_tail = replicate 18 0\<rparr>"

definition sample_bip_key :: bip_rx_key where
  "sample_bip_key = \<lparr>bip_rx_pn = [0, 0, 0, 0, 0, 2], bip_replays = 0, bip_icverrors = 0\<rparr>"

lemma bip_cmac_protects_witness:
  "\<exists>conf' sent key' out key2 out2. ieee80211_crypto_aes_cmac_encrypt sample_shash sample_igtk [(None, sample_deauth_skb)]
       = Some (TX_CONTINUE, conf', [(None, sent)]) \<and>
     ieee80211_crypto_aes_cmac_decrypt sample_shash 0 sample_bip_key sent = Some (RX_CONTINUE, key', out) \<and>
     sk_data out = sample_deauth \<and>
     ieee80211_crypto_aes_cmac_decrypt sample_shash 0 key' sent = Some (RX_DROP_UNUSABLE, key2, out2)"
proof -
  have p: "sk_data sample_deauth_skb = sample_deauth" "18 \<le> length (sk_tail sample_deauth_skb)"
    "\<not> flag_set 0 RX_FLAG_DECRYPTED" "length (bip_rx_pn sample_bip_key) = 6"
    by (simp_all add: sample_deauth_skb_def sample_bip_key_def flag_set_def)
  have h: "hdr_frame_control sample_deauth = Some 0x00C0" "ieee80211_is_mgmt 0x00C0" "24 \<le> length sample_deauth" by code_simp+
  have n: "be_value (bip_rx_pn sample_bip_key) < unat (kc_tx_pn sample_igtk + 1) mod 2 ^ 48"
    by (simp add: sample_bip_key_def sample_igtk_def)
  obtain sent where e: "ieee80211_crypto_aes_cmac_encrypt sample_shash sample_igtk [(None, sample_deauth_skb)]
      = Some (TX_CONTINUE, sample_igtk\<lparr>kc_tx_pn := kc_tx_pn sample_igtk + 1\<rparr>, [(None, sent)])"
    and d: "\<exists>key' out. ieee80211_crypto_aes_cmac_decrypt sample_shash 0 sample_bip_key sent = Some (RX_CONTINUE, key', out) \<and>
      sk_data out = sample_deauth \<and> (\<forall>frames flag2 res key2 out2.
         ieee80211_crypto_aes_cmac_decrypt sample_shash flag2 (run cmac_receive key' frames) sent = Some (res, key2, out2) \<longrightarrow>
         res = RX_DROP_UNUSABLE)"
    using bip_cmac_protects [OF p(1) h p(2-4) n, of sample_shash] by blast
  then obtain key' out where d: "ieee80211_crypto_aes_cmac_decrypt sample_shash 0 sample_bip_key sent = Some (RX_CONTINUE, key', out)"
      "sk_data out = sample_deauth"
    and r: "\<forall>flag2 res key2 out2. ieee80211_crypto_aes_cmac_decrypt sample_shash flag2 (run cmac_receive key' []) sent = Some (res, key2, out2) \<longrightarrow>
         res = RX_DROP_UNUSABLE" by blast
  have "(case ieee80211_crypto_aes_cmac_encrypt sample_shash sample_igtk [(None, sample_deauth_skb)] of
      Some (r, c, [(w, s)]) \<Rightarrow> (case ieee80211_crypto_aes_cmac_decrypt sample_shash 0 sample_bip_key s of
        Some (r, k, out) \<Rightarrow> ieee80211_crypto_aes_cmac_decrypt sample_shash 0 k s \<noteq> None))" by code_simp
  then obtain res key2 out2 where "ieee80211_crypto_aes_cmac_decrypt sample_shash 0 key' sent = Some (res, key2, out2)"
    using e d by (auto simp: not_None_eq)
  then show ?thesis using e d r by (metis run.simps(1))
qed

end
