(* ===== verification/HwCipher.thy ===== *)
theory HwCipher
  imports Ccmp
begin

text \<open>
  Ciphers that only the hardware knows (net/mac80211/wpa.c): the driver describes their header by
  a cipher scheme; the stack makes room for it on transmission, and checks the packet number and
  removes the header on reception.
\<close>

text \<open>\<open>struct ieee80211_cipher_scheme\<close> of include/net/mac80211.h.\<close>

record ieee80211_cipher_scheme =
  cs_hdr_len :: u8
  cs_pn_len :: u8
  cs_pn_off :: u8
  cs_key_idx_off :: u8
  cs_key_idx_mask :: u8
  cs_key_idx_shift :: u8
  cs_mic_len :: u8

definition KEY_FLAG_UPLOADED_TO_HARDWARE :: u32 where "KEY_FLAG_UPLOADED_TO_HARDWARE = BIT 0"
definition KEY_FLAG_TAINTED :: u32 where "KEY_FLAG_TAINTED = BIT 1"
definition KEY_FLAG_CIPHER_SCHEME :: u32 where "KEY_FLAG_CIPHER_SCHEME = BIT 2"

section \<open>Transmission\<close>

text \<open>\<open>iv_len\<close> is \<open>key->conf.iv_len\<close>; \<open>alloc_ok\<close> the result of enlarging the headroom.\<close>

definition ieee80211_crypto_cs_encrypt ::
  "bool \<Rightarrow> nat \<Rightarrow> hw_key \<Rightarrow> sk_buff \<Rightarrow> (ieee80211_tx_result \<times> sk_buff) option" where
  "ieee80211_crypto_cs_encrypt alloc_ok iv_len hw skb = do {
     fc \<leftarrow> hdr_frame_control (sk_data skb);
     if hw \<noteq> None \<and> \<not> hw_key_has hw IEEE80211_KEY_FLAG_PUT_IV_SPACE then Some (TX_CONTINUE, skb)
     else if length (sk_head skb) < iv_len \<and> \<not> alloc_ok then Some (TX_DROP, skb)
     else do {
       let skb = (if length (sk_head skb) < iv_len then skb\<lparr>sk_head := replicate iv_len 0 @ sk_head skb\<rparr> else skb);
       skb \<leftarrow> skb_open_gap iv_len (ieee80211_hdrlen fc) skb;
       Some (TX_CONTINUE, skb) } }"

text \<open>The walk over the frames; \<open>scheme\<close> tells whether the key is one of a cipher scheme.\<close>

fun hw_encrypt_queue ::
  "bool \<Rightarrow> bool \<Rightarrow> nat \<Rightarrow> (hw_key \<times> sk_buff) list \<Rightarrow> (ieee80211_tx_result \<times> (hw_key \<times> sk_buff) list) option" where
  "hw_encrypt_queue scheme alloc_ok iv_len [] = Some (TX_CONTINUE, [])"
| "hw_encrypt_queue scheme alloc_ok iv_len ((hw, skb) # skbs) =
     (if hw = None then Some (TX_DROP, (hw, skb) # skbs)
      else do {
        (res, skb) \<leftarrow> (if scheme then ieee80211_crypto_cs_encrypt alloc_ok iv_len hw skb else Some (TX_CONTINUE, skb));
        if res \<noteq> TX_CONTINUE then Some (res, (hw, skb) # skbs)
        else do {
          (res, skbs) \<leftarrow> hw_encrypt_queue scheme alloc_ok iv_len skbs;
          Some (res, (hw, skb) # skbs) } })"

definition ieee80211_crypto_hw_encrypt ::
  "u32 \<Rightarrow> bool \<Rightarrow> nat \<Rightarrow> (hw_key \<times> sk_buff) list \<Rightarrow> (ieee80211_tx_result \<times> (hw_key \<times> sk_buff) list) option" where
  "ieee80211_crypto_hw_encrypt key_flags alloc_ok iv_len skbs = do {
     (res, skbs) \<leftarrow> hw_encrypt_queue (flag_set key_flags KEY_FLAG_CIPHER_SCHEME) alloc_ok iv_len skbs;
     if res \<noteq> TX_CONTINUE then Some (res, skbs)
     else do { skbs \<leftarrow> ieee80211_tx_set_protected skbs; Some (TX_CONTINUE, skbs) } }"

section \<open>Reception\<close>

text \<open>The packet numbers are little endian: the last bytes count most.\<close>

definition ieee80211_crypto_cs_pn_compare :: "u8 list \<Rightarrow> u8 list \<Rightarrow> nat \<Rightarrow> int" where
  "ieee80211_crypto_cs_pn_compare pn1 pn2 len = memcmp (rev (take len pn1)) (rev (take len pn2))"

definition ieee80211_crypto_cs_decrypt ::
  "ieee80211_cipher_scheme option \<Rightarrow> u32 \<Rightarrow> u8 list list \<Rightarrow> sk_buff \<Rightarrow> (ieee80211_rx_result \<times> u8 list list \<times> sk_buff) option" where
  "ieee80211_crypto_cs_decrypt scheme flag gen_rx_pn skb = do {
     fc \<leftarrow> hdr_frame_control (sk_data skb);
     let hdrlen = ieee80211_hdrlen fc;
     case scheme of
       None \<Rightarrow> Some (RX_DROP_UNUSABLE, gen_rx_pn, skb)
     | Some cs \<Rightarrow>
         if \<not> flag_set flag RX_FLAG_DECRYPTED then Some (RX_DROP_UNUSABLE, gen_rx_pn, skb)
         else if \<not> ieee80211_is_data fc then Some (RX_CONTINUE, gen_rx_pn, skb)
         else if length (sk_data skb) < hdrlen + unat (cs_hdr_len cs) then Some (RX_DROP_UNUSABLE, gen_rx_pn, skb)
         else do {
           qos_tid \<leftarrow> qos_tid_of (sk_data skb) fc;
           let n = unat (cs_pn_len cs);
           rx_pn \<leftarrow> (if unat qos_tid < length gen_rx_pn then Some (gen_rx_pn ! unat qos_tid) else None);
           skb_pn \<leftarrow> rd_bytes (sk_data skb) (hdrlen + unat (cs_pn_off cs)) n;
           if length rx_pn < n then None
           else if ieee80211_crypto_cs_pn_compare skb_pn rx_pn n \<le> 0 then Some (RX_DROP_UNUSABLE, gen_rx_pn, skb)
           else do {
             let pns = gen_rx_pn[unat qos_tid := skb_pn @ drop n rx_pn];
             skb \<leftarrow> skb_close_gap (unat (cs_hdr_len cs)) hdrlen (skb_trim_by (unat (cs_mic_len cs)) skb);
             Some (RX_CONTINUE, pns, skb) } } }"

text \<open>\<open>scheme\<close>: the cipher scheme of the sender's station, if it is known.\<close>

definition ieee80211_crypto_hw_decrypt where
  "ieee80211_crypto_hw_decrypt scheme flag gen_rx_pn skb =
     (if scheme \<noteq> None then ieee80211_crypto_cs_decrypt scheme flag gen_rx_pn skb
      else Some (RX_DROP_UNUSABLE, gen_rx_pn, skb))"

text \<open>An accepted frame raises the counter of its traffic class and leaves the others.\<close>

definition le_value :: "u8 list \<Rightarrow> nat" where
  "le_value bs = be_value (rev bs)"

lemma be_value_append: "be_value (as @ bs) = be_value as * 256 ^ length bs + be_value bs"
  by (induction as) (auto simp: power_add algebra_simps)

lemma cs_pn_compare_less:
  assumes "length pn1 = n" and "n \<le> length pn2" and "0 < ieee80211_crypto_cs_pn_compare pn1 pn2 n"
  shows "le_value pn2 \<le> le_value (pn1 @ drop n pn2)"
proof -
  have l: "length (rev (take n pn1)) = length (rev (take n pn2))" using assms(1,2) by simp
  have "be_value (rev (take n pn2)) \<le> be_value (rev pn1)"
    using memcmp_le [OF l] assms(1,3) by (simp add: ieee80211_crypto_cs_pn_compare_def)
  moreover have "le_value pn2 = be_value (rev (drop n pn2)) * 256 ^ n + be_value (rev (take n pn2))"
    using be_value_append [of "rev (drop n pn2)" "rev (take n pn2)"] assms(2)
    by (simp add: le_value_def rev_append [symmetric] min_absorb2 del: rev_append)
  moreover have "le_value (pn1 @ drop n pn2) = be_value (rev (drop n pn2)) * 256 ^ n + be_value (rev pn1)"
    using be_value_append [of "rev (drop n pn2)" "rev pn1"] assms(1) by (simp add: le_value_def)
  ultimately show ?thesis by simp
qed

lemma cs_decrypt_pn:
  assumes "ieee80211_crypto_cs_decrypt scheme flag pns skb = Some (res, pns', skb')"
  shows "pns' = pns \<or> (\<exists>q pn. q < length pns \<and> pns' = pns[q := pn] \<and> length pn = length (pns ! q) \<and> le_value (pns ! q) \<le> le_value pn)"
proof (cases "pns' = pns")
  case False
  obtain fc cs where fc: "hdr_frame_control (sk_data skb) = Some fc" and cs: "scheme = Some cs"
    using assms False by (cases scheme) (auto simp: ieee80211_crypto_cs_decrypt_def bind_eq_Some_conv Let_def)
  let ?n = "unat (cs_pn_len cs)"
  have r: "flag_set flag RX_FLAG_DECRYPTED" "ieee80211_is_data fc" "\<not> length (sk_data skb) < ieee80211_hdrlen fc + unat (cs_hdr_len cs)"
    using assms False fc cs by (auto simp: ieee80211_crypto_cs_decrypt_def Let_def split: if_splits)
  obtain tid rx_pn skb_pn where t: "qos_tid_of (sk_data skb) fc = Some tid" "unat tid < length pns" "rx_pn = pns ! unat tid"
    "rd_bytes (sk_data skb) (ieee80211_hdrlen fc + unat (cs_pn_off cs)) ?n = Some skb_pn"
    using assms fc cs r by (auto simp: ieee80211_crypto_cs_decrypt_def Let_def bind_eq_Some_conv split: if_splits)
  have "\<not> length rx_pn < ?n" "\<not> ieee80211_crypto_cs_pn_compare skb_pn rx_pn ?n \<le> 0"
    using assms False fc cs r t by (auto simp: ieee80211_crypto_cs_decrypt_def Let_def split: if_splits)
  moreover from this have "pns' = pns[unat tid := skb_pn @ drop ?n rx_pn]"
    using assms fc cs r t by (auto simp: ieee80211_crypto_cs_decrypt_def Let_def bind_eq_Some_conv)
  moreover have "length skb_pn = ?n" using t(4) by (rule rd_bytes_length)
  ultimately show ?thesis using cs_pn_compare_less [of skb_pn ?n rx_pn] t(2,3) by (intro disjI2 exI) auto
qed simp

end
