(* ===== verification/Defrag.thy ===== *)
theory Defrag
  imports Ccmp "HOL-Library.Sublist"
begin

text \<open>
  Fragment reassembly of net/mac80211/rx.c: the cache of four pending frames of an interface,
  \<open>ieee80211_reassemble_add\<close>, \<open>ieee80211_reassemble_find\<close> and the handler
  \<open>ieee80211_rx_h_defragment\<close>.
\<close>

definition IEEE80211_FRAGMENT_MAX :: nat where "IEEE80211_FRAGMENT_MAX = 4"

definition WLAN_CIPHER_SUITE_CCMP :: u32 where "WLAN_CIPHER_SUITE_CCMP = 0x000FAC04"
definition WLAN_CIPHER_SUITE_GCMP :: u32 where "WLAN_CIPHER_SUITE_GCMP = 0x000FAC08"
definition WLAN_CIPHER_SUITE_GCMP_256 :: u32 where "WLAN_CIPHER_SUITE_GCMP_256 = 0x000FAC09"
definition WLAN_CIPHER_SUITE_CCMP_256 :: u32 where "WLAN_CIPHER_SUITE_CCMP_256 = 0x000FAC0A"

lemmas aead_suites = WLAN_CIPHER_SUITE_CCMP_def WLAN_CIPHER_SUITE_CCMP_256_def WLAN_CIPHER_SUITE_GCMP_def
  WLAN_CIPHER_SUITE_GCMP_256_def

section \<open>The cache\<close>

record ieee80211_fragment_entry =
  fe_skb_list :: "sk_buff list"
  fe_first_frag_time :: u64
  fe_seq :: u16
  fe_extra_len :: u16
  fe_last_frag :: u16
  fe_rx_queue :: u8
  fe_check_sequential_pn :: bool
  fe_last_pn :: "u8 list"

text \<open>\<open>sdata->fragments\<close> and \<open>sdata->fragment_next\<close>.\<close>

record fragment_cache =
  fragments :: "ieee80211_fragment_entry list"
  fragment_next :: nat

text \<open>
  What the handler reads of \<open>struct ieee80211_rx_data\<close>: the queue index, the index of the
  packet number, and \<open>rx->key\<close> with its counters \<open>u.ccmp.rx_pn\<close>.
\<close>

record defrag_rx =
  dr_seqno_idx :: u8
  dr_security_idx :: nat
  dr_key :: "(ieee80211_key_conf \<times> u8 list list) option"

definition is_multicast_ether_addr :: "u8 list \<Rightarrow> nat \<Rightarrow> bool option" where
  "is_multicast_ether_addr d off = do { a \<leftarrow> rd_u8 d off; Some (a AND 1 \<noteq> 0) }"

definition frame_seq_ctrl :: "u8 list \<Rightarrow> u16 option" where
  "frame_seq_ctrl d = get_unaligned_le16 d hdr_seq_ctrl"

definition ieee80211_reassemble_add ::
  "u64 \<Rightarrow> u16 \<Rightarrow> u16 \<Rightarrow> u8 \<Rightarrow> sk_buff \<Rightarrow> fragment_cache \<Rightarrow> nat \<times> fragment_cache" where
  "ieee80211_reassemble_add jiffies frag seq rx_queue skb cache =
     (let i = fragment_next cache;
          next_i = (if i + 1 \<ge> IEEE80211_FRAGMENT_MAX then 0 else i + 1);
          e = (fragments cache ! i)\<lparr>fe_skb_list := [skb], fe_first_frag_time := jiffies, fe_seq := seq,
                 fe_rx_queue := rx_queue, fe_last_frag := frag, fe_check_sequential_pn := False, fe_extra_len := 0\<rparr>
      in (i, cache\<lparr>fragments := (fragments cache)[i := e], fragment_next := next_i\<rparr>))"

text \<open>Type and the first two addresses of two frames agree.\<close>

definition same_frame :: "u8 list \<Rightarrow> u8 list \<Rightarrow> bool option" where
  "same_frame d f = do {
     fc \<leftarrow> hdr_frame_control d;
     f_fc \<leftarrow> hdr_frame_control f;
     a \<leftarrow> rd_bytes d hdr_addr1 (2 * ETH_ALEN);
     b \<leftarrow> rd_bytes f hdr_addr1 (2 * ETH_ALEN);
     Some ((fc XOR f_fc) AND IEEE80211_FCTL_FTYPE = 0 \<and> a = b) }"

definition entry_matches :: "u16 \<Rightarrow> u16 \<Rightarrow> u8 \<Rightarrow> ieee80211_fragment_entry \<Rightarrow> bool" where
  "entry_matches frag seq rx_queue e \<longleftrightarrow>
     fe_skb_list e \<noteq> [] \<and> fe_seq e = seq \<and> fe_rx_queue e = rx_queue \<and> unat (fe_last_frag e) + 1 = unat frag"

text \<open>The loop over the entries, newest first; stale entries that match are purged.\<close>

fun reassemble_find_from ::
  "u64 \<Rightarrow> u64 \<Rightarrow> u16 \<Rightarrow> u16 \<Rightarrow> u8 \<Rightarrow> u8 list \<Rightarrow> nat \<Rightarrow> nat \<Rightarrow> fragment_cache \<Rightarrow> (nat option \<times> fragment_cache) option" where
  "reassemble_find_from jiffies HZ frag seq rx_queue d 0 idx cache = Some (None, cache)"
| "reassemble_find_from jiffies HZ frag seq rx_queue d (Suc n) idx cache = do {
     let idx = (if idx = 0 then IEEE80211_FRAGMENT_MAX - 1 else idx - 1);
     let e = fragments cache ! idx;
     if \<not> entry_matches frag seq rx_queue e
     then reassemble_find_from jiffies HZ frag seq rx_queue d n idx cache
     else do {
       same \<leftarrow> same_frame d (sk_data (hd (fe_skb_list e)));
       if \<not> same then reassemble_find_from jiffies HZ frag seq rx_queue d n idx cache
       else if time_after jiffies (fe_first_frag_time e + 2 * HZ)
       then reassemble_find_from jiffies HZ frag seq rx_queue d n idx
              (cache\<lparr>fragments := (fragments cache)[idx := e\<lparr>fe_skb_list := []\<rparr>]\<rparr>)
       else Some (Some idx, cache) } }"

definition ieee80211_reassemble_find ::
  "u64 \<Rightarrow> u64 \<Rightarrow> u16 \<Rightarrow> u16 \<Rightarrow> u8 \<Rightarrow> u8 list \<Rightarrow> fragment_cache \<Rightarrow> (nat option \<times> fragment_cache) option" where
  "ieee80211_reassemble_find jiffies HZ frag seq rx_queue d cache =
     reassemble_find_from jiffies HZ frag seq rx_queue d IEEE80211_FRAGMENT_MAX (fragment_next cache) cache"

section \<open>The handler\<close>

definition pn_cipher :: "u32 \<Rightarrow> bool" where
  "pn_cipher cipher \<longleftrightarrow> cipher \<in> {WLAN_CIPHER_SUITE_CCMP, WLAN_CIPHER_SUITE_CCMP_256, WLAN_CIPHER_SUITE_GCMP, WLAN_CIPHER_SUITE_GCMP_256}"

text \<open>The packet number after the given one: from the last byte on, as long as bytes wrap to zero.\<close>

fun inc_rev :: "u8 list \<Rightarrow> u8 list" where
  "inc_rev [] = []"
| "inc_rev (b # bs) = (if b + 1 \<noteq> 0 then (b + 1) # bs else (b + 1) # inc_rev bs)"

definition next_pn :: "u8 list \<Rightarrow> u8 list" where
  "next_pn pn = rev (inc_rev (rev pn))"

text \<open>\<open>rx->key->u.ccmp.rx_pn[rx->security_idx]\<close>.\<close>

definition rx_key_pn :: "defrag_rx \<Rightarrow> u8 list list \<Rightarrow> u8 list option" where
  "rx_key_pn rx pns = (if dr_security_idx rx < length pns then Some (pns ! dr_security_idx rx) else None)"

text \<open>The first fragment: what the entry has to check of the others.\<close>

definition first_fragment :: "defrag_rx \<Rightarrow> u16 \<Rightarrow> nat \<Rightarrow> fragment_cache \<Rightarrow> fragment_cache option" where
  "first_fragment rx fc i cache =
     (case dr_key rx of
        None \<Rightarrow> Some cache
      | Some (conf, pns) \<Rightarrow>
          if pn_cipher (kc_cipher conf) \<and> ieee80211_has_protected fc
          then do {
            pn \<leftarrow> rx_key_pn rx pns;
            Some (cache\<lparr>fragments := (fragments cache)[i := (fragments cache ! i)\<lparr>fe_check_sequential_pn := True, fe_last_pn := pn\<rparr>]\<rparr>) }
          else Some cache)"

text \<open>The check of a further fragment: None within the result for a fragment to drop, otherwise the entry.\<close>

definition sequential_pn ::
  "defrag_rx \<Rightarrow> ieee80211_fragment_entry \<Rightarrow> ieee80211_fragment_entry option option" where
  "sequential_pn rx e =
     (if \<not> fe_check_sequential_pn e then Some (Some e)
      else case dr_key rx of
        None \<Rightarrow> Some None
      | Some (conf, pns) \<Rightarrow>
          if \<not> pn_cipher (kc_cipher conf) then Some None
          else do {
            rpn \<leftarrow> rx_key_pn rx pns;
            let pn = next_pn (fe_last_pn e);
            Some (if pn \<noteq> rpn then None else Some (e\<lparr>fe_last_pn := pn\<rparr>)) })"

definition skb_put_data :: "u8 list \<Rightarrow> sk_buff \<Rightarrow> sk_buff option" where
  "skb_put_data bs skb = do {
     let start = length (sk_data skb);
     skb \<leftarrow> skb_put (length bs) skb;
     skb_write start bs skb }"

fun put_fragments :: "sk_buff \<Rightarrow> sk_buff list \<Rightarrow> sk_buff option" where
  "put_fragments skb [] = Some skb"
| "put_fragments skb (f # fs) = do { skb \<leftarrow> skb_put_data (sk_data f) skb; put_fragments skb fs }"

text \<open>
  The last fragment is there: the others behind the first one, with more tailroom if what it
  has is less than the length the entry recorded. \<open>alloc_ok\<close> is the result of that allocation.
\<close>

definition reassemble :: "bool \<Rightarrow> ieee80211_fragment_entry \<Rightarrow> sk_buff option option" where
  "reassemble alloc_ok e =
     (case fe_skb_list e of
        [] \<Rightarrow> None
      | skb # fs \<Rightarrow>
          let extra = unat (fe_extra_len e) in
          if length (sk_tail skb) < extra
          then (if alloc_ok then map_option Some (put_fragments (skb\<lparr>sk_tail := sk_tail skb @ replicate extra 0\<rparr>) fs)
                else Some None)
          else map_option Some (put_fragments skb fs))"

definition ieee80211_rx_h_defragment ::
  "u64 \<Rightarrow> u64 \<Rightarrow> bool \<Rightarrow> defrag_rx \<Rightarrow> fragment_cache \<Rightarrow> sk_buff \<Rightarrow>
     (ieee80211_rx_result \<times> fragment_cache \<times> sk_buff option) option" where
  "ieee80211_rx_h_defragment jiffies HZ alloc_ok rx cache skb = do {
     fc \<leftarrow> hdr_frame_control (sk_data skb);
     if ieee80211_is_ctl fc then Some (RX_CONTINUE, cache, Some skb)
     else do {
       sc \<leftarrow> frame_seq_ctrl (sk_data skb);
       let frag = sc AND IEEE80211_SCTL_FRAG;
       multicast \<leftarrow> is_multicast_ether_addr (sk_data skb) hdr_addr1;
       if multicast \<or> (\<not> ieee80211_has_morefrags fc \<and> frag = 0) then Some (RX_CONTINUE, cache, Some skb)
       else do {
         let seq = drop_bit 4 (sc AND IEEE80211_SCTL_SEQ);
         if frag = 0 then do {
           let (i, cache) = ieee80211_reassemble_add jiffies frag seq (dr_seqno_idx rx) skb cache;
           cache \<leftarrow> first_fragment rx fc i cache;
           Some (RX_QUEUED, cache, None) }
         else do {
           (found, cache) \<leftarrow> ieee80211_reassemble_find jiffies HZ frag seq (dr_seqno_idx rx) (sk_data skb) cache;
           case found of
             None \<Rightarrow> Some (RX_DROP_MONITOR, cache, Some skb)
           | Some i \<Rightarrow> do {
               checked \<leftarrow> sequential_pn rx (fragments cache ! i);
               case checked of
                 None \<Rightarrow> Some (RX_DROP_UNUSABLE, cache, Some skb)
               | Some e \<Rightarrow> do {
                   let skb = skb_pull (ieee80211_hdrlen fc) skb;
                   let e = e\<lparr>fe_skb_list := fe_skb_list e @ [skb], fe_last_frag := frag,
                             fe_extra_len := fe_extra_len e + of_nat (length (sk_data skb))\<rparr>;
                   if ieee80211_has_morefrags fc
                   then Some (RX_QUEUED, cache\<lparr>fragments := (fragments cache)[i := e]\<rparr>, None)
                   else do {
                     r \<leftarrow> reassemble alloc_ok e;
                     let cache = cache\<lparr>fragments := (fragments cache)[i := e\<lparr>fe_skb_list := []\<rparr>]\<rparr>;
                     case r of
                       None \<Rightarrow> Some (RX_DROP_UNUSABLE, cache, Some (hd (fe_skb_list e)))
                     | Some out \<Rightarrow> Some (RX_CONTINUE, cache, Some out) }
                 }
             }
         }
       }
     }
   }"

section \<open>What an entry holds\<close>

text \<open>
  A history of the frames handed to the handler. The frames of an entry are a part of it: the
  fragments 0, 1, 2, ... of one sequence number and queue, the later ones without their headers.
\<close>

type_synonym fragment = "defrag_rx \<times> sk_buff"

definition fragment_payload :: "fragment \<Rightarrow> u8 list" where
  "fragment_payload f =
     (case hdr_frame_control (sk_data (snd f)) of
        None \<Rightarrow> [] | Some fc \<Rightarrow> sk_data (skb_pull (ieee80211_hdrlen fc) (snd f)))"

definition fragment_number :: "fragment \<Rightarrow> (u16 \<times> nat) option" where
  "fragment_number f = do {
     sc \<leftarrow> frame_seq_ctrl (sk_data (snd f));
     Some (drop_bit 4 (sc AND IEEE80211_SCTL_SEQ), unat (sc AND IEEE80211_SCTL_FRAG)) }"

definition fragment_pn :: "fragment \<Rightarrow> u8 list option" where
  "fragment_pn f = (case dr_key (fst f) of None \<Rightarrow> None | Some (conf, pns) \<Rightarrow> rx_key_pn (fst f) pns)"

definition pn_protected :: "fragment \<Rightarrow> bool" where
  "pn_protected f \<longleftrightarrow> (\<exists>conf pns fc. dr_key (fst f) = Some (conf, pns) \<and> pn_cipher (kc_cipher conf) \<and>
     hdr_frame_control (sk_data (snd f)) = Some fc \<and> ieee80211_has_protected fc)"

definition fragment_chain :: "u16 \<Rightarrow> u8 \<Rightarrow> fragment list \<Rightarrow> bool" where
  "fragment_chain seq queue fs \<longleftrightarrow> fs \<noteq> [] \<and>
     (\<forall>i<length fs. fragment_number (fs ! i) = Some (seq, i) \<and> dr_seqno_idx (fst (fs ! i)) = queue) \<and>
     (\<forall>f\<in>set (tl fs). same_frame (sk_data (snd f)) (sk_data (snd (hd fs))) = Some True) \<and>
     (pn_protected (hd fs) \<longrightarrow> (\<forall>i. Suc i < length fs \<longrightarrow>
        (\<exists>pn. fragment_pn (fs ! i) = Some pn \<and> fragment_pn (fs ! Suc i) = Some (next_pn pn))))"

definition pieces :: "fragment list \<Rightarrow> u8 list list" where
  "pieces fs = sk_data (snd (hd fs)) # map fragment_payload (tl fs)"

definition entry_holds :: "fragment list \<Rightarrow> ieee80211_fragment_entry \<Rightarrow> bool" where
  "entry_holds fs e \<longleftrightarrow> fragment_chain (fe_seq e) (fe_rx_queue e) fs \<and>
     length fs = Suc (unat (fe_last_frag e)) \<and> map sk_data (fe_skb_list e) = pieces fs \<and>
     hd (fe_skb_list e) = snd (hd fs) \<and> (fe_check_sequential_pn e \<longleftrightarrow> pn_protected (hd fs)) \<and>
     (pn_protected (hd fs) \<longrightarrow> fragment_pn (last fs) = Some (fe_last_pn e))"

definition entry_ok :: "fragment list \<Rightarrow> ieee80211_fragment_entry \<Rightarrow> bool" where
  "entry_ok hist e \<longleftrightarrow> fe_skb_list e = [] \<or> (\<exists>fs. subseq fs hist \<and> entry_holds fs e)"

definition cache_ok :: "fragment list \<Rightarrow> fragment_cache \<Rightarrow> bool" where
  "cache_ok hist cache \<longleftrightarrow> length (fragments cache) = IEEE80211_FRAGMENT_MAX \<and>
     fragment_next cache < IEEE80211_FRAGMENT_MAX \<and> list_all (entry_ok hist) (fragments cache)"

lemma cache_ok_update:
  "cache_ok hist cache \<Longrightarrow> entry_ok hist e \<Longrightarrow> n < IEEE80211_FRAGMENT_MAX \<Longrightarrow>
     cache_ok hist (cache\<lparr>fragments := (fragments cache)[i := e], fragment_next := n\<rparr>)"
  by (auto simp: cache_ok_def list_all_iff dest: set_update_subset_insert [THEN subsetD])

lemma cache_ok_entry:
  "cache_ok hist cache \<Longrightarrow> entry_ok hist e \<Longrightarrow> cache_ok hist (cache\<lparr>fragments := (fragments cache)[i := e]\<rparr>)"
  using cache_ok_update [of hist cache e "fragment_next cache" i] by (simp add: cache_ok_def)

lemma cache_ok_nth: "cache_ok hist cache \<Longrightarrow> i < IEEE80211_FRAGMENT_MAX \<Longrightarrow> entry_ok hist (fragments cache ! i)"
  by (simp add: cache_ok_def list_all_length)

lemma entry_ok_more: "entry_ok hist e \<Longrightarrow> entry_ok (hist @ [f]) e"
  by (auto simp: entry_ok_def intro: list_emb_append2)

lemma cache_ok_more: "cache_ok hist cache \<Longrightarrow> cache_ok (hist @ [f]) cache"
  by (auto simp: cache_ok_def list_all_iff entry_ok_more)

lemma chain_snoc:
  assumes "fragment_chain seq queue fs" and "fragment_number f = Some (seq, length fs)" and "dr_seqno_idx (fst f) = queue"
    and "same_frame (sk_data (snd f)) (sk_data (snd (hd fs))) = Some True"
    and "pn_protected (hd fs) \<Longrightarrow> \<exists>pn. fragment_pn (last fs) = Some pn \<and> fragment_pn f = Some (next_pn pn)"
  shows "fragment_chain seq queue (fs @ [f])"
proof -
  have ne: "fs \<noteq> []" using assms(1) by (simp add: fragment_chain_def)
  have "\<exists>pn. fragment_pn ((fs @ [f]) ! i) = Some pn \<and> fragment_pn ((fs @ [f]) ! Suc i) = Some (next_pn pn)"
    if p: "pn_protected (hd fs)" and i: "Suc i < length (fs @ [f])" for i
  proof (cases "Suc i < length fs")
    case True
    then show ?thesis using assms(1) p by (auto simp: fragment_chain_def nth_append)
  next
    case False
    then have "i = length fs - 1" using i by simp
    then show ?thesis using assms(5) [OF p] ne by (simp add: nth_append last_conv_nth)
  qed
  then show ?thesis using assms(1-4) ne by (auto simp: fragment_chain_def nth_append less_Suc_eq)
qed

lemma find_from:
  assumes "reassemble_find_from jiffies HZ frag seq queue d n idx cache = Some (r, cache')"
    and "cache_ok hist cache" and "idx < IEEE80211_FRAGMENT_MAX"
  shows "cache_ok hist cache' \<and> (\<forall>i. r = Some i \<longrightarrow> i < IEEE80211_FRAGMENT_MAX \<and>
    entry_matches frag seq queue (fragments cache' ! i) \<and>
    same_frame d (sk_data (hd (fe_skb_list (fragments cache' ! i)))) = Some True)"
  using assms
proof (induction jiffies HZ frag seq queue d n idx cache rule: reassemble_find_from.induct)
  case (2 jiffies HZ frag seq queue d n idx cache)
  let ?i = "if idx = 0 then IEEE80211_FRAGMENT_MAX - 1 else idx - 1"
  let ?e = "fragments cache ! ?i"
  have i: "?i < IEEE80211_FRAGMENT_MAX" using "2.prems"(3) by (auto simp: IEEE80211_FRAGMENT_MAX_def)
  show ?case
  proof (cases "entry_matches frag seq queue ?e")
    case False
    then show ?thesis using "2.IH"(1) [OF refl refl False _ "2.prems"(2) i] "2.prems"(1) False by (simp add: Let_def)
  next
    case m: True
    obtain same where same: "same_frame d (sk_data (hd (fe_skb_list ?e))) = Some same"
      using "2.prems"(1) m by (cases "same_frame d (sk_data (hd (fe_skb_list ?e)))") (auto simp: Let_def)
    consider "\<not> same" | "same" "time_after jiffies (fe_first_frag_time ?e + 2 * HZ)"
      | "same" "\<not> time_after jiffies (fe_first_frag_time ?e + 2 * HZ)" by blast
    then show ?thesis
    proof cases
      case 1
      then show ?thesis using "2.IH"(2) [OF refl refl _ same _ _ "2.prems"(2) i] m same "2.prems"(1) by (simp add: Let_def)
    next
      case 2: 2
      have "cache_ok hist (cache\<lparr>fragments := (fragments cache)[?i := ?e\<lparr>fe_skb_list := []\<rparr>]\<rparr>)"
        by (rule cache_ok_entry [OF "2.prems"(2)]) (simp add: entry_ok_def)
      then show ?thesis using "2.IH"(3) [OF refl refl _ same _ 2(2) _ _ i] m same 2 "2.prems"(1) by (simp add: Let_def)
    next
      case 3
      then show ?thesis using m same "2.prems" i by (auto simp: Let_def)
    qed
  qed
qed auto

section \<open>The steps of the handler\<close>

text \<open>A first fragment replaces an entry.\<close>

lemma add_ok:
  assumes "cache_ok hist cache" and "hdr_frame_control (sk_data skb) = Some fc" and "frame_seq_ctrl (sk_data skb) = Some sc"
    and "sc AND IEEE80211_SCTL_FRAG = 0"
    and "ieee80211_reassemble_add jiffies 0 (drop_bit 4 (sc AND IEEE80211_SCTL_SEQ)) (dr_seqno_idx rx) skb cache = (i, c1)"
    and "first_fragment rx fc i c1 = Some c2"
  shows "cache_ok (hist @ [(rx, skb)]) c2"
proof -
  let ?seq = "drop_bit 4 (sc AND IEEE80211_SCTL_SEQ)"
  let ?e = "(fragments cache ! i)\<lparr>fe_skb_list := [skb], fe_first_frag_time := jiffies, fe_seq := ?seq,
                 fe_rx_queue := dr_seqno_idx rx, fe_last_frag := 0, fe_check_sequential_pn := False, fe_extra_len := 0\<rparr>"
  let ?c1 = "cache\<lparr>fragments := (fragments cache)[i := ?e],
    fragment_next := (if i + 1 \<ge> IEEE80211_FRAGMENT_MAX then 0 else i + 1)\<rparr>"
  have i: "i = fragment_next cache" "c1 = ?c1" using assms(5) by (auto simp: ieee80211_reassemble_add_def Let_def)
  have l: "i < length (fragments cache)" using assms(1) i(1) by (simp add: cache_ok_def)
  have chain: "fragment_chain ?seq (dr_seqno_idx rx) [(rx, skb)]"
    using assms(3,4) by (simp add: fragment_chain_def fragment_number_def)
  have sub: "subseq [(rx, skb)] (hist @ [(rx, skb)])" by (simp add: subseq_singleton_left)
  have ok: "cache_ok (hist @ [(rx, skb)]) (cache\<lparr>fragments := (fragments cache)[i := e], fragment_next := fragment_next c1\<rparr>)"
    if "entry_holds [(rx, skb)] e" for e
  proof (rule cache_ok_update [OF cache_ok_more [OF assms(1)]])
    show "entry_ok (hist @ [(rx, skb)]) e" using that sub by (auto simp: entry_ok_def)
    show "fragment_next c1 < IEEE80211_FRAGMENT_MAX" by (simp add: i(2) IEEE80211_FRAGMENT_MAX_def)
  qed
  show ?thesis
  proof (cases "pn_protected (rx, skb)")
    case False
    then have "c2 = c1" using assms(2,6) by (auto simp: first_fragment_def pn_protected_def split: option.splits prod.splits if_splits)
    moreover have "entry_holds [(rx, skb)] ?e" using chain False by (simp add: entry_holds_def pieces_def)
    ultimately show ?thesis using ok [of ?e] by (simp add: i(2))
  next
    case True
    then obtain pn where pn: "fragment_pn (rx, skb) = Some pn"
      "c2 = c1\<lparr>fragments := (fragments c1)[i := (fragments c1 ! i)\<lparr>fe_check_sequential_pn := True, fe_last_pn := pn\<rparr>]\<rparr>"
      using assms(2,6) by (auto simp: first_fragment_def pn_protected_def fragment_pn_def bind_eq_Some_conv)
    let ?e2 = "?e\<lparr>fe_check_sequential_pn := True, fe_last_pn := pn\<rparr>"
    have "entry_holds [(rx, skb)] ?e2" using chain True pn(1) by (simp add: entry_holds_def pieces_def)
    moreover have "c2 = cache\<lparr>fragments := (fragments cache)[i := ?e2], fragment_next := fragment_next c1\<rparr>"
      using l by (simp add: pn(2) i(2))
    ultimately show ?thesis using ok [of ?e2] by simp
  qed
qed

text \<open>A further fragment extends the frames of its entry.\<close>

lemma sequential_entry:
  assumes "sequential_pn rx e = Some (Some e1)"
  shows "e1 = e\<lparr>fe_last_pn := fe_last_pn e1\<rparr> \<and>
    (fe_check_sequential_pn e \<longrightarrow> fragment_pn (rx, skb) = Some (fe_last_pn e1) \<and> fe_last_pn e1 = next_pn (fe_last_pn e))"
  using assms by (auto simp: sequential_pn_def fragment_pn_def bind_eq_Some_conv Let_def split: if_splits option.splits prod.splits)

lemma extended_entry:
  assumes "entry_holds fs e" and "entry_matches frag seq (dr_seqno_idx rx) e"
    and "same_frame (sk_data skb) (sk_data (hd (fe_skb_list e))) = Some True" and "sequential_pn rx e = Some (Some e1)"
    and "hdr_frame_control (sk_data skb) = Some fc" and "frame_seq_ctrl (sk_data skb) = Some sc"
    and "frag = sc AND IEEE80211_SCTL_FRAG" and "seq = drop_bit 4 (sc AND IEEE80211_SCTL_SEQ)"
    and "e2 = e1\<lparr>fe_skb_list := fe_skb_list e1 @ [skb_pull (ieee80211_hdrlen fc) skb], fe_last_frag := frag, fe_extra_len := x\<rparr>"
  shows "entry_holds (fs @ [(rx, skb)]) e2"
proof -
  note h = assms(1) [unfolded entry_holds_def]
  have ne: "fs \<noteq> []" using h by (auto simp: fragment_chain_def)
  have e1: "e1 = e\<lparr>fe_last_pn := fe_last_pn e1\<rparr>"
    "fe_check_sequential_pn e \<Longrightarrow> fragment_pn (rx, skb) = Some (fe_last_pn e1) \<and> fe_last_pn e1 = next_pn (fe_last_pn e)"
    using sequential_entry [OF assms(4), of skb] by blast+
  have f: "fe_seq e1 = fe_seq e" "fe_rx_queue e1 = fe_rx_queue e" "fe_skb_list e1 = fe_skb_list e"
    "fe_check_sequential_pn e1 = fe_check_sequential_pn e"
    by (subst e1(1), simp)+
  have n: "fe_seq e = seq" "fe_rx_queue e = dr_seqno_idx rx" "length fs = unat frag" "fe_skb_list e \<noteq> []"
    using assms(2) h by (auto simp: entry_matches_def)
  have num: "fragment_number (rx, skb) = Some (seq, length fs)"
    using assms(6-8) n(3) by (simp add: fragment_number_def)
  have "fragment_chain seq (dr_seqno_idx rx) (fs @ [(rx, skb)])"
  proof (rule chain_snoc)
    show "fragment_chain seq (dr_seqno_idx rx) fs" using h n(1,2) by simp
    show "same_frame (sk_data (snd (rx, skb))) (sk_data (snd (hd fs))) = Some True" using assms(3) h by simp
    show "\<exists>pn. fragment_pn (last fs) = Some pn \<and> fragment_pn (rx, skb) = Some (next_pn pn)" if "pn_protected (hd fs)"
      using that h e1(2) by auto
  qed (use num in auto)
  moreover have "map sk_data (fe_skb_list e2) = pieces (fs @ [(rx, skb)])"
    using h ne assms(5,9) f(3) by (simp add: pieces_def fragment_payload_def)
  moreover have "pn_protected (hd fs) \<Longrightarrow> fragment_pn (rx, skb) = Some (fe_last_pn e2)"
    using h e1(2) assms(9) by simp
  ultimately show ?thesis
    using h ne n f assms(9) by (simp add: entry_holds_def)
qed

lemma put_fragments_data: "put_fragments skb fs = Some out \<Longrightarrow> sk_data out = sk_data skb @ concat (map sk_data fs)"
proof (induction skb fs rule: put_fragments.induct)
  case (2 skb f fs)
  then obtain s1 s2 where s: "skb_put (length (sk_data f)) skb = Some s1" "skb_write (length (sk_data skb)) (sk_data f) s1 = Some s2"
    "put_fragments s2 fs = Some out"
    by (auto simp: skb_put_data_def Let_def bind_eq_Some_conv)
  have "skb_put_data (sk_data f) skb = Some s2" using s(1,2) by (simp add: skb_put_data_def)
  moreover have "sk_data s2 = sk_data skb @ sk_data f"
    using s(1,2) by (auto simp: skb_put_def skb_write_def wr_bytes_def bind_eq_Some_conv split: if_splits)
  ultimately show ?case using "2.IH" [of s2] s(3) by simp
qed simp

lemma reassemble_data: "reassemble alloc_ok e = Some (Some out) \<Longrightarrow> sk_data out = concat (map sk_data (fe_skb_list e))"
  by (cases "fe_skb_list e") (auto simp: reassemble_def Let_def dest!: put_fragments_data split: if_splits)

text \<open>The frames the handler lets through as they are, and those it puts together.\<close>

definition unfragmented :: "sk_buff \<Rightarrow> bool" where
  "unfragmented skb \<longleftrightarrow> (\<exists>fc. hdr_frame_control (sk_data skb) = Some fc \<and>
     (ieee80211_is_ctl fc \<or> is_multicast_ether_addr (sk_data skb) hdr_addr1 = Some True \<or>
      (\<not> ieee80211_has_morefrags fc \<and> (\<exists>sc. frame_seq_ctrl (sk_data skb) = Some sc \<and> sc AND IEEE80211_SCTL_FRAG = 0))))"

definition reassembled :: "fragment list \<Rightarrow> fragment \<Rightarrow> sk_buff \<Rightarrow> bool" where
  "reassembled hist f out \<longleftrightarrow> (\<exists>fs seq queue. subseq fs hist \<and> fragment_chain seq queue fs \<and> last fs = f \<and> 2 \<le> length fs \<and>
     sk_data out = concat (pieces fs))"

lemma defragment_step:
  assumes run: "ieee80211_rx_h_defragment jiffies HZ alloc_ok rx cache skb = Some (res, cache', out)" and ok: "cache_ok hist cache"
  shows "cache_ok (hist @ [(rx, skb)]) cache' \<and> (res = RX_CONTINUE \<longrightarrow>
    (unfragmented skb \<and> out = Some skb) \<or> (\<exists>o'. out = Some o' \<and> reassembled (hist @ [(rx, skb)]) (rx, skb) o'))"
proof -
  let ?h = "hist @ [(rx, skb)]"
  obtain fc where fc: "hdr_frame_control (sk_data skb) = Some fc"
    using run by (auto simp: ieee80211_rx_h_defragment_def bind_eq_Some_conv)
  show ?thesis
  proof (cases "unfragmented skb")
    case True
    then have "(res, cache', out) = (RX_CONTINUE, cache, Some skb)"
      using run fc by (auto simp: unfragmented_def ieee80211_rx_h_defragment_def Let_def bind_eq_Some_conv split: if_splits)
    then show ?thesis using True cache_ok_more [OF ok] by simp
  next
    case fragment: False
    then have not_ctl: "\<not> ieee80211_is_ctl fc" using fc by (auto simp: unfragmented_def)
    then obtain sc where sc: "frame_seq_ctrl (sk_data skb) = Some sc" "is_multicast_ether_addr (sk_data skb) hdr_addr1 = Some False"
      using run fc fragment
      by (cases "is_multicast_ether_addr (sk_data skb) hdr_addr1") (auto simp: unfragmented_def ieee80211_rx_h_defragment_def bind_eq_Some_conv Let_def)
    let ?frag = "sc AND IEEE80211_SCTL_FRAG" and ?seq = "drop_bit 4 (sc AND IEEE80211_SCTL_SEQ)"
    have mf: "ieee80211_has_morefrags fc \<or> ?frag \<noteq> 0" using fragment fc sc by (auto simp: unfragmented_def)
    show ?thesis
    proof (cases "?frag = 0")
      case True
      obtain i c1 where a: "ieee80211_reassemble_add jiffies 0 ?seq (dr_seqno_idx rx) skb cache = (i, c1)"
        by (metis prod.exhaust)
      then have "first_fragment rx fc i c1 = Some cache'" "res = RX_QUEUED"
        using run fc sc not_ctl mf True by (auto simp: ieee80211_rx_h_defragment_def bind_eq_Some_conv)
      then show ?thesis using add_ok [OF ok fc sc(1) True a] by simp
    next
      case later: False
      obtain found c1 where find: "ieee80211_reassemble_find jiffies HZ ?frag ?seq (dr_seqno_idx rx) (sk_data skb) cache = Some (found, c1)"
        using run fc sc not_ctl later by (auto simp: ieee80211_rx_h_defragment_def bind_eq_Some_conv Let_def)
      have f: "cache_ok hist c1" "\<And>i. found = Some i \<Longrightarrow> i < IEEE80211_FRAGMENT_MAX \<and>
          entry_matches ?frag ?seq (dr_seqno_idx rx) (fragments c1 ! i) \<and>
          same_frame (sk_data skb) (sk_data (hd (fe_skb_list (fragments c1 ! i)))) = Some True"
        using find_from [OF find [unfolded ieee80211_reassemble_find_def] ok] ok by (auto simp: cache_ok_def)
      show ?thesis
      proof (cases found)
        case None
        then have "res = RX_DROP_MONITOR" "cache' = c1"
          using run fc sc not_ctl later find by (auto simp: ieee80211_rx_h_defragment_def)
        then show ?thesis using cache_ok_more [OF f(1)] by simp
      next
        case (Some i)
        let ?e = "fragments c1 ! i"
        obtain checked where ch: "sequential_pn rx ?e = Some checked"
          using run fc sc not_ctl later find Some by (auto simp: ieee80211_rx_h_defragment_def bind_eq_Some_conv Let_def)
        show ?thesis
        proof (cases checked)
          case None
          then have "res = RX_DROP_UNUSABLE" "cache' = c1"
            using run fc sc not_ctl later find Some ch by (auto simp: ieee80211_rx_h_defragment_def)
          then show ?thesis using cache_ok_more [OF f(1)] by simp
        next
          case e1: (Some e1)
          let ?skb = "skb_pull (ieee80211_hdrlen fc) skb"
          let ?e2 = "e1\<lparr>fe_skb_list := fe_skb_list e1 @ [?skb], fe_last_frag := ?frag, fe_extra_len := fe_extra_len e1 + of_nat (length (sk_data ?skb))\<rparr>"
          note m = f(2) [OF Some]
          have "fe_skb_list ?e \<noteq> []" using m by (simp add: entry_matches_def)
          then obtain fs where fs: "subseq fs hist" "entry_holds fs ?e"
            using cache_ok_nth [OF f(1)] m by (auto simp: entry_ok_def)
          have h2: "entry_holds (fs @ [(rx, skb)]) ?e2"
            by (rule extended_entry [OF fs(2) _ _ _ fc sc(1) refl refl refl]) (use m ch e1 in auto)
          have sub: "subseq (fs @ [(rx, skb)]) ?h" using fs(1) by (simp add: list_emb_append_mono)
          show ?thesis
          proof (cases "ieee80211_has_morefrags fc")
            case True
            then have "res = RX_QUEUED" "cache' = c1\<lparr>fragments := (fragments c1)[i := ?e2]\<rparr>"
              using run fc sc not_ctl later find Some ch e1 by (auto simp: ieee80211_rx_h_defragment_def Let_def)
            moreover have "entry_ok ?h ?e2" using sub h2 unfolding entry_ok_def by blast
            ultimately show ?thesis using cache_ok_entry [OF cache_ok_more [OF f(1)]] by simp
          next
            case False
            obtain r where r: "reassemble alloc_ok ?e2 = Some r"
              using run fc sc not_ctl later find Some ch e1 False by (auto simp: ieee80211_rx_h_defragment_def Let_def bind_eq_Some_conv)
            have c': "cache' = c1\<lparr>fragments := (fragments c1)[i := ?e2\<lparr>fe_skb_list := []\<rparr>]\<rparr>"
              and o': "res = RX_CONTINUE \<longrightarrow> out = r \<and> r \<noteq> None"
              using run fc sc not_ctl later find Some ch e1 False r
              by (auto simp: ieee80211_rx_h_defragment_def Let_def split: option.splits)
            have "entry_ok ?h (?e2\<lparr>fe_skb_list := []\<rparr>)" by (simp add: entry_ok_def)
            then have "cache_ok ?h cache'" unfolding c' by (rule cache_ok_entry [OF cache_ok_more [OF f(1)]])
            moreover have "reassembled ?h (rx, skb) o'" if "r = Some o'" for o'
            proof -
              have "sk_data o' = concat (pieces (fs @ [(rx, skb)]))"
              proof -
                have "map sk_data (fe_skb_list ?e2) = pieces (fs @ [(rx, skb)])" using h2 unfolding entry_holds_def by blast
                then show ?thesis using reassemble_data [of alloc_ok ?e2 o'] r that by metis
              qed
              moreover have "fs \<noteq> []" using fs(2) by (auto simp: entry_holds_def fragment_chain_def)
              moreover have "fragment_chain (fe_seq ?e2) (fe_rx_queue ?e2) (fs @ [(rx, skb)])" using h2 by (simp add: entry_holds_def)
              ultimately show ?thesis using sub unfolding reassembled_def
                by (intro exI [of _ "fs @ [(rx, skb)]"] exI) (auto simp: Suc_le_eq)
            qed
            ultimately show ?thesis using o' by auto
          qed
        qed
      qed
    qed
  qed
qed

section \<open>Runs\<close>

text \<open>The cache of a new interface, and the handler on a history and the cache.\<close>

definition new_fragment_cache :: fragment_cache where
  "new_fragment_cache = \<lparr>fragments = replicate IEEE80211_FRAGMENT_MAX
     \<lparr>fe_skb_list = [], fe_first_frag_time = 0, fe_seq = 0, fe_extra_len = 0, fe_last_frag = 0, fe_rx_queue = 0,
      fe_check_sequential_pn = False, fe_last_pn = replicate 6 0\<rparr>, fragment_next = 0\<rparr>"

definition defrag_step :: "fragment list \<times> fragment_cache \<Rightarrow> u64 \<times> u64 \<times> bool \<times> fragment \<Rightarrow> fragment list \<times> fragment_cache" where
  "defrag_step s f = (case (s, f) of ((hist, cache), (jiffies, HZ, alloc_ok, rx, skb)) \<Rightarrow>
     (hist @ [(rx, skb)],
      case ieee80211_rx_h_defragment jiffies HZ alloc_ok rx cache skb of None \<Rightarrow> cache | Some (res, cache', out) \<Rightarrow> cache'))"

interpretation defrag: machine defrag_step "\<lambda>s. cache_ok (fst s) (snd s)" "\<lambda>f. True"
proof
  fix s and f :: "u64 \<times> u64 \<times> bool \<times> fragment" assume "cache_ok (fst s) (snd s)"
  then show "cache_ok (fst (defrag_step s f)) (snd (defrag_step s f))"
    using defragment_step by (fastforce simp: defrag_step_def cache_ok_more split: prod.split option.split)
qed

lemma run_history: "fst (run defrag_step s frames) = fst s @ map (\<lambda>(jiffies, HZ, alloc_ok, f). f) frames"
  by (induction frames arbitrary: s) (auto simp: defrag_step_def split: prod.split)

lemma new_cache_ok: "cache_ok [] new_fragment_cache"
  by (simp add: cache_ok_def new_fragment_cache_def IEEE80211_FRAGMENT_MAX_def entry_ok_def list_all_iff)

section \<open>Properties\<close>


text \<open>Two fragments of a protected frame.\<close>

definition sample_fragment :: "u8 \<Rightarrow> u8 \<Rightarrow> u8 list \<Rightarrow> sk_buff" where
  "sample_fragment fc_hi n payload =
     \<lparr>sk_head = [], sk_data = [0x08, fc_hi] @ replicate 2 0 @ replicate 18 2 @ [n, 0x30] @ payload, sk_tail = []\<rparr>"

definition sample_defrag_rx :: "u8 \<Rightarrow> u8 \<Rightarrow> defrag_rx" where
  "sample_defrag_rx k pn = \<lparr>dr_seqno_idx = 16, dr_security_idx = 0,
     dr_key = Some (\<lparr>kc_tx_pn = 0, kc_cipher = WLAN_CIPHER_SUITE_CCMP, kc_keyidx = 0, kc_flags = 0, kc_key = replicate 16 k\<rparr>,
       replicate 17 [0, 0, 0, 0, 0, pn])\<rparr>"


text \<open>A frame of two fragments: the second is found in the entry of the first.\<close>

lemma first_fragment_queued:
  assumes "hdr_frame_control (sk_data skb) = Some fc" and "\<not> ieee80211_is_ctl fc" and "ieee80211_has_morefrags fc"
    and "ieee80211_has_protected fc" and "frame_seq_ctrl (sk_data skb) = Some sc" and "sc AND IEEE80211_SCTL_FRAG = 0"
    and "is_multicast_ether_addr (sk_data skb) hdr_addr1 = Some False"
    and "dr_key rx = Some (conf, pns)" and "pn_cipher (kc_cipher conf)" and "rx_key_pn rx pns = Some pn"
    and "length (fragments cache) = IEEE80211_FRAGMENT_MAX" and "fragment_next cache < IEEE80211_FRAGMENT_MAX"
  shows "\<exists>c e i. ieee80211_rx_h_defragment jiffies HZ alloc_ok rx cache skb = Some (RX_QUEUED, c, None) \<and>
    i < IEEE80211_FRAGMENT_MAX \<and> (if fragment_next c = 0 then IEEE80211_FRAGMENT_MAX - 1 else fragment_next c - 1) = i \<and>
    length (fragments c) = IEEE80211_FRAGMENT_MAX \<and> fragments c ! i = e \<and>
    e = \<lparr>fe_skb_list = [skb], fe_first_frag_time = jiffies, fe_seq = drop_bit 4 (sc AND IEEE80211_SCTL_SEQ), fe_extra_len = 0,
          fe_last_frag = 0, fe_rx_queue = dr_seqno_idx rx, fe_check_sequential_pn = True, fe_last_pn = pn\<rparr>"
proof -
  obtain i c1 where a: "ieee80211_reassemble_add jiffies 0 (drop_bit 4 (sc AND IEEE80211_SCTL_SEQ)) (dr_seqno_idx rx) skb cache = (i, c1)"
    by (metis prod.exhaust)
  let ?c2 = "c1\<lparr>fragments := (fragments c1)[i := (fragments c1 ! i)\<lparr>fe_check_sequential_pn := True, fe_last_pn := pn\<rparr>]\<rparr>"
  have "ieee80211_rx_h_defragment jiffies HZ alloc_ok rx cache skb = Some (RX_QUEUED, ?c2, None)"
    using assms(1-10) a by (simp add: ieee80211_rx_h_defragment_def first_fragment_def)
  moreover have i: "i = fragment_next cache" "i < length (fragments cache)" using a assms(11,12)
    by (auto simp: ieee80211_reassemble_add_def Let_def)
  moreover have n: "fragment_next c1 = (if i + 1 \<ge> IEEE80211_FRAGMENT_MAX then 0 else i + 1)" "length (fragments c1) = length (fragments cache)"
    using a by (auto simp: ieee80211_reassemble_add_def Let_def)
  moreover have "(if fragment_next ?c2 = 0 then IEEE80211_FRAGMENT_MAX - 1 else fragment_next ?c2 - 1) = i"
    using n(1) i assms(11) by (auto simp: IEEE80211_FRAGMENT_MAX_def)
  moreover have "fragments ?c2 ! i = \<lparr>fe_skb_list = [skb], fe_first_frag_time = jiffies, fe_seq = drop_bit 4 (sc AND IEEE80211_SCTL_SEQ),
      fe_extra_len = 0, fe_last_frag = 0, fe_rx_queue = dr_seqno_idx rx, fe_check_sequential_pn = True, fe_last_pn = pn\<rparr>"
  proof -
    have "fragments c1 ! i = (fragments cache ! i)\<lparr>fe_skb_list := [skb], fe_first_frag_time := jiffies,
        fe_seq := drop_bit 4 (sc AND IEEE80211_SCTL_SEQ), fe_rx_queue := dr_seqno_idx rx, fe_last_frag := 0,
        fe_check_sequential_pn := False, fe_extra_len := 0\<rparr>"
      using a i(2) by (auto simp: ieee80211_reassemble_add_def Let_def)
    then show ?thesis using i(2) n(2) by (cases "fragments cache ! i") simp
  qed
  ultimately show ?thesis using assms(11) by (intro exI [of _ ?c2] exI [of _ "fragments ?c2 ! i"] exI [of _ i]) simp
qed

lemma find_newest:
  assumes "0 < n" and "(if idx = 0 then IEEE80211_FRAGMENT_MAX - 1 else idx - 1) = i"
    and "entry_matches frag seq queue (fragments c ! i)"
    and "same_frame d (sk_data (hd (fe_skb_list (fragments c ! i)))) = Some True"
    and "\<not> time_after jiffies (fe_first_frag_time (fragments c ! i) + 2 * HZ)"
  shows "reassemble_find_from jiffies HZ frag seq queue d n idx c = Some (Some i, c)"
  using assms by (cases n) (simp_all add: Let_def)

lemma second_fragment_joins:
  assumes "hdr_frame_control (sk_data skb) = Some fc" and "\<not> ieee80211_is_ctl fc" and "\<not> ieee80211_has_morefrags fc"
    and "frame_seq_ctrl (sk_data skb) = Some sc" and "sc AND IEEE80211_SCTL_FRAG = 1"
    and "is_multicast_ether_addr (sk_data skb) hdr_addr1 = Some False"
    and "dr_key rx = Some (conf, pns)" and "pn_cipher (kc_cipher conf)" and "rx_key_pn rx pns = Some (next_pn pn)"
    and "i < IEEE80211_FRAGMENT_MAX" and "(if fragment_next c = 0 then IEEE80211_FRAGMENT_MAX - 1 else fragment_next c - 1) = i"
    and "length (fragments c) = IEEE80211_FRAGMENT_MAX"
    and "fragments c ! i = \<lparr>fe_skb_list = [first], fe_first_frag_time = jiffies, fe_seq = drop_bit 4 (sc AND IEEE80211_SCTL_SEQ),
          fe_extra_len = 0, fe_last_frag = 0, fe_rx_queue = dr_seqno_idx rx, fe_check_sequential_pn = True, fe_last_pn = pn\<rparr>"
    and "same_frame (sk_data skb) (sk_data first) = Some True" and "\<not> time_after jiffies (jiffies + 2 * HZ)"
    and "length (sk_data (skb_pull (ieee80211_hdrlen fc) skb)) < 2 ^ 16"
  shows "\<exists>c' out. ieee80211_rx_h_defragment jiffies HZ True rx c skb = Some (RX_CONTINUE, c', Some out) \<and>
    sk_data out = sk_data first @ sk_data (skb_pull (ieee80211_hdrlen fc) skb)"
proof -
  let ?e = "fragments c ! i" and ?skb = "skb_pull (ieee80211_hdrlen fc) skb"
  have m: "entry_matches 1 (drop_bit 4 (sc AND IEEE80211_SCTL_SEQ)) (dr_seqno_idx rx) ?e"
    unfolding assms(13) by (simp add: entry_matches_def)
  have "ieee80211_reassemble_find jiffies HZ 1 (drop_bit 4 (sc AND IEEE80211_SCTL_SEQ)) (dr_seqno_idx rx) (sk_data skb) c = Some (Some i, c)"
    unfolding ieee80211_reassemble_find_def
    by (rule find_newest [OF _ assms(11) m]) (simp_all add: IEEE80211_FRAGMENT_MAX_def assms(13-15))
  moreover have "sequential_pn rx ?e = Some (Some (?e\<lparr>fe_last_pn := next_pn pn\<rparr>))"
    unfolding assms(13) using assms(7-9) by (simp add: sequential_pn_def)
  moreover obtain out where "reassemble True (?e\<lparr>fe_last_pn := next_pn pn, fe_skb_list := fe_skb_list ?e @ [?skb], fe_last_frag := 1,
      fe_extra_len := fe_extra_len ?e + of_nat (length (sk_data ?skb))\<rparr>) = Some (Some out)"
    "sk_data out = sk_data first @ sk_data ?skb"
  proof -
    let ?e2 = "?e\<lparr>fe_last_pn := next_pn pn, fe_skb_list := fe_skb_list ?e @ [?skb], fe_last_frag := 1,
      fe_extra_len := fe_extra_len ?e + of_nat (length (sk_data ?skb))\<rparr>"
    have x: "unat (fe_extra_len ?e2) = length (sk_data ?skb)"
      unfolding assms(13) using assms(16) by (simp add: unat_of_nat)
    have put: "\<exists>o'. put_fragments s [?skb] = Some o'" if "length (sk_data ?skb) \<le> length (sk_tail s)" for s
      using that by (simp add: skb_put_data_def skb_put_def skb_write_def wr_bytes_def)
    have "fe_skb_list ?e2 = [first, ?skb]" unfolding assms(13) by simp
    then have "\<exists>o'. reassemble True ?e2 = Some (Some o')"
      using put [of first] put [of "first\<lparr>sk_tail := sk_tail first @ replicate (length (sk_data ?skb)) 0\<rparr>"] x
      by (cases "length (sk_tail first) < length (sk_data ?skb)") (auto simp: reassemble_def)
    then obtain o' where "reassemble True ?e2 = Some (Some o')" by blast
    moreover have "sk_data o' = sk_data first @ sk_data ?skb"
      using reassemble_data [OF calculation] unfolding assms(13) by simp
    ultimately show ?thesis by (rule that)
  qed
  ultimately show ?thesis using assms(1-6)
    by (simp add: ieee80211_rx_h_defragment_def)
qed

text \<open>C31: The key of a fragment is not compared with that of the frame's other fragments: the second fragment of
  a protected frame is joined to the first though it was decrypted with another key, as long as
  that key's packet number is the next one.\<close>

theorem fragments_of_two_keys_joined:
  assumes "hdr_frame_control (sk_data skb1) = Some fc1" and "\<not> ieee80211_is_ctl fc1" and "ieee80211_has_morefrags fc1"
    and "ieee80211_has_protected fc1" and "frame_seq_ctrl (sk_data skb1) = Some sc1" and "sc1 AND IEEE80211_SCTL_FRAG = 0"
    and "is_multicast_ether_addr (sk_data skb1) hdr_addr1 = Some False"
    and "dr_key rx1 = Some (conf1, pns1)" and "pn_cipher (kc_cipher conf1)" and "rx_key_pn rx1 pns1 = Some pn"
    and "hdr_frame_control (sk_data skb2) = Some fc2" and "\<not> ieee80211_is_ctl fc2" and "\<not> ieee80211_has_morefrags fc2"
    and "frame_seq_ctrl (sk_data skb2) = Some sc2" and "sc2 AND IEEE80211_SCTL_FRAG = 1"
    and "is_multicast_ether_addr (sk_data skb2) hdr_addr1 = Some False"
    and "dr_key rx2 = Some (conf2, pns2)" and "pn_cipher (kc_cipher conf2)" and "rx_key_pn rx2 pns2 = Some (next_pn pn)"
    and "kc_key conf2 \<noteq> kc_key conf1"
    and "sc2 AND IEEE80211_SCTL_SEQ = sc1 AND IEEE80211_SCTL_SEQ" and "dr_seqno_idx rx2 = dr_seqno_idx rx1"
    and "same_frame (sk_data skb2) (sk_data skb1) = Some True" and "\<not> time_after jiffies (jiffies + 2 * HZ)"
    and "length (sk_data (skb_pull (ieee80211_hdrlen fc2) skb2)) < 2 ^ 16" and "cache_ok hist cache"
  shows "\<exists>c c' out. ieee80211_rx_h_defragment jiffies HZ True rx1 cache skb1 = Some (RX_QUEUED, c, None) \<and>
    ieee80211_rx_h_defragment jiffies HZ True rx2 c skb2 = Some (RX_CONTINUE, c', Some out) \<and>
    sk_data out = sk_data skb1 @ sk_data (skb_pull (ieee80211_hdrlen fc2) skb2)"
proof -
  have "length (fragments cache) = IEEE80211_FRAGMENT_MAX" "fragment_next cache < IEEE80211_FRAGMENT_MAX"
    using assms(26) by (simp_all add: cache_ok_def)
  from first_fragment_queued [OF assms(1-10) this, of jiffies HZ True] obtain c i where c:
    "ieee80211_rx_h_defragment jiffies HZ True rx1 cache skb1 = Some (RX_QUEUED, c, None)"
    "i < IEEE80211_FRAGMENT_MAX" "(if fragment_next c = 0 then IEEE80211_FRAGMENT_MAX - 1 else fragment_next c - 1) = i"
    "length (fragments c) = IEEE80211_FRAGMENT_MAX"
    "fragments c ! i = \<lparr>fe_skb_list = [skb1], fe_first_frag_time = jiffies, fe_seq = drop_bit 4 (sc2 AND IEEE80211_SCTL_SEQ),
      fe_extra_len = 0, fe_last_frag = 0, fe_rx_queue = dr_seqno_idx rx2, fe_check_sequential_pn = True, fe_last_pn = pn\<rparr>"
    unfolding assms(21,22) by blast
  from second_fragment_joins [OF assms(11-19) c(2-5) assms(23-25)] c(1) show ?thesis by blast
qed

theorem fragments_of_two_keys_joined_witness:
  "\<exists>c c' out. ieee80211_rx_h_defragment 0 250 True (sample_defrag_rx 1 255) new_fragment_cache (sample_fragment 0x45 0 [1, 2])
       = Some (RX_QUEUED, c, None) \<and>
     ieee80211_rx_h_defragment 0 250 True
       \<lparr>dr_seqno_idx = 16, dr_security_idx = 0,
        dr_key = Some (\<lparr>kc_tx_pn = 0, kc_cipher = WLAN_CIPHER_SUITE_CCMP, kc_keyidx = 0, kc_flags = 0, kc_key = replicate 16 2\<rparr>,
          replicate 17 [0, 0, 0, 0, 1, 0])\<rparr> c (sample_fragment 0x41 1 [3]) = Some (RX_CONTINUE, c', Some out) \<and>
     sk_data out = [0x08, 0x45] @ replicate 2 0 @ replicate 18 2 @ [0, 0x30] @ [1, 2, 3]"
proof -
  let ?k = "\<lambda>b. \<lparr>kc_tx_pn = 0, kc_cipher = WLAN_CIPHER_SUITE_CCMP, kc_keyidx = 0, kc_flags = 0, kc_key = replicate 16 b\<rparr>"
  let ?rx2 = "\<lparr>dr_seqno_idx = 16, dr_security_idx = 0, dr_key = Some (?k 2, replicate 17 [0, 0, 0, 0, 1, 0])\<rparr>"
  have a: "hdr_frame_control (sk_data (sample_fragment 0x45 0 [1, 2])) = Some 0x4508" "\<not> ieee80211_is_ctl 0x4508"
    "ieee80211_has_morefrags 0x4508" "ieee80211_has_protected 0x4508"
    "frame_seq_ctrl (sk_data (sample_fragment 0x45 0 [1, 2])) = Some 0x3000" "0x3000 AND IEEE80211_SCTL_FRAG = 0"
    "is_multicast_ether_addr (sk_data (sample_fragment 0x45 0 [1, 2])) hdr_addr1 = Some False" by code_simp+
  have k: "dr_key (sample_defrag_rx 1 255) = Some (?k 1, replicate 17 [0, 0, 0, 0, 0, 255])" "pn_cipher (kc_cipher (?k b))"
    "rx_key_pn (sample_defrag_rx 1 255) (replicate 17 [0, 0, 0, 0, 0, 255]) = Some [0, 0, 0, 0, 0, 255]"
    "dr_key ?rx2 = Some (?k 2, replicate 17 [0, 0, 0, 0, 1, 0])" "kc_key (?k 2) \<noteq> kc_key (?k 1)" for b
    by (simp_all add: sample_defrag_rx_def pn_cipher_def rx_key_pn_def)
  have k2: "rx_key_pn ?rx2 (replicate 17 [0, 0, 0, 0, 1, 0]) = Some (next_pn [0, 0, 0, 0, 0, 255])" by code_simp
  have b: "hdr_frame_control (sk_data (sample_fragment 0x41 1 [3])) = Some 0x4108" "\<not> ieee80211_is_ctl 0x4108"
    "\<not> ieee80211_has_morefrags 0x4108"
    "frame_seq_ctrl (sk_data (sample_fragment 0x41 1 [3])) = Some 0x3001" "0x3001 AND IEEE80211_SCTL_FRAG = 1"
    "is_multicast_ether_addr (sk_data (sample_fragment 0x41 1 [3])) hdr_addr1 = Some False" by code_simp+
  have c: "0x3001 AND IEEE80211_SCTL_SEQ = 0x3000 AND IEEE80211_SCTL_SEQ" "dr_seqno_idx ?rx2 = dr_seqno_idx (sample_defrag_rx 1 255)"
    "same_frame (sk_data (sample_fragment 0x41 1 [3])) (sk_data (sample_fragment 0x45 0 [1, 2])) = Some True"
    "\<not> time_after 0 (0 + 2 * 250)"
    by code_simp+
  have "length (sk_data (skb_pull (ieee80211_hdrlen 0x4108) (sample_fragment 0x41 1 [3]))) = 1" by code_simp
  then have l: "length (sk_data (skb_pull (ieee80211_hdrlen 0x4108) (sample_fragment 0x41 1 [3]))) < 2 ^ 16" by simp
  have out: "sk_data (sample_fragment 0x45 0 [1, 2]) @ sk_data (skb_pull (ieee80211_hdrlen 0x4108) (sample_fragment 0x41 1 [3]))
    = [0x08, 0x45] @ replicate 2 0 @ replicate 18 2 @ [0, 0x30] @ [1, 2, 3]" by code_simp
  show ?thesis
    using fragments_of_two_keys_joined [OF a k(1,2,3) b k(4,2) k2 k(5) c l new_cache_ok] unfolding out by blast
qed

text \<open>The length of the pending fragments is kept in 16 bits: when they are longer than that and the rest
  fits the tailroom of the first, no tailroom is allocated and the copy runs over the end of the
  buffer (where the kernel stops).\<close>

lemma fragment_length_wraps:
  assumes "fe_skb_list e = skb # fs" and "fe_extra_len e = of_nat (length (concat (map sk_data fs)))"
    and "length (concat (map sk_data fs)) mod 2 ^ 16 \<le> length (sk_tail skb)"
    and "length (sk_tail skb) < length (concat (map sk_data fs))"
  shows "reassemble alloc_ok e = None"
proof -
  have put: "put_fragments s gs = None" if "length (sk_tail s) < length (concat (map sk_data gs))" for s gs
    using that
  proof (induction s gs rule: put_fragments.induct)
    case (2 s g gs)
    show ?case
    proof (cases "length (sk_data g) \<le> length (sk_tail s)")
      case True
      then have "skb_put_data (sk_data g) s = Some (s\<lparr>sk_data := sk_data s @ sk_data g, sk_tail := drop (length (sk_data g)) (sk_tail s)\<rparr>)"
        by (simp add: skb_put_data_def skb_put_def skb_write_def wr_bytes_def)
      then show ?thesis using "2.IH" "2.prems" True by simp
    qed (simp add: skb_put_data_def skb_put_def)
  qed simp
  have "unat (fe_extra_len e) = length (concat (map sk_data fs)) mod 2 ^ 16"
    unfolding assms(2) unat_of_nat by simp
  then show ?thesis using assms(1,3,4) put by (simp add: reassemble_def)
qed

lemma fragment_length_wraps_witness:
  "reassemble True \<lparr>fe_skb_list = \<lparr>sk_head = [], sk_data = [1], sk_tail = replicate 500 0\<rparr> #
       replicate 15 \<lparr>sk_head = [], sk_data = replicate 4400 7, sk_tail = []\<rparr>,
     fe_first_frag_time = 0, fe_seq = 3, fe_extra_len = of_nat (15 * 4400), fe_last_frag = 15, fe_rx_queue = 0,
     fe_check_sequential_pn = False, fe_last_pn = []\<rparr> = None"
proof -
  let ?fs = "replicate 15 \<lparr>sk_head = [], sk_data = replicate 4400 (7 :: u8), sk_tail = []\<rparr>"
  have "length (concat (map sk_data ?fs)) = 15 * 4400" by (simp add: length_concat sum_list_replicate comp_def)
  then show ?thesis
    by (intro fragment_length_wraps [of _ "\<lparr>sk_head = [], sk_data = [1], sk_tail = replicate 500 0\<rparr>" ?fs]) simp_all
qed

end
