(* ===== verification/RxDecrypt.thy ===== *)
theory RxDecrypt
  imports Tkip Bip HwCipher Defrag
begin

text \<open>
  \<open>ieee80211_rx_h_decrypt\<close> of net/mac80211/rx.c: which key a received frame is decrypted
  with, and the dispatch to the handlers of the ciphers. Keys live in a store and are referred to
  by number, since a station and its interface point to the same objects.
\<close>

definition WLAN_CIPHER_SUITE_WEP40 :: u32 where "WLAN_CIPHER_SUITE_WEP40 = 0x000FAC01"
definition WLAN_CIPHER_SUITE_WEP104 :: u32 where "WLAN_CIPHER_SUITE_WEP104 = 0x000FAC05"
definition WLAN_CIPHER_SUITE_AES_CMAC :: u32 where "WLAN_CIPHER_SUITE_AES_CMAC = 0x000FAC06"
definition WLAN_CIPHER_SUITE_BIP_GMAC_128 :: u32 where "WLAN_CIPHER_SUITE_BIP_GMAC_128 = 0x000FAC0B"
definition WLAN_CIPHER_SUITE_BIP_GMAC_256 :: u32 where "WLAN_CIPHER_SUITE_BIP_GMAC_256 = 0x000FAC0C"
definition WLAN_CIPHER_SUITE_BIP_CMAC_256 :: u32 where "WLAN_CIPHER_SUITE_BIP_CMAC_256 = 0x000FAC0D"

definition IEEE80211_CCMP_MIC_LEN :: nat where "IEEE80211_CCMP_MIC_LEN = 8"
definition IEEE80211_CCMP_256_MIC_LEN :: nat where "IEEE80211_CCMP_256_MIC_LEN = 16"
definition NUM_DEFAULT_KEYS :: nat where "NUM_DEFAULT_KEYS = 4"
definition NUM_DEFAULT_MGMT_KEYS :: nat where "NUM_DEFAULT_MGMT_KEYS = 2"

lemmas suite_defs = WLAN_CIPHER_SUITE_WEP40_def WLAN_CIPHER_SUITE_WEP104_def WLAN_CIPHER_SUITE_TKIP_def
  aead_suites WLAN_CIPHER_SUITE_AES_CMAC_def WLAN_CIPHER_SUITE_BIP_CMAC_256_def
  WLAN_CIPHER_SUITE_BIP_GMAC_128_def WLAN_CIPHER_SUITE_BIP_GMAC_256_def

section \<open>Keys, stations and the interface\<close>

text \<open>The union \<open>u\<close> of \<open>struct ieee80211_key\<close>; WEP keys use none of its members.\<close>

datatype key_union =
    U_none
  | U_tkip "tkip_ctx_rx list" u32
  | U_ccmp aead_rx_key
  | U_gcmp aead_rx_key
  | U_aes_cmac crypto_shash bip_rx_key
  | U_aes_gmac crypto_aead bip_rx_key
  | U_gen "u8 list list"

record ieee80211_key =
  key_conf :: ieee80211_key_conf
  key_flags :: u32
  key_u :: key_union

type_synonym key_store = "nat \<rightharpoonup> ieee80211_key"

record rx_sta =
  rs_addr :: "u8 list"
  rs_ptk :: "nat option list"
  rs_ptk_idx :: nat
  rs_gtk :: "nat option list"
  rs_mfp :: bool
  rs_cipher_scheme :: "ieee80211_cipher_scheme option"

record rx_sdata =
  sd_keys :: "nat option list"
  sd_default_mgmt_key :: "nat option"
  sd_ap :: bool

record rx_data =
  rxd_sta :: "rx_sta option"
  rxd_sdata :: rx_sdata
  rxd_flag :: u32
  rxd_security_idx :: nat

text \<open>
  The kernel's libraries and allocator: RC4 and CRC32, the allocations, the bytes left on the
  stack, and whether the driver takes TKIP keys.
\<close>

record decrypt_env =
  de_wep :: wep_lib
  de_alloc_ok :: bool
  de_stack :: "u8 list"
  de_mic_alloc_ok :: bool
  de_junk :: "u8 list"
  de_update_tkip_key :: bool

definition key_at :: "nat option list \<Rightarrow> nat \<Rightarrow> nat option option" where
  "key_at ks i = (if i < length ks then Some (ks ! i) else None)"

section \<open>Key indices in the frame\<close>

text \<open>The index a BIP frame names, -1 for other frames.\<close>

definition ieee80211_get_mmie_keyidx :: "u8 list \<Rightarrow> int option" where
  "ieee80211_get_mmie_keyidx d = do {
     multicast \<leftarrow> (if length d < 24 + 18 then Some False else is_multicast_ether_addr d hdr_addr1);
     if length d < 24 + 18 \<or> \<not> multicast then Some (-1)
     else do {
       robust \<leftarrow> robust_mgmt_frame d;
       if \<not> robust then Some (-1)
       else do {
         mmie \<leftarrow> rd_bytes d (length d - 18) 4;
         if mmie ! 0 = WLAN_EID_MMIE \<and> mmie ! 1 = 16 then Some (uint (le16 (mmie ! 2) (mmie ! 3)))
         else if length d < 24 + 26 then Some (-1)
         else do {
           mmie16 \<leftarrow> rd_bytes d (length d - 26) 4;
           Some (if mmie16 ! 0 = WLAN_EID_MMIE \<and> mmie16 ! 1 = 24 then uint (le16 (mmie16 ! 2) (mmie16 ! 3)) else -1) } } } }"

definition ieee80211_get_keyid :: "u8 list \<Rightarrow> ieee80211_cipher_scheme option \<Rightarrow> (errno + nat) option" where
  "ieee80211_get_keyid d cs = do {
     fc \<leftarrow> hdr_frame_control d;
     let hdrlen = ieee80211_hdrlen fc;
     let (minlen, off, shift) = (case cs of
           Some c \<Rightarrow> (hdrlen + unat (cs_hdr_len c), (hdrlen + unat (cs_key_idx_off c)) mod 256, unat (cs_key_idx_shift c))
         | None \<Rightarrow> (hdrlen + IEEE80211_WEP_IV_LEN, (hdrlen + 3) mod 256, 6));
     if length d < minlen then Some (Inl EINVAL)
     else do {
       b \<leftarrow> rd_u8 d off;
       let b = (case cs of Some c \<Rightarrow> b AND cs_key_idx_mask c | None \<Rightarrow> b);
       let keyid = unat (drop_bit shift b);
       Some (if keyid \<ge> NUM_DEFAULT_KEYS then Inl EINVAL else Inr keyid) } }"

definition ieee80211_is_group_privacy_action :: "u8 list \<Rightarrow> bool option" where
  "ieee80211_is_group_privacy_action d = do {
     fc \<leftarrow> hdr_frame_control d;
     if length d < IEEE80211_MIN_ACTION_SIZE \<or> \<not> ieee80211_is_action fc then Some False
     else do {
       multicast \<leftarrow> is_multicast_ether_addr d hdr_addr1;
       category \<leftarrow> rd_u8 d 24;
       Some (multicast \<and> category \<in> {13, 14}) } }"

section \<open>The choice of the key\<close>

text \<open>The pairwise keys of the station: the current one, and the one the frame names.\<close>

definition pairwise_keys :: "rx_data \<Rightarrow> u16 \<Rightarrow> u8 list \<Rightarrow> (errno + nat option \<times> nat option) option" where
  "pairwise_keys rx fc d =
     (case rxd_sta rx of
        None \<Rightarrow> Some (Inr (None, None))
      | Some sta \<Rightarrow> do {
          sta_ptk \<leftarrow> key_at (rs_ptk sta) (rs_ptk_idx sta);
          if \<not> ieee80211_has_protected fc then Some (Inr (sta_ptk, None))
          else do {
            keyid \<leftarrow> ieee80211_get_keyid d (rs_cipher_scheme sta);
            case keyid of
              Inl e \<Rightarrow> Some (Inl e)
            | Inr k \<Rightarrow> do { ptk_idx \<leftarrow> key_at (rs_ptk sta) k; Some (Inr (sta_ptk, ptk_idx)) } } })"

text \<open>The first key of the first four, the station's or the interface's.\<close>

definition first_default_key :: "nat option list \<Rightarrow> nat option" where
  "first_default_key ks = (case filter (\<lambda>k. k \<noteq> None) (take NUM_DEFAULT_KEYS ks) of [] \<Rightarrow> None | k # _ \<Rightarrow> k)"

definition unprotected_key :: "rx_data \<Rightarrow> u16 \<Rightarrow> bool \<Rightarrow> nat option" where
  "unprotected_key rx fc multicast =
     (if ieee80211_is_mgmt fc \<and> multicast \<and> sd_default_mgmt_key (rxd_sdata rx) \<noteq> None
      then sd_default_mgmt_key (rxd_sdata rx)
      else case (case rxd_sta rx of None \<Rightarrow> None | Some sta \<Rightarrow> first_default_key (rs_gtk sta)) of
             Some k \<Rightarrow> Some k
           | None \<Rightarrow> first_default_key (sd_keys (rxd_sdata rx)))"

definition wep_cipher :: "key_store \<Rightarrow> nat \<Rightarrow> bool option" where
  "wep_cipher store k = do {
     key \<leftarrow> store k;
     Some (kc_cipher (key_conf key) \<in> {WLAN_CIPHER_SUITE_WEP40, WLAN_CIPHER_SUITE_WEP104}) }"

text \<open>
  The key of a protected frame without pairwise key: for a multicast frame the group key of the
  sender, otherwise the interface's key with that index, which for unicast must be a WEP key.
\<close>

definition group_key :: "key_store \<Rightarrow> rx_data \<Rightarrow> u8 list \<Rightarrow> bool \<Rightarrow> nat \<Rightarrow> nat option option" where
  "group_key store rx d multicast i = do {
     gtk \<leftarrow> (case rxd_sta rx of Some sta \<Rightarrow> if multicast then key_at (rs_gtk sta) i else Some None | None \<Rightarrow> Some None);
     if gtk \<noteq> None then Some gtk
     else do {
       key \<leftarrow> key_at (sd_keys (rxd_sdata rx)) i;
       case key of
         None \<Rightarrow> Some None
       | Some k \<Rightarrow> do { wep \<leftarrow> wep_cipher store k; Some (if \<not> wep \<and> \<not> multicast then None else Some k) } } }"

text \<open>
  \<open>Inl\<close>: the handler is done, with this result and \<open>rx->key\<close>. \<open>Inr\<close>: the key to
  decrypt with, if there is one.
\<close>

definition select_rx_key ::
  "key_store \<Rightarrow> rx_data \<Rightarrow> u8 list \<Rightarrow> ((ieee80211_rx_result \<times> nat option) + nat option) option" where
  "select_rx_key store rx d = do {
     fc \<leftarrow> hdr_frame_control d;
     let protected = ieee80211_has_protected fc;
     let hw_stripped = (flag_set (rxd_flag rx) RX_FLAG_DECRYPTED \<and> flag_set (rxd_flag rx) RX_FLAG_IV_STRIPPED);
     ptks \<leftarrow> pairwise_keys rx fc d;
     case ptks of
       Inl e \<Rightarrow> Some (Inl (RX_DROP_UNUSABLE, None))
     | Inr (sta_ptk, ptk_idx) \<Rightarrow> do {
         mmie_keyidx \<leftarrow> (if protected then Some (-1) else ieee80211_get_mmie_keyidx d);
         multicast \<leftarrow> is_multicast_ether_addr d hdr_addr1;
         if \<not> multicast \<and> sta_ptk \<noteq> None then
           (let key = (if ptk_idx \<noteq> None then ptk_idx else sta_ptk) in
            if hw_stripped \<or> \<not> protected then Some (Inl (RX_CONTINUE, key)) else Some (Inr key))
         else if mmie_keyidx \<ge> 0 then
           (if hw_stripped then Some (Inl (RX_CONTINUE, None))
            else if mmie_keyidx < int NUM_DEFAULT_KEYS \<or> mmie_keyidx \<ge> int (NUM_DEFAULT_KEYS + NUM_DEFAULT_MGMT_KEYS)
            then Some (Inl (RX_DROP_MONITOR, None))
            else do {
              group_action \<leftarrow> ieee80211_is_group_privacy_action d;
              let i = nat mmie_keyidx;
              gtk \<leftarrow> (case rxd_sta rx of None \<Rightarrow> Some None | Some sta \<Rightarrow> key_at (rs_gtk sta) i);
              if group_action \<and> (case rxd_sta rx of None \<Rightarrow> False | Some sta \<Rightarrow> rs_mfp sta)
              then Some (Inl (RX_DROP_MONITOR, None))
              else if gtk \<noteq> None then Some (Inr gtk)
              else do { key \<leftarrow> key_at (sd_keys (rxd_sdata rx)) i; Some (Inr key) } })
         else if \<not> protected then Some (Inl (RX_CONTINUE, unprotected_key rx fc multicast))
         else if hw_stripped then Some (Inl (RX_CONTINUE, None))
         else do {
           keyid \<leftarrow> ieee80211_get_keyid d (case rxd_sta rx of None \<Rightarrow> None | Some sta \<Rightarrow> rs_cipher_scheme sta);
           case keyid of
             Inl e \<Rightarrow> Some (Inl (RX_DROP_UNUSABLE, None))
           | Inr i \<Rightarrow> do { key \<leftarrow> group_key store rx d multicast i; Some (Inr key) } } } }"

section \<open>The dispatch\<close>

text \<open>
  The handler of the key's cipher. None for a key whose union does not hold what the cipher's
  handler reads. The result has the key as changed and the counter a TKIP frame carried.
\<close>

definition tkip_rx_of :: "decrypt_env \<Rightarrow> rx_data \<Rightarrow> ieee80211_key \<Rightarrow> tkip_rx" where
  "tkip_rx_of env rx key =
     \<lparr>trx_sta = map_option rs_addr (rxd_sta rx), trx_flag = rxd_flag rx, trx_security_idx = rxd_security_idx rx,
      trx_ap = sd_ap (rxd_sdata rx),
      trx_update_key = (de_update_tkip_key env \<and> flag_set (key_flags key) KEY_FLAG_UPLOADED_TO_HARDWARE)\<rparr>"

definition aead_rx_of :: "rx_data \<Rightarrow> rx_context" where
  "aead_rx_of rx = \<lparr>rxc_sta = (rxd_sta rx \<noteq> None), rxc_flag = rxd_flag rx, rxc_security_idx = rxd_security_idx rx\<rparr>"

type_synonym decrypted = "ieee80211_rx_result \<times> key_union \<times> sk_buff \<times> (u32 \<times> u16) option"

definition decrypt_with :: "decrypt_env \<Rightarrow> rx_data \<Rightarrow> ieee80211_key \<Rightarrow> sk_buff \<Rightarrow> decrypted option" where
  "decrypt_with env rx key skb =
     (let cipher = kc_cipher (key_conf key); flag = rxd_flag rx in
      if cipher = WLAN_CIPHER_SUITE_WEP40 \<or> cipher = WLAN_CIPHER_SUITE_WEP104 then
        do { (res, skb) \<leftarrow> ieee80211_crypto_wep_decrypt (de_wep env) flag (Some (key_conf key)) skb;
             Some (res, key_u key, skb, None) }
      else if cipher = WLAN_CIPHER_SUITE_TKIP then
        (case key_u key of
           U_tkip rxs failures \<Rightarrow> do {
             (res, k, skb, iv, effects) \<leftarrow> ieee80211_crypto_tkip_decrypt (de_wep env) (tkip_rx_of env rx key)
               \<lparr>tk_conf = key_conf key, tk_rx = rxs, tk_mic_failures = failures\<rparr> skb;
             Some (res, U_tkip (tk_rx k) (tk_mic_failures k), skb, iv) }
         | _ \<Rightarrow> None)
      else if cipher = WLAN_CIPHER_SUITE_CCMP \<or> cipher = WLAN_CIPHER_SUITE_CCMP_256 then
        (case key_u key of
           U_ccmp k \<Rightarrow> do {
             (res, k, skb) \<leftarrow> ieee80211_crypto_ccmp_decrypt (de_alloc_ok env) (de_stack env)
               (if cipher = WLAN_CIPHER_SUITE_CCMP then IEEE80211_CCMP_MIC_LEN else IEEE80211_CCMP_256_MIC_LEN)
               (aead_rx_of rx) k skb;
             Some (res, U_ccmp k, skb, None) }
         | _ \<Rightarrow> None)
      else if cipher = WLAN_CIPHER_SUITE_AES_CMAC then
        (case key_u key of
           U_aes_cmac tfm k \<Rightarrow> do {
             (res, k, skb) \<leftarrow> ieee80211_crypto_aes_cmac_decrypt tfm flag k skb;
             Some (res, U_aes_cmac tfm k, skb, None) }
         | _ \<Rightarrow> None)
      else if cipher = WLAN_CIPHER_SUITE_BIP_CMAC_256 then
        (case key_u key of
           U_aes_cmac tfm k \<Rightarrow> do {
             (res, k, skb) \<leftarrow> ieee80211_crypto_aes_cmac_256_decrypt tfm flag k skb;
             Some (res, U_aes_cmac tfm k, skb, None) }
         | _ \<Rightarrow> None)
      else if cipher = WLAN_CIPHER_SUITE_BIP_GMAC_128 \<or> cipher = WLAN_CIPHER_SUITE_BIP_GMAC_256 then
        (case key_u key of
           U_aes_gmac tfm k \<Rightarrow> do {
             (res, k, skb) \<leftarrow> ieee80211_crypto_aes_gmac_decrypt (de_alloc_ok env) tfm (de_mic_alloc_ok env) (de_junk env) flag k skb;
             Some (res, U_aes_gmac tfm k, skb, None) }
         | _ \<Rightarrow> None)
      else if cipher = WLAN_CIPHER_SUITE_GCMP \<or> cipher = WLAN_CIPHER_SUITE_GCMP_256 then
        (case key_u key of
           U_gcmp k \<Rightarrow> do {
             (res, k, skb) \<leftarrow> ieee80211_crypto_gcmp_decrypt (de_alloc_ok env) (de_stack env) (aead_rx_of rx) k skb;
             Some (res, U_gcmp k, skb, None) }
         | _ \<Rightarrow> None)
      else
        (case key_u key of
           U_gen pns \<Rightarrow> do {
             (res, pns, skb) \<leftarrow> ieee80211_crypto_hw_decrypt (case rxd_sta rx of None \<Rightarrow> None | Some sta \<Rightarrow> rs_cipher_scheme sta)
               flag pns skb;
             Some (res, U_gen pns, skb, None) }
         | _ \<Rightarrow> None))"

text \<open>The whole handler: the result, \<open>rx->key\<close>, the store, the frame, the flags, the TKIP counter.\<close>

definition ieee80211_rx_h_decrypt ::
  "decrypt_env \<Rightarrow> rx_data \<Rightarrow> key_store \<Rightarrow> sk_buff \<Rightarrow>
     (ieee80211_rx_result \<times> nat option \<times> key_store \<times> sk_buff \<times> u32 \<times> (u32 \<times> u16) option) option" where
  "ieee80211_rx_h_decrypt env rx store skb = do {
     sel \<leftarrow> select_rx_key store rx (sk_data skb);
     case sel of
       Inl (res, k) \<Rightarrow> Some (res, k, store, skb, rxd_flag rx, None)
     | Inr None \<Rightarrow> Some (RX_DROP_MONITOR, None, store, skb, rxd_flag rx, None)
     | Inr (Some k) \<Rightarrow> do {
         key \<leftarrow> store k;
         if flag_set (key_flags key) KEY_FLAG_TAINTED then Some (RX_DROP_MONITOR, Some k, store, skb, rxd_flag rx, None)
         else do {
           (res, u, skb, iv) \<leftarrow> decrypt_with env rx key skb;
           Some (res, Some k, store(k \<mapsto> key\<lparr>key_u := u\<rparr>), skb, rxd_flag rx OR RX_FLAG_DECRYPTED, iv) } } }"

section \<open>Well-typed keys and their counters\<close>

text \<open>The union holds what the cipher's handler reads, with the array sizes of the code.\<close>

definition key_typed :: "ieee80211_key \<Rightarrow> bool" where
  "key_typed key \<longleftrightarrow>
     (let cipher = kc_cipher (key_conf key) in
      if cipher \<in> {WLAN_CIPHER_SUITE_WEP40, WLAN_CIPHER_SUITE_WEP104} then True
      else if cipher = WLAN_CIPHER_SUITE_TKIP then (case key_u key of U_tkip rxs f \<Rightarrow> length rxs = 16 | _ \<Rightarrow> False)
      else if cipher \<in> {WLAN_CIPHER_SUITE_CCMP, WLAN_CIPHER_SUITE_CCMP_256}
      then (case key_u key of U_ccmp k \<Rightarrow> rx_key_wf k | _ \<Rightarrow> False)
      else if cipher \<in> {WLAN_CIPHER_SUITE_AES_CMAC, WLAN_CIPHER_SUITE_BIP_CMAC_256}
      then (case key_u key of U_aes_cmac tfm k \<Rightarrow> length (bip_rx_pn k) = 6 | _ \<Rightarrow> False)
      else if cipher \<in> {WLAN_CIPHER_SUITE_BIP_GMAC_128, WLAN_CIPHER_SUITE_BIP_GMAC_256}
      then (case key_u key of U_aes_gmac tfm k \<Rightarrow> length (bip_rx_pn k) = 6 | _ \<Rightarrow> False)
      else if cipher \<in> {WLAN_CIPHER_SUITE_GCMP, WLAN_CIPHER_SUITE_GCMP_256}
      then (case key_u key of U_gcmp k \<Rightarrow> rx_key_wf k | _ \<Rightarrow> False)
      else (case key_u key of U_gen pns \<Rightarrow> length pns = 17 \<and> list_all (\<lambda>pn. length pn = 16) pns | _ \<Rightarrow> False))"

text \<open>The counter a union has recorded for an index (BIP keys have one counter).\<close>

fun union_level :: "nat \<Rightarrow> key_union \<Rightarrow> nat" where
  "union_level idx U_none = 0"
| "union_level idx (U_tkip rxs f) = tkip_ctx_level (rxs ! idx)"
| "union_level idx (U_ccmp k) = rx_level idx k"
| "union_level idx (U_gcmp k) = rx_level idx k"
| "union_level idx (U_aes_cmac tfm k) = be_value (bip_rx_pn k)"
| "union_level idx (U_aes_gmac tfm k) = be_value (bip_rx_pn k)"
| "union_level idx (U_gen pns) = le_value (pns ! idx)"

lemma aead_decrypt_level:
  assumes "aead_crypto_decrypt special_blocks aes_dec alloc_ok stk mic_len rx key skb = Some (res, key', skb')" and "rx_key_wf key"
  shows "rx_key_wf key' \<and> rx_level q key \<le> rx_level q key'"
  using aead_decrypt_key [OF assms(1)]
proof (elim disjE exE conjE)
  fix h assume u: "rxc_security_idx rx < length (rx_pn key)" "rx_pn key' = (rx_pn key)[rxc_security_idx rx := ccmp_hdr2pn h]"
    "0 \<le> memcmp (ccmp_hdr2pn h) (rx_pn key ! rxc_security_idx rx)"
  have "length (rx_pn key ! rxc_security_idx rx) = 6" using assms(2) u(1) by (simp add: rx_key_wf_def list_all_length)
  then have "be_value (rx_pn key ! rxc_security_idx rx) \<le> be_value (ccmp_hdr2pn h)"
    using memcmp_less [of "ccmp_hdr2pn h" "rx_pn key ! rxc_security_idx rx"] u(3) by simp
  then show ?thesis using assms(2) u(1,2) by (auto simp: rx_key_wf_def rx_level_def list_all_length nth_list_update)
qed (use assms(2) in \<open>auto simp: rx_key_wf_def rx_level_def\<close>)

lemma bip_decrypt_level:
  assumes "bip_decrypt code mic_len mic_alloc junk flag key skb = Some (res, key', skb')" and "length (bip_rx_pn key) = 6"
  shows "length (bip_rx_pn key') = 6 \<and> be_value (bip_rx_pn key) \<le> be_value (bip_rx_pn key')"
  using bip_decrypt_pn [OF assms(1)]
proof (elim disjE exE conjE)
  fix head assume u: "bip_rx_pn key' = bip_ipn_swap head" "0 < memcmp (bip_ipn_swap head) (bip_rx_pn key)"
  then show ?thesis using memcmp_le [of "bip_ipn_swap head" "bip_rx_pn key"] assms(2) by simp
qed (use assms(2) in simp)

lemma tkip_decrypt_level:
  assumes "ieee80211_crypto_tkip_decrypt lib rx key skb = Some (res, key', skb', iv, effects)"
  shows "length (tk_rx key') = length (tk_rx key) \<and> tkip_ctx_level (tk_rx key ! idx) \<le> tkip_ctx_level (tk_rx key' ! idx)"
proof -
  obtain fc where "hdr_frame_control (sk_data skb) = Some fc"
    using assms by (auto simp: ieee80211_crypto_tkip_decrypt_def bind_eq_Some_conv)
  from decrypt_frame_ctx [OF assms this] consider "key' = key"
    | c' where "trx_security_idx rx < length (tk_rx key)" "key' = key\<lparr>tk_rx := (tk_rx key)[trx_security_idx rx := c']\<rparr>"
        "next_ctx (tk_rx key ! trx_security_idx rx) res iv c'" by blast
  then show ?thesis
  proof cases
    case 2
    then have "tkip_ctx_level (tk_rx key ! trx_security_idx rx) \<le> tkip_ctx_level c'" by (auto simp: next_ctx_def tkip_ctx_level_def)
    then show ?thesis using 2 by (auto simp: nth_list_update)
  qed simp
qed

lemma hw_decrypt_level:
  assumes "ieee80211_crypto_hw_decrypt scheme flag pns skb = Some (res, pns', skb')" and "list_all (\<lambda>pn. length pn = 16) pns"
  shows "length pns' = length pns \<and> list_all (\<lambda>pn. length pn = 16) pns' \<and> le_value (pns ! idx) \<le> le_value (pns' ! idx)"
proof (cases "pns' = pns")
  case False
  then have "ieee80211_crypto_cs_decrypt scheme flag pns skb = Some (res, pns', skb')"
    using assms(1) by (auto simp: ieee80211_crypto_hw_decrypt_def split: if_splits)
  from cs_decrypt_pn [OF this] False obtain q pn where "q < length pns" "pns' = pns[q := pn]" "length pn = length (pns ! q)"
    "le_value (pns ! q) \<le> le_value pn" by blast
  then show ?thesis using assms(2) by (auto simp: list_all_length nth_list_update)
qed (use assms(2) in simp)

lemma suites_distinct:
  "WLAN_CIPHER_SUITE_WEP40 \<noteq> WLAN_CIPHER_SUITE_TKIP" "WLAN_CIPHER_SUITE_WEP104 \<noteq> WLAN_CIPHER_SUITE_TKIP"
  by (simp_all add: suite_defs)

lemma decrypt_with_level:
  assumes "decrypt_with env rx key skb = Some (res, u, skb', iv)" and "key_typed key"
  shows "key_typed (key\<lparr>key_u := u\<rparr>) \<and> union_level idx (key_u key) \<le> union_level idx u"
proof -
  let ?c = "kc_cipher (key_conf key)"
  consider (wep) "?c \<in> {WLAN_CIPHER_SUITE_WEP40, WLAN_CIPHER_SUITE_WEP104}"
    | (tkip) "?c = WLAN_CIPHER_SUITE_TKIP"
    | (ccmp) "?c \<in> {WLAN_CIPHER_SUITE_CCMP, WLAN_CIPHER_SUITE_CCMP_256}"
    | (cmac) "?c = WLAN_CIPHER_SUITE_AES_CMAC" | (cmac256) "?c = WLAN_CIPHER_SUITE_BIP_CMAC_256"
    | (gmac) "?c \<in> {WLAN_CIPHER_SUITE_BIP_GMAC_128, WLAN_CIPHER_SUITE_BIP_GMAC_256}"
    | (gcmp) "?c \<in> {WLAN_CIPHER_SUITE_GCMP, WLAN_CIPHER_SUITE_GCMP_256}"
    | (other) "?c \<notin> {WLAN_CIPHER_SUITE_WEP40, WLAN_CIPHER_SUITE_WEP104, WLAN_CIPHER_SUITE_TKIP, WLAN_CIPHER_SUITE_CCMP,
        WLAN_CIPHER_SUITE_CCMP_256, WLAN_CIPHER_SUITE_AES_CMAC, WLAN_CIPHER_SUITE_BIP_CMAC_256, WLAN_CIPHER_SUITE_BIP_GMAC_128,
        WLAN_CIPHER_SUITE_BIP_GMAC_256, WLAN_CIPHER_SUITE_GCMP, WLAN_CIPHER_SUITE_GCMP_256}" by blast
  then show ?thesis
  proof cases
    case wep
    then show ?thesis using assms by (auto simp: decrypt_with_def key_typed_def Let_def bind_eq_Some_conv)
  next
    case tkip
    then obtain rxs f where k: "key_u key = U_tkip rxs f" "length rxs = 16"
      using assms(2) by (auto simp: key_typed_def Let_def suite_defs split: key_union.splits)
    then obtain k' e where d: "ieee80211_crypto_tkip_decrypt (de_wep env) (tkip_rx_of env rx key)
        \<lparr>tk_conf = key_conf key, tk_rx = rxs, tk_mic_failures = f\<rparr> skb = Some (res, k', skb', iv, e)"
      "u = U_tkip (tk_rx k') (tk_mic_failures k')"
      using assms(1) tkip suites_distinct by (auto simp: decrypt_with_def Let_def bind_eq_Some_conv)
    from tkip_decrypt_level [OF d(1), of idx] show ?thesis using k d(2) tkip by (simp add: key_typed_def suite_defs)
  next
    case ccmp
    then obtain k where k: "key_u key = U_ccmp k" "rx_key_wf k"
      using assms(2) by (auto simp: key_typed_def Let_def suite_defs split: key_union.splits)
    then obtain k' m where d: "aead_crypto_decrypt ccmp_special_blocks ieee80211_aes_ccm_decrypt (de_alloc_ok env) (de_stack env)
        m (aead_rx_of rx) k skb = Some (res, k', skb')" "u = U_ccmp k'"
      using assms(1) ccmp
      by (auto simp: decrypt_with_def Let_def bind_eq_Some_conv suite_defs ieee80211_crypto_ccmp_decrypt_def split: if_splits)
    from aead_decrypt_level [OF d(1) k(2), of idx] show ?thesis using k d(2) ccmp by (auto simp: key_typed_def suite_defs)
  next
    case cmac
    then obtain t k where k: "key_u key = U_aes_cmac t k" "length (bip_rx_pn k) = 6"
      using assms(2) by (auto simp: key_typed_def Let_def suite_defs split: key_union.splits)
    then obtain k' where d: "bip_decrypt (cmac_code t) 8 True [] (rxd_flag rx) k skb = Some (res, k', skb')" "u = U_aes_cmac t k'"
      using assms(1) cmac by (auto simp: decrypt_with_def Let_def bind_eq_Some_conv suite_defs ieee80211_crypto_aes_cmac_decrypt_def)
    from bip_decrypt_level [OF d(1) k(2)] show ?thesis using k d(2) cmac by (simp add: key_typed_def suite_defs)
  next
    case cmac256
    then obtain t k where k: "key_u key = U_aes_cmac t k" "length (bip_rx_pn k) = 6"
      using assms(2) by (auto simp: key_typed_def Let_def suite_defs split: key_union.splits)
    then obtain k' where d: "bip_decrypt (cmac_256_code t) 16 True [] (rxd_flag rx) k skb = Some (res, k', skb')" "u = U_aes_cmac t k'"
      using assms(1) cmac256 by (auto simp: decrypt_with_def Let_def bind_eq_Some_conv suite_defs ieee80211_crypto_aes_cmac_256_decrypt_def)
    from bip_decrypt_level [OF d(1) k(2)] show ?thesis using k d(2) cmac256 by (simp add: key_typed_def suite_defs)
  next
    case gmac
    then obtain t k where k: "key_u key = U_aes_gmac t k" "length (bip_rx_pn k) = 6"
      using assms(2) by (auto simp: key_typed_def Let_def suite_defs split: key_union.splits)
    then obtain k' where d: "bip_decrypt (gmac_code (de_alloc_ok env, t)) GMAC_MIC_LEN (de_mic_alloc_ok env) (de_junk env) (rxd_flag rx) k skb
        = Some (res, k', skb')" "u = U_aes_gmac t k'"
      using assms(1) gmac by (auto simp: decrypt_with_def Let_def bind_eq_Some_conv suite_defs ieee80211_crypto_aes_gmac_decrypt_def)
    from bip_decrypt_level [OF d(1) k(2)] show ?thesis using k d(2) gmac by (auto simp: key_typed_def suite_defs)
  next
    case gcmp
    then obtain k where k: "key_u key = U_gcmp k" "rx_key_wf k"
      using assms(2) by (auto simp: key_typed_def Let_def suite_defs split: key_union.splits)
    then obtain k' m where d: "aead_crypto_decrypt gcmp_special_blocks ieee80211_aes_gcm_decrypt (de_alloc_ok env) (de_stack env)
        m (aead_rx_of rx) k skb = Some (res, k', skb')" "u = U_gcmp k'"
      using assms(1) gcmp
      by (auto simp: decrypt_with_def Let_def bind_eq_Some_conv suite_defs ieee80211_crypto_gcmp_decrypt_def split: if_splits)
    from aead_decrypt_level [OF d(1) k(2), of idx] show ?thesis using k d(2) gcmp by (auto simp: key_typed_def suite_defs)
  next
    case other
    then obtain pns where k: "key_u key = U_gen pns" "length pns = 17" "list_all (\<lambda>pn. length pn = 16) pns"
      using assms(2) by (auto simp: key_typed_def Let_def split: key_union.splits)
    then obtain pns' scheme where d: "ieee80211_crypto_hw_decrypt scheme (rxd_flag rx) pns skb = Some (res, pns', skb')" "u = U_gen pns'"
      using assms(1) other by (auto simp: decrypt_with_def Let_def bind_eq_Some_conv)
    from hw_decrypt_level [OF d(1) k(3), of idx] show ?thesis using k d(2) other by (simp add: key_typed_def)
  qed
qed

section \<open>The handler on the store\<close>

definition store_typed :: "key_store \<Rightarrow> bool" where
  "store_typed store \<longleftrightarrow> (\<forall>k key. store k = Some key \<longrightarrow> key_typed key)"

definition store_level :: "nat \<Rightarrow> nat \<Rightarrow> key_store \<Rightarrow> nat" where
  "store_level k idx store = (case store k of None \<Rightarrow> 0 | Some key \<Rightarrow> union_level idx (key_u key))"

text \<open>What of a key the handler never changes.\<close>

definition key_frame :: "key_store \<Rightarrow> nat \<Rightarrow> (ieee80211_key_conf \<times> u32) option" where
  "key_frame store k = map_option (\<lambda>key. (key_conf key, key_flags key)) (store k)"

lemma rx_decrypt_store:
  assumes "ieee80211_rx_h_decrypt env rx store skb = Some (res, k, store', skb', flag', iv)"
  shows "store' = store \<or> (\<exists>n key u s. k = Some n \<and> store n = Some key \<and> store' = store(n \<mapsto> key\<lparr>key_u := u\<rparr>) \<and>
    decrypt_with env rx key skb = Some (res, u, s, iv))"
proof -
  obtain sel where sel: "select_rx_key store rx (sk_data skb) = Some sel"
    using assms by (auto simp: ieee80211_rx_h_decrypt_def bind_eq_Some_conv)
  show ?thesis
  proof (cases sel)
    case (Inl a)
    then show ?thesis using assms sel by (cases a) (auto simp: ieee80211_rx_h_decrypt_def)
  next
    case (Inr b)
    then show ?thesis using assms sel by (cases b) (auto simp: ieee80211_rx_h_decrypt_def bind_eq_Some_conv split: if_splits)
  qed
qed

definition decrypt_step :: "key_store \<Rightarrow> decrypt_env \<times> rx_data \<times> sk_buff \<Rightarrow> key_store" where
  "decrypt_step store f = (case f of (env, rx, skb) \<Rightarrow>
     (case ieee80211_rx_h_decrypt env rx store skb of
        None \<Rightarrow> store | Some (res, k, store', skb', flag', iv) \<Rightarrow> store'))"

lemma decrypt_step_store:
  assumes "store_typed store"
  shows "store_typed (decrypt_step store f) \<and> store_level n idx store \<le> store_level n idx (decrypt_step store f) \<and>
    key_frame (decrypt_step store f) n = key_frame store n"
proof -
  obtain env rx skb where f: "f = (env, rx, skb)" by (cases f) auto
  show ?thesis
  proof (cases "decrypt_step store f = store")
    case False
    then obtain res k store' skb' flag' iv where d: "ieee80211_rx_h_decrypt env rx store skb = Some (res, k, store', skb', flag', iv)"
      and s: "decrypt_step store f = store'" by (auto simp: f decrypt_step_def split: option.splits)
    then obtain m key u s where u: "store m = Some key" "store' = store(m \<mapsto> key\<lparr>key_u := u\<rparr>)"
      "decrypt_with env rx key skb = Some (res, u, s, iv)" using rx_decrypt_store [OF d] False by auto
    have "key_typed (key\<lparr>key_u := u\<rparr>)" "union_level idx (key_u key) \<le> union_level idx u"
      using decrypt_with_level [OF u(3)] assms u(1) by (auto simp: store_typed_def)
    then show ?thesis using assms u(1) by (auto simp: s u(2) store_typed_def store_level_def key_frame_def)
  qed (use assms in simp)
qed

interpretation key_counters: monotone_machine decrypt_step store_typed "\<lambda>f. True" "store_level k idx" for k idx
  by unfold_locales (auto simp: decrypt_step_store)

lemma run_key_frame: "store_typed store \<Longrightarrow> key_frame (run decrypt_step store frames) n = key_frame store n"
proof (induction frames arbitrary: store)
  case (Cons f frames)
  then show ?case using decrypt_step_store [of store f n] by simp
qed simp

text \<open>A protected frame that the hardware has not decrypted is let through by the handler of its key's cipher only.\<close>

lemma select_protected:
  assumes "hdr_frame_control d = Some fc" and "ieee80211_has_protected fc"
    and "\<not> (flag_set (rxd_flag rx) RX_FLAG_DECRYPTED \<and> flag_set (rxd_flag rx) RX_FLAG_IV_STRIPPED)"
    and "select_rx_key store rx d = Some sel"
  shows "sel = Inl (RX_DROP_UNUSABLE, None) \<or>
    (\<exists>sta_ptk ptk_idx multicast. pairwise_keys rx fc d = Some (Inr (sta_ptk, ptk_idx)) \<and>
       is_multicast_ether_addr d hdr_addr1 = Some multicast \<and>
       (\<not> multicast \<and> sta_ptk \<noteq> None \<and> sel = Inr (if ptk_idx \<noteq> None then ptk_idx else sta_ptk) \<or>
        (\<exists>i key. group_key store rx d multicast i = Some key \<and> sel = Inr key)))"
proof -
  obtain ptks where p: "pairwise_keys rx fc d = Some ptks"
    using assms(1,4) by (auto simp: select_rx_key_def Let_def bind_eq_Some_conv)
  show ?thesis
  proof (cases ptks)
    case (Inl e)
    then show ?thesis using assms p by (simp add: select_rx_key_def)
  next
    case (Inr pq)
    obtain sta_ptk ptk_idx where pq: "pq = (sta_ptk, ptk_idx)" by (cases pq)
    obtain multicast where m: "is_multicast_ether_addr d hdr_addr1 = Some multicast"
      using assms p Inr pq by (auto simp: select_rx_key_def Let_def bind_eq_Some_conv)
    show ?thesis
    proof (cases "\<not> multicast \<and> sta_ptk \<noteq> None")
      case True
      then have "sel = Inr (if ptk_idx \<noteq> None then ptk_idx else sta_ptk)"
        using assms p Inr pq m by (auto simp: select_rx_key_def Let_def)
      then show ?thesis using True p Inr pq m by blast
    next
      case False
      let ?scheme = "case rxd_sta rx of None \<Rightarrow> None | Some sta \<Rightarrow> rs_cipher_scheme sta"
      obtain keyid where k: "ieee80211_get_keyid d ?scheme = Some keyid"
        using assms p Inr pq m False by (auto simp: select_rx_key_def Let_def bind_eq_Some_conv)
      show ?thesis
      proof (cases keyid)
        case (Inl e)
        then show ?thesis using assms p \<open>ptks = Inr pq\<close> pq m False k by (auto simp: select_rx_key_def Let_def)
      next
        case (Inr i)
        then have "\<exists>key. group_key store rx d multicast i = Some key \<and> sel = Inr key"
          using assms p \<open>ptks = Inr pq\<close> pq m False k
          by (auto simp: select_rx_key_def Let_def bind_eq_Some_conv)
        then show ?thesis using p \<open>ptks = Inr pq\<close> pq m by blast
      qed
    qed
  qed
qed

lemma accepted_by_cipher:
  assumes "ieee80211_rx_h_decrypt env rx store skb = Some (RX_CONTINUE, k, store', skb', flag', iv)"
    and "hdr_frame_control (sk_data skb) = Some fc" and "ieee80211_has_protected fc"
    and "\<not> (flag_set (rxd_flag rx) RX_FLAG_DECRYPTED \<and> flag_set (rxd_flag rx) RX_FLAG_IV_STRIPPED)"
  shows "\<exists>n key u. k = Some n \<and> store n = Some key \<and> select_rx_key store rx (sk_data skb) = Some (Inr (Some n)) \<and>
    \<not> flag_set (key_flags key) KEY_FLAG_TAINTED \<and> decrypt_with env rx key skb = Some (RX_CONTINUE, u, skb', iv) \<and>
    store' = store(n \<mapsto> key\<lparr>key_u := u\<rparr>)"
proof -
  obtain sel where sel: "select_rx_key store rx (sk_data skb) = Some sel"
    using assms(1) by (auto simp: ieee80211_rx_h_decrypt_def bind_eq_Some_conv)
  have "\<exists>n. sel = Inr (Some n)"
  proof (cases sel)
    case (Inl a)
    then have "a = (RX_DROP_UNUSABLE, None)" using select_protected [OF assms(2-4) sel] by auto
    then show ?thesis using sel assms(1) Inl by (simp add: ieee80211_rx_h_decrypt_def)
  next
    case (Inr b)
    then show ?thesis using sel assms(1) by (cases b) (auto simp: ieee80211_rx_h_decrypt_def)
  qed
  then obtain n where "sel = Inr (Some n)" by blast
  then show ?thesis using sel assms(1)
    by (auto simp: ieee80211_rx_h_decrypt_def bind_eq_Some_conv split: if_splits)
qed

lemma key_at_mem: "key_at ks i = Some (Some k) \<Longrightarrow> Some k \<in> set ks"
  unfolding key_at_def by (metis nth_mem option.inject option.distinct(1))

text \<open>Which key that is.\<close>

lemma pairwise_mem:
  assumes "pairwise_keys rx fc d = Some (Inr (sta_ptk, ptk_idx))" and "rxd_sta rx = Some sta"
  shows "(sta_ptk = Some n \<longrightarrow> Some n \<in> set (rs_ptk sta)) \<and> (ptk_idx = Some n \<longrightarrow> Some n \<in> set (rs_ptk sta))"
proof -
  obtain q where q: "key_at (rs_ptk sta) (rs_ptk_idx sta) = Some q" using assms by (auto simp: pairwise_keys_def bind_eq_Some_conv)
  show ?thesis
  proof (cases "ieee80211_has_protected fc")
    case False
    then show ?thesis using assms q by (auto simp: pairwise_keys_def dest: key_at_mem)
  next
    case True
    then obtain keyid where k: "ieee80211_get_keyid d (rs_cipher_scheme sta) = Some keyid"
      using assms q by (auto simp: pairwise_keys_def bind_eq_Some_conv)
    then show ?thesis using assms q True by (cases keyid) (auto simp: pairwise_keys_def bind_eq_Some_conv dest: key_at_mem)
  qed
qed

lemma selected_key:
  assumes "select_rx_key store rx d = Some (Inr (Some n))" and "hdr_frame_control d = Some fc" and "ieee80211_has_protected fc"
    and "\<not> (flag_set (rxd_flag rx) RX_FLAG_DECRYPTED \<and> flag_set (rxd_flag rx) RX_FLAG_IV_STRIPPED)"
    and "is_multicast_ether_addr d hdr_addr1 = Some multicast"
  shows "(\<not> multicast \<and> (\<exists>sta. rxd_sta rx = Some sta \<and> Some n \<in> set (rs_ptk sta))) \<or>
    (multicast \<and> (\<exists>sta. rxd_sta rx = Some sta \<and> Some n \<in> set (rs_gtk sta))) \<or>
    (Some n \<in> set (sd_keys (rxd_sdata rx)) \<and> (multicast \<or> wep_cipher store n = Some True))"
proof -
  from select_protected [OF assms(2-4,1)] obtain sta_ptk ptk_idx where p: "pairwise_keys rx fc d = Some (Inr (sta_ptk, ptk_idx))"
    and c: "\<not> multicast \<and> (if ptk_idx \<noteq> None then ptk_idx else sta_ptk) = Some n \<or> (\<exists>i. group_key store rx d multicast i = Some (Some n))"
    using assms(5) by auto
  from c show ?thesis
  proof (elim disjE exE)
    assume n: "\<not> multicast \<and> (if ptk_idx \<noteq> None then ptk_idx else sta_ptk) = Some n"
    then obtain sta where sta: "rxd_sta rx = Some sta"
      using p by (cases "rxd_sta rx") (auto simp: pairwise_keys_def)
    have "(sta_ptk = Some n \<longrightarrow> Some n \<in> set (rs_ptk sta)) \<and> (ptk_idx = Some n \<longrightarrow> Some n \<in> set (rs_ptk sta))"
      using pairwise_mem [OF p sta] by simp
    then show ?thesis using n sta by (auto split: if_splits)
  next
    fix i assume g: "group_key store rx d multicast i = Some (Some n)"
    then obtain gtk where gtk: "(case rxd_sta rx of Some sta \<Rightarrow> if multicast then key_at (rs_gtk sta) i else Some None | None \<Rightarrow> Some None) = Some gtk"
      by (auto simp: group_key_def bind_eq_Some_conv)
    show ?thesis
    proof (cases gtk)
      case None
      then obtain key where key: "key_at (sd_keys (rxd_sdata rx)) i = Some key"
        using g gtk by (auto simp: group_key_def bind_eq_Some_conv)
      then have "key = Some n \<and> (multicast \<or> wep_cipher store n = Some True)"
        using g gtk None by (cases key) (auto simp: group_key_def bind_eq_Some_conv split: if_splits)
      then show ?thesis using key key_at_mem by blast
    next
      case (Some k)
      then have "k = n" using g gtk by (simp add: group_key_def)
      then show ?thesis using gtk Some by (auto dest: key_at_mem split: option.splits if_splits)
    qed
  qed
qed

section \<open>A sample key store\<close>

text \<open>A station with one CCMP group key, a frame to the group, and the replies of the handler.\<close>

definition sample_wep_lib :: wep_lib where
  "sample_wep_lib = \<lparr>arc4 = None, crc32_le = (\<lambda>start d. 0)\<rparr>"

definition sample_env :: decrypt_env where
  "sample_env = \<lparr>de_wep = sample_wep_lib, de_alloc_ok = True, de_stack = [0, 0], de_mic_alloc_ok = True, de_junk = [],
     de_update_tkip_key = False\<rparr>"

definition sample_rx_data :: rx_data where
  "sample_rx_data = \<lparr>rxd_sta = Some \<lparr>rs_addr = replicate 6 2, rs_ptk = replicate 4 None, rs_ptk_idx = 0,
       rs_gtk = Some 0 # replicate 5 None, rs_mfp = False, rs_cipher_scheme = None\<rparr>,
     rxd_sdata = \<lparr>sd_keys = replicate 6 None, sd_default_mgmt_key = None, sd_ap = False\<rparr>, rxd_flag = 0, rxd_security_idx = 0\<rparr>"

definition sample_group_key :: ieee80211_key where
  "sample_group_key = \<lparr>key_conf = sample_conf, key_flags = 0, key_u = U_ccmp (sample_rx_key sample_aead)\<rparr>"

definition sample_store :: key_store where
  "sample_store = [0 \<mapsto> sample_group_key]"

lemma sample_selected: "select_rx_key store sample_rx_data (sk_data (sample_air 5)) = Some (Inr (Some 0))"
  "select_rx_key store sample_rx_data (sk_data (sample_air 4)) = Some (Inr (Some 0))"
  by code_simp+

lemma sample_store_typed: "store_typed sample_store"
  using sample_rx_key_wf
  by (simp add: store_typed_def sample_store_def sample_group_key_def key_typed_def sample_conf_def suite_defs)

lemma sample_handled:
  assumes "ieee80211_crypto_ccmp_decrypt True [0, 0] 8 sample_rx k (sample_air n) = Some (res, k', out)"
    and "n \<in> {4, 5}"
  shows "ieee80211_rx_h_decrypt sample_env sample_rx_data [0 \<mapsto> sample_group_key\<lparr>key_u := U_ccmp k\<rparr>] (sample_air n)
    = Some (res, Some 0, [0 \<mapsto> sample_group_key\<lparr>key_u := U_ccmp k'\<rparr>], out, RX_FLAG_DECRYPTED, None)"
proof -
  have "select_rx_key store sample_rx_data (sk_data (sample_air n)) = Some (Inr (Some 0))" for store
    using sample_selected assms(2) by auto
  moreover have "aead_rx_of sample_rx_data = sample_rx" by (simp add: aead_rx_of_def sample_rx_data_def sample_rx_def)
  ultimately show ?thesis using assms(1)
    by (simp add: ieee80211_rx_h_decrypt_def decrypt_with_def sample_group_key_def sample_conf_def suite_defs flag_set_def
        sample_env_def sample_rx_data_def IEEE80211_CCMP_MIC_LEN_def)
qed

lemma sample_group_frame: "hdr_frame_control (sk_data (sample_air 5)) = Some 0x4108" "ieee80211_has_protected 0x4108"
    "is_multicast_ether_addr (sk_data (sample_air 5)) hdr_addr1 = Some True"
  by code_simp+

lemma sample_first: "\<exists>key out. ieee80211_crypto_ccmp_decrypt True [0, 0] 8 sample_rx (sample_rx_key sample_aead) (sample_air 5)
    = Some (RX_CONTINUE, key, out)"
  using sample_received(1) by (auto simp: rx_outcome_some)

lemma sample_store_eq: "sample_store = [0 \<mapsto> sample_group_key\<lparr>key_u := U_ccmp (sample_rx_key sample_aead)\<rparr>]"
  by (simp add: sample_store_def sample_group_key_def)

section \<open>Properties\<close>

text \<open>C30: Keys stay well-typed: whatever frames are received, the union of every key holds what the handler of
  its cipher reads, with its arrays at their lengths, and neither the configuration and flags of a
  key nor the set of keys change.\<close>

theorem decrypt_keeps_types:
  assumes "store_typed store"
  shows "store_typed (run decrypt_step store frames) \<and> dom (run decrypt_step store frames) = dom store \<and>
    (\<forall>k. map_option (\<lambda>key. (key_conf key, key_flags key)) (run decrypt_step store frames k) =
         map_option (\<lambda>key. (key_conf key, key_flags key)) (store k))"
proof -
  let ?last = "run decrypt_step store frames"
  have f: "key_frame ?last k = key_frame store k" for k by (rule run_key_frame [OF assms])
  have "k \<in> dom ?last \<longleftrightarrow> k \<in> dom store" for k
    using f [of k] by (cases "?last k"; cases "store k") (auto simp: key_frame_def)
  then have "dom ?last = dom store" by blast
  moreover have "store_typed ?last" using key_counters.run_inv [OF assms, of frames] by (simp add: list.pred_True)
  ultimately show ?thesis using f by (simp add: key_frame_def)
qed

theorem decrypt_keeps_types_witness:
  "store_typed (run decrypt_step sample_store [(sample_env, sample_rx_data, sample_air 5)]) \<and>
   dom (run decrypt_step sample_store [(sample_env, sample_rx_data, sample_air 5)]) = {0} \<and>
   run decrypt_step sample_store [(sample_env, sample_rx_data, sample_air 5)] \<noteq> sample_store"
proof -
  have "run decrypt_step sample_store [(sample_env, sample_rx_data, sample_air 5)] \<noteq> sample_store"
  proof -
    obtain key out where k: "ieee80211_crypto_ccmp_decrypt True [0, 0] 8 sample_rx (sample_rx_key sample_aead) (sample_air 5)
        = Some (RX_CONTINUE, key, out)" "rx_pn key = (replicate 17 (replicate 6 0))[0 := [0, 0, 0, 0, 0, 5]]"
      using sample_received(1) by (auto simp: rx_outcome_some)
    moreover have "rx_pn (sample_rx_key sample_aead) \<noteq> (replicate 17 (replicate 6 0))[0 := [0, 0, 0, 0, 0, 5]]" by code_simp
    ultimately have "key \<noteq> sample_rx_key sample_aead" by auto
    then show ?thesis
      using sample_handled [OF k(1)] by (auto simp: sample_store_eq decrypt_step_def sample_group_key_def dest!: fun_upd_eqD)
  qed
  then show ?thesis
    using decrypt_keeps_types [OF sample_store_typed, of "[(sample_env, sample_rx_data, sample_air 5)]"]
    by (simp add: sample_store_def)
qed

text \<open>C2: A protected frame that the hardware has not stripped is let through only after the handler of a
  key's cipher accepted it, the key is not tainted, and it is the right one: for a unicast frame a
  pairwise key of the sender or an interface key that is a WEP key, for a multicast frame a group
  key of the sender or an interface key.\<close>

theorem protected_frame_key:
  assumes "ieee80211_rx_h_decrypt env rx store skb = Some (RX_CONTINUE, k, store', skb', flag', iv)"
    and "hdr_frame_control (sk_data skb) = Some fc" and "ieee80211_has_protected fc"
    and "\<not> (flag_set (rxd_flag rx) RX_FLAG_DECRYPTED \<and> flag_set (rxd_flag rx) RX_FLAG_IV_STRIPPED)"
    and "is_multicast_ether_addr (sk_data skb) hdr_addr1 = Some multicast"
  shows "\<exists>n key u. k = Some n \<and> store n = Some key \<and> \<not> flag_set (key_flags key) KEY_FLAG_TAINTED \<and>
    decrypt_with env rx key skb = Some (RX_CONTINUE, u, skb', iv) \<and> store' = store(n \<mapsto> key\<lparr>key_u := u\<rparr>) \<and>
    ((\<not> multicast \<and> (\<exists>sta. rxd_sta rx = Some sta \<and> Some n \<in> set (rs_ptk sta))) \<or>
     (multicast \<and> (\<exists>sta. rxd_sta rx = Some sta \<and> Some n \<in> set (rs_gtk sta))) \<or>
     (Some n \<in> set (sd_keys (rxd_sdata rx)) \<and>
      (multicast \<or> kc_cipher (key_conf key) \<in> {WLAN_CIPHER_SUITE_WEP40, WLAN_CIPHER_SUITE_WEP104})))"
proof -
  from accepted_by_cipher [OF assms(1-4)] obtain n key u where n: "k = Some n" "store n = Some key"
    "select_rx_key store rx (sk_data skb) = Some (Inr (Some n))" "\<not> flag_set (key_flags key) KEY_FLAG_TAINTED"
    "decrypt_with env rx key skb = Some (RX_CONTINUE, u, skb', iv)" "store' = store(n \<mapsto> key\<lparr>key_u := u\<rparr>)" by blast
  moreover have "wep_cipher store n = Some True \<Longrightarrow> kc_cipher (key_conf key) \<in> {WLAN_CIPHER_SUITE_WEP40, WLAN_CIPHER_SUITE_WEP104}"
    using n(2) by (simp add: wep_cipher_def)
  ultimately show ?thesis using selected_key [OF n(3) assms(2-5)] by blast
qed

theorem protected_frame_key_witness:
  "\<exists>k store' out flag'. ieee80211_rx_h_decrypt sample_env sample_rx_data sample_store (sample_air 5)
      = Some (RX_CONTINUE, k, store', out, flag', None) \<and> k = Some 0 \<and> Some 0 \<in> set (replicate 5 None @ [k])"
proof -
  obtain key out where "ieee80211_crypto_ccmp_decrypt True [0, 0] 8 sample_rx (sample_rx_key sample_aead) (sample_air 5)
      = Some (RX_CONTINUE, key, out)" using sample_first by blast
  from sample_handled [OF this] have d: "ieee80211_rx_h_decrypt sample_env sample_rx_data sample_store (sample_air 5)
      = Some (RX_CONTINUE, Some 0, [0 \<mapsto> sample_group_key\<lparr>key_u := U_ccmp key\<rparr>], out, RX_FLAG_DECRYPTED, None)"
    by (simp add: sample_store_eq)
  have "\<not> (flag_set (rxd_flag sample_rx_data) RX_FLAG_DECRYPTED \<and> flag_set (rxd_flag sample_rx_data) RX_FLAG_IV_STRIPPED)"
    by (simp add: sample_rx_data_def flag_set_def)
  from protected_frame_key [OF d sample_group_frame(1,2) this sample_group_frame(3)] show ?thesis using d by auto
qed

text \<open>A data frame protected by CCMP or GCMP, for software to decrypt.\<close>

definition aead_key :: "ieee80211_key \<Rightarrow> bool" where
  "aead_key key \<longleftrightarrow> pn_cipher (kc_cipher (key_conf key))"

definition software_data_frame :: "rx_data \<Rightarrow> sk_buff \<Rightarrow> u8 list \<Rightarrow> bool" where
  "software_data_frame rx skb pn \<longleftrightarrow> rxd_flag rx = 0 \<and> frame_pn skb = Some pn \<and>
     (\<exists>fc. hdr_frame_control (sk_data skb) = Some fc \<and> ieee80211_is_data fc \<and> ieee80211_has_protected fc)"

lemma sample_frames: "software_data_frame sample_rx_data (sample_air 5) [0, 0, 0, 0, 0, 5]"
  "software_data_frame sample_rx_data (sample_air 4) [0, 0, 0, 0, 0, 4]"
proof -
  have "hdr_frame_control (sk_data (sample_air 5)) = Some 0x4108" "hdr_frame_control (sk_data (sample_air 4)) = Some 0x4108"
    "ieee80211_has_protected 0x4108" by code_simp+
  then show "software_data_frame sample_rx_data (sample_air 5) [0, 0, 0, 0, 0, 5]"
    "software_data_frame sample_rx_data (sample_air 4) [0, 0, 0, 0, 0, 4]"
    using sample_checked sample_header_proper(2) by (simp_all add: software_data_frame_def checked_frame_def sample_rx_data_def)
qed

lemma aead_accepts:
  assumes "ieee80211_rx_h_decrypt env rx store skb = Some (RX_CONTINUE, Some n, store', skb', flag', iv)"
    and "software_data_frame rx skb pn" and "store_typed store" and "store n = Some key" and "aead_key key"
  shows "store_level n (rxd_security_idx rx) store < be_value pn"
    and "store_level n (rxd_security_idx rx) store' = be_value pn"
proof -
  let ?q = "rxd_security_idx rx"
  obtain fc where fc: "rxd_flag rx = 0" "frame_pn skb = Some pn" "hdr_frame_control (sk_data skb) = Some fc"
    "ieee80211_is_data fc" "ieee80211_has_protected fc"
    using assms(2) by (auto simp: software_data_frame_def)
  have z: "\<not> flag_set 0 m" for m :: u32 by (simp add: flag_set_def)
  from accepted_by_cipher [OF assms(1) fc(3,5)] obtain u where d: "decrypt_with env rx key skb = Some (RX_CONTINUE, u, skb', iv)"
    "store' = store(n \<mapsto> key\<lparr>key_u := u\<rparr>)"
    using assms(4) fc(1) z by auto
  have ch: "checked_frame (aead_rx_of rx) skb pn" using fc z by (auto simp: checked_frame_def aead_rx_of_def)
  have typed: "key_typed key" using assms(3,4) by (simp add: store_typed_def)
  obtain blocks aes m k k' where a: "aead_crypto_decrypt blocks aes (de_alloc_ok env) (de_stack env) m (aead_rx_of rx) k skb
      = Some (RX_CONTINUE, k', skb')" "rx_key_wf k" "union_level ?q (key_u key) = rx_level ?q k" "union_level ?q u = rx_level ?q k'"
  proof (cases "kc_cipher (key_conf key) \<in> {WLAN_CIPHER_SUITE_CCMP, WLAN_CIPHER_SUITE_CCMP_256}")
    case True
    then obtain k where k: "key_u key = U_ccmp k" "rx_key_wf k"
      using typed by (auto simp: key_typed_def Let_def suite_defs split: key_union.splits)
    then obtain k' m where "aead_crypto_decrypt ccmp_special_blocks ieee80211_aes_ccm_decrypt (de_alloc_ok env) (de_stack env)
        m (aead_rx_of rx) k skb = Some (RX_CONTINUE, k', skb')" "u = U_ccmp k'"
      using d(1) True
      by (auto simp: decrypt_with_def Let_def bind_eq_Some_conv suite_defs ieee80211_crypto_ccmp_decrypt_def split: if_splits)
    then show ?thesis using that [of ccmp_special_blocks] k by auto
  next
    case False
    then have c: "kc_cipher (key_conf key) \<in> {WLAN_CIPHER_SUITE_GCMP, WLAN_CIPHER_SUITE_GCMP_256}"
      using assms(5) by (auto simp: aead_key_def pn_cipher_def)
    then obtain k where k: "key_u key = U_gcmp k" "rx_key_wf k"
      using typed by (auto simp: key_typed_def Let_def suite_defs split: key_union.splits)
    then obtain k' m where "aead_crypto_decrypt gcmp_special_blocks ieee80211_aes_gcm_decrypt (de_alloc_ok env) (de_stack env)
        m (aead_rx_of rx) k skb = Some (RX_CONTINUE, k', skb')" "u = U_gcmp k'"
      using d(1) c
      by (auto simp: decrypt_with_def Let_def bind_eq_Some_conv suite_defs ieee80211_crypto_gcmp_decrypt_def split: if_splits)
    then show ?thesis using that [of gcmp_special_blocks] k by auto
  qed
  note acc = accepted_frame [OF ch a(1), unfolded aead_rx_of_def, simplified]
  have len: "length (rx_pn k ! ?q) = 6" "length pn = 6"
    using a(2) acc(1) fc(2) by (auto simp: rx_key_wf_def list_all_length frame_pn_def bind_eq_Some_conv)
  have "be_value (rx_pn k ! ?q) < be_value pn"
    using acc(3) memcmp_le [of pn "rx_pn k ! ?q"] len fc(1) z by (auto simp: pn_replayed_def Let_def not_le not_less)
  then show "store_level n ?q store < be_value pn" using assms(4) a(3) by (simp add: store_level_def rx_level_def)
  show "store_level n ?q store' = be_value pn" using d(2) a(4) acc(1,2) by (simp add: store_level_def rx_level_def)
qed

text \<open>C1: No replay through the whole handler: once a data frame has been accepted on a CCMP or GCMP key, no
  data frame of the same traffic class whose packet number is not larger is accepted on that key,
  whatever frames of whatever stations and ciphers are received in between.\<close>

theorem decrypt_no_replay:
  assumes "store_typed store" and "store n = Some key" and "aead_key key"
    and "software_data_frame rx1 skb1 pn1"
    and "ieee80211_rx_h_decrypt env1 rx1 store skb1 = Some (RX_CONTINUE, Some n, store1, out1, flag1, iv1)"
    and "software_data_frame rx2 skb2 pn2" and "be_value pn2 \<le> be_value pn1" and "rxd_security_idx rx2 = rxd_security_idx rx1"
    and "ieee80211_rx_h_decrypt env2 rx2 (run decrypt_step store1 frames) skb2 = Some (res, Some n, store2, out2, flag2, iv2)"
  shows "res \<noteq> RX_CONTINUE"
proof
  let ?q = "rxd_security_idx rx1" and ?last = "run decrypt_step store1 frames"
  assume r: "res = RX_CONTINUE"
  have s1: "store1 = decrypt_step store (env1, rx1, skb1)" using assms(5) by (simp add: decrypt_step_def)
  then have t1: "store_typed store1" using key_counters.step_inv [OF assms(1)] by simp
  then have t2: "store_typed ?last" using key_counters.run_inv [of store1 frames] by (simp add: list.pred_True)
  have "key_frame ?last n = key_frame store n"
    using run_key_frame [OF t1, of frames n] decrypt_step_store [OF assms(1), of "(env1, rx1, skb1)" n] s1 by simp
  then obtain key2 where k2: "?last n = Some key2" "key_conf key2 = key_conf key"
    using assms(2) by (auto simp: key_frame_def)
  have "be_value pn1 = store_level n ?q store1" using aead_accepts(2) [OF assms(5,4,1,2,3)] by simp
  also have "\<dots> \<le> store_level n ?q ?last"
    using key_counters.run_level [OF t1, of frames n ?q] by (simp add: list.pred_True)
  also have "\<dots> < be_value pn2"
    using aead_accepts(1) [OF assms(9) [unfolded r] assms(6) t2 k2(1)] assms(3,8) k2(2) by (simp add: aead_key_def)
  finally show False using assms(7) by simp
qed

theorem decrypt_no_replay_witness:
  "\<exists>store1 out1 res store2 out2.
     ieee80211_rx_h_decrypt sample_env sample_rx_data sample_store (sample_air 5)
       = Some (RX_CONTINUE, Some 0, store1, out1, RX_FLAG_DECRYPTED, None) \<and>
     ieee80211_rx_h_decrypt sample_env sample_rx_data store1 (sample_air 4)
       = Some (res, Some 0, store2, out2, RX_FLAG_DECRYPTED, None) \<and> res \<noteq> RX_CONTINUE"
proof -
  obtain key1 out1 where first: "ieee80211_crypto_ccmp_decrypt True [0, 0] 8 sample_rx (sample_rx_key sample_aead) (sample_air 5)
      = Some (RX_CONTINUE, key1, out1)"
    using sample_first by blast
  then obtain res key2 out2 where second: "ieee80211_crypto_ccmp_decrypt True [0, 0] 8 sample_rx key1 (sample_air 4)
      = Some (res, key2, out2)"
    using sample_received(2) by (auto simp: rx_outcome_some)
  let ?store1 = "[0 \<mapsto> sample_group_key\<lparr>key_u := U_ccmp key1\<rparr>]"
  have d1: "ieee80211_rx_h_decrypt sample_env sample_rx_data sample_store (sample_air 5)
      = Some (RX_CONTINUE, Some 0, ?store1, out1, RX_FLAG_DECRYPTED, None)"
    using sample_handled [OF first] by (simp add: sample_store_eq)
  have d2: "ieee80211_rx_h_decrypt sample_env sample_rx_data ?store1 (sample_air 4)
      = Some (res, Some 0, [0 \<mapsto> sample_group_key\<lparr>key_u := U_ccmp key2\<rparr>], out2, RX_FLAG_DECRYPTED, None)"
    using sample_handled [OF second] by simp
  have k: "sample_store 0 = Some sample_group_key" "aead_key sample_group_key"
    by (simp_all add: sample_store_def aead_key_def pn_cipher_def sample_group_key_def sample_conf_def suite_defs)
  have "be_value [0, 0, 0, 0, 0, 4] \<le> be_value [0, 0, 0, 0, 0, 5]" by simp
  note no_replay = decrypt_no_replay [OF sample_store_typed k sample_frames(1) d1 sample_frames(2) this refl]
  have "run decrypt_step ?store1 [] = ?store1" by (rule run.simps)
  then have "res \<noteq> RX_CONTINUE" using no_replay [where frames = "[]"] d2 by metis
  then show ?thesis using d1 d2 by blast
qed

end
