(* ===== verification/RxWindow.thy ===== *)
theory RxWindow
  imports RxReorder
begin

text \<open>
  What the reorder buffer of a block-ack session promises: an unbounded ordered window. Frames
  have absolute numbers; the window knows the number it waits for next and the frames that
  arrived ahead of it, takes in frames that are neither out of date nor there already, and
  hands frames on in the order of their numbers. The ring of net/mac80211/rx.c with its 12-bit numbers
  implements it.
\<close>

section \<open>The ordered window\<close>

record rx_window =
  next_num :: int
  waiting :: "int \<rightharpoonup> nat"

text \<open>The absolute number with the given last 12 bits that is closest to the window.\<close>

definition nearest :: "int \<Rightarrow> u16 \<Rightarrow> int" where
  "nearest a s = (let d = (uint s - a) mod 4096 in if d \<le> 2048 then a + d else a + d - 4096)"

definition window_take :: "int \<Rightarrow> nat \<Rightarrow> rx_window \<Rightarrow> rx_window" where
  "window_take n name w =
     (if n < next_num w \<or> waiting w n \<noteq> None then w else w\<lparr>waiting := (waiting w)(n \<mapsto> name)\<rparr>)"

definition window_release :: "nat \<Rightarrow> rx_window \<Rightarrow> (int \<times> nat) list \<times> rx_window" where
  "window_release k w =
     (let a = next_num w; b = a + int k in
      (map (\<lambda>n. (n, the (waiting w n))) (filter (\<lambda>n. waiting w n \<noteq> None) [a..b - 1]),
       w\<lparr>next_num := b, waiting := (\<lambda>n. if n < b then None else waiting w n)\<rparr>))"

text \<open>
  One step: a frame (its 12 bits and its name) arrives or a timer fires, and the window moves by some
  \<open>k\<close>; afterwards the frame it waits for is not there.
\<close>

inductive window_step :: "rx_window \<Rightarrow> (u16 \<times> nat) option \<Rightarrow> (int \<times> nat) list \<Rightarrow> rx_window \<Rightarrow> bool" where
  frame: "window_release k (window_take (nearest (next_num w) s) name w) = (out, w') \<Longrightarrow> waiting w' (next_num w') = None
    \<Longrightarrow> window_step w (Some (s, name)) out w'"
| timer: "window_release k w = (out, w') \<Longrightarrow> waiting w' (next_num w') = None \<Longrightarrow> window_step w None out w'"

inductive window_run :: "rx_window \<Rightarrow> (u16 \<times> nat) option list \<Rightarrow> (int \<times> nat) list list \<Rightarrow> rx_window \<Rightarrow> bool" where
  nothing: "window_run w [] [] w"
| input: "window_step w i out w1 \<Longrightarrow> window_run w1 is outs w' \<Longrightarrow> window_run w (i # is) (out # outs) w'"

inductive_cases window_step_cases: "window_step w i out w'"
inductive_cases window_run_cons: "window_run w (i # is) outs w'"

text \<open>The order is kept over whole runs.\<close>

lemma release_numbers:
  assumes "window_release k w = (out, w')"
  shows "sorted_wrt (<) (map fst out)" "set (map fst out) \<subseteq> {next_num w..<next_num w'}" "next_num w \<le> next_num w'"
proof -
  have "map fst out = filter (\<lambda>n. waiting w n \<noteq> None) [next_num w..next_num w + int k - 1]"
    and n: "next_num w' = next_num w + int k"
    using assms by (auto simp: window_release_def Let_def comp_def)
  moreover have "sorted_wrt (<) [a..b]" for a b :: int
    by (simp add: sorted_wrt_iff_nth_less)
  ultimately show "sorted_wrt (<) (map fst out)" "set (map fst out) \<subseteq> {next_num w..<next_num w'}" "next_num w \<le> next_num w'"
    by (auto simp: sorted_wrt_filter)
qed

lemma take_next [simp]: "next_num (window_take n name w) = next_num w"
  by (simp add: window_take_def)

lemma window_step_numbers:
  assumes "window_step w i out w'"
  shows "sorted_wrt (<) (map fst out)" "set (map fst out) \<subseteq> {next_num w..<next_num w'}" "next_num w \<le> next_num w'"
proof -
  from assms obtain k w0 where "window_release k w0 = (out, w')" "next_num w0 = next_num w"
    by (cases rule: window_step.cases) (metis take_next)+
  then show "sorted_wrt (<) (map fst out)" "set (map fst out) \<subseteq> {next_num w..<next_num w'}" "next_num w \<le> next_num w'"
    using release_numbers [of k w0 out w'] by simp_all
qed

lemma window_run_ordered:
  "window_run w is outs w' \<Longrightarrow> sorted_wrt (<) (map fst (concat outs)) \<and>
     set (map fst (concat outs)) \<subseteq> {next_num w..<next_num w'} \<and> next_num w \<le> next_num w'"
proof (induction rule: window_run.induct)
  case (input w i out w1 "is" outs w')
  note s = window_step_numbers [OF input.hyps(1)]
  then show ?case using input.IH by (fastforce simp: sorted_wrt_append)
qed simp

section \<open>The window of a session\<close>

text \<open>\<open>a\<close> is the absolute number of the head.\<close>

definition window_of :: "int \<Rightarrow> tid_ampdu_rx \<Rightarrow> rx_window" where
  "window_of a t =
     \<lparr>next_num = a,
      waiting = (\<lambda>n. map_option skb_id
        (List.find (\<lambda>f. a + int (sn_dist (head_seq_num t) (mpdu_sn f)) = n) (concat (reorder_buf t))))\<rparr>"

lemma window_of_next [simp]: "next_num (window_of a t) = a"
  by (simp add: window_of_def)

lemma sn_dist_back: "uint s < 4096 \<Longrightarrow> uint s = (uint h + int (sn_dist h s)) mod 4096"
  by (simp add: sn_dist_int mod_simps mod_pos_pos_trivial)

lemma sn_dist_inj:
  assumes "sn_dist h s = sn_dist h s'" and "uint s < 4096" and "uint s' < 4096"
  shows "s = s'"
  using sn_dist_back [OF assms(2), of h] sn_dist_back [OF assms(3), of h] assms(1) by (simp only: word_uint_eq_iff)

lemma stored_same:
  assumes w: "window_wf t" and f: "f \<in> set (concat (reorder_buf t))" "g \<in> set (concat (reorder_buf t))"
    and d: "sn_dist (head_seq_num t) (mpdu_sn f) = sn_dist (head_seq_num t) (mpdu_sn g)"
  shows "f = g"
proof -
  have l: "length (reorder_buf t) = unat (buf_size t)" using window_wf_reorder [OF w] by (simp add: reorder_wf_def)
  obtain i j where i: "i < unat (buf_size t)" "f \<in> set (reorder_buf t ! i)" and j: "j < unat (buf_size t)" "g \<in> set (reorder_buf t ! j)"
    using f l unfolding in_slots by auto
  have "mpdu_sn f = mpdu_sn g" using sn_dist_inj [OF d] mpdu_sn_int by blast
  then have "i = j" using window_slot(2) [OF w i] window_slot(2) [OF w j] by simp
  moreover have "length (reorder_buf t ! i) \<le> 1" using w i(1) by (simp add: window_wf_def)
  ultimately show ?thesis using i(2) j(2) by (cases "reorder_buf t ! i") auto
qed

lemma find_some: "List.find P xs = Some x \<Longrightarrow> P x \<and> x \<in> set xs"
  by (induction xs) (auto split: if_splits)

lemma find_none: "List.find P xs = None \<Longrightarrow> x \<in> set xs \<Longrightarrow> \<not> P x"
  by (induction xs) (auto split: if_splits)

lemma window_of_waiting:
  assumes w: "window_wf t"
  shows "waiting (window_of a t) n = Some name \<longleftrightarrow>
    (\<exists>f \<in> set (concat (reorder_buf t)). skb_id f = name \<and> n = a + int (sn_dist (head_seq_num t) (mpdu_sn f)))"
    (is "?l \<longleftrightarrow> (\<exists>f \<in> ?S. ?P f)")
proof
  assume ?l
  then obtain f where "List.find (\<lambda>f. a + int (sn_dist (head_seq_num t) (mpdu_sn f)) = n) (concat (reorder_buf t)) = Some f"
    "skb_id f = name" by (auto simp: window_of_def)
  then show "\<exists>f \<in> ?S. ?P f" by (intro bexI [of _ f]) (auto dest: find_some simp del: set_concat)
next
  assume "\<exists>f \<in> ?S. ?P f"
  then obtain f where f: "f \<in> ?S" "?P f" by blast
  let ?Q = "\<lambda>f. a + int (sn_dist (head_seq_num t) (mpdu_sn f)) = n"
  have "?Q f" using f(2) by simp
  then have "List.find ?Q (concat (reorder_buf t)) \<noteq> None" using find_none [of ?Q _ f] f(1) by metis
  then obtain g where g: "List.find ?Q (concat (reorder_buf t)) = Some g" by blast
  then have "g = f" using stored_same [OF w _ f(1)] f(2) find_some [OF g] by simp
  then show ?l using g f(2) by (simp add: window_of_def)
qed

text \<open>In terms of the stored keys, which is what a slide speaks of.\<close>

lemma stored_key: "(name, s) \<in># stored_ids t \<longleftrightarrow> (\<exists>f \<in> set (concat (reorder_buf t)). skb_id f = name \<and> mpdu_sn f = s)"
  by (auto simp: stored_ids_def frame_key_def)

lemma waiting_key:
  "window_wf t \<Longrightarrow> waiting (window_of a t) n = Some name \<longleftrightarrow>
     (\<exists>s. (name, s) \<in># stored_ids t \<and> n = a + int (sn_dist (head_seq_num t) s))"
  unfolding window_of_waiting stored_key by blast

section \<open>The simulation\<close>

lemma nearest_ahead:
  assumes "a mod 4096 = uint h" and "sn_dist h s \<le> 2048"
  shows "nearest a s = a + int (sn_dist h s)"
proof -
  have "(uint s - a) mod 4096 = int (sn_dist h s)" using assms(1) by (metis mod_diff_right_eq sn_dist_int)
  then show ?thesis using assms(2) by (simp add: nearest_def Let_def)
qed

lemma nearest_behind:
  assumes "a mod 4096 = uint h" and "2048 < sn_dist h s"
  shows "nearest a s < a"
proof -
  have "(uint s - a) mod 4096 = int (sn_dist h s)" using assms(1) by (metis mod_diff_right_eq sn_dist_int)
  then show ?thesis using assms(2) sn_dist_less [of h s] by (simp add: nearest_def Let_def)
qed

text \<open>A slide of the ring is a release of the window whose waiting frames are those stored and added.\<close>

lemma slide_releases:
  assumes w: "window_wf t" and s: "slides_in add t [] n t' out" and n: "n \<le> 2112"
    and W: "next_num W = a" "\<And>x name. waiting W x = Some name \<longleftrightarrow>
      (\<exists>s. (name, s) \<in># stored_ids t + add \<and> x = a + int (sn_dist (head_seq_num t) s))"
  shows "window_release n W = (map (\<lambda>f. (a + int (sn_dist (head_seq_num t) (mpdu_sn f)), skb_id f)) out, window_of (a + int n) t')"
proof -
  let ?h = "head_seq_num t"
  let ?num = "\<lambda>f. a + int (sn_dist ?h (mpdu_sn f))"
  from s have w': "window_wf t'" and b: "buf_size t' = buf_size t"
    and h: "uint (head_seq_num t') = (uint ?h + int n) mod 4096"
    and srt: "sorted_wrt (<) (map (sn_dist ?h \<circ> mpdu_sn) out)"
    and lt: "\<And>f. f \<in> set out \<Longrightarrow> sn_dist ?h (mpdu_sn f) < n"
    and keys: "stored_ids t + add = stored_ids t' + image_mset frame_key (mset out)"
    by (auto simp: slides_in_def)
  have B: "unat (buf_size t') \<le> 64" using window_wf_reorder [OF w'] by (simp add: reorder_wf_def)
  have later: "sn_dist ?h s = sn_dist (head_seq_num t') s + n" if k: "(name, s) \<in># stored_ids t'" for name s
  proof -
    obtain f where "f \<in> set (concat (reorder_buf t'))" "mpdu_sn f = s" using k unfolding stored_key by blast
    then obtain i where "i < unat (buf_size t')" "f \<in> set (reorder_buf t' ! i)"
      using window_wf_reorder [OF w'] unfolding in_slots by (auto simp: reorder_wf_def)
    then have "sn_dist (head_seq_num t') s < 64" using window_slot(1) [OF w'] B \<open>mpdu_sn f = s\<close> by fastforce
    then show ?thesis using sn_dist_shift [OF h, of s] n by simp
  qed
  have split: "(name, s) \<in># stored_ids t + add \<longleftrightarrow> (name, s) \<in># stored_ids t' \<or> (\<exists>f \<in> set out. skb_id f = name \<and> mpdu_sn f = s)" for name s
    unfolding keys by (auto simp: frame_key_def)
  have rel: "waiting W (?num f) = Some (skb_id f)" if "f \<in> set out" for f
    unfolding W(2) split using that by blast
  have low: "x \<in> ?num ` set out \<longleftrightarrow> waiting W x \<noteq> None \<and> a \<le> x \<and> x < a + int n" for x
  proof
    assume "waiting W x \<noteq> None \<and> a \<le> x \<and> x < a + int n"
    then obtain name s where "(name, s) \<in># stored_ids t + add" "x = a + int (sn_dist ?h s)" "sn_dist ?h s < n"
      using W(2) by auto
    then show "x \<in> ?num ` set out" using later unfolding split by fastforce
  qed (use rel lt in force)
  have "map ?num out = filter (\<lambda>x. waiting W x \<noteq> None) [a..a + int n - 1]"
  proof (rule strict_sorted_equal)
    show "sorted_wrt (<) (map ?num out)" using srt by (simp add: sorted_wrt_map)
    show "sorted_wrt (<) (filter (\<lambda>x. waiting W x \<noteq> None) [a..a + int n - 1])"
      by (intro sorted_wrt_filter) (simp add: sorted_wrt_iff_nth_less)
    show "set (map ?num out) = set (filter (\<lambda>x. waiting W x \<noteq> None) [a..a + int n - 1])"
      using low by auto
  qed
  moreover have "map (\<lambda>f. (?num f, skb_id f)) out = map (\<lambda>x. (x, the (waiting W x))) (map ?num out)"
    using rel by simp
  ultimately have "map (\<lambda>x. (x, the (waiting W x))) (filter (\<lambda>x. waiting W x \<noteq> None) [a..a + int n - 1])
      = map (\<lambda>f. (?num f, skb_id f)) out" by simp
  moreover have "(\<lambda>x. if x < a + int n then None else waiting W x) = waiting (window_of (a + int n) t')"
  proof
    fix x
    have "(if x < a + int n then None else waiting W x) = Some name \<longleftrightarrow> waiting (window_of (a + int n) t') x = Some name" for name
    proof
      assume l: "(if x < a + int n then None else waiting W x) = Some name"
      then obtain s where s: "(name, s) \<in># stored_ids t + add" "x = a + int (sn_dist ?h s)" "n \<le> sn_dist ?h s"
        by (auto simp: W(2) split: if_splits)
      then have "(name, s) \<in># stored_ids t'" using lt unfolding split by fastforce
      then show "waiting (window_of (a + int n) t') x = Some name" using s(2) later by (fastforce simp: waiting_key [OF w'])
    next
      assume "waiting (window_of (a + int n) t') x = Some name"
      then obtain s where s: "(name, s) \<in># stored_ids t'" "x = a + int n + int (sn_dist (head_seq_num t') s)"
        by (auto simp: waiting_key [OF w'])
      then have x: "x = a + int (sn_dist ?h s)" "\<not> x < a + int n" using later by simp_all
      then have "waiting W x = Some name" using s(1) unfolding W(2) split by blast
      then show "(if x < a + int n then None else waiting W x) = Some name" using x(2) by simp
    qed
    then show "(if x < a + int n then None else waiting W x) = waiting (window_of (a + int n) t') x"
      by (metis option.exhaust)
  qed
  ultimately show ?thesis by (simp add: window_release_def W(1) Let_def window_of_def)
qed

text \<open>A session under way, without frames filtered by the driver, and no frame waiting at the head.\<close>

definition session_ok :: "tid_ampdu_rx \<Rightarrow> bool" where
  "session_ok t \<longleftrightarrow> window_wf t \<and> started t \<and> \<not> auto_seq t \<and> reorder_buf_filtered t = 0 \<and> head_clear t"

definition event_input :: "reorder_event \<Rightarrow> (u16 \<times> nat) option" where
  "event_input e = (case e of RxFrame now skb \<Rightarrow> Some (mpdu_sn skb, skb_id skb) | ReorderTimer now \<Rightarrow> None)"

text \<open>What is handed on at an event.\<close>

definition reorder_out :: "u64 \<Rightarrow> tid_ampdu_rx \<Rightarrow> reorder_event \<Rightarrow> skb list" where
  "reorder_out HZ t e =
     (case e of
        RxFrame now skb \<Rightarrow>
          (case ieee80211_sta_manage_reorder_buf now HZ skb (t, []) of
             Some (c, t', rel) \<Rightarrow> delivered c skb rel | None \<Rightarrow> [])
      | ReorderTimer now \<Rightarrow>
          (case ieee80211_release_reorder_timeout now HZ t of Some (t', rel) \<Rightarrow> rel | None \<Rightarrow> []))"

fun reorder_outs :: "u64 \<Rightarrow> tid_ampdu_rx \<Rightarrow> reorder_event list \<Rightarrow> skb list list" where
  "reorder_outs HZ t [] = []"
| "reorder_outs HZ t (e # es) = reorder_out HZ t e # reorder_outs HZ (reorder_step HZ t e) es"

lemma session_ok_step:
  assumes ok: "session_ok t" and a: "whole_mpdu e"
  shows "\<exists>n kept. n \<le> 2112 \<and> session_ok (reorder_step HZ t e) \<and>
    slides_in (case e of RxFrame now skb \<Rightarrow> if kept then {#frame_key skb#} else {#} | ReorderTimer now \<Rightarrow> {#})
      t [] n (reorder_step HZ t e) (reorder_out HZ t e) \<and>
    (\<forall>now skb. e = RxFrame now skb \<longrightarrow> (kept \<longleftrightarrow> \<not> ieee80211_sn_less (mpdu_sn skb) (head_seq_num t) \<and>
       (\<forall>f \<in> set (concat (reorder_buf t)). mpdu_sn f \<noteq> mpdu_sn skb)))"
proof (cases e)
  case (RxFrame now skb)
  obtain c t' rel n kept where m: "ieee80211_sta_manage_reorder_buf now HZ skb (t, []) = Some (c, t', rel)" "n \<le> 2112"
    "slides_in (if kept then {#frame_key skb#} else {#}) t [] n t' (delivered c skb rel)" "head_clear t'"
    "kept \<longleftrightarrow> \<not> ieee80211_sn_less (mpdu_sn skb) (head_seq_num t) \<and>
       (\<forall>f \<in> set (concat (reorder_buf t)). mpdu_sn f \<noteq> mpdu_sn skb)"
  proof -
    have p: "window_wf t" "started t" "\<not> auto_seq t" "\<not> amsdu_more skb" "reorder_buf_filtered t = 0" "head_clear t"
      using ok a by (simp_all add: session_ok_def whole_mpdu_def RxFrame)
    show thesis using manage_slides [OF p(1-4), of now HZ] p(5,6) that by blast
  qed
  have "session_ok t'" using ok m manage_session [OF m(1)] by (simp add: session_ok_def slides_in_def)
  then show ?thesis using m
    by (intro exI [of _ n] exI [of _ kept]) (simp add: RxFrame reorder_step_def reorder_out_def del: set_concat)
next
  case (ReorderTimer now)
  obtain t' rel n where m: "ieee80211_sta_reorder_release now HZ (t, []) = Some (t', rel)" "n \<le> 64" "slides t [] n t' rel" "head_clear t'"
    using reorder_release_slides [of t now HZ "[]"] ok by (auto simp: session_ok_def)
  have "session_ok t'" using ok m reorder_release_session [OF m(1)] by (simp add: session_ok_def slides_def session_of_def)
  then show ?thesis using m
    by (auto simp: ReorderTimer reorder_step_def reorder_out_def ieee80211_release_reorder_timeout_def intro!: exI [of _ n])
qed

lemma clear_waits:
  assumes "window_wf t" and "head_clear t"
  shows "waiting (window_of a t) a = None"
proof (rule ccontr)
  assume "waiting (window_of a t) a \<noteq> None"
  then obtain name f where "f \<in> set (concat (reorder_buf t))" "sn_dist (head_seq_num t) (mpdu_sn f) = 0"
    using window_of_waiting [OF assms(1)] by fastforce
  then show False using assms(2) unfolding head_clear_def by fastforce
qed

lemma frame_taken:
  assumes w: "window_wf t" and a: "a mod 4096 = uint (head_seq_num t)"
    and kept: "kept \<longleftrightarrow> \<not> ieee80211_sn_less (mpdu_sn skb) (head_seq_num t) \<and>
       (\<forall>f \<in> set (concat (reorder_buf t)). mpdu_sn f \<noteq> mpdu_sn skb)"
  defines "W \<equiv> window_take (nearest a (mpdu_sn skb)) (skb_id skb) (window_of a t)"
  shows "waiting W x = Some name \<longleftrightarrow> (\<exists>s. (name, s) \<in># stored_ids t + (if kept then {#frame_key skb#} else {#}) \<and>
    x = a + int (sn_dist (head_seq_num t) s))"
proof -
  let ?h = "head_seq_num t" and ?s = "mpdu_sn skb"
  show ?thesis
  proof (cases "ieee80211_sn_less ?s ?h")
    case True
    then show ?thesis using kept nearest_behind [OF a] by (simp add: W_def window_take_def sn_less_dist waiting_key [OF w])
  next
    case False
    then have n: "nearest a ?s = a + int (sn_dist ?h ?s)" using nearest_ahead [OF a] by (simp add: sn_less_dist)
    have i: "waiting (window_of a t) (nearest a ?s) = None \<longleftrightarrow> kept"
    proof -
      have "(\<exists>name. waiting (window_of a t) (nearest a ?s) = Some name) \<longleftrightarrow>
          (\<exists>f \<in> set (concat (reorder_buf t)). sn_dist ?h (mpdu_sn f) = sn_dist ?h ?s)"
        unfolding window_of_waiting [OF w] n by (simp del: set_concat) metis
      also have "\<dots> \<longleftrightarrow> (\<exists>f \<in> set (concat (reorder_buf t)). mpdu_sn f = ?s)"
        using sn_dist_inj [of ?h] mpdu_sn_int by metis
      finally show ?thesis using kept False by (auto simp del: set_concat)
    qed
    show ?thesis
    proof (cases kept)
      case True
      have wx: "waiting W x = (if x = nearest a ?s then Some (skb_id skb) else waiting (window_of a t) x)"
        using True i n by (simp add: W_def window_take_def)
      have new: "(name, ?s) \<notin># stored_ids t" using True kept unfolding stored_key by blast
      have m: "(name, s) \<in># stored_ids t + (if kept then {#frame_key skb#} else {#}) \<longleftrightarrow>
          (name = skb_id skb \<and> s = ?s) \<or> (name, s) \<in># stored_ids t" for s
        using True by (auto simp: frame_key_def)
      have u: "s = ?s" if "(name, s) \<in># stored_ids t" "sn_dist ?h s = sn_dist ?h ?s" for s
        using sn_dist_inj [OF that(2)] that(1) mpdu_sn_int unfolding stored_key by blast
      show ?thesis
      proof (cases "x = nearest a ?s")
        case True
        then show ?thesis unfolding wx m n using new u by auto
      next
        case False
        then show ?thesis unfolding wx m using n waiting_key [OF w, of a x name] by auto
      qed
    next
      case False
      then show ?thesis using i by (simp add: W_def window_take_def waiting_key [OF w])
    qed
  qed
qed

text \<open>What is handed on, with its absolute numbers.\<close>

definition numbered :: "int \<Rightarrow> u16 \<Rightarrow> skb list \<Rightarrow> (int \<times> nat) list" where
  "numbered a h out = map (\<lambda>f. (a + int (sn_dist h (mpdu_sn f)), skb_id f)) out"

lemma reorder_step_simulates:
  assumes ok: "session_ok t" and a: "a mod 4096 = uint (head_seq_num t)" and e: "whole_mpdu e"
  shows "\<exists>n. window_step (window_of a t) (event_input e) (numbered a (head_seq_num t) (reorder_out HZ t e))
      (window_of (a + int n) (reorder_step HZ t e)) \<and>
    (a + int n) mod 4096 = uint (head_seq_num (reorder_step HZ t e)) \<and> session_ok (reorder_step HZ t e)"
proof -
  let ?t = "reorder_step HZ t e" and ?out = "reorder_out HZ t e"
  have w: "window_wf t" using ok by (simp add: session_ok_def)
  obtain n kept where s: "n \<le> 2112" "session_ok ?t"
    "slides_in (case e of RxFrame now skb \<Rightarrow> if kept then {#frame_key skb#} else {#} | ReorderTimer now \<Rightarrow> {#}) t [] n ?t ?out"
    and kept: "\<And>now skb. e = RxFrame now skb \<Longrightarrow> kept \<longleftrightarrow> \<not> ieee80211_sn_less (mpdu_sn skb) (head_seq_num t) \<and>
       (\<forall>f \<in> set (concat (reorder_buf t)). mpdu_sn f \<noteq> mpdu_sn skb)"
    using session_ok_step [OF ok e, of HZ] by blast
  have h: "(a + int n) mod 4096 = uint (head_seq_num ?t)"
  proof -
    have "uint (head_seq_num ?t) = (uint (head_seq_num t) + int n) mod 4096" using s(3) unfolding slides_in_def by blast
    then show ?thesis by (simp add: a [symmetric] mod_simps)
  qed
  have c: "waiting (window_of (a + int n) ?t) (a + int n) = None"
    using clear_waits s(2) by (simp add: session_ok_def)
  have "window_step (window_of a t) (event_input e) (numbered a (head_seq_num t) ?out) (window_of (a + int n) ?t)"
  proof (cases e)
    case (RxFrame now skb)
    have "window_release n (window_take (nearest (next_num (window_of a t)) (mpdu_sn skb)) (skb_id skb) (window_of a t))
        = (numbered a (head_seq_num t) ?out, window_of (a + int n) ?t)"
      unfolding numbered_def window_of_next
      by (rule slide_releases [OF w s(3) s(1)])
        (use frame_taken [OF w a kept [OF RxFrame]] in \<open>simp_all add: RxFrame\<close>)
    then show ?thesis using c by (simp add: event_input_def RxFrame window_step.frame)
  next
    case (ReorderTimer now)
    have "window_release n (window_of a t) = (numbered a (head_seq_num t) ?out, window_of (a + int n) ?t)"
      unfolding numbered_def
      by (rule slide_releases [OF w s(3) s(1)]) (use waiting_key [OF w] in \<open>simp_all add: ReorderTimer\<close>)
    then show ?thesis using c by (simp add: event_input_def ReorderTimer window_step.timer)
  qed
  then show ?thesis using h s(2) by blast
qed

text \<open>C5: Refinement: every run of the ring with its 12-bit numbers, over any frames (whole MPDUs) and
  timer expiries, is a run of the unbounded ordered window: the window takes in the same frames under the absolute
  numbers closest to it, and hands on what the ring hands on. So over the whole run
  the absolute numbers of the frames handed on strictly increase, however often the 12 bits wrap,
  and no frame waits while its number is the next one.\<close>

theorem reorder_refines_window:
  assumes "session_ok t" and "a mod 4096 = uint (head_seq_num t)" and "list_all whole_mpdu events"
  shows "\<exists>outs a'. window_run (window_of a t) (map event_input events) outs (window_of a' (run (reorder_step HZ) t events)) \<and>
    list_all2 (\<lambda>out fs. list_all2 (\<lambda>(n, name) f. skb_id f = name \<and> uint (mpdu_sn f) = n mod 4096) out fs)
      outs (reorder_outs HZ t events) \<and>
    sorted_wrt (<) (map fst (concat outs))"
proof -
  have "\<exists>outs a'. window_run (window_of a t) (map event_input events) outs (window_of a' (run (reorder_step HZ) t events)) \<and>
    list_all2 (\<lambda>out fs. list_all2 (\<lambda>(n, name) f. skb_id f = name \<and> uint (mpdu_sn f) = n mod 4096) out fs)
      outs (reorder_outs HZ t events)"
    using assms
  proof (induction events arbitrary: t a)
    case Nil
    then show ?case using window_run.nothing by fastforce
  next
    case (Cons e es)
    obtain n where n: "window_step (window_of a t) (event_input e) (numbered a (head_seq_num t) (reorder_out HZ t e))
        (window_of (a + int n) (reorder_step HZ t e))"
      "(a + int n) mod 4096 = uint (head_seq_num (reorder_step HZ t e))" "session_ok (reorder_step HZ t e)"
      using reorder_step_simulates [OF Cons.prems(1,2)] Cons.prems(3) by auto
    obtain outs a' where r: "window_run (window_of (a + int n) (reorder_step HZ t e)) (map event_input es) outs
        (window_of a' (run (reorder_step HZ) (reorder_step HZ t e) es))"
      "list_all2 (\<lambda>out fs. list_all2 (\<lambda>(n, name) f. skb_id f = name \<and> uint (mpdu_sn f) = n mod 4096) out fs)
        outs (reorder_outs HZ (reorder_step HZ t e) es)"
      using Cons.IH [OF n(3,2)] Cons.prems(3) by auto
    have "uint (mpdu_sn f) = (a + int (sn_dist (head_seq_num t) (mpdu_sn f))) mod 4096" for f
      using sn_dist_back [OF mpdu_sn_int, of f "head_seq_num t"] Cons.prems(2) by (metis mod_add_left_eq)
    then have "list_all2 (\<lambda>(n, name) f. skb_id f = name \<and> uint (mpdu_sn f) = n mod 4096)
        (numbered a (head_seq_num t) out) out" for out
      by (simp add: numbered_def list_all2_conv_all_nth)
    then show ?case using window_run.input [OF n(1) r(1)] r(2) by fastforce
  qed
  then show ?thesis using window_run_ordered by blast
qed

lemma sample_session_ok: "session_ok sample_session"
  using sample_window
  by (simp add: session_ok_def head_clear_def) (simp add: sample_session_def new_tid_rx_def)

theorem reorder_refines_window_witness:
  "\<exists>outs a'. window_run (window_of 8192 sample_session) [Some (1, 1), Some (0, 0)] outs
      (window_of a' (run (reorder_step 100) sample_session [RxFrame 5 (sample_frame 1 False), RxFrame 5 (sample_frame 0 False)])) \<and>
    map (map snd) outs = [[], [0, 1]] \<and> sorted_wrt (<) (map fst (concat outs))"
proof -
  let ?es = "[RxFrame 5 (sample_frame 1 False), RxFrame 5 (sample_frame 0 False)]"
  have "list_all whole_mpdu ?es" by (simp add: whole_mpdu_def sample_frame_def)
  from reorder_refines_window [OF sample_session_ok _ this, of 8192 100] obtain outs a' where
    r: "window_run (window_of 8192 sample_session) (map event_input ?es) outs (window_of a' (run (reorder_step 100) sample_session ?es))"
    "list_all2 (\<lambda>out fs. list_all2 (\<lambda>(n, name) f. skb_id f = name \<and> uint (mpdu_sn f) = n mod 4096) out fs)
      outs (reorder_outs 100 sample_session ?es)" "sorted_wrt (<) (map fst (concat outs))"
    by (auto simp: sample_session_def new_tid_rx_def)
  have "reorder_outs 100 sample_session ?es = [[], map (\<lambda>s. s\<lparr>deferred_release := True\<rparr>) [sample_frame 0 False, sample_frame 1 False]]"
    using sample1 sample2 by (simp add: reorder_out_def reorder_step_def delivered_def)
  then have "map (map snd) outs = [[], [0, 1]]" using r(2) by (auto simp: list_all2_Cons2 sample_frame_def)
  moreover have "map event_input ?es = [Some (1, 1), Some (0, 0)]" by code_simp
  ultimately show ?thesis using r(1,3) by auto
qed

end
