(* ===== verification/MeshPs.thy ===== *)
theory MeshPs
  imports Chandef Frames
begin

text \<open>
  Mesh interfaces: their stations, the counting of peer links (net/mac80211/mesh.h, mesh.c), the
  protection modes (mesh_plink.c) and mesh power save (mesh_ps.c). A station is referred to by
  its place in the interface's list. What leaves the interface (frames, wake-ups of queues, flushed
  paths) is appended to a log.
\<close>

section \<open>Constants and enumerations\<close>

datatype nl80211_plink_state =
    NL80211_PLINK_LISTEN | NL80211_PLINK_OPN_SNT | NL80211_PLINK_OPN_RCVD | NL80211_PLINK_CNF_RCVD
  | NL80211_PLINK_ESTAB | NL80211_PLINK_HOLDING | NL80211_PLINK_BLOCKED

datatype nl80211_mesh_power_mode =
    NL80211_MESH_POWER_UNKNOWN | NL80211_MESH_POWER_ACTIVE | NL80211_MESH_POWER_LIGHT_SLEEP
  | NL80211_MESH_POWER_DEEP_SLEEP

datatype ieee80211_sta_info_flags =
    WLAN_STA_AUTH | WLAN_STA_ASSOC | WLAN_STA_PS_STA | WLAN_STA_PS_DRIVER | WLAN_STA_AUTHORIZED
  | WLAN_STA_PSPOLL | WLAN_STA_UAPSD | WLAN_STA_SP | WLAN_STA_MPSP_OWNER | WLAN_STA_MPSP_RECIPIENT
  | WLAN_STA_PS_DELIVER

datatype ieee80211_sta_state =
    IEEE80211_STA_NOTEXIST | IEEE80211_STA_NONE | IEEE80211_STA_AUTH | IEEE80211_STA_ASSOC | IEEE80211_STA_AUTHORIZED

datatype ieee80211_sta_rx_bandwidth =
    IEEE80211_STA_RX_BW_20 | IEEE80211_STA_RX_BW_40 | IEEE80211_STA_RX_BW_80 | IEEE80211_STA_RX_BW_160

datatype ieee80211_self_protected_actioncode =
    WLAN_SP_MESH_PEERING_OPEN | WLAN_SP_MESH_PEERING_CONFIRM | WLAN_SP_MESH_PEERING_CLOSE

definition BSS_CHANGED_ERP_SLOT :: u32 where "BSS_CHANGED_ERP_SLOT = 8"
definition BSS_CHANGED_HT :: u32 where "BSS_CHANGED_HT = 16"
definition BSS_CHANGED_BEACON :: u32 where "BSS_CHANGED_BEACON = 256"
definition IEEE80211_HT_OP_MODE_PROTECTION_NONE :: u16 where "IEEE80211_HT_OP_MODE_PROTECTION_NONE = 0"
definition IEEE80211_HT_OP_MODE_PROTECTION_20MHZ :: u16 where "IEEE80211_HT_OP_MODE_PROTECTION_20MHZ = 2"
definition IEEE80211_HT_OP_MODE_PROTECTION_NONHT_MIXED :: u16 where "IEEE80211_HT_OP_MODE_PROTECTION_NONHT_MIXED = 3"
definition IEEE80211_RATE_ERP_G :: u32 where "IEEE80211_RATE_ERP_G = 16"
definition MESH_MAX_PLINKS :: nat where "MESH_MAX_PLINKS = 256"
definition IEEE80211_QOS_CTL_MESH_PS_LEVEL :: u16 where "IEEE80211_QOS_CTL_MESH_PS_LEVEL = 0x0200"
definition IEEE80211_QOS_CTL_RSPI :: u16 where "IEEE80211_QOS_CTL_RSPI = 0x0400"
definition IEEE80211_QOS_CTL_EOSP :: u16 where "IEEE80211_QOS_CTL_EOSP = 0x0010"

section \<open>Stations and the interface\<close>

text \<open>
  \<open>struct mesh_sta\<close> with what is read of its \<open>struct sta_info\<close>. The timer is when it
  expires and whether it is pending.
\<close>

record mesh_sta =
  ms_addr :: "u8 list"
  ms_flags :: "ieee80211_sta_info_flags \<Rightarrow> bool"
  ms_sta_state :: ieee80211_sta_state
  ms_sta_aid :: u16
  ms_supp_rates :: u32
  ms_bandwidth :: ieee80211_sta_rx_bandwidth
  ms_ht_supported :: bool
  ms_rssi :: int
  ms_last_rx :: u64
  ms_last_ack :: u64
  ms_llid :: u16
  ms_plid :: u16
  ms_aid :: u16
  ms_reason :: u16
  ms_plink_retries :: u8
  ms_processed_beacon :: bool
  ms_connected_to_gate :: bool
  ms_plink_state :: nl80211_plink_state
  ms_plink_timeout :: u32
  ms_timer_expires :: u64
  ms_timer_pending :: bool
  ms_local_pm :: nl80211_mesh_power_mode
  ms_peer_pm :: nl80211_mesh_power_mode
  ms_nonpeer_pm :: nl80211_mesh_power_mode

record mesh_config =
  dot11MeshRetryTimeout :: u16
  dot11MeshConfirmTimeout :: u16
  dot11MeshHoldingTimeout :: u16
  dot11MeshMaxPeerLinks :: u16
  dot11MeshMaxRetries :: u8
  auto_open_plinks :: bool
  rssi_threshold :: int
  ht_opmode :: u16
  power_mode :: nl80211_mesh_power_mode

text \<open>
  A peering frame is its peering element, and for a confirm the association ID it carries.
\<close>

datatype mesh_effect =
    PlinkFrame ieee80211_self_protected_actioncode "u8 list" u16 "u8 list"
  | QosNull "u8 list"
  | FlushPaths "u8 list"
  | StaAwake "u8 list"
  | MpspDeliver "u8 list"
  | FrameRelease "u8 list"
  | PeerCandidate "u8 list"
  | InfoChanged u32

text \<open>
  \<open>struct ieee80211_sub_if_data\<close> with \<open>u.mesh\<close> and \<open>vif.bss_conf\<close>. Of the stations of other
  interfaces only the association IDs are kept; \<open>mi_num_sta\<close> is the device's \<open>num_sta\<close>.
  \<open>mi_config_ids\<close> are the identifiers of the path selection protocol, the metric, congestion control,
  synchronisation and authentication. \<open>mi_ctx_def\<close> is the definition of the channel context.
\<close>

record mesh_if =
  mi_stas :: "mesh_sta list"
  mi_num_sta :: nat
  mi_other_aids :: "u16 list"
  mi_sband :: "ieee80211_supported_band option"
  mi_chandef :: cfg80211_chan_def
  mi_ctx_def :: "cfg80211_chan_def option"
  mi_basic_rates :: u32
  mi_ht_operation_mode :: u16
  mi_use_short_slot :: bool
  mi_mshcfg :: mesh_config
  mi_mesh_id :: "u8 list"
  mi_config_ids :: "u8 list"
  mi_estab_plinks :: int
  mi_accepting_plinks :: bool
  mi_security :: u8
  mi_user_mpm :: bool
  mi_nonpeer_pm :: nl80211_mesh_power_mode
  mi_ps_peers_light_sleep :: nat
  mi_ps_peers_deep_sleep :: nat
  mi_num_sta_ps :: int
  mi_log :: "mesh_effect list"

definition sta_upd :: "nat \<Rightarrow> (mesh_sta \<Rightarrow> mesh_sta) \<Rightarrow> mesh_if \<Rightarrow> mesh_if" where
  "sta_upd i f m = m\<lparr>mi_stas := (mi_stas m)[i := f (mi_stas m ! i)]\<rparr>"

definition sta_of :: "nat \<Rightarrow> mesh_if \<Rightarrow> mesh_sta" where
  "sta_of i m = mi_stas m ! i"

definition log_effect :: "mesh_effect \<Rightarrow> mesh_if \<Rightarrow> mesh_if" where
  "log_effect e m = m\<lparr>mi_log := mi_log m @ [e]\<rparr>"

definition test_sta_flag :: "mesh_sta \<Rightarrow> ieee80211_sta_info_flags \<Rightarrow> bool" where
  "test_sta_flag s f = ms_flags s f"

definition set_sta_flag :: "ieee80211_sta_info_flags \<Rightarrow> mesh_sta \<Rightarrow> mesh_sta" where
  "set_sta_flag f s = s\<lparr>ms_flags := (ms_flags s)(f := True)\<rparr>"

definition clear_sta_flag :: "ieee80211_sta_info_flags \<Rightarrow> mesh_sta \<Rightarrow> mesh_sta" where
  "clear_sta_flag f s = s\<lparr>ms_flags := (ms_flags s)(f := False)\<rparr>"

section \<open>Counting links\<close>

definition mesh_plink_free_count :: "mesh_if \<Rightarrow> int" where
  "mesh_plink_free_count m = uint (dot11MeshMaxPeerLinks (mi_mshcfg m)) - mi_estab_plinks m"

definition mesh_plink_availables :: "mesh_if \<Rightarrow> bool" where
  "mesh_plink_availables m \<longleftrightarrow> min (mesh_plink_free_count m) (int MESH_MAX_PLINKS - int (mi_num_sta m)) > 0"

definition mesh_accept_plinks_update :: "mesh_if \<Rightarrow> u32 \<times> mesh_if" where
  "mesh_accept_plinks_update m =
     (let free_plinks = mesh_plink_availables m in
      if free_plinks \<noteq> mi_accepting_plinks m then (BSS_CHANGED_BEACON, m\<lparr>mi_accepting_plinks := free_plinks\<rparr>)
      else (0, m))"

definition mesh_plink_inc_estab_count :: "mesh_if \<Rightarrow> u32 \<times> mesh_if" where
  "mesh_plink_inc_estab_count m =
     (let (changed, m) = mesh_accept_plinks_update (m\<lparr>mi_estab_plinks := mi_estab_plinks m + 1\<rparr>)
      in (changed OR BSS_CHANGED_BEACON, m))"

definition mesh_plink_dec_estab_count :: "mesh_if \<Rightarrow> u32 \<times> mesh_if" where
  "mesh_plink_dec_estab_count m =
     (let (changed, m) = mesh_accept_plinks_update (m\<lparr>mi_estab_plinks := mi_estab_plinks m - 1\<rparr>)
      in (changed OR BSS_CHANGED_BEACON, m))"

section \<open>Protection modes\<close>

definition established :: "mesh_sta \<Rightarrow> bool" where
  "established s \<longleftrightarrow> ms_plink_state s = NL80211_PLINK_ESTAB"

text \<open>The rates of the band that are ERP rates, and the loop over the established peers.\<close>

definition erp_rates :: "ieee80211_supported_band \<Rightarrow> u32" where
  "erp_rates sband = foldr (OR) (map (\<lambda>i. if flag_set (r_flags (sb_bitrates sband ! i)) IEEE80211_RATE_ERP_G then BIT i else 0)
     [0..<length (sb_bitrates sband)]) 0"

fun short_slot_walk :: "u32 \<Rightarrow> mesh_sta list \<Rightarrow> bool \<Rightarrow> bool" where
  "short_slot_walk erp [] short_slot = short_slot"
| "short_slot_walk erp (s # ss) short_slot =
     (if \<not> established s then short_slot_walk erp ss short_slot
      else if erp AND ms_supp_rates s \<noteq> 0 then short_slot_walk erp ss True
      else False)"

definition mesh_set_short_slot_time :: "mesh_if \<Rightarrow> u32 \<times> mesh_if" where
  "mesh_set_short_slot_time m =
     (case mi_sband m of
        None \<Rightarrow> (0, m)
      | Some sband \<Rightarrow>
          let short_slot =
                (if sb_band sband = NL80211_BAND_5GHZ then True
                 else if sb_band sband \<noteq> NL80211_BAND_2GHZ then False
                 else if erp_rates sband = 0 then False
                 else short_slot_walk (erp_rates sband) (mi_stas m) False)
          in if mi_use_short_slot m \<noteq> short_slot then (BSS_CHANGED_ERP_SLOT, m\<lparr>mi_use_short_slot := short_slot\<rparr>)
             else (0, m))"

text \<open>Whether a peer without HT, and whether one of 20 MHz, is met; the walk stops at the first without HT.\<close>

fun ht_prot_walk :: "mesh_sta list \<Rightarrow> bool \<Rightarrow> bool \<times> bool" where
  "ht_prot_walk [] ht20_sta = (False, ht20_sta)"
| "ht_prot_walk (s # ss) ht20_sta =
     (if \<not> established s \<or> ms_bandwidth s \<noteq> IEEE80211_STA_RX_BW_20 then ht_prot_walk ss ht20_sta
      else if \<not> ms_ht_supported s then (True, ht20_sta)
      else ht_prot_walk ss True)"

definition mesh_set_ht_prot_mode :: "mesh_if \<Rightarrow> u32 \<times> mesh_if" where
  "mesh_set_ht_prot_mode m =
     (if cd_width (mi_chandef m) \<in> {NL80211_CHAN_WIDTH_20_NOHT, NL80211_CHAN_WIDTH_5, NL80211_CHAN_WIDTH_10} then (0, m)
      else
        let (non_ht_sta, ht20_sta) = ht_prot_walk (mi_stas m) False;
            mode = (if non_ht_sta then IEEE80211_HT_OP_MODE_PROTECTION_NONHT_MIXED
                    else if ht20_sta \<and> cd_width (mi_chandef m) > NL80211_CHAN_WIDTH_20
                    then IEEE80211_HT_OP_MODE_PROTECTION_20MHZ
                    else IEEE80211_HT_OP_MODE_PROTECTION_NONE)
        in if mi_ht_operation_mode m = mode then (0, m)
           else (BSS_CHANGED_HT, m\<lparr>mi_ht_operation_mode := mode, mi_mshcfg := (mi_mshcfg m)\<lparr>ht_opmode := mode\<rparr>\<rparr>))"

section \<open>Power save\<close>

definition mid_peering :: "mesh_sta \<Rightarrow> bool" where
  "mid_peering s \<longleftrightarrow> ms_plink_state s \<in> {NL80211_PLINK_OPN_SNT, NL80211_PLINK_OPN_RCVD, NL80211_PLINK_CNF_RCVD}"

definition sleep_count :: "nl80211_mesh_power_mode \<Rightarrow> mesh_if \<Rightarrow> nat" where
  "sleep_count pm m = length (filter (\<lambda>s. established s \<and> ms_local_pm s = pm) (mi_stas m))"

definition ieee80211_mps_local_status_update :: "mesh_if \<Rightarrow> u32 \<times> mesh_if" where
  "ieee80211_mps_local_status_update m =
     (let light_sleep_cnt = sleep_count NL80211_MESH_POWER_LIGHT_SLEEP m;
          deep_sleep_cnt = sleep_count NL80211_MESH_POWER_DEEP_SLEEP m;
          nonpeer_pm =
            (if list_ex mid_peering (mi_stas m) then NL80211_MESH_POWER_ACTIVE
             else if light_sleep_cnt \<noteq> 0 \<or> deep_sleep_cnt \<noteq> 0 then NL80211_MESH_POWER_DEEP_SLEEP
             else power_mode (mi_mshcfg m));
          changed =
            (if mi_nonpeer_pm m \<noteq> nonpeer_pm \<or> (mi_ps_peers_light_sleep m = 0) \<noteq> (light_sleep_cnt = 0) \<or>
                (mi_ps_peers_deep_sleep m = 0) \<noteq> (deep_sleep_cnt = 0)
             then BSS_CHANGED_BEACON else 0)
      in (changed, m\<lparr>mi_nonpeer_pm := nonpeer_pm, mi_ps_peers_light_sleep := light_sleep_cnt,
                     mi_ps_peers_deep_sleep := deep_sleep_cnt\<rparr>))"

definition ieee80211_mps_set_sta_local_pm :: "nat \<Rightarrow> nl80211_mesh_power_mode \<Rightarrow> mesh_if \<Rightarrow> u32 \<times> mesh_if" where
  "ieee80211_mps_set_sta_local_pm i pm m =
     (if ms_local_pm (sta_of i m) = pm then (0, m)
      else
        let m = sta_upd i (\<lambda>s. s\<lparr>ms_local_pm := pm\<rparr>) m;
            m = (if established (sta_of i m) then log_effect (QosNull (ms_addr (sta_of i m))) m else m)
        in ieee80211_mps_local_status_update m)"

text \<open>The flags and the counter that \<open>ieee80211_sta_ps_deliver_wakeup\<close> (sta_info.c) resets for a mesh interface.\<close>

definition ieee80211_sta_ps_deliver_wakeup :: "nat \<Rightarrow> mesh_if \<Rightarrow> mesh_if" where
  "ieee80211_sta_ps_deliver_wakeup i m =
     log_effect (StaAwake (ms_addr (sta_of i m)))
       ((sta_upd i (\<lambda>s. clear_sta_flag WLAN_STA_UAPSD (clear_sta_flag WLAN_STA_PSPOLL
           (clear_sta_flag WLAN_STA_PS_DELIVER (clear_sta_flag WLAN_STA_SP s)))) m)
         \<lparr>mi_num_sta_ps := mi_num_sta_ps m - 1\<rparr>)"

definition ieee80211_mps_sta_status_update :: "nat \<Rightarrow> mesh_if \<Rightarrow> mesh_if" where
  "ieee80211_mps_sta_status_update i m =
     (let s = sta_of i m in
      if ms_sta_state s \<in> {IEEE80211_STA_NOTEXIST, IEEE80211_STA_NONE, IEEE80211_STA_AUTH} then m
      else
        let pm = (if established s \<and> ms_peer_pm s \<noteq> NL80211_MESH_POWER_UNKNOWN then ms_peer_pm s else ms_nonpeer_pm s);
            do_buffer = (pm \<noteq> NL80211_MESH_POWER_ACTIVE);
            m = (if \<not> established s
                 then sta_upd i (\<lambda>s. clear_sta_flag WLAN_STA_MPSP_RECIPIENT (clear_sta_flag WLAN_STA_MPSP_OWNER s)) m
                 else if \<not> do_buffer then sta_upd i (clear_sta_flag WLAN_STA_MPSP_OWNER) m
                 else m)
        in if test_sta_flag (sta_of i m) WLAN_STA_PS_STA = do_buffer then m
           else if do_buffer then (sta_upd i (set_sta_flag WLAN_STA_PS_STA) m)\<lparr>mi_num_sta_ps := mi_num_sta_ps m + 1\<rparr>
           else ieee80211_sta_ps_deliver_wakeup i m)"

text \<open>The power mode a received frame announces.\<close>

definition ieee80211_has_pm :: "u16 \<Rightarrow> bool" where
  "ieee80211_has_pm fc \<longleftrightarrow> fc AND IEEE80211_FCTL_PM \<noteq> 0"

definition mps_set_sta_peer_pm :: "nat \<Rightarrow> u16 \<Rightarrow> u8 \<times> u8 \<Rightarrow> mesh_if \<Rightarrow> mesh_if" where
  "mps_set_sta_peer_pm i fc qc m =
     (let pm = (if ieee80211_has_pm fc
                then (if snd qc AND ucast (drop_bit 8 IEEE80211_QOS_CTL_MESH_PS_LEVEL) \<noteq> 0
                      then NL80211_MESH_POWER_DEEP_SLEEP else NL80211_MESH_POWER_LIGHT_SLEEP)
                else NL80211_MESH_POWER_ACTIVE)
      in if ms_peer_pm (sta_of i m) = pm then m
         else ieee80211_mps_sta_status_update i (sta_upd i (\<lambda>s. s\<lparr>ms_peer_pm := pm\<rparr>) m))"

definition mps_set_sta_nonpeer_pm :: "nat \<Rightarrow> u16 \<Rightarrow> mesh_if \<Rightarrow> mesh_if" where
  "mps_set_sta_nonpeer_pm i fc m =
     (let pm = (if ieee80211_has_pm fc then NL80211_MESH_POWER_DEEP_SLEEP else NL80211_MESH_POWER_ACTIVE)
      in if ms_nonpeer_pm (sta_of i m) = pm then m
         else ieee80211_mps_sta_status_update i (sta_upd i (\<lambda>s. s\<lparr>ms_nonpeer_pm := pm\<rparr>) m))"

definition ieee80211_mpsp_trigger_process :: "u8 \<times> u8 \<Rightarrow> nat \<Rightarrow> bool \<Rightarrow> bool \<Rightarrow> mesh_if \<Rightarrow> mesh_if" where
  "ieee80211_mpsp_trigger_process qc i tx acked m =
     (let rspi = (snd qc AND ucast (drop_bit 8 IEEE80211_QOS_CTL_RSPI) \<noteq> 0);
          eosp = (fst qc AND ucast IEEE80211_QOS_CTL_EOSP \<noteq> 0);
          deliver = (\<lambda>m. if test_sta_flag (sta_of i m) WLAN_STA_MPSP_OWNER then m
                         else log_effect (MpspDeliver (ms_addr (sta_of i m))) (sta_upd i (set_sta_flag WLAN_STA_MPSP_OWNER) m))
      in if tx then
           let m = (if rspi \<and> acked then sta_upd i (set_sta_flag WLAN_STA_MPSP_RECIPIENT) m else m)
           in if eosp then sta_upd i (clear_sta_flag WLAN_STA_MPSP_OWNER) m
              else if acked \<and> test_sta_flag (sta_of i m) WLAN_STA_PS_STA then deliver m
              else m
         else
           let m = (if eosp then sta_upd i (clear_sta_flag WLAN_STA_MPSP_RECIPIENT) m
                    else if ms_local_pm (sta_of i m) \<noteq> NL80211_MESH_POWER_ACTIVE
                    then sta_upd i (set_sta_flag WLAN_STA_MPSP_RECIPIENT) m
                    else m)
           in if rspi then deliver m else m)"

definition ieee80211_mps_rx_h_sta_process :: "nat \<Rightarrow> bool \<Rightarrow> u16 \<Rightarrow> u8 \<times> u8 \<Rightarrow> mesh_if \<Rightarrow> mesh_if" where
  "ieee80211_mps_rx_h_sta_process i unicast fc qc m =
     (if unicast \<and> ieee80211_is_data_qos fc
      then ieee80211_mpsp_trigger_process qc i False False (mps_set_sta_peer_pm i fc qc m)
      else mps_set_sta_nonpeer_pm i fc m)"

end
