(* ===== verification/MeshConf.thy ===== *)
theory MeshConf
  imports MeshPs
begin

text \<open>
  What a mesh station tells about itself: the elements of its beacons and peering frames, its rates
  (\<open>ieee80211_sta_get_rates\<close>), the channel its HT and VHT operation elements stand for (net/mac80211/util.c), and
  whether its configuration is ours (mesh.c).
\<close>

section \<open>The elements\<close>

record meshconf_ie =
  meshconf_psel :: u8
  meshconf_pmetric :: u8
  meshconf_congest :: u8
  meshconf_synch :: u8
  meshconf_auth :: u8
  meshconf_form :: u8
  meshconf_cap :: u8

record ieee80211_ht_operation =
  ht_param :: u8
  ht_operation_mode :: u16

record ieee80211_vht_operation =
  vht_chan_width :: u8
  center_freq_seg0_idx :: u8
  center_freq_seg1_idx :: u8

text \<open>\<open>struct ieee802_11_elems\<close> as far as it is read; an element that is absent is None.\<close>

record ieee802_11_elems =
  el_peering :: "u8 list option"
  el_rsn_len :: u8
  el_mesh_id :: "u8 list option"
  el_mesh_config :: "meshconf_ie option"
  el_supp_rates :: "u8 list"
  el_ext_supp_rates :: "u8 list"
  el_ht_operation :: "ieee80211_ht_operation option"
  el_vht_operation :: "ieee80211_vht_operation option"

definition BSS_MEMBERSHIP_SELECTOR_HT_PHY :: u8 where "BSS_MEMBERSHIP_SELECTOR_HT_PHY = 127"
definition IEEE80211_RATE_SUPPORTS_5MHZ :: u32 where "IEEE80211_RATE_SUPPORTS_5MHZ = 32"
definition IEEE80211_RATE_SUPPORTS_10MHZ :: u32 where "IEEE80211_RATE_SUPPORTS_10MHZ = 64"
definition IEEE80211_HT_PARAM_CHA_SEC_OFFSET :: u8 where "IEEE80211_HT_PARAM_CHA_SEC_OFFSET = 3"
definition IEEE80211_HT_PARAM_CHA_SEC_NONE :: u8 where "IEEE80211_HT_PARAM_CHA_SEC_NONE = 0"
definition IEEE80211_HT_PARAM_CHA_SEC_ABOVE :: u8 where "IEEE80211_HT_PARAM_CHA_SEC_ABOVE = 1"
definition IEEE80211_HT_PARAM_CHA_SEC_BELOW :: u8 where "IEEE80211_HT_PARAM_CHA_SEC_BELOW = 3"
definition IEEE80211_HT_PARAM_CHAN_WIDTH_ANY :: u8 where "IEEE80211_HT_PARAM_CHAN_WIDTH_ANY = 4"
definition IEEE80211_HT_OP_MODE_CCFS2_SHIFT :: nat where "IEEE80211_HT_OP_MODE_CCFS2_SHIFT = 5"
definition IEEE80211_HT_OP_MODE_CCFS2_MASK :: u16 where "IEEE80211_HT_OP_MODE_CCFS2_MASK = 0x1fe0"
definition IEEE80211_MESHCONF_FORM_CONNECTED_TO_GATE :: u8 where "IEEE80211_MESHCONF_FORM_CONNECTED_TO_GATE = 1"
definition IEEE80211_MESHCONF_CAPAB_ACCEPT_PLINKS :: u8 where "IEEE80211_MESHCONF_CAPAB_ACCEPT_PLINKS = 1"

section \<open>Rates\<close>

definition ieee80211_chandef_rate_flags :: "cfg80211_chan_def \<Rightarrow> u32" where
  "ieee80211_chandef_rate_flags chandef =
     (case cd_width chandef of
        NL80211_CHAN_WIDTH_5 \<Rightarrow> IEEE80211_RATE_SUPPORTS_5MHZ
      | NL80211_CHAN_WIDTH_10 \<Rightarrow> IEEE80211_RATE_SUPPORTS_10MHZ
      | _ \<Rightarrow> 0)"

definition ieee80211_chandef_get_shift :: "cfg80211_chan_def \<Rightarrow> nat" where
  "ieee80211_chandef_get_shift chandef =
     (case cd_width chandef of NL80211_CHAN_WIDTH_5 \<Rightarrow> 2 | NL80211_CHAN_WIDTH_10 \<Rightarrow> 1 | _ \<Rightarrow> 0)"

definition ieee80211_vif_get_shift :: "mesh_if \<Rightarrow> nat" where
  "ieee80211_vif_get_shift m = (case mi_ctx_def m of None \<Rightarrow> 0 | Some def \<Rightarrow> ieee80211_chandef_get_shift def)"

definition DIV_ROUND_UP :: "nat \<Rightarrow> nat \<Rightarrow> nat" where
  "DIV_ROUND_UP n d = (n + d - 1) div d"

text \<open>The bits of our rates that are the given rate of the peer, and the pass over all its rates.\<close>

definition rate_bits :: "mesh_if \<Rightarrow> ieee80211_supported_band \<Rightarrow> u8 \<Rightarrow> u32" where
  "rate_bits m sband rate =
     (let rate_flags = ieee80211_chandef_rate_flags (mi_chandef m); own_rate = 5 * unat (rate AND 0x7f) in
      foldr (OR) (map (\<lambda>j. let r = sb_bitrates sband ! j in
          if rate_flags AND r_flags r = rate_flags \<and>
             DIV_ROUND_UP (unat (r_bitrate r)) (2 ^ ieee80211_vif_get_shift m) = own_rate then BIT j else 0)
        [0..<length (sb_bitrates sband)]) 0)"

definition add_rate :: "mesh_if \<Rightarrow> ieee80211_supported_band \<Rightarrow> u8 \<Rightarrow> u32 \<times> u32 \<Rightarrow> u32 \<times> u32" where
  "add_rate m sband rate rates =
     (let is_basic = (rate AND 0x80 \<noteq> 0); bits = rate_bits m sband rate in
      if is_basic \<and> rate AND 0x7f = BSS_MEMBERSHIP_SELECTOR_HT_PHY then rates
      else (fst rates OR bits, if is_basic then snd rates OR bits else snd rates))"

text \<open>The supported rates and the basic ones, as bits of our band's table.\<close>

definition ieee80211_sta_get_rates :: "mesh_if \<Rightarrow> ieee80211_supported_band \<Rightarrow> ieee802_11_elems \<Rightarrow> u32 \<times> u32" where
  "ieee80211_sta_get_rates m sband elems =
     fold (add_rate m sband) (el_supp_rates elems @ el_ext_supp_rates elems) (0, 0)"

section \<open>The channel of the operation elements\<close>

definition ieee80211_chandef_ht_oper ::
  "chan_store \<Rightarrow> ieee80211_ht_operation option \<Rightarrow> cfg80211_chan_def \<Rightarrow> (bool \<times> cfg80211_chan_def) option" where
  "ieee80211_chandef_ht_oper h ht_oper chandef =
     (case ht_oper of
        None \<Rightarrow> Some (False, chandef)
      | Some op \<Rightarrow>
          let sec = ht_param op AND IEEE80211_HT_PARAM_CHA_SEC_OFFSET;
              create = (\<lambda>channel_type. map_option (\<lambda>chan. (True, cfg80211_chandef_create h chan channel_type)) (cd_chan chandef))
          in if sec = IEEE80211_HT_PARAM_CHA_SEC_NONE then create NL80211_CHAN_HT20
             else if sec = IEEE80211_HT_PARAM_CHA_SEC_ABOVE then create NL80211_CHAN_HT40PLUS
             else if sec = IEEE80211_HT_PARAM_CHA_SEC_BELOW then create NL80211_CHAN_HT40MINUS
             else Some (False, chandef))"

text \<open>The width and centers the VHT operation element announces; None for a width it does not define.\<close>

definition vht_oper_width :: "u8 \<Rightarrow> int \<Rightarrow> int \<Rightarrow> int \<Rightarrow> int \<Rightarrow> cfg80211_chan_def \<Rightarrow> cfg80211_chan_def option" where
  "vht_oper_width chan_width ccf0 ccf1 cf0 cf1 new =
     (if chan_width = 0 then Some new
      else if chan_width = 1 then
        (let diff = \<bar>ccf1 - ccf0\<bar>;
             new = new\<lparr>cd_width := NL80211_CHAN_WIDTH_80, cd_center_freq1 := word_of_int cf0\<rparr>
         in if ccf1 = 0 then Some new
            else if diff = 8 then Some (new\<lparr>cd_width := NL80211_CHAN_WIDTH_160, cd_center_freq1 := word_of_int cf1\<rparr>)
            else if diff > 8 then Some (new\<lparr>cd_width := NL80211_CHAN_WIDTH_80P80, cd_center_freq2 := word_of_int cf1\<rparr>)
            else Some new)
      else if chan_width = 2 then Some (new\<lparr>cd_width := NL80211_CHAN_WIDTH_160, cd_center_freq1 := word_of_int cf0\<rparr>)
      else if chan_width = 3 then
        Some (new\<lparr>cd_width := NL80211_CHAN_WIDTH_80P80, cd_center_freq1 := word_of_int cf0,
                  cd_center_freq2 := word_of_int cf1\<rparr>)
      else None)"

definition ieee80211_chandef_vht_oper ::
  "chan_store \<Rightarrow> bool \<Rightarrow> ieee80211_vht_operation option \<Rightarrow> ieee80211_ht_operation option \<Rightarrow> cfg80211_chan_def
     \<Rightarrow> (bool \<times> cfg80211_chan_def) option" where
  "ieee80211_chandef_vht_oper h vht_ext_nss_bw oper htop chandef =
     (case (oper, htop) of
        (Some oper, Some htop) \<Rightarrow> do {
          chan \<leftarrow> cd_chan chandef;
          let ccfs2 = drop_bit IEEE80211_HT_OP_MODE_CCFS2_SHIFT (ht_operation_mode htop AND IEEE80211_HT_OP_MODE_CCFS2_MASK);
          let ccf0 = uint (center_freq_seg0_idx oper);
          let ccf1 = (if center_freq_seg1_idx oper = 0 \<and> vht_ext_nss_bw then uint ccfs2 else uint (center_freq_seg1_idx oper));
          let cf0 = ieee80211_channel_to_frequency ccf0 (ch_band (h chan));
          let cf1 = ieee80211_channel_to_frequency ccf1 (ch_band (h chan));
          (case vht_oper_width (vht_chan_width oper) ccf0 ccf1 cf0 cf1 chandef of
             None \<Rightarrow> Some (False, chandef)
           | Some new \<Rightarrow> if cfg80211_chandef_valid h new then Some (True, new) else Some (False, chandef)) }
      | _ \<Rightarrow> Some (False, chandef))"

section \<open>Matching our configuration\<close>

definition mesh_matches_local :: "chan_store \<Rightarrow> bool \<Rightarrow> mesh_if \<Rightarrow> ieee802_11_elems \<Rightarrow> bool option" where
  "mesh_matches_local h vht_ext_nss_bw m ie =
     (if mi_mesh_id m \<noteq> (case el_mesh_id ie of None \<Rightarrow> [] | Some bytes \<Rightarrow> bytes) then Some False
      else do {
        mc \<leftarrow> el_mesh_config ie;
        if mi_config_ids m \<noteq> [meshconf_psel mc, meshconf_pmetric mc, meshconf_congest mc, meshconf_synch mc, meshconf_auth mc]
        then Some False
        else (case mi_sband m of
          None \<Rightarrow> Some False
        | Some sband \<Rightarrow>
            if mi_basic_rates m \<noteq> snd (ieee80211_sta_get_rates m sband ie) then Some False
            else do {
              chan \<leftarrow> cd_chan (mi_chandef m);
              (_, d) \<leftarrow> ieee80211_chandef_ht_oper h (el_ht_operation ie) (cfg80211_chandef_create h chan NL80211_CHAN_NO_HT);
              (_, d) \<leftarrow> ieee80211_chandef_vht_oper h vht_ext_nss_bw (el_vht_operation ie) (el_ht_operation ie) d;
              compatible \<leftarrow> cfg80211_chandef_compatible h (mi_chandef m) d;
              Some (compatible \<noteq> None) }) })"

definition mesh_peer_accepts_plinks :: "ieee802_11_elems \<Rightarrow> bool option" where
  "mesh_peer_accepts_plinks ie =
     map_option (\<lambda>mc. meshconf_cap mc AND IEEE80211_MESHCONF_CAPAB_ACCEPT_PLINKS \<noteq> 0) (el_mesh_config ie)"

end
