(* ===== verification/MeshPlink.thy ===== *)
theory MeshPlink
  imports MeshConf
begin

text \<open>
  Mesh peering management (net/mac80211/mesh_plink.c): the peer link state machine, its frames and its timer, the
  stations it creates, what userspace sets (cfg.c) and the removal of stations (sta_info.c). None as the
  result of an operation is a run that does not return or touches memory it must not: a NULL
  dereference, a division by zero, link IDs drawn without end.
\<close>

section \<open>The environment\<close>

text \<open>
  What one call finds: the time, the kernel's conversion of milliseconds, the random numbers it draws, the channels,
  whether memory can be had and the driver takes the station, and the conversion of the capability elements
  (ht.c, vht.c) to the bandwidth of a station and whether it has HT.
\<close>

record mesh_env =
  en_jiffies :: u64
  en_msecs_to_jiffies :: "u32 \<Rightarrow> u64"
  en_llids :: "u16 list"
  en_rand :: u32
  en_chans :: chan_store
  en_vht_ext_nss_bw :: bool
  en_quiescing :: bool
  en_memory :: bool
  en_insert_ok :: bool
  en_sta_caps :: "ieee802_11_elems \<Rightarrow> mesh_sta \<Rightarrow> ieee80211_sta_rx_bandwidth \<times> bool"

datatype plink_event =
    PLINK_UNDEFINED | OPN_ACPT | OPN_RJCT | OPN_IGNR | CNF_ACPT | CNF_RJCT | CNF_IGNR | CLS_ACPT | CLS_IGNR

definition WLAN_REASON_MESH_PEER_CANCELED :: u16 where "WLAN_REASON_MESH_PEER_CANCELED = 52"
definition WLAN_REASON_MESH_CONFIG :: u16 where "WLAN_REASON_MESH_CONFIG = 54"
definition WLAN_REASON_MESH_CLOSE :: u16 where "WLAN_REASON_MESH_CLOSE = 55"
definition WLAN_REASON_MESH_MAX_RETRIES :: u16 where "WLAN_REASON_MESH_MAX_RETRIES = 56"
definition WLAN_REASON_MESH_CONFIRM_TIMEOUT :: u16 where "WLAN_REASON_MESH_CONFIRM_TIMEOUT = 57"
definition IEEE80211_MESH_SEC_NONE :: u8 where "IEEE80211_MESH_SEC_NONE = 0"
definition IEEE80211_MESH_SEC_AUTHED :: u8 where "IEEE80211_MESH_SEC_AUTHED = 1"
definition IEEE80211_MAX_AID :: nat where "IEEE80211_MAX_AID = 2007"

definition ieee80211_mbss_info_change_notify :: "u32 \<Rightarrow> mesh_if \<Rightarrow> mesh_if" where
  "ieee80211_mbss_info_change_notify changed m = (if changed = 0 then m else log_effect (InfoChanged changed) m)"

definition rssi_threshold_check :: "mesh_if \<Rightarrow> mesh_sta option \<Rightarrow> bool" where
  "rssi_threshold_check m sta \<longleftrightarrow>
     rssi_threshold (mi_mshcfg m) = 0 \<or>
     (case sta of None \<Rightarrow> False | Some s \<Rightarrow> ms_rssi s > rssi_threshold (mi_mshcfg m))"

definition mesh_plink_fsm_restart :: "mesh_sta \<Rightarrow> mesh_sta" where
  "mesh_plink_fsm_restart s =
     s\<lparr>ms_plink_state := NL80211_PLINK_LISTEN, ms_llid := 0, ms_plid := 0, ms_reason := 0, ms_plink_retries := 0\<rparr>"

section \<open>Frames and timers\<close>

definition peering_element :: "ieee80211_self_protected_actioncode \<Rightarrow> u16 \<Rightarrow> u16 \<Rightarrow> u16 \<Rightarrow> u8 list" where
  "peering_element action llid plid reason =
     (let include_plid = (case action of
            WLAN_SP_MESH_PEERING_OPEN \<Rightarrow> False
          | WLAN_SP_MESH_PEERING_CONFIRM \<Rightarrow> True
          | WLAN_SP_MESH_PEERING_CLOSE \<Rightarrow> plid \<noteq> 0)
      in [0, 0] @ le16_bytes llid @ (if include_plid then le16_bytes plid else []) @
         (if action = WLAN_SP_MESH_PEERING_CLOSE then le16_bytes reason else []))"

definition mesh_plink_frame_tx ::
  "ieee80211_self_protected_actioncode \<Rightarrow> u16 \<Rightarrow> u8 list \<Rightarrow> u16 \<Rightarrow> u16 \<Rightarrow> u16 \<Rightarrow> mesh_if \<Rightarrow> mesh_if" where
  "mesh_plink_frame_tx action aid da llid plid reason m =
     (if action \<noteq> WLAN_SP_MESH_PEERING_CLOSE \<and> mi_sband m = None then m
      else log_effect (PlinkFrame action da (if action = WLAN_SP_MESH_PEERING_CONFIRM then aid else 0)
             (peering_element action llid plid reason)) m)"

definition sta_frame_tx :: "ieee80211_self_protected_actioncode \<Rightarrow> u16 \<Rightarrow> nat \<Rightarrow> mesh_if \<Rightarrow> mesh_if" where
  "sta_frame_tx action reason i m =
     (let s = sta_of i m in mesh_plink_frame_tx action (ms_sta_aid s) (ms_addr s) (ms_llid s) (ms_plid s) reason m)"

definition mod_plink_timer :: "mesh_env \<Rightarrow> u32 \<Rightarrow> mesh_sta \<Rightarrow> mesh_sta" where
  "mod_plink_timer env t s = s\<lparr>ms_timer_expires := en_jiffies env + en_msecs_to_jiffies env t, ms_timer_pending := True\<rparr>"

definition mesh_plink_timer_set :: "mesh_env \<Rightarrow> u32 \<Rightarrow> mesh_sta \<Rightarrow> mesh_sta" where
  "mesh_plink_timer_set env timeout s = mod_plink_timer env timeout (s\<lparr>ms_plink_timeout := timeout\<rparr>)"

definition del_plink_timer :: "mesh_sta \<Rightarrow> mesh_sta" where
  "del_plink_timer s = s\<lparr>ms_timer_pending := False\<rparr>"

definition llid_in_use :: "mesh_if \<Rightarrow> u16 \<Rightarrow> bool" where
  "llid_in_use m llid \<longleftrightarrow> list_ex (\<lambda>s. ms_llid s = llid) (mi_stas m)"

definition mesh_get_new_llid :: "mesh_env \<Rightarrow> mesh_if \<Rightarrow> u16 option" where
  "mesh_get_new_llid env m = List.find (\<lambda>llid. \<not> llid_in_use m llid) (en_llids env)"

section \<open>Opening, blocking, closing and establishing\<close>

definition mesh_plink_open :: "mesh_env \<Rightarrow> nat \<Rightarrow> mesh_if \<Rightarrow> (u32 \<times> mesh_if) option" where
  "mesh_plink_open env i m =
     (if \<not> test_sta_flag (sta_of i m) WLAN_STA_AUTH then Some (0, m)
      else do {
        llid \<leftarrow> mesh_get_new_llid env m;
        let m = sta_upd i (\<lambda>s. s\<lparr>ms_llid := llid\<rparr>) m;
        if ms_plink_state (sta_of i m) \<noteq> NL80211_PLINK_LISTEN \<and> ms_plink_state (sta_of i m) \<noteq> NL80211_PLINK_BLOCKED
        then Some (0, m)
        else do {
          let m = sta_upd i (\<lambda>s. mesh_plink_timer_set env (ucast (dot11MeshRetryTimeout (mi_mshcfg m)))
                    (s\<lparr>ms_plink_state := NL80211_PLINK_OPN_SNT\<rparr>)) m;
          let (changed, m) = ieee80211_mps_local_status_update m;
          let s = sta_of i m;
          Some (changed, mesh_plink_frame_tx WLAN_SP_MESH_PEERING_OPEN (ms_sta_aid s) (ms_addr s) (ms_llid s) 0 0 m) } })"

text \<open>\<open>__mesh_plink_deactivate\<close> with the lock held, and the function around it.\<close>

definition mesh_plink_deactivate_locked :: "nat \<Rightarrow> mesh_if \<Rightarrow> u32 \<times> mesh_if" where
  "mesh_plink_deactivate_locked i m =
     (let (changed, m) = (if ms_plink_state (sta_of i m) = NL80211_PLINK_ESTAB then mesh_plink_dec_estab_count m else (0, m));
          m = sta_upd i (\<lambda>s. s\<lparr>ms_plink_state := NL80211_PLINK_BLOCKED\<rparr>) m;
          m = ieee80211_mps_sta_status_update i m;
          (changed_pm, m) = ieee80211_mps_set_sta_local_pm i NL80211_MESH_POWER_UNKNOWN m
      in (changed OR changed_pm, m))"

definition mesh_plink_deactivate :: "nat \<Rightarrow> mesh_if \<Rightarrow> u32 \<times> mesh_if" where
  "mesh_plink_deactivate i m =
     (let (changed, m) = mesh_plink_deactivate_locked i m;
          m = (if mi_user_mpm m then m
               else sta_upd i del_plink_timer
                 (sta_frame_tx WLAN_SP_MESH_PEERING_CLOSE WLAN_REASON_MESH_PEER_CANCELED i
                   (sta_upd i (\<lambda>s. s\<lparr>ms_reason := WLAN_REASON_MESH_PEER_CANCELED\<rparr>) m)))
      in (changed, log_effect (FlushPaths (ms_addr (sta_of i m))) m))"

definition mesh_plink_block :: "nat \<Rightarrow> mesh_if \<Rightarrow> u32 \<times> mesh_if" where
  "mesh_plink_block i m =
     (let (changed, m) = mesh_plink_deactivate_locked i m;
          m = sta_upd i (\<lambda>s. s\<lparr>ms_plink_state := NL80211_PLINK_BLOCKED\<rparr>) m
      in (changed, log_effect (FlushPaths (ms_addr (sta_of i m))) m))"

definition mesh_plink_close :: "mesh_env \<Rightarrow> nat \<Rightarrow> plink_event \<Rightarrow> mesh_if \<Rightarrow> mesh_if" where
  "mesh_plink_close env i event m =
     sta_upd i (\<lambda>s. mod_plink_timer env (ucast (dot11MeshHoldingTimeout (mi_mshcfg m)))
       (s\<lparr>ms_reason := (if event = CLS_ACPT then WLAN_REASON_MESH_CLOSE else WLAN_REASON_MESH_CONFIG),
          ms_plink_state := NL80211_PLINK_HOLDING\<rparr>)) m"

definition mesh_plink_establish :: "nat \<Rightarrow> mesh_if \<Rightarrow> u32 \<times> mesh_if" where
  "mesh_plink_establish i m =
     (let m = sta_upd i (\<lambda>s. (del_plink_timer s)\<lparr>ms_plink_state := NL80211_PLINK_ESTAB\<rparr>) m;
          (c1, m) = mesh_plink_inc_estab_count m;
          (c2, m) = mesh_set_ht_prot_mode m;
          (c3, m) = mesh_set_short_slot_time m;
          m = ieee80211_mps_sta_status_update i m;
          (c4, m) = ieee80211_mps_set_sta_local_pm i (power_mode (mi_mshcfg m)) m
      in (c1 OR c2 OR c3 OR c4, m))"

section \<open>The state machine\<close>

text \<open>
  The switch on state and event: the changes of the beacon, the frame to send, whether paths are flushed, and the
  new state.
\<close>

definition fsm_close :: "mesh_env \<Rightarrow> nat \<Rightarrow> plink_event \<Rightarrow> mesh_if
    \<Rightarrow> u32 \<times> ieee80211_self_protected_actioncode option \<times> bool \<times> mesh_if" where
  "fsm_close env i event m = (0, Some WLAN_SP_MESH_PEERING_CLOSE, False, mesh_plink_close env i event m)"

definition fsm_switch :: "mesh_env \<Rightarrow> nat \<Rightarrow> plink_event \<Rightarrow> mesh_if
    \<Rightarrow> (u32 \<times> ieee80211_self_protected_actioncode option \<times> bool \<times> mesh_if) option" where
  "fsm_switch env i event m =
     (case ms_plink_state (sta_of i m) of
        NL80211_PLINK_LISTEN \<Rightarrow>
          (case event of
             CLS_ACPT \<Rightarrow> Some (0, None, False, sta_upd i mesh_plink_fsm_restart m)
           | OPN_ACPT \<Rightarrow> do {
               let m = sta_upd i (\<lambda>s. s\<lparr>ms_plink_state := NL80211_PLINK_OPN_RCVD\<rparr>) m;
               llid \<leftarrow> mesh_get_new_llid env m;
               let m = sta_upd i (\<lambda>s. mesh_plink_timer_set env (ucast (dot11MeshRetryTimeout (mi_mshcfg m)))
                         (s\<lparr>ms_llid := llid\<rparr>)) m;
               let (changed, m) = ieee80211_mps_local_status_update m;
               Some (changed, Some WLAN_SP_MESH_PEERING_OPEN, False, m) }
           | _ \<Rightarrow> Some (0, None, False, m))
      | NL80211_PLINK_OPN_SNT \<Rightarrow>
          (case event of
             OPN_RJCT \<Rightarrow> Some (fsm_close env i event m)
           | CNF_RJCT \<Rightarrow> Some (fsm_close env i event m)
           | CLS_ACPT \<Rightarrow> Some (fsm_close env i event m)
           | OPN_ACPT \<Rightarrow> Some (0, Some WLAN_SP_MESH_PEERING_CONFIRM, False,
                sta_upd i (\<lambda>s. s\<lparr>ms_plink_state := NL80211_PLINK_OPN_RCVD\<rparr>) m)
           | CNF_ACPT \<Rightarrow> Some (0, None, False,
                sta_upd i (\<lambda>s. mod_plink_timer env (ucast (dot11MeshConfirmTimeout (mi_mshcfg m)))
                  (s\<lparr>ms_plink_state := NL80211_PLINK_CNF_RCVD\<rparr>)) m)
           | _ \<Rightarrow> Some (0, None, False, m))
      | NL80211_PLINK_OPN_RCVD \<Rightarrow>
          (case event of
             OPN_RJCT \<Rightarrow> Some (fsm_close env i event m)
           | CNF_RJCT \<Rightarrow> Some (fsm_close env i event m)
           | CLS_ACPT \<Rightarrow> Some (fsm_close env i event m)
           | OPN_ACPT \<Rightarrow> Some (0, Some WLAN_SP_MESH_PEERING_CONFIRM, False, m)
           | CNF_ACPT \<Rightarrow> (let (changed, m) = mesh_plink_establish i m in Some (changed, None, False, m))
           | _ \<Rightarrow> Some (0, None, False, m))
      | NL80211_PLINK_CNF_RCVD \<Rightarrow>
          (case event of
             OPN_RJCT \<Rightarrow> Some (fsm_close env i event m)
           | CNF_RJCT \<Rightarrow> Some (fsm_close env i event m)
           | CLS_ACPT \<Rightarrow> Some (fsm_close env i event m)
           | OPN_ACPT \<Rightarrow> (let (changed, m) = mesh_plink_establish i m in Some (changed, Some WLAN_SP_MESH_PEERING_CONFIRM, False, m))
           | _ \<Rightarrow> Some (0, None, False, m))
      | NL80211_PLINK_ESTAB \<Rightarrow>
          (case event of
             CLS_ACPT \<Rightarrow>
               (let (c1, m) = mesh_plink_deactivate_locked i m;
                    (c2, m) = mesh_set_ht_prot_mode m;
                    (c3, m) = mesh_set_short_slot_time m
                in Some (c1 OR c2 OR c3, Some WLAN_SP_MESH_PEERING_CLOSE, True, mesh_plink_close env i event m))
           | OPN_ACPT \<Rightarrow> Some (0, Some WLAN_SP_MESH_PEERING_CONFIRM, False, m)
           | _ \<Rightarrow> Some (0, None, False, m))
      | NL80211_PLINK_HOLDING \<Rightarrow>
          (case event of
             CLS_ACPT \<Rightarrow> Some (0, None, False, sta_upd i (\<lambda>s. mesh_plink_fsm_restart (del_plink_timer s)) m)
           | OPN_ACPT \<Rightarrow> Some (0, Some WLAN_SP_MESH_PEERING_CLOSE, False, m)
           | CNF_ACPT \<Rightarrow> Some (0, Some WLAN_SP_MESH_PEERING_CLOSE, False, m)
           | OPN_RJCT \<Rightarrow> Some (0, Some WLAN_SP_MESH_PEERING_CLOSE, False, m)
           | CNF_RJCT \<Rightarrow> Some (0, Some WLAN_SP_MESH_PEERING_CLOSE, False, m)
           | _ \<Rightarrow> Some (0, None, False, m))
      | NL80211_PLINK_BLOCKED \<Rightarrow> Some (0, None, False, m))"

definition mesh_plink_fsm :: "mesh_env \<Rightarrow> nat \<Rightarrow> plink_event \<Rightarrow> mesh_if \<Rightarrow> (u32 \<times> mesh_if) option" where
  "mesh_plink_fsm env i event m = do {
     (changed, action, flush, m) \<leftarrow> fsm_switch env i event m;
     let m = (if flush then log_effect (FlushPaths (ms_addr (sta_of i m))) m else m);
     Some (changed,
       case action of
         None \<Rightarrow> m
       | Some a \<Rightarrow>
           let m = sta_frame_tx a (ms_reason (sta_of i m)) i m
           in if a = WLAN_SP_MESH_PEERING_OPEN then sta_frame_tx WLAN_SP_MESH_PEERING_CONFIRM 0 i m else m) }"

section \<open>The timer\<close>

definition timer_holding :: "mesh_env \<Rightarrow> u16 \<Rightarrow> nat \<Rightarrow> mesh_if \<Rightarrow> mesh_if" where
  "timer_holding env reason i m =
     sta_frame_tx WLAN_SP_MESH_PEERING_CLOSE reason i
       (sta_upd i (\<lambda>s. mod_plink_timer env (ucast (dot11MeshHoldingTimeout (mi_mshcfg m)))
          (s\<lparr>ms_plink_state := NL80211_PLINK_HOLDING\<rparr>)) m)"

definition timer_retry :: "mesh_env \<Rightarrow> mesh_sta \<Rightarrow> mesh_sta" where
  "timer_retry env s =
     (let timeout = ms_plink_timeout s + en_rand env mod ms_plink_timeout s in
      mod_plink_timer env timeout (s\<lparr>ms_plink_timeout := timeout, ms_plink_retries := ms_plink_retries s + 1\<rparr>))"

definition mesh_plink_timer :: "mesh_env \<Rightarrow> nat \<Rightarrow> mesh_if \<Rightarrow> mesh_if option" where
  "mesh_plink_timer env i m =
     (let s = sta_of i m in
      if en_quiescing env then Some m
      else if time_after (ms_timer_expires s) (en_jiffies env) then Some m
      else if ms_plink_state s = NL80211_PLINK_LISTEN \<or> ms_plink_state s = NL80211_PLINK_ESTAB then Some m
      else case ms_plink_state s of
        NL80211_PLINK_CNF_RCVD \<Rightarrow> Some (timer_holding env WLAN_REASON_MESH_CONFIRM_TIMEOUT i m)
      | NL80211_PLINK_HOLDING \<Rightarrow> Some (sta_upd i (\<lambda>s. mesh_plink_fsm_restart (del_plink_timer s)) m)
      | NL80211_PLINK_BLOCKED \<Rightarrow> Some m
      | _ \<Rightarrow>
          if ms_plink_retries s < dot11MeshMaxRetries (mi_mshcfg m) then
            if ms_plink_timeout s = 0 then None
            else Some (sta_frame_tx WLAN_SP_MESH_PEERING_OPEN 0 i (sta_upd i (timer_retry env) m))
          else Some (timer_holding env WLAN_REASON_MESH_MAX_RETRIES i m))"

section \<open>Stations\<close>

definition mesh_sta_info_init :: "mesh_env \<Rightarrow> mesh_if \<Rightarrow> ieee802_11_elems \<Rightarrow> mesh_sta \<Rightarrow> mesh_sta" where
  "mesh_sta_info_init env m elems s =
     (case mi_sband m of
        None \<Rightarrow> s
      | Some sband \<Rightarrow>
          let rates = fst (ieee80211_sta_get_rates m sband elems);
              s = s\<lparr>ms_last_rx := en_jiffies env\<rparr>
          in if ms_plink_state s = NL80211_PLINK_ESTAB \<and> ms_processed_beacon s then s
             else
               let s = s\<lparr>ms_processed_beacon := True, ms_supp_rates := rates\<rparr>;
                   (bandwidth, ht) = en_sta_caps env elems s;
                   s = s\<lparr>ms_bandwidth := bandwidth, ms_ht_supported := ht\<rparr>
               in case el_ht_operation elems of
                    Some op \<Rightarrow>
                      if ht_param op AND IEEE80211_HT_PARAM_CHAN_WIDTH_ANY = 0 then s\<lparr>ms_bandwidth := IEEE80211_STA_RX_BW_20\<rparr>
                      else s
                  | None \<Rightarrow> s)"

definition mesh_allocate_aid :: "mesh_env \<Rightarrow> mesh_if \<Rightarrow> errno + u16" where
  "mesh_allocate_aid env m =
     (if \<not> en_memory env then Inl ENOMEM
      else case List.find (\<lambda>a. a \<noteq> 0 \<and> a \<notin> unat ` set (map ms_sta_aid (mi_stas m) @ mi_other_aids m)) [0..<Suc IEEE80211_MAX_AID] of
        None \<Rightarrow> Inl ENOBUFS
      | Some a \<Rightarrow> Inr (of_nat a))"

definition new_mesh_sta :: "u8 list \<Rightarrow> u16 \<Rightarrow> mesh_sta" where
  "new_mesh_sta addr aid =
     \<lparr>ms_addr = addr, ms_flags = (\<lambda>f. f \<in> {WLAN_STA_AUTH, WLAN_STA_ASSOC, WLAN_STA_AUTHORIZED}),
      ms_sta_state = IEEE80211_STA_AUTHORIZED, ms_sta_aid = aid, ms_supp_rates = 0, ms_bandwidth = IEEE80211_STA_RX_BW_20,
      ms_ht_supported = False, ms_rssi = 0, ms_last_rx = 0, ms_last_ack = 0, ms_llid = 0, ms_plid = 0, ms_aid = 0, ms_reason = 0,
      ms_plink_retries = 0, ms_processed_beacon = False, ms_connected_to_gate = False, ms_plink_state = NL80211_PLINK_LISTEN,
      ms_plink_timeout = 0, ms_timer_expires = 0, ms_timer_pending = False, ms_local_pm = NL80211_MESH_POWER_UNKNOWN,
      ms_peer_pm = NL80211_MESH_POWER_UNKNOWN, ms_nonpeer_pm = NL80211_MESH_POWER_ACTIVE\<rparr>"

text \<open>\<open>__mesh_sta_info_alloc\<close> and the function around it, which leaves the allocation to userspace for secured meshes.\<close>

definition mesh_sta_info_alloc_kernel :: "mesh_env \<Rightarrow> u8 list \<Rightarrow> mesh_if \<Rightarrow> mesh_sta option" where
  "mesh_sta_info_alloc_kernel env addr m =
     (if mi_num_sta m \<ge> MESH_MAX_PLINKS then None
      else case mesh_allocate_aid env m of Inl e \<Rightarrow> None | Inr aid \<Rightarrow> Some (new_mesh_sta addr aid))"

definition mesh_sta_info_alloc :: "mesh_env \<Rightarrow> u8 list \<Rightarrow> ieee802_11_elems \<Rightarrow> mesh_if \<Rightarrow> (mesh_sta option \<times> mesh_if) option" where
  "mesh_sta_info_alloc env addr elems m =
     (if mi_user_mpm m \<or> mi_security m AND IEEE80211_MESH_SEC_AUTHED \<noteq> 0 then do {
        accepts \<leftarrow> mesh_peer_accepts_plinks elems;
        Some (None, if accepts \<and> mesh_plink_availables m then log_effect (PeerCandidate addr) m else m) }
      else Some (mesh_sta_info_alloc_kernel env addr m, m))"

text \<open>The insertion at the end of the list (\<open>sta_info_insert_finish\<close>).\<close>

definition sta_info_insert :: "mesh_sta \<Rightarrow> mesh_if \<Rightarrow> mesh_if" where
  "sta_info_insert s m = snd (mesh_accept_plinks_update (m\<lparr>mi_stas := mi_stas m @ [s], mi_num_sta := mi_num_sta m + 1\<rparr>))"

fun find_sta :: "mesh_sta list \<Rightarrow> u8 list \<Rightarrow> nat option" where
  "find_sta [] addr = None"
| "find_sta (s # ss) addr = (if ms_addr s = addr then Some 0 else map_option Suc (find_sta ss addr))"

definition sta_info_get :: "mesh_if \<Rightarrow> u8 list \<Rightarrow> nat option" where
  "sta_info_get m addr = find_sta (mi_stas m) addr"

definition mesh_sta_info_get :: "mesh_env \<Rightarrow> u8 list \<Rightarrow> ieee802_11_elems \<Rightarrow> mesh_if \<Rightarrow> (nat option \<times> mesh_if) option" where
  "mesh_sta_info_get env addr elems m =
     (case sta_info_get m addr of
        Some i \<Rightarrow> Some (Some i, sta_upd i (mesh_sta_info_init env m elems) m)
      | None \<Rightarrow> do {
          (sta, m) \<leftarrow> mesh_sta_info_alloc env addr elems m;
          (case sta of
             None \<Rightarrow> Some (None, m)
           | Some s \<Rightarrow>
               if \<not> en_insert_ok env then Some (None, m)
               else Some (Some (length (mi_stas m)), sta_info_insert (mesh_sta_info_init env m elems s) m)) })"

text \<open>A beacon or probe response of a neighbour; the release of buffered frames is only noted.\<close>

definition mesh_neighbour_update :: "mesh_env \<Rightarrow> u8 list \<Rightarrow> ieee802_11_elems \<Rightarrow> mesh_if \<Rightarrow> mesh_if option" where
  "mesh_neighbour_update env hw_addr elems m = do {
     (sta, m) \<leftarrow> mesh_sta_info_get env hw_addr elems m;
     (case sta of
        None \<Rightarrow> Some m
      | Some i \<Rightarrow> do {
          mc \<leftarrow> el_mesh_config elems;
          accepts \<leftarrow> mesh_peer_accepts_plinks elems;
          let m = sta_upd i (\<lambda>s. s\<lparr>ms_connected_to_gate := (meshconf_form mc AND IEEE80211_MESHCONF_FORM_CONNECTED_TO_GATE \<noteq> 0)\<rparr>) m;
          (changed, m) \<leftarrow>
            (if accepts \<and> ms_plink_state (sta_of i m) = NL80211_PLINK_LISTEN \<and> mi_accepting_plinks m \<and>
                auto_open_plinks (mi_mshcfg m) \<and> rssi_threshold_check m (Some (sta_of i m))
             then mesh_plink_open env i m else Some (0, m));
          Some (ieee80211_mbss_info_change_notify changed (log_effect (FrameRelease (ms_addr (sta_of i m))) m)) }) }"

section \<open>Received peering frames\<close>

definition mesh_plink_get_event ::
  "mesh_env \<Rightarrow> mesh_if \<Rightarrow> mesh_sta option \<Rightarrow> ieee802_11_elems \<Rightarrow> ieee80211_self_protected_actioncode \<Rightarrow> nat \<Rightarrow> u16 \<Rightarrow> u16
     \<Rightarrow> plink_event option" where
  "mesh_plink_get_event env m sta elems ftype ie_len llid plid = do {
     matches_local \<leftarrow>
       (if ftype = WLAN_SP_MESH_PEERING_CLOSE then Some True
        else mesh_matches_local (en_chans env) (en_vht_ext_nss_bw env) m elems);
     Some (case sta of
       None \<Rightarrow>
         if \<not> matches_local then OPN_RJCT
         else if ftype \<noteq> WLAN_SP_MESH_PEERING_OPEN then PLINK_UNDEFINED
         else if mesh_plink_free_count m = 0 then PLINK_UNDEFINED
         else OPN_ACPT
     | Some s \<Rightarrow>
         if \<not> test_sta_flag s WLAN_STA_AUTH then PLINK_UNDEFINED
         else if ms_plink_state s = NL80211_PLINK_BLOCKED then PLINK_UNDEFINED
         else case ftype of
           WLAN_SP_MESH_PEERING_OPEN \<Rightarrow>
             let event = (if \<not> matches_local then OPN_RJCT else PLINK_UNDEFINED);
                 event = (if mesh_plink_free_count m = 0 \<or> ms_plid s \<noteq> 0 \<and> ms_plid s \<noteq> plid then OPN_IGNR else OPN_ACPT)
             in event
         | WLAN_SP_MESH_PEERING_CONFIRM \<Rightarrow>
             let event = (if \<not> matches_local then CNF_RJCT else PLINK_UNDEFINED);
                 event = (if mesh_plink_free_count m = 0 \<or> ms_llid s \<noteq> llid \<or> ms_plid s \<noteq> 0 \<and> ms_plid s \<noteq> plid
                          then CNF_IGNR else CNF_ACPT)
             in event
         | WLAN_SP_MESH_PEERING_CLOSE \<Rightarrow>
             if ms_plink_state s = NL80211_PLINK_ESTAB then CLS_ACPT
             else if ms_plid s \<noteq> plid then CLS_IGNR
             else if ie_len = 8 \<and> ms_llid s \<noteq> llid then CLS_IGNR
             else CLS_ACPT) }"

definition peering_length_ok :: "ieee80211_self_protected_actioncode \<Rightarrow> nat \<Rightarrow> bool" where
  "peering_length_ok ftype ie_len =
     (case ftype of
        WLAN_SP_MESH_PEERING_OPEN \<Rightarrow> ie_len = 4
      | WLAN_SP_MESH_PEERING_CONFIRM \<Rightarrow> ie_len = 6
      | WLAN_SP_MESH_PEERING_CLOSE \<Rightarrow> ie_len = 6 \<or> ie_len = 8)"

text \<open>The sender's link ID and, where the frame has it, ours.\<close>

definition peering_ids :: "ieee80211_self_protected_actioncode \<Rightarrow> u8 list \<Rightarrow> (u16 \<times> u16) option" where
  "peering_ids ftype peering = do {
     plid \<leftarrow> get_unaligned_le16 peering 2;
     llid \<leftarrow> (if ftype = WLAN_SP_MESH_PEERING_CONFIRM \<or> ftype = WLAN_SP_MESH_PEERING_CLOSE \<and> length peering = 8
             then get_unaligned_le16 peering 4 else Some 0);
     Some (plid, llid) }"

definition process_plink_event ::
  "mesh_env \<Rightarrow> u8 list \<Rightarrow> u16 \<Rightarrow> ieee802_11_elems \<Rightarrow> plink_event \<Rightarrow> u16 \<Rightarrow> mesh_if \<Rightarrow> (u32 \<times> mesh_if) option" where
  "process_plink_event env sa cnf_aid elems event plid m =
     (if event = OPN_ACPT then do {
        (sta, m) \<leftarrow> mesh_sta_info_get env sa elems m;
        (case sta of
           None \<Rightarrow> Some (0, m)
         | Some i \<Rightarrow> mesh_plink_fsm env i event (sta_upd i (\<lambda>s. s\<lparr>ms_plid := plid\<rparr>) m)) }
      else case sta_info_get m sa of
        None \<Rightarrow>
          if event = OPN_RJCT then Some (0, mesh_plink_frame_tx WLAN_SP_MESH_PEERING_CLOSE 0 sa 0 plid WLAN_REASON_MESH_CONFIG m)
          else Some (0, m)
      | Some i \<Rightarrow>
          if event = PLINK_UNDEFINED then Some (0, m)
          else if event = CNF_ACPT then
            mesh_plink_fsm env i event
              (sta_upd i (\<lambda>s. s\<lparr>ms_plid := (if ms_plid s = 0 then plid else ms_plid s), ms_aid := cnf_aid\<rparr>) m)
          else mesh_plink_fsm env i event m)"

definition mesh_process_plink_frame ::
  "mesh_env \<Rightarrow> u8 list \<Rightarrow> ieee80211_self_protected_actioncode \<Rightarrow> u16 \<Rightarrow> ieee802_11_elems \<Rightarrow> mesh_if \<Rightarrow> mesh_if option" where
  "mesh_process_plink_frame env sa ftype cnf_aid elems m =
     (case el_peering elems of
        None \<Rightarrow> Some m
      | Some peering \<Rightarrow>
          if el_rsn_len elems \<noteq> 0 \<and> mi_security m = IEEE80211_MESH_SEC_NONE then Some m
          else if \<not> peering_length_ok ftype (length peering) then Some m
          else if ftype \<noteq> WLAN_SP_MESH_PEERING_CLOSE \<and> (el_mesh_id elems = None \<or> el_mesh_config elems = None) then Some m
          else do {
            (plid, llid) \<leftarrow> peering_ids ftype peering;
            let sta = map_option (\<lambda>i. sta_of i m) (sta_info_get m sa);
            if ftype = WLAN_SP_MESH_PEERING_OPEN \<and> \<not> rssi_threshold_check m sta then Some m
            else do {
              event \<leftarrow> mesh_plink_get_event env m sta elems ftype (length peering) llid plid;
              (changed, m) \<leftarrow> process_plink_event env sa cnf_aid elems event plid m;
              Some (ieee80211_mbss_info_change_notify changed m) } })"

definition mesh_rx_plink_frame ::
  "mesh_env \<Rightarrow> bool \<Rightarrow> u8 list \<Rightarrow> ieee80211_self_protected_actioncode \<Rightarrow> u16 \<Rightarrow> ieee802_11_elems \<Rightarrow> mesh_if \<Rightarrow> mesh_if option" where
  "mesh_rx_plink_frame env multicast sa action_code cnf_aid elems m =
     (if mi_user_mpm m then Some m
      else if multicast then Some m
      else mesh_process_plink_frame env sa action_code cnf_aid elems m)"

section \<open>Userspace and the removal of stations\<close>

datatype plink_actions = NL80211_PLINK_ACTION_NO_ACTION | NL80211_PLINK_ACTION_OPEN | NL80211_PLINK_ACTION_BLOCK

record mesh_station_parameters =
  sp_apply_plink_state :: bool
  sp_plink_state :: nl80211_plink_state
  sp_peer_aid :: u16
  sp_plink_action :: plink_actions
  sp_local_pm :: nl80211_mesh_power_mode

text \<open>What \<open>cfg80211_check_station_change\<close> lets through for a mesh peer.\<close>

definition mesh_station_change_ok :: "mesh_if \<Rightarrow> mesh_station_parameters \<Rightarrow> bool" where
  "mesh_station_change_ok m params \<longleftrightarrow>
     (if mi_user_mpm m then sp_plink_action params \<noteq> NL80211_PLINK_ACTION_OPEN else \<not> sp_apply_plink_state params)"

definition apply_plink_state :: "nat \<Rightarrow> mesh_station_parameters \<Rightarrow> mesh_if \<Rightarrow> u32 \<times> mesh_if" where
  "apply_plink_state i params m =
     (if sp_plink_state params = NL80211_PLINK_ESTAB then
        let (c1, m) = (if ms_plink_state (sta_of i m) \<noteq> NL80211_PLINK_ESTAB then mesh_plink_inc_estab_count m else (0, m));
            m = sta_upd i (\<lambda>s. s\<lparr>ms_plink_state := sp_plink_state params, ms_aid := sp_peer_aid params\<rparr>) m;
            (c2, m) = ieee80211_mps_set_sta_local_pm i (power_mode (mi_mshcfg m)) (ieee80211_mps_sta_status_update i m)
        in (c1 OR c2, m)
      else
        let (c1, m) = (if ms_plink_state (sta_of i m) = NL80211_PLINK_ESTAB then mesh_plink_dec_estab_count m else (0, m));
            m = sta_upd i (\<lambda>s. s\<lparr>ms_plink_state := sp_plink_state params\<rparr>) m;
            (c2, m) = ieee80211_mps_set_sta_local_pm i NL80211_MESH_POWER_UNKNOWN (ieee80211_mps_sta_status_update i m)
        in (c1 OR c2, m))"

definition sta_apply_mesh_params :: "mesh_env \<Rightarrow> nat \<Rightarrow> mesh_station_parameters \<Rightarrow> mesh_if \<Rightarrow> mesh_if option" where
  "sta_apply_mesh_params env i params m = do {
     let (c1, m) = (if sp_apply_plink_state params then apply_plink_state i params m else (0, m));
     (c2, m) \<leftarrow> (case sp_plink_action params of
         NL80211_PLINK_ACTION_NO_ACTION \<Rightarrow> Some (0, m)
       | NL80211_PLINK_ACTION_OPEN \<Rightarrow> mesh_plink_open env i m
       | NL80211_PLINK_ACTION_BLOCK \<Rightarrow> Some (mesh_plink_block i m));
     let (c3, m) = (if sp_local_pm params \<noteq> NL80211_MESH_POWER_UNKNOWN then ieee80211_mps_set_sta_local_pm i (sp_local_pm params) m
                    else (0, m));
     Some (ieee80211_mbss_info_change_notify (c1 OR c2 OR c3) m) }"

text \<open>
  \<open>__sta_info_destroy\<close> and \<open>__cleanup_single_sta\<close> for a mesh peer. The station leaves the list before
  its link is taken down, which no walk over the list can tell: a blocked link is skipped by all of them.
\<close>

definition cleanup_single_sta :: "nat \<Rightarrow> mesh_if \<Rightarrow> mesh_if" where
  "cleanup_single_sta i m =
     (let s = sta_of i m;
          m = (if test_sta_flag s WLAN_STA_PS_STA \<or> test_sta_flag s WLAN_STA_PS_DRIVER \<or> test_sta_flag s WLAN_STA_PS_DELIVER
               then (sta_upd i (\<lambda>s. clear_sta_flag WLAN_STA_PS_DELIVER (clear_sta_flag WLAN_STA_PS_DRIVER
                       (clear_sta_flag WLAN_STA_PS_STA s))) m)\<lparr>mi_num_sta_ps := mi_num_sta_ps m - 1\<rparr>
               else m);
          (changed, m) = mesh_plink_deactivate i m
      in ieee80211_mbss_info_change_notify changed m)"

definition sta_info_destroy :: "nat \<Rightarrow> mesh_if \<Rightarrow> mesh_if" where
  "sta_info_destroy i m =
     (let m = sta_upd i (\<lambda>s. (clear_sta_flag WLAN_STA_AUTH (clear_sta_flag WLAN_STA_ASSOC (clear_sta_flag WLAN_STA_AUTHORIZED s)))
                \<lparr>ms_sta_state := IEEE80211_STA_NONE\<rparr>) (m\<lparr>mi_num_sta := mi_num_sta m - 1\<rparr>);
          m = cleanup_single_sta i m
      in m\<lparr>mi_stas := take i (mi_stas m) @ drop (Suc i) (mi_stas m)\<rparr>)"

definition ieee80211_sta_last_active :: "mesh_sta \<Rightarrow> u64" where
  "ieee80211_sta_last_active s = (if time_after (ms_last_rx s) (ms_last_ack s) then ms_last_rx s else ms_last_ack s)"

fun sta_expire_from :: "u64 \<Rightarrow> u64 \<Rightarrow> nat \<Rightarrow> nat \<Rightarrow> mesh_if \<Rightarrow> mesh_if" where
  "sta_expire_from jiffies exp_time i 0 m = m"
| "sta_expire_from jiffies exp_time i (Suc left) m =
     (let s = sta_of i m in
      if time_after jiffies (ieee80211_sta_last_active s + exp_time) then
        sta_expire_from jiffies exp_time i left
          (sta_info_destroy i (if test_sta_flag s WLAN_STA_PS_STA then m\<lparr>mi_num_sta_ps := mi_num_sta_ps m - 1\<rparr> else m))
      else sta_expire_from jiffies exp_time (Suc i) left m)"

definition ieee80211_sta_expire :: "u64 \<Rightarrow> u64 \<Rightarrow> mesh_if \<Rightarrow> mesh_if" where
  "ieee80211_sta_expire jiffies exp_time m = sta_expire_from jiffies exp_time 0 (length (mi_stas m)) m"

end
