(* ===== verification/MeshSpec.thy ===== *)
theory MeshSpec
  imports MeshPlink
begin

text \<open>
  The peering protocol in the abstract: links with their states and IDs, moved by frames, timers and commands, and
  the count of established links. What it promises is proved here by rule induction: the count is right and, unless
  userspace runs the protocol, within the limit, a link is established by an OPEN and a CONFIRM frame that
  carries the ID given out, and the retry timeout neither vanishes nor overflows. MeshLink.thy shows that
  mesh_plink.c implements it.
\<close>

section \<open>Links and their moves\<close>

record peer_link =
  lk_addr :: "u8 list"
  lk_state :: nl80211_plink_state
  lk_llid :: u16
  lk_plid :: u16
  lk_timeout :: u32
  lk_retries :: u8

record peerings =
  pv_links :: "peer_link list"
  pv_estab :: int
  pv_retry_timeout :: u16
  pv_max_links :: u16
  pv_max_retries :: u8
  pv_user_mpm :: bool

text \<open>What makes a link move: a peering frame (its sender, the sender's link ID and ours), userspace, or anything else.\<close>

datatype cause = OpenFrame "u8 list" u16 | ConfirmFrame "u8 list" u16 u16 | LocalOpen | OtherCause

definition is_estab :: "peer_link \<Rightarrow> bool" where
  "is_estab l \<longleftrightarrow> lk_state l = NL80211_PLINK_ESTAB"

definition fresh_link :: "u8 list \<Rightarrow> peer_link" where
  "fresh_link a = \<lparr>lk_addr = a, lk_state = NL80211_PLINK_LISTEN, lk_llid = 0, lk_plid = 0, lk_timeout = 0, lk_retries = 0\<rparr>"

inductive link_move :: "peerings \<Rightarrow> cause \<Rightarrow> peer_link \<Rightarrow> peer_link \<Rightarrow> bool" for v where
  restart: "lk_state l \<in> {NL80211_PLINK_LISTEN, NL80211_PLINK_HOLDING} \<Longrightarrow>
    link_move v c l (l\<lparr>lk_state := NL80211_PLINK_LISTEN, lk_llid := 0, lk_plid := 0, lk_retries := 0\<rparr>)"
| opened: "lk_state l \<in> {NL80211_PLINK_LISTEN, NL80211_PLINK_BLOCKED} \<Longrightarrow>
    link_move v c l (l\<lparr>lk_llid := x, lk_state := NL80211_PLINK_OPN_SNT, lk_timeout := ucast (pv_retry_timeout v)\<rparr>)"
| renumber: "link_move v LocalOpen l (l\<lparr>lk_llid := x\<rparr>)"
| note_open: "lk_plid l = 0 \<or> lk_plid l = p \<Longrightarrow> link_move v (OpenFrame (lk_addr l) p) l (l\<lparr>lk_plid := p\<rparr>)"
| note_confirm: "lk_plid l = 0 \<or> lk_plid l = p \<Longrightarrow>
    link_move v (ConfirmFrame (lk_addr l) p (lk_llid l)) l (l\<lparr>lk_plid := p\<rparr>)"
| listen_open: "lk_state l = NL80211_PLINK_LISTEN \<Longrightarrow>
    link_move v (OpenFrame (lk_addr l) (lk_plid l)) l
      (l\<lparr>lk_state := NL80211_PLINK_OPN_RCVD, lk_llid := x, lk_timeout := ucast (pv_retry_timeout v)\<rparr>)"
| open_received: "lk_state l = NL80211_PLINK_OPN_SNT \<Longrightarrow>
    link_move v (OpenFrame (lk_addr l) (lk_plid l)) l (l\<lparr>lk_state := NL80211_PLINK_OPN_RCVD\<rparr>)"
| confirm_received: "lk_state l = NL80211_PLINK_OPN_SNT \<Longrightarrow>
    link_move v (ConfirmFrame (lk_addr l) (lk_plid l) (lk_llid l)) l (l\<lparr>lk_state := NL80211_PLINK_CNF_RCVD\<rparr>)"
| establish_confirm: "lk_state l = NL80211_PLINK_OPN_RCVD \<Longrightarrow> pv_estab v \<noteq> uint (pv_max_links v) \<Longrightarrow>
    link_move v (ConfirmFrame (lk_addr l) (lk_plid l) (lk_llid l)) l (l\<lparr>lk_state := NL80211_PLINK_ESTAB\<rparr>)"
| establish_open: "lk_state l = NL80211_PLINK_CNF_RCVD \<Longrightarrow> pv_estab v \<noteq> uint (pv_max_links v) \<Longrightarrow>
    link_move v (OpenFrame (lk_addr l) (lk_plid l)) l (l\<lparr>lk_state := NL80211_PLINK_ESTAB\<rparr>)"
| retry: "lk_state l \<in> {NL80211_PLINK_OPN_SNT, NL80211_PLINK_OPN_RCVD} \<Longrightarrow> lk_retries l < pv_max_retries v \<Longrightarrow>
    link_move v c l (l\<lparr>lk_timeout := lk_timeout l + r mod lk_timeout l, lk_retries := lk_retries l + 1\<rparr>)"
| hold: "lk_state l \<in> {NL80211_PLINK_OPN_SNT, NL80211_PLINK_OPN_RCVD, NL80211_PLINK_CNF_RCVD, NL80211_PLINK_ESTAB} \<Longrightarrow>
    link_move v c l (l\<lparr>lk_state := NL80211_PLINK_HOLDING\<rparr>)"
| block: "link_move v c l (l\<lparr>lk_state := NL80211_PLINK_BLOCKED\<rparr>)"
| assign: "pv_user_mpm v \<Longrightarrow> link_move v c l (l\<lparr>lk_state := s\<rparr>)"

inductive_cases link_move_cases: "link_move v c l l'"

definition set_link :: "nat \<Rightarrow> peer_link \<Rightarrow> peerings \<Rightarrow> peerings" where
  "set_link i l v = v\<lparr>pv_links := (pv_links v)[i := l],
     pv_estab := pv_estab v + of_bool (is_estab l) - of_bool (is_estab (pv_links v ! i))\<rparr>"

definition drop_link :: "nat \<Rightarrow> peerings \<Rightarrow> peerings" where
  "drop_link i v = v\<lparr>pv_links := take i (pv_links v) @ drop (Suc i) (pv_links v),
     pv_estab := pv_estab v - of_bool (is_estab (pv_links v ! i))\<rparr>"

inductive mesh_move :: "cause \<Rightarrow> peerings \<Rightarrow> peerings \<Rightarrow> bool" for c where
  link: "i < length (pv_links v) \<Longrightarrow> link_move v c (pv_links v ! i) l \<Longrightarrow> mesh_move c v (set_link i l v)"
| join: "mesh_move c v (v\<lparr>pv_links := pv_links v @ [fresh_link a]\<rparr>)"
| leave: "i < length (pv_links v) \<Longrightarrow> mesh_move c v (drop_link i v)"

text \<open>One event is any number of moves with its cause; a run is a list of events.\<close>

abbreviation mesh_moves :: "cause \<Rightarrow> peerings \<Rightarrow> peerings \<Rightarrow> bool" where
  "mesh_moves c \<equiv> (mesh_move c)\<^sup>*\<^sup>*"

inductive peering_run :: "peerings \<Rightarrow> cause list \<Rightarrow> peerings \<Rightarrow> bool" for v where
  start: "peering_run v [] v"
| event: "peering_run v cs v1 \<Longrightarrow> mesh_moves c v1 v2 \<Longrightarrow> peering_run v (cs @ [c]) v2"

section \<open>The invariants\<close>

definition counted :: "peerings \<Rightarrow> bool" where
  "counted v \<longleftrightarrow> pv_estab v = int (length (filter is_estab (pv_links v)))"

definition config_ok :: "peerings \<Rightarrow> bool" where
  "config_ok v \<longleftrightarrow> \<not> pv_user_mpm v \<and> 1 \<le> pv_retry_timeout v \<and> pv_retry_timeout v \<le> 255 \<and> pv_max_retries v \<le> 16"

text \<open>The retry timeout is at least the configured one and doubles at most with every retry.\<close>

definition timeout_ok :: "peerings \<Rightarrow> peer_link \<Rightarrow> bool" where
  "timeout_ok v l \<longleftrightarrow> lk_retries l \<le> pv_max_retries v \<and>
     (lk_state l \<in> {NL80211_PLINK_OPN_SNT, NL80211_PLINK_OPN_RCVD, NL80211_PLINK_CNF_RCVD} \<longrightarrow>
        unat (pv_retry_timeout v) \<le> unat (lk_timeout l) \<and>
        unat (lk_timeout l) \<le> unat (pv_retry_timeout v) * 2 ^ unat (lk_retries l))"

text \<open>The frames a link in each state goes back to; an ID of 0 stands for one not known.\<close>

definition opened_by :: "cause set \<Rightarrow> peer_link \<Rightarrow> bool" where
  "opened_by H l \<longleftrightarrow> (\<exists>p. OpenFrame (lk_addr l) p \<in> H \<and> (p = lk_plid l \<or> p = 0))"

definition confirmed_by :: "cause set \<Rightarrow> peer_link \<Rightarrow> bool" where
  "confirmed_by H l \<longleftrightarrow> (\<exists>p. ConfirmFrame (lk_addr l) p (lk_llid l) \<in> H \<and> (p = lk_plid l \<or> p = 0))"

definition handshake_ok :: "cause set \<Rightarrow> peer_link \<Rightarrow> bool" where
  "handshake_ok H l \<longleftrightarrow>
     (lk_state l \<in> {NL80211_PLINK_OPN_RCVD, NL80211_PLINK_ESTAB} \<longrightarrow> opened_by H l) \<and>
     (lk_state l \<in> {NL80211_PLINK_CNF_RCVD, NL80211_PLINK_ESTAB} \<longrightarrow> confirmed_by H l)"

lemma handshake_mono: "handshake_ok H l \<Longrightarrow> H \<subseteq> H' \<Longrightarrow> handshake_ok H' l"
  by (auto simp: handshake_ok_def opened_by_def confirmed_by_def)

lemma unat_ucast_u32 [simp]: "unat (ucast (x :: u16) :: u32) = unat x"
proof -
  have "unat x < 2 ^ 32" using unsigned_less [of x, where 'a = nat] by simp
  then show ?thesis by (simp add: unsigned_ucast_eq take_bit_nat_eq_self)
qed

lemma retry_timeout_step:
  assumes "1 \<le> R" "R \<le> 255" "n < 16" "R \<le> unat t" "unat t \<le> R * 2 ^ n"
  shows "unat t \<le> unat (t + r mod t :: u32)" "unat (t + r mod t) \<le> R * 2 ^ Suc n"
proof -
  have "(2 :: nat) ^ n \<le> 2 ^ 15" using assms(3) power_increasing [of n 15 "2 :: nat"] by simp
  then have "R * 2 ^ n \<le> 255 * 2 ^ 15" using assms(2) mult_le_mono by blast
  then have t: "unat t < 2 ^ 24" using assms(5) by simp
  have m: "unat (r mod t) < unat t" using assms(1,4) by (simp add: unat_mod)
  then have "unat (t + r mod t) = unat t + unat (r mod t)" using t by (simp add: unat_word_ariths)
  then show "unat t \<le> unat (t + r mod t)" "unat (t + r mod t) \<le> R * 2 ^ Suc n" using m assms(5) by simp_all
qed

lemma move_timeout:
  assumes "link_move v c l l'" and ok: "config_ok v" and l: "timeout_ok v l"
  shows "timeout_ok v l'"
  using assms(1)
proof (cases rule: link_move.cases)
  case (retry r)
  have n: "lk_retries l < 16" using less_le_trans [OF retry(3)] ok by (simp add: config_ok_def)
  then have u: "unat (lk_retries l + 1) = Suc (unat (lk_retries l))" "unat (lk_retries l) < 16"
    by (simp_all add: unat_word_ariths word_less_nat_alt)
  have R: "1 \<le> unat (pv_retry_timeout v)" "unat (pv_retry_timeout v) \<le> 255"
    using ok by (simp_all add: config_ok_def word_le_nat_alt)
  have t: "unat (pv_retry_timeout v) \<le> unat (lk_timeout l)"
    "unat (lk_timeout l) \<le> unat (pv_retry_timeout v) * 2 ^ unat (lk_retries l)"
    using l retry(2) by (auto simp: timeout_ok_def)
  have "lk_retries l + 1 \<le> pv_max_retries v"
    using retry(3) u by (simp add: word_le_nat_alt word_less_nat_alt)
  then show ?thesis
    using retry_timeout_step [OF R u(2) t, of r] t u by (simp add: timeout_ok_def retry(1))
qed (use l ok in \<open>simp_all add: timeout_ok_def config_ok_def, auto?\<close>)

lemma move_handshake:
  assumes "link_move v c l l'" and "c \<in> H" and "c \<noteq> LocalOpen" and "\<not> pv_user_mpm v" and l: "handshake_ok H l"
  shows "handshake_ok H l'"
  using assms
  by (cases rule: link_move.cases) (simp_all add: handshake_ok_def opened_by_def confirmed_by_def, blast+)

lemma move_addr: "link_move v c l l' \<Longrightarrow> lk_addr l' = lk_addr l"
  by (cases rule: link_move.cases) auto

lemma move_limit: "link_move v c l l' \<Longrightarrow> \<not> pv_user_mpm v \<Longrightarrow> is_estab l' \<Longrightarrow> \<not> is_estab l \<Longrightarrow> pv_estab v \<noteq> uint (pv_max_links v)"
  by (cases rule: link_move.cases) (auto simp: is_estab_def)

section \<open>They hold in every run\<close>

definition peerings_ok :: "peerings \<Rightarrow> bool" where
  "peerings_ok v \<longleftrightarrow> config_ok v \<and> pv_estab v \<le> uint (pv_max_links v) \<and> list_all (timeout_ok v) (pv_links v)"

text \<open>The count.\<close>

lemma filter_split: "i < length xs \<Longrightarrow>
    length (filter P xs) = length (filter P (take i xs)) + of_bool (P (xs ! i)) + length (filter P (drop (Suc i) xs))"
  by (subst id_take_nth_drop [of i xs]) (simp_all add: min_def)

lemma filter_update_length:
  "i < length xs \<Longrightarrow> length (filter P (xs[i := x])) + of_bool (P (xs ! i)) = length (filter P xs) + of_bool (P x)"
  by (simp add: upd_conv_take_nth_drop filter_split [of i xs])

lemma filter_drop_length:
  "i < length xs \<Longrightarrow> length (filter P (take i xs @ drop (Suc i) xs)) + of_bool (P (xs ! i)) = length (filter P xs)"
  by (simp add: filter_split [of i xs])

lemma counted_set: "i < length (pv_links v) \<Longrightarrow> counted v \<Longrightarrow> counted (set_link i l v)"
  using filter_update_length [of i "pv_links v" is_estab l] by (auto simp: counted_def set_link_def split: if_splits)

lemma counted_drop: "i < length (pv_links v) \<Longrightarrow> counted v \<Longrightarrow> counted (drop_link i v)"
  using filter_drop_length [of i "pv_links v" is_estab] by (auto simp: counted_def drop_link_def split: if_splits)

lemma mesh_move_counted: "mesh_move c v v' \<Longrightarrow> counted v \<Longrightarrow> counted v'"
  by (induction rule: mesh_move.induct)
    (simp_all add: counted_set counted_drop, simp add: counted_def fresh_link_def is_estab_def)

lemma peering_run_counted: "peering_run v cs v' \<Longrightarrow> counted v \<Longrightarrow> counted v'"
proof (induction rule: peering_run.induct)
  case (event cs v1 c v2)
  from event.hyps(2) event.IH [OF event.prems] show ?case
    by (induction rule: rtranclp_induct) (auto intro: mesh_move_counted)
qed

text \<open>The limit and the timeouts.\<close>

lemma list_all_update: "list_all P xs \<Longrightarrow> P x \<Longrightarrow> list_all P (xs[i := x])"
  using set_update_subset_insert [of xs i x] by (auto simp: list_all_iff)

lemma list_all_drop: "list_all P xs \<Longrightarrow> list_all P (take i xs @ drop (Suc i) xs)"
  by (auto simp: list_all_iff dest: in_set_takeD in_set_dropD)

lemma config_unchanged [simp]:
  "pv_retry_timeout (set_link i l v) = pv_retry_timeout v" "pv_max_links (set_link i l v) = pv_max_links v"
  "pv_max_retries (set_link i l v) = pv_max_retries v" "pv_retry_timeout (drop_link i v) = pv_retry_timeout v"
  "pv_max_links (drop_link i v) = pv_max_links v" "pv_max_retries (drop_link i v) = pv_max_retries v"
  "pv_user_mpm (set_link i l v) = pv_user_mpm v" "pv_user_mpm (drop_link i v) = pv_user_mpm v"
  "pv_links (set_link i l v) = (pv_links v)[i := l]" "pv_links (drop_link i v) = take i (pv_links v) @ drop (Suc i) (pv_links v)"
  by (simp_all add: set_link_def drop_link_def)

lemma timeout_config [simp]:
  "timeout_ok (set_link i l v) = timeout_ok v" "timeout_ok (drop_link i v) = timeout_ok v"
  "timeout_ok (v\<lparr>pv_links := ls\<rparr>) = timeout_ok v"
  by (simp_all add: timeout_ok_def fun_eq_iff)

lemma mesh_move_ok:
  assumes "mesh_move c v v'" and v: "peerings_ok v"
  shows "peerings_ok v'"
  using assms(1)
proof cases
  case (link i l)
  then have "timeout_ok v l" using v move_timeout by (auto simp: peerings_ok_def list_all_length)
  then have t: "list_all (timeout_ok v') (pv_links v')"
    using v link(1) by (simp add: peerings_ok_def list_all_update)
  have "pv_estab v' \<le> uint (pv_max_links v)"
    using v move_limit [OF link(3)] by (auto simp: link(1) set_link_def peerings_ok_def config_ok_def)
  then show ?thesis using v t by (simp add: link(1) peerings_ok_def config_ok_def)
next
  case (join a)
  have "timeout_ok v' (fresh_link a)" by (simp add: timeout_ok_def fresh_link_def)
  then show ?thesis using v
    by (simp add: join peerings_ok_def config_ok_def)
next
  case (leave i)
  have "pv_estab v' \<le> uint (pv_max_links v)" using v by (auto simp: leave(1) drop_link_def peerings_ok_def)
  then show ?thesis using v
    by (simp add: leave(1) peerings_ok_def config_ok_def list_all_drop del: list_all_append)
qed

lemma mesh_move_handshakes:
  assumes "mesh_move c v v'" "c \<in> H" "c \<noteq> LocalOpen" "\<not> pv_user_mpm v" "list_all (handshake_ok H) (pv_links v)"
  shows "list_all (handshake_ok H) (pv_links v')"
  using assms(1)
proof cases
  case (link i l)
  then have "handshake_ok H l" using assms(2-5) move_handshake by (auto simp: list_all_length)
  then show ?thesis using assms(5) by (simp add: link(1) list_all_update)
next
  case (join a)
  then show ?thesis using assms by (simp add: handshake_ok_def fresh_link_def)
next
  case (leave i)
  then show ?thesis using assms by (simp add: list_all_drop del: list_all_append)
qed

lemma peering_run_ok: "peering_run v cs v' \<Longrightarrow> peerings_ok v \<Longrightarrow> peerings_ok v'"
proof (induction rule: peering_run.induct)
  case (event cs v1 c v2)
  from event.hyps(2) event.IH [OF event.prems] show ?case
    by (induction rule: rtranclp_induct) (auto intro: mesh_move_ok)
qed

lemma mesh_move_config:
  "mesh_move c v v' \<Longrightarrow> pv_user_mpm v' = pv_user_mpm v \<and> pv_max_links v' = pv_max_links v \<and>
    pv_retry_timeout v' = pv_retry_timeout v \<and> pv_max_retries v' = pv_max_retries v"
  by (induction rule: mesh_move.induct) simp_all

lemma mesh_moves_config:
  "mesh_moves c v v' \<Longrightarrow> pv_user_mpm v' = pv_user_mpm v \<and> pv_max_links v' = pv_max_links v \<and>
    pv_retry_timeout v' = pv_retry_timeout v \<and> pv_max_retries v' = pv_max_retries v"
  by (induction rule: rtranclp_induct) (auto dest: mesh_move_config)

lemma peering_run_config: "peering_run v cs v' \<Longrightarrow> pv_user_mpm v' = pv_user_mpm v"
  by (induction rule: peering_run.induct) (auto dest: mesh_moves_config)

lemma peering_run_handshakes:
  assumes "peering_run v cs v'" "LocalOpen \<notin> set cs" "\<not> pv_user_mpm v" "list_all (handshake_ok {}) (pv_links v)"
  shows "list_all (handshake_ok (set cs)) (pv_links v')"
  using assms
proof (induction rule: peering_run.induct)
  case (event cs v1 c v2)
  have u: "\<not> pv_user_mpm v1" using peering_run_config [OF event.hyps(1)] event.prems(2) by simp
  have "list_all (handshake_ok (set (cs @ [c]))) (pv_links v1)"
    using event by (auto simp: list_all_iff intro: handshake_mono)
  with event.hyps(2) show ?case
  proof (induction rule: rtranclp_induct)
    case (step y z)
    moreover have "\<not> pv_user_mpm y" using mesh_moves_config [OF step.hyps(1)] u by simp
    ultimately show ?case using event.prems(1) by (auto intro: mesh_move_handshakes)
  qed simp
qed simp

end
