(* ===== verification/MeshLink.thy ===== *)
theory MeshLink
  imports MeshSpec
begin

text \<open>
  That net/mac80211/mesh_plink.c implements the peering protocol of MeshSpec.thy: the view of an interface as links and
  counters, how every operation moves it, and from that the invariants over runs of all events. Then
  the end of links to silent peers, the handshake of two stations, and what the code gets wrong.
\<close>

section \<open>The view of an interface\<close>

definition link_of :: "mesh_sta \<Rightarrow> peer_link" where
  "link_of s = \<lparr>lk_addr = ms_addr s, lk_state = ms_plink_state s, lk_llid = ms_llid s, lk_plid = ms_plid s,
     lk_timeout = ms_plink_timeout s, lk_retries = ms_plink_retries s\<rparr>"

definition view :: "mesh_if \<Rightarrow> peerings" where
  "view m = \<lparr>pv_links = map link_of (mi_stas m), pv_estab = mi_estab_plinks m,
     pv_retry_timeout = dot11MeshRetryTimeout (mi_mshcfg m), pv_max_links = dot11MeshMaxPeerLinks (mi_mshcfg m),
     pv_max_retries = dot11MeshMaxRetries (mi_mshcfg m), pv_user_mpm = mi_user_mpm m\<rparr>"

abbreviation lk :: "mesh_if \<Rightarrow> nat \<Rightarrow> peer_link" where
  "lk m i \<equiv> pv_links (view m) ! i"

abbreviation in_range :: "nat \<Rightarrow> mesh_if \<Rightarrow> bool" where
  "in_range i m \<equiv> i < length (pv_links (view m))"

lemma link_of_sta [simp]: "in_range i m \<Longrightarrow> link_of (sta_of i m) = lk m i"
  by (simp add: view_def sta_of_def)

lemma link_of_fields [simp]:
  "lk_addr (link_of s) = ms_addr s" "lk_state (link_of s) = ms_plink_state s" "lk_llid (link_of s) = ms_llid s"
  "lk_plid (link_of s) = ms_plid s" "lk_timeout (link_of s) = ms_plink_timeout s" "lk_retries (link_of s) = ms_plink_retries s"
  by (simp_all add: link_of_def)

lemma lk_fields:
  assumes "in_range i m"
  shows "ms_plink_state (sta_of i m) = lk_state (lk m i)" "ms_llid (sta_of i m) = lk_llid (lk m i)"
    "ms_plid (sta_of i m) = lk_plid (lk m i)" "ms_addr (sta_of i m) = lk_addr (lk m i)"
    "ms_plink_timeout (sta_of i m) = lk_timeout (lk m i)" "ms_plink_retries (sta_of i m) = lk_retries (lk m i)"
  using link_of_sta [OF assms] by (simp_all flip: link_of_fields)

lemma link_of_update [simp]:
  "link_of (s\<lparr>ms_plink_state := p\<rparr>) = (link_of s)\<lparr>lk_state := p\<rparr>"
  "link_of (s\<lparr>ms_llid := x\<rparr>) = (link_of s)\<lparr>lk_llid := x\<rparr>"
  "link_of (s\<lparr>ms_plid := x\<rparr>) = (link_of s)\<lparr>lk_plid := x\<rparr>"
  "link_of (s\<lparr>ms_plink_timeout := t\<rparr>) = (link_of s)\<lparr>lk_timeout := t\<rparr>"
  "link_of (s\<lparr>ms_plink_retries := r\<rparr>) = (link_of s)\<lparr>lk_retries := r\<rparr>"
  "link_of (s\<lparr>ms_aid := a\<rparr>) = link_of s" "link_of (s\<lparr>ms_reason := x\<rparr>) = link_of s"
  "link_of (s\<lparr>ms_timer_expires := e\<rparr>) = link_of s" "link_of (s\<lparr>ms_timer_pending := b\<rparr>) = link_of s"
  "link_of (s\<lparr>ms_local_pm := pm\<rparr>) = link_of s" "link_of (s\<lparr>ms_flags := f\<rparr>) = link_of s"
  "link_of (s\<lparr>ms_last_rx := e\<rparr>) = link_of s" "link_of (s\<lparr>ms_processed_beacon := b\<rparr>) = link_of s"
  "link_of (s\<lparr>ms_supp_rates := w\<rparr>) = link_of s" "link_of (s\<lparr>ms_bandwidth := bw\<rparr>) = link_of s"
  "link_of (s\<lparr>ms_ht_supported := b\<rparr>) = link_of s" "link_of (s\<lparr>ms_connected_to_gate := b\<rparr>) = link_of s"
  "link_of (s\<lparr>ms_sta_state := st\<rparr>) = link_of s" "link_of (s\<lparr>ms_peer_pm := pm\<rparr>) = link_of s"
  "link_of (s\<lparr>ms_nonpeer_pm := pm\<rparr>) = link_of s"
  by (simp_all add: link_of_def)

lemma link_of_helpers [simp]:
  "link_of (set_sta_flag f s) = link_of s" "link_of (clear_sta_flag f s) = link_of s"
  "link_of (mod_plink_timer env t s) = link_of s" "link_of (del_plink_timer s) = link_of s"
  "link_of (mesh_plink_timer_set env t s) = (link_of s)\<lparr>lk_timeout := t\<rparr>"
  "link_of (mesh_plink_fsm_restart s) = (link_of s)\<lparr>lk_state := NL80211_PLINK_LISTEN, lk_llid := 0, lk_plid := 0, lk_retries := 0\<rparr>"
  by (simp_all add: set_sta_flag_def clear_sta_flag_def mod_plink_timer_def del_plink_timer_def mesh_plink_timer_set_def
      mesh_plink_fsm_restart_def)

text \<open>Changes of one station, and of what the view does not show.\<close>

lemma view_sta_upd: "view (sta_upd i f m) = (view m)\<lparr>pv_links := (pv_links (view m))[i := link_of (f (sta_of i m))]\<rparr>"
  by (simp add: view_def sta_upd_def sta_of_def map_update)

lemma view_sta_upd_same:
  assumes "\<And>s. link_of (f s) = link_of s"
  shows "view (sta_upd i f m) = view m"
  by (cases "in_range i m") (simp_all add: view_sta_upd assms list_update_beyond not_less)

lemma view_unseen [simp]:
  "view (log_effect e m) = view m" "view (m\<lparr>mi_num_sta_ps := n\<rparr>) = view m" "view (m\<lparr>mi_num_sta := k\<rparr>) = view m"
  "view (m\<lparr>mi_accepting_plinks := b\<rparr>) = view m" "view (m\<lparr>mi_use_short_slot := b\<rparr>) = view m"
  "view (m\<lparr>mi_nonpeer_pm := pm, mi_ps_peers_light_sleep := j, mi_ps_peers_deep_sleep := k\<rparr>) = view m"
  "view (m\<lparr>mi_ht_operation_mode := w, mi_mshcfg := (mi_mshcfg m)\<lparr>ht_opmode := w\<rparr>\<rparr>) = view m"
  "view (m\<lparr>mi_estab_plinks := z\<rparr>) = (view m)\<lparr>pv_estab := z\<rparr>"
  by (simp_all add: view_def log_effect_def)

lemma view_frames [simp]:
  "view (mesh_plink_frame_tx a aid da l p r m) = view m" "view (sta_frame_tx a r i m) = view m"
  "view (ieee80211_mbss_info_change_notify ch m) = view m"
  by (simp_all add: mesh_plink_frame_tx_def sta_frame_tx_def Let_def ieee80211_mbss_info_change_notify_def)

lemma view_modes [simp]:
  "view (snd (mesh_accept_plinks_update m)) = view m" "view (snd (mesh_set_ht_prot_mode m)) = view m"
  "view (snd (mesh_set_short_slot_time m)) = view m" "view (snd (ieee80211_mps_local_status_update m)) = view m"
  by (simp_all add: mesh_accept_plinks_update_def mesh_set_ht_prot_mode_def mesh_set_short_slot_time_def
      ieee80211_mps_local_status_update_def Let_def split: prod.split option.split)

lemma view_power_save [simp]:
  "view (ieee80211_mps_sta_status_update i m) = view m" "view (snd (ieee80211_mps_set_sta_local_pm i pm m)) = view m"
  by (simp_all add: ieee80211_mps_sta_status_update_def ieee80211_mps_set_sta_local_pm_def ieee80211_sta_ps_deliver_wakeup_def
      Let_def view_sta_upd_same)

lemma view_counts [simp]:
  "view (snd (mesh_plink_inc_estab_count m)) = (view m)\<lparr>pv_estab := pv_estab (view m) + 1\<rparr>"
  "view (snd (mesh_plink_dec_estab_count m)) = (view m)\<lparr>pv_estab := pv_estab (view m) - 1\<rparr>"
  by (simp_all add: mesh_plink_inc_estab_count_def mesh_plink_dec_estab_count_def split_def Let_def)
    (simp_all add: view_def)

section \<open>The operations move the links\<close>

lemma set_link_same: "is_estab l = is_estab (pv_links v ! i) \<Longrightarrow> set_link i l v = v\<lparr>pv_links := (pv_links v)[i := l]\<rparr>"
  by (simp add: set_link_def)

lemma set_link_twice [simp]: "i < length (pv_links v) \<Longrightarrow> set_link i l (set_link i l' v) = set_link i l v"
  by (simp add: set_link_def)

lemma view_set_link:
  "in_range i m \<Longrightarrow> is_estab (link_of (f (sta_of i m))) = is_estab (lk m i) \<Longrightarrow>
   view (sta_upd i f m) = set_link i (link_of (f (sta_of i m))) (view m)"
  by (simp add: view_sta_upd set_link_same)

lemma one_move:
  "i < length (pv_links v) \<Longrightarrow> link_move v c (pv_links v ! i) l \<Longrightarrow> mesh_moves c v (set_link i l v)"
  by (blast intro: mesh_move.link)

lemma no_move [simp]: "mesh_moves c v v"
  by blast

lemma view_close:
  assumes "in_range i m" "\<not> is_estab (lk m i)"
  shows "view (mesh_plink_close env i ev m) = set_link i ((lk m i)\<lparr>lk_state := NL80211_PLINK_HOLDING\<rparr>) (view m)"
  using assms by (simp add: mesh_plink_close_def view_set_link is_estab_def)

lemma view_blocked:
  assumes "in_range i m"
  shows "view (snd (mesh_plink_deactivate_locked i m)) = set_link i ((lk m i)\<lparr>lk_state := NL80211_PLINK_BLOCKED\<rparr>) (view m)"
  using assms
  by (simp add: mesh_plink_deactivate_locked_def split_def Let_def view_sta_upd set_link_def is_estab_def lk_fields)

lemma view_established:
  assumes "in_range i m" "\<not> is_estab (lk m i)"
  shows "view (snd (mesh_plink_establish i m)) = set_link i ((lk m i)\<lparr>lk_state := NL80211_PLINK_ESTAB\<rparr>) (view m)"
  using assms
  by (simp add: mesh_plink_establish_def split_def Let_def view_sta_upd set_link_def is_estab_def)
lemma config_view:
  "mi_mshcfg (sta_upd i f m) = mi_mshcfg m" "dot11MeshRetryTimeout (mi_mshcfg m) = pv_retry_timeout (view m)"
  "dot11MeshMaxRetries (mi_mshcfg m) = pv_max_retries (view m)"
  by (simp_all add: sta_upd_def view_def)

lemma opened_view:
  assumes "in_range i m" "lk_state (lk m i) \<in> {NL80211_PLINK_LISTEN, NL80211_PLINK_BLOCKED}"
    and "mesh_plink_open env i m = Some (ch, m')"
  shows "mesh_moves c (view m) (view m')"
proof -
  have n: "\<not> is_estab (lk m i)" using assms(2) by (auto simp: is_estab_def)
  have "view m' = view m \<or> (\<exists>x. view m' = set_link i ((lk m i)\<lparr>lk_llid := x, lk_state := NL80211_PLINK_OPN_SNT,
      lk_timeout := ucast (pv_retry_timeout (view m))\<rparr>) (view m))"
    using assms n
    by (auto simp: mesh_plink_open_def split_def Let_def view_sta_upd set_link_def is_estab_def lk_fields config_view split: if_splits bind_splits)
  then show ?thesis using one_move [OF assms(1) link_move.opened [OF assms(2)]] by auto
qed

lemma open_moves:
  assumes "in_range i m" "mesh_plink_open env i m = Some (ch, m')"
  shows "mesh_moves LocalOpen (view m) (view m')"
proof (cases "lk_state (lk m i) \<in> {NL80211_PLINK_LISTEN, NL80211_PLINK_BLOCKED}")
  case True
  then show ?thesis using opened_view assms by blast
next
  case False
  then have "view m' = view m \<or> (\<exists>x. view m' = set_link i ((lk m i)\<lparr>lk_llid := x\<rparr>) (view m))"
    using assms
    by (auto simp: mesh_plink_open_def split_def Let_def view_sta_upd set_link_def is_estab_def lk_fields config_view split: if_splits bind_splits)
  then show ?thesis using one_move [OF assms(1) link_move.renumber] by auto
qed

text \<open>The state machine: an accepted OPEN or CONFIRM is one whose ID has been noted.\<close>

definition event_from :: "mesh_if \<Rightarrow> nat \<Rightarrow> plink_event \<Rightarrow> cause \<Rightarrow> bool" where
  "event_from m i ev c \<longleftrightarrow>
     (ev = OPN_ACPT \<longrightarrow> c = OpenFrame (lk_addr (lk m i)) (lk_plid (lk m i)) \<and> mesh_plink_free_count m \<noteq> 0) \<and>
     (ev = CNF_ACPT \<longrightarrow> c = ConfirmFrame (lk_addr (lk m i)) (lk_plid (lk m i)) (lk_llid (lk m i)) \<and> mesh_plink_free_count m \<noteq> 0)"

lemma free_count: "mesh_plink_free_count m = uint (pv_max_links (view m)) - pv_estab (view m)"
  by (simp add: mesh_plink_free_count_def view_def)

lemma fsm_switch_moves:
  assumes i: "in_range i m" and s: "fsm_switch env i ev m = Some (ch, a, fl, m')" and e: "event_from m i ev c"
  shows "mesh_moves c (view m) (view m')"
proof (cases "lk_state (lk m i)")
  case NL80211_PLINK_LISTEN
  have n: "\<not> is_estab (lk m i)" using NL80211_PLINK_LISTEN by (simp add: is_estab_def)
  show ?thesis
  proof (cases "ev = OPN_ACPT")
    case True
    then obtain x where "view m' = set_link i ((lk m i)\<lparr>lk_state := NL80211_PLINK_OPN_RCVD, lk_llid := x,
        lk_timeout := ucast (pv_retry_timeout (view m))\<rparr>) (view m)"
      using s i n NL80211_PLINK_LISTEN
      by (cases ev) (auto simp: fsm_switch_def Let_def lk_fields split_def Let_def view_sta_upd set_link_def is_estab_def config_view split: bind_splits)
    then show ?thesis using e True one_move [OF i link_move.listen_open [OF NL80211_PLINK_LISTEN]] by (simp add: event_from_def)
  next
    case False
    then show ?thesis using s i n NL80211_PLINK_LISTEN one_move [OF i link_move.restart, of c]
      by (cases ev) (auto simp: fsm_switch_def Let_def lk_fields view_set_link is_estab_def)
  qed
next
  case NL80211_PLINK_BLOCKED
  then show ?thesis using s i by (simp add: fsm_switch_def lk_fields)
next
  case NL80211_PLINK_HOLDING
  then show ?thesis using s i one_move [OF i link_move.restart, of c]
    by (cases ev) (auto simp: fsm_switch_def Let_def lk_fields view_set_link is_estab_def)
next
  case NL80211_PLINK_OPN_SNT
  then show ?thesis using s i e one_move [OF i link_move.hold, of c] one_move [OF i link_move.open_received] one_move [OF i link_move.confirm_received]
    by (cases ev) (auto simp: fsm_switch_def Let_def fsm_close_def view_close lk_fields view_set_link is_estab_def event_from_def)
next
  case NL80211_PLINK_OPN_RCVD
  then show ?thesis using s i e one_move [OF i link_move.hold, of c] one_move [OF i link_move.establish_confirm]
    by (cases ev) (auto simp: fsm_switch_def Let_def fsm_close_def view_close lk_fields is_estab_def event_from_def free_count split_def view_established)
next
  case NL80211_PLINK_CNF_RCVD
  then show ?thesis using s i e one_move [OF i link_move.hold, of c] one_move [OF i link_move.establish_open]
    by (cases ev) (auto simp: fsm_switch_def Let_def fsm_close_def view_close lk_fields is_estab_def event_from_def free_count split_def view_established)
next
  case NL80211_PLINK_ESTAB
  have "\<not> is_estab (lk (snd (mesh_plink_deactivate_locked i m)) i)" using i by (simp add: view_blocked is_estab_def)
  then show ?thesis using NL80211_PLINK_ESTAB s i one_move [OF i link_move.hold, of c]
    by (cases ev) (auto simp: fsm_switch_def Let_def fsm_close_def view_close lk_fields split_def view_blocked is_estab_def)
qed

lemma fsm_moves:
  assumes "in_range i m" "mesh_plink_fsm env i ev m = Some (ch, m')" "event_from m i ev c"
  shows "mesh_moves c (view m) (view m')"
proof -
  obtain ch a fl m1 where s: "fsm_switch env i ev m = Some (ch, a, fl, m1)" and v: "view m' = view m1"
    using assms(2) by (auto simp: mesh_plink_fsm_def Let_def split: bind_splits option.splits if_splits)
  show ?thesis using fsm_switch_moves [OF assms(1) s assms(3)] v by simp
qed

text \<open>The timer.\<close>

lemma timer_moves:
  assumes i: "in_range i m" and t: "mesh_plink_timer env i m = Some m'"
  shows "mesh_moves c (view m) (view m')"
proof -
  have h: "view (timer_holding env r i m) = set_link i ((lk m i)\<lparr>lk_state := NL80211_PLINK_HOLDING\<rparr>) (view m)"
    if "\<not> is_estab (lk m i)" for r
    using that i by (simp add: timer_holding_def view_set_link is_estab_def)
  have r: "view (sta_upd i (timer_retry env) m) = set_link i ((lk m i)\<lparr>lk_timeout := lk_timeout (lk m i) + en_rand env mod lk_timeout (lk m i),
      lk_retries := lk_retries (lk m i) + 1\<rparr>) (view m)"
    using i by (simp add: timer_retry_def Let_def view_set_link is_estab_def lk_fields)
  show ?thesis
  proof (cases "lk_state (lk m i)")
    case NL80211_PLINK_HOLDING
    then show ?thesis using t i one_move [OF i link_move.restart, of c]
      by (auto simp: mesh_plink_timer_def Let_def lk_fields view_set_link is_estab_def split: if_splits)
  qed (use t i h r one_move [OF i link_move.hold, of c] one_move [OF i link_move.retry, of c] in
      \<open>auto simp: mesh_plink_timer_def Let_def lk_fields is_estab_def config_view split: if_splits\<close>)
qed

text \<open>Stations found or made for a frame.\<close>

lemma sta_init_same: "link_of (mesh_sta_info_init env m elems s) = link_of s"
  by (simp add: mesh_sta_info_init_def Let_def split: option.split prod.split)

lemma find_sta_Some: "find_sta ss a = Some i \<Longrightarrow> i < length ss \<and> ms_addr (ss ! i) = a"
  by (induction ss arbitrary: i) (auto split: if_splits)

lemma sta_info_get_lk: "sta_info_get m a = Some i \<Longrightarrow> in_range i m \<and> lk_addr (lk m i) = a"
  using find_sta_Some [of "mi_stas m" a i] by (auto simp: sta_info_get_def view_def)

lemma sta_get_moves:
  assumes "mesh_sta_info_get env a elems m = Some (sta, m')"
  shows "mesh_moves c (view m) (view m')" "pv_estab (view m') = pv_estab (view m)"
    "sta = Some i \<Longrightarrow> in_range i m' \<and> lk_addr (lk m' i) = a \<and>
      lk m' i = (case sta_info_get m a of None \<Rightarrow> fresh_link a | Some j \<Rightarrow> lk m j)"
proof -
  have n: "link_of (mesh_sta_info_init env m elems (new_mesh_sta a aid)) = fresh_link a" for aid m
    by (simp add: sta_init_same) (simp add: new_mesh_sta_def fresh_link_def link_of_def)
  have "view m' = view m \<and> (sta = None \<or> (\<exists>j. sta = Some j \<and> sta_info_get m a = Some j)) \<or>
      sta_info_get m a = None \<and> sta = Some (length (pv_links (view m))) \<and>
      view m' = (view m)\<lparr>pv_links := pv_links (view m) @ [fresh_link a]\<rparr>"
  proof (cases "sta_info_get m a")
    case (Some j)
    then show ?thesis using assms by (auto simp: mesh_sta_info_get_def view_sta_upd_same sta_init_same)
  next
    case None
    obtain s m1 where s: "mesh_sta_info_alloc env a elems m = Some (s, m1)" and
      m': "(case s of None \<Rightarrow> Some (None, m1) | Some s \<Rightarrow>
               if \<not> en_insert_ok env then Some (None, m1)
               else Some (Some (length (mi_stas m1)), sta_info_insert (mesh_sta_info_init env m1 elems s) m1)) = Some (sta, m')"
      using assms None by (auto simp: mesh_sta_info_get_def split: bind_splits)
    have v: "view m1 = view m" and a: "\<And>x. s = Some x \<Longrightarrow> m1 = m \<and> (\<exists>aid. x = new_mesh_sta a aid)"
      using s by (auto simp: mesh_sta_info_alloc_def mesh_sta_info_alloc_kernel_def split: if_splits bind_splits sum.splits)
    have "view (sta_info_insert x m) = (view m)\<lparr>pv_links := pv_links (view m) @ [link_of x]\<rparr>" for x
      unfolding sta_info_insert_def view_modes by (simp add: view_def)
    then show ?thesis using m' v a None by (auto simp: n view_def split: option.splits if_splits)
  qed
  then show "mesh_moves c (view m) (view m')" "pv_estab (view m') = pv_estab (view m)"
    "sta = Some i \<Longrightarrow> in_range i m' \<and> lk_addr (lk m' i) = a \<and>
      lk m' i = (case sta_info_get m a of None \<Rightarrow> fresh_link a | Some j \<Rightarrow> lk m j)"
    using mesh_move.join [of c "view m" a] sta_info_get_lk [of m a]
    by (auto simp: nth_append fresh_link_def)
qed

lemma neighbour_moves:
  assumes "mesh_neighbour_update env a elems m = Some m'"
  shows "mesh_moves c (view m) (view m')"
proof -
  obtain sta m1 where g: "mesh_sta_info_get env a elems m = Some (sta, m1)"
    using assms by (auto simp: mesh_neighbour_update_def split: bind_splits)
  show ?thesis
  proof (cases sta)
    case None
    then show ?thesis using assms g sta_get_moves(1) [OF g] by (simp add: mesh_neighbour_update_def)
  next
    case (Some i)
    have i: "in_range i m1" using sta_get_moves(3) [OF g Some] by blast
    obtain mc where c: "el_mesh_config elems = Some mc"
      using assms by (auto simp: mesh_neighbour_update_def g Some split: bind_splits)
    define m2 where "m2 = sta_upd i (\<lambda>s. s\<lparr>ms_connected_to_gate :=
        (meshconf_form mc AND IEEE80211_MESHCONF_FORM_CONNECTED_TO_GATE \<noteq> 0)\<rparr>) m1"
    have v: "view m2 = view m1" by (simp add: m2_def view_sta_upd_same)
    then have st: "ms_plink_state (sta_of i m2) = lk_state (lk m2 i)" using i by (simp add: lk_fields)
    have "view m' = view m2 \<or> lk_state (lk m2 i) = NL80211_PLINK_LISTEN \<and>
        (\<exists>ch m3. mesh_plink_open env i m2 = Some (ch, m3) \<and> view m' = view m3)"
      using assms by (auto simp: mesh_neighbour_update_def g Some c m2_def [symmetric] st split: bind_splits if_splits)
    then have "mesh_moves c (view m1) (view m')" using opened_view [of i m2] i v by auto
    then show ?thesis using sta_get_moves(1) [OF g] by (meson rtranclp_trans)
  qed
qed

section \<open>Frames, commands and removals\<close>

definition frame_cause :: "ieee80211_self_protected_actioncode \<Rightarrow> u8 list \<Rightarrow> u16 \<Rightarrow> u16 \<Rightarrow> cause" where
  "frame_cause ftype sa plid llid =
     (case ftype of
        WLAN_SP_MESH_PEERING_OPEN \<Rightarrow> OpenFrame sa plid
      | WLAN_SP_MESH_PEERING_CONFIRM \<Rightarrow> ConfirmFrame sa plid llid
      | WLAN_SP_MESH_PEERING_CLOSE \<Rightarrow> OtherCause)"

lemma accepted_open:
  assumes "mesh_plink_get_event env m sta elems ftype n llid plid = Some OPN_ACPT"
  shows "ftype = WLAN_SP_MESH_PEERING_OPEN" "mesh_plink_free_count m \<noteq> 0"
    "sta = Some s \<Longrightarrow> ms_plid s = 0 \<or> ms_plid s = plid"
  using assms by (auto simp: mesh_plink_get_event_def Let_def
      split: bind_splits option.splits if_splits ieee80211_self_protected_actioncode.splits)

lemma accepted_confirm:
  assumes "mesh_plink_get_event env m sta elems ftype n llid plid = Some CNF_ACPT"
  shows "ftype = WLAN_SP_MESH_PEERING_CONFIRM" "mesh_plink_free_count m \<noteq> 0"
    "sta = Some s \<Longrightarrow> ms_llid s = llid \<and> (ms_plid s = 0 \<or> ms_plid s = plid)"
  using assms by (auto simp: mesh_plink_get_event_def Let_def
      split: bind_splits option.splits if_splits ieee80211_self_protected_actioncode.splits)

lemma open_frame_moves:
  assumes e: "mesh_plink_get_event env m (map_option (\<lambda>i. sta_of i m) (sta_info_get m sa)) elems ftype n llid plid = Some OPN_ACPT"
    and p: "process_plink_event env sa aid elems OPN_ACPT plid m = Some (ch, m')"
  shows "mesh_moves (frame_cause ftype sa plid llid) (view m) (view m')"
proof -
  obtain sta m1 where g: "mesh_sta_info_get env sa elems m = Some (sta, m1)"
    using p by (auto simp: process_plink_event_def split: bind_splits)
  let ?c = "OpenFrame sa plid"
  have c: "frame_cause ftype sa plid llid = ?c" using accepted_open(1) [OF e] by (simp add: frame_cause_def)
  note get = sta_get_moves [OF g]
  show ?thesis
  proof (cases sta)
    case None
    then show ?thesis using p g get(1) by (simp add: process_plink_event_def)
  next
    case (Some i)
    have i: "in_range i m1" "lk_addr (lk m1 i) = sa" using get(3) [OF Some] by auto
    define m2 where "m2 = sta_upd i (\<lambda>s. s\<lparr>ms_plid := plid\<rparr>) m1"
    have v: "view m2 = set_link i ((lk m1 i)\<lparr>lk_plid := plid\<rparr>) (view m1)"
      using i by (simp add: m2_def view_set_link is_estab_def)
    have "lk_plid (lk m1 i) = 0 \<or> lk_plid (lk m1 i) = plid"
    proof (cases "sta_info_get m sa")
      case None
      then show ?thesis using get(3) [OF Some] by (simp add: fresh_link_def)
    next
      case (Some j)
      then show ?thesis using get(3) [OF \<open>sta = Some i\<close>] accepted_open(3) [OF e, of "sta_of j m"] sta_info_get_lk [OF Some]
        by (simp add: lk_fields)
    qed
    then have noted: "mesh_moves ?c (view m1) (view m2)"
      using one_move [OF i(1) link_move.note_open] by (simp add: v i)
    have "pv_max_links (view m1) = pv_max_links (view m)" using mesh_moves_config [OF get(1)] by blast
    then have f: "mesh_plink_free_count m2 \<noteq> 0"
      using accepted_open(2) [OF e] get(2) i(1) by (simp add: free_count v set_link_def is_estab_def)
    have i2: "in_range i m2" using i by (simp add: v)
    have "mesh_plink_fsm env i OPN_ACPT m2 = Some (ch, m')" using p g Some by (simp add: process_plink_event_def m2_def)
    then have "mesh_moves ?c (view m2) (view m')"
      by (rule fsm_moves [OF i2]) (use f i in \<open>simp add: event_from_def v\<close>)
    then show ?thesis using get(1) [of ?c] noted c by (metis rtranclp_trans)
  qed
qed

lemma confirm_frame_moves:
  assumes e: "mesh_plink_get_event env m (map_option (\<lambda>i. sta_of i m) (sta_info_get m sa)) elems ftype n llid plid = Some CNF_ACPT"
    and p: "process_plink_event env sa aid elems CNF_ACPT plid m = Some (ch, m')"
  shows "mesh_moves (frame_cause ftype sa plid llid) (view m) (view m')"
proof (cases "sta_info_get m sa")
  case None
  then show ?thesis using p by (simp add: process_plink_event_def)
next
  case (Some i)
  let ?c = "ConfirmFrame sa plid llid"
  have c: "frame_cause ftype sa plid llid = ?c" using accepted_confirm(1) [OF e] by (simp add: frame_cause_def)
  have i: "in_range i m" "lk_addr (lk m i) = sa" using sta_info_get_lk [OF Some] by auto
  have l: "lk_llid (lk m i) = llid" "lk_plid (lk m i) = 0 \<or> lk_plid (lk m i) = plid"
    using accepted_confirm(3) [OF e, of "sta_of i m"] i by (simp_all add: Some lk_fields)
  define m2 where "m2 = sta_upd i (\<lambda>s. s\<lparr>ms_plid := (if ms_plid s = 0 then plid else ms_plid s), ms_aid := aid\<rparr>) m"
  have "lk_plid (lk m i) \<noteq> 0 \<Longrightarrow> plid = lk_plid (lk m i)" using l(2) by auto
  then have v: "view m2 = set_link i ((lk m i)\<lparr>lk_plid := plid\<rparr>) (view m)"
    using i by (cases "lk_plid (lk m i) = 0") (simp_all add: m2_def view_set_link is_estab_def lk_fields)
  then have noted: "mesh_moves ?c (view m) (view m2)"
    using one_move [OF i(1) link_move.note_confirm [OF l(2)]] by (simp add: i l)
  have f: "mesh_plink_free_count m2 \<noteq> 0"
    using accepted_confirm(2) [OF e] i(1) by (simp add: free_count v set_link_def is_estab_def)
  have i2: "in_range i m2" using i by (simp add: v)
  have "mesh_plink_fsm env i CNF_ACPT m2 = Some (ch, m')" using p Some by (simp add: process_plink_event_def m2_def)
  then have "mesh_moves ?c (view m2) (view m')"
    by (rule fsm_moves [OF i2]) (use f i l in \<open>simp add: event_from_def v\<close>)
  then show ?thesis using noted c by (metis rtranclp_trans)
qed

lemma other_frame_moves:
  assumes "process_plink_event env sa aid elems ev plid m = Some (ch, m')" "ev \<noteq> OPN_ACPT" "ev \<noteq> CNF_ACPT"
  shows "mesh_moves c (view m) (view m')"
  using assms fsm_moves [of _ m env ev ch m' c] sta_info_get_lk [of m sa]
  by (auto simp: process_plink_event_def event_from_def split: option.splits if_splits)

text \<open>Userspace.\<close>

lemma view_block:
  "in_range i m \<Longrightarrow> view (snd (mesh_plink_block i m)) = set_link i ((lk m i)\<lparr>lk_state := NL80211_PLINK_BLOCKED\<rparr>) (view m)"
  by (simp add: mesh_plink_block_def split_def Let_def view_set_link is_estab_def view_blocked)

lemma view_apply:
  assumes "in_range i m"
  shows "view (snd (apply_plink_state i params m)) = set_link i ((lk m i)\<lparr>lk_state := sp_plink_state params\<rparr>) (view m)"
  using assms
  by (simp add: apply_plink_state_def split_def Let_def view_sta_upd set_link_def is_estab_def lk_fields)

lemma set_station_moves:
  assumes i: "in_range i m" and ok: "mesh_station_change_ok m params" and s: "sta_apply_mesh_params env i params m = Some m'"
  shows "mesh_moves (if sp_plink_action params = NL80211_PLINK_ACTION_OPEN then LocalOpen else OtherCause) (view m) (view m')"
    (is "mesh_moves ?c _ _")
proof -
  define m1 where "m1 = snd (if sp_apply_plink_state params then apply_plink_state i params m else (0, m))"
  have i1: "in_range i m1" using i by (simp add: m1_def view_apply)
  have a: "mesh_moves ?c (view m) (view m1)"
  proof (cases "sp_apply_plink_state params")
    case True
    then have "pv_user_mpm (view m)" using ok by (simp add: mesh_station_change_ok_def view_def split: if_splits)
    from one_move [OF i link_move.assign [OF this]] show ?thesis using True i by (simp add: m1_def view_apply)
  qed (simp add: m1_def)
  obtain p where b: "(case sp_plink_action params of
         NL80211_PLINK_ACTION_NO_ACTION \<Rightarrow> Some (0, m1)
       | NL80211_PLINK_ACTION_OPEN \<Rightarrow> mesh_plink_open env i m1
       | NL80211_PLINK_ACTION_BLOCK \<Rightarrow> Some (mesh_plink_block i m1)) = Some p" and v: "view m' = view (snd p)"
    using s by (cases "sp_plink_action params") (auto simp: sta_apply_mesh_params_def split_def Let_def m1_def split: bind_splits if_splits)
  have "mesh_moves ?c (view m1) (view (snd p))"
  proof (cases "sp_plink_action params")
    case NL80211_PLINK_ACTION_OPEN
    then show ?thesis using b open_moves [OF i1] by (cases p) auto
  next
    case NL80211_PLINK_ACTION_BLOCK
    then show ?thesis using b NL80211_PLINK_ACTION_BLOCK one_move [OF i1 link_move.block] view_block [OF i1] by auto
  qed (use b in auto)
  then show ?thesis using a v by (metis rtranclp_trans)
qed

text \<open>Removal.\<close>

lemma view_deactivate:
  "in_range i m \<Longrightarrow> view (snd (mesh_plink_deactivate i m)) = set_link i ((lk m i)\<lparr>lk_state := NL80211_PLINK_BLOCKED\<rparr>) (view m)"
  by (simp add: mesh_plink_deactivate_def split_def Let_def view_sta_upd_same view_blocked)

lemma view_destroy:
  assumes "in_range i m"
  shows "view (sta_info_destroy i m) = drop_link i (view m)"
proof -
  define m1 where "m1 = sta_upd i (\<lambda>s. (clear_sta_flag WLAN_STA_AUTH (clear_sta_flag WLAN_STA_ASSOC (clear_sta_flag WLAN_STA_AUTHORIZED s)))
                \<lparr>ms_sta_state := IEEE80211_STA_NONE\<rparr>) (m\<lparr>mi_num_sta := mi_num_sta m - 1\<rparr>)"
  have v1: "view m1 = view m" by (simp add: m1_def view_sta_upd_same)
  have v2: "view (cleanup_single_sta i m1) = set_link i ((lk m i)\<lparr>lk_state := NL80211_PLINK_BLOCKED\<rparr>) (view m)"
    using assms by (simp add: cleanup_single_sta_def split_def Let_def view_deactivate view_sta_upd_same v1)
  have "view (M\<lparr>mi_stas := take i (mi_stas M) @ drop (Suc i) (mi_stas M)\<rparr>) =
      (view M)\<lparr>pv_links := take i (pv_links (view M)) @ drop (Suc i) (pv_links (view M))\<rparr>" for M
    by (simp add: view_def take_map drop_map)
  then show ?thesis unfolding sta_info_destroy_def Let_def m1_def [symmetric] using assms
    by (simp add: v2 drop_link_def set_link_def is_estab_def)
qed

lemma expire_moves:
  "i + left \<le> length (pv_links (view m)) \<Longrightarrow> mesh_moves c (view m) (view (sta_expire_from jiffies exp_time i left m))"
proof (induction left arbitrary: i m)
  case (Suc left)
  have i: "in_range i m" using Suc.prems by simp
  define m1 where "m1 = (if test_sta_flag (sta_of i m) WLAN_STA_PS_STA then m\<lparr>mi_num_sta_ps := mi_num_sta_ps m - 1\<rparr> else m)"
  have v1: "view m1 = view m" by (simp add: m1_def)
  have v: "view (sta_info_destroy i m1) = drop_link i (view m)" using i v1 view_destroy [of i m1] by simp
  then have "mesh_moves c (view m) (view (sta_info_destroy i m1))" using mesh_move.leave [OF i, of c] by simp
  moreover have "i + left \<le> length (pv_links (view (sta_info_destroy i m1)))" using Suc.prems by (simp add: v)
  ultimately show ?case using Suc.IH [of i "sta_info_destroy i m1"] Suc.IH [of "Suc i" m] Suc.prems
    by (simp add: Let_def m1_def [symmetric]) (meson rtranclp_trans)
qed simp

section \<open>Events and runs\<close>

text \<open>
  What happens to a mesh interface: a peering frame, the timer of a link, a neighbour's beacon, a command of userspace, the
  expiry of inactive stations, a data frame that announces a power mode. Places outside the list of stations,
  and commands cfg80211 refuses, change nothing.
\<close>

datatype mesh_event =
    PlinkRx mesh_env bool "u8 list" ieee80211_self_protected_actioncode u16 ieee802_11_elems
  | PlinkTimer mesh_env nat
  | Neighbour mesh_env "u8 list" ieee802_11_elems
  | SetStation mesh_env nat mesh_station_parameters
  | ExpireStations u64 u64
  | PowerMode nat bool u16 "u8 \<times> u8"

definition mesh_step :: "mesh_if \<Rightarrow> mesh_event \<Rightarrow> mesh_if option" where
  "mesh_step m e =
     (case e of
        PlinkRx env multicast sa ftype aid elems \<Rightarrow> mesh_rx_plink_frame env multicast sa ftype aid elems m
      | PlinkTimer env i \<Rightarrow> if i < length (mi_stas m) then mesh_plink_timer env i m else Some m
      | Neighbour env addr elems \<Rightarrow> mesh_neighbour_update env addr elems m
      | SetStation env i params \<Rightarrow>
          if i < length (mi_stas m) \<and> mesh_station_change_ok m params then sta_apply_mesh_params env i params m else Some m
      | ExpireStations jiffies exp_time \<Rightarrow> Some (ieee80211_sta_expire jiffies exp_time m)
      | PowerMode i unicast fc qc \<Rightarrow> if i < length (mi_stas m) then Some (ieee80211_mps_rx_h_sta_process i unicast fc qc m) else Some m)"

definition mesh_feed :: "mesh_if option \<Rightarrow> mesh_event \<Rightarrow> mesh_if option" where
  "mesh_feed s e = Option.bind s (\<lambda>m. mesh_step m e)"

definition mesh_run :: "mesh_if \<Rightarrow> mesh_event list \<Rightarrow> mesh_if option" where
  "mesh_run m = run mesh_feed (Some m)"

definition cause_of :: "mesh_event \<Rightarrow> cause" where
  "cause_of e =
     (case e of
        PlinkRx env multicast sa ftype aid elems \<Rightarrow>
          (case Option.bind (el_peering elems) (peering_ids ftype) of
             None \<Rightarrow> OtherCause
           | Some (plid, llid) \<Rightarrow> frame_cause ftype sa plid llid)
      | SetStation env i params \<Rightarrow> if sp_plink_action params = NL80211_PLINK_ACTION_OPEN then LocalOpen else OtherCause
      | _ \<Rightarrow> OtherCause)"

lemma frame_moves:
  assumes "mesh_rx_plink_frame env multicast sa ftype aid elems m = Some m'"
  shows "mesh_moves (cause_of (PlinkRx env multicast sa ftype aid elems)) (view m) (view m')"
proof (cases "view m' = view m")
  case False
  let ?sta = "map_option (\<lambda>i. sta_of i m) (sta_info_get m sa)"
  obtain p plid llid where p: "el_peering elems = Some p" "peering_ids ftype p = Some (plid, llid)"
    using assms False by (auto simp: mesh_rx_plink_frame_def mesh_process_plink_frame_def split: if_splits option.splits bind_splits)
  obtain ev ch m1 where e: "mesh_plink_get_event env m ?sta elems ftype (length p) llid plid = Some ev"
      "process_plink_event env sa aid elems ev plid m = Some (ch, m1)" "view m' = view m1"
    using assms False by (auto simp: mesh_rx_plink_frame_def mesh_process_plink_frame_def p Let_def split: if_splits bind_splits)
  have "mesh_moves (frame_cause ftype sa plid llid) (view m) (view m1)"
    using open_frame_moves [of env m sa elems ftype "length p" llid plid aid ch m1]
      confirm_frame_moves [of env m sa elems ftype "length p" llid plid aid ch m1] other_frame_moves [OF e(2)] e
    by (cases "ev = OPN_ACPT"; cases "ev = CNF_ACPT") simp_all
  then show ?thesis by (simp add: cause_of_def p e(3))
qed simp

lemma view_trigger: "view (ieee80211_mpsp_trigger_process qc i tx acked m) = view m"
proof -
  define m1 where "m1 = (if tx then (if snd qc AND ucast (drop_bit 8 IEEE80211_QOS_CTL_RSPI) \<noteq> 0 \<and> acked
        then sta_upd i (set_sta_flag WLAN_STA_MPSP_RECIPIENT) m else m)
      else (if fst qc AND ucast IEEE80211_QOS_CTL_EOSP \<noteq> 0 then sta_upd i (clear_sta_flag WLAN_STA_MPSP_RECIPIENT) m
        else if ms_local_pm (sta_of i m) \<noteq> NL80211_MESH_POWER_ACTIVE
        then sta_upd i (set_sta_flag WLAN_STA_MPSP_RECIPIENT) m else m))"
  have "view m1 = view m" by (simp add: m1_def view_sta_upd_same)
  then show ?thesis
    by (cases tx) (simp_all only: ieee80211_mpsp_trigger_process_def Let_def if_True if_False m1_def [symmetric] simp_thms,
        simp_all add: m1_def view_sta_upd_same)
qed

lemma power_mode_same: "view (ieee80211_mps_rx_h_sta_process i unicast fc qc m) = view m"
  by (simp add: ieee80211_mps_rx_h_sta_process_def mps_set_sta_peer_pm_def mps_set_sta_nonpeer_pm_def Let_def
      view_trigger view_sta_upd_same)

text \<open>Every event of the code is a step of the protocol.\<close>

lemma step_moves:
  assumes "mesh_step m e = Some m'"
  shows "mesh_moves (cause_of e) (view m) (view m')"
proof (cases e)
  case (PlinkRx env multicast sa ftype aid elems)
  then show ?thesis using assms frame_moves by (simp add: mesh_step_def)
next
  case (PlinkTimer env i)
  then show ?thesis using assms timer_moves [of i m env m'] by (auto simp: mesh_step_def view_def split: if_splits)
next
  case (Neighbour env a elems)
  then show ?thesis using assms neighbour_moves by (simp add: mesh_step_def)
next
  case (SetStation env i params)
  then show ?thesis using assms set_station_moves [of i m params env m']
    by (auto simp: mesh_step_def cause_of_def view_def split: if_splits)
next
  case (ExpireStations j t)
  then show ?thesis using assms expire_moves [of 0 "length (mi_stas m)" m]
    by (auto simp: mesh_step_def ieee80211_sta_expire_def view_def)
next
  case (PowerMode i u fc qc)
  then show ?thesis using assms by (auto simp: mesh_step_def power_mode_same split: if_splits)
qed

lemma run_snoc: "run step s (xs @ [x]) = step (run step s xs) x"
  by (induction xs arbitrary: s) simp_all

lemma run_simulates:
  "mesh_run m es = Some m' \<Longrightarrow> peering_run (view m) (map cause_of es) (view m')"
proof (induction es arbitrary: m' rule: rev_induct)
  case Nil
  then show ?case by (simp add: mesh_run_def peering_run.start)
next
  case (snoc e es)
  then obtain m1 where "mesh_run m es = Some m1" "mesh_step m1 e = Some m'"
    by (auto simp: mesh_run_def run_snoc mesh_feed_def split: bind_splits)
  then show ?case using snoc.IH step_moves peering_run.event by auto
qed

text \<open>An interface as it comes up; the settings nl80211 lets through.\<close>

definition mesh_started :: "mesh_if \<Rightarrow> bool" where
  "mesh_started m \<longleftrightarrow> mi_stas m = [] \<and> mi_estab_plinks m = 0"

definition kernel_mpm :: "mesh_if \<Rightarrow> bool" where
  "kernel_mpm m \<longleftrightarrow> \<not> mi_user_mpm m \<and> 1 \<le> dot11MeshRetryTimeout (mi_mshcfg m) \<and>
     dot11MeshRetryTimeout (mi_mshcfg m) \<le> 255 \<and> dot11MeshMaxRetries (mi_mshcfg m) \<le> 16"

lemma started_ok: "mesh_started m \<Longrightarrow> kernel_mpm m \<Longrightarrow> peerings_ok (view m)"
  by (simp add: mesh_started_def kernel_mpm_def peerings_ok_def config_ok_def view_def)

lemma counted_view: "counted (view m) \<longleftrightarrow> mi_estab_plinks m = int (length (filter established (mi_stas m)))"
  by (simp add: counted_def view_def filter_map comp_def is_estab_def established_def [abs_def] link_of_def)

interpretation mesh: machine mesh_feed "\<lambda>s. case s of None \<Rightarrow> True | Some m \<Rightarrow> counted (view m)" "\<lambda>_. True"
proof unfold_locales
  fix s e
  assume c: "case s of None \<Rightarrow> True | Some m \<Rightarrow> counted (view m)"
  show "case mesh_feed s e of None \<Rightarrow> True | Some m \<Rightarrow> counted (view m)"
  proof (cases "mesh_feed s e")
    case (Some m')
    then obtain m where "s = Some m" "mesh_step m e = Some m'" by (auto simp: mesh_feed_def split: bind_splits)
    then show ?thesis using c Some peering_run_counted [OF peering_run.event [OF peering_run.start step_moves]] by fastforce
  qed simp
qed

text \<open>C13: Over any events (frames of any contents, timers, beacons, commands, removals) the number of established links an interface
  keeps, which decides whether it takes further peers, is the number of its stations whose link is
  established, also when userspace runs the peering.\<close>

theorem established_links_counted:
  assumes "mi_estab_plinks m = int (length (filter established (mi_stas m)))" and "mesh_run m events = Some m'"
  shows "mi_estab_plinks m' = int (length (filter established (mi_stas m')))"
  using assms mesh.run_inv [of "Some m" events] by (simp add: counted_view mesh_run_def list_all_iff)

text \<open>C14: An interface whose peering the kernel runs never has more established links than configured, and in every
  state it gets to the timer of every link returns: the retry timeout is never 0, and never more than the configured
  one doubled for every retry, so it does not overflow.\<close>

theorem peering_limits:
  assumes "mesh_started m" and "kernel_mpm m" and "mesh_run m events = Some m'" and "i < length (mi_stas m')"
  shows "mi_estab_plinks m' \<le> uint (dot11MeshMaxPeerLinks (mi_mshcfg m')) \<and>
    (\<exists>m2. mesh_plink_timer env i m' = Some m2) \<and>
    (ms_plink_state (sta_of i m') \<in> {NL80211_PLINK_OPN_SNT, NL80211_PLINK_OPN_RCVD} \<longrightarrow>
      unat (ms_plink_timeout (sta_of i m')) \<le>
        unat (dot11MeshRetryTimeout (mi_mshcfg m')) * 2 ^ unat (ms_plink_retries (sta_of i m')))"
proof (intro conjI)
  have ok: "peerings_ok (view m')" using peering_run_ok [OF run_simulates [OF assms(3)] started_ok] assms by blast
  then show "mi_estab_plinks m' \<le> uint (dot11MeshMaxPeerLinks (mi_mshcfg m'))" by (simp add: peerings_ok_def view_def)
  have i: "in_range i m'" using assms(4) by (simp add: view_def)
  have t: "timeout_ok (view m') (lk m' i)" and R: "1 \<le> unat (pv_retry_timeout (view m'))"
    using ok i by (auto simp: peerings_ok_def config_ok_def list_all_length word_le_nat_alt)
  have "lk_state (lk m' i) \<in> {NL80211_PLINK_OPN_SNT, NL80211_PLINK_OPN_RCVD} \<Longrightarrow> lk_timeout (lk m' i) \<noteq> 0"
    using t R by (auto simp: timeout_ok_def)
  then show "\<exists>m2. mesh_plink_timer env i m' = Some m2"
    using i by (auto simp: mesh_plink_timer_def Let_def lk_fields split: nl80211_plink_state.split)
  show "ms_plink_state (sta_of i m') \<in> {NL80211_PLINK_OPN_SNT, NL80211_PLINK_OPN_RCVD} \<longrightarrow>
      unat (ms_plink_timeout (sta_of i m')) \<le>
        unat (dot11MeshRetryTimeout (mi_mshcfg m')) * 2 ^ unat (ms_plink_retries (sta_of i m'))"
    using t i by (auto simp: timeout_ok_def lk_fields config_view)
qed

text \<open>C10: A link the kernel established goes back to a handshake: the peer sent an OPEN frame and a CONFIRM frame, the
  CONFIRM carried the link ID this station gave out, and both carried the peer's link ID (0 stands for none). Links
  reopened by a command are left out, since that command replaces the ID.\<close>

theorem established_by_handshake:
  assumes "mesh_started m" and "kernel_mpm m" and "mesh_run m events = Some m'"
    and "\<And>env i params. SetStation env i params \<in> set events \<Longrightarrow> sp_plink_action params \<noteq> NL80211_PLINK_ACTION_OPEN"
    and "i < length (mi_stas m')" and "ms_plink_state (sta_of i m') = NL80211_PLINK_ESTAB"
  shows "\<exists>p q. OpenFrame (ms_addr (sta_of i m')) p \<in> cause_of ` set events \<and>
      ConfirmFrame (ms_addr (sta_of i m')) q (ms_llid (sta_of i m')) \<in> cause_of ` set events \<and>
      (p = ms_plid (sta_of i m') \<or> p = 0) \<and> (q = ms_plid (sta_of i m') \<or> q = 0)"
proof -
  have f: "frame_cause ft sa p q \<noteq> LocalOpen" for ft sa p q
    by (simp add: frame_cause_def split: ieee80211_self_protected_actioncode.split)
  have "LocalOpen \<notin> set (map cause_of events)"
    using assms(4) f by (auto simp: cause_of_def split: mesh_event.splits option.splits if_splits prod.splits) metis+
  moreover have "\<not> pv_user_mpm (view m)" "pv_links (view m) = []" using assms(1,2) by (simp_all add: view_def kernel_mpm_def mesh_started_def)
  ultimately have "list_all (handshake_ok (set (map cause_of events))) (pv_links (view m'))"
    using peering_run_handshakes [OF run_simulates [OF assms(3)]] by simp
  moreover have i: "in_range i m'" using assms(5) by (simp add: view_def)
  ultimately have "handshake_ok (cause_of ` set events) (lk m' i)" by (simp add: list_all_length)
  then show ?thesis using assms(6) i by (auto simp: handshake_ok_def opened_by_def confirmed_by_def lk_fields)
qed

section \<open>Peers that fall silent\<close>

text \<open>The timer of a link fires again and again, each time when it expires, with the given random numbers.\<close>

fun fire_timers :: "mesh_env \<Rightarrow> nat \<Rightarrow> u32 list \<Rightarrow> mesh_if \<Rightarrow> mesh_if option" where
  "fire_timers env i [] m = Some m"
| "fire_timers env i (r # rs) m =
     Option.bind (mesh_plink_timer (env\<lparr>en_rand := r, en_jiffies := ms_timer_expires (sta_of i m)\<rparr>) i m) (fire_timers env i rs)"

definition firings_left :: "u8 \<Rightarrow> peer_link \<Rightarrow> nat" where
  "firings_left max_retries l =
     (case lk_state l of
        NL80211_PLINK_OPN_SNT \<Rightarrow> unat max_retries - unat (lk_retries l) + 2
      | NL80211_PLINK_OPN_RCVD \<Rightarrow> unat max_retries - unat (lk_retries l) + 2
      | NL80211_PLINK_CNF_RCVD \<Rightarrow> 2
      | NL80211_PLINK_HOLDING \<Rightarrow> 1
      | _ \<Rightarrow> 0)"

lemma time_after_irrefl [simp]: "\<not> time_after t t"
  by (simp add: time_after_def)

lemma fire_view:
  assumes "in_range i m" "\<not> en_quiescing env" "en_jiffies env = ms_timer_expires (sta_of i m)"
  shows "lk_state (lk m i) = NL80211_PLINK_HOLDING \<Longrightarrow> \<exists>m1. mesh_plink_timer env i m = Some m1 \<and>
      view m1 = set_link i ((lk m i)\<lparr>lk_state := NL80211_PLINK_LISTEN, lk_llid := 0, lk_plid := 0, lk_retries := 0\<rparr>) (view m)"
    and "lk_state (lk m i) = NL80211_PLINK_CNF_RCVD \<or>
      lk_state (lk m i) \<in> {NL80211_PLINK_OPN_SNT, NL80211_PLINK_OPN_RCVD} \<and> \<not> lk_retries (lk m i) < pv_max_retries (view m) \<Longrightarrow>
      \<exists>m1. mesh_plink_timer env i m = Some m1 \<and> view m1 = set_link i ((lk m i)\<lparr>lk_state := NL80211_PLINK_HOLDING\<rparr>) (view m)"
    and "lk_state (lk m i) \<in> {NL80211_PLINK_OPN_SNT, NL80211_PLINK_OPN_RCVD} \<Longrightarrow> lk_retries (lk m i) < pv_max_retries (view m) \<Longrightarrow>
      lk_timeout (lk m i) \<noteq> 0 \<Longrightarrow> \<exists>m1. mesh_plink_timer env i m = Some m1 \<and>
      view m1 = set_link i ((lk m i)\<lparr>lk_timeout := lk_timeout (lk m i) + en_rand env mod lk_timeout (lk m i),
        lk_retries := lk_retries (lk m i) + 1\<rparr>) (view m)"
  using assms
  by (auto simp: mesh_plink_timer_def Let_def lk_fields config_view timer_holding_def timer_retry_def view_set_link is_estab_def)

lemma silent_link_listens:
  assumes "in_range i m" "\<not> en_quiescing env" "config_ok (view m)" "timeout_ok (view m) (lk m i)"
    and "lk_state (lk m i) \<in> {NL80211_PLINK_OPN_SNT, NL80211_PLINK_OPN_RCVD, NL80211_PLINK_CNF_RCVD, NL80211_PLINK_HOLDING}"
    and "length rs = firings_left (pv_max_retries (view m)) (lk m i)"
  shows "\<exists>m'. fire_timers env i rs m = Some m' \<and> in_range i m' \<and> lk_state (lk m' i) = NL80211_PLINK_LISTEN \<and>
    lk_llid (lk m' i) = 0 \<and> lk_plid (lk m' i) = 0"
  using assms
proof (induction rs arbitrary: m)
  case Nil
  then show ?case by (auto simp: firings_left_def)
next
  case (Cons r rs)
  let ?e = "env\<lparr>en_rand := r, en_jiffies := ms_timer_expires (sta_of i m)\<rparr>" and ?l = "lk m i"
  note i = Cons.prems(1)
  have q: "\<not> en_quiescing ?e" "en_jiffies ?e = ms_timer_expires (sta_of i m)" using Cons.prems(2) by simp_all
  consider (holding) "lk_state ?l = NL80211_PLINK_HOLDING"
    | (last) "lk_state ?l = NL80211_PLINK_CNF_RCVD \<or>
        lk_state ?l \<in> {NL80211_PLINK_OPN_SNT, NL80211_PLINK_OPN_RCVD} \<and> \<not> lk_retries ?l < pv_max_retries (view m)"
    | (retry) "lk_state ?l \<in> {NL80211_PLINK_OPN_SNT, NL80211_PLINK_OPN_RCVD}" "lk_retries ?l < pv_max_retries (view m)"
    using Cons.prems(5) by blast
  then show ?case
  proof cases
    case holding
    then obtain m1 where "mesh_plink_timer ?e i m = Some m1"
      "view m1 = set_link i (?l\<lparr>lk_state := NL80211_PLINK_LISTEN, lk_llid := 0, lk_plid := 0, lk_retries := 0\<rparr>) (view m)"
      using fire_view(1) [OF i q] by blast
    then show ?thesis using Cons.prems(6) holding i by (simp add: firings_left_def)
  next
    case last
    then obtain m1 where m1: "mesh_plink_timer ?e i m = Some m1" "view m1 = set_link i (?l\<lparr>lk_state := NL80211_PLINK_HOLDING\<rparr>) (view m)"
      using fire_view(2) [OF i q] by blast
    have "lk_state ?l \<noteq> NL80211_PLINK_CNF_RCVD \<Longrightarrow> unat (pv_max_retries (view m)) - unat (lk_retries ?l) = 0"
      using last by (auto simp: word_less_nat_alt)
    then have "length rs = 1" using Cons.prems(6) last by (auto simp: firings_left_def)
    then show ?thesis using Cons.IH [of m1] Cons.prems m1 i by (simp add: firings_left_def config_ok_def timeout_ok_def)
  next
    case retry
    have "lk_timeout ?l \<noteq> 0" using Cons.prems(3,4) retry(1) by (auto simp: timeout_ok_def config_ok_def word_le_nat_alt)
    then obtain m1 where m1: "mesh_plink_timer ?e i m = Some m1"
        "view m1 = set_link i (?l\<lparr>lk_timeout := lk_timeout ?l + r mod lk_timeout ?l, lk_retries := lk_retries ?l + 1\<rparr>) (view m)"
      using fire_view(3) [OF i q retry] by auto
    have t: "timeout_ok (view m1) (lk m1 i)"
      using move_timeout [OF link_move.retry [OF retry] Cons.prems(3,4)] i by (simp add: m1(2))
    have "lk_retries ?l < 16" using less_le_trans [OF retry(2)] Cons.prems(3) by (simp add: config_ok_def)
    then have "unat (lk_retries ?l + 1) = Suc (unat (lk_retries ?l))" by (simp add: unat_word_ariths word_less_nat_alt)
    then have "length rs = firings_left (pv_max_retries (view m1)) (lk m1 i)"
      using Cons.prems(6) retry i by (auto simp: m1(2) firings_left_def word_less_nat_alt)
    then show ?thesis using Cons.IH [of m1] Cons.prems t m1 i retry(1) by (auto simp: config_ok_def)
  qed
qed


section \<open>What goes wrong\<close>

text \<open>Error: a known peer whose mesh configuration does not match ours (another mesh, another channel) is not turned away: its
  OPEN frame is accepted like any other, since the rejection is overwritten by the check that follows.\<close>

lemma nonmatching_peer_accepted:
  assumes "mesh_matches_local (en_chans env) (en_vht_ext_nss_bw env) m elems = Some False"
    and "test_sta_flag s WLAN_STA_AUTH" and "ms_plink_state s \<noteq> NL80211_PLINK_BLOCKED"
    and "mesh_plink_free_count m \<noteq> 0" and "ms_plid s = 0 \<or> ms_plid s = plid"
  shows "mesh_plink_get_event env m (Some s) elems WLAN_SP_MESH_PEERING_OPEN n llid plid = Some OPN_ACPT \<and>
    mesh_plink_get_event env m None elems WLAN_SP_MESH_PEERING_OPEN n llid plid = Some OPN_RJCT"
  using assms by (auto simp: mesh_plink_get_event_def Let_def)

text \<open>Error: the command to open a link gives the station a new link ID before it looks at the state. On an established link, and
  in the middle of a handshake, nothing else happens, but the CONFIRM frames that carry the ID the peer was told
  are ignored from then on.\<close>

lemma open_command_loses_id:
  assumes "i < length (mi_stas m)" and "test_sta_flag (sta_of i m) WLAN_STA_AUTH"
    and "ms_plink_state (sta_of i m) \<notin> {NL80211_PLINK_LISTEN, NL80211_PLINK_BLOCKED}"
    and "mesh_plink_open env i m = Some (changed, m')"
    and "mesh_matches_local (en_chans env') (en_vht_ext_nss_bw env') m' elems = Some True"
  shows "changed = 0 \<and> ms_plink_state (sta_of i m') = ms_plink_state (sta_of i m) \<and>
    ms_llid (sta_of i m') \<noteq> ms_llid (sta_of i m) \<and>
    mesh_plink_get_event env' m' (Some (sta_of i m')) elems WLAN_SP_MESH_PEERING_CONFIRM n (ms_llid (sta_of i m)) plid = Some CNF_IGNR"
proof -
  obtain llid where l: "mesh_get_new_llid env m = Some llid" using assms(2,4) by (auto simp: mesh_plink_open_def split: bind_splits)
  then have new: "ms_llid (sta_of i m) \<noteq> llid"
    using assms(1) by (auto simp: mesh_get_new_llid_def find_Some_iff llid_in_use_def list_ex_length sta_of_def)
  have m': "changed = 0" "m' = sta_upd i (\<lambda>s. s\<lparr>ms_llid := llid\<rparr>) m"
    using assms by (auto simp: mesh_plink_open_def l Let_def sta_upd_def sta_of_def split: if_splits)
  have s: "sta_of i m' = (sta_of i m)\<lparr>ms_llid := llid\<rparr>" using assms(1) by (simp add: m' sta_upd_def sta_of_def)
  show ?thesis using assms(2,3,5) new by (simp add: s m'(1)) (simp add: mesh_plink_get_event_def Let_def test_sta_flag_def)
qed

text \<open>What the count of sleeping peers depends on: the flag of the peer and the power mode it announced.\<close>

definition sleep_seen :: "nat \<Rightarrow> int \<Rightarrow> bool \<Rightarrow> bool \<Rightarrow> mesh_if \<Rightarrow> bool" where
  "sleep_seen i n flag asleep m \<longleftrightarrow>
     i < length (mi_stas m) \<and> established (sta_of i m) \<and> ms_sta_state (sta_of i m) \<in> {IEEE80211_STA_ASSOC, IEEE80211_STA_AUTHORIZED} \<and>
     mi_num_sta_ps m = n \<and> test_sta_flag (sta_of i m) WLAN_STA_PS_STA = flag \<and>
     ms_peer_pm (sta_of i m) \<in> (if asleep then {NL80211_MESH_POWER_LIGHT_SLEEP, NL80211_MESH_POWER_DEEP_SLEEP}
       else {NL80211_MESH_POWER_ACTIVE})"

lemmas sleep_defs = sleep_seen_def established_def sta_upd_def sta_of_def test_sta_flag_def set_sta_flag_def clear_sta_flag_def log_effect_def

lemma sleep_upd:
  assumes "\<And>s. ms_plink_state (f s) = ms_plink_state s \<and> ms_sta_state (f s) = ms_sta_state s \<and>
      ms_flags (f s) WLAN_STA_PS_STA = ms_flags s WLAN_STA_PS_STA \<and> ms_peer_pm (f s) = ms_peer_pm s"
  shows "sleep_seen i n flag a (sta_upd i f m) = sleep_seen i n flag a m"
  using assms by (cases "i < length (mi_stas m)") (auto simp: sleep_defs)

lemma sleep_mpsp [simp]:
  "sleep_seen i n flag a (sta_upd i (set_sta_flag WLAN_STA_MPSP_OWNER) m) = sleep_seen i n flag a m"
  "sleep_seen i n flag a (sta_upd i (set_sta_flag WLAN_STA_MPSP_RECIPIENT) m) = sleep_seen i n flag a m"
  "sleep_seen i n flag a (sta_upd i (clear_sta_flag WLAN_STA_MPSP_OWNER) m) = sleep_seen i n flag a m"
  "sleep_seen i n flag a (sta_upd i (clear_sta_flag WLAN_STA_MPSP_RECIPIENT) m) = sleep_seen i n flag a m"
  "sleep_seen i n flag a (log_effect e m) = sleep_seen i n flag a m"
  by ((rule sleep_upd, simp add: set_sta_flag_def clear_sta_flag_def)+, simp add: sleep_defs)

lemma sleep_trigger: "sleep_seen i n flag a m \<Longrightarrow> sleep_seen i n flag a (ieee80211_mpsp_trigger_process qc i False acked m)"
  by (simp add: ieee80211_mpsp_trigger_process_def Let_def)

lemma doze:
  assumes "sleep_seen i n flag False m" "ieee80211_has_pm fc"
  shows "sleep_seen i (n + of_bool (\<not> flag)) True True (mps_set_sta_peer_pm i fc qc m)"
  using assms by (auto simp: mps_set_sta_peer_pm_def ieee80211_mps_sta_status_update_def Let_def sleep_defs)

lemma wake:
  assumes "sleep_seen i n True True m" "\<not> ieee80211_has_pm fc"
  shows "sleep_seen i (n - 1) True False (mps_set_sta_peer_pm i fc qc m)"
  using assms by (auto simp: mps_set_sta_peer_pm_def ieee80211_mps_sta_status_update_def ieee80211_sta_ps_deliver_wakeup_def Let_def sleep_defs)

definition nap :: "nat \<Rightarrow> u16 \<Rightarrow> u16 \<Rightarrow> u8 \<times> u8 \<Rightarrow> mesh_if \<Rightarrow> mesh_if" where
  "nap i asleep awake qc m = ieee80211_mps_rx_h_sta_process i True awake qc (ieee80211_mps_rx_h_sta_process i True asleep qc m)"

lemma nap_count:
  assumes "sleep_seen i n flag False m" "ieee80211_is_data_qos f1" "ieee80211_has_pm f1" "ieee80211_is_data_qos f0" "\<not> ieee80211_has_pm f0"
  shows "sleep_seen i (n + of_bool (\<not> flag) - 1) True False (nap i f1 f0 qc m)"
  using sleep_trigger [OF wake [OF sleep_trigger [OF doze [OF assms(1,3)]] assms(5)]] assms(2,4)
  by (simp add: nap_def ieee80211_mps_rx_h_sta_process_def)

text \<open>Error: the number of sleeping peers, which decides whether group frames are held back for them, goes wrong: when a peer
  wakes the number is taken down but the flag that it sleeps stays set, so its next nap is not counted while the end of it is. After \<open>k\<close> more
  naps of an awake peer the number is \<open>k\<close> too low.\<close>

lemma sleeping_peers_miscounted:
  assumes "i < length (mi_stas m)" and "established (sta_of i m)"
    and "ms_sta_state (sta_of i m) \<in> {IEEE80211_STA_ASSOC, IEEE80211_STA_AUTHORIZED}"
    and "ms_peer_pm (sta_of i m) = NL80211_MESH_POWER_ACTIVE" and "\<not> test_sta_flag (sta_of i m) WLAN_STA_PS_STA"
    and "ieee80211_is_data_qos asleep" and "ieee80211_has_pm asleep" and "ieee80211_is_data_qos awake" and "\<not> ieee80211_has_pm awake"
  shows "mi_num_sta_ps ((nap i asleep awake qc ^^ Suc k) m) = mi_num_sta_ps m - int k \<and>
    test_sta_flag (sta_of i ((nap i asleep awake qc ^^ Suc k) m)) WLAN_STA_PS_STA"
proof -
  have s: "sleep_seen i (mi_num_sta_ps m) False False m" using assms by (simp add: sleep_seen_def)
  have "sleep_seen i (mi_num_sta_ps m - int k) True False ((nap i asleep awake qc ^^ Suc k) m)"
  proof (induction k)
    case 0
    then show ?case using nap_count [OF s assms(6-9)] by simp
  next
    case (Suc k)
    then show ?case using nap_count [OF Suc.IH assms(6-9)] by (simp add: algebra_simps)
  qed
  then show ?thesis by (simp add: sleep_seen_def)
qed

end
