(* ===== verification/MeshHandshake.thy ===== *)
theory MeshHandshake
  imports MeshLink
begin

text \<open>
  Two mesh stations that peer: what the operations of mesh_plink.c keep beside the links, the frames they send, how the
  other side reads them, and the handshake between two interfaces. At the end the sample interfaces
  the properties of the mesh theories are applied to.
\<close>

section \<open>What else an operation keeps\<close>

text \<open>The configuration of the interface, which stations are authenticated, and the peering frames sent.\<close>

definition base_conf :: "mesh_if \<Rightarrow> u8 list \<times> u8 list \<times> ieee80211_supported_band option \<times> cfg80211_chan_def \<times> cfg80211_chan_def option \<times>
    u32 \<times> int \<times> u8 \<times> bool" where
  "base_conf m = (mi_mesh_id m, mi_config_ids m, mi_sband m, mi_chandef m, mi_ctx_def m, mi_basic_rates m,
     rssi_threshold (mi_mshcfg m), mi_security m, mi_user_mpm m)"

definition auths :: "mesh_if \<Rightarrow> bool list" where
  "auths m = map (\<lambda>s. test_sta_flag s WLAN_STA_AUTH) (mi_stas m)"

definition plink_frames :: "mesh_if \<Rightarrow> mesh_effect list" where
  "plink_frames m = filter (\<lambda>e. case e of PlinkFrame a da aid bytes \<Rightarrow> True | _ \<Rightarrow> False) (mi_log m)"

definition side :: "mesh_if \<Rightarrow> _" where
  "side m = (base_conf m, auths m, plink_frames m)"

lemmas side_defs = side_def base_conf_def auths_def plink_frames_def

lemma side_sta_upd:
  assumes "\<And>s. test_sta_flag (f s) WLAN_STA_AUTH = test_sta_flag s WLAN_STA_AUTH"
  shows "side (sta_upd i f m) = side m"
proof -
  have "map (\<lambda>s. test_sta_flag s WLAN_STA_AUTH) ((mi_stas m)[i := f (mi_stas m ! i)]) = map (\<lambda>s. test_sta_flag s WLAN_STA_AUTH) (mi_stas m)"
    using assms by (cases "i < length (mi_stas m)") (simp_all add: map_update list_update_same_conv list_update_beyond)
  then show ?thesis by (simp add: side_defs sta_upd_def)
qed

lemma auth_flag [simp]:
  "test_sta_flag (set_sta_flag f s) WLAN_STA_AUTH = (f = WLAN_STA_AUTH \<or> test_sta_flag s WLAN_STA_AUTH)"
  "test_sta_flag (clear_sta_flag f s) WLAN_STA_AUTH = (f \<noteq> WLAN_STA_AUTH \<and> test_sta_flag s WLAN_STA_AUTH)"
  "test_sta_flag (mod_plink_timer env t s) g = test_sta_flag s g" "test_sta_flag (del_plink_timer s) g = test_sta_flag s g"
  "test_sta_flag (mesh_plink_timer_set env t s) g = test_sta_flag s g" "test_sta_flag (mesh_plink_fsm_restart s) g = test_sta_flag s g"
  "test_sta_flag (s\<lparr>ms_plink_state := p\<rparr>) g = test_sta_flag s g" "test_sta_flag (s\<lparr>ms_llid := x\<rparr>) g = test_sta_flag s g"
  "test_sta_flag (s\<lparr>ms_plid := x\<rparr>) g = test_sta_flag s g" "test_sta_flag (s\<lparr>ms_aid := x\<rparr>) g = test_sta_flag s g"
  "test_sta_flag (s\<lparr>ms_local_pm := pm\<rparr>) g = test_sta_flag s g"
  by (simp_all add: test_sta_flag_def set_sta_flag_def clear_sta_flag_def mod_plink_timer_def del_plink_timer_def mesh_plink_timer_set_def
      mesh_plink_fsm_restart_def)

lemma side_unseen [simp]:
  "side (m\<lparr>mi_num_sta_ps := n\<rparr>) = side m" "side (m\<lparr>mi_num_sta := k\<rparr>) = side m"
  "side (m\<lparr>mi_accepting_plinks := b\<rparr>) = side m" "side (m\<lparr>mi_use_short_slot := b\<rparr>) = side m"
  "side (m\<lparr>mi_nonpeer_pm := pm, mi_ps_peers_light_sleep := j, mi_ps_peers_deep_sleep := k\<rparr>) = side m"
  "side (m\<lparr>mi_ht_operation_mode := w, mi_mshcfg := (mi_mshcfg m)\<lparr>ht_opmode := w\<rparr>\<rparr>) = side m"
  "side (m\<lparr>mi_estab_plinks := z\<rparr>) = side m" "side (log_effect (InfoChanged ch) m) = side m"
  "side (log_effect (QosNull a) m) = side m" "side (log_effect (StaAwake a) m) = side m"
  "side (ieee80211_mbss_info_change_notify ch m) = side m"
  by (simp_all add: side_defs log_effect_def ieee80211_mbss_info_change_notify_def)

lemma side_modes [simp]:
  "side (snd (mesh_accept_plinks_update m)) = side m" "side (snd (mesh_set_ht_prot_mode m)) = side m"
  "side (snd (mesh_set_short_slot_time m)) = side m" "side (snd (ieee80211_mps_local_status_update m)) = side m"
  by (simp_all add: mesh_accept_plinks_update_def mesh_set_ht_prot_mode_def mesh_set_short_slot_time_def
      ieee80211_mps_local_status_update_def Let_def split: prod.split option.split)

lemma side_power_save [simp]:
  "side (ieee80211_mps_sta_status_update i m) = side m" "side (snd (ieee80211_mps_set_sta_local_pm i pm m)) = side m"
  "side (snd (mesh_plink_inc_estab_count m)) = side m"
  by (simp_all add: ieee80211_mps_sta_status_update_def ieee80211_mps_set_sta_local_pm_def ieee80211_sta_ps_deliver_wakeup_def
      mesh_plink_inc_estab_count_def split_def Let_def side_sta_upd)

lemma side_established: "side (snd (mesh_plink_establish i m)) = side m"
  by (simp add: mesh_plink_establish_def split_def Let_def side_sta_upd)

text \<open>A frame that goes out.\<close>

definition sends :: "mesh_if \<Rightarrow> mesh_effect list \<Rightarrow> mesh_if \<Rightarrow> bool" where
  "sends m fs m' \<longleftrightarrow> base_conf m' = base_conf m \<and> auths m' = auths m \<and> plink_frames m' = plink_frames m @ fs"

lemma sends_none: "side m' = side m \<Longrightarrow> sends m [] m'"
  by (simp add: side_def sends_def)

lemma sends_trans: "sends m fs m1 \<Longrightarrow> sends m1 gs m2 \<Longrightarrow> sends m (fs @ gs) m2"
  by (simp add: sends_def)

lemma sends_frame:
  "mi_sband m \<noteq> None \<Longrightarrow> sends m [PlinkFrame a da (if a = WLAN_SP_MESH_PEERING_CONFIRM then aid else 0) (peering_element a l p r)]
    (mesh_plink_frame_tx a aid da l p r m)"
  by (simp add: mesh_plink_frame_tx_def sends_def side_defs log_effect_def)

section \<open>The steps of a handshake\<close>

text \<open>A station ready to peer with \<open>a\<close> at place \<open>i\<close>, with a configuration that matches what the elements say.\<close>

definition can_peer :: "mesh_env \<Rightarrow> ieee802_11_elems \<Rightarrow> u8 list \<Rightarrow> nat \<Rightarrow> mesh_if \<Rightarrow> bool" where
  "can_peer env el a i m \<longleftrightarrow>
     sta_info_get m a = Some i \<and> auths m ! i \<and> mi_sband m \<noteq> None \<and> \<not> mi_user_mpm m \<and> rssi_threshold (mi_mshcfg m) = 0 \<and>
     mesh_plink_free_count m \<noteq> 0 \<and> mesh_matches_local (en_chans env) (en_vht_ext_nss_bw env) m el = Some True \<and>
     el_rsn_len el = 0 \<and> el_mesh_id el \<noteq> None \<and> el_mesh_config el \<noteq> None"

lemma matches_same:
  assumes "base_conf m' = base_conf m"
  shows "mesh_matches_local h x m' (el\<lparr>el_peering := p\<rparr>) = mesh_matches_local h x m el"
proof -
  have e: "mi_mesh_id m' = mi_mesh_id m" "mi_config_ids m' = mi_config_ids m" "mi_sband m' = mi_sband m" "mi_chandef m' = mi_chandef m"
    "mi_ctx_def m' = mi_ctx_def m" "mi_basic_rates m' = mi_basic_rates m"
    using assms by (simp_all add: base_conf_def)
  have "rate_bits m' = rate_bits m" by (intro ext) (simp add: rate_bits_def ieee80211_vif_get_shift_def e)
  then have r: "ieee80211_sta_get_rates m' sband (el\<lparr>el_peering := p\<rparr>) = ieee80211_sta_get_rates m sband el" for sband
    by (simp add: ieee80211_sta_get_rates_def add_rate_def [abs_def])
  have f: "el_mesh_id (el\<lparr>el_peering := p\<rparr>) = el_mesh_id el" "el_mesh_config (el\<lparr>el_peering := p\<rparr>) = el_mesh_config el"
    "el_ht_operation (el\<lparr>el_peering := p\<rparr>) = el_ht_operation el" "el_vht_operation (el\<lparr>el_peering := p\<rparr>) = el_vht_operation el"
    by simp_all
  show ?thesis unfolding mesh_matches_local_def e r f ..
qed

lemma find_sta_addrs: "map ms_addr ss = map ms_addr ts \<Longrightarrow> find_sta ss a = find_sta ts a"
  by (induction ss ts rule: list_induct2') simp_all

lemma links_addrs: "map ms_addr (mi_stas m) = map lk_addr (pv_links (view m))"
  by (simp add: view_def comp_def)

lemma can_peer_keep:
  assumes "can_peer env el a i m" "base_conf m' = base_conf m" "auths m' = auths m"
    and v: "view m' = set_link i l (view m)" "lk_addr l = lk_addr (lk m i)" "is_estab l = is_estab (lk m i)"
  shows "can_peer env el a i m'"
proof -
  have "map lk_addr (pv_links (view m')) = map lk_addr (pv_links (view m))"
    using v(2) by (simp add: v(1) map_update) (metis list_update_id map_update)
  then have "sta_info_get m' = sta_info_get m"
    by (intro ext) (simp add: sta_info_get_def, rule find_sta_addrs, simp add: links_addrs)
  moreover have "mesh_plink_free_count m' = mesh_plink_free_count m" using v(1,3) by (simp add: free_count set_link_def)
  moreover have "mesh_matches_local h x m' el = mesh_matches_local h x m el" for h x
    using matches_same [OF assms(2), of h x "el_peering el" el] by simp
  ultimately show ?thesis using assms(1-3) by (simp add: can_peer_def base_conf_def)
qed

lemma can_peer_place: "can_peer env el a i m \<Longrightarrow> in_range i m \<and> lk_addr (lk m i) = a"
  using sta_info_get_lk by (auto simp: can_peer_def)

lemma can_peer_auth: "can_peer env el a i m \<Longrightarrow> test_sta_flag (sta_of i m) WLAN_STA_AUTH"
  using can_peer_place [of env el a i m] by (auto simp: can_peer_def auths_def sta_of_def view_def)

lemma new_llid_same:
  assumes "map lk_llid (pv_links (view m')) = map lk_llid (pv_links (view m))"
  shows "mesh_get_new_llid env m' = mesh_get_new_llid env m"
proof -
  have "llid_in_use k x \<longleftrightarrow> x \<in> set (map lk_llid (pv_links (view k)))" for k x
    by (auto simp: llid_in_use_def view_def list_ex_iff)
  then show ?thesis by (simp only: mesh_get_new_llid_def assms)
qed

text \<open>Opening a link, and the three transitions of a handshake that succeeds.\<close>

abbreviation open_frame :: "u8 list \<Rightarrow> u16 \<Rightarrow> mesh_effect" where
  "open_frame a x \<equiv> PlinkFrame WLAN_SP_MESH_PEERING_OPEN a 0 (0 # 0 # le16_bytes x)"

abbreviation confirm_frame :: "u8 list \<Rightarrow> u16 \<Rightarrow> u16 \<Rightarrow> u16 \<Rightarrow> mesh_effect" where
  "confirm_frame a aid x y \<equiv> PlinkFrame WLAN_SP_MESH_PEERING_CONFIRM a aid (0 # 0 # le16_bytes x @ le16_bytes y)"

lemma elements [simp]:
  "peering_element WLAN_SP_MESH_PEERING_OPEN x y r = 0 # 0 # le16_bytes x"
  "peering_element WLAN_SP_MESH_PEERING_CONFIRM x y r = 0 # 0 # le16_bytes x @ le16_bytes y"
  by (simp_all add: peering_element_def)

lemma sends_sta_frame:
  assumes "mi_sband m \<noteq> None" "in_range i m" "a \<noteq> WLAN_SP_MESH_PEERING_CLOSE"
  shows "\<exists>aid. sends m [PlinkFrame a (lk_addr (lk m i)) aid (peering_element a (lk_llid (lk m i)) (lk_plid (lk m i)) r)] (sta_frame_tx a r i m) \<and>
    (a = WLAN_SP_MESH_PEERING_OPEN \<longrightarrow> aid = 0)"
  using sends_frame [OF assms(1), of a "lk_addr (lk m i)" "ms_sta_aid (sta_of i m)" "lk_llid (lk m i)" "lk_plid (lk m i)" r] assms(2)
  by (auto simp: sta_frame_tx_def Let_def lk_fields)

lemma sband_side: "side m' = side m \<Longrightarrow> mi_sband m' = mi_sband m"
  by (simp add: side_def base_conf_def)

lemma open_sends:
  assumes "can_peer env el a i m" "lk_state (lk m i) = NL80211_PLINK_LISTEN" "mesh_get_new_llid env m = Some x"
  shows "\<exists>ch m'. mesh_plink_open env i m = Some (ch, m') \<and> sends m [open_frame a x] m' \<and>
    view m' = set_link i ((lk m i)\<lparr>lk_llid := x, lk_state := NL80211_PLINK_OPN_SNT, lk_timeout := ucast (pv_retry_timeout (view m))\<rparr>) (view m)"
proof -
  note i = can_peer_place [OF assms(1)]
  define m1 where "m1 = sta_upd i (\<lambda>s. s\<lparr>ms_llid := x\<rparr>) m"
  define m2 where "m2 = sta_upd i (\<lambda>s. mesh_plink_timer_set env (ucast (dot11MeshRetryTimeout (mi_mshcfg m1)))
                    (s\<lparr>ms_plink_state := NL80211_PLINK_OPN_SNT\<rparr>)) m1"
  define m3 where "m3 = snd (ieee80211_mps_local_status_update m2)"
  have v1: "view m1 = (view m)\<lparr>pv_links := (pv_links (view m))[i := (lk m i)\<lparr>lk_llid := x\<rparr>]\<rparr>"
    using i by (simp add: m1_def view_sta_upd)
  have v: "view m3 = set_link i ((lk m i)\<lparr>lk_llid := x, lk_state := NL80211_PLINK_OPN_SNT, lk_timeout := ucast (pv_retry_timeout (view m))\<rparr>) (view m)"
    using i assms(2) by (simp add: m3_def m2_def view_sta_upd v1 config_view set_link_def is_estab_def)
  have s: "side m3 = side m" by (simp add: m3_def m2_def m1_def side_sta_upd)
  have o: "mesh_plink_open env i m = Some (fst (ieee80211_mps_local_status_update m2),
      mesh_plink_frame_tx WLAN_SP_MESH_PEERING_OPEN (ms_sta_aid (sta_of i m3)) (ms_addr (sta_of i m3)) (ms_llid (sta_of i m3)) 0 0 m3)"
    using assms(2,3) i can_peer_auth [OF assms(1)]
    by (simp add: mesh_plink_open_def split_def Let_def m1_def [symmetric] m2_def [symmetric] m3_def [symmetric] lk_fields v1)
  have "sends m3 [open_frame a x] (mesh_plink_frame_tx WLAN_SP_MESH_PEERING_OPEN (ms_sta_aid (sta_of i m3)) (ms_addr (sta_of i m3)) (ms_llid (sta_of i m3)) 0 0 m3)"
    using sends_frame [of m3 WLAN_SP_MESH_PEERING_OPEN "ms_addr (sta_of i m3)" "ms_sta_aid (sta_of i m3)" "ms_llid (sta_of i m3)" 0 0]
      assms(1) sband_side [OF s] i by (simp add: can_peer_def lk_fields v)
  then show ?thesis using o v sends_trans [OF sends_none [OF s]] by fastforce
qed

lemma fsm_sends:
  assumes p: "can_peer env el a i m"
  shows "lk_state (lk m i) = NL80211_PLINK_LISTEN \<Longrightarrow> mesh_get_new_llid env m = Some x \<Longrightarrow>
      \<exists>ch m' aid. mesh_plink_fsm env i OPN_ACPT m = Some (ch, m') \<and>
        sends m [open_frame a x, confirm_frame a aid x (lk_plid (lk m i))] m' \<and>
        view m' = set_link i ((lk m i)\<lparr>lk_state := NL80211_PLINK_OPN_RCVD, lk_llid := x,
          lk_timeout := ucast (pv_retry_timeout (view m))\<rparr>) (view m)"
    and "lk_state (lk m i) = NL80211_PLINK_OPN_SNT \<Longrightarrow>
      \<exists>ch m' aid. mesh_plink_fsm env i OPN_ACPT m = Some (ch, m') \<and>
        sends m [confirm_frame a aid (lk_llid (lk m i)) (lk_plid (lk m i))] m' \<and>
        view m' = set_link i ((lk m i)\<lparr>lk_state := NL80211_PLINK_OPN_RCVD\<rparr>) (view m)"
    and "lk_state (lk m i) = NL80211_PLINK_OPN_RCVD \<Longrightarrow>
      \<exists>ch m'. mesh_plink_fsm env i CNF_ACPT m = Some (ch, m') \<and> sends m [] m' \<and>
        view m' = set_link i ((lk m i)\<lparr>lk_state := NL80211_PLINK_ESTAB\<rparr>) (view m)"
proof -
  note i = can_peer_place [OF p]
  have band: "mi_sband m \<noteq> None" using p by (simp add: can_peer_def)
  have keep: "sends m fs m' \<Longrightarrow> mi_sband m' \<noteq> None" for fs m' using band by (simp add: sends_def base_conf_def)
  show "\<exists>ch m' aid. mesh_plink_fsm env i OPN_ACPT m = Some (ch, m') \<and>
        sends m [open_frame a x, confirm_frame a aid x (lk_plid (lk m i))] m' \<and>
        view m' = set_link i ((lk m i)\<lparr>lk_state := NL80211_PLINK_OPN_RCVD, lk_llid := x,
          lk_timeout := ucast (pv_retry_timeout (view m))\<rparr>) (view m)"
    if l: "lk_state (lk m i) = NL80211_PLINK_LISTEN" and x: "mesh_get_new_llid env m = Some x"
  proof -
    define m1 where "m1 = sta_upd i (\<lambda>s. s\<lparr>ms_plink_state := NL80211_PLINK_OPN_RCVD\<rparr>) m"
    define m2 where "m2 = sta_upd i (\<lambda>s. mesh_plink_timer_set env (ucast (dot11MeshRetryTimeout (mi_mshcfg m1))) (s\<lparr>ms_llid := x\<rparr>)) m1"
    define m3 where "m3 = snd (ieee80211_mps_local_status_update m2)"
    have v1: "view m1 = (view m)\<lparr>pv_links := (pv_links (view m))[i := (lk m i)\<lparr>lk_state := NL80211_PLINK_OPN_RCVD\<rparr>]\<rparr>"
      using i by (simp add: m1_def view_sta_upd)
    have x1: "mesh_get_new_llid env m1 = Some x"
      using x new_llid_same [of m1 m env] i by (simp add: v1 map_update) (metis list_update_id map_update)
    let ?l = "(lk m i)\<lparr>lk_state := NL80211_PLINK_OPN_RCVD, lk_llid := x, lk_timeout := ucast (pv_retry_timeout (view m))\<rparr>"
    have v: "view m3 = set_link i ?l (view m)"
      using i l by (simp add: m3_def m2_def view_sta_upd v1 config_view set_link_def is_estab_def)
    have s: "side m3 = side m" by (simp add: m3_def m2_def m1_def side_sta_upd)
    have i3: "in_range i m3" using i by (simp add: v)
    obtain aid where f1: "sends m3 [open_frame a x] (sta_frame_tx WLAN_SP_MESH_PEERING_OPEN (ms_reason (sta_of i m3)) i m3)"
      using sends_sta_frame [of m3 i WLAN_SP_MESH_PEERING_OPEN "ms_reason (sta_of i m3)"] i band sband_side [OF s] by (auto simp: v)
    define m4 where "m4 = sta_frame_tx WLAN_SP_MESH_PEERING_OPEN (ms_reason (sta_of i m3)) i m3"
    have m4: "sends m [open_frame a x] m4" using sends_trans [OF sends_none [OF s] f1] by (simp add: m4_def)
    obtain aid where f2: "sends m4 [confirm_frame a aid x (lk_plid (lk m i))] (sta_frame_tx WLAN_SP_MESH_PEERING_CONFIRM 0 i m4)"
      using sends_sta_frame [of m4 i WLAN_SP_MESH_PEERING_CONFIRM 0] i keep [OF m4] by (auto simp: m4_def v)
    have "mesh_plink_fsm env i OPN_ACPT m = Some (fst (ieee80211_mps_local_status_update m2), sta_frame_tx WLAN_SP_MESH_PEERING_CONFIRM 0 i m4)"
      using l i x1 by (simp add: mesh_plink_fsm_def fsm_switch_def split_def Let_def lk_fields m1_def [symmetric] m2_def [symmetric]
          m3_def [symmetric] m4_def [symmetric])
    then show ?thesis using sends_trans [OF m4 f2] v by (auto simp: m4_def)
  qed
  show "\<exists>ch m' aid. mesh_plink_fsm env i OPN_ACPT m = Some (ch, m') \<and>
        sends m [confirm_frame a aid (lk_llid (lk m i)) (lk_plid (lk m i))] m' \<and>
        view m' = set_link i ((lk m i)\<lparr>lk_state := NL80211_PLINK_OPN_RCVD\<rparr>) (view m)"
    if l: "lk_state (lk m i) = NL80211_PLINK_OPN_SNT"
  proof -
    define m1 where "m1 = sta_upd i (\<lambda>s. s\<lparr>ms_plink_state := NL80211_PLINK_OPN_RCVD\<rparr>) m"
    have v1: "view m1 = set_link i ((lk m i)\<lparr>lk_state := NL80211_PLINK_OPN_RCVD\<rparr>) (view m)"
      using i l by (simp add: m1_def view_set_link is_estab_def)
    have s: "sends m [] m1" by (simp add: m1_def side_sta_upd sends_none)
    obtain aid where f: "sends m1 [confirm_frame a aid (lk_llid (lk m i)) (lk_plid (lk m i))]
        (sta_frame_tx WLAN_SP_MESH_PEERING_CONFIRM (ms_reason (sta_of i m1)) i m1)"
      using sends_sta_frame [of m1 i WLAN_SP_MESH_PEERING_CONFIRM "ms_reason (sta_of i m1)"] i keep [OF s] by (auto simp: v1)
    have "mesh_plink_fsm env i OPN_ACPT m = Some (0, sta_frame_tx WLAN_SP_MESH_PEERING_CONFIRM (ms_reason (sta_of i m1)) i m1)"
      using l i by (simp add: mesh_plink_fsm_def fsm_switch_def Let_def lk_fields m1_def [symmetric])
    then show ?thesis using sends_trans [OF s f] v1 by auto
  qed
  show "\<exists>ch m'. mesh_plink_fsm env i CNF_ACPT m = Some (ch, m') \<and> sends m [] m' \<and>
        view m' = set_link i ((lk m i)\<lparr>lk_state := NL80211_PLINK_ESTAB\<rparr>) (view m)"
    if l: "lk_state (lk m i) = NL80211_PLINK_OPN_RCVD"
    using l i by (intro exI [of _ "fst (mesh_plink_establish i m)"] exI [of _ "snd (mesh_plink_establish i m)"])
      (simp add: mesh_plink_fsm_def fsm_switch_def split_def Let_def lk_fields view_established is_estab_def side_established sends_none)
qed

text \<open>The frames of a handshake as the other side reads them.\<close>

lemma read_ids [simp]:
  "peering_ids WLAN_SP_MESH_PEERING_OPEN (0 # 0 # le16_bytes p) = Some (p, 0)"
  "peering_ids WLAN_SP_MESH_PEERING_CONFIRM (0 # 0 # le16_bytes p @ le16_bytes q) = Some (p, q)"
  "length (le16_bytes p) = 2"
  by (simp_all add: peering_ids_def get_unaligned_le16_def rd_u8_def le16_bytes_def)

abbreviation with_peering :: "ieee802_11_elems \<Rightarrow> u8 list \<Rightarrow> ieee802_11_elems" where
  "with_peering el bytes \<equiv> el\<lparr>el_peering := Some bytes\<rparr>"

lemma receive_open:
  assumes p: "can_peer env el a i m" and l: "lk_state (lk m i) \<noteq> NL80211_PLINK_BLOCKED" "lk_plid (lk m i) = 0 \<or> lk_plid (lk m i) = q"
  shows "\<exists>m1. mesh_rx_plink_frame env False a WLAN_SP_MESH_PEERING_OPEN aid (with_peering el (0 # 0 # le16_bytes q)) m =
      map_option (\<lambda>(ch, m'). ieee80211_mbss_info_change_notify ch m') (mesh_plink_fsm env i OPN_ACPT m1) \<and> sends m [] m1 \<and>
      view m1 = set_link i ((lk m i)\<lparr>lk_plid := q\<rparr>) (view m)"
proof -
  let ?el = "with_peering el (0 # 0 # le16_bytes q)"
  note i = can_peer_place [OF p]
  define m0 where "m0 = sta_upd i (mesh_sta_info_init env m ?el) m"
  define m1 where "m1 = sta_upd i (\<lambda>s. s\<lparr>ms_plid := q\<rparr>) m0"
  have v0: "view m0 = view m" by (simp add: m0_def view_sta_upd_same sta_init_same)
  have v: "view m1 = set_link i ((lk m i)\<lparr>lk_plid := q\<rparr>) (view m)"
    using i v0 by (simp add: m1_def view_set_link is_estab_def)
  have "test_sta_flag (mesh_sta_info_init env m e s) g = test_sta_flag s g" for e s g
    by (simp add: mesh_sta_info_init_def test_sta_flag_def Let_def split: option.split prod.split)
  then have s: "sends m [] m1" by (simp add: m1_def m0_def side_sta_upd sends_none)
  have "mesh_plink_get_event env m (Some (sta_of i m)) ?el WLAN_SP_MESH_PEERING_OPEN 4 0 q = Some OPN_ACPT"
    using p l i can_peer_auth [OF p] matches_same [of m m _ _ _ el]
    by (auto simp: mesh_plink_get_event_def Let_def can_peer_def lk_fields)
  then have "mesh_rx_plink_frame env False a WLAN_SP_MESH_PEERING_OPEN aid ?el m =
      map_option (\<lambda>(ch, m'). ieee80211_mbss_info_change_notify ch m') (mesh_plink_fsm env i OPN_ACPT m1)"
    using p by (auto simp: mesh_rx_plink_frame_def mesh_process_plink_frame_def can_peer_def peering_length_ok_def rssi_threshold_check_def
        process_plink_event_def mesh_sta_info_get_def m0_def [symmetric] m1_def [symmetric] Let_def split: bind_splits)
  then show ?thesis using v s by blast
qed

lemma receive_confirm:
  assumes p: "can_peer env el a i m" and l: "lk_state (lk m i) \<noteq> NL80211_PLINK_BLOCKED" "lk_plid (lk m i) = 0 \<or> lk_plid (lk m i) = q"
    "lk_llid (lk m i) = x"
  shows "\<exists>m1. mesh_rx_plink_frame env False a WLAN_SP_MESH_PEERING_CONFIRM aid (with_peering el (0 # 0 # le16_bytes q @ le16_bytes x)) m =
      map_option (\<lambda>(ch, m'). ieee80211_mbss_info_change_notify ch m') (mesh_plink_fsm env i CNF_ACPT m1) \<and> sends m [] m1 \<and>
      view m1 = set_link i ((lk m i)\<lparr>lk_plid := q\<rparr>) (view m)"
proof -
  let ?el = "with_peering el (0 # 0 # le16_bytes q @ le16_bytes x)"
  note i = can_peer_place [OF p]
  define m1 where "m1 = sta_upd i (\<lambda>s. s\<lparr>ms_plid := (if ms_plid s = 0 then q else ms_plid s), ms_aid := aid\<rparr>) m"
  have "lk_plid (lk m i) \<noteq> 0 \<Longrightarrow> q = lk_plid (lk m i)" using l(2) by auto
  then have v: "view m1 = set_link i ((lk m i)\<lparr>lk_plid := q\<rparr>) (view m)"
    using i by (cases "lk_plid (lk m i) = 0") (simp_all add: m1_def view_set_link is_estab_def lk_fields)
  have s: "sends m [] m1" by (simp add: m1_def side_sta_upd sends_none)
  have "mesh_plink_get_event env m (Some (sta_of i m)) ?el WLAN_SP_MESH_PEERING_CONFIRM 6 x q = Some CNF_ACPT"
    using p l i can_peer_auth [OF p] matches_same [of m m _ _ _ el]
    by (auto simp: mesh_plink_get_event_def Let_def can_peer_def lk_fields)
  then have "mesh_rx_plink_frame env False a WLAN_SP_MESH_PEERING_CONFIRM aid ?el m =
      map_option (\<lambda>(ch, m'). ieee80211_mbss_info_change_notify ch m') (mesh_plink_fsm env i CNF_ACPT m1)"
    using p by (auto simp: mesh_rx_plink_frame_def mesh_process_plink_frame_def can_peer_def peering_length_ok_def
        process_plink_event_def m1_def [symmetric] Let_def split: bind_splits)
  then show ?thesis using v s by blast
qed

text \<open>What the receiver of a frame becomes.\<close>

definition link_is :: "nat \<Rightarrow> nl80211_plink_state \<Rightarrow> u16 \<Rightarrow> u16 \<Rightarrow> mesh_if \<Rightarrow> bool" where
  "link_is i st x y m \<longleftrightarrow> in_range i m \<and> lk_state (lk m i) = st \<and> lk_llid (lk m i) = x \<and> lk_plid (lk m i) = y"

lemma notified:
  "sends m fs (ieee80211_mbss_info_change_notify ch m') = sends m fs m'"
  "can_peer env el a i (ieee80211_mbss_info_change_notify ch m') = can_peer env el a i m'"
  "link_is i st x y (ieee80211_mbss_info_change_notify ch m') = link_is i st x y m'"
proof -
  let ?n = "ieee80211_mbss_info_change_notify ch m'"
  have s: "side ?n = side m'" and v: "view ?n = view m'" by simp_all
  show "sends m fs ?n = sends m fs m'" using s by (simp add: sends_def side_def)
  show "link_is i st x y ?n = link_is i st x y m'" by (simp add: link_is_def)
  have "can_peer env el a i k'" if p: "can_peer env el a i k" and e: "side k' = side k" "view k' = view k" for k k'
  proof -
    have "set_link i (lk k i) (view k) = view k" using can_peer_place [OF p] by (simp add: set_link_def)
    then show ?thesis using can_peer_keep [OF p, of k' "lk k i"] e by (simp add: side_def)
  qed
  then show "can_peer env el a i ?n = can_peer env el a i m'" using s v by metis
qed

lemma set_link_lk: "in_range i m \<Longrightarrow> view m' = set_link i l (view m) \<Longrightarrow> lk m' i = l"
  by simp

lemma noted_plid:
  assumes p: "can_peer env el a i m" and s: "sends m [] m1" and v: "view m1 = set_link i ((lk m i)\<lparr>lk_plid := q\<rparr>) (view m)"
  shows "can_peer env el a i m1" "lk m1 i = (lk m i)\<lparr>lk_plid := q\<rparr>" "mesh_get_new_llid env m1 = mesh_get_new_llid env m"
proof -
  note i = can_peer_place [OF p]
  show "can_peer env el a i m1" using can_peer_keep [OF p _ _ v] s by (simp add: sends_def is_estab_def)
  show "lk m1 i = (lk m i)\<lparr>lk_plid := q\<rparr>" using i by (simp add: v)
  have "map lk_llid (pv_links (view m1)) = map lk_llid (pv_links (view m))"
    using i by (simp add: v map_update) (metis list_update_id map_update)
  then show "mesh_get_new_llid env m1 = mesh_get_new_llid env m" by (rule new_llid_same)
qed

lemma take_open_listening:
  assumes p: "can_peer env el a i m" and l: "link_is i NL80211_PLINK_LISTEN x 0 m" and x: "mesh_get_new_llid env m = Some y"
  shows "\<exists>m' aid'. mesh_rx_plink_frame env False a WLAN_SP_MESH_PEERING_OPEN aid (with_peering el (0 # 0 # le16_bytes q)) m = Some m' \<and>
    sends m [open_frame a y, confirm_frame a aid' y q] m' \<and> can_peer env el a i m' \<and> link_is i NL80211_PLINK_OPN_RCVD y q m' \<and>
    pv_estab (view m') = pv_estab (view m)"
proof -
  obtain m1 where m1: "mesh_rx_plink_frame env False a WLAN_SP_MESH_PEERING_OPEN aid (with_peering el (0 # 0 # le16_bytes q)) m =
      map_option (\<lambda>(ch, m'). ieee80211_mbss_info_change_notify ch m') (mesh_plink_fsm env i OPN_ACPT m1)" "sends m [] m1"
      "view m1 = set_link i ((lk m i)\<lparr>lk_plid := q\<rparr>) (view m)"
    using receive_open [OF p, of q aid] l by (auto simp: link_is_def)
  note n = noted_plid [OF p m1(2,3)]
  obtain ch m2 aid' where m2: "mesh_plink_fsm env i OPN_ACPT m1 = Some (ch, m2)"
      "sends m1 [open_frame a y, confirm_frame a aid' y (lk_plid (lk m1 i))] m2"
      "view m2 = set_link i ((lk m1 i)\<lparr>lk_state := NL80211_PLINK_OPN_RCVD, lk_llid := y,
          lk_timeout := ucast (pv_retry_timeout (view m1))\<rparr>) (view m1)"
    using fsm_sends(1) [OF n(1), of y] l n x by (auto simp: link_is_def)
  have "can_peer env el a i m2" using can_peer_keep [OF n(1) _ _ m2(3)] m2(2) n l by (simp add: sends_def is_estab_def link_is_def)
  moreover have "link_is i NL80211_PLINK_OPN_RCVD y q m2" using can_peer_place [OF n(1)] n by (simp add: m2(3) link_is_def)
  moreover have "pv_estab (view m2) = pv_estab (view m)"
    using n(2) l can_peer_place [OF p] by (simp add: m2(3) m1(3) set_link_def is_estab_def link_is_def)
  ultimately show ?thesis using m1(1) m2(1,2) sends_trans [OF m1(2) m2(2)] n by (auto simp: notified)
qed

lemma take_open_sent:
  assumes p: "can_peer env el a i m" and l: "link_is i NL80211_PLINK_OPN_SNT x 0 m"
  shows "\<exists>m' aid'. mesh_rx_plink_frame env False a WLAN_SP_MESH_PEERING_OPEN aid (with_peering el (0 # 0 # le16_bytes q)) m = Some m' \<and>
    sends m [confirm_frame a aid' x q] m' \<and> can_peer env el a i m' \<and> link_is i NL80211_PLINK_OPN_RCVD x q m' \<and>
    pv_estab (view m') = pv_estab (view m)"
proof -
  obtain m1 where m1: "mesh_rx_plink_frame env False a WLAN_SP_MESH_PEERING_OPEN aid (with_peering el (0 # 0 # le16_bytes q)) m =
      map_option (\<lambda>(ch, m'). ieee80211_mbss_info_change_notify ch m') (mesh_plink_fsm env i OPN_ACPT m1)" "sends m [] m1"
      "view m1 = set_link i ((lk m i)\<lparr>lk_plid := q\<rparr>) (view m)"
    using receive_open [OF p, of q aid] l by (auto simp: link_is_def)
  note n = noted_plid [OF p m1(2,3)]
  obtain ch m2 aid' where m2: "mesh_plink_fsm env i OPN_ACPT m1 = Some (ch, m2)"
      "sends m1 [confirm_frame a aid' (lk_llid (lk m1 i)) (lk_plid (lk m1 i))] m2"
      "view m2 = set_link i ((lk m1 i)\<lparr>lk_state := NL80211_PLINK_OPN_RCVD\<rparr>) (view m1)"
    using fsm_sends(2) [OF n(1)] l n by (auto simp: link_is_def)
  have "can_peer env el a i m2" using can_peer_keep [OF n(1) _ _ m2(3)] m2(2) n l by (simp add: sends_def is_estab_def link_is_def)
  moreover have "link_is i NL80211_PLINK_OPN_RCVD x q m2" using can_peer_place [OF n(1)] n l by (simp add: m2(3) link_is_def)
  moreover have "pv_estab (view m2) = pv_estab (view m)"
    using n(2) l can_peer_place [OF p] by (simp add: m2(3) m1(3) set_link_def is_estab_def link_is_def)
  ultimately show ?thesis using m1(1) m2(1,2) sends_trans [OF m1(2) m2(2)] n l by (auto simp: notified link_is_def)
qed

lemma take_confirm:
  assumes p: "can_peer env el a i m" and l: "link_is i NL80211_PLINK_OPN_RCVD x q m"
  shows "\<exists>m'. mesh_rx_plink_frame env False a WLAN_SP_MESH_PEERING_CONFIRM aid (with_peering el (0 # 0 # le16_bytes q @ le16_bytes x)) m = Some m' \<and>
    sends m [] m' \<and> link_is i NL80211_PLINK_ESTAB x q m' \<and> pv_estab (view m') = pv_estab (view m) + 1"
proof -
  obtain m1 where m1: "mesh_rx_plink_frame env False a WLAN_SP_MESH_PEERING_CONFIRM aid (with_peering el (0 # 0 # le16_bytes q @ le16_bytes x)) m =
      map_option (\<lambda>(ch, m'). ieee80211_mbss_info_change_notify ch m') (mesh_plink_fsm env i CNF_ACPT m1)" "sends m [] m1"
      "view m1 = set_link i ((lk m i)\<lparr>lk_plid := q\<rparr>) (view m)"
    using receive_confirm [OF p, of q x aid] l by (auto simp: link_is_def)
  note n = noted_plid [OF p m1(2,3)]
  obtain ch m2 where m2: "mesh_plink_fsm env i CNF_ACPT m1 = Some (ch, m2)" "sends m1 [] m2"
      "view m2 = set_link i ((lk m1 i)\<lparr>lk_state := NL80211_PLINK_ESTAB\<rparr>) (view m1)"
    using fsm_sends(3) [OF n(1)] l n by (auto simp: link_is_def)
  have "link_is i NL80211_PLINK_ESTAB x q m2" using can_peer_place [OF n(1)] n l by (simp add: m2(3) link_is_def)
  moreover have "pv_estab (view m2) = pv_estab (view m) + 1"
    using n(2) l can_peer_place [OF p] by (simp add: m2(3) m1(3) set_link_def is_estab_def link_is_def)
  ultimately show ?thesis using m1(1) m2(1) sends_trans [OF m1(2) m2(2)] by (auto simp: notified)
qed

section \<open>Two stations\<close>

text \<open>
  The frames one side sent since a state, and their delivery to the other: each frame for \<open>me\<close> is received from \<open>peer\<close>,
  with the elements the peer puts into all its frames.
\<close>

definition sent :: "mesh_if \<Rightarrow> mesh_if \<Rightarrow> mesh_effect list" where
  "sent m m' = drop (length (plink_frames m)) (plink_frames m')"

fun deliver :: "mesh_env \<Rightarrow> u8 list \<Rightarrow> u8 list \<Rightarrow> ieee802_11_elems \<Rightarrow> mesh_effect list \<Rightarrow> mesh_if \<Rightarrow> mesh_if option" where
  "deliver env peer me el [] m = Some m"
| "deliver env peer me el (PlinkFrame action da aid bytes # fs) m =
     (if da = me then Option.bind (mesh_rx_plink_frame env False peer action aid (with_peering el bytes) m) (deliver env peer me el fs)
      else deliver env peer me el fs m)"
| "deliver env peer me el (_ # fs) m = deliver env peer me el fs m"

lemma sent_sends: "sends m fs m' \<Longrightarrow> sent m m' = fs"
  by (simp add: sends_def sent_def)

text \<open>C11: Liveness: two stations that match and have a free link end up established with each other. The one opens its link; when
  the frames each then sends reach the other, in order, both links are established, each with the ID the
  other chose as the peer's, and each side counts one link more.\<close>

theorem handshake_establishes:
  assumes "can_peer envA elB b i m" and "can_peer envB elA a j n"
    and "ms_plink_state (sta_of i m) = NL80211_PLINK_LISTEN" and "ms_plid (sta_of i m) = 0"
    and "ms_plink_state (sta_of j n) = NL80211_PLINK_LISTEN" and "ms_plid (sta_of j n) = 0"
    and "mesh_get_new_llid envA m = Some x" and "mesh_get_new_llid envB n = Some y"
  shows "\<exists>ch m1 n1 m2 n2. mesh_plink_open envA i m = Some (ch, m1) \<and> deliver envB a b elA (sent m m1) n = Some n1 \<and>
    deliver envA b a elB (sent n n1) m1 = Some m2 \<and> deliver envB a b elA (sent m1 m2) n1 = Some n2 \<and>
    established (sta_of i m2) \<and> ms_llid (sta_of i m2) = x \<and> ms_plid (sta_of i m2) = y \<and> mi_estab_plinks m2 = mi_estab_plinks m + 1 \<and>
    established (sta_of j n2) \<and> ms_llid (sta_of j n2) = y \<and> ms_plid (sta_of j n2) = x \<and> mi_estab_plinks n2 = mi_estab_plinks n + 1"
proof -
  note A = assms(1) and B = assms(2)
  have i: "in_range i m" "in_range j n" using can_peer_place [OF A] can_peer_place [OF B] by simp_all
  obtain ch m1 where m1: "mesh_plink_open envA i m = Some (ch, m1)" "sends m [open_frame b x] m1"
    "view m1 = set_link i ((lk m i)\<lparr>lk_llid := x, lk_state := NL80211_PLINK_OPN_SNT, lk_timeout := ucast (pv_retry_timeout (view m))\<rparr>) (view m)"
    using open_sends [OF A _ assms(7)] assms(3) i by (auto simp: lk_fields)
  have a1: "can_peer envA elB b i m1" "link_is i NL80211_PLINK_OPN_SNT x 0 m1" and e1: "pv_estab (view m1) = pv_estab (view m)"
    using can_peer_keep [OF A _ _ m1(3)] m1(2) assms(3,4) i
    by (simp_all add: sends_def is_estab_def link_is_def lk_fields m1(3), simp_all add: set_link_def is_estab_def)
  have l: "link_is j NL80211_PLINK_LISTEN (lk_llid (lk n j)) 0 n" using assms(5,6) i by (simp add: link_is_def lk_fields)
  obtain n1 aid where n1: "mesh_rx_plink_frame envB False a WLAN_SP_MESH_PEERING_OPEN 0 (with_peering elA (0 # 0 # le16_bytes x)) n = Some n1"
    "sends n [open_frame a y, confirm_frame a aid y x] n1" "can_peer envB elA a j n1" "link_is j NL80211_PLINK_OPN_RCVD y x n1"
    "pv_estab (view n1) = pv_estab (view n)"
    using take_open_listening [OF B l assms(8)] by blast
  obtain m1' aid' where m1': "mesh_rx_plink_frame envA False b WLAN_SP_MESH_PEERING_OPEN 0 (with_peering elB (0 # 0 # le16_bytes y)) m1 = Some m1'"
    "sends m1 [confirm_frame b aid' x y] m1'" "can_peer envA elB b i m1'" "link_is i NL80211_PLINK_OPN_RCVD x y m1'"
    "pv_estab (view m1') = pv_estab (view m1)"
    using take_open_sent [OF a1] by blast
  obtain m2 where m2: "mesh_rx_plink_frame envA False b WLAN_SP_MESH_PEERING_CONFIRM aid (with_peering elB (0 # 0 # le16_bytes y @ le16_bytes x)) m1' = Some m2"
    "sends m1' [] m2" "link_is i NL80211_PLINK_ESTAB x y m2" "pv_estab (view m2) = pv_estab (view m1') + 1"
    using take_confirm [OF m1'(3,4)] by blast
  obtain n2 where n2: "mesh_rx_plink_frame envB False a WLAN_SP_MESH_PEERING_CONFIRM aid' (with_peering elA (0 # 0 # le16_bytes x @ le16_bytes y)) n1 = Some n2"
    "link_is j NL80211_PLINK_ESTAB y x n2" "pv_estab (view n2) = pv_estab (view n1) + 1"
    using take_confirm [OF n1(3,4)] by blast
  have d: "deliver envB a b elA (sent m m1) n = Some n1" "deliver envB a b elA (sent m1 m2) n1 = Some n2"
    "deliver envA b a elB (sent n n1) m1 = Some m2"
    using n1(1) m1'(1) m2(1) n2(1) sent_sends [OF m1(2)] sent_sends [OF n1(2)] sent_sends [OF sends_trans [OF m1'(2) m2(2)]] by simp_all
  have "mi_estab_plinks k = pv_estab (view k)" for k by (simp add: view_def)
  moreover have "link_is k NL80211_PLINK_ESTAB u w K \<Longrightarrow>
      established (sta_of k K) \<and> ms_llid (sta_of k K) = u \<and> ms_plid (sta_of k K) = w" for k u w K
    by (simp add: link_is_def established_def lk_fields)
  ultimately show ?thesis using m1(1) d m2(3,4) n2(2,3) e1 m1'(5) n1(5)
    by (intro exI [of _ ch] exI [of _ m1] exI [of _ n1] exI [of _ m2] exI [of _ n2]) simp
qed

section \<open>Sample runs\<close>

definition sample_band :: ieee80211_supported_band where
  "sample_band = \<lparr>sb_channels = [0], sb_bitrates = [], sb_band = NL80211_BAND_5GHZ,
     sb_ht_cap = \<lparr>ht_cap_bits = 0, ht_supported = False, ht_rx_mask = []\<rparr>, sb_vht_cap = \<lparr>vht_supported = False, vht_cap_bits = 0\<rparr>\<rparr>"

definition sample_mesh :: mesh_if where
  "sample_mesh =
     \<lparr>mi_stas = [], mi_num_sta = 0, mi_other_aids = [], mi_sband = Some sample_band,
      mi_chandef = sample_def NL80211_CHAN_WIDTH_20_NOHT 5180 0, mi_ctx_def = None, mi_basic_rates = 0, mi_ht_operation_mode = 0,
      mi_use_short_slot = True,
      mi_mshcfg = \<lparr>dot11MeshRetryTimeout = 100, dot11MeshConfirmTimeout = 100, dot11MeshHoldingTimeout = 100,
        dot11MeshMaxPeerLinks = 99, dot11MeshMaxRetries = 3, auto_open_plinks = False, rssi_threshold = 0, ht_opmode = 0,
        power_mode = NL80211_MESH_POWER_ACTIVE\<rparr>,
      mi_mesh_id = [7], mi_config_ids = [1, 1, 0, 1, 0], mi_estab_plinks = 0, mi_accepting_plinks = True, mi_security = 0,
      mi_user_mpm = False, mi_nonpeer_pm = NL80211_MESH_POWER_ACTIVE, mi_ps_peers_light_sleep = 0, mi_ps_peers_deep_sleep = 0,
      mi_num_sta_ps = 0, mi_log = []\<rparr>"

definition mesh_sample_env :: mesh_env where
  "mesh_sample_env = \<lparr>en_jiffies = 1000, en_msecs_to_jiffies = ucast, en_llids = [5, 6], en_rand = 7, en_chans = sample_store,
     en_vht_ext_nss_bw = False, en_quiescing = False, en_memory = True, en_insert_ok = True,
     en_sta_caps = (\<lambda>elems s. (IEEE80211_STA_RX_BW_20, False))\<rparr>"

definition sample_elems :: "u8 list \<Rightarrow> ieee802_11_elems" where
  "sample_elems peering = \<lparr>el_peering = Some peering, el_rsn_len = 0, el_mesh_id = Some [7],
     el_mesh_config = Some \<lparr>meshconf_psel = 1, meshconf_pmetric = 1, meshconf_congest = 0, meshconf_synch = 1, meshconf_auth = 0,
       meshconf_form = 0, meshconf_cap = 1\<rparr>,
     el_supp_rates = [], el_ext_supp_rates = [], el_ht_operation = None, el_vht_operation = None\<rparr>"

lemma sample_matches: "mesh_matches_local sample_store False sample_mesh (sample_elems p) = Some True"
  by (simp add: mesh_matches_local_def sample_mesh_def sample_elems_def sample_band_def ieee80211_sta_get_rates_def
      ieee80211_chandef_ht_oper_def ieee80211_chandef_vht_oper_def cfg80211_chandef_compatible_def cfg80211_chandef_identical_def
      cfg80211_chandef_create_def sample_defs)

definition sample_beacon :: mesh_event where
  "sample_beacon = Neighbour mesh_sample_env [1, 2] (sample_elems [])"

definition peer_sta :: "u8 list \<Rightarrow> mesh_sta" where
  "peer_sta a = (new_mesh_sta a 1)\<lparr>ms_last_rx := 1000, ms_processed_beacon := True\<rparr>"

definition sample_peer :: "u8 list \<Rightarrow> mesh_if" where
  "sample_peer a = sample_mesh\<lparr>mi_stas := [peer_sta a], mi_num_sta := 1, mi_log := [FrameRelease a]\<rparr>"

lemma first_aid: "List.find ((<) 0) [0..<2008] = Some (1 :: nat)"
  by (simp add: upt_rec [of 0 2008] upt_rec [of "Suc 0" 2008] del: upt_Suc)

lemma sample_alloc: "mesh_sta_info_alloc_kernel mesh_sample_env [1, 2] sample_mesh = Some (new_mesh_sta [1, 2] 1)"
  using first_aid by (simp add: mesh_sta_info_alloc_kernel_def mesh_allocate_aid_def sample_mesh_def mesh_sample_env_def MESH_MAX_PLINKS_def
      IEEE80211_MAX_AID_def del: upt_Suc)

lemma sample_init: "mesh_sta_info_init mesh_sample_env sample_mesh (sample_elems p) (new_mesh_sta [1, 2] 1) = peer_sta [1, 2]"
  by (simp add: mesh_sta_info_init_def sample_mesh_def mesh_sample_env_def sample_elems_def new_mesh_sta_def peer_sta_def sample_band_def
      ieee80211_sta_get_rates_def Let_def)

lemma sample_insert: "sta_info_insert (peer_sta [1, 2]) sample_mesh = sample_mesh\<lparr>mi_stas := [peer_sta [1, 2]], mi_num_sta := 1\<rparr>"
  by (simp add: sta_info_insert_def mesh_accept_plinks_update_def mesh_plink_availables_def mesh_plink_free_count_def sample_mesh_def
      MESH_MAX_PLINKS_def)

lemma sample_beacon_step: "mesh_step sample_mesh sample_beacon = Some (sample_peer [1, 2])"
proof -
  have "mesh_sta_info_get mesh_sample_env [1, 2] (sample_elems []) sample_mesh = Some (Some 0, sample_mesh\<lparr>mi_stas := [peer_sta [1, 2]], mi_num_sta := 1\<rparr>)"
  proof -
    have "sta_info_get sample_mesh a = None" "\<not> mi_user_mpm sample_mesh" "mi_security sample_mesh = 0" "mi_stas sample_mesh = []"
      "en_insert_ok mesh_sample_env" for a
      by (simp_all add: sta_info_get_def sample_mesh_def mesh_sample_env_def)
    then show ?thesis by (simp add: mesh_sta_info_get_def mesh_sta_info_alloc_def sample_alloc sample_init sample_insert)
  qed
  then show ?thesis
    by (simp add: mesh_step_def sample_beacon_def mesh_neighbour_update_def mesh_peer_accepts_plinks_def)
      (simp add: sample_elems_def sample_mesh_def sample_peer_def sta_upd_def sta_of_def log_effect_def ieee80211_mbss_info_change_notify_def
        peer_sta_def new_mesh_sta_def IEEE80211_MESHCONF_FORM_CONNECTED_TO_GATE_def)
qed

lemma sample_can_peer: "can_peer mesh_sample_env (sample_elems p) a 0 (sample_peer a)"
proof -
  have "base_conf (sample_peer a) = base_conf sample_mesh" by (simp add: base_conf_def sample_peer_def)
  from matches_same [OF this, of sample_store False "Some p" "sample_elems p"]
  have "mesh_matches_local sample_store False (sample_peer a) (sample_elems p) = Some True"
    using sample_matches [of p] by (simp add: sample_elems_def)
  then show ?thesis
    by (simp add: can_peer_def sta_info_get_def auths_def mesh_plink_free_count_def mesh_sample_env_def)
     (simp add: sample_peer_def sample_mesh_def peer_sta_def new_mesh_sta_def test_sta_flag_def sample_elems_def)
qed

lemma sample_listens: "link_is 0 NL80211_PLINK_LISTEN 0 0 (sample_peer a)" "mesh_get_new_llid mesh_sample_env (sample_peer a) = Some 5"
  by (simp_all add: link_is_def view_def sample_peer_def peer_sta_def new_mesh_sta_def mesh_get_new_llid_def llid_in_use_def mesh_sample_env_def)

definition sample_open :: mesh_event where
  "sample_open = PlinkRx mesh_sample_env False [1, 2] WLAN_SP_MESH_PEERING_OPEN 0 (with_peering (sample_elems []) [0, 0, 9, 0])"

definition sample_confirm :: mesh_event where
  "sample_confirm = PlinkRx mesh_sample_env False [1, 2] WLAN_SP_MESH_PEERING_CONFIRM 1 (with_peering (sample_elems []) [0, 0, 9, 0, 5, 0])"

lemma sample_bytes: "[0, 0, 9, 0] = 0 # 0 # le16_bytes 9" "[0, 0, 9, 0, 5, 0] = 0 # 0 # le16_bytes 9 @ le16_bytes 5"
  by (simp_all add: le16_bytes_def)

lemma sample_run: "\<exists>m1 m2. mesh_run sample_mesh [sample_beacon, sample_open] = Some m1 \<and> link_is 0 NL80211_PLINK_OPN_RCVD 5 9 m1 \<and>
    mesh_run sample_mesh [sample_beacon, sample_open, sample_confirm] = Some m2 \<and> link_is 0 NL80211_PLINK_ESTAB 5 9 m2"
proof -
  obtain m1 aid where m1: "mesh_step (sample_peer [1, 2]) sample_open = Some m1" "can_peer mesh_sample_env (sample_elems []) [1, 2] 0 m1"
    "link_is 0 NL80211_PLINK_OPN_RCVD 5 9 m1"
    using take_open_listening [OF sample_can_peer [of "[]" "[1, 2]"] sample_listens, of 0 9] by (auto simp: mesh_step_def sample_open_def sample_bytes)
  obtain m2 where "mesh_step m1 sample_confirm = Some m2" "link_is 0 NL80211_PLINK_ESTAB 5 9 m2"
    using take_confirm [OF m1(2,3), of 1] by (auto simp: mesh_step_def sample_confirm_def sample_bytes)
  then show ?thesis using m1 by (simp add: mesh_run_def mesh_feed_def sample_beacon_step)
qed

lemma sample_kernel: "mesh_started sample_mesh" "kernel_mpm sample_mesh"
  by (simp_all add: mesh_started_def kernel_mpm_def sample_mesh_def)

lemma in_first: "link_is 0 st x y m \<Longrightarrow> 0 < length (mi_stas m) \<and> ms_plink_state (sta_of 0 m) = st \<and> ms_llid (sta_of 0 m) = x \<and> ms_plid (sta_of 0 m) = y"
  by (simp add: link_is_def lk_fields) (simp add: view_def)

theorem established_links_counted_witness:
  "\<exists>m. mesh_run sample_mesh [sample_beacon, sample_open, sample_confirm] = Some m \<and> established (sta_of 0 m) \<and>
    mi_estab_plinks m = int (length (filter established (mi_stas m)))"
proof -
  obtain m2 where m: "mesh_run sample_mesh [sample_beacon, sample_open, sample_confirm] = Some m2" "link_is 0 NL80211_PLINK_ESTAB 5 9 m2"
    using sample_run by blast
  have "mi_estab_plinks m2 = int (length (filter established (mi_stas m2)))"
    by (rule established_links_counted [OF _ m(1)]) (simp add: sample_mesh_def)
  then show ?thesis using m in_first [OF m(2)] by (auto simp: established_def)
qed

theorem peering_limits_witness:
  "\<exists>m. mesh_run sample_mesh [sample_beacon, sample_open] = Some m \<and> mi_estab_plinks m \<le> uint (dot11MeshMaxPeerLinks (mi_mshcfg m)) \<and>
    (\<exists>m2. mesh_plink_timer mesh_sample_env 0 m = Some m2) \<and>
    unat (ms_plink_timeout (sta_of 0 m)) \<le> unat (dot11MeshRetryTimeout (mi_mshcfg m)) * 2 ^ unat (ms_plink_retries (sta_of 0 m))"
proof -
  obtain m1 where m: "mesh_run sample_mesh [sample_beacon, sample_open] = Some m1" "link_is 0 NL80211_PLINK_OPN_RCVD 5 9 m1"
    using sample_run by blast
  show ?thesis using peering_limits [OF sample_kernel m(1), of 0 mesh_sample_env] m in_first [OF m(2)] by auto
qed

theorem established_by_handshake_witness:
  "\<exists>m p q. mesh_run sample_mesh [sample_beacon, sample_open, sample_confirm] = Some m \<and> ms_plink_state (sta_of 0 m) = NL80211_PLINK_ESTAB \<and>
    OpenFrame (ms_addr (sta_of 0 m)) p \<in> cause_of ` {sample_beacon, sample_open, sample_confirm} \<and>
    ConfirmFrame (ms_addr (sta_of 0 m)) q 5 \<in> cause_of ` {sample_beacon, sample_open, sample_confirm} \<and> (p = 9 \<or> p = 0) \<and> (q = 9 \<or> q = 0)"
proof -
  obtain m2 where m: "mesh_run sample_mesh [sample_beacon, sample_open, sample_confirm] = Some m2" "link_is 0 NL80211_PLINK_ESTAB 5 9 m2"
    using sample_run by blast
  show ?thesis
    using established_by_handshake [OF sample_kernel m(1), of 0] m in_first [OF m(2)]
    by (auto simp: sample_beacon_def sample_open_def sample_confirm_def)
qed


definition sample_estab :: mesh_if where
  "sample_estab = sample_mesh\<lparr>mi_stas := [(peer_sta [1, 2])\<lparr>ms_plink_state := NL80211_PLINK_ESTAB, ms_llid := 5, ms_plid := 9,
     ms_peer_pm := NL80211_MESH_POWER_ACTIVE\<rparr>], mi_num_sta := 1, mi_estab_plinks := 1\<rparr>"

lemma sample_estab_matches: "base_conf m = base_conf sample_mesh \<Longrightarrow> mesh_matches_local sample_store False m (sample_elems p) = Some True"
  using matches_same [of m sample_mesh sample_store False "Some p" "sample_elems p"] sample_matches [of p] by (simp add: sample_elems_def)

theorem nonmatching_peer_accepted_witness:
  "mesh_plink_get_event mesh_sample_env sample_mesh (Some (peer_sta [1, 2])) ((sample_elems [0, 0, 9, 0])\<lparr>el_mesh_id := Some [8]\<rparr>)
     WLAN_SP_MESH_PEERING_OPEN 4 0 9 = Some OPN_ACPT"
proof -
  have "mesh_matches_local (en_chans mesh_sample_env) (en_vht_ext_nss_bw mesh_sample_env) sample_mesh ((sample_elems [0, 0, 9, 0])\<lparr>el_mesh_id := Some [8]\<rparr>) = Some False"
    by (simp add: mesh_matches_local_def sample_mesh_def)
  from nonmatching_peer_accepted [OF this, of "peer_sta [1, 2]" 9 4 0] show ?thesis
    by (simp add: peer_sta_def new_mesh_sta_def test_sta_flag_def mesh_plink_free_count_def sample_mesh_def)
qed

theorem open_command_loses_id_witness:
  "\<exists>m. mesh_plink_open mesh_sample_env 0 sample_estab = Some (0, m) \<and> ms_plink_state (sta_of 0 m) = NL80211_PLINK_ESTAB \<and>
    mesh_plink_get_event mesh_sample_env m (Some (sta_of 0 m)) (sample_elems []) WLAN_SP_MESH_PEERING_CONFIRM 6 5 9 = Some CNF_IGNR"
proof -
  let ?m = "sta_upd 0 (\<lambda>s. s\<lparr>ms_llid := 6\<rparr>) sample_estab"
  have o: "mesh_plink_open mesh_sample_env 0 sample_estab = Some (0, ?m)"
    by (simp add: mesh_plink_open_def mesh_get_new_llid_def llid_in_use_def mesh_sample_env_def sample_estab_def sta_of_def sta_upd_def peer_sta_def
        new_mesh_sta_def test_sta_flag_def)
  have "mesh_matches_local (en_chans mesh_sample_env) (en_vht_ext_nss_bw mesh_sample_env) ?m (sample_elems []) = Some True"
    using sample_estab_matches [of ?m] by (simp add: mesh_sample_env_def base_conf_def sample_estab_def sta_upd_def)
  from open_command_loses_id [OF _ _ _ o this] o show ?thesis
    by (simp add: sample_estab_def sta_of_def peer_sta_def new_mesh_sta_def test_sta_flag_def)
qed

theorem handshake_establishes_witness:
  "\<exists>ch m1 n1 m2 n2. mesh_plink_open mesh_sample_env 0 (sample_peer [3]) = Some (ch, m1) \<and>
    deliver mesh_sample_env [1] [3] (sample_elems []) (sent (sample_peer [3]) m1) (sample_peer [1]) = Some n1 \<and>
    deliver mesh_sample_env [3] [1] (sample_elems []) (sent (sample_peer [1]) n1) m1 = Some m2 \<and>
    deliver mesh_sample_env [1] [3] (sample_elems []) (sent m1 m2) n1 = Some n2 \<and> established (sta_of 0 m2) \<and> established (sta_of 0 n2)"
  using handshake_establishes [OF sample_can_peer sample_can_peer, of "[3]" "[1]" 5 5 "[]" "[]"] in_first [OF sample_listens(1)] sample_listens(2)
  by fastforce

theorem sleeping_peers_miscounted_witness:
  "mi_num_sta_ps ((nap 0 0x1088 0x0088 (0, 0) ^^ 3) sample_estab) = -2"
proof -
  have f: "ieee80211_is_data_qos 0x1088" "ieee80211_has_pm 0x1088" "ieee80211_is_data_qos 0x0088" "\<not> ieee80211_has_pm 0x0088"
    by code_simp+
  have "mi_num_sta_ps ((nap 0 0x1088 0x0088 (0, 0) ^^ Suc 2) sample_estab) = mi_num_sta_ps sample_estab - int 2"
    using sleeping_peers_miscounted [OF _ _ _ _ _ f, of 0 sample_estab 2 "(0, 0)"]
    by (simp add: sample_estab_def sta_of_def peer_sta_def new_mesh_sta_def established_def test_sta_flag_def del: funpow.simps)
  then show ?thesis by (simp add: sample_estab_def sample_mesh_def numeral_3_eq_3 numeral_2_eq_2)
qed

end
