(* ===== verification/Spec2Isabelle.thy ===== *)
theory Spec2Isabelle
  imports RegHints AggTxSample RxDecrypt RxWindow MeshHandshake
begin

text \<open>
  A verification library for the wireless core of the repository: the Linux configuration layer
  cfg80211 (src/src/iwlwifi/net/wireless), the 802.11 stack mac80211 (net/mac80211) and the
  headers they share (include/linux/ieee80211.h, include/net). Paths below are relative to
  src/src/iwlwifi.

  \<^bold>\<open>The parts and how they interact.\<close>
  A device (\<open>wiphy\<close>) has bands with channels. The regulatory core (net/wireless/reg.c) keeps one
  domain in force, chosen among the hints of the core, the user, the drivers and received country
  elements, and writes flags into the channels of every device. Channel definitions
  (net/wireless/chan.c) name the channels an interface uses; chan.c answers, from those flags and the
  radar state of the channels, where an interface may beacon and when radar must be looked for.
  On the receive side mac80211 first decrypts a frame with a key of the sender or the interface
  (rx.c, wpa.c, wep.c, tkip.c), joins fragments (rx.c), and, before both, puts the frames of a block-ack
  session back in order (rx.c, agg-rx.c, ht.c). A mesh interface peers with its neighbours
  (mesh_plink.c): it matches their configuration, exchanges peering frames with them under timers, counts the links
  established and tracks which peers sleep (mesh_ps.c). On the transmit side every reason to hold a hardware queue
  is counted (util.c); frames for a held queue wait and are sent by a tasklet (tx.c); a block-ack session
  with a peer is negotiated by frames, callbacks of the driver, timers and a work item (agg-tx.c, ht.c), holds the
  frames of its traffic identifier meanwhile, and passes them on through the queues.

  \<^bold>\<open>The theories.\<close>
  \<^item> Prelude: machine integers (u8 to u64), error codes, C loops over frequencies, the locales of
    machines with invariants and with monotone levels that the components instantiate.
  \<^item> Nl80211, Wiphy: the enumerations of nl80211.h; channels, bands, devices (cfg80211.h), frequency
    and bandwidth arithmetic (net/wireless/util.c).
  \<^item> Chandef, Dfs, ChanState: all of net/wireless/chan.c: validity and compatibility of
    channel definitions, setting and reading radar state, permission to beacon, the channel in use.
  \<^item> Regdom, RegApply, RegHints: net/wireless/reg.c: rules, intersection of domains and lookup;
    flags of channels, HT40, beacon hints, sharing of radar state; the processing of hints and the
    domain in force.
  \<^item> RxReorder, AggRx: the reorder buffer of a block-ack session in net/mac80211/rx.c; opening and
    closing sessions in agg-rx.c and ht.c. RxWindow: the unbounded ordered window the ring implements.
  \<^item> TxQueue: the hardware queues with their stop reasons, the pending frames and the tasklet (net/mac80211/util.c,
    tx.c; the count of aggregation set-ups of agg-tx.c). TxQueueInv, TxQueueRun: the queues as a machine, its invariants,
    what holds over runs, and faults. TxQueueOrder: the order of the frames of a queue.
  \<^item> AggTx: transmit block-ack sessions, agg-tx.c with the transmit halves of ht.c, \<open>ieee80211_tx_prep_agg\<close> of tx.c, the
    pending block-ack request of status.c and the end of a station in sta_info.c. AggTxInv: the invariant of a session. AggTxLog,
    AggTxOps: one relation between the states before and after that every operation satisfies (requests counted, frames
    conserved, calls of the driver in order). AggTxRun: the machine and its properties over runs. AggFrames: the block-ack
    frames as bytes and their dispatch, the agreement of AggTx with AggRx. AggTxSample: concrete runs.
  \<^item> Frames: the bytes of a socket buffer (\<open>sk_buff\<close> as head room, data and tail room) and the
    header predicates of ieee80211.h. PacketNumber: packet numbers as 48-bit counters.
  \<^item> Ccmp, Wep, Michael, Tkip, Bip, HwCipher: the ciphers of net/mac80211 (wpa.c, wep.c,
    michael.c, tkip.c, aead_api.c, aes_ccm.h, aes_gcm.h, aes_cmac.c, aes_gmac.c) on transmission and reception.
  \<^item> Defrag: the fragment cache and \<open>ieee80211_rx_h_defragment\<close> of rx.c.
  \<^item> RxDecrypt: \<open>ieee80211_rx_h_decrypt\<close> of rx.c, the choice of the key and the dispatch to the ciphers.
  \<^item> MeshPs, MeshConf, MeshPlink: stations of a mesh interface, link counts, protection modes and power save
    (mesh.h, mesh.c, mesh_ps.c); rates, operation elements and the matching of configurations (util.c, mesh.c); the
    peer link state machine, its frames, timers and stations (mesh_plink.c, cfg.c, sta_info.c).
  \<^item> MeshSpec: the peering protocol as a transition relation on links, with its invariants. MeshLink: the
    simulation of MeshPlink in MeshSpec (\<open>view\<close> maps an interface to its links), the
    properties over runs of events, and faults. MeshHandshake: two interfaces that exchange their frames.

  \<^bold>\<open>Conventions.\<close>
  A C structure is a record with the fields the modelled code uses, an enumeration a datatype, an
  integer a word of its width, written as \<open>int\<close> or \<open>nat\<close> where the code's values cannot
  wrap; pointers to shared objects (channels, keys) are numbers into a store. The outer \<open>option\<close> of
  an operation is None where the C code would access memory it does not own, run into a kernel
  assertion or not terminate: a theorem that an operation returns is stated as \<open>\<exists>y. f x = Some y\<close>.
  Error codes of the code are values (\<open>Inl\<close> with the error, or the result enumeration of the handler).
  Socket buffers are linear.
  Parameters stand for what is not part of the repository's own logic: the regulatory database, the
  driver's callbacks, the memory allocator, the kernel's transforms (AES in CCM, GCM, CMAC and GMAC mode,
  RC4, CRC32), the contents of uninitialised stack and heap memory, and the clock. The laws
  they are relied on for are hypotheses with these names: \<open>aead_correct\<close> (decryption inverts
  encryption), \<open>wep_lib_ok\<close> (RC4 is an involution that keeps the length).

  \<^bold>\<open>What the lemmas show.\<close>
  Channels: an interface beacons only on enabled channels that exist and have passed radar
  detection; compatibility returns a definition that covers both; setting radar state changes exactly the
  channels of the definition. Regulatory core: an intersection permits no more than both domains and loses no
  sane pair of rules; after an update every channel is disabled or permitted by the domain; a user hint after
  a country element only restricts. Reordering: every run of the ring is a run of an unbounded ordered window, no frame is lost or duplicated,
  every call returns for rings that divide 4096 with at most 64 slots, and no sequence of
  management frames, driver requests and data frames breaks a session. Ciphers: round trips
  of CCMP, TKIP, WEP and BIP, the Michael code equals its standard definition, packet numbers are
  never reused on transmission and never accepted twice on reception, the last also for the whole decryption
  handler over every mix of keys and ciphers. Mesh: the count of established links is right and within its limit over
  every run of events, an established link goes back to a handshake, two stations that match establish a link,
  silent peers are given up. Transmission: no wake-up
  of a queue is lost and frames of a queue stay in order; a transmit session is operational only when driver and peer
  are ready, asks a silent peer at most sixteen times, loses none of the frames it holds, tells the driver of its states in
  the order of a protocol unless a callback of the driver comes too late, and is not freed with a timer armed; the
  windows the two ends of a session agree on fit. Defragmentation: a frame handed on is the concatenation of
  consecutive fragments that were received. Where the code departs from what it means to do, a theorem
  states the behaviour it has; such theorems are named in the findings of the manifest.

  \<^bold>\<open>Bounds.\<close> Loops over memory are structural recursions on the number of slots (a ring has at
  most 64, the fragment cache 4); loops whose end the code tests by a wrapping comparison are partial
  functions, with theorems that they return. Packet numbers are 48 bits of a 64-bit counter, so that
  statements on their uniqueness bound the number of frames by \<open>2 ^ 48\<close>.

  \<^bold>\<open>Not modelled.\<close>
  The user interface (nl80211.c and the wireless extensions) and the tracing, debugfs and sysfs files:
  marshalling. The drivers under drivers/net/wireless/intel/iwlwifi: firmware commands, device registers
  and DMA. The rest of mac80211: the transmit handlers that build, encrypt and fragment a frame (a parameter of the
  pending tasklet; the ciphers they call are modelled), the fair queueing behind them, rate control, station
  management, mesh path selection and synchronisation. Locks and interrupts: every operation is atomic, as the code's locks make it, except
  where a fault of the interleaving is shown (\<open>TxQueueRun.agg_step\<close>). The
  backports layer and its vendored crypto library are not the program's own logic.
\<close>

end
